(* ===== verification/Prelude.thy ===== *)
theory Prelude
  imports Main
begin

section \<open>Shared automation and generic lemmas\<close>

text \<open>
  What every component of the development uses: the type of fallible results with its
  sequencing operator, the collections of simplification rules, and generic lemmas on lists,
  association lists and character ranges.

  A Python call that may raise returns \<open>exn + 'a\<close>: \<open>Inl e\<close> is the raised exception, \<open>Inr x\<close>
  the returned value. \<open>result_bind r f\<close> runs \<open>f\<close> on the value of \<open>r\<close> and lets an exception
  of \<open>r\<close> pass through, as the next statement of a Python function does.
\<close>

named_theorems post_init_simps
  \<open>equations that decide when a dataclass constructor accepts its fields\<close>

named_theorems value_simps
  \<open>equations that evaluate the enumerations of the code (string values, tables)\<close>

subsection \<open>Results\<close>

definition result_bind :: "'e + 'a \<Rightarrow> ('a \<Rightarrow> 'e + 'b) \<Rightarrow> 'e + 'b" where
  "result_bind r f = (case r of Inl e \<Rightarrow> Inl e | Inr x \<Rightarrow> f x)"

lemma result_bind_Inl [simp]: "result_bind (Inl e) f = Inl e"
  by (simp add: result_bind_def)

lemma result_bind_Inr [simp]: "result_bind (Inr x) f = f x"
  by (simp add: result_bind_def)

lemma result_bind_eq_Inr: "result_bind r f = Inr y \<longleftrightarrow> (\<exists>x. r = Inr x \<and> f x = Inr y)"
  by (cases r) auto

lemma result_bind_eq_Inl:
  "result_bind r f = Inl e \<longleftrightarrow> r = Inl e \<or> (\<exists>x. r = Inr x \<and> f x = Inl e)"
  by (cases r) auto

lemma result_bind_assoc:
  "result_bind (result_bind r f) g = result_bind r (\<lambda>x. result_bind (f x) g)"
  by (cases r) auto

text \<open>\<open>require ok e\<close> is the statement \<open>if not ok: raise e\<close>.\<close>

definition require :: "bool \<Rightarrow> 'e \<Rightarrow> 'e + unit" where
  "require ok e = (if ok then Inr () else Inl e)"

lemma require_eq_Inr [simp]: "require ok e = Inr u \<longleftrightarrow> ok"
  by (simp add: require_def)

lemma require_eq_Inl [simp]: "require ok e = Inl e' \<longleftrightarrow> \<not> ok \<and> e' = e"
  by (auto simp: require_def)

lemma require_True [simp]: "require True e = Inr ()"
  by (simp add: require_def)

lemma require_False [simp]: "require False e = Inl e"
  by (simp add: require_def)

text \<open>A sequence of fallible steps over a list: the first exception stops it.\<close>

fun traverse :: "('a \<Rightarrow> 'e + 'b) \<Rightarrow> 'a list \<Rightarrow> 'e + 'b list" where
  "traverse f [] = Inr []"
| "traverse f (x # xs) =
     result_bind (f x) (\<lambda>y. result_bind (traverse f xs) (\<lambda>ys. Inr (y # ys)))"

lemma traverse_cong [fundef_cong]:
  "xs = ys \<Longrightarrow> (\<And>x. x \<in> set ys \<Longrightarrow> f x = g x) \<Longrightarrow> traverse f xs = traverse g ys"
  by (induction xs arbitrary: ys) auto

lemma traverse_map: "traverse f (map g xs) = traverse (f \<circ> g) xs"
  by (induction xs) auto

lemma traverse_all_Inr: "(\<And>x. x \<in> set xs \<Longrightarrow> f x = Inr (g x)) \<Longrightarrow> traverse f xs = Inr (map g xs)"
  by (induction xs) auto

lemma traverse_Inr_length: "traverse f xs = Inr ys \<Longrightarrow> length ys = length xs"
  by (induction xs arbitrary: ys) (auto simp: result_bind_eq_Inr)

subsection \<open>Characters\<close>

text \<open>A character range of a regular expression, such as \<open>[a-z]\<close>.\<close>

definition char_in :: "char \<Rightarrow> char \<Rightarrow> char \<Rightarrow> bool" where
  "char_in lo hi c \<longleftrightarrow>
     (of_char lo :: nat) \<le> of_char c \<and> (of_char c :: nat) \<le> of_char hi"

definition is_digit :: "char \<Rightarrow> bool" where
  "is_digit c \<longleftrightarrow> char_in CHR ''0'' CHR ''9'' c"

definition is_lower :: "char \<Rightarrow> bool" where
  "is_lower c \<longleftrightarrow> char_in CHR ''a'' CHR ''z'' c"

definition is_upper :: "char \<Rightarrow> bool" where
  "is_upper c \<longleftrightarrow> char_in CHR ''A'' CHR ''Z'' c"

definition is_alnum :: "char \<Rightarrow> bool" where
  "is_alnum c \<longleftrightarrow> is_upper c \<or> is_lower c \<or> is_digit c"

lemmas char_class_defs = char_in_def is_digit_def is_lower_def is_upper_def is_alnum_def

subsection \<open>Lists and association lists\<close>

fun starts_with :: "string \<Rightarrow> string \<Rightarrow> bool" where
  "starts_with [] s = True"
| "starts_with (p # ps) [] = False"
| "starts_with (p # ps) (c # s) = (p = c \<and> starts_with ps s)"

lemma starts_with_append [simp]: "starts_with p (p @ s)"
  by (induction p) auto

text \<open>\<open>dict.fromkeys\<close> as an ordered set: the first occurrence of each element, in order.\<close>

fun dedup_acc :: "'a list \<Rightarrow> 'a list \<Rightarrow> 'a list" where
  "dedup_acc seen [] = []"
| "dedup_acc seen (x # xs) =
     (if x \<in> set seen then dedup_acc seen xs else x # dedup_acc (x # seen) xs)"

definition dedup :: "'a list \<Rightarrow> 'a list" where
  "dedup xs = dedup_acc [] xs"

lemma set_dedup_acc: "set (dedup_acc seen xs) = set xs - set seen"
  by (induction seen xs rule: dedup_acc.induct) auto

lemma distinct_dedup_acc: "distinct (dedup_acc seen xs)"
  by (induction seen xs rule: dedup_acc.induct) (auto simp: set_dedup_acc)

lemma dedup_acc_id: "distinct xs \<Longrightarrow> set xs \<inter> set seen = {} \<Longrightarrow> dedup_acc seen xs = xs"
  by (induction seen xs rule: dedup_acc.induct) auto

lemma set_dedup [simp]: "set (dedup xs) = set xs"
  by (simp add: dedup_def set_dedup_acc)

lemma distinct_dedup [simp]: "distinct (dedup xs)"
  by (simp add: dedup_def distinct_dedup_acc)

lemma dedup_distinct: "distinct xs \<Longrightarrow> dedup xs = xs"
  by (simp add: dedup_def dedup_acc_id)

lemma dedup_dedup [simp]: "dedup (dedup xs) = dedup xs"
  by (rule dedup_distinct) simp

lemma sorted_snoc_last:
  assumes "sorted xs" and "xs \<noteq> []" and "(last xs :: int) \<le> x"
  shows "sorted (xs @ [x])"
proof -
  have "sorted (butlast xs @ [last xs])" using assms(1,2) by simp
  then have "\<forall>y \<in> set (butlast xs). y \<le> last xs" by (simp add: sorted_append)
  moreover have "set xs = insert (last xs) (set (butlast xs))"
    using assms(2) by (metis append_butlast_last_id list.simps(15) rotate1.simps(2) set_rotate1)
  ultimately show ?thesis using assms by (auto simp: sorted_append)
qed

lemma upto_snoc: "1 \<le> v \<Longrightarrow> [1..v + 1] = [1..v] @ [v + (1::int)]"
  by (metis add_diff_cancel_right' le_add_same_cancel1 order_trans upto_rec2 zero_le_one)

lemma filter_greater_upto: "1 \<le> a + 1 \<Longrightarrow> filter (\<lambda>i. i > a) [1..v] = [a + 1..(v::int)]"
proof -
  assume a: "1 \<le> a + 1"
  show ?thesis
  proof (cases "a \<le> v")
    case True
    then have "[1..v] = [1..a] @ [a + 1..v]"
      using upto_split2 [of 1 a v] a by (cases "a = 0") simp_all
    moreover have "filter (\<lambda>i. i > a) [1..a] = []" by (simp add: filter_empty_conv)
    moreover have "filter (\<lambda>i. i > a) [a + 1..v] = [a + 1..v]" by (simp add: filter_id_conv)
    ultimately show ?thesis by simp
  next
    case False
    then show ?thesis by (simp add: filter_empty_conv)
  qed
qed

lemma take_upto: "0 \<le> n \<Longrightarrow> take (nat n) [m..v] = [m..min (m + n - 1) (v::int)]"
proof -
  assume n: "0 \<le> n"
  show ?thesis
  proof (cases "m + n - 1 \<le> v \<and> m \<le> m + n")
    case True
    then have "[m..v] = [m..m + n - 1] @ [m + n..v]"
      using upto_split2 [of m "m + n - 1" v] n by (cases "n = 0") simp_all
    moreover have "length [m..m + n - 1] = nat n" by simp
    ultimately show ?thesis using True by (simp add: min_def)
  next
    case False
    with n show ?thesis by (simp add: min_def)
  qed
qed

lemma take_filter_upto:
  "0 \<le> a \<Longrightarrow> 1 \<le> l \<Longrightarrow>
     take (nat l) (filter (\<lambda>i. i > a) [1..v]) = [a + 1..min (a + l) (v::int)]"
  by (simp add: filter_greater_upto take_upto)

text \<open>A Python dictionary that keeps insertion order: assignment replaces in place or appends.\<close>

fun dict_set :: "'k \<Rightarrow> 'v \<Rightarrow> ('k \<times> 'v) list \<Rightarrow> ('k \<times> 'v) list" where
  "dict_set k v [] = [(k, v)]"
| "dict_set k v ((k', v') # d) =
     (if k' = k then (k, v) # d else (k', v') # dict_set k v d)"

fun dict_update :: "('k \<times> 'v) list \<Rightarrow> ('k \<times> 'v) list \<Rightarrow> ('k \<times> 'v) list" where
  "dict_update d [] = d"
| "dict_update d ((k, v) # e) = dict_update (dict_set k v d) e"

lemma map_of_dict_set [simp]: "map_of (dict_set k v d) = (map_of d)(k \<mapsto> v)"
  by (induction d) auto

lemma set_fst_dict_set [simp]: "fst ` set (dict_set k v d) = insert k (fst ` set d)"
  by (induction k v d rule: dict_set.induct) (simp_all add: insert_commute)

lemma distinct_dict_set: "distinct (map fst d) \<Longrightarrow> distinct (map fst (dict_set k v d))"
  by (induction k v d rule: dict_set.induct) auto

lemma dict_set_fresh: "k \<notin> fst ` set d \<Longrightarrow> dict_set k v d = d @ [(k, v)]"
  by (induction d) auto

text \<open>Two dictionaries are equal when they hold the same entries, in any order.\<close>

definition dict_eq :: "('k \<times> 'v) list \<Rightarrow> ('k \<times> 'v) list \<Rightarrow> bool" where
  "dict_eq d e \<longleftrightarrow> set d = set e"

lemma dict_eq_refl [simp]: "dict_eq d d"
  by (simp add: dict_eq_def)

end
