(* ===== verification/Identifiers.thy ===== *)
theory Identifiers
  imports Prelude
begin

section \<open>Identifiers\<close>

text \<open>
  \<open>src/zhiyi/domain/runs/identifiers.py\<close> and the identifier of a worker of
  \<open>src/zhiyi/domain/worker_leases/identifiers.py\<close>: every identifier class of the code is a
  type of its own, so that a tenant is never a run. A Python object of such a class exists
  only after \<open>__post_init__\<close> accepted its value; here that check is \<open>identifier_pattern\<close>,
  and the constructors that apply it (and raise) are in the theory of the errors. A Python
  \<open>str\<close> is a list of characters.
\<close>

datatype tenant_id = TenantId (tenant_id_value: string)
datatype agent_id = AgentId (agent_id_value: string)
datatype agent_version_id = AgentVersionId (agent_version_id_value: string)
datatype task_id = TaskId (task_id_value: string)
datatype run_id = RunId (run_id_value: string)
datatype command_id = CommandId (command_id_value: string)
datatype event_id = EventId (event_id_value: string)
datatype charge_id = ChargeId (charge_id_value: string)
datatype correlation_id = CorrelationId (correlation_id_value: string)
datatype reference_id = ReferenceId (reference_id_value: string)
datatype worker_id = WorkerId (worker_id_value: string)

text \<open>\<open>_IDENTIFIER_PATTERN\<close>: \<open>[A-Za-z0-9][A-Za-z0-9._:-]{0,127}\<close>, matched in full.\<close>

definition identifier_char :: "char \<Rightarrow> bool" where
  "identifier_char c \<longleftrightarrow> is_alnum c \<or> c \<in> set ''._:-''"

fun identifier_pattern :: "string \<Rightarrow> bool" where
  "identifier_pattern [] = False"
| "identifier_pattern (c # cs) =
     (is_alnum c \<and> length cs \<le> 127 \<and> list_all identifier_char cs)"

text \<open>\<open>_DIGEST_PATTERN\<close>: \<open>sha256:[0-9a-f]{64}\<close>, matched in full.\<close>

definition hex_char :: "char \<Rightarrow> bool" where
  "hex_char c \<longleftrightarrow> is_digit c \<or> char_in CHR ''a'' CHR ''f'' c"

definition digest_pattern :: "string \<Rightarrow> bool" where
  "digest_pattern s \<longleftrightarrow>
     starts_with ''sha256:'' s \<and> length s = 71 \<and> list_all hex_char (drop 7 s)"

record agent_version_ref =
  avr_tenant_id :: tenant_id
  avr_agent_id :: agent_id
  avr_version_id :: agent_version_id
  avr_build_digest :: string

text \<open>
  An identifier is at most 128 characters and not empty, and a digest of the pattern is the
  prefix with 64 hexadecimal digits.
\<close>

lemma identifier_pattern_length: "identifier_pattern s \<Longrightarrow> 1 \<le> length s \<and> length s \<le> 128"
  by (cases s) auto

lemma identifier_pattern_chars: "identifier_pattern s \<Longrightarrow> c \<in> set s \<Longrightarrow> identifier_char c"
  by (cases s) (auto simp: identifier_char_def list_all_iff)

lemma digest_patternI:
  "length h = 64 \<Longrightarrow> list_all hex_char h \<Longrightarrow> digest_pattern (''sha256:'' @ h)"
  by (simp add: digest_pattern_def)

lemma identifier_char_not_bar: "identifier_char c \<Longrightarrow> c \<noteq> CHR ''|''"
  by (auto simp: identifier_char_def char_class_defs)

lemma digest_pattern_not_empty: "digest_pattern s \<Longrightarrow> s \<noteq> []"
  by (auto simp: digest_pattern_def)

end
