(* ===== verification/Errors.thy ===== *)
theory Errors
  imports Identifiers
begin

section \<open>Stable error codes and exceptions\<close>

text \<open>
  The public error vocabularies of the code: \<open>domain/runs/errors.py\<close>, the repository errors of
  \<open>application/ports/run_repository.py\<close> and \<open>domain/worker_leases/errors.py\<close> (paths under
  \<open>src/zhiyi\<close>), each a \<open>StrEnum\<close> with its string value and its static public message. The
  type \<open>exn\<close> is what a modelled call may raise: the three public error classes, and the
  built-in exceptions the constructors raise (\<open>ArithmeticError\<close> stands for
  \<open>decimal.InvalidOperation\<close> and \<open>decimal.Overflow\<close>).
\<close>

subsection \<open>Run lifecycle errors\<close>

datatype run_error_code =
    RunInvalidInput
  | RunNotFound
  | RunIllegalTransition
  | RunVersionConflict
  | RunIdempotencyConflict
  | RunBudgetLimit
  | RunInvariantViolation
  | RunCancelled
  | RunFailed

fun run_error_code_value :: "run_error_code \<Rightarrow> string" where
  "run_error_code_value RunInvalidInput = ''invalid_input''"
| "run_error_code_value RunNotFound = ''not_found''"
| "run_error_code_value RunIllegalTransition = ''illegal_transition''"
| "run_error_code_value RunVersionConflict = ''version_conflict''"
| "run_error_code_value RunIdempotencyConflict = ''idempotency_conflict''"
| "run_error_code_value RunBudgetLimit = ''budget_limit''"
| "run_error_code_value RunInvariantViolation = ''invariant_violation''"
| "run_error_code_value RunCancelled = ''cancelled''"
| "run_error_code_value RunFailed = ''failed''"

fun safe_error_message :: "run_error_code \<Rightarrow> string" where
  "safe_error_message RunInvalidInput = ''Run input is invalid''"
| "safe_error_message RunNotFound = ''Run was not found''"
| "safe_error_message RunIllegalTransition = ''Run transition is not allowed''"
| "safe_error_message RunVersionConflict = ''Run version conflict''"
| "safe_error_message RunIdempotencyConflict = ''Run idempotency conflict''"
| "safe_error_message RunBudgetLimit = ''Run budget limit was reached''"
| "safe_error_message RunInvariantViolation = ''Run invariant was violated''"
| "safe_error_message RunCancelled = ''Run was cancelled''"
| "safe_error_message RunFailed = ''Run failed''"

definition all_run_error_codes :: "run_error_code list" where
  "all_run_error_codes =
     [RunInvalidInput, RunNotFound, RunIllegalTransition, RunVersionConflict,
      RunIdempotencyConflict, RunBudgetLimit, RunInvariantViolation, RunCancelled, RunFailed]"

text \<open>\<open>RunErrorCode(s)\<close>, the lookup of an enumeration member by its value.\<close>

definition run_error_code_of :: "string \<Rightarrow> run_error_code option" where
  "run_error_code_of s = find (\<lambda>c. run_error_code_value c = s) all_run_error_codes"

lemma run_error_code_of_value [simp]: "run_error_code_of (run_error_code_value c) = Some c"
  by (cases c) (simp_all add: run_error_code_of_def all_run_error_codes_def)

lemma run_error_code_value_inj: "run_error_code_value c = run_error_code_value d \<longleftrightarrow> c = d"
  by (metis option.inject run_error_code_of_value)

text \<open>\<open>RunLifecycleError.__str__\<close>: the static message and the caller's correlation id, only.\<close>

definition correlation_suffix :: "correlation_id option \<Rightarrow> string" where
  "correlation_suffix c =
     (case c of None \<Rightarrow> []
      | Some i \<Rightarrow> '' (correlation_id='' @ correlation_id_value i @ '')'')"

definition run_lifecycle_error_str :: "run_error_code \<Rightarrow> correlation_id option \<Rightarrow> string" where
  "run_lifecycle_error_str code c = safe_error_message code @ correlation_suffix c"

text \<open>\<open>__repr__\<close>: identifiers hold no quote and no backslash, so \<open>!r\<close> only adds the quotes.\<close>

definition quoted :: "string \<Rightarrow> string" where
  "quoted s = [CHR 0x27] @ s @ [CHR 0x27]"

definition run_lifecycle_error_repr :: "run_error_code \<Rightarrow> correlation_id option \<Rightarrow> string" where
  "run_lifecycle_error_repr code c =
     ''RunLifecycleError(code='' @ quoted (run_error_code_value code) @ '', correlation_id='' @
     quoted (case c of None \<Rightarrow> ''None'' | Some i \<Rightarrow> correlation_id_value i) @ '')''"

definition correlation_repr :: "correlation_id option \<Rightarrow> string" where
  "correlation_repr c = (case c of None \<Rightarrow> ''None'' | Some i \<Rightarrow> quoted (correlation_id_value i))"

subsection \<open>Repository errors\<close>

datatype run_repository_error_code =
    RepoStorageUnavailable
  | RepoCommitOutcomeUnknown
  | RepoDataCorruption
  | RepoSchemaIncompatible

fun run_repository_error_code_value :: "run_repository_error_code \<Rightarrow> string" where
  "run_repository_error_code_value RepoStorageUnavailable = ''storage_unavailable''"
| "run_repository_error_code_value RepoCommitOutcomeUnknown = ''commit_outcome_unknown''"
| "run_repository_error_code_value RepoDataCorruption = ''data_corruption''"
| "run_repository_error_code_value RepoSchemaIncompatible = ''schema_incompatible''"

fun safe_repository_error_message :: "run_repository_error_code \<Rightarrow> string" where
  "safe_repository_error_message RepoStorageUnavailable = ''Run storage is unavailable''"
| "safe_repository_error_message RepoCommitOutcomeUnknown =
     ''Run storage commit outcome is unknown''"
| "safe_repository_error_message RepoDataCorruption = ''Run storage data is invalid''"
| "safe_repository_error_message RepoSchemaIncompatible = ''Run storage schema is incompatible''"

definition run_repository_error_str ::
    "run_repository_error_code \<Rightarrow> correlation_id option \<Rightarrow> string" where
  "run_repository_error_str code c = safe_repository_error_message code @ correlation_suffix c"

definition run_repository_error_repr ::
    "run_repository_error_code \<Rightarrow> correlation_id option \<Rightarrow> string" where
  "run_repository_error_repr code c =
     ''RunRepositoryError(code='' @ quoted (run_repository_error_code_value code) @
     '', correlation_id='' @ correlation_repr c @ '')''"

subsection \<open>Worker lease errors\<close>

datatype worker_lease_error_code =
    LeaseInvalidInput
  | LeaseIdempotencyConflict
  | LeaseIdempotencyExpired
  | LeaseNotCurrent
  | LeaseExpired
  | LeaseStorageUnavailable
  | LeaseCommitOutcomeUnknown
  | LeaseDataCorruption
  | LeaseSchemaIncompatible

fun worker_lease_error_code_value :: "worker_lease_error_code \<Rightarrow> string" where
  "worker_lease_error_code_value LeaseInvalidInput = ''invalid_input''"
| "worker_lease_error_code_value LeaseIdempotencyConflict = ''idempotency_conflict''"
| "worker_lease_error_code_value LeaseIdempotencyExpired = ''idempotency_expired''"
| "worker_lease_error_code_value LeaseNotCurrent = ''lease_not_current''"
| "worker_lease_error_code_value LeaseExpired = ''lease_expired''"
| "worker_lease_error_code_value LeaseStorageUnavailable = ''storage_unavailable''"
| "worker_lease_error_code_value LeaseCommitOutcomeUnknown = ''commit_outcome_unknown''"
| "worker_lease_error_code_value LeaseDataCorruption = ''data_corruption''"
| "worker_lease_error_code_value LeaseSchemaIncompatible = ''schema_incompatible''"

fun safe_worker_lease_error_message :: "worker_lease_error_code \<Rightarrow> string" where
  "safe_worker_lease_error_message LeaseInvalidInput = ''Worker lease input is invalid''"
| "safe_worker_lease_error_message LeaseIdempotencyConflict =
     ''Worker lease idempotency conflict''"
| "safe_worker_lease_error_message LeaseIdempotencyExpired =
     ''Worker lease idempotency window expired''"
| "safe_worker_lease_error_message LeaseNotCurrent = ''Worker lease is not current''"
| "safe_worker_lease_error_message LeaseExpired = ''Worker lease expired''"
| "safe_worker_lease_error_message LeaseStorageUnavailable =
     ''Worker lease storage is unavailable''"
| "safe_worker_lease_error_message LeaseCommitOutcomeUnknown =
     ''Worker lease storage commit outcome is unknown''"
| "safe_worker_lease_error_message LeaseDataCorruption = ''Worker lease storage data is invalid''"
| "safe_worker_lease_error_message LeaseSchemaIncompatible =
     ''Worker lease storage schema is incompatible''"

definition worker_lease_error_str ::
    "worker_lease_error_code \<Rightarrow> correlation_id option \<Rightarrow> string" where
  "worker_lease_error_str code c = safe_worker_lease_error_message code @ correlation_suffix c"

definition worker_lease_error_repr ::
    "worker_lease_error_code \<Rightarrow> correlation_id option \<Rightarrow> string" where
  "worker_lease_error_repr code c =
     ''WorkerLeaseError(code='' @ quoted (worker_lease_error_code_value code) @
     '', correlation_id='' @ correlation_repr c @ '')''"

subsection \<open>Exceptions\<close>

datatype exn =
    ValueError
  | TypeError
  | KeyError
  | OverflowError
  | ArithmeticError
  | RunLifecycleError run_error_code
  | RunRepositoryError run_repository_error_code
  | WorkerLeaseError worker_lease_error_code

text \<open>
  The constructor of an identifier class: \<open>_Identifier.__post_init__\<close> raises \<open>ValueError\<close>
  unless the value is a safe ASCII string of at most 128 characters.
\<close>

definition new_identifier :: "(string \<Rightarrow> 'i) \<Rightarrow> string \<Rightarrow> exn + 'i" where
  "new_identifier cls s = (if identifier_pattern s then Inr (cls s) else Inl ValueError)"

lemma new_identifier_Inr [simp]:
  "new_identifier cls s = Inr i \<longleftrightarrow> identifier_pattern s \<and> i = cls s"
  by (auto simp: new_identifier_def)

text \<open>The constructor of \<open>AgentVersionRef\<close>.\<close>

definition agent_version_ref_post_init :: "agent_version_ref \<Rightarrow> exn + agent_version_ref" where
  "agent_version_ref_post_init r =
     (if \<not> digest_pattern (avr_build_digest r) then Inl ValueError else Inr r)"

text \<open>A reference that can exist in the program: each identifier passed its constructor.\<close>

definition agent_version_ref_ok :: "agent_version_ref \<Rightarrow> bool" where
  "agent_version_ref_ok r \<longleftrightarrow>
     identifier_pattern (tenant_id_value (avr_tenant_id r)) \<and>
     identifier_pattern (agent_id_value (avr_agent_id r)) \<and>
     identifier_pattern (agent_version_id_value (avr_version_id r)) \<and>
     digest_pattern (avr_build_digest r)"

lemma agent_version_ref_post_init_ok:
  "agent_version_ref_ok r \<Longrightarrow> agent_version_ref_post_init r = Inr r"
  by (simp add: agent_version_ref_ok_def agent_version_ref_post_init_def)

end
