(* ===== verification/Python_Values.thy ===== *)
theory Python_Values
  imports Errors
begin

section \<open>Python values the code computes with: integers as text, decimals, timestamps\<close>

text \<open>
  What the code uses of the standard library: \<open>str\<close> and \<open>int\<close> on integers with the
  interpreter's limit of 4300 digits, \<open>decimal.Decimal\<close> as sign, coefficient and exponent,
  and \<open>datetime.datetime\<close> as a count of microseconds with an optional UTC offset.
\<close>

subsection \<open>Decimal digits of a natural number\<close>

fun nat_digits :: "nat \<Rightarrow> nat list" where
  "nat_digits n = (if n < 10 then [n] else nat_digits (n div 10) @ [n mod 10])"

declare nat_digits.simps [simp del]

definition digits_value :: "nat list \<Rightarrow> nat" where
  "digits_value ds = foldl (\<lambda>a d. 10 * a + d) 0 ds"

lemma digits_value_Nil [simp]: "digits_value [] = 0"
  by (simp add: digits_value_def)

lemma digits_value_snoc [simp]: "digits_value (ds @ [d]) = 10 * digits_value ds + d"
  by (simp add: digits_value_def)

lemma digits_value_single [simp]: "digits_value [d] = d"
  by (simp add: digits_value_def)

lemma digits_value_append:
  "digits_value (xs @ ys) = digits_value xs * 10 ^ length ys + digits_value ys"
  by (induction ys rule: rev_induct) (simp_all add: algebra_simps flip: append_assoc)

lemma digits_value_Cons: "digits_value (d # ds) = d * 10 ^ length ds + digits_value ds"
  using digits_value_append [of "[d]" ds] by simp

lemma digits_value_replicate_0 [simp]: "digits_value (replicate n 0) = 0"
  by (induction n) (simp_all add: digits_value_Cons)

lemma digits_value_nat_digits [simp]: "digits_value (nat_digits n) = n"
proof (induction n rule: nat_digits.induct)
  case (1 n)
  then show ?case by (cases "n < 10") (simp_all add: nat_digits.simps [of n])
qed

lemma nat_digits_not_Nil [simp]: "nat_digits n \<noteq> []"
  by (simp add: nat_digits.simps [of n])

lemma nat_digits_small: "d \<in> set (nat_digits n) \<Longrightarrow> d < 10"
proof (induction n rule: nat_digits.induct)
  case (1 n)
  then show ?case by (cases "n < 10") (auto simp: nat_digits.simps [of n])
qed

lemma hd_nat_digits: "0 < n \<Longrightarrow> 0 < hd (nat_digits n)"
proof (induction n rule: nat_digits.induct)
  case (1 n)
  then show ?case by (cases "n < 10") (simp_all add: nat_digits.simps [of n])
qed

lemma digits_value_less: "(\<And>d. d \<in> set ds \<Longrightarrow> d < 10) \<Longrightarrow> digits_value ds < 10 ^ length ds"
proof (induction ds rule: rev_induct)
  case (snoc d ds)
  then have "digits_value ds < 10 ^ length ds" and "d < 10" by simp_all
  then show ?case by simp
qed simp

lemma nat_digits_unique:
  assumes "ds \<noteq> []" and "\<And>d. d \<in> set ds \<Longrightarrow> d < 10" and "length ds = 1 \<or> 0 < hd ds"
  shows "nat_digits (digits_value ds) = ds"
  using assms
proof (induction ds rule: rev_induct)
  case (snoc d ds)
  show ?case
  proof (cases "ds = []")
    case True
    with snoc.prems show ?thesis by (simp add: nat_digits.simps)
  next
    case False
    with snoc.prems have hd: "0 < hd ds" and d: "d < 10" by simp_all
    with snoc.IH snoc.prems False have IH: "nat_digits (digits_value ds) = ds" by simp
    obtain e es where ds: "ds = e # es" using False by (cases ds) auto
    with hd have "0 < digits_value ds" by (simp add: digits_value_Cons)
    with d have "\<not> digits_value (ds @ [d]) < 10" by simp
    with IH d show ?thesis by (simp add: nat_digits.simps [of "10 * digits_value ds + d"])
  qed
qed simp

lemma nat_digits_inj: "nat_digits m = nat_digits n \<longleftrightarrow> m = n"
  by (metis digits_value_nat_digits)

definition digit_char :: "nat \<Rightarrow> char" where
  "digit_char d = char_of (48 + d)"

definition digit_value :: "char \<Rightarrow> nat" where
  "digit_value c = of_char c - 48"

lemma digit_value_char [simp]: "d < 10 \<Longrightarrow> digit_value (digit_char d) = d"
  by (simp add: digit_value_def digit_char_def)

lemma digit_char_value [simp]: "is_digit c \<Longrightarrow> digit_char (digit_value c) = c"
  by (simp add: digit_value_def digit_char_def is_digit_def char_in_def)

lemma digit_value_less [simp]: "is_digit c \<Longrightarrow> digit_value c < 10"
  unfolding digit_value_def is_digit_def char_in_def by simp arith

lemma is_digit_digit_char [simp]: "d < 10 \<Longrightarrow> is_digit (digit_char d)"
  by (simp add: digit_char_def is_digit_def char_in_def)

lemma digit_char_0 [simp]: "digit_char 0 = CHR ''0''"
  by code_simp

lemma digit_char_eq_0: "d < 10 \<Longrightarrow> digit_char d = CHR ''0'' \<longleftrightarrow> d = 0"
  by (metis digit_char_0 digit_value_char zero_less_numeral)

subsection \<open>Integers as text\<close>

text \<open>\<open>str(n)\<close> of a natural number, without and with the interpreter's digit limit.\<close>

definition nat_text :: "nat \<Rightarrow> string" where
  "nat_text n = map digit_char (nat_digits n)"

definition int_max_str_digits :: nat where
  "int_max_str_digits = 4300"

definition py_str_int :: "int \<Rightarrow> exn + string" where
  "py_str_int i =
     (if length (nat_digits (nat \<bar>i\<bar>)) > int_max_str_digits then Inl ValueError
      else Inr (if i < 0 then CHR ''-'' # nat_text (nat (- i)) else nat_text (nat i)))"

text \<open>\<open>int(s)\<close> of a string of digits.\<close>

definition py_int_of_digits :: "string \<Rightarrow> exn + nat" where
  "py_int_of_digits s =
     (if length s > int_max_str_digits then Inl ValueError
      else Inr (digits_value (map digit_value s)))"

definition text_value :: "string \<Rightarrow> nat" where
  "text_value s = digits_value (map digit_value s)"

lemma text_value_nat_text [simp]: "text_value (nat_text n) = n"
proof -
  have "map (digit_value \<circ> digit_char) (nat_digits n) = map id (nat_digits n)"
    by (rule map_cong) (auto dest: nat_digits_small)
  then show ?thesis by (simp add: text_value_def nat_text_def)
qed

lemma nat_text_inj [simp]: "nat_text m = nat_text n \<longleftrightarrow> m = n"
  by (metis text_value_nat_text)

lemma nat_text_not_Nil [simp]: "nat_text n \<noteq> []"
  by (simp add: nat_text_def)

lemma nat_text_digits: "c \<in> set (nat_text n) \<Longrightarrow> is_digit c"
  by (auto simp: nat_text_def dest: nat_digits_small)

lemma length_nat_text: "length (nat_text n) = length (nat_digits n)"
  by (simp add: nat_text_def)

lemma py_int_of_digits_nat_text:
  "py_int_of_digits (nat_text n) =
     (if length (nat_digits n) > int_max_str_digits then Inl ValueError else Inr n)"
  using text_value_nat_text [of n]
  by (simp add: py_int_of_digits_def text_value_def length_nat_text)

subsection \<open>Timestamps\<close>

text \<open>
  \<open>Naive w\<close> is a datetime without time zone, \<open>Aware w off\<close> one with the UTC offset \<open>off\<close>; \<open>w\<close> is
  the wall clock in microseconds since 1970-01-01T00:00:00 and \<open>off\<close> is in microseconds.
\<close>

datatype datetime = Naive int | Aware int int

fun is_utc :: "datetime \<Rightarrow> bool" where
  "is_utc (Naive w) = False"
| "is_utc (Aware w off) = (off = 0)"

fun instant :: "datetime \<Rightarrow> int" where
  "instant (Naive w) = w"
| "instant (Aware w off) = w - off"

abbreviation Utc :: "int \<Rightarrow> datetime" where
  "Utc w \<equiv> Aware w 0"

text \<open>\<open>_require_utc\<close>: an aware datetime whose offset is zero.\<close>

definition require_utc :: "datetime \<Rightarrow> exn + unit" where
  "require_utc d = (if \<not> is_utc d then Inl ValueError else Inr ())"

lemma require_utc_Inr [simp]: "require_utc d = Inr u \<longleftrightarrow> is_utc d"
  by (simp add: require_utc_def)

lemma require_utc_Inl [simp]: "require_utc d = Inl e \<longleftrightarrow> \<not> is_utc d \<and> e = ValueError"
  by (auto simp: require_utc_def)

text \<open>Python's \<open>max(a, b)\<close> returns \<open>a\<close> unless \<open>b\<close> is greater.\<close>

definition datetime_max :: "datetime \<Rightarrow> datetime \<Rightarrow> datetime" where
  "datetime_max a b = (if instant a < instant b then b else a)"

lemma instant_datetime_max [simp]: "instant (datetime_max a b) = max (instant a) (instant b)"
  by (simp add: datetime_max_def)

lemma is_utc_datetime_max [simp]: "is_utc a \<Longrightarrow> is_utc b \<Longrightarrow> is_utc (datetime_max a b)"
  by (simp add: datetime_max_def)

lemma datetime_max_idem [simp]: "datetime_max a (datetime_max a b) = datetime_max a b"
  by (simp add: datetime_max_def)

text \<open>
  \<open>datetime + timedelta\<close>: \<open>OverflowError\<close> outside the years 1 to 9999.
\<close>

definition min_wall :: int where
  "min_wall = - 62135596800000000"

definition max_wall :: int where
  "max_wall = 253402300799999999"

fun wall :: "datetime \<Rightarrow> int" where
  "wall (Naive w) = w"
| "wall (Aware w off) = w"

definition in_range :: "int \<Rightarrow> bool" where
  "in_range w \<longleftrightarrow> min_wall \<le> w \<and> w \<le> max_wall"

fun shift_wall :: "datetime \<Rightarrow> int \<Rightarrow> datetime" where
  "shift_wall (Naive w) us = Naive (w + us)"
| "shift_wall (Aware w off) us = Aware (w + us) off"

definition datetime_add :: "datetime \<Rightarrow> int \<Rightarrow> exn + datetime" where
  "datetime_add d us =
     (if in_range (wall d + us) then Inr (shift_wall d us) else Inl OverflowError)"

abbreviation seconds :: "int \<Rightarrow> int" where
  "seconds n \<equiv> n * 1000000"

lemma instant_shift_wall [simp]: "instant (shift_wall d us) = instant d + us"
  by (cases d) simp_all

lemma is_utc_shift_wall [simp]: "is_utc (shift_wall d us) = is_utc d"
  by (cases d) simp_all

lemma datetime_add_Inr:
  "datetime_add d us = Inr e \<longleftrightarrow> in_range (wall d + us) \<and> e = shift_wall d us"
  by (auto simp: datetime_add_def)

lemma datetime_add_Inl:
  "datetime_add d us = Inl x \<longleftrightarrow> \<not> in_range (wall d + us) \<and> x = OverflowError"
  by (auto simp: datetime_add_def)

subsection \<open>ISO 8601 text of a timestamp\<close>

text \<open>
  \<open>datetime.isoformat()\<close>: the civil date of the day number (proleptic Gregorian calendar, counted
  from 1970-01-01 in eras of 400 years that start on 1 March), the time of day, the
  microseconds when they are not zero, and the offset.
\<close>

definition pad :: "nat \<Rightarrow> int \<Rightarrow> string" where
  "pad w i =
     (let t = nat_text (nat i) in replicate (w - length t) CHR ''0'' @ t)"

definition civil_date :: "int \<Rightarrow> int \<times> int \<times> int" where
  "civil_date days =
     (let z = days + 719468;
          era = z div 146097;
          doe = z mod 146097;
          yoe = (doe - doe div 1460 + doe div 36524 - doe div 146096) div 365;
          doy = doe - (365 * yoe + yoe div 4 - yoe div 100);
          mp = (5 * doy + 2) div 153;
          d = doy - (153 * mp + 2) div 5 + 1;
          m = (if mp < 10 then mp + 3 else mp - 9);
          y = yoe + era * 400 + (if m \<le> 2 then 1 else 0)
      in (y, m, d))"

definition offset_text :: "int \<Rightarrow> string" where
  "offset_text off =
     (let a = \<bar>off\<bar>; s = a div 1000000; us = a mod 1000000 in
        (if off < 0 then ''-'' else ''+'') @ pad 2 (s div 3600) @ '':'' @ pad 2 (s div 60 mod 60) @
        (if s mod 60 \<noteq> 0 \<or> us \<noteq> 0 then '':'' @ pad 2 (s mod 60) else []) @
        (if us \<noteq> 0 then ''.'' @ pad 6 us else []))"

definition wall_text :: "int \<Rightarrow> string" where
  "wall_text w =
     (let days = w div 86400000000;
          rest = w mod 86400000000;
          s = rest div 1000000;
          us = rest mod 1000000
      in (case civil_date days of (y, m, d) \<Rightarrow>
            pad 4 y @ ''-'' @ pad 2 m @ ''-'' @ pad 2 d @ ''T'' @
            pad 2 (s div 3600) @ '':'' @ pad 2 (s div 60 mod 60) @ '':'' @ pad 2 (s mod 60) @
            (if us \<noteq> 0 then ''.'' @ pad 6 us else [])))"

fun isoformat :: "datetime \<Rightarrow> string" where
  "isoformat (Naive w) = wall_text w"
| "isoformat (Aware w off) = wall_text w @ offset_text off"

end
