(* ===== verification/Decimals.thy ===== *)
theory Decimals
  imports Complex_Main Python_Values
begin

section \<open>Exact decimal arithmetic\<close>

text \<open>
  The decimal helpers of \<open>src/zhiyi/domain/runs/budget.py\<close>. A \<open>decimal.Decimal\<close> is
  \<open>Fin sign coefficient exponent\<close> (what \<open>as_tuple()\<close> returns, the coefficient's digits being
  those of a natural number), an infinity or a NaN. \<open>dec_value\<close> reads a finite one as a
  rational number, against which the exactness of the code's addition and the canonicity
  of its text form are stated.
\<close>

datatype decimal = Fin bool nat int | Infinite bool | NaN

fun is_finite :: "decimal \<Rightarrow> bool" where
  "is_finite (Fin s c e) = True"
| "is_finite (Infinite s) = False"
| "is_finite NaN = False"

fun is_zero :: "decimal \<Rightarrow> bool" where
  "is_zero (Fin s c e) = (c = 0)"
| "is_zero (Infinite s) = False"
| "is_zero NaN = False"

text \<open>\<open>value < 0\<close>, evaluated after \<open>is_finite\<close>.\<close>

fun is_negative :: "decimal \<Rightarrow> bool" where
  "is_negative (Fin s c e) = (s \<and> c \<noteq> 0)"
| "is_negative (Infinite s) = s"
| "is_negative NaN = False"

definition dec_zero :: decimal where
  "dec_zero = Fin False 0 0"

definition normalize_decimal :: "decimal \<Rightarrow> exn + decimal" where
  "normalize_decimal d =
     (if \<not> is_finite d \<or> is_negative d then Inl ValueError
      else Inr (if is_zero d then dec_zero else d))"

text \<open>The two coefficients brought to the smaller exponent, signed, and the comparisons.\<close>

fun aligned :: "decimal \<Rightarrow> int \<Rightarrow> int" where
  "aligned (Fin s c e) m = (if s then - 1 else 1) * int c * 10 ^ nat (e - m)"
| "aligned (Infinite s) m = 0"
| "aligned NaN m = 0"

fun dec_exponent :: "decimal \<Rightarrow> int" where
  "dec_exponent (Fin s c e) = e"
| "dec_exponent (Infinite s) = 0"
| "dec_exponent NaN = 0"

definition dec_less :: "decimal \<Rightarrow> decimal \<Rightarrow> bool" where
  "dec_less a b =
     (let m = min (dec_exponent a) (dec_exponent b) in aligned a m < aligned b m)"

definition dec_eq :: "decimal \<Rightarrow> decimal \<Rightarrow> bool" where
  "dec_eq a b =
     (let m = min (dec_exponent a) (dec_exponent b) in aligned a m = aligned b m)"

text \<open>
  \<open>_exact_decimal_add\<close>: both coefficients through their digit strings (\<open>int("...")\<close> and
  \<open>str(total)\<close>, each subject to the interpreter's limit of 4300 digits), the signs ignored.
\<close>

fun exact_decimal_add :: "decimal \<Rightarrow> decimal \<Rightarrow> exn + decimal" where
  "exact_decimal_add (Fin s1 c1 e1) (Fin s2 c2 e2) =
     (let exponent = min e1 e2 in
      result_bind (py_int_of_digits (nat_text c1)) (\<lambda>left.
      result_bind (py_int_of_digits (nat_text c2)) (\<lambda>right.
      let total = left * 10 ^ nat (e1 - exponent) + right * 10 ^ nat (e2 - exponent) in
      result_bind (py_str_int (int total)) (\<lambda>digits.
        Inr (Fin False (text_value digits) exponent)))))"
| "exact_decimal_add _ _ = Inl TypeError"

text \<open>The loop of \<open>canonical_decimal\<close> that drops trailing zeros and counts them.\<close>

function strip_zeros :: "nat list \<Rightarrow> int \<Rightarrow> nat list \<times> int" where
  "strip_zeros ds e =
     (if ds \<noteq> [] \<and> last ds = 0 then strip_zeros (butlast ds) (e + 1) else (ds, e))"
  by pat_completeness auto
termination
  by (relation "measure (\<lambda>(ds, e). length ds)") auto

declare strip_zeros.simps [simp del]

definition place_point :: "string \<Rightarrow> int \<Rightarrow> string" where
  "place_point coefficient exponent =
     (if exponent \<ge> 0 then coefficient @ replicate (nat exponent) CHR ''0''
      else let decimal_at = int (length coefficient) + exponent in
        if decimal_at > 0 then
          take (nat decimal_at) coefficient @ ''.'' @ drop (nat decimal_at) coefficient
        else ''0.'' @ replicate (nat (- decimal_at)) CHR ''0'' @ coefficient)"

definition canonical_decimal :: "decimal \<Rightarrow> exn + string" where
  "canonical_decimal d =
     result_bind (normalize_decimal d) (\<lambda>normalized.
       if is_zero normalized then Inr ''0''
       else (case normalized of
           Fin s c e \<Rightarrow>
             (case strip_zeros (nat_digits c) e of
                (digits, exponent) \<Rightarrow> Inr (place_point (map digit_char digits) exponent))
         | _ \<Rightarrow> Inl TypeError))"

text \<open>
  \<open>_CANONICAL_DECIMAL_PATTERN\<close> of \<open>events.py\<close> and \<open>_DECIMAL_PATTERN\<close> of \<open>postgresql_codecs.py\<close>:
  \<open>(?:0|[1-9][0-9]*)(?:\.[0-9]*[1-9])?\<close>, matched in full.
\<close>

definition integer_part_ok :: "string \<Rightarrow> bool" where
  "integer_part_ok ip \<longleftrightarrow>
     ip = ''0'' \<or> (ip \<noteq> [] \<and> hd ip \<noteq> CHR ''0'' \<and> list_all is_digit ip)"

definition fraction_ok :: "string \<Rightarrow> bool" where
  "fraction_ok f \<longleftrightarrow> f \<noteq> [] \<and> list_all is_digit f \<and> last f \<noteq> CHR ''0''"

definition decimal_pattern :: "string \<Rightarrow> bool" where
  "decimal_pattern s =
     (let ip = takeWhile (\<lambda>c. c \<noteq> CHR ''.'') s; rest = dropWhile (\<lambda>c. c \<noteq> CHR ''.'') s
      in integer_part_ok ip \<and> (rest = [] \<or> fraction_ok (tl rest)))"

text \<open>\<open>Decimal(s)\<close> of a string that matches the pattern.\<close>

definition decimal_of_text :: "string \<Rightarrow> decimal" where
  "decimal_of_text s =
     (let ip = takeWhile (\<lambda>c. c \<noteq> CHR ''.'') s;
          f = tl (dropWhile (\<lambda>c. c \<noteq> CHR ''.'') s)
      in Fin False (text_value (ip @ f)) (- int (length f)))"

subsection \<open>Values\<close>

fun dec_value :: "decimal \<Rightarrow> rat" where
  "dec_value (Fin s c e) = (if s then - 1 else 1) * of_nat c * 10 powi e"
| "dec_value (Infinite s) = 0"
| "dec_value NaN = 0"

text \<open>A decimal as the constructors leave it: finite, not negative, and one zero only.\<close>

fun dec_normal :: "decimal \<Rightarrow> bool" where
  "dec_normal (Fin s c e) = (\<not> s \<and> (c = 0 \<longrightarrow> e = 0))"
| "dec_normal (Infinite s) = False"
| "dec_normal NaN = False"

lemma dec_normal_zero [simp]: "dec_normal dec_zero"
  by (simp add: dec_zero_def)

lemma dec_value_zero [simp]: "dec_value dec_zero = 0"
  by (simp add: dec_zero_def)

lemma normalize_decimal_normal: "dec_normal d \<Longrightarrow> normalize_decimal d = Inr d"
  by (cases d) (auto simp: normalize_decimal_def dec_zero_def)

lemma normalize_decimal_Inr:
  "normalize_decimal d = Inr n \<Longrightarrow> dec_normal n \<and> dec_value n = dec_value d"
  by (cases d) (auto simp: normalize_decimal_def dec_zero_def split: if_splits)

lemma normalize_decimal_eq_Inr:
  "(\<exists>n. normalize_decimal d = Inr n) \<longleftrightarrow> is_finite d \<and> \<not> is_negative d"
  by (auto simp: normalize_decimal_def)

lemma powi_split: "m \<le> e \<Longrightarrow> (10::rat) powi e = 10 ^ nat (e - m) * 10 powi m"
  using power_int_add [of "10::rat" "e - m" m] by (simp add: power_int_def)

lemma aligned_value:
  assumes "is_finite d" and "m \<le> dec_exponent d"
  shows "of_int (aligned d m) * 10 powi m = dec_value d"
proof (cases d)
  case (Fin s c e)
  with assms have "(10::rat) powi e = 10 ^ nat (e - m) * 10 powi m"
    by (simp add: powi_split)
  with Fin show ?thesis by simp
qed (use assms in simp_all)

lemma dec_less_value: "is_finite a \<Longrightarrow> is_finite b \<Longrightarrow> dec_less a b \<longleftrightarrow> dec_value a < dec_value b"
proof -
  assume fin: "is_finite a" "is_finite b"
  let ?m = "min (dec_exponent a) (dec_exponent b)"
  have pos: "(0::rat) < 10 powi ?m" by simp
  have "dec_value a < dec_value b \<longleftrightarrow>
      of_int (aligned a ?m) * (10::rat) powi ?m < of_int (aligned b ?m) * 10 powi ?m"
    using aligned_value [of a ?m] aligned_value [of b ?m] fin by simp
  also have "\<dots> \<longleftrightarrow> aligned a ?m < aligned b ?m"
    using mult_less_cancel_right_pos [OF pos] of_int_less_iff by blast
  finally show ?thesis by (simp add: dec_less_def Let_def)
qed

lemma dec_eq_value: "is_finite a \<Longrightarrow> is_finite b \<Longrightarrow> dec_eq a b \<longleftrightarrow> dec_value a = dec_value b"
proof -
  assume fin: "is_finite a" "is_finite b"
  let ?m = "min (dec_exponent a) (dec_exponent b)"
  have "dec_value a = dec_value b \<longleftrightarrow>
      of_int (aligned a ?m) * (10::rat) powi ?m = of_int (aligned b ?m) * 10 powi ?m"
    using aligned_value [of a ?m] aligned_value [of b ?m] fin by simp
  then show ?thesis by (simp add: dec_eq_def Let_def)
qed

lemma dec_eq_refl [simp]: "dec_eq d d"
  by (simp add: dec_eq_def)

lemma dec_normal_finite [simp]: "dec_normal d \<Longrightarrow> is_finite d"
  by (cases d) auto

lemma dec_normal_nonneg: "dec_normal d \<Longrightarrow> 0 \<le> dec_value d"
  by (cases d) auto

subsection \<open>The addition is exact\<close>

lemma py_str_int_nat:
  "py_str_int (int n) =
     (if length (nat_digits n) > int_max_str_digits then Inl ValueError else Inr (nat_text n))"
  by (simp add: py_str_int_def)

abbreviation aligned_sum :: "nat \<Rightarrow> int \<Rightarrow> nat \<Rightarrow> int \<Rightarrow> nat" where
  "aligned_sum c1 e1 c2 e2 \<equiv>
     c1 * 10 ^ nat (e1 - min e1 e2) + c2 * 10 ^ nat (e2 - min e1 e2)"

lemma exact_decimal_add_eq:
  "exact_decimal_add (Fin s1 c1 e1) (Fin s2 c2 e2) =
     (if length (nat_digits c1) > int_max_str_digits \<or> length (nat_digits c2) > int_max_str_digits
        \<or> length (nat_digits (aligned_sum c1 e1 c2 e2)) > int_max_str_digits
      then Inl ValueError else Inr (Fin False (aligned_sum c1 e1 c2 e2) (min e1 e2)))"
  by (simp add: Let_def py_int_of_digits_nat_text py_str_int_nat del: of_nat_add of_nat_mult)

declare exact_decimal_add.simps(1) [simp del]

lemma dec_value_aligned_sum:
  "dec_value (Fin False (aligned_sum c1 e1 c2 e2) (min e1 e2)) =
     of_nat c1 * 10 powi e1 + of_nat c2 * 10 powi e2"
proof -
  have "(10::rat) powi e1 = 10 ^ nat (e1 - min e1 e2) * 10 powi min e1 e2"
    and "(10::rat) powi e2 = 10 ^ nat (e2 - min e1 e2) * 10 powi min e1 e2"
    by (rule powi_split; simp)+
  then show ?thesis by (simp add: distrib_right mult.assoc)
qed

lemma exact_decimal_add_value:
  assumes "dec_normal a" and "dec_normal b" and "exact_decimal_add a b = Inr c"
  shows "is_finite c \<and> \<not> is_negative c \<and> dec_value c = dec_value a + dec_value b"
proof (cases a)
  case A: (Fin s1 c1 e1)
  show ?thesis
  proof (cases b)
    case B: (Fin s2 c2 e2)
    with assms A have c: "c = Fin False (aligned_sum c1 e1 c2 e2) (min e1 e2)"
      by (simp add: exact_decimal_add_eq split: if_splits)
    then show ?thesis
      using assms A B dec_value_aligned_sum [of c1 e1 e2 c2] by (simp del: of_nat_add of_nat_mult)
  qed (use assms in simp_all)
qed (use assms in simp_all)

subsection \<open>The canonical text\<close>

lemma strip_zeros_spec:
  assumes "ds \<noteq> []" and "0 < hd ds" and "strip_zeros ds e = (ds', e')"
  shows "\<exists>k. ds = ds' @ replicate k 0 \<and> e' = e + int k \<and> ds' \<noteq> [] \<and> last ds' \<noteq> 0"
  using assms
proof (induction ds e rule: strip_zeros.induct)
  case (1 ds e)
  show ?case
  proof (cases "last ds = 0")
    case True
    from "1.prems" True have "butlast ds \<noteq> []"
      by (cases ds) (auto split: if_splits)
    moreover from "1.prems" this have "0 < hd (butlast ds)"
      by (cases ds) auto
    ultimately obtain k where "butlast ds = ds' @ replicate k 0" "e' = e + 1 + int k"
        "ds' \<noteq> []" "last ds' \<noteq> 0"
      using "1.IH" "1.prems" True by (auto simp: strip_zeros.simps [of ds])
    moreover have "ds = butlast ds @ [0]"
      using append_butlast_last_id [OF "1.prems"(1)] True by simp
    ultimately have "ds = ds' @ replicate (Suc k) 0 \<and> e' = e + int (Suc k)"
      by (simp flip: replicate_append_same)
    with \<open>ds' \<noteq> []\<close> \<open>last ds' \<noteq> 0\<close> show ?thesis by blast
  next
    case False
    with "1.prems" show ?thesis
      by (intro exI [of _ 0]) (simp add: strip_zeros.simps [of ds])
  qed
qed

lemma digit_not_point: "is_digit c \<Longrightarrow> c \<noteq> CHR ''.''"
  by (auto simp: is_digit_def char_in_def)

lemma digits_no_point: "list_all is_digit s \<Longrightarrow> c \<in> set s \<Longrightarrow> c \<noteq> CHR ''.''"
  by (auto simp: list_all_iff dest: digit_not_point)

lemma split_point:
  assumes "list_all is_digit ip"
  shows "takeWhile (\<lambda>c. c \<noteq> CHR ''.'') (ip @ ''.'' @ f) = ip"
    and "dropWhile (\<lambda>c. c \<noteq> CHR ''.'') (ip @ ''.'' @ f) = ''.'' @ f"
    and "takeWhile (\<lambda>c. c \<noteq> CHR ''.'') ip = ip"
    and "dropWhile (\<lambda>c. c \<noteq> CHR ''.'') ip = []"
  using digits_no_point [OF assms]
  by (simp_all only: takeWhile_append2 dropWhile_append2 takeWhile_eq_all_conv
      dropWhile_eq_Nil_conv) simp_all

lemma text_value_Nil [simp]: "text_value [] = 0"
  by (simp add: text_value_def)

lemma text_value_append: "text_value (xs @ ys) = text_value xs * 10 ^ length ys + text_value ys"
  by (simp add: text_value_def digits_value_append)

lemma text_value_zeros [simp]: "text_value (replicate k CHR ''0'') = 0"
proof -
  have "digit_value CHR ''0'' = 0" by (simp add: digit_value_def)
  then show ?thesis by (simp add: text_value_def)
qed

lemma place_point_ok:
  assumes ds: "cs \<noteq> []" "list_all is_digit cs" "hd cs \<noteq> CHR ''0''" "last cs \<noteq> CHR ''0''"
  shows "decimal_pattern (place_point cs e) \<and>
    dec_value (decimal_of_text (place_point cs e)) = of_nat (text_value cs) * 10 powi e"
proof -
  let ?n = "nat (int (length cs) + e)"
  consider (whole) "e \<ge> 0" | (mid) "e < 0" "int (length cs) + e > 0"
    | (small) "e < 0" "int (length cs) + e \<le> 0" by linarith
  then show ?thesis
  proof cases
    case whole
    let ?s = "cs @ replicate (nat e) CHR ''0''"
    have digits: "list_all is_digit ?s"
      using ds by (simp add: list_all_iff set_replicate_conv_if is_digit_def char_in_def)
    show ?thesis
      using whole ds digits split_point(3,4) [OF digits]
      by (simp add: place_point_def decimal_pattern_def integer_part_ok_def decimal_of_text_def
          Let_def text_value_append power_int_def)
  next
    case mid
    let ?ip = "take ?n cs" and ?f = "drop ?n cs"
    have n: "0 < ?n" "?n < length cs" using mid by auto
    have digits: "list_all is_digit ?ip" "list_all is_digit ?f"
      using ds by (auto simp: list_all_iff dest: in_set_takeD in_set_dropD)
    have ends: "hd ?ip = hd cs" "last ?f = last cs" using n by (simp_all add: hd_take)
    have len: "- int (length ?f) = e" using mid by simp
    have "place_point cs e = ?ip @ ''.'' @ ?f"
      using mid by (simp add: place_point_def Let_def)
    then show ?thesis
      using n ds digits ends len split_point(1,2) [OF digits(1), of ?f]
      by (simp add: decimal_pattern_def integer_part_ok_def fraction_ok_def decimal_of_text_def
          Let_def)
  next
    case small
    let ?z = "nat (- (int (length cs) + e))"
    let ?f = "replicate ?z CHR ''0'' @ cs"
    have zero: "list_all is_digit ''0''" by (simp add: is_digit_def char_in_def)
    have digits: "list_all is_digit ?f"
      using ds by (simp add: list_all_iff set_replicate_conv_if is_digit_def char_in_def)
    have len: "- int (length ?f) = e" using small by simp
    have "''0'' @ ?f = replicate (Suc ?z) CHR ''0'' @ cs" by simp
    then have val: "text_value (''0'' @ ?f) = text_value cs"
      by (simp only: text_value_append text_value_zeros mult_0 add_0)
    have "place_point cs e = ''0'' @ ''.'' @ ?f"
      using small by (simp add: place_point_def Let_def)
    then show ?thesis
      using ds digits len val split_point(1,2) [OF zero, of ?f]
      by (simp add: decimal_pattern_def integer_part_ok_def fraction_ok_def decimal_of_text_def
          Let_def)
  qed
qed

text \<open>The stripped coefficient: the digits of a number that ten does not divide.\<close>

lemma stripped_coefficient:
  assumes "0 < c" and "strip_zeros (nat_digits c) e = (ds, e')"
  shows "ds \<noteq> [] \<and> (\<forall>d \<in> set ds. d < 10) \<and> 0 < hd ds \<and> last ds \<noteq> 0 \<and>
    of_nat (digits_value ds) * 10 powi e' = (of_nat c * 10 powi e :: rat) \<and>
    digits_value ds mod 10 \<noteq> 0 \<and> nat_digits (digits_value ds) = ds"
proof -
  have "0 < hd (nat_digits c)" using assms(1) by (rule hd_nat_digits)
  with assms(2) obtain k where k: "nat_digits c = ds @ replicate k 0" "e' = e + int k"
    and ds: "ds \<noteq> []" "last ds \<noteq> 0"
    using strip_zeros_spec [of "nat_digits c" e ds e'] by auto
  have small: "\<forall>d \<in> set ds. d < 10"
    using nat_digits_small [of _ c] by (simp add: k)
  have hd: "0 < hd ds"
    using hd_nat_digits [OF assms(1)] ds by (simp add: k)
  have "c = digits_value ds * 10 ^ k"
    using digits_value_append [of ds "replicate k 0"] by (simp flip: k(1))
  then have "of_nat c = (of_nat (digits_value ds) * 10 ^ k :: rat)" by simp
  then have val: "of_nat (digits_value ds) * 10 powi e' = (of_nat c * 10 powi e :: rat)"
    using k(2) by (simp add: power_int_add)
  have "digits_value ds = 10 * digits_value (butlast ds) + last ds"
    using ds(1) by (metis append_butlast_last_id digits_value_snoc)
  moreover have "last ds < 10" using ds(1) small by simp
  ultimately have "digits_value ds mod 10 = last ds" by simp
  with ds small hd val show ?thesis
    by (auto intro: nat_digits_unique)
qed

lemma map_digit_chars:
  assumes "\<forall>d \<in> set ds. d < 10" and "ds \<noteq> []" and "0 < hd ds" and "last ds \<noteq> 0"
  shows "map digit_char ds \<noteq> [] \<and> list_all is_digit (map digit_char ds) \<and>
    hd (map digit_char ds) \<noteq> CHR ''0'' \<and> last (map digit_char ds) \<noteq> CHR ''0'' \<and>
    text_value (map digit_char ds) = digits_value ds"
proof -
  have "map (digit_value \<circ> digit_char) ds = map id ds"
    using assms(1) by (intro map_cong) auto
  moreover have "hd ds < 10" "last ds < 10" using assms by auto
  ultimately show ?thesis
    using assms
    by (auto simp: list_all_iff text_value_def hd_map last_map digit_char_eq_0)
qed

lemma canonical_decimal_ok:
  assumes "dec_normal d"
  shows "\<exists>s. canonical_decimal d = Inr s \<and> decimal_pattern s \<and>
    dec_value (decimal_of_text s) = dec_value d"
proof -
  from assms obtain c e where d: "d = Fin False c e" and zero: "c = 0 \<longrightarrow> e = 0"
    by (cases d) auto
  show ?thesis
  proof (cases "c = 0")
    case True
    have "text_value ''0'' = 0" using text_value_zeros [of 1] by simp
    with True d zero show ?thesis
      by (simp add: canonical_decimal_def normalize_decimal_normal decimal_pattern_def
          integer_part_ok_def decimal_of_text_def)
  next
    case False
    obtain ds e' where strip: "strip_zeros (nat_digits c) e = (ds, e')" by fastforce
    note coeff = stripped_coefficient [OF _ strip]
    have cs: "map digit_char ds \<noteq> [] \<and> list_all is_digit (map digit_char ds) \<and>
        hd (map digit_char ds) \<noteq> CHR ''0'' \<and> last (map digit_char ds) \<noteq> CHR ''0'' \<and>
        text_value (map digit_char ds) = digits_value ds"
      using coeff False by (intro map_digit_chars) auto
    then show ?thesis
      using coeff False d strip assms place_point_ok [of "map digit_char ds" e']
      by (simp add: canonical_decimal_def normalize_decimal_normal)
  qed
qed

lemma unstripped_unique:
  assumes "of_nat a * 10 powi e = (of_nat b * 10 powi f :: rat)" and "e \<le> f"
    and "a mod 10 \<noteq> 0" and "b mod 10 \<noteq> 0"
  shows "a = b \<and> e = f"
proof -
  have "of_nat a * 10 powi e = (of_nat (b * 10 ^ nat (f - e)) * 10 powi e :: rat)"
    using assms(1,2) powi_split [of e f] by (simp add: mult.assoc)
  then have "(of_nat a :: rat) = of_nat (b * 10 ^ nat (f - e))" by simp
  then have a: "a = b * 10 ^ nat (f - e)" using of_nat_eq_iff by blast
  have "nat (f - e) = 0"
  proof (rule ccontr)
    assume "nat (f - e) \<noteq> 0"
    then have "10 dvd a" by (simp add: a dvd_mult)
    with assms(3) show False by simp
  qed
  with a assms(2) show ?thesis by simp
qed

lemma canonical_decimal_eq_iff:
  assumes "dec_normal a" and "dec_normal b"
  shows "canonical_decimal a = canonical_decimal b \<longleftrightarrow> dec_value a = dec_value b"
proof
  assume "canonical_decimal a = canonical_decimal b"
  then show "dec_value a = dec_value b"
    using canonical_decimal_ok [OF assms(1)] canonical_decimal_ok [OF assms(2)] by auto
next
  assume val: "dec_value a = dec_value b"
  from assms obtain c1 e1 c2 e2 where a: "a = Fin False c1 e1" and b: "b = Fin False c2 e2"
    and zeros: "c1 = 0 \<longrightarrow> e1 = 0" "c2 = 0 \<longrightarrow> e2 = 0"
    by (cases a; cases b) auto
  show "canonical_decimal a = canonical_decimal b"
  proof (cases "c1 = 0 \<or> c2 = 0")
    case True
    with val a b zeros show ?thesis by auto
  next
    case False
    obtain ds1 f1 ds2 f2 where s1: "strip_zeros (nat_digits c1) e1 = (ds1, f1)"
      and s2: "strip_zeros (nat_digits c2) e2 = (ds2, f2)" by fastforce
    have "digits_value ds1 = digits_value ds2 \<and> f1 = f2"
    proof (cases "f1 \<le> f2")
      case True
      with False val a b stripped_coefficient [OF _ s1] stripped_coefficient [OF _ s2]
      show ?thesis by (intro unstripped_unique) auto
    next
      case gt: False
      have "digits_value ds2 = digits_value ds1 \<and> f2 = f1"
        using gt False val a b stripped_coefficient [OF _ s1] stripped_coefficient [OF _ s2]
        by (intro unstripped_unique) auto
      then show ?thesis by simp
    qed
    then have "ds1 = ds2 \<and> f1 = f2"
      using False stripped_coefficient [OF _ s1] stripped_coefficient [OF _ s2] by (metis gr0I)
    with False a b s1 s2 assms show ?thesis
      by (simp add: canonical_decimal_def normalize_decimal_normal)
  qed
qed

end
