(* ===== verification/Sha256.thy ===== *)
theory Sha256
  imports Python_Values "HOL-Library.Word"
begin

section \<open>SHA-256\<close>

text \<open>
  \<open>hashlib.sha256\<close>, which fingerprints command intents, budget charges and lease tokens
  (FIPS 180-4): a Python \<open>bytes\<close> is a list of 8-bit words, and the arithmetic is that of 32-bit
  words. The facts used elsewhere are the shapes of its results: a digest has 32 bytes
  and its hexadecimal form 64 lower-case hexadecimal digits.
\<close>

unbundle bit_operations_syntax

type_synonym byte = "8 word"
type_synonym w32 = "32 word"

definition sha_ch :: "w32 \<Rightarrow> w32 \<Rightarrow> w32 \<Rightarrow> w32" where
  "sha_ch x y z = (x AND y) XOR (NOT x AND z)"

definition sha_maj :: "w32 \<Rightarrow> w32 \<Rightarrow> w32 \<Rightarrow> w32" where
  "sha_maj x y z = (x AND y) XOR (x AND z) XOR (y AND z)"

definition big_sigma0 :: "w32 \<Rightarrow> w32" where
  "big_sigma0 x = word_rotr 2 x XOR word_rotr 13 x XOR word_rotr 22 x"

definition big_sigma1 :: "w32 \<Rightarrow> w32" where
  "big_sigma1 x = word_rotr 6 x XOR word_rotr 11 x XOR word_rotr 25 x"

definition small_sigma0 :: "w32 \<Rightarrow> w32" where
  "small_sigma0 x = word_rotr 7 x XOR word_rotr 18 x XOR drop_bit 3 x"

definition small_sigma1 :: "w32 \<Rightarrow> w32" where
  "small_sigma1 x = word_rotr 17 x XOR word_rotr 19 x XOR drop_bit 10 x"

text \<open>
  The constants are the first 32 fractional bits of the cube roots of the first 64 primes, and the
  initial state those of the square roots of the first eight.
\<close>

definition first_primes :: "nat list" where
  "first_primes = filter (\<lambda>n. list_all (\<lambda>d. n mod d \<noteq> 0) [2..<n]) [2..<312]"

text \<open>The integer \<open>k\<close>-th root below \<open>2 ^ bits\<close>, bit by bit from the top.\<close>

definition integer_root :: "nat \<Rightarrow> nat \<Rightarrow> nat \<Rightarrow> nat" where
  "integer_root k bits n =
     foldl (\<lambda>r i. if (r + 2 ^ i) ^ k \<le> n then r + 2 ^ i else r) 0 (rev [0..<bits])"

definition root_fraction :: "nat \<Rightarrow> nat \<Rightarrow> w32" where
  "root_fraction k p = of_nat (integer_root k 40 (p * 2 ^ (32 * k)))"

definition sha_constants :: "w32 list" where
  "sha_constants = map (root_fraction 3) first_primes"

datatype sha_state = ShaState w32 w32 w32 w32 w32 w32 w32 w32

definition sha_initial :: sha_state where
  "sha_initial = (case map (root_fraction 2) first_primes of
       a # b # c # d # e # f # g # h # _ \<Rightarrow> ShaState a b c d e f g h
     | _ \<Rightarrow> ShaState 0 0 0 0 0 0 0 0)"

fun be_word :: "byte list \<Rightarrow> w32" where
  "be_word bs = foldl (\<lambda>a b. push_bit 8 a OR ucast b) 0 bs"

fun chunks :: "nat \<Rightarrow> nat \<Rightarrow> 'a list \<Rightarrow> 'a list list" where
  "chunks 0 sz xs = []"
| "chunks (Suc n) sz xs = take sz xs # chunks n sz (drop sz xs)"

text \<open>The message schedule, newest word first.\<close>

fun sha_schedule :: "nat \<Rightarrow> w32 list \<Rightarrow> w32 list" where
  "sha_schedule 0 ws = ws"
| "sha_schedule (Suc n) ws =
     sha_schedule n
       ((small_sigma1 (ws ! 1) + ws ! 6 + small_sigma0 (ws ! 14) + ws ! 15) # ws)"

fun sha_round :: "sha_state \<Rightarrow> w32 \<times> w32 \<Rightarrow> sha_state" where
  "sha_round (ShaState a b c d e f g h) (k, w) =
     (let t1 = h + big_sigma1 e + sha_ch e f g + k + w;
          t2 = big_sigma0 a + sha_maj a b c
      in ShaState (t1 + t2) a b c (d + t1) e f g)"

fun sha_add :: "sha_state \<Rightarrow> sha_state \<Rightarrow> sha_state" where
  "sha_add (ShaState a b c d e f g h) (ShaState a' b' c' d' e' f' g' h') =
     ShaState (a + a') (b + b') (c + c') (d + d') (e + e') (f + f') (g + g') (h + h')"

definition sha_block :: "sha_state \<Rightarrow> byte list \<Rightarrow> sha_state" where
  "sha_block s block =
     (let ws = rev (sha_schedule 48 (rev (map be_word (chunks 16 4 block))))
      in sha_add s (foldl sha_round s (zip sha_constants ws)))"

definition be_bytes :: "nat \<Rightarrow> nat \<Rightarrow> byte list" where
  "be_bytes n v = map (\<lambda>i. of_nat (v div 256 ^ i)) (rev [0..<n])"

definition sha_pad :: "byte list \<Rightarrow> byte list" where
  "sha_pad m =
     m @ [0x80] @ replicate ((119 - length m mod 64) mod 64) 0 @ be_bytes 8 (8 * length m)"

fun sha_words :: "sha_state \<Rightarrow> w32 list" where
  "sha_words (ShaState a b c d e f g h) = [a, b, c, d, e, f, g, h]"

definition sha256_digest :: "byte list \<Rightarrow> byte list" where
  "sha256_digest m =
     (let p = sha_pad m;
          s = foldl sha_block sha_initial (chunks (length p div 64) 64 p)
      in concat (map (\<lambda>w. be_bytes 4 (unat w)) (sha_words s)))"

definition hex_digit :: "nat \<Rightarrow> char" where
  "hex_digit d = char_of (if d < 10 then 48 + d else 87 + d)"

definition hex_byte :: "byte \<Rightarrow> string" where
  "hex_byte b = [hex_digit (unat b div 16), hex_digit (unat b mod 16)]"

definition hexdigest :: "byte list \<Rightarrow> string" where
  "hexdigest bs = concat (map hex_byte bs)"

definition ascii_bytes :: "string \<Rightarrow> byte list" where
  "ascii_bytes s = map (\<lambda>c. of_nat (of_char c)) s"

text \<open>\<open>f"sha256:{hashlib.sha256(body).hexdigest()}"\<close>\<close>

definition sha256_fingerprint :: "byte list \<Rightarrow> string" where
  "sha256_fingerprint body = ''sha256:'' @ hexdigest (sha256_digest body)"

subsection \<open>Shapes\<close>

lemma length_be_bytes [simp]: "length (be_bytes n v) = n"
  by (simp add: be_bytes_def)

lemma length_concat_const:
  "(\<And>x. x \<in> set xs \<Longrightarrow> length (f x) = n) \<Longrightarrow> length (concat (map f xs)) = n * length xs"
  by (induction xs) simp_all

lemma length_sha_words [simp]: "length (sha_words s) = 8"
  by (cases s) simp

lemma length_sha256_digest [simp]: "length (sha256_digest m) = 32"
  by (simp add: sha256_digest_def Let_def length_concat_const [where n = 4])

lemma length_hexdigest [simp]: "length (hexdigest bs) = 2 * length bs"
  by (simp add: hexdigest_def length_concat_const [where n = 2] hex_byte_def)

lemma hex_char_hex_digit: "d < 16 \<Longrightarrow> hex_char (hex_digit d)"
  by (auto simp: hex_char_def hex_digit_def is_digit_def char_in_def)

lemma unat_byte_less: "unat (b :: byte) < 256"
  using unsigned_less [of b, where ?'a = nat] by simp

lemma hexdigest_chars: "list_all hex_char (hexdigest bs)"
proof -
  have "hex_char c" if "c \<in> set (hex_byte b)" for b c
    using that unat_byte_less [of b] by (auto simp: hex_byte_def intro!: hex_char_hex_digit)
  then show ?thesis by (auto simp: hexdigest_def list_all_iff)
qed

lemma sha256_fingerprint_pattern [simp]: "digest_pattern (sha256_fingerprint body)"
  unfolding sha256_fingerprint_def
  by (rule digest_patternI) (simp_all add: hexdigest_chars)

lemma sha256_fingerprint_prefix [simp]: "starts_with ''sha256:'' (sha256_fingerprint body)"
  using sha256_fingerprint_pattern [of body] by (simp add: digest_pattern_def)

end
