(* ===== verification/Json_Text.thy ===== *)
theory Json_Text
  imports Sha256 "HOL-Library.List_Lexorder" "HOL-Library.Char_ord"
begin

section \<open>Canonical JSON text\<close>

text \<open>
  \<open>json.dumps(..., sort_keys=True, separators=(",", ":"))\<close> as the code's fingerprints use it
  (with \<open>ensure_ascii\<close>), on the values its \<open>_canonicalize\<close> produces. Integers go through
  \<open>str\<close> and so raise \<open>ValueError\<close> beyond the interpreter's digit limit. Objects are lists of
  entries with distinct keys.
\<close>

datatype json =
    JNull
  | JBool bool
  | JInt int
  | JStr string
  | JArr "json list"
  | JObj "(string \<times> json) list"

definition hex4 :: "nat \<Rightarrow> string" where
  "hex4 n = map (\<lambda>i. hex_digit (n div 16 ^ i mod 16)) [3, 2, 1, 0]"

definition escape_char :: "char \<Rightarrow> string" where
  "escape_char c =
     (let n = of_char c :: nat in
      if n = 34 then [CHR 0x5C, CHR 0x22]
      else if n = 92 then [CHR 0x5C, CHR 0x5C]
      else if n = 10 then [CHR 0x5C, CHR ''n'']
      else if n = 13 then [CHR 0x5C, CHR ''r'']
      else if n = 9 then [CHR 0x5C, CHR ''t'']
      else if n = 12 then [CHR 0x5C, CHR ''f'']
      else if n = 8 then [CHR 0x5C, CHR ''b'']
      else if 32 \<le> n \<and> n \<le> 126 then [c]
      else [CHR 0x5C, CHR ''u''] @ hex4 n)"

definition json_string :: "string \<Rightarrow> string" where
  "json_string s = [CHR 0x22] @ concat (map escape_char s) @ [CHR 0x22]"

text \<open>The same with \<open>ensure_ascii=False\<close>.\<close>

definition escape_plain :: "char \<Rightarrow> string" where
  "escape_plain c =
     (let n = of_char c :: nat in
      if n = 34 then [CHR 0x5C, CHR 0x22]
      else if n = 92 then [CHR 0x5C, CHR 0x5C]
      else if n = 10 then [CHR 0x5C, CHR ''n'']
      else if n = 13 then [CHR 0x5C, CHR ''r'']
      else if n = 9 then [CHR 0x5C, CHR ''t'']
      else if n = 12 then [CHR 0x5C, CHR ''f'']
      else if n = 8 then [CHR 0x5C, CHR ''b'']
      else if n < 32 then [CHR 0x5C, CHR ''u''] @ hex4 n
      else [c])"

definition plain_string :: "string \<Rightarrow> string" where
  "plain_string s = [CHR 0x22] @ concat (map escape_plain s) @ [CHR 0x22]"

text \<open>\<open>sep.join(parts)\<close>\<close>

fun join :: "string \<Rightarrow> string list \<Rightarrow> string" where
  "join sep [] = []"
| "join sep [x] = x"
| "join sep (x # xs) = x @ sep @ join sep xs"

function (sequential) json_dumps :: "json \<Rightarrow> exn + string" where
  "json_dumps JNull = Inr ''null''"
| "json_dumps (JBool b) = Inr (if b then ''true'' else ''false'')"
| "json_dumps (JInt i) = py_str_int i"
| "json_dumps (JStr s) = Inr (json_string s)"
| "json_dumps (JArr vs) =
     result_bind (traverse json_dumps vs) (\<lambda>ts. Inr (''['' @ join '','' ts @ '']''))"
| "json_dumps (JObj kvs) =
     result_bind
       (traverse (\<lambda>kv. result_bind (json_dumps (snd kv)) (\<lambda>t.
          Inr (json_string (fst kv) @ '':'' @ t))) (sort_key fst kvs))
       (\<lambda>ts. Inr (''{'' @ join '','' ts @ ''}''))"
  by pat_completeness auto
termination
proof (relation "measure size", goal_cases)
  case 1
  show ?case by simp
next
  case (2 vs v)
  then show ?case using size_list_estimation' [of v vs "size v" size] by simp
next
  case (3 kvs kv)
  then have "kv \<in> set kvs" by simp
  then have "size_prod (\<lambda>_. 0) size kv \<le> size_list (size_prod (\<lambda>_. 0) size) kvs"
    by (rule size_list_estimation') simp
  then show ?case by (cases kv) simp
qed

definition fingerprint_json :: "json \<Rightarrow> exn + string" where
  "fingerprint_json body =
     result_bind (json_dumps body) (\<lambda>t. Inr (sha256_fingerprint (ascii_bytes t)))"

lemma fingerprint_json_pattern: "fingerprint_json body = Inr f \<Longrightarrow> digest_pattern f"
  by (auto simp: fingerprint_json_def result_bind_eq_Inr)

text \<open>A value whose integers all print: the text exists.\<close>

definition printable :: "int \<Rightarrow> bool" where
  "printable i \<longleftrightarrow> length (nat_digits (nat \<bar>i\<bar>)) \<le> int_max_str_digits"

lemma py_str_int_printable: "printable i \<Longrightarrow> \<exists>s. py_str_int i = Inr s"
  by (simp add: py_str_int_def printable_def)

function (sequential) json_printable :: "json \<Rightarrow> bool" where
  "json_printable (JInt i) = printable i"
| "json_printable (JArr vs) = list_all json_printable vs"
| "json_printable (JObj kvs) = list_all (\<lambda>kv. json_printable (snd kv)) kvs"
| "json_printable _ = True"
  by pat_completeness auto
termination
proof (relation "measure size", goal_cases)
  case 1
  show ?case by simp
next
  case (2 vs v)
  then show ?case using size_list_estimation' [of v vs "size v" size] by simp
next
  case (3 kvs kv)
  then have "size_prod (\<lambda>_. 0) size kv \<le> size_list (size_prod (\<lambda>_. 0) size) kvs"
    by (rule size_list_estimation') simp
  then show ?case by (cases kv) simp
qed

lemma traverse_total:
  "(\<And>x. x \<in> set xs \<Longrightarrow> \<exists>y. f x = Inr y) \<Longrightarrow> \<exists>ys. traverse f xs = Inr ys"
  by (induction xs) fastforce+

lemma json_dumps_total: "json_printable v \<Longrightarrow> \<exists>t. json_dumps v = Inr t"
proof (induction v rule: json_printable.induct)
  case (1 i)
  then show ?case by (simp add: py_str_int_printable)
next
  case (2 vs)
  then have "\<exists>ts. traverse json_dumps vs = Inr ts"
    by (intro traverse_total) (auto simp: list_all_iff)
  then show ?case by auto
next
  case (3 kvs)
  then have "\<exists>ts. traverse (\<lambda>kv. result_bind (json_dumps (snd kv)) (\<lambda>t.
      Inr (json_string (fst kv) @ '':'' @ t))) (sort_key fst kvs) = Inr ts"
    by (intro traverse_total) (fastforce simp: list_all_iff)
  then show ?case by auto
qed auto

lemma fingerprint_json_total:
  "json_printable v \<Longrightarrow> \<exists>f. fingerprint_json v = Inr f \<and> digest_pattern f"
  using json_dumps_total [of v] by (auto simp: fingerprint_json_def)

end
