(* ===== verification/Budget.thy ===== *)
theory Budget
  imports Decimals Json_Text
begin

section \<open>Hard budgets\<close>

text \<open>
  \<open>src/zhiyi/domain/runs/budget.py\<close>: the immutable limits of a run, the charges against them,
  and the usage snapshot with the fingerprints of the charges it has absorbed. A constructor
  is \<open>..._post_init\<close>: the validated (and normalised) object, or the exception.
\<close>

subsection \<open>Limits\<close>

record run_budget =
  bud_deadline_at :: datetime
  bud_max_steps :: int
  bud_max_model_calls :: int
  bud_max_tool_calls :: int
  bud_max_input_tokens :: int
  bud_max_output_tokens :: int
  bud_max_total_tokens :: int
  bud_max_cost :: decimal
  bud_currency :: string

definition validate_counter :: "int \<Rightarrow> exn + unit" where
  "validate_counter v = (if v < 0 then Inl ValueError else Inr ())"

text \<open>The loop \<open>for name in (...): _validate_counter(name, getattr(self, name))\<close>.\<close>

fun validate_counters :: "int list \<Rightarrow> exn + unit" where
  "validate_counters [] = Inr ()"
| "validate_counters (v # vs) =
     result_bind (validate_counter v) (\<lambda>_. validate_counters vs)"

definition currency_pattern :: "string \<Rightarrow> bool" where
  "currency_pattern s \<longleftrightarrow> length s = 3 \<and> list_all is_upper s"

definition run_budget_post_init :: "run_budget \<Rightarrow> exn + run_budget" where
  "run_budget_post_init b =
     (if \<not> is_utc (bud_deadline_at b) then Inl ValueError
      else result_bind (validate_counters
             [bud_max_steps b, bud_max_model_calls b, bud_max_tool_calls b,
              bud_max_input_tokens b, bud_max_output_tokens b, bud_max_total_tokens b]) (\<lambda>_.
        if bud_max_total_tokens b < max (bud_max_input_tokens b) (bud_max_output_tokens b)
        then Inl ValueError
        else result_bind (normalize_decimal (bud_max_cost b)) (\<lambda>cost.
          if \<not> currency_pattern (bud_currency b) then Inl ValueError
          else Inr (b\<lparr>bud_max_cost := cost\<rparr>))))"

definition run_budget_ok :: "run_budget \<Rightarrow> bool" where
  "run_budget_ok b \<longleftrightarrow>
     is_utc (bud_deadline_at b) \<and> 0 \<le> bud_max_steps b \<and> 0 \<le> bud_max_model_calls b \<and>
     0 \<le> bud_max_tool_calls b \<and> 0 \<le> bud_max_input_tokens b \<and> 0 \<le> bud_max_output_tokens b \<and>
     max (bud_max_input_tokens b) (bud_max_output_tokens b) \<le> bud_max_total_tokens b \<and>
     dec_normal (bud_max_cost b) \<and> currency_pattern (bud_currency b)"

lemma validate_counter_Inr [simp]: "validate_counter v = Inr u \<longleftrightarrow> 0 \<le> v"
  by (auto simp: validate_counter_def)

lemma validate_counter_Inl [simp]: "validate_counter v = Inl e \<longleftrightarrow> v < 0 \<and> e = ValueError"
  by (auto simp: validate_counter_def)

lemma validate_counters_eq:
  "validate_counters vs = (if \<forall>v \<in> set vs. 0 \<le> v then Inr () else Inl ValueError)"
  by (induction vs) (auto simp: validate_counter_def)

declare validate_counters.simps [simp del]

text \<open>The constructor returns exactly the well-formed budgets and is the identity on them.\<close>

lemma run_budget_post_init_ok [post_init_simps]:
  "run_budget_ok b \<Longrightarrow> run_budget_post_init b = Inr b"
  by (simp add: run_budget_post_init_def run_budget_ok_def validate_counters_eq
      normalize_decimal_normal less_max_iff_disj not_less)

lemma run_budget_post_init_Inr: "run_budget_post_init b = Inr b' \<Longrightarrow> run_budget_ok b'"
  by (auto simp: run_budget_post_init_def run_budget_ok_def validate_counters_eq result_bind_eq_Inr
      dest: normalize_decimal_Inr split: if_splits)

datatype budget_dimension =
    DimDeadline | DimSteps | DimModelCalls | DimToolCalls | DimInputTokens | DimOutputTokens
  | DimTotalTokens | DimCost

fun budget_dimension_value :: "budget_dimension \<Rightarrow> string" where
  "budget_dimension_value DimDeadline = ''deadline''"
| "budget_dimension_value DimSteps = ''steps''"
| "budget_dimension_value DimModelCalls = ''model_calls''"
| "budget_dimension_value DimToolCalls = ''tool_calls''"
| "budget_dimension_value DimInputTokens = ''input_tokens''"
| "budget_dimension_value DimOutputTokens = ''output_tokens''"
| "budget_dimension_value DimTotalTokens = ''total_tokens''"
| "budget_dimension_value DimCost = ''cost''"

subsection \<open>Charges\<close>

record budget_charge =
  chg_charge_id :: charge_id
  chg_steps :: int
  chg_model_calls :: int
  chg_tool_calls :: int
  chg_input_tokens :: int
  chg_output_tokens :: int
  chg_cost :: decimal

definition budget_charge_post_init :: "budget_charge \<Rightarrow> exn + budget_charge" where
  "budget_charge_post_init c =
     result_bind (validate_counters
         [chg_steps c, chg_model_calls c, chg_tool_calls c, chg_input_tokens c,
          chg_output_tokens c]) (\<lambda>_.
     result_bind (normalize_decimal (chg_cost c)) (\<lambda>cost.
       if \<not> (chg_steps c \<noteq> 0 \<or> chg_model_calls c \<noteq> 0 \<or> chg_tool_calls c \<noteq> 0 \<or>
             chg_input_tokens c \<noteq> 0 \<or> chg_output_tokens c \<noteq> 0 \<or> \<not> is_zero cost)
       then Inl ValueError
       else Inr (c\<lparr>chg_cost := cost\<rparr>)))"

definition budget_charge_ok :: "budget_charge \<Rightarrow> bool" where
  "budget_charge_ok c \<longleftrightarrow>
     identifier_pattern (charge_id_value (chg_charge_id c)) \<and>
     0 \<le> chg_steps c \<and> 0 \<le> chg_model_calls c \<and> 0 \<le> chg_tool_calls c \<and>
     0 \<le> chg_input_tokens c \<and> 0 \<le> chg_output_tokens c \<and> dec_normal (chg_cost c) \<and>
     (chg_steps c \<noteq> 0 \<or> chg_model_calls c \<noteq> 0 \<or> chg_tool_calls c \<noteq> 0 \<or>
      chg_input_tokens c \<noteq> 0 \<or> chg_output_tokens c \<noteq> 0 \<or> \<not> is_zero (chg_cost c))"

lemma budget_charge_post_init_ok [post_init_simps]:
  "budget_charge_ok c \<Longrightarrow> budget_charge_post_init c = Inr c"
  by (simp add: budget_charge_post_init_def budget_charge_ok_def validate_counters_eq
      normalize_decimal_normal)

lemma budget_charge_post_init_Inr:
  "budget_charge_post_init c = Inr c' \<Longrightarrow> identifier_pattern (charge_id_value (chg_charge_id c)) \<Longrightarrow>
     budget_charge_ok c'"
  by (auto simp: budget_charge_post_init_def budget_charge_ok_def validate_counters_eq
      result_bind_eq_Inr dest: normalize_decimal_Inr split: if_splits)

definition charge_total_tokens :: "budget_charge \<Rightarrow> int" where
  "charge_total_tokens c = chg_input_tokens c + chg_output_tokens c"

definition charge_body :: "budget_charge \<Rightarrow> string \<Rightarrow> json" where
  "charge_body c cost =
     JObj [(''charge_id'', JStr (charge_id_value (chg_charge_id c))),
           (''cost'', JStr cost),
           (''input_tokens'', JInt (chg_input_tokens c)),
           (''model_calls'', JInt (chg_model_calls c)),
           (''output_tokens'', JInt (chg_output_tokens c)),
           (''steps'', JInt (chg_steps c)),
           (''tool_calls'', JInt (chg_tool_calls c))]"

definition charge_fingerprint :: "budget_charge \<Rightarrow> exn + string" where
  "charge_fingerprint c =
     result_bind (canonical_decimal (chg_cost c)) (\<lambda>cost. fingerprint_json (charge_body c cost))"

subsection \<open>Usage\<close>

record budget_snapshot =
  use_steps :: int
  use_model_calls :: int
  use_tool_calls :: int
  use_input_tokens :: int
  use_output_tokens :: int
  use_cost :: decimal
  use_fingerprints :: "(charge_id \<times> string) list"

definition total_tokens :: "budget_snapshot \<Rightarrow> int" where
  "total_tokens s = use_input_tokens s + use_output_tokens s"

definition empty_snapshot :: budget_snapshot where
  "empty_snapshot =
     \<lparr>use_steps = 0, use_model_calls = 0, use_tool_calls = 0, use_input_tokens = 0,
      use_output_tokens = 0, use_cost = dec_zero, use_fingerprints = []\<rparr>"

definition budget_snapshot_post_init :: "budget_snapshot \<Rightarrow> exn + budget_snapshot" where
  "budget_snapshot_post_init s =
     result_bind (validate_counters
         [use_steps s, use_model_calls s, use_tool_calls s, use_input_tokens s,
          use_output_tokens s]) (\<lambda>_.
     result_bind (normalize_decimal (use_cost s)) (\<lambda>cost.
       if list_ex (\<lambda>(i, f). \<not> starts_with ''sha256:'' f) (use_fingerprints s)
       then Inl ValueError
       else Inr (s\<lparr>use_cost := cost\<rparr>)))"

definition budget_snapshot_ok :: "budget_snapshot \<Rightarrow> bool" where
  "budget_snapshot_ok s \<longleftrightarrow>
     0 \<le> use_steps s \<and> 0 \<le> use_model_calls s \<and> 0 \<le> use_tool_calls s \<and>
     0 \<le> use_input_tokens s \<and> 0 \<le> use_output_tokens s \<and> dec_normal (use_cost s) \<and>
     list_all (\<lambda>(i, f). starts_with ''sha256:'' f) (use_fingerprints s) \<and>
     distinct (map fst (use_fingerprints s))"

lemma budget_snapshot_post_init_ok [post_init_simps]:
  "budget_snapshot_ok s \<Longrightarrow> budget_snapshot_post_init s = Inr s"
  by (auto simp: budget_snapshot_post_init_def budget_snapshot_ok_def validate_counters_eq
      normalize_decimal_normal list_ex_iff list_all_iff)

lemma budget_snapshot_ok_empty [simp]: "budget_snapshot_ok empty_snapshot"
  by (simp add: budget_snapshot_ok_def empty_snapshot_def)

text \<open>Equality of snapshots and budgets as the dataclasses compare: decimals by value.\<close>

definition budget_snapshot_eq :: "budget_snapshot \<Rightarrow> budget_snapshot \<Rightarrow> bool" where
  "budget_snapshot_eq a b \<longleftrightarrow>
     use_steps a = use_steps b \<and> use_model_calls a = use_model_calls b \<and>
     use_tool_calls a = use_tool_calls b \<and> use_input_tokens a = use_input_tokens b \<and>
     use_output_tokens a = use_output_tokens b \<and> dec_eq (use_cost a) (use_cost b) \<and>
     dict_eq (use_fingerprints a) (use_fingerprints b)"

definition run_budget_eq :: "run_budget \<Rightarrow> run_budget \<Rightarrow> bool" where
  "run_budget_eq a b \<longleftrightarrow>
     bud_deadline_at a = bud_deadline_at b \<and> bud_max_steps a = bud_max_steps b \<and>
     bud_max_model_calls a = bud_max_model_calls b \<and>
     bud_max_tool_calls a = bud_max_tool_calls b \<and>
     bud_max_input_tokens a = bud_max_input_tokens b \<and>
     bud_max_output_tokens a = bud_max_output_tokens b \<and>
     bud_max_total_tokens a = bud_max_total_tokens b \<and>
     dec_eq (bud_max_cost a) (bud_max_cost b) \<and> bud_currency a = bud_currency b"

lemma budget_eq_refl [simp]: "budget_snapshot_eq s s" "run_budget_eq b b"
  by (simp_all add: budget_snapshot_eq_def run_budget_eq_def)

subsection \<open>Applying a charge\<close>

record budget_decision =
  decided_snapshot :: budget_snapshot
  decided_replayed :: bool
  decided_exceeded :: "budget_dimension option"

definition charged_snapshot ::
    "budget_snapshot \<Rightarrow> budget_charge \<Rightarrow> decimal \<Rightarrow> string \<Rightarrow> budget_snapshot" where
  "charged_snapshot s c cost fingerprint =
     \<lparr>use_steps = use_steps s + chg_steps c,
      use_model_calls = use_model_calls s + chg_model_calls c,
      use_tool_calls = use_tool_calls s + chg_tool_calls c,
      use_input_tokens = use_input_tokens s + chg_input_tokens c,
      use_output_tokens = use_output_tokens s + chg_output_tokens c,
      use_cost = cost,
      use_fingerprints = dict_set (chg_charge_id c) fingerprint (use_fingerprints s)\<rparr>"

definition budget_checks :: "budget_snapshot \<Rightarrow> run_budget \<Rightarrow> (bool \<times> budget_dimension) list" where
  "budget_checks s b =
     [(use_steps s > bud_max_steps b, DimSteps),
      (use_model_calls s > bud_max_model_calls b, DimModelCalls),
      (use_tool_calls s > bud_max_tool_calls b, DimToolCalls),
      (use_input_tokens s > bud_max_input_tokens b, DimInputTokens),
      (use_output_tokens s > bud_max_output_tokens b, DimOutputTokens),
      (total_tokens s > bud_max_total_tokens b, DimTotalTokens),
      (dec_less (bud_max_cost b) (use_cost s), DimCost)]"

definition budget_apply ::
    "budget_snapshot \<Rightarrow> budget_charge \<Rightarrow> run_budget \<Rightarrow> exn + budget_decision" where
  "budget_apply s c b =
     (case map_of (use_fingerprints s) (chg_charge_id c) of
        Some existing \<Rightarrow>
          result_bind (charge_fingerprint c) (\<lambda>fingerprint.
            if existing \<noteq> fingerprint then Inl (RunLifecycleError RunIdempotencyConflict)
            else Inr \<lparr>decided_snapshot = s, decided_replayed = True, decided_exceeded = None\<rparr>)
      | None \<Rightarrow>
          result_bind (exact_decimal_add (use_cost s) (chg_cost c)) (\<lambda>cost.
          result_bind (charge_fingerprint c) (\<lambda>fingerprint.
          result_bind (budget_snapshot_post_init (charged_snapshot s c cost fingerprint))
            (\<lambda>candidate.
            case find fst (budget_checks candidate b) of
              Some (_, dimension) \<Rightarrow>
                Inr \<lparr>decided_snapshot = s, decided_replayed = False,
                     decided_exceeded = Some dimension\<rparr>
            | None \<Rightarrow>
                Inr \<lparr>decided_snapshot = candidate, decided_replayed = False,
                     decided_exceeded = None\<rparr>))))"

subsection \<open>Properties of the accounting\<close>

lemma budget_apply_cases [consumes 1, case_names replay exceeded accepted]:
  assumes "budget_apply s c b = Inr d"
  obtains (replay) fingerprint where
      "map_of (use_fingerprints s) (chg_charge_id c) = Some fingerprint"
      "charge_fingerprint c = Inr fingerprint"
      "d = \<lparr>decided_snapshot = s, decided_replayed = True, decided_exceeded = None\<rparr>"
  | (exceeded) cost fingerprint candidate dimension where
      "map_of (use_fingerprints s) (chg_charge_id c) = None"
      "exact_decimal_add (use_cost s) (chg_cost c) = Inr cost"
      "charge_fingerprint c = Inr fingerprint"
      "budget_snapshot_post_init (charged_snapshot s c cost fingerprint) = Inr candidate"
      "find fst (budget_checks candidate b) = Some (True, dimension)"
      "d = \<lparr>decided_snapshot = s, decided_replayed = False, decided_exceeded = Some dimension\<rparr>"
  | (accepted) cost fingerprint candidate where
      "map_of (use_fingerprints s) (chg_charge_id c) = None"
      "exact_decimal_add (use_cost s) (chg_cost c) = Inr cost"
      "charge_fingerprint c = Inr fingerprint"
      "budget_snapshot_post_init (charged_snapshot s c cost fingerprint) = Inr candidate"
      "find fst (budget_checks candidate b) = None"
      "d = \<lparr>decided_snapshot = candidate, decided_replayed = False, decided_exceeded = None\<rparr>"
proof (cases "map_of (use_fingerprints s) (chg_charge_id c)")
  case None
  with assms obtain cost fingerprint candidate where
      cand: "exact_decimal_add (use_cost s) (chg_cost c) = Inr cost"
        "charge_fingerprint c = Inr fingerprint"
        "budget_snapshot_post_init (charged_snapshot s c cost fingerprint) = Inr candidate"
    and d: "(case find fst (budget_checks candidate b) of
              Some (_, dimension) \<Rightarrow>
                Inr \<lparr>decided_snapshot = s, decided_replayed = False,
                     decided_exceeded = Some dimension\<rparr>
            | None \<Rightarrow>
                Inr \<lparr>decided_snapshot = candidate, decided_replayed = False,
                     decided_exceeded = None\<rparr>) = (Inr d :: exn + budget_decision)"
    by (auto simp: budget_apply_def result_bind_eq_Inr)
  show thesis
  proof (cases "find fst (budget_checks candidate b)")
    case None
    with d have "d = \<lparr>decided_snapshot = candidate, decided_replayed = False,
        decided_exceeded = None\<rparr>"
      by simp
    from accepted [OF \<open>map_of _ _ = None\<close> cand None this] show thesis .
  next
    case (Some p)
    obtain x dim where p: "p = (x, dim)" by fastforce
    from Some have "fst p" by (auto simp: find_Some_iff)
    with Some p have "find fst (budget_checks candidate b) = Some (True, dim)"
      by simp
    moreover from d Some p have "d = \<lparr>decided_snapshot = s, decided_replayed = False,
        decided_exceeded = Some dim\<rparr>"
      by simp
    ultimately show thesis using exceeded \<open>map_of _ _ = None\<close> cand by blast
  qed
next
  case (Some existing)
  with assms replay show thesis
    by (auto simp: budget_apply_def result_bind_eq_Inr split: if_splits)
qed

definition within_budget :: "budget_snapshot \<Rightarrow> run_budget \<Rightarrow> bool" where
  "within_budget s b \<longleftrightarrow>
     use_steps s \<le> bud_max_steps b \<and> use_model_calls s \<le> bud_max_model_calls b \<and>
     use_tool_calls s \<le> bud_max_tool_calls b \<and> use_input_tokens s \<le> bud_max_input_tokens b \<and>
     use_output_tokens s \<le> bud_max_output_tokens b \<and>
     total_tokens s \<le> bud_max_total_tokens b \<and>
     dec_value (use_cost s) \<le> dec_value (bud_max_cost b)"

lemma budget_checks_pass:
  assumes "find fst (budget_checks s b) = None" and "is_finite (use_cost s)"
    and "is_finite (bud_max_cost b)"
  shows "within_budget s b"
  using assms
  by (auto simp: budget_checks_def within_budget_def dec_less_value not_less split: if_splits)

lemma charged_snapshot_candidate:
  assumes s: "budget_snapshot_ok s" and c: "budget_charge_ok c"
    and cost: "exact_decimal_add (use_cost s) (chg_cost c) = Inr cost"
    and fp: "charge_fingerprint c = Inr fingerprint"
    and fresh: "map_of (use_fingerprints s) (chg_charge_id c) = None"
    and init: "budget_snapshot_post_init (charged_snapshot s c cost fingerprint) = Inr candidate"
  shows "budget_snapshot_ok candidate \<and>
    dec_value (use_cost candidate) = dec_value (use_cost s) + dec_value (chg_cost c) \<and>
    candidate\<lparr>use_cost := cost\<rparr> = charged_snapshot s c cost fingerprint \<and>
    use_fingerprints candidate = use_fingerprints s @ [(chg_charge_id c, fingerprint)]"
proof -
  obtain n where n: "normalize_decimal cost = Inr n"
    and cand: "candidate = (charged_snapshot s c cost fingerprint)\<lparr>use_cost := n\<rparr>"
    using init by (auto simp: budget_snapshot_post_init_def result_bind_eq_Inr charged_snapshot_def
        split: if_splits)
  have normal: "dec_normal n" and val: "dec_value n = dec_value cost"
    using normalize_decimal_Inr [OF n] by simp_all
  have sum: "dec_value cost = dec_value (use_cost s) + dec_value (chg_cost c)"
    using exact_decimal_add_value [OF _ _ cost] s c
    by (simp add: budget_snapshot_ok_def budget_charge_ok_def)
  have prefix: "starts_with ''sha256:'' fingerprint"
    using fp by (auto simp: charge_fingerprint_def result_bind_eq_Inr digest_pattern_def
        dest!: fingerprint_json_pattern)
  have notin: "chg_charge_id c \<notin> fst ` set (use_fingerprints s)"
    using fresh by (simp add: map_of_eq_None_iff)
  have "budget_snapshot_ok candidate"
    using s c normal prefix notin
    by (auto simp: cand budget_snapshot_ok_def budget_charge_ok_def charged_snapshot_def
        dict_set_fresh)
  with val sum notin show ?thesis
    by (simp add: cand charged_snapshot_def dict_set_fresh)
qed

lemma budget_apply_ok:
  assumes "budget_snapshot_ok s" and "budget_charge_ok c" and "budget_apply s c b = Inr d"
  shows "budget_snapshot_ok (decided_snapshot d)"
  using assms(3)
proof (cases rule: budget_apply_cases)
  case accepted
  with charged_snapshot_candidate [OF assms(1,2)] show ?thesis by simp
qed (use assms in simp_all)

lemma budget_apply_within:
  assumes "budget_snapshot_ok s" and "budget_charge_ok c" and "run_budget_ok b"
    and "within_budget s b" and "budget_apply s c b = Inr d"
  shows "within_budget (decided_snapshot d) b"
  using assms(5)
proof (cases rule: budget_apply_cases)
  case accepted
  then have "budget_snapshot_ok (decided_snapshot d)"
    using budget_apply_ok [OF assms(1,2,5)] by simp
  with accepted assms(3) show ?thesis
    by (auto intro: budget_checks_pass simp: budget_snapshot_ok_def run_budget_ok_def)
qed (use assms in simp_all)

text \<open>
  The ledger view: the snapshot is the sum of the charges absorbed so far, each once.
\<close>

definition ledger_matches :: "budget_snapshot \<Rightarrow> budget_charge list \<Rightarrow> bool" where
  "ledger_matches s cs \<longleftrightarrow>
     distinct (map chg_charge_id cs) \<and>
     use_steps s = sum_list (map chg_steps cs) \<and>
     use_model_calls s = sum_list (map chg_model_calls cs) \<and>
     use_tool_calls s = sum_list (map chg_tool_calls cs) \<and>
     use_input_tokens s = sum_list (map chg_input_tokens cs) \<and>
     use_output_tokens s = sum_list (map chg_output_tokens cs) \<and>
     dec_value (use_cost s) = sum_list (map (\<lambda>c. dec_value (chg_cost c)) cs) \<and>
     map (\<lambda>(i, f). (i, Inr f)) (use_fingerprints s) =
       map (\<lambda>c. (chg_charge_id c, charge_fingerprint c)) cs"

lemma ledger_matches_empty: "ledger_matches empty_snapshot []"
  by (simp add: ledger_matches_def empty_snapshot_def)

lemma ledger_ids: "ledger_matches s cs \<Longrightarrow> map fst (use_fingerprints s) = map chg_charge_id cs"
proof -
  assume "ledger_matches s cs"
  then have "map fst (map (\<lambda>(i, f). (i, Inr f :: exn + string)) (use_fingerprints s)) =
      map fst (map (\<lambda>c. (chg_charge_id c, charge_fingerprint c)) cs)"
    by (simp add: ledger_matches_def)
  then show ?thesis by (simp add: comp_def case_prod_beta)
qed

lemma ledger_fingerprint:
  assumes "ledger_matches s cs" and "distinct (map fst (use_fingerprints s))" and "c \<in> set cs"
  shows "\<exists>f. charge_fingerprint c = Inr f \<and> map_of (use_fingerprints s) (chg_charge_id c) = Some f"
proof -
  have "(chg_charge_id c, charge_fingerprint c) \<in> set (map (\<lambda>(i, f). (i, Inr f)) (use_fingerprints s))"
    using assms(1,3) by (simp add: ledger_matches_def)
  then obtain f where "charge_fingerprint c = Inr f" "(chg_charge_id c, f) \<in> set (use_fingerprints s)" by auto
  with assms(2) show ?thesis by (simp add: map_of_eq_Some_iff)
qed

lemma budget_apply_ledger:
  assumes s: "budget_snapshot_ok s" and c: "budget_charge_ok c" and l: "ledger_matches s cs"
    and d: "budget_apply s c b = Inr d"
  shows "ledger_matches (decided_snapshot d)
    (if decided_replayed d \<or> decided_exceeded d \<noteq> None then cs else cs @ [c])"
  using d
proof (cases rule: budget_apply_cases)
  case (accepted cost fingerprint candidate)
  note cand = charged_snapshot_candidate [OF s c accepted(2,3,1,4)]
  have fields: "use_steps candidate = use_steps s + chg_steps c \<and>
    use_model_calls candidate = use_model_calls s + chg_model_calls c \<and>
    use_tool_calls candidate = use_tool_calls s + chg_tool_calls c \<and>
    use_input_tokens candidate = use_input_tokens s + chg_input_tokens c \<and>
    use_output_tokens candidate = use_output_tokens s + chg_output_tokens c"
    using cand by (cases candidate) (simp add: charged_snapshot_def)
  have "chg_charge_id c \<notin> set (map fst (use_fingerprints s))"
    using accepted(1) by (simp add: map_of_eq_None_iff)
  then have "chg_charge_id c \<notin> set (map chg_charge_id cs)"
    using ledger_ids [OF l] by simp
  with accepted cand fields l show ?thesis
    by (simp add: ledger_matches_def)
qed (use l in simp_all)

text \<open>The fingerprint of a charge exists when its counters print.\<close>

definition charge_printable :: "budget_charge \<Rightarrow> bool" where
  "charge_printable c \<longleftrightarrow>
     printable (chg_steps c) \<and> printable (chg_model_calls c) \<and> printable (chg_tool_calls c) \<and>
     printable (chg_input_tokens c) \<and> printable (chg_output_tokens c)"

lemma charge_fingerprint_total:
  assumes "budget_charge_ok c" and "charge_printable c"
  shows "\<exists>f. charge_fingerprint c = Inr f \<and> digest_pattern f"
proof -
  obtain cost where cost: "canonical_decimal (chg_cost c) = Inr cost"
    using canonical_decimal_ok assms(1) by (fastforce simp: budget_charge_ok_def)
  have "json_printable (charge_body c cost)"
    using assms(2) by (simp add: charge_body_def charge_printable_def)
  from fingerprint_json_total [OF this] cost show ?thesis
    by (simp add: charge_fingerprint_def)
qed

text \<open>A snapshot that holds the fingerprint of a charge answers that charge as a replay.\<close>

lemma budget_apply_known:
  assumes "map_of (use_fingerprints s) (chg_charge_id c) = Some f"
    and "charge_fingerprint c = Inr f'"
  shows "budget_apply s c b =
    (if f = f' then Inr \<lparr>decided_snapshot = s, decided_replayed = True, decided_exceeded = None\<rparr>
     else Inl (RunLifecycleError RunIdempotencyConflict))"
  using assms by (simp add: budget_apply_def)

end
