(* ===== verification/Events.thy ===== *)
theory Events
  imports Budget
begin

section \<open>Lifecycle events\<close>

text \<open>
  \<open>src/zhiyi/domain/runs/events.py\<close>: the statuses and event types, the freezing of a payload
  into an immutable JSON value, the schema each event type imposes on its payload, and the
  constructor of an event. A payload enters as an arbitrary Python value (\<open>py_value\<close>), since the
  event codec passes decoded JSON; the checks that an argument has its declared class are the
  types of the model.
\<close>

datatype run_status =
    Queued | Running | WaitingApproval | WaitingResolution
  | Succeeded | Failed | Cancelled | LimitExceeded

fun run_status_value :: "run_status \<Rightarrow> string" where
  "run_status_value Queued = ''queued''"
| "run_status_value Running = ''running''"
| "run_status_value WaitingApproval = ''waiting_approval''"
| "run_status_value WaitingResolution = ''waiting_resolution''"
| "run_status_value Succeeded = ''succeeded''"
| "run_status_value Failed = ''failed''"
| "run_status_value Cancelled = ''cancelled''"
| "run_status_value LimitExceeded = ''limit_exceeded''"

definition is_terminal :: "run_status \<Rightarrow> bool" where
  "is_terminal s \<longleftrightarrow> s \<in> {Succeeded, Failed, Cancelled, LimitExceeded}"

lemma is_terminal_simps [simp]:
  "\<not> is_terminal Queued" "\<not> is_terminal Running" "\<not> is_terminal WaitingApproval"
  "\<not> is_terminal WaitingResolution" "is_terminal Succeeded" "is_terminal Failed"
  "is_terminal Cancelled" "is_terminal LimitExceeded"
  by (simp_all add: is_terminal_def)

datatype run_event_type =
    RunCreated | RunStarted | RunWaitingApproval | RunWaitingResolution | RunResumed
  | RunBudgetConsumed | RunSucceeded | RunFailedEvent | RunCancelledEvent | RunLimitExceeded

fun run_event_type_value :: "run_event_type \<Rightarrow> string" where
  "run_event_type_value RunCreated = ''run.created''"
| "run_event_type_value RunStarted = ''run.started''"
| "run_event_type_value RunWaitingApproval = ''run.waiting_approval''"
| "run_event_type_value RunWaitingResolution = ''run.waiting_resolution''"
| "run_event_type_value RunResumed = ''run.resumed''"
| "run_event_type_value RunBudgetConsumed = ''run.budget_consumed''"
| "run_event_type_value RunSucceeded = ''run.succeeded''"
| "run_event_type_value RunFailedEvent = ''run.failed''"
| "run_event_type_value RunCancelledEvent = ''run.cancelled''"
| "run_event_type_value RunLimitExceeded = ''run.limit_exceeded''"

lemma run_status_value_inj [simp]: "run_status_value s = run_status_value t \<longleftrightarrow> s = t"
  by (cases s; cases t) simp_all

lemma run_event_type_value_inj [simp]:
  "run_event_type_value s = run_event_type_value t \<longleftrightarrow> s = t"
  by (cases s; cases t) simp_all

subsection \<open>Payload tables\<close>

definition common_payload_fields :: "string list" where
  "common_payload_fields = [''status'', ''run_version'']"

fun event_payload_fields :: "run_event_type \<Rightarrow> string list" where
  "event_payload_fields RunCreated = common_payload_fields @ [''agent_version_id'']"
| "event_payload_fields RunStarted = common_payload_fields @ [''previous_status'']"
| "event_payload_fields RunWaitingApproval =
     common_payload_fields @ [''previous_status'', ''reference_id'']"
| "event_payload_fields RunWaitingResolution =
     common_payload_fields @ [''previous_status'', ''reference_id'']"
| "event_payload_fields RunResumed = common_payload_fields @ [''previous_status'']"
| "event_payload_fields RunBudgetConsumed = common_payload_fields @ [''usage'', ''charge_id'']"
| "event_payload_fields RunSucceeded = common_payload_fields @ [''result_version'']"
| "event_payload_fields RunFailedEvent =
     common_payload_fields @ [''result_version'', ''error_code'']"
| "event_payload_fields RunCancelledEvent =
     common_payload_fields @ [''result_version'', ''error_code'', ''correlation_id'']"
| "event_payload_fields RunLimitExceeded =
     common_payload_fields @ [''result_version'', ''error_code'', ''limit_dimension'']"

fun required_payload_fields :: "run_event_type \<Rightarrow> string list" where
  "required_payload_fields RunCreated = common_payload_fields @ [''agent_version_id'']"
| "required_payload_fields RunStarted = common_payload_fields @ [''previous_status'']"
| "required_payload_fields RunWaitingApproval =
     common_payload_fields @ [''previous_status'', ''reference_id'']"
| "required_payload_fields RunWaitingResolution =
     common_payload_fields @ [''previous_status'', ''reference_id'']"
| "required_payload_fields RunResumed = common_payload_fields @ [''previous_status'']"
| "required_payload_fields RunBudgetConsumed =
     common_payload_fields @ [''usage'', ''charge_id'']"
| "required_payload_fields RunSucceeded = common_payload_fields @ [''result_version'']"
| "required_payload_fields RunFailedEvent =
     common_payload_fields @ [''result_version'', ''error_code'']"
| "required_payload_fields RunCancelledEvent =
     common_payload_fields @ [''result_version'', ''error_code'']"
| "required_payload_fields RunLimitExceeded =
     common_payload_fields @ [''result_version'', ''error_code'', ''limit_dimension'']"

fun expected_status :: "run_event_type \<Rightarrow> run_status" where
  "expected_status RunCreated = Queued"
| "expected_status RunStarted = Running"
| "expected_status RunWaitingApproval = WaitingApproval"
| "expected_status RunWaitingResolution = WaitingResolution"
| "expected_status RunResumed = Running"
| "expected_status RunBudgetConsumed = Running"
| "expected_status RunSucceeded = Succeeded"
| "expected_status RunFailedEvent = Failed"
| "expected_status RunCancelledEvent = Cancelled"
| "expected_status RunLimitExceeded = LimitExceeded"

fun expected_previous_status :: "run_event_type \<Rightarrow> run_status list option" where
  "expected_previous_status RunStarted = Some [Queued]"
| "expected_previous_status RunWaitingApproval = Some [Running]"
| "expected_previous_status RunWaitingResolution = Some [Running]"
| "expected_previous_status RunResumed = Some [WaitingApproval, WaitingResolution]"
| "expected_previous_status _ = None"

definition usage_fields :: "string list" where
  "usage_fields = [''cost'', ''input_tokens'', ''model_calls'', ''output_tokens'', ''steps'',
     ''tool_calls'', ''total_tokens'']"

subsection \<open>Freezing and thawing\<close>

datatype py_value =
    PNone
  | PBool bool
  | PInt int
  | PStr string
  | PList "py_value list"
  | PTuple "py_value list"
  | PDict "(py_value \<times> py_value) list"
  | POther

datatype frozen =
    FNone
  | FBool bool
  | FInt int
  | FStr string
  | FTuple "frozen list"
  | FMap "(string \<times> frozen) list"

type_synonym payload = "(string \<times> frozen) list"

function (sequential) freeze_json :: "py_value \<Rightarrow> exn + frozen" where
  "freeze_json PNone = Inr FNone"
| "freeze_json (PBool b) = Inr (FBool b)"
| "freeze_json (PInt i) = Inr (FInt i)"
| "freeze_json (PStr s) = Inr (FStr s)"
| "freeze_json (PDict kvs) =
     result_bind
       (traverse (\<lambda>kv. case fst kv of
            PStr k \<Rightarrow> result_bind (freeze_json (snd kv)) (\<lambda>v. Inr (k, v))
          | _ \<Rightarrow> Inl TypeError) kvs)
       (\<lambda>entries. Inr (FMap (dict_update [] entries)))"
| "freeze_json (PList vs) =
     result_bind (traverse freeze_json vs) (\<lambda>fs. Inr (FTuple fs))"
| "freeze_json (PTuple vs) =
     result_bind (traverse freeze_json vs) (\<lambda>fs. Inr (FTuple fs))"
| "freeze_json POther = Inl TypeError"
  by pat_completeness auto
termination
proof (relation "measure size", goal_cases)
  case 1
  show ?case by simp
next
  case (2 kvs kv k)
  have small: "size (snd kv) < size_prod size size kv"
    by (simp add: prod.size_gen(1) [of size size "fst kv" "snd kv", simplified])
  from 2 have "kv \<in> set kvs" by simp
  then have "size_prod size size kv \<le> size_list (size_prod size size) kvs"
    by (rule size_list_estimation') simp
  with small show ?case by simp
next
  case (3 vs v)
  then show ?case using size_list_estimation' [of v vs "size v" size] by simp
next
  case (4 vs v)
  then show ?case using size_list_estimation' [of v vs "size v" size] by simp
qed

fun thaw :: "frozen \<Rightarrow> py_value" where
  "thaw FNone = PNone"
| "thaw (FBool b) = PBool b"
| "thaw (FInt i) = PInt i"
| "thaw (FStr s) = PStr s"
| "thaw (FTuple fs) = PList (map thaw fs)"
| "thaw (FMap kvs) = PDict (map (\<lambda>kv. (PStr (fst kv), thaw (snd kv))) kvs)"

definition thaw_event_payload :: "payload \<Rightarrow> py_value" where
  "thaw_event_payload p = PDict (map (\<lambda>kv. (PStr (fst kv), thaw (snd kv))) p)"

text \<open>A frozen value that a dictionary can hold: no key twice, at any depth.\<close>

fun frozen_ok :: "frozen \<Rightarrow> bool" where
  "frozen_ok (FTuple fs) = list_all frozen_ok fs"
| "frozen_ok (FMap kvs) = (distinct (map fst kvs) \<and> list_all (\<lambda>kv. frozen_ok (snd kv)) kvs)"
| "frozen_ok _ = True"

text \<open>Hashing a frozen value: a \<open>MappingProxyType\<close> over a \<open>dict\<close> has no hash.\<close>

fun hashable :: "frozen \<Rightarrow> bool" where
  "hashable (FTuple fs) = list_all hashable fs"
| "hashable (FMap kvs) = False"
| "hashable _ = True"

text \<open>\<open>value not in {"..", ..}\<close> over a set of strings.\<close>

definition member_of :: "frozen \<Rightarrow> string list \<Rightarrow> exn + bool" where
  "member_of v names =
     (if \<not> hashable v then Inl TypeError else Inr (v \<in> set (map FStr names)))"

subsection \<open>The payload schema\<close>

text \<open>\<open>type(value) is str\<close> followed by the identifier's constructor.\<close>

fun validate_identifier_field :: "frozen \<Rightarrow> exn + unit" where
  "validate_identifier_field (FStr s) = require (identifier_pattern s) ValueError"
| "validate_identifier_field _ = Inl ValueError"

fun positive_int :: "frozen \<Rightarrow> bool" where
  "positive_int (FInt i) = (1 \<le> i)"
| "positive_int _ = False"

fun counter_int :: "frozen \<Rightarrow> bool" where
  "counter_int (FInt i) = (0 \<le> i)"
| "counter_int _ = False"

fun equals_one :: "frozen \<Rightarrow> bool" where
  "equals_one (FInt i) = (i = 1)"
| "equals_one (FBool b) = b"
| "equals_one _ = False"

fun tokens_consistent :: "frozen option \<Rightarrow> frozen option \<Rightarrow> frozen option \<Rightarrow> bool" where
  "tokens_consistent (Some (FInt i)) (Some (FInt j)) (Some (FInt t)) = (t = i + j)"
| "tokens_consistent _ _ _ = False"

fun canonical_cost :: "frozen option \<Rightarrow> bool" where
  "canonical_cost (Some (FStr s)) = decimal_pattern s"
| "canonical_cost _ = False"

fun validate_usage :: "frozen \<Rightarrow> exn + unit" where
  "validate_usage (FMap usage) =
     require (set (map fst usage) = set usage_fields \<and>
       list_all (\<lambda>name. case map_of usage name of Some v \<Rightarrow> counter_int v | None \<Rightarrow> False)
         (filter (\<lambda>name. name \<noteq> ''cost'') usage_fields) \<and>
       tokens_consistent (map_of usage ''input_tokens'') (map_of usage ''output_tokens'')
         (map_of usage ''total_tokens'') \<and>
       canonical_cost (map_of usage ''cost'')) ValueError"
| "validate_usage _ = Inl ValueError"

text \<open>\<open>payload[name]\<close>, where a missing key raises.\<close>

definition item :: "payload \<Rightarrow> string \<Rightarrow> exn + frozen" where
  "item p name = (case map_of p name of Some v \<Rightarrow> Inr v | None \<Rightarrow> Inl KeyError)"

text \<open>\<open>if name in payload: check(payload[name])\<close>\<close>

definition when_present :: "payload \<Rightarrow> string \<Rightarrow> (frozen \<Rightarrow> exn + unit) \<Rightarrow> exn + unit" where
  "when_present p name check = (case map_of p name of Some v \<Rightarrow> check v | None \<Rightarrow> Inr ())"

fun expected_error_value :: "run_event_type \<Rightarrow> string option" where
  "expected_error_value RunFailedEvent = Some ''failed''"
| "expected_error_value RunCancelledEvent = Some ''cancelled''"
| "expected_error_value RunLimitExceeded = Some ''budget_limit''"
| "expected_error_value _ = None"

definition limit_dimension_values :: "string list" where
  "limit_dimension_values = [''deadline'', ''steps'', ''model_calls'', ''tool_calls'',
     ''input_tokens'', ''output_tokens'', ''total_tokens'', ''cost'']"

definition validate_payload_schema :: "run_event_type \<Rightarrow> payload \<Rightarrow> exn + unit" where
  "validate_payload_schema t p =
     result_bind (require (set (required_payload_fields t) \<subseteq> set (map fst p)) ValueError) (\<lambda>_.
     result_bind (item p ''status'') (\<lambda>status.
     result_bind (require (status = FStr (run_status_value (expected_status t))) ValueError) (\<lambda>_.
     result_bind (item p ''run_version'') (\<lambda>run_version.
     result_bind (require (positive_int run_version) ValueError) (\<lambda>_.
     result_bind
       (case expected_previous_status t of None \<Rightarrow> Inr ()
        | Some previous \<Rightarrow>
            result_bind (item p ''previous_status'') (\<lambda>v.
            result_bind (member_of v (map run_status_value previous)) (\<lambda>ok.
              require ok ValueError))) (\<lambda>_.
     result_bind
       (if t = RunCreated then result_bind (item p ''agent_version_id'') validate_identifier_field
        else Inr ()) (\<lambda>_.
     result_bind
       (if t \<in> {RunWaitingApproval, RunWaitingResolution}
        then result_bind (item p ''reference_id'') validate_identifier_field else Inr ()) (\<lambda>_.
     result_bind
       (if t = RunBudgetConsumed
        then result_bind (result_bind (item p ''charge_id'') validate_identifier_field)
               (\<lambda>_. result_bind (item p ''usage'') validate_usage)
        else Inr ()) (\<lambda>_.
     result_bind
       (when_present p ''result_version'' (\<lambda>v. require (equals_one v) ValueError)) (\<lambda>_.
     result_bind
       (case expected_error_value t of None \<Rightarrow> Inr ()
        | Some e \<Rightarrow>
            result_bind (item p ''error_code'') (\<lambda>v. require (v = FStr e) ValueError)) (\<lambda>_.
     result_bind (when_present p ''correlation_id'' validate_identifier_field) (\<lambda>_.
       when_present p ''limit_dimension'' (\<lambda>v.
         result_bind (member_of v limit_dimension_values) (\<lambda>ok.
           require ok ValueError))))))))))))))"

subsection \<open>Events\<close>

record run_event =
  ev_event_id :: event_id
  ev_tenant_id :: tenant_id
  ev_run_id :: run_id
  ev_sequence :: int
  ev_type :: run_event_type
  ev_occurred_at :: datetime
  ev_payload_version :: int
  ev_payload :: payload

definition unknown_fields :: "run_event_type \<Rightarrow> (py_value \<times> py_value) list \<Rightarrow> bool" where
  "unknown_fields t kvs \<longleftrightarrow>
     list_ex (\<lambda>kv. fst kv \<notin> set (map PStr (event_payload_fields t))) kvs"

definition new_run_event ::
    "event_id \<Rightarrow> tenant_id \<Rightarrow> run_id \<Rightarrow> int \<Rightarrow> run_event_type \<Rightarrow> datetime \<Rightarrow> int \<Rightarrow> py_value
      \<Rightarrow> exn + run_event" where
  "new_run_event eid tid rid seq t ts pv raw =
     (if seq < 1 then Inl ValueError
      else if \<not> is_utc ts then Inl ValueError
      else if pv \<noteq> 1 then Inl ValueError
      else (case raw of
          PDict kvs \<Rightarrow>
            if unknown_fields t kvs then Inl ValueError
            else result_bind (freeze_json raw) (\<lambda>frozen. case frozen of
                FMap p \<Rightarrow>
                  result_bind (validate_payload_schema t p) (\<lambda>_.
                    Inr \<lparr>ev_event_id = eid, ev_tenant_id = tid, ev_run_id = rid,
                      ev_sequence = seq, ev_type = t, ev_occurred_at = ts,
                      ev_payload_version = pv, ev_payload = p\<rparr>)
              | _ \<Rightarrow> Inl TypeError)
        | _ \<Rightarrow> Inl TypeError))"

subsection \<open>Lemmas\<close>

lemma dict_update_distinct:
  assumes "distinct (map fst es)" and "fst ` set es \<inter> fst ` set d = {}"
  shows "dict_update d es = d @ es"
  using assms
proof (induction d es rule: dict_update.induct)
  case (2 d k v e)
  from 2(2,3) have k: "k \<notin> fst ` set d" and e: "distinct (map fst e)" by auto
  have "fst ` set e \<inter> fst ` set (dict_set k v d) = {}"
    using 2(2,3) by (auto simp: k dict_set_fresh)
  from 2(1) [OF e this] k show ?case by (simp add: dict_set_fresh)
qed simp

lemma distinct_dict_update: "distinct (map fst d) \<Longrightarrow> distinct (map fst (dict_update d es))"
  by (induction d es rule: dict_update.induct) (simp_all add: distinct_dict_set)

lemma traverse_Inr_nth:
  "traverse f xs = Inr ys \<Longrightarrow> y \<in> set ys \<Longrightarrow> \<exists>x \<in> set xs. f x = Inr y"
  by (induction xs arbitrary: ys) (auto simp: result_bind_eq_Inr)

lemma set_dict_set_subset: "set (dict_set k v d) \<subseteq> insert (k, v) (set d)"
  by (induction k v d rule: dict_set.induct) auto

lemma set_dict_update_subset: "set (dict_update d es) \<subseteq> set d \<union> set es"
proof (induction d es rule: dict_update.induct)
  case (2 d k v e)
  then show ?case using set_dict_set_subset [of k v d] by auto
qed simp

text \<open>The freezing of one entry, as the loop of the code does it.\<close>

definition freeze_entry :: "py_value \<times> py_value \<Rightarrow> exn + (string \<times> frozen)" where
  "freeze_entry kv = (case fst kv of
       PStr k \<Rightarrow> result_bind (freeze_json (snd kv)) (\<lambda>v. Inr (k, v))
     | _ \<Rightarrow> Inl TypeError)"

lemma freeze_json_PDict:
  "freeze_json (PDict kvs) =
     result_bind (traverse freeze_entry kvs) (\<lambda>es. Inr (FMap (dict_update [] es)))"
  by (simp add: freeze_entry_def [abs_def])

declare freeze_json.simps(5) [simp del]

lemma freeze_entry_PStr [simp]:
  "freeze_entry (PStr k, v) = result_bind (freeze_json v) (\<lambda>f. Inr (k, f))"
  by (simp add: freeze_entry_def)

lemma freeze_entry_Inr:
  "freeze_entry kv = Inr e \<longleftrightarrow> fst kv = PStr (fst e) \<and> freeze_json (snd kv) = Inr (snd e)"
  by (cases e; cases "fst kv") (auto simp: freeze_entry_def result_bind_eq_Inr)

lemma freeze_json_PDict_Inr:
  "freeze_json (PDict kvs) = Inr f \<longleftrightarrow>
     (\<exists>es. traverse freeze_entry kvs = Inr es \<and> f = FMap (dict_update [] es))"
  by (auto simp: freeze_json_PDict result_bind_eq_Inr)

text \<open>Freezing leaves a dictionary at every level, and thawing undoes it.\<close>

lemma freeze_json_ok: "freeze_json v = Inr f \<Longrightarrow> frozen_ok f"
proof (induction v arbitrary: f rule: freeze_json.induct)
  case (5 kvs)
  then obtain es where es: "traverse freeze_entry kvs = Inr es"
    and f: "f = FMap (dict_update [] es)"
    by (auto simp: freeze_json_PDict_Inr)
  have "frozen_ok (snd e)" if "e \<in> set es" for e
    using traverse_Inr_nth [OF es that] "5.IH" by (auto simp: freeze_entry_Inr)
  then show ?case
    using set_dict_update_subset [of "[]" es]
    by (auto simp: f list_all_iff distinct_dict_update)
next
  case (6 vs)
  then show ?case by (fastforce simp: result_bind_eq_Inr list_all_iff dest: traverse_Inr_nth)
next
  case (7 vs)
  then show ?case by (fastforce simp: result_bind_eq_Inr list_all_iff dest: traverse_Inr_nth)
qed auto

lemma freeze_thaw: "frozen_ok f \<Longrightarrow> freeze_json (thaw f) = Inr f"
proof (induction f)
  case (FTuple fs)
  then have "traverse freeze_json (map thaw fs) = Inr (map id fs)"
    by (simp only: traverse_map) (rule traverse_all_Inr; simp add: list_all_iff)
  then show ?case by simp
next
  case (FMap kvs)
  have "(freeze_entry \<circ> (\<lambda>kv. (PStr (fst kv), thaw (snd kv)))) kv = Inr (id kv)"
    if "kv \<in> set kvs" for kv
    using FMap.IH [of kv "snd kv"] FMap.prems that
    by (cases kv) (auto simp: list_all_iff)
  then have "traverse freeze_entry (map (\<lambda>kv. (PStr (fst kv), thaw (snd kv))) kvs) =
      Inr (map id kvs)"
    by (simp only: traverse_map) (rule traverse_all_Inr)
  with FMap.prems show ?case by (simp add: freeze_json_PDict dict_update_distinct)
qed auto

definition payload_ok :: "payload \<Rightarrow> bool" where
  "payload_ok p \<longleftrightarrow> frozen_ok (FMap p)"

lemma freeze_thaw_payload:
  "payload_ok p \<Longrightarrow> freeze_json (thaw_event_payload p) = Inr (FMap p)"
  using freeze_thaw [of "FMap p"] by (simp add: payload_ok_def thaw_event_payload_def)

definition run_event_ok :: "run_event \<Rightarrow> bool" where
  "run_event_ok e \<longleftrightarrow>
     1 \<le> ev_sequence e \<and> is_utc (ev_occurred_at e) \<and> ev_payload_version e = 1 \<and>
     payload_ok (ev_payload e) \<and>
     set (map fst (ev_payload e)) \<subseteq> set (event_payload_fields (ev_type e)) \<and>
     validate_payload_schema (ev_type e) (ev_payload e) = Inr ()"

lemma new_run_event_Inr:
  assumes "new_run_event eid tid rid seq t ts pv raw = Inr e"
  obtains kvs p where "raw = PDict kvs" "freeze_json raw = Inr (FMap p)"
    "e = \<lparr>ev_event_id = eid, ev_tenant_id = tid, ev_run_id = rid, ev_sequence = seq, ev_type = t,
          ev_occurred_at = ts, ev_payload_version = 1, ev_payload = p\<rparr>" "pv = 1"
    "1 \<le> seq" "is_utc ts" "\<not> unknown_fields t kvs" "validate_payload_schema t p = Inr ()"
proof (cases raw)
  case (PDict kvs)
  show thesis
  proof (cases "freeze_json raw")
    case (Inr f)
    with assms PDict show thesis
      by (cases f) (auto intro: that simp: new_run_event_def result_bind_eq_Inr split: if_splits)
  qed (use assms PDict in \<open>simp add: new_run_event_def split: if_splits\<close>)
qed (use assms in \<open>simp_all add: new_run_event_def split: if_splits\<close>)

lemma freeze_json_keys:
  assumes "freeze_json (PDict kvs) = Inr (FMap p)" and "k \<in> fst ` set p"
  shows "PStr k \<in> fst ` set kvs"
proof -
  from assms(1) obtain es where es: "traverse freeze_entry kvs = Inr es"
    and p: "p = dict_update [] es"
    by (auto simp: freeze_json_PDict_Inr)
  from assms(2) p obtain v where "(k, v) \<in> set es"
    using set_dict_update_subset [of "[]" es] by auto
  from traverse_Inr_nth [OF es this] show ?thesis
    by (force simp: freeze_entry_Inr)
qed

lemma new_run_event_ok: "new_run_event eid tid rid seq t ts pv raw = Inr e \<Longrightarrow> run_event_ok e"
proof (elim new_run_event_Inr)
  fix kvs p
  assume raw: "raw = PDict kvs" and p: "freeze_json raw = Inr (FMap p)"
    and e: "e = \<lparr>ev_event_id = eid, ev_tenant_id = tid, ev_run_id = rid, ev_sequence = seq,
      ev_type = t, ev_occurred_at = ts, ev_payload_version = 1, ev_payload = p\<rparr>"
    and rest: "1 \<le> seq" "is_utc ts" "validate_payload_schema t p = Inr ()"
    and known: "\<not> unknown_fields t kvs"
  have "payload_ok p" using freeze_json_ok [OF p] by (simp add: payload_ok_def)
  moreover have "set (map fst p) \<subseteq> set (event_payload_fields t)"
    using known freeze_json_keys [of kvs p] p raw
    by (fastforce simp: unknown_fields_def list_ex_iff)
  ultimately show "run_event_ok e" using rest by (simp add: e run_event_ok_def)
qed

text \<open>The round trip of an event through its thawed payload.\<close>

lemma run_event_rebuild:
  assumes "run_event_ok e"
  shows "new_run_event (ev_event_id e) (ev_tenant_id e) (ev_run_id e) (ev_sequence e) (ev_type e)
    (ev_occurred_at e) (ev_payload_version e) (thaw_event_payload (ev_payload e)) = Inr e"
proof -
  have "\<not> unknown_fields (ev_type e)
      (map (\<lambda>kv. (PStr (fst kv), thaw (snd kv))) (ev_payload e))"
    using assms by (fastforce simp: run_event_ok_def unknown_fields_def list_ex_iff)
  with assms freeze_thaw_payload [of "ev_payload e"] show ?thesis
    by (simp add: new_run_event_def run_event_ok_def thaw_event_payload_def)
qed

end
