(* ===== verification/Results.thy ===== *)
theory Results
  imports Events
begin

section \<open>Terminal results\<close>

text \<open>
  \<open>src/zhiyi/domain/runs/results.py\<close>: the safe error of a run that did not succeed, the draft
  the executor supplies, and the versioned result of a terminal run.
\<close>

record safe_run_error =
  err_code :: run_error_code
  err_correlation_id :: "correlation_id option"
  err_limit_dimension :: "budget_dimension option"

definition safe_run_error_post_init :: "safe_run_error \<Rightarrow> exn + safe_run_error" where
  "safe_run_error_post_init e =
     (if err_code e = RunBudgetLimit \<and> err_limit_dimension e = None then Inl ValueError
      else if err_code e \<noteq> RunBudgetLimit \<and> err_limit_dimension e \<noteq> None then Inl ValueError
      else Inr e)"

definition safe_run_error_message :: "safe_run_error \<Rightarrow> string" where
  "safe_run_error_message e = safe_error_message (err_code e)"

record run_result_draft =
  dr_answer :: "string option"
  dr_warning_codes :: "string list"
  dr_citation_ids :: "reference_id list"
  dr_artifact_ids :: "reference_id list"
  dr_approval_ids :: "reference_id list"
  dr_correlation_id :: "correlation_id option"

definition empty_draft :: run_result_draft where
  "empty_draft = \<lparr>dr_answer = None, dr_warning_codes = [], dr_citation_ids = [],
     dr_artifact_ids = [], dr_approval_ids = [], dr_correlation_id = None\<rparr>"

text \<open>\<open>_WARNING_PATTERN\<close> is the pattern of the identifiers.\<close>

definition warning_pattern :: "string \<Rightarrow> bool" where
  "warning_pattern = identifier_pattern"

definition run_result_draft_post_init :: "run_result_draft \<Rightarrow> exn + run_result_draft" where
  "run_result_draft_post_init d =
     (if \<not> list_all warning_pattern (dr_warning_codes d) then Inl ValueError
      else Inr (d\<lparr>dr_warning_codes := dedup (dr_warning_codes d),
                  dr_citation_ids := dedup (dr_citation_ids d),
                  dr_artifact_ids := dedup (dr_artifact_ids d),
                  dr_approval_ids := dedup (dr_approval_ids d)\<rparr>))"

record run_result =
  res_version :: int
  res_tenant_id :: tenant_id
  res_run_id :: run_id
  res_agent_version :: agent_version_ref
  res_status :: run_status
  res_draft :: run_result_draft
  res_usage :: budget_snapshot
  res_error :: "safe_run_error option"

fun expected_result_code :: "run_status \<Rightarrow> run_error_code option" where
  "expected_result_code Failed = Some RunFailed"
| "expected_result_code Cancelled = Some RunCancelled"
| "expected_result_code LimitExceeded = Some RunBudgetLimit"
| "expected_result_code _ = None"

definition run_result_post_init :: "run_result \<Rightarrow> exn + run_result" where
  "run_result_post_init r =
     (if res_version r \<noteq> 1 then Inl ValueError
      else if avr_tenant_id (res_agent_version r) \<noteq> res_tenant_id r then Inl ValueError
      else if \<not> is_terminal (res_status r) then Inl ValueError
      else if res_status r = Succeeded then
        (if res_error r \<noteq> None then Inl ValueError else Inr r)
      else (case res_error r of
          None \<Rightarrow> Inl ValueError
        | Some e \<Rightarrow>
            if Some (err_code e) \<noteq> expected_result_code (res_status r) then Inl ValueError
            else Inr r))"

text \<open>\<open>RunResult.__eq__\<close>, which compares the usage's decimals by value.\<close>

definition run_result_eq :: "run_result \<Rightarrow> run_result \<Rightarrow> bool" where
  "run_result_eq a b \<longleftrightarrow>
     res_version a = res_version b \<and> res_tenant_id a = res_tenant_id b \<and>
     res_run_id a = res_run_id b \<and> res_agent_version a = res_agent_version b \<and>
     res_status a = res_status b \<and> res_draft a = res_draft b \<and>
     budget_snapshot_eq (res_usage a) (res_usage b) \<and> res_error a = res_error b"

lemma run_result_eq_refl [simp]: "run_result_eq r r"
  by (simp add: run_result_eq_def)

subsection \<open>Well-formed results\<close>

definition correlation_ok :: "correlation_id option \<Rightarrow> bool" where
  "correlation_ok c \<longleftrightarrow> (case c of None \<Rightarrow> True | Some i \<Rightarrow> identifier_pattern (correlation_id_value i))"

lemma correlation_ok_simps [simp]:
  "correlation_ok None"
  "correlation_ok (Some i) = identifier_pattern (correlation_id_value i)"
  by (simp_all add: correlation_ok_def)

definition safe_run_error_ok :: "safe_run_error \<Rightarrow> bool" where
  "safe_run_error_ok e \<longleftrightarrow>
     correlation_ok (err_correlation_id e) \<and>
     (err_code e = RunBudgetLimit \<longleftrightarrow> err_limit_dimension e \<noteq> None)"

definition references_ok :: "reference_id list \<Rightarrow> bool" where
  "references_ok rs \<longleftrightarrow>
     distinct rs \<and> list_all (\<lambda>i. identifier_pattern (reference_id_value i)) rs"

definition run_result_draft_ok :: "run_result_draft \<Rightarrow> bool" where
  "run_result_draft_ok d \<longleftrightarrow>
     list_all warning_pattern (dr_warning_codes d) \<and> distinct (dr_warning_codes d) \<and>
     references_ok (dr_citation_ids d) \<and> references_ok (dr_artifact_ids d) \<and>
     references_ok (dr_approval_ids d) \<and> correlation_ok (dr_correlation_id d)"

definition run_result_ok :: "run_result \<Rightarrow> bool" where
  "run_result_ok r \<longleftrightarrow>
     run_result_post_init r = Inr r \<and> run_result_draft_ok (res_draft r) \<and>
     budget_snapshot_ok (res_usage r) \<and>
     (case res_error r of None \<Rightarrow> True | Some e \<Rightarrow> safe_run_error_ok e)"

lemma empty_draft_ok [simp]: "run_result_draft_ok empty_draft"
  by (simp add: run_result_draft_ok_def empty_draft_def references_ok_def)

lemma run_result_draft_post_init_ok [post_init_simps]:
  "run_result_draft_ok d \<Longrightarrow> run_result_draft_post_init d = Inr d"
  by (simp add: run_result_draft_post_init_def run_result_draft_ok_def references_ok_def
      dedup_distinct)

lemma safe_run_error_post_init_ok [post_init_simps]:
  "safe_run_error_ok e \<Longrightarrow> safe_run_error_post_init e = Inr e"
  by (simp add: safe_run_error_post_init_def safe_run_error_ok_def)

text \<open>
  What the constructor of a draft returns is well formed, and constructing it again changes
  nothing: the deduplication keeps the first occurrences.
\<close>

lemma run_result_draft_post_init_Inr:
  assumes "run_result_draft_post_init d = Inr d'"
    and "\<forall>i \<in> set (dr_citation_ids d) \<union> set (dr_artifact_ids d) \<union> set (dr_approval_ids d).
      identifier_pattern (reference_id_value i)"
    and "correlation_ok (dr_correlation_id d)"
  shows "run_result_draft_ok d' \<and> dr_answer d' = dr_answer d \<and>
    set (dr_warning_codes d') = set (dr_warning_codes d)"
  using assms
  by (auto simp: run_result_draft_post_init_def run_result_draft_ok_def references_ok_def
      list_all_iff split: if_splits)

lemma run_result_post_init_Inr [dest]: "run_result_post_init r = Inr r' \<Longrightarrow> r' = r"
  by (auto simp: run_result_post_init_def split: if_splits option.splits)

text \<open>The error of a result tells its status apart.\<close>

lemma run_result_ok_error:
  "run_result_ok r \<Longrightarrow>
     res_error r = None \<and> res_status r = Succeeded \<or>
     (\<exists>e. res_error r = Some e \<and> expected_result_code (res_status r) = Some (err_code e))"
  by (auto simp: run_result_ok_def run_result_post_init_def split: if_splits option.splits)

end
