(* ===== verification/Aggregate.thy ===== *)
theory Aggregate
  imports Results
begin

section \<open>The run aggregate\<close>

text \<open>
  \<open>src/zhiyi/domain/runs/aggregate.py\<close>: the table of allowed transitions, the snapshot of a
  run with the checks of its constructor, and the operations of its life cycle. An
  operation returns the next snapshot with the events it emits, or the exception. The clock
  reading and the new event's identifier are arguments, as in the code.
\<close>

fun allowed_transitions :: "run_status \<Rightarrow> run_status list" where
  "allowed_transitions Queued = [Running, Cancelled, LimitExceeded]"
| "allowed_transitions Running =
     [WaitingApproval, WaitingResolution, Succeeded, Failed, Cancelled, LimitExceeded]"
| "allowed_transitions WaitingApproval = [Running, Cancelled, LimitExceeded]"
| "allowed_transitions WaitingResolution = [Running, Cancelled, LimitExceeded]"
| "allowed_transitions Succeeded = []"
| "allowed_transitions Failed = []"
| "allowed_transitions Cancelled = []"
| "allowed_transitions LimitExceeded = []"

record run =
  r_tenant_id :: tenant_id
  r_run_id :: run_id
  r_task_id :: task_id
  r_agent_version :: agent_version_ref
  r_status :: run_status
  r_version :: int
  r_budget :: run_budget
  r_usage :: budget_snapshot
  r_created_at :: datetime
  r_updated_at :: datetime
  r_last_observed_at :: datetime
  r_next_event_sequence :: int
  r_result :: "run_result option"

record run_mutation =
  mut_run :: run
  mut_events :: "run_event list"

definition run_post_init :: "run \<Rightarrow> exn + run" where
  "run_post_init r =
     (if avr_tenant_id (r_agent_version r) \<noteq> r_tenant_id r then Inl ValueError
      else if r_version r < 1 then Inl ValueError
      else if \<not> list_all is_utc [r_created_at r, r_updated_at r, r_last_observed_at r]
      then Inl ValueError
      else if instant (r_updated_at r) < instant (r_created_at r) \<or>
              instant (r_last_observed_at r) < instant (r_updated_at r) then Inl ValueError
      else if instant (bud_deadline_at (r_budget r)) \<le> instant (r_created_at r)
      then Inl ValueError
      else if r_next_event_sequence r \<noteq> r_version r + 1 then Inl ValueError
      else if is_terminal (r_status r) then
        (case r_result r of
           None \<Rightarrow> Inl ValueError
         | Some res \<Rightarrow>
             if res_status res \<noteq> r_status r then Inl ValueError
             else if res_tenant_id res \<noteq> r_tenant_id r \<or> res_run_id res \<noteq> r_run_id r \<or>
                     res_agent_version res \<noteq> r_agent_version r \<or>
                     \<not> budget_snapshot_eq (res_usage res) (r_usage r) then Inl ValueError
             else Inr r)
      else if r_result r \<noteq> None then Inl ValueError
      else Inr r)"

text \<open>A dictionary literal with string keys, as a Python value.\<close>

definition py_dict :: "(string \<times> py_value) list \<Rightarrow> py_value" where
  "py_dict d = PDict (map (\<lambda>kv. (PStr (fst kv), snd kv)) d)"

definition run_create ::
    "tenant_id \<Rightarrow> run_id \<Rightarrow> task_id \<Rightarrow> agent_version_ref \<Rightarrow> run_budget \<Rightarrow> datetime \<Rightarrow> event_id
      \<Rightarrow> exn + run_mutation" where
  "run_create tid rid task ver bud observed_at eid =
     result_bind (require_utc observed_at) (\<lambda>_.
     result_bind (run_post_init
       \<lparr>r_tenant_id = tid, r_run_id = rid, r_task_id = task, r_agent_version = ver,
        r_status = Queued, r_version = 1, r_budget = bud, r_usage = empty_snapshot,
        r_created_at = observed_at, r_updated_at = observed_at,
        r_last_observed_at = observed_at, r_next_event_sequence = 2, r_result = None\<rparr>) (\<lambda>r.
     result_bind (new_run_event eid tid rid 1 RunCreated observed_at 1
       (py_dict [(''agent_version_id'', PStr (agent_version_id_value (avr_version_id ver))),
                 (''run_version'', PInt 1),
                 (''status'', PStr (run_status_value Queued))])) (\<lambda>e.
       Inr \<lparr>mut_run = r, mut_events = [e]\<rparr>)))"

definition effective_time :: "run \<Rightarrow> datetime \<Rightarrow> exn + datetime" where
  "effective_time r observed_at =
     result_bind (require_utc observed_at) (\<lambda>_.
       Inr (datetime_max (r_last_observed_at r) observed_at))"

definition assert_transition :: "run \<Rightarrow> run_status \<Rightarrow> exn + unit" where
  "assert_transition r target =
     (if target \<notin> set (allowed_transitions (r_status r))
      then Inl (RunLifecycleError RunIllegalTransition) else Inr ())"

definition change_result ::
    "run \<Rightarrow> run_status \<Rightarrow> budget_snapshot \<Rightarrow> run_result_draft option \<Rightarrow> safe_run_error option
      \<Rightarrow> exn + run_result option" where
  "change_result r target usage draft error =
     (if is_terminal target then
        result_bind (run_result_post_init
          \<lparr>res_version = 1, res_tenant_id = r_tenant_id r, res_run_id = r_run_id r,
           res_agent_version = r_agent_version r, res_status = target,
           res_draft = (case draft of Some d \<Rightarrow> d | None \<Rightarrow> empty_draft),
           res_usage = usage, res_error = error\<rparr>) (\<lambda>res. Inr (Some res))
      else Inr None)"

definition run_change ::
    "run \<Rightarrow> run_status \<Rightarrow> run_event_type \<Rightarrow> datetime \<Rightarrow> event_id \<Rightarrow> (string \<times> py_value) list
      \<Rightarrow> budget_snapshot option \<Rightarrow> run_result_draft option \<Rightarrow> safe_run_error option \<Rightarrow> bool
      \<Rightarrow> exn + run_mutation" where
  "run_change r target t observed_at eid payload usage draft error allow_self =
     result_bind
       (if allow_self \<and> r_status r = target \<and> target = Running then Inr ()
        else assert_transition r target) (\<lambda>_.
     result_bind (effective_time r observed_at) (\<lambda>effective_at.
     let next_version = r_version r + 1;
         next_usage = (case usage of Some u \<Rightarrow> u | None \<Rightarrow> r_usage r) in
     result_bind (change_result r target next_usage draft error) (\<lambda>result.
     let event_payload = dict_update
           [(''run_version'', PInt next_version),
            (''status'', PStr (run_status_value target))] payload in
     result_bind (run_post_init
       (r\<lparr>r_status := target, r_version := next_version, r_usage := next_usage,
          r_updated_at := effective_at, r_last_observed_at := effective_at,
          r_next_event_sequence := r_next_event_sequence r + 1, r_result := result\<rparr>)) (\<lambda>updated.
     result_bind (new_run_event eid (r_tenant_id r) (r_run_id r) (r_next_event_sequence r) t
       effective_at 1 (py_dict event_payload)) (\<lambda>e.
       Inr \<lparr>mut_run = updated, mut_events = [e]\<rparr>)))))"

definition run_start :: "run \<Rightarrow> datetime \<Rightarrow> event_id \<Rightarrow> exn + run_mutation" where
  "run_start r observed_at eid =
     run_change r Running RunStarted observed_at eid
       [(''previous_status'', PStr (run_status_value (r_status r)))] None None None False"

definition run_wait_for_approval ::
    "run \<Rightarrow> reference_id \<Rightarrow> datetime \<Rightarrow> event_id \<Rightarrow> exn + run_mutation" where
  "run_wait_for_approval r ref observed_at eid =
     (if r_status r \<noteq> Running then Inl (RunLifecycleError RunIllegalTransition)
      else run_change r WaitingApproval RunWaitingApproval observed_at eid
        [(''previous_status'', PStr (run_status_value (r_status r))),
         (''reference_id'', PStr (reference_id_value ref))] None None None False)"

definition run_wait_for_resolution ::
    "run \<Rightarrow> reference_id \<Rightarrow> datetime \<Rightarrow> event_id \<Rightarrow> exn + run_mutation" where
  "run_wait_for_resolution r ref observed_at eid =
     (if r_status r \<noteq> Running then Inl (RunLifecycleError RunIllegalTransition)
      else run_change r WaitingResolution RunWaitingResolution observed_at eid
        [(''previous_status'', PStr (run_status_value (r_status r))),
         (''reference_id'', PStr (reference_id_value ref))] None None None False)"

definition run_resume :: "run \<Rightarrow> datetime \<Rightarrow> event_id \<Rightarrow> exn + run_mutation" where
  "run_resume r observed_at eid =
     (if r_status r \<notin> {WaitingApproval, WaitingResolution}
      then Inl (RunLifecycleError RunIllegalTransition)
      else run_change r Running RunResumed observed_at eid
        [(''previous_status'', PStr (run_status_value (r_status r)))] None None None False)"

definition run_succeed ::
    "run \<Rightarrow> run_result_draft \<Rightarrow> datetime \<Rightarrow> event_id \<Rightarrow> exn + run_mutation" where
  "run_succeed r draft observed_at eid =
     (if r_status r \<noteq> Running then Inl (RunLifecycleError RunIllegalTransition)
      else run_change r Succeeded RunSucceeded observed_at eid [(''result_version'', PInt 1)]
        None (Some draft) None False)"

definition run_fail ::
    "run \<Rightarrow> run_result_draft \<Rightarrow> safe_run_error \<Rightarrow> datetime \<Rightarrow> event_id \<Rightarrow> exn + run_mutation" where
  "run_fail r draft error observed_at eid =
     (if r_status r \<noteq> Running then Inl (RunLifecycleError RunIllegalTransition)
      else if err_code error \<noteq> RunFailed then Inl ValueError
      else run_change r Failed RunFailedEvent observed_at eid
        [(''error_code'', PStr (run_error_code_value (err_code error))),
         (''result_version'', PInt 1)] None (Some draft) (Some error) False)"

definition run_cancel ::
    "run \<Rightarrow> datetime \<Rightarrow> event_id \<Rightarrow> correlation_id option \<Rightarrow> exn + run_mutation" where
  "run_cancel r observed_at eid correlation =
     result_bind (safe_run_error_post_init
       \<lparr>err_code = RunCancelled, err_correlation_id = correlation, err_limit_dimension = None\<rparr>)
       (\<lambda>error.
     let payload =
           [(''error_code'', PStr (run_error_code_value (err_code error))),
            (''result_version'', PInt 1)] in
     let payload = (case correlation of None \<Rightarrow> payload
           | Some c \<Rightarrow> dict_set ''correlation_id'' (PStr (correlation_id_value c)) payload) in
     result_bind (run_result_draft_post_init (empty_draft\<lparr>dr_correlation_id := correlation\<rparr>))
       (\<lambda>draft.
         run_change r Cancelled RunCancelledEvent observed_at eid payload None (Some draft)
           (Some error) False))"

definition run_limit ::
    "run \<Rightarrow> budget_dimension \<Rightarrow> datetime \<Rightarrow> event_id \<Rightarrow> exn + run_mutation" where
  "run_limit r dimension observed_at eid =
     result_bind (safe_run_error_post_init
       \<lparr>err_code = RunBudgetLimit, err_correlation_id = None,
        err_limit_dimension = Some dimension\<rparr>) (\<lambda>error.
       run_change r LimitExceeded RunLimitExceeded observed_at eid
         [(''error_code'', PStr (run_error_code_value (err_code error))),
          (''limit_dimension'', PStr (budget_dimension_value dimension)),
          (''result_version'', PInt 1)] None None (Some error) False)"

definition usage_payload :: "budget_snapshot \<Rightarrow> string \<Rightarrow> py_value" where
  "usage_payload u cost =
     py_dict [(''cost'', PStr cost),
              (''input_tokens'', PInt (use_input_tokens u)),
              (''model_calls'', PInt (use_model_calls u)),
              (''output_tokens'', PInt (use_output_tokens u)),
              (''steps'', PInt (use_steps u)),
              (''tool_calls'', PInt (use_tool_calls u)),
              (''total_tokens'', PInt (total_tokens u))]"

definition run_consume_budget ::
    "run \<Rightarrow> budget_charge \<Rightarrow> datetime \<Rightarrow> event_id \<Rightarrow> exn + run_mutation" where
  "run_consume_budget r charge observed_at eid =
     (if r_status r \<noteq> Running then Inl (RunLifecycleError RunIllegalTransition)
      else result_bind (budget_apply (r_usage r) charge (r_budget r)) (\<lambda>decision.
        if decided_replayed decision then Inr \<lparr>mut_run = r, mut_events = []\<rparr>
        else result_bind (effective_time r observed_at) (\<lambda>effective_at.
          if instant (bud_deadline_at (r_budget r)) \<le> instant effective_at
          then run_limit r DimDeadline effective_at eid
          else (case decided_exceeded decision of
              Some dimension \<Rightarrow> run_limit r dimension effective_at eid
            | None \<Rightarrow>
                let usage = decided_snapshot decision in
                result_bind (canonical_decimal (use_cost usage)) (\<lambda>cost.
                  run_change r Running RunBudgetConsumed effective_at eid
                    [(''charge_id'', PStr (charge_id_value (chg_charge_id charge))),
                     (''usage'', usage_payload usage cost)]
                    (Some usage) None None True)))))"

definition run_enforce_deadline :: "run \<Rightarrow> datetime \<Rightarrow> event_id \<Rightarrow> exn + run_mutation" where
  "run_enforce_deadline r observed_at eid =
     (if is_terminal (r_status r) then Inr \<lparr>mut_run = r, mut_events = []\<rparr>
      else result_bind (effective_time r observed_at) (\<lambda>effective_at.
        if instant effective_at < instant (bud_deadline_at (r_budget r))
        then Inr \<lparr>mut_run = r, mut_events = []\<rparr>
        else run_limit r DimDeadline effective_at eid))"

end
