(* ===== verification/Run_Lifecycle_Props.thy ===== *)
theory Run_Lifecycle_Props
  imports Aggregate
begin

section \<open>The life cycle of a run\<close>

text \<open>
  The invariant of the aggregate of \<open>domain/runs/aggregate.py\<close> and the behaviour of its operations:
  what each returns in each status, that the invariant is kept, and, over the histories
  \<open>Run.create\<close> and the operations generate, what the event log says about the snapshot.
\<close>

subsection \<open>Well-formed runs\<close>

definition run_ok :: "run \<Rightarrow> bool" where
  "run_ok r \<longleftrightarrow>
     run_post_init r = Inr r \<and>
     identifier_pattern (tenant_id_value (r_tenant_id r)) \<and>
     identifier_pattern (run_id_value (r_run_id r)) \<and>
     identifier_pattern (task_id_value (r_task_id r)) \<and>
     agent_version_ref_ok (r_agent_version r) \<and>
     run_budget_ok (r_budget r) \<and> budget_snapshot_ok (r_usage r) \<and>
     within_budget (r_usage r) (r_budget r) \<and>
     (case r_result r of None \<Rightarrow> True
      | Some res \<Rightarrow> run_result_ok res \<and> res_usage res = r_usage r)"

lemma run_post_init_Inr [dest]: "run_post_init r = Inr r' \<Longrightarrow> r' = r"
  by (auto simp: run_post_init_def split: if_splits option.splits)

lemma run_post_init_iff:
  "run_post_init r = Inr r \<longleftrightarrow>
     avr_tenant_id (r_agent_version r) = r_tenant_id r \<and> 1 \<le> r_version r \<and>
     is_utc (r_created_at r) \<and> is_utc (r_updated_at r) \<and> is_utc (r_last_observed_at r) \<and>
     instant (r_created_at r) \<le> instant (r_updated_at r) \<and>
     instant (r_updated_at r) \<le> instant (r_last_observed_at r) \<and>
     instant (r_created_at r) < instant (bud_deadline_at (r_budget r)) \<and>
     r_next_event_sequence r = r_version r + 1 \<and>
     (case r_result r of
        None \<Rightarrow> \<not> is_terminal (r_status r)
      | Some res \<Rightarrow> is_terminal (r_status r) \<and> res_status res = r_status r \<and>
          res_tenant_id res = r_tenant_id r \<and> res_run_id res = r_run_id r \<and>
          res_agent_version res = r_agent_version r \<and>
          budget_snapshot_eq (res_usage res) (r_usage r))"
  by (auto simp: run_post_init_def not_less not_le split: option.splits)

lemma run_okD:
  assumes "run_ok r"
  shows "1 \<le> r_version r" "is_utc (r_created_at r)" "is_utc (r_updated_at r)"
    "is_utc (r_last_observed_at r)" "r_next_event_sequence r = r_version r + 1"
    "avr_tenant_id (r_agent_version r) = r_tenant_id r"
    "instant (r_created_at r) \<le> instant (r_updated_at r)"
    "instant (r_updated_at r) \<le> instant (r_last_observed_at r)"
    "instant (r_created_at r) < instant (bud_deadline_at (r_budget r))"
    "r_result r = None \<longleftrightarrow> \<not> is_terminal (r_status r)"
  using assms by (auto simp: run_ok_def run_post_init_iff split: option.splits)

lemma effective_time_eq:
  "effective_time r ts =
     (if is_utc ts then Inr (datetime_max (r_last_observed_at r) ts) else Inl ValueError)"
  by (simp add: effective_time_def require_utc_def)

subsection \<open>Event payloads the operations build\<close>

lemmas payload_simps =
  new_run_event_def py_dict_def unknown_fields_def common_payload_fields_def freeze_json_PDict
  validate_payload_schema_def item_def when_present_def member_of_def

text \<open>
  The reference description of a transition: the next snapshot, its result when the target is
  terminal, and the one event, with its frozen payload.
\<close>

definition terminal_result ::
    "run \<Rightarrow> run_status \<Rightarrow> budget_snapshot \<Rightarrow> run_result_draft option \<Rightarrow> safe_run_error option
      \<Rightarrow> run_result option" where
  "terminal_result r target u draft error =
     (if is_terminal target then
        Some \<lparr>res_version = 1, res_tenant_id = r_tenant_id r, res_run_id = r_run_id r,
           res_agent_version = r_agent_version r, res_status = target,
           res_draft = (case draft of Some d \<Rightarrow> d | None \<Rightarrow> empty_draft),
           res_usage = u, res_error = error\<rparr>
      else None)"

definition next_run ::
    "run \<Rightarrow> run_status \<Rightarrow> budget_snapshot \<Rightarrow> run_result option \<Rightarrow> datetime \<Rightarrow> run" where
  "next_run r target u result eff =
     r\<lparr>r_status := target, r_version := r_version r + 1, r_usage := u, r_updated_at := eff,
       r_last_observed_at := eff, r_next_event_sequence := r_next_event_sequence r + 1,
       r_result := result\<rparr>"

definition transition_event ::
    "run \<Rightarrow> run_status \<Rightarrow> run_event_type \<Rightarrow> datetime \<Rightarrow> event_id \<Rightarrow> payload \<Rightarrow> run_event" where
  "transition_event r target t eff eid payload =
     \<lparr>ev_event_id = eid, ev_tenant_id = r_tenant_id r, ev_run_id = r_run_id r,
      ev_sequence = r_next_event_sequence r, ev_type = t, ev_occurred_at = eff,
      ev_payload_version = 1,
      ev_payload = [(''run_version'', FInt (r_version r + 1)),
                    (''status'', FStr (run_status_value target))] @ payload\<rparr>"

definition advance ::
    "run \<Rightarrow> run_status \<Rightarrow> run_event_type \<Rightarrow> datetime \<Rightarrow> event_id \<Rightarrow> payload \<Rightarrow> budget_snapshot
      \<Rightarrow> run_result_draft option \<Rightarrow> safe_run_error option \<Rightarrow> run_mutation" where
  "advance r target t eff eid payload u draft error =
     \<lparr>mut_run = next_run r target u (terminal_result r target u draft error) eff,
      mut_events = [transition_event r target t eff eid payload]\<rparr>"

lemma next_run_simps [simp]:
  "r_tenant_id (next_run r target u res eff) = r_tenant_id r"
  "r_run_id (next_run r target u res eff) = r_run_id r"
  "r_task_id (next_run r target u res eff) = r_task_id r"
  "r_agent_version (next_run r target u res eff) = r_agent_version r"
  "r_status (next_run r target u res eff) = target"
  "r_version (next_run r target u res eff) = r_version r + 1"
  "r_budget (next_run r target u res eff) = r_budget r"
  "r_usage (next_run r target u res eff) = u"
  "r_created_at (next_run r target u res eff) = r_created_at r"
  "r_updated_at (next_run r target u res eff) = eff"
  "r_last_observed_at (next_run r target u res eff) = eff"
  "r_next_event_sequence (next_run r target u res eff) = r_next_event_sequence r + 1"
  "r_result (next_run r target u res eff) = res"
  by (simp_all add: next_run_def)

lemma transition_event_simps [simp]:
  "ev_event_id (transition_event r target t eff eid p) = eid"
  "ev_tenant_id (transition_event r target t eff eid p) = r_tenant_id r"
  "ev_run_id (transition_event r target t eff eid p) = r_run_id r"
  "ev_sequence (transition_event r target t eff eid p) = r_next_event_sequence r"
  "ev_type (transition_event r target t eff eid p) = t"
  "ev_occurred_at (transition_event r target t eff eid p) = eff"
  "ev_payload_version (transition_event r target t eff eid p) = 1"
  by (simp_all add: transition_event_def)

text \<open>The error a result of the target status carries.\<close>

definition error_matches :: "run_status \<Rightarrow> safe_run_error option \<Rightarrow> bool" where
  "error_matches target error \<longleftrightarrow>
     (if target = Succeeded then error = None
      else is_terminal target \<longrightarrow>
        (\<exists>e. error = Some e \<and> expected_result_code target = Some (err_code e)))"

lemma change_result_eq:
  assumes "run_ok r" and "error_matches target error"
  shows "change_result r target u draft error = Inr (terminal_result r target u draft error)"
  using assms run_okD(6) [OF assms(1)]
  by (auto simp: change_result_def terminal_result_def run_result_post_init_def error_matches_def)

lemma next_run_post_init:
  assumes "run_ok r" and "is_utc eff" and "instant (r_last_observed_at r) \<le> instant eff"
  shows "run_post_init (next_run r target u (terminal_result r target u draft error) eff) =
    Inr (next_run r target u (terminal_result r target u draft error) eff)"
  unfolding run_post_init_iff
  using assms run_okD [OF assms(1)] by (auto simp: terminal_result_def)

lemma next_run_ok:
  assumes r: "run_ok r" and eff: "is_utc eff" "instant (r_last_observed_at r) \<le> instant eff"
    and u: "budget_snapshot_ok u" "within_budget u (r_budget r)"
    and draft: "case draft of None \<Rightarrow> True | Some d \<Rightarrow> run_result_draft_ok d"
    and error: "error_matches target error"
      "case error of None \<Rightarrow> True | Some e \<Rightarrow> safe_run_error_ok e"
  shows "run_ok (next_run r target u (terminal_result r target u draft error) eff)"
proof -
  have "run_result_ok res" if res: "terminal_result r target u draft error = Some res" for res
  proof -
    have final: "is_terminal target" using res by (simp add: terminal_result_def split: if_splits)
    have "run_result_post_init res = Inr res"
      using change_result_eq [OF r error(1), of u draft] final res
      by (auto simp: change_result_def terminal_result_def result_bind_eq_Inr)
    moreover have "run_result_draft_ok (case draft of Some d \<Rightarrow> d | None \<Rightarrow> empty_draft)"
      using draft by (cases draft) simp_all
    ultimately show ?thesis
      using res final u(1) error(2) by (auto simp: run_result_ok_def terminal_result_def)
  qed
  moreover have "res_usage res = u" if "terminal_result r target u draft error = Some res" for res
    using that by (auto simp: terminal_result_def split: if_splits)
  ultimately show ?thesis
    using next_run_post_init [OF r eff] r u
    by (simp add: run_ok_def split: option.splits)
qed

lemma run_change_advance:
  assumes r: "run_ok r" and ts: "is_utc ts" "eff = datetime_max (r_last_observed_at r) ts"
    and trans: "self \<and> r_status r = Running \<and> target = Running \<or>
      target \<in> set (allowed_transitions (r_status r))"
    and error: "error_matches target error"
    and u: "u = (case usage of Some u \<Rightarrow> u | None \<Rightarrow> r_usage r)"
    and ev: "new_run_event eid (r_tenant_id r) (r_run_id r) (r_next_event_sequence r) t eff 1
      (py_dict (dict_update [(''run_version'', PInt (r_version r + 1)),
        (''status'', PStr (run_status_value target))] payload)) =
      Inr (transition_event r target t eff eid fpayload)"
  shows "run_change r target t ts eid payload usage draft error self =
    Inr (advance r target t eff eid fpayload u draft error)"
proof -
  have "(if self \<and> r_status r = target \<and> target = Running then Inr ()
        else assert_transition r target) = Inr ()"
    using trans by (auto simp: assert_transition_def)
  moreover have "run_post_init (next_run r target u (terminal_result r target u draft error) eff) =
      Inr (next_run r target u (terminal_result r target u draft error) eff)"
    using next_run_post_init [OF r] ts run_okD(4) [OF r] by simp
  ultimately show ?thesis
    using change_result_eq [OF r error, of u draft] ev
    by (simp add: run_change_def effective_time_eq ts(1) flip: ts(2) u)
      (simp add: advance_def next_run_def)
qed

text \<open>The events of the operations satisfy the schema of their type.\<close>

abbreviation emits ::
    "run \<Rightarrow> datetime \<Rightarrow> event_id \<Rightarrow> run_event_type \<Rightarrow> run_status \<Rightarrow> (string \<times> py_value) list
      \<Rightarrow> payload \<Rightarrow> bool" where
  "emits r eff eid t target payload fpayload \<equiv>
     new_run_event eid (r_tenant_id r) (r_run_id r) (r_next_event_sequence r) t eff 1
       (py_dict (dict_update [(''run_version'', PInt (r_version r + 1)),
         (''status'', PStr (run_status_value target))] payload)) =
     Inr (transition_event r target t eff eid fpayload)"

lemma transition_events:
  assumes "run_ok r" and "is_utc eff"
  shows
   "r_status r = Queued \<Longrightarrow> emits r eff eid RunStarted Running
      [(''previous_status'', PStr (run_status_value (r_status r)))]
      [(''previous_status'', FStr (run_status_value (r_status r)))]"
   "r_status r = Running \<Longrightarrow> identifier_pattern ref \<Longrightarrow>
      emits r eff eid RunWaitingApproval WaitingApproval
      [(''previous_status'', PStr (run_status_value (r_status r))), (''reference_id'', PStr ref)]
      [(''previous_status'', FStr (run_status_value (r_status r))), (''reference_id'', FStr ref)]"
   "r_status r = Running \<Longrightarrow> identifier_pattern ref \<Longrightarrow>
      emits r eff eid RunWaitingResolution WaitingResolution
      [(''previous_status'', PStr (run_status_value (r_status r))), (''reference_id'', PStr ref)]
      [(''previous_status'', FStr (run_status_value (r_status r))), (''reference_id'', FStr ref)]"
   "r_status r \<in> {WaitingApproval, WaitingResolution} \<Longrightarrow>
      emits r eff eid RunResumed Running
      [(''previous_status'', PStr (run_status_value (r_status r)))]
      [(''previous_status'', FStr (run_status_value (r_status r)))]"
   "emits r eff eid RunSucceeded Succeeded [(''result_version'', PInt 1)]
      [(''result_version'', FInt 1)]"
   "emits r eff eid RunFailedEvent Failed
      [(''error_code'', PStr (run_error_code_value RunFailed)), (''result_version'', PInt 1)]
      [(''error_code'', FStr (run_error_code_value RunFailed)), (''result_version'', FInt 1)]"
   "emits r eff eid RunCancelledEvent Cancelled
      [(''error_code'', PStr (run_error_code_value RunCancelled)), (''result_version'', PInt 1)]
      [(''error_code'', FStr (run_error_code_value RunCancelled)), (''result_version'', FInt 1)]"
   "identifier_pattern c \<Longrightarrow> emits r eff eid RunCancelledEvent Cancelled
      [(''error_code'', PStr (run_error_code_value RunCancelled)), (''result_version'', PInt 1),
       (''correlation_id'', PStr c)]
      [(''error_code'', FStr (run_error_code_value RunCancelled)), (''result_version'', FInt 1),
       (''correlation_id'', FStr c)]"
   "emits r eff eid RunLimitExceeded LimitExceeded
      [(''error_code'', PStr (run_error_code_value RunBudgetLimit)),
       (''limit_dimension'', PStr (budget_dimension_value dimension)), (''result_version'', PInt 1)]
      [(''error_code'', FStr (run_error_code_value RunBudgetLimit)),
       (''limit_dimension'', FStr (budget_dimension_value dimension)), (''result_version'', FInt 1)]"
  using assms run_okD(1,5) [OF assms(1)]
  by (auto simp: payload_simps transition_event_def)
    (cases dimension; simp add: limit_dimension_values_def)


lemma usage_event:
  assumes "run_ok r" and "is_utc eff" and "budget_snapshot_ok u" and "decimal_pattern cost"
    and "identifier_pattern ch"
  shows "emits r eff eid RunBudgetConsumed Running
      [(''charge_id'', PStr ch), (''usage'', usage_payload u cost)]
      [(''charge_id'', FStr ch),
       (''usage'', FMap [(''cost'', FStr cost), (''input_tokens'', FInt (use_input_tokens u)),
          (''model_calls'', FInt (use_model_calls u)),
          (''output_tokens'', FInt (use_output_tokens u)), (''steps'', FInt (use_steps u)),
          (''tool_calls'', FInt (use_tool_calls u)), (''total_tokens'', FInt (total_tokens u))])]"
  using assms run_okD(1,5) [OF assms(1)]
  by (auto simp: payload_simps transition_event_def usage_payload_def usage_fields_def
      budget_snapshot_ok_def total_tokens_def)

subsection \<open>The operations\<close>

datatype run_operation =
    OpStart
  | OpWaitForApproval reference_id
  | OpWaitForResolution reference_id
  | OpResume
  | OpConsumeBudget budget_charge
  | OpSucceed run_result_draft
  | OpFail run_result_draft safe_run_error
  | OpCancel "correlation_id option"
  | OpEnforceDeadline

fun run_operate :: "run \<Rightarrow> run_operation \<Rightarrow> datetime \<Rightarrow> event_id \<Rightarrow> exn + run_mutation" where
  "run_operate r OpStart ts eid = run_start r ts eid"
| "run_operate r (OpWaitForApproval ref) ts eid = run_wait_for_approval r ref ts eid"
| "run_operate r (OpWaitForResolution ref) ts eid = run_wait_for_resolution r ref ts eid"
| "run_operate r OpResume ts eid = run_resume r ts eid"
| "run_operate r (OpConsumeBudget c) ts eid = run_consume_budget r c ts eid"
| "run_operate r (OpSucceed d) ts eid = run_succeed r d ts eid"
| "run_operate r (OpFail d e) ts eid = run_fail r d e ts eid"
| "run_operate r (OpCancel c) ts eid = run_cancel r ts eid c"
| "run_operate r OpEnforceDeadline ts eid = run_enforce_deadline r ts eid"

text \<open>Arguments as their constructors leave them.\<close>

fun operation_ok :: "run_operation \<Rightarrow> bool" where
  "operation_ok (OpWaitForApproval ref) = identifier_pattern (reference_id_value ref)"
| "operation_ok (OpWaitForResolution ref) = identifier_pattern (reference_id_value ref)"
| "operation_ok (OpConsumeBudget c) = budget_charge_ok c"
| "operation_ok (OpSucceed d) = run_result_draft_ok d"
| "operation_ok (OpFail d e) = (run_result_draft_ok d \<and> safe_run_error_ok e)"
| "operation_ok (OpCancel c) = correlation_ok c"
| "operation_ok _ = True"

text \<open>The statuses in which an operation applies.\<close>

fun enabled :: "run_operation \<Rightarrow> run_status \<Rightarrow> bool" where
  "enabled OpStart s = (s = Queued)"
| "enabled OpResume s = (s \<in> {WaitingApproval, WaitingResolution})"
| "enabled (OpCancel c) s = (\<not> is_terminal s)"
| "enabled OpEnforceDeadline s = True"
| "enabled _ s = (s = Running)"

definition limit_error :: "budget_dimension \<Rightarrow> safe_run_error" where
  "limit_error d =
     \<lparr>err_code = RunBudgetLimit, err_correlation_id = None, err_limit_dimension = Some d\<rparr>"

definition cancel_error :: "correlation_id option \<Rightarrow> safe_run_error" where
  "cancel_error c = \<lparr>err_code = RunCancelled, err_correlation_id = c, err_limit_dimension = None\<rparr>"

definition limit_advance :: "run \<Rightarrow> budget_dimension \<Rightarrow> datetime \<Rightarrow> event_id \<Rightarrow> run_mutation" where
  "limit_advance r d eff eid =
     advance r LimitExceeded RunLimitExceeded eff eid
       [(''error_code'', FStr ''budget_limit''),
        (''limit_dimension'', FStr (budget_dimension_value d)), (''result_version'', FInt 1)]
       (r_usage r) None (Some (limit_error d))"

definition usage_advance ::
    "run \<Rightarrow> budget_charge \<Rightarrow> budget_snapshot \<Rightarrow> string \<Rightarrow> datetime \<Rightarrow> event_id \<Rightarrow> run_mutation" where
  "usage_advance r c u cost eff eid =
     advance r Running RunBudgetConsumed eff eid
       [(''charge_id'', FStr (charge_id_value (chg_charge_id c))),
        (''usage'', FMap [(''cost'', FStr cost), (''input_tokens'', FInt (use_input_tokens u)),
          (''model_calls'', FInt (use_model_calls u)),
          (''output_tokens'', FInt (use_output_tokens u)), (''steps'', FInt (use_steps u)),
          (''tool_calls'', FInt (use_tool_calls u)), (''total_tokens'', FInt (total_tokens u))])]
       u None None"

lemma effective_utc:
  "run_ok r \<Longrightarrow> is_utc ts \<Longrightarrow> is_utc (datetime_max (r_last_observed_at r) ts)"
  by (simp add: run_okD(4))

text \<open>Each enabled operation is the transition the reference description names.\<close>

lemma run_start_advance:
  assumes "run_ok r" and "is_utc ts" and "r_status r = Queued"
  shows "run_start r ts eid =
     Inr (advance r Running RunStarted (datetime_max (r_last_observed_at r) ts) eid
       [(''previous_status'', FStr ''queued'')] (r_usage r) None None)"
  unfolding run_start_def
  using assms transition_events(1) [OF assms(1) effective_utc [OF assms(1,2)], of eid]
  by (intro run_change_advance) (simp_all add: error_matches_def)

lemma run_wait_for_approval_advance:
  assumes "run_ok r" and "is_utc ts" and "r_status r = Running"
    and "identifier_pattern (reference_id_value ref)"
  shows "run_wait_for_approval r ref ts eid =
     Inr (advance r WaitingApproval RunWaitingApproval (datetime_max (r_last_observed_at r) ts) eid
       [(''previous_status'', FStr ''running''), (''reference_id'', FStr (reference_id_value ref))]
       (r_usage r) None None)"
  unfolding run_wait_for_approval_def
  using assms transition_events(2) [OF assms(1) effective_utc [OF assms(1,2)] assms(3,4), of eid]
  by (simp, intro run_change_advance) (simp_all add: error_matches_def)

lemma run_wait_for_resolution_advance:
  assumes "run_ok r" and "is_utc ts" and "r_status r = Running"
    and "identifier_pattern (reference_id_value ref)"
  shows "run_wait_for_resolution r ref ts eid =
     Inr (advance r WaitingResolution RunWaitingResolution
       (datetime_max (r_last_observed_at r) ts) eid
       [(''previous_status'', FStr ''running''), (''reference_id'', FStr (reference_id_value ref))]
       (r_usage r) None None)"
  unfolding run_wait_for_resolution_def
  using assms transition_events(3) [OF assms(1) effective_utc [OF assms(1,2)] assms(3,4), of eid]
  by (simp, intro run_change_advance) (simp_all add: error_matches_def)

lemma run_resume_advance:
  assumes "run_ok r" and "is_utc ts" and "r_status r \<in> {WaitingApproval, WaitingResolution}"
  shows "run_resume r ts eid =
     Inr (advance r Running RunResumed (datetime_max (r_last_observed_at r) ts) eid
       [(''previous_status'', FStr (run_status_value (r_status r)))] (r_usage r) None None)"
proof -
  have trans: "Running \<in> set (allowed_transitions (r_status r))" using assms(3) by auto
  show ?thesis
    unfolding run_resume_def
    using assms trans
      transition_events(4) [OF assms(1) effective_utc [OF assms(1,2)] assms(3), of eid]
    by (subst if_not_P, simp, intro run_change_advance) (simp_all add: error_matches_def)
qed

lemma run_succeed_advance:
  assumes "run_ok r" and "is_utc ts" and "r_status r = Running"
  shows "run_succeed r d ts eid =
     Inr (advance r Succeeded RunSucceeded (datetime_max (r_last_observed_at r) ts) eid
       [(''result_version'', FInt 1)] (r_usage r) (Some d) None)"
  unfolding run_succeed_def
  using assms transition_events(5) [OF assms(1) effective_utc [OF assms(1,2)], of eid]
  by (simp, intro run_change_advance) (simp_all add: error_matches_def)

lemma run_fail_advance:
  assumes "run_ok r" and "is_utc ts" and "r_status r = Running" and "err_code e = RunFailed"
  shows "run_fail r d e ts eid =
     Inr (advance r Failed RunFailedEvent (datetime_max (r_last_observed_at r) ts) eid
       [(''error_code'', FStr ''failed''), (''result_version'', FInt 1)] (r_usage r) (Some d)
       (Some e))"
  unfolding run_fail_def
  using assms transition_events(6) [OF assms(1) effective_utc [OF assms(1,2)], of eid]
  by (simp, intro run_change_advance) (simp_all add: error_matches_def)

lemma run_fail_eq:
  assumes "run_ok r" and "is_utc ts" and "r_status r = Running"
  shows "run_fail r d e ts eid =
    (if err_code e = RunFailed
     then Inr (advance r Failed RunFailedEvent (datetime_max (r_last_observed_at r) ts) eid
       [(''error_code'', FStr ''failed''), (''result_version'', FInt 1)] (r_usage r) (Some d) (Some e))
     else Inl ValueError)"
  using run_fail_advance [OF assms] assms(3) by (simp add: run_fail_def)

lemma nonterminal_transitions:
  "\<not> is_terminal s \<Longrightarrow> Cancelled \<in> set (allowed_transitions s) \<and>
     LimitExceeded \<in> set (allowed_transitions s)"
  by (cases s) simp_all

lemma terminal_transitions: "is_terminal s \<longleftrightarrow> allowed_transitions s = []"
  by (cases s) simp_all

lemma run_limit_advance:
  assumes "run_ok r" and "is_utc ts" and "\<not> is_terminal (r_status r)"
  shows "run_limit r d ts eid = Inr (limit_advance r d (datetime_max (r_last_observed_at r) ts) eid)"
  unfolding run_limit_def limit_advance_def
  using assms nonterminal_transitions [OF assms(3)]
    transition_events(9) [OF assms(1) effective_utc [OF assms(1,2)], of eid d]
  by (simp add: safe_run_error_post_init_def limit_error_def, intro run_change_advance)
    (simp_all add: error_matches_def)

lemma run_cancel_advance:
  assumes "run_ok r" and "is_utc ts" and "\<not> is_terminal (r_status r)" and "correlation_ok c"
  shows "run_cancel r ts eid c =
     Inr (advance r Cancelled RunCancelledEvent (datetime_max (r_last_observed_at r) ts) eid
       ([(''error_code'', FStr ''cancelled''), (''result_version'', FInt 1)] @
        (case c of None \<Rightarrow> [] | Some i \<Rightarrow> [(''correlation_id'', FStr (correlation_id_value i))]))
       (r_usage r) (Some (empty_draft\<lparr>dr_correlation_id := c\<rparr>)) (Some (cancel_error c)))"
proof -
  have draft: "run_result_draft_post_init (empty_draft\<lparr>dr_correlation_id := c\<rparr>) =
      Inr (empty_draft\<lparr>dr_correlation_id := c\<rparr>)"
    using assms(4)
    by (intro run_result_draft_post_init_ok)
      (simp add: run_result_draft_ok_def empty_draft_def references_ok_def)
  show ?thesis
    unfolding run_cancel_def
    using assms draft nonterminal_transitions [OF assms(3)]
      transition_events(7,8) [OF assms(1) effective_utc [OF assms(1,2)]]
    by (cases c)
      (simp add: safe_run_error_post_init_def cancel_error_def, intro run_change_advance,
        simp_all add: error_matches_def)+
qed

text \<open>Consuming a charge, branch by branch.\<close>

lemma run_change_usage_advance:
  assumes r: "run_ok r" and ts: "is_utc ts" and run: "r_status r = Running"
    and u: "budget_snapshot_ok u" and c: "identifier_pattern (charge_id_value (chg_charge_id c))"
    and cost: "decimal_pattern cost"
  shows "run_change r Running RunBudgetConsumed ts eid
      [(''charge_id'', PStr (charge_id_value (chg_charge_id c))), (''usage'', usage_payload u cost)]
      (Some u) None None True =
    Inr (usage_advance r c u cost (datetime_max (r_last_observed_at r) ts) eid)"
  unfolding usage_advance_def
  using assms usage_event [OF r effective_utc [OF r ts] u cost c, of eid]
  by (intro run_change_advance) (simp_all add: error_matches_def)

lemma run_consume_budget_eq:
  assumes r: "run_ok r" and ts: "is_utc ts" and run: "r_status r = Running"
    and c: "budget_charge_ok c" and eff: "eff = datetime_max (r_last_observed_at r) ts"
  shows "run_consume_budget r c ts eid =
    (case budget_apply (r_usage r) c (r_budget r) of
       Inl x \<Rightarrow> Inl x
     | Inr d \<Rightarrow>
         if decided_replayed d then Inr \<lparr>mut_run = r, mut_events = []\<rparr>
         else if instant (bud_deadline_at (r_budget r)) \<le> instant eff
         then Inr (limit_advance r DimDeadline eff eid)
         else (case decided_exceeded d of
             Some dimension \<Rightarrow> Inr (limit_advance r dimension eff eid)
           | None \<Rightarrow> Inr (usage_advance r c (decided_snapshot d)
               (projr (canonical_decimal (use_cost (decided_snapshot d)))) eff eid)))"
proof (cases "budget_apply (r_usage r) c (r_budget r)")
  case (Inr d)
  have usage: "budget_snapshot_ok (r_usage r)" using r by (simp add: run_ok_def)
  have "budget_snapshot_ok (decided_snapshot d)" using budget_apply_ok [OF usage c Inr] .
  then obtain cost where cost: "canonical_decimal (use_cost (decided_snapshot d)) = Inr cost"
      "decimal_pattern cost"
    using canonical_decimal_ok by (fastforce simp: budget_snapshot_ok_def)
  have utc: "is_utc eff" using effective_utc [OF r ts] by (simp add: eff)
  have max: "datetime_max (r_last_observed_at r) eff = eff" by (simp add: eff)
  have idp: "identifier_pattern (charge_id_value (chg_charge_id c))"
    using c by (simp add: budget_charge_ok_def)
  show ?thesis
    using run ts Inr cost
      run_limit_advance [OF r utc] run_change_usage_advance [OF r utc run _ idp cost(2), of _ eid]
      \<open>budget_snapshot_ok (decided_snapshot d)\<close>
    by (simp add: run_consume_budget_def effective_time_eq Let_def max flip: eff split: option.split)
qed (use run in \<open>simp add: run_consume_budget_def\<close>)

lemma run_enforce_deadline_eq:
  assumes r: "run_ok r" and ts: "is_utc ts" and eff: "eff = datetime_max (r_last_observed_at r) ts"
  shows "run_enforce_deadline r ts eid =
    Inr (if is_terminal (r_status r) \<or> instant eff < instant (bud_deadline_at (r_budget r))
         then \<lparr>mut_run = r, mut_events = []\<rparr> else limit_advance r DimDeadline eff eid)"
proof -
  have utc: "is_utc eff" using effective_utc [OF r ts] by (simp add: eff)
  have max: "datetime_max (r_last_observed_at r) eff = eff" by (simp add: eff)
  show ?thesis
    using run_limit_advance [OF r utc] ts
    by (simp add: run_enforce_deadline_def effective_time_eq max flip: eff)
qed

subsection \<open>What a successful operation does\<close>

text \<open>
  \<open>transition r m\<close>: the mutation leaves the run as it is, or is one transition of the reference
  description along the table of allowed transitions (or a budget charge of a running run).
\<close>

inductive transition :: "run \<Rightarrow> datetime \<Rightarrow> event_id \<Rightarrow> run_mutation \<Rightarrow> bool" where
  stay: "transition r ts eid \<lparr>mut_run = r, mut_events = []\<rparr>"
| advance: "\<lbrakk>target \<in> set (allowed_transitions (r_status r)) \<or>
      r_status r = Running \<and> target = Running \<and> t = RunBudgetConsumed;
    target = expected_status t; error_matches target error;
    case draft of None \<Rightarrow> True | Some d \<Rightarrow> run_result_draft_ok d;
    case error of None \<Rightarrow> True | Some e \<Rightarrow> safe_run_error_ok e;
    budget_snapshot_ok u; within_budget u (r_budget r);
    t \<noteq> RunBudgetConsumed \<Longrightarrow> u = r_usage r;
    emits r (datetime_max (r_last_observed_at r) ts) eid t target payload fpayload\<rbrakk> \<Longrightarrow>
    transition r ts eid
      (advance r target t (datetime_max (r_last_observed_at r) ts) eid fpayload u draft error)"

lemma limit_transition:
  assumes "run_ok r" and "is_utc ts" and "\<not> is_terminal (r_status r)"
  shows "transition r ts eid (limit_advance r d (datetime_max (r_last_observed_at r) ts) eid)"
  unfolding limit_advance_def
  by (rule transition.advance
      [OF _ _ _ _ _ _ _ _ transition_events(9) [OF assms(1) effective_utc [OF assms(1,2)],
          unfolded run_error_code_value.simps]])
    (use assms nonterminal_transitions [OF assms(3)]
      in \<open>auto simp: error_matches_def limit_error_def safe_run_error_ok_def run_ok_def\<close>)

lemma usage_transition:
  assumes "run_ok r" and "is_utc ts" and "r_status r = Running" and "budget_charge_ok c"
    and "budget_apply (r_usage r) c (r_budget r) = Inr d"
  shows "transition r ts eid (usage_advance r c (decided_snapshot d)
     (projr (canonical_decimal (use_cost (decided_snapshot d))))
     (datetime_max (r_last_observed_at r) ts) eid)"
proof -
  have u: "budget_snapshot_ok (decided_snapshot d)" "within_budget (decided_snapshot d) (r_budget r)"
    using assms(1) by (auto intro!: budget_apply_ok [OF _ assms(4,5)]
        budget_apply_within [OF _ assms(4) _ _ assms(5)] simp: run_ok_def)
  obtain cost where cost: "canonical_decimal (use_cost (decided_snapshot d)) = Inr cost"
      "decimal_pattern cost"
    using canonical_decimal_ok u(1) by (fastforce simp: budget_snapshot_ok_def)
  have idp: "identifier_pattern (charge_id_value (chg_charge_id c))"
    using assms(4) by (simp add: budget_charge_ok_def)
  show ?thesis
    unfolding usage_advance_def
    by (rule transition.advance [OF _ _ _ _ _ _ _ _
          usage_event [OF assms(1) effective_utc [OF assms(1,2)] u(1) _ idp]])
      (use assms u cost in \<open>auto simp: error_matches_def\<close>)
qed

lemma operate_transition:
  assumes "run_ok r" and "is_utc ts" and "operation_ok op" and "enabled op (r_status r)"
    and "run_operate r op ts eid = Inr m"
  shows "transition r ts eid m"
proof -
  note utc = effective_utc [OF assms(1,2)]
  have u: "budget_snapshot_ok (r_usage r)" "within_budget (r_usage r) (r_budget r)"
    using assms(1) by (simp_all add: run_ok_def)
  note adv = transition.advance [OF _ _ _ _ _ u]
  show ?thesis
  proof (cases op)
    case OpStart
    with assms(4) have q: "r_status r = Queued" by simp
    with OpStart assms run_start_advance [OF assms(1,2) q] show ?thesis
      by (auto intro!: adv [OF _ _ _ _ _ _ transition_events(1) [OF assms(1) utc q],
            unfolded q run_status_value.simps] simp: error_matches_def)
  next
    case (OpWaitForApproval ref)
    with assms(3,4) have q: "r_status r = Running" "identifier_pattern (reference_id_value ref)"
      by simp_all
    with OpWaitForApproval assms run_wait_for_approval_advance [OF assms(1,2) q] show ?thesis
      by (auto intro!: adv [OF _ _ _ _ _ _ transition_events(2) [OF assms(1) utc q],
            unfolded q run_status_value.simps] simp: error_matches_def)
  next
    case (OpWaitForResolution ref)
    with assms(3,4) have q: "r_status r = Running" "identifier_pattern (reference_id_value ref)"
      by simp_all
    with OpWaitForResolution assms run_wait_for_resolution_advance [OF assms(1,2) q] show ?thesis
      by (auto intro!: adv [OF _ _ _ _ _ _ transition_events(3) [OF assms(1) utc q],
            unfolded q run_status_value.simps] simp: error_matches_def)
  next
    case OpResume
    with assms(4) have q: "r_status r \<in> {WaitingApproval, WaitingResolution}" by simp
    then have "Running \<in> set (allowed_transitions (r_status r))" by auto
    with OpResume assms run_resume_advance [OF assms(1,2) q] show ?thesis
      by (auto intro!: adv [OF _ _ _ _ _ _ transition_events(4) [OF assms(1) utc q]]
          simp: error_matches_def)
  next
    case (OpSucceed d)
    with assms(3,4) have q: "r_status r = Running" "run_result_draft_ok d" by simp_all
    with OpSucceed assms run_succeed_advance [OF assms(1,2) q(1)] show ?thesis
      by (auto intro!: adv [OF _ _ _ _ _ _ transition_events(5) [OF assms(1) utc]]
          simp: error_matches_def)
  next
    case (OpFail d e)
    with assms(3,4) have q: "r_status r = Running" "run_result_draft_ok d" "safe_run_error_ok e" by simp_all
    with OpFail assms(5) have code: "err_code e = RunFailed" by (auto simp: run_fail_def split: if_splits)
    with OpFail assms q run_fail_advance [OF assms(1,2) q(1) code] show ?thesis
      by (auto intro!: adv [OF _ _ _ _ _ _ transition_events(6) [OF assms(1) utc],
            unfolded run_error_code_value.simps] simp: error_matches_def)
  next
    case (OpCancel c)
    with assms(3,4) have q: "\<not> is_terminal (r_status r)" "correlation_ok c" by simp_all
    note events = transition_events(7,8) [OF assms(1) utc, unfolded run_error_code_value.simps]
    have draft: "run_result_draft_ok (empty_draft\<lparr>dr_correlation_id := c\<rparr>)"
      using q by (simp add: run_result_draft_ok_def empty_draft_def references_ok_def)
    show ?thesis
      using OpCancel assms q draft run_cancel_advance [OF assms(1,2) q]
        nonterminal_transitions [OF q(1)]
      by (cases c) (auto intro!: adv [OF _ _ _ _ _ _ events(1)] adv [OF _ _ _ _ _ _ events(2)]
          simp: error_matches_def cancel_error_def safe_run_error_ok_def)
  next
    case (OpConsumeBudget c)
    with assms(3,4) have q: "r_status r = Running" "budget_charge_ok c" by simp_all
    then have "\<not> is_terminal (r_status r)" by simp
    with assms(5) OpConsumeBudget show ?thesis
      by (auto intro: transition.stay limit_transition [OF assms(1,2)]
          usage_transition [OF assms(1,2) q]
          simp: run_consume_budget_eq [OF assms(1,2) q refl]
          split: sum.splits if_splits option.splits)
  next
    case OpEnforceDeadline
    with assms(5) show ?thesis
      by (auto intro: transition.stay limit_transition [OF assms(1,2)]
          simp: run_enforce_deadline_eq [OF assms(1,2) refl] split: if_splits)
  qed
qed

lemma advance_simps [simp]:
  "mut_run (advance r target t eff eid fp u draft error) =
     next_run r target u (terminal_result r target u draft error) eff"
  "mut_events (advance r target t eff eid fp u draft error) =
     [transition_event r target t eff eid fp]"
  by (simp_all add: advance_def)

text \<open>The allowed steps of the status, self-steps of a running run included.\<close>

definition status_step :: "run_status \<Rightarrow> run_status \<Rightarrow> bool" where
  "status_step s t \<longleftrightarrow> t \<in> set (allowed_transitions s) \<or> s = Running \<and> t = Running"

definition event_status :: "run_event \<Rightarrow> run_status" where
  "event_status e = expected_status (ev_type e)"

text \<open>
  \<open>extends r m\<close>: the events of the mutation are the next ones of the run's log, and the new
  snapshot is what its last event says.
\<close>

definition extends :: "run \<Rightarrow> run_mutation \<Rightarrow> bool" where
  "extends r m \<longleftrightarrow>
     r_tenant_id (mut_run m) = r_tenant_id r \<and> r_run_id (mut_run m) = r_run_id r \<and>
     r_task_id (mut_run m) = r_task_id r \<and> r_agent_version (mut_run m) = r_agent_version r \<and>
     r_budget (mut_run m) = r_budget r \<and> r_created_at (mut_run m) = r_created_at r \<and>
     (mut_events m = [] \<and> mut_run m = r \<or>
      (\<exists>e. mut_events m = [e] \<and> run_event_ok e \<and>
         ev_tenant_id e = r_tenant_id r \<and> ev_run_id e = r_run_id r \<and>
         ev_sequence e = r_next_event_sequence r \<and> r_version (mut_run m) = r_version r + 1 \<and>
         status_step (r_status r) (event_status e) \<and> r_status (mut_run m) = event_status e \<and>
         instant (r_last_observed_at r) \<le> instant (ev_occurred_at e) \<and>
         r_updated_at (mut_run m) = ev_occurred_at e \<and>
         r_last_observed_at (mut_run m) = ev_occurred_at e))"

lemma transition_run_ok:
  assumes "transition r ts eid m" and r: "run_ok r" and "is_utc ts"
  shows "run_ok (mut_run m)"
  using assms(1)
proof (cases rule: transition.cases)
  case stay
  with r show ?thesis by simp
next
  case (advance target t error draft u payload fpayload)
  with r assms(3) show ?thesis
    by (auto intro!: next_run_ok effective_utc)
qed

lemma transition_extends:
  assumes "transition r ts eid m" and r: "run_ok r" and "is_utc ts"
  shows "extends r m"
  using assms(1)
proof (cases rule: transition.cases)
  case (advance target t error draft u payload fpayload)
  then have "run_event_ok (transition_event r target t (datetime_max (r_last_observed_at r) ts)
      eid fpayload)"
    using new_run_event_ok by blast
  with advance show ?thesis
    by (auto simp: extends_def status_step_def event_status_def)
qed (simp add: extends_def)

subsection \<open>Operations out of their status\<close>

lemma assert_transition_illegal:
  "target \<notin> set (allowed_transitions (r_status r)) \<Longrightarrow> self = False \<Longrightarrow>
     run_change r target t ts eid payload usage draft error self =
       Inl (RunLifecycleError RunIllegalTransition)"
  by (simp add: run_change_def assert_transition_def)

lemma run_start_waiting:
  assumes r: "run_ok r" and w: "r_status r \<in> {WaitingApproval, WaitingResolution}"
  shows "run_start r ts eid = Inl ValueError"
proof (cases "is_utc ts")
  case True
  let ?eff = "datetime_max (r_last_observed_at r) ts"
  have trans: "Running \<in> set (allowed_transitions (r_status r))" using w by auto
  have "new_run_event eid (r_tenant_id r) (r_run_id r) (r_next_event_sequence r) RunStarted ?eff 1
      (py_dict (dict_update [(''run_version'', PInt (r_version r + 1)),
        (''status'', PStr (run_status_value Running))]
        [(''previous_status'', PStr (run_status_value (r_status r)))])) = Inl ValueError"
    using w run_okD(1,5) [OF r] effective_utc [OF r True] by (auto simp: payload_simps)
  moreover have "error_matches Running None" by (simp add: error_matches_def)
  note change_result_eq [OF r this, of "r_usage r" None]
  moreover have "run_post_init (next_run r Running (r_usage r)
      (terminal_result r Running (r_usage r) None None) ?eff) =
      Inr (next_run r Running (r_usage r) (terminal_result r Running (r_usage r) None None) ?eff)"
    using effective_utc [OF r True] by (intro next_run_post_init [OF r]) simp_all
  ultimately show ?thesis
    using True trans
    by (simp add: run_start_def run_change_def assert_transition_def effective_time_eq
        next_run_def)
next
  case False
  with w show ?thesis
    by (auto simp: run_start_def run_change_def assert_transition_def effective_time_eq)
qed

lemma operate_disabled:
  assumes r: "run_ok r" and op: "operation_ok op" and dis: "\<not> enabled op (r_status r)"
  shows "run_operate r op ts eid =
    Inl (if op = OpStart \<and> r_status r \<in> {WaitingApproval, WaitingResolution} then ValueError
         else RunLifecycleError RunIllegalTransition)"
proof (cases op)
  case OpStart
  show ?thesis
  proof (cases "r_status r \<in> {WaitingApproval, WaitingResolution}")
    case True
    with OpStart run_start_waiting [OF r True] show ?thesis by simp
  next
    case False
    with OpStart dis have "Running \<notin> set (allowed_transitions (r_status r))"
      by (cases "r_status r") simp_all
    with OpStart False show ?thesis by (simp add: run_start_def assert_transition_illegal)
  qed
next
  case (OpCancel c)
  with op have "run_result_draft_post_init (empty_draft\<lparr>dr_correlation_id := c\<rparr>) =
      Inr (empty_draft\<lparr>dr_correlation_id := c\<rparr>)"
    by (intro run_result_draft_post_init_ok)
      (simp add: run_result_draft_ok_def empty_draft_def references_ok_def)
  with OpCancel dis show ?thesis
    by (simp add: run_cancel_def safe_run_error_post_init_def Let_def assert_transition_illegal
        terminal_transitions)
qed (use dis in \<open>simp_all add: run_wait_for_approval_def run_wait_for_resolution_def
    run_resume_def run_consume_budget_def run_succeed_def run_fail_def\<close>)

lemma operate_extends:
  assumes "run_ok r" and "is_utc ts" and "operation_ok op" and "run_operate r op ts eid = Inr m"
  shows "run_ok (mut_run m) \<and> extends r m"
proof -
  have "enabled op (r_status r)"
    using operate_disabled [OF assms(1,3)] assms(4) by fastforce
  from operate_transition [OF assms(1-3) this assms(4)] show ?thesis
    using transition_run_ok transition_extends assms(1,2) by blast
qed

end
