(* ===== verification/Run_History.thy ===== *)
theory Run_History
  imports Run_Lifecycle_Props
begin

section \<open>Histories of a run\<close>

text \<open>
  The histories that \<open>Run.create\<close> and the operations of \<open>domain/runs/aggregate.py\<close> generate, as an
  inductive relation between the current snapshot, the event log and the charges accepted so
  far; and the properties of the aggregate.
\<close>

definition accepted_charge :: "run_operation \<Rightarrow> run_mutation \<Rightarrow> budget_charge list" where
  "accepted_charge op m =
     (case op of
        OpConsumeBudget c \<Rightarrow>
          if list_ex (\<lambda>e. ev_type e = RunBudgetConsumed) (mut_events m) then [c] else []
      | _ \<Rightarrow> [])"

inductive history :: "run \<Rightarrow> run_event list \<Rightarrow> budget_charge list \<Rightarrow> bool" where
  created: "\<lbrakk>identifier_pattern (tenant_id_value tid); identifier_pattern (run_id_value rid);
    identifier_pattern (task_id_value task); agent_version_ref_ok ver; run_budget_ok bud;
    run_create tid rid task ver bud ts eid = Inr m\<rbrakk> \<Longrightarrow> history (mut_run m) (mut_events m) []"
| operated: "\<lbrakk>history r es cs; operation_ok op; run_operate r op ts eid = Inr m\<rbrakk> \<Longrightarrow>
    history (mut_run m) (es @ mut_events m) (cs @ accepted_charge op m)"

subsection \<open>Creation\<close>

definition created_run ::
    "tenant_id \<Rightarrow> run_id \<Rightarrow> task_id \<Rightarrow> agent_version_ref \<Rightarrow> run_budget \<Rightarrow> datetime \<Rightarrow> run" where
  "created_run tid rid task ver bud ts =
     \<lparr>r_tenant_id = tid, r_run_id = rid, r_task_id = task, r_agent_version = ver,
      r_status = Queued, r_version = 1, r_budget = bud, r_usage = empty_snapshot,
      r_created_at = ts, r_updated_at = ts, r_last_observed_at = ts,
      r_next_event_sequence = 2, r_result = None\<rparr>"

lemma run_create_Inr:
  assumes "run_create tid rid task ver bud ts eid = Inr m"
  shows "is_utc ts \<and> mut_run m = created_run tid rid task ver bud ts \<and>
    run_post_init (mut_run m) = Inr (mut_run m) \<and>
    (\<exists>e. mut_events m = [e] \<and> run_event_ok e \<and> ev_sequence e = 1 \<and> ev_type e = RunCreated \<and>
       ev_tenant_id e = tid \<and> ev_run_id e = rid \<and> ev_occurred_at e = ts)"
proof -
  from assms obtain r e raw where utc: "is_utc ts"
    and r: "run_post_init (created_run tid rid task ver bud ts) = Inr r"
    and e: "new_run_event eid tid rid 1 RunCreated ts 1 raw = Inr e"
    and m: "m = \<lparr>mut_run = r, mut_events = [e]\<rparr>"
    by (auto simp: run_create_def created_run_def result_bind_eq_Inr)
  from r have eq: "r = created_run tid rid task ver bud ts" by auto
  from e have "run_event_ok e \<and> ev_sequence e = 1 \<and> ev_type e = RunCreated \<and>
       ev_tenant_id e = tid \<and> ev_run_id e = rid \<and> ev_occurred_at e = ts"
    using new_run_event_ok [OF e] by (auto elim: new_run_event_Inr)
  with utc r eq m show ?thesis by simp
qed

text \<open>Creation fails exactly when the deadline is not after the observation or tenants differ.\<close>

lemma run_create_iff:
  assumes "agent_version_ref_ok ver" and "is_utc ts"
  shows "(\<exists>m. run_create tid rid task ver bud ts eid = Inr m) \<longleftrightarrow>
     avr_tenant_id ver = tid \<and> instant ts < instant (bud_deadline_at bud)"
proof -
  have "run_post_init (created_run tid rid task ver bud ts) =
      (if avr_tenant_id ver = tid \<and> instant ts < instant (bud_deadline_at bud)
       then Inr (created_run tid rid task ver bud ts) else Inl ValueError)"
    using assms(2) by (auto simp: run_post_init_def created_run_def)
  then show ?thesis
    using assms
    by (auto simp: run_create_def agent_version_ref_ok_def payload_simps require_utc_def
        simp flip: created_run_def)
qed

subsection \<open>Accepted charges\<close>

text \<open>
  An operation adds a charge to the ledger exactly when it emits the event of a consumed
  budget, and every other operation leaves the usage as it was.
\<close>

lemma limit_advance_events [simp]:
  "mut_events (limit_advance r d eff eid) =
     [transition_event r LimitExceeded RunLimitExceeded eff eid
       [(''error_code'', FStr ''budget_limit''),
        (''limit_dimension'', FStr (budget_dimension_value d)), (''result_version'', FInt 1)]]"
  "r_usage (mut_run (limit_advance r d eff eid)) = r_usage r"
  by (simp_all add: limit_advance_def)

lemma usage_advance_simps [simp]:
  "r_usage (mut_run (usage_advance r c u cost eff eid)) = u"
  "r_status (mut_run (usage_advance r c u cost eff eid)) = Running"
  "map ev_type (mut_events (usage_advance r c u cost eff eid)) = [RunBudgetConsumed]"
  by (simp_all add: usage_advance_def)

lemma within_empty: "run_budget_ok b \<Longrightarrow> within_budget empty_snapshot b"
  by (auto simp: within_budget_def run_budget_ok_def empty_snapshot_def total_tokens_def
      dec_normal_nonneg)

lemma created_run_ok:
  assumes "identifier_pattern (tenant_id_value tid)" "identifier_pattern (run_id_value rid)"
    "identifier_pattern (task_id_value task)" "agent_version_ref_ok ver" "run_budget_ok bud"
    "run_post_init (created_run tid rid task ver bud ts) = Inr (created_run tid rid task ver bud ts)"
  shows "run_ok (created_run tid rid task ver bud ts)"
  using assms within_empty [OF assms(5)] by (simp add: run_ok_def) (simp add: created_run_def)

lemma operate_ledger:
  assumes r: "run_ok r" and ts: "is_utc ts" and op: "operation_ok op"
    and m: "run_operate r op ts eid = Inr m" and l: "ledger_matches (r_usage r) cs"
  shows "ledger_matches (r_usage (mut_run m)) (cs @ accepted_charge op m)"
proof -
  have en: "enabled op (r_status r)"
    using operate_disabled [OF r op] m by fastforce
  have "r_usage (mut_run m) = r_usage r" if "\<And>c. op \<noteq> OpConsumeBudget c"
    using m en r ts op that
    by (cases op) (auto simp: run_start_advance run_wait_for_approval_advance
      run_wait_for_resolution_advance run_resume_advance run_succeed_advance run_fail_eq
      run_cancel_advance run_enforce_deadline_eq split: if_splits)
  moreover have ?thesis if c: "op = OpConsumeBudget c" for c
  proof -
    have run: "r_status r = Running" and cok: "budget_charge_ok c" using c en op by simp_all
    have snap: "budget_snapshot_ok (r_usage r)" using r by (simp add: run_ok_def)
    obtain d where d: "budget_apply (r_usage r) c (r_budget r) = Inr d"
      using m c run_consume_budget_eq [OF r ts run cok refl, of eid]
      by (auto split: sum.splits)
    note ledger = budget_apply_ledger [OF snap cok l d]
    show ?thesis
      using m c d ledger l run_consume_budget_eq [OF r ts run cok refl, of eid]
      by (auto simp: accepted_charge_def usage_advance_def split: if_splits option.splits)
  qed
  ultimately show ?thesis
    using l by (cases op) (simp_all add: accepted_charge_def)
qed

subsection \<open>What the log says\<close>

definition log_matches :: "run \<Rightarrow> run_event list \<Rightarrow> bool" where
  "log_matches r es \<longleftrightarrow>
     map ev_sequence es = [1..r_version r] \<and>
     list_all (\<lambda>e. run_event_ok e \<and> ev_tenant_id e = r_tenant_id r \<and> ev_run_id e = r_run_id r) es \<and>
     successively status_step (map event_status es) \<and>
     sorted (map (\<lambda>e. instant (ev_occurred_at e)) es) \<and>
     es \<noteq> [] \<and> ev_type (hd es) = RunCreated \<and>
     r_status r = event_status (last es) \<and> r_updated_at r = ev_occurred_at (last es) \<and>
     r_last_observed_at r = r_updated_at r"

lemma log_matches_extends:
  assumes l: "log_matches r es" and r: "run_ok r" and m: "extends r m"
  shows "log_matches (mut_run m) (es @ mut_events m)"
proof (cases "mut_events m")
  case Nil
  with m l show ?thesis by (auto simp: extends_def)
next
  case (Cons e es')
  with m have e: "mut_events m = [e]" "run_event_ok e" "ev_tenant_id e = r_tenant_id r"
      "ev_run_id e = r_run_id r" "ev_sequence e = r_version r + 1"
      "r_version (mut_run m) = r_version r + 1" "status_step (r_status r) (event_status e)"
      "r_status (mut_run m) = event_status e"
      "instant (r_last_observed_at r) \<le> instant (ev_occurred_at e)"
      "r_updated_at (mut_run m) = ev_occurred_at e"
      "r_last_observed_at (mut_run m) = ev_occurred_at e"
      "r_tenant_id (mut_run m) = r_tenant_id r" "r_run_id (mut_run m) = r_run_id r"
    using run_okD(5) [OF r] by (auto simp: extends_def)
  have "sorted (map (\<lambda>e. instant (ev_occurred_at e)) es @ [instant (ev_occurred_at e)])"
    using l e by (intro sorted_snoc_last) (auto simp: log_matches_def last_map)
  moreover have "successively status_step (map event_status es @ [event_status e])"
    using l e by (auto simp: log_matches_def successively_append_iff last_map)
  ultimately show ?thesis
    using l e run_okD(1) [OF r] by (simp add: log_matches_def upto_snoc)
qed

lemma operate_utc:
  assumes "run_ok r" and "operation_ok op" and "run_operate r op ts eid = Inr m"
    and "\<not> is_utc ts"
  shows "mut_run m = r \<and> mut_events m = []"
proof -
  have "enabled op (r_status r)" using operate_disabled [OF assms(1,2)] assms(3) by fastforce
  then show ?thesis
    using assms(3,4)
    by (cases op) (auto simp: run_start_def run_wait_for_approval_def run_wait_for_resolution_def
      run_resume_def run_consume_budget_def run_succeed_def run_fail_def run_cancel_def
      run_enforce_deadline_def run_change_def effective_time_eq result_bind_eq_Inr Let_def
      split: if_splits)
qed

lemma history_invariant:
  "history r es cs \<Longrightarrow> run_ok r \<and> log_matches r es \<and> ledger_matches (r_usage r) cs"
proof (induction rule: history.induct)
  case (created tid rid task ver bud ts eid m)
  then have init: "run_post_init (created_run tid rid task ver bud ts) =
      Inr (created_run tid rid task ver bud ts)"
    using run_create_Inr [OF created(6)] by metis
  have "run_ok (mut_run m)"
    using created_run_ok [OF created(1-5) init] run_create_Inr [OF created(6)] by simp
  moreover have "log_matches (mut_run m) (mut_events m)"
    using run_create_Inr [OF created(6)]
    by (auto simp: log_matches_def created_run_def event_status_def)
  moreover have "ledger_matches (r_usage (mut_run m)) []"
    using run_create_Inr [OF created(6)] ledger_matches_empty by (simp add: created_run_def)
  ultimately show ?case by simp
next
  case (operated r es cs op ts eid m)
  then have r: "run_ok r" by simp
  show ?case
  proof (cases "is_utc ts")
    case True
    with operated operate_extends [OF r True] operate_ledger [OF r True] show ?thesis
      by (auto intro: log_matches_extends)
  next
    case False
    with operated operate_utc [OF r] have "mut_run m = r" "mut_events m = []" by blast+
    with operated show ?thesis by (cases op) (auto simp: accepted_charge_def)
  qed
qed

end
