(* ===== verification/Samples.thy ===== *)
theory Samples
  imports Run_History
begin

section \<open>Sample values\<close>

text \<open>Concrete values on which the properties are instantiated.\<close>

definition sample_tenant :: tenant_id where "sample_tenant = TenantId ''tenant-1''"
definition sample_run_id :: run_id where "sample_run_id = RunId ''run-1''"
definition sample_task :: task_id where "sample_task = TaskId ''task-1''"

definition sample_digest :: string where
  "sample_digest = ''sha256:'' @ replicate 64 CHR ''a''"

definition sample_version :: agent_version_ref where
  "sample_version = \<lparr>avr_tenant_id = sample_tenant, avr_agent_id = AgentId ''agent-1'',
     avr_version_id = AgentVersionId ''v1'', avr_build_digest = sample_digest\<rparr>"

definition sample_budget :: run_budget where
  "sample_budget = \<lparr>bud_deadline_at = Utc (seconds 1000), bud_max_steps = 10,
     bud_max_model_calls = 5, bud_max_tool_calls = 5, bud_max_input_tokens = 100,
     bud_max_output_tokens = 100, bud_max_total_tokens = 150, bud_max_cost = Fin False 25 (- 1),
     bud_currency = ''USD''\<rparr>"

definition sample_created :: run where
  "sample_created =
     created_run sample_tenant sample_run_id sample_task sample_version sample_budget (Utc 0)"

definition sample_running :: run where
  "sample_running = next_run sample_created Running empty_snapshot None (Utc (seconds 1))"

definition sample_waiting :: run where
  "sample_waiting = next_run sample_running WaitingApproval empty_snapshot None (Utc (seconds 2))"

definition sample_cancelled :: run where
  "sample_cancelled = next_run sample_running Cancelled empty_snapshot
     (terminal_result sample_running Cancelled empty_snapshot None (Some (cancel_error None)))
     (Utc (seconds 2))"

definition sample_charge :: budget_charge where
  "sample_charge = \<lparr>chg_charge_id = ChargeId ''charge-1'', chg_steps = 1, chg_model_calls = 1,
     chg_tool_calls = 0, chg_input_tokens = 20, chg_output_tokens = 5,
     chg_cost = Fin False 5 (- 1)\<rparr>"

lemmas sample_defs =
  sample_tenant_def sample_run_id_def sample_task_def sample_digest_def sample_version_def
  sample_budget_def

lemma sample_version_ok: "agent_version_ref_ok sample_version"
  by code_simp

lemma sample_budget_ok: "run_budget_ok sample_budget"
  by code_simp

lemma sample_charge_ok: "budget_charge_ok sample_charge"
  by code_simp

lemma sample_ids_ok:
  "identifier_pattern (tenant_id_value sample_tenant)"
  "identifier_pattern (run_id_value sample_run_id)"
  "identifier_pattern (task_id_value sample_task)"
  by code_simp+

lemma sample_created_ok: "run_ok sample_created"
  unfolding sample_created_def
  by (rule created_run_ok [OF sample_ids_ok sample_version_ok sample_budget_ok])
    (simp add: run_post_init_iff created_run_def sample_defs)

lemma sample_running_ok: "run_ok sample_running"
  using next_run_ok [OF sample_created_ok, of "Utc (seconds 1)" empty_snapshot None Running None]
    within_empty [OF sample_budget_ok]
  by (simp add: sample_running_def terminal_result_def error_matches_def sample_created_def
      created_run_def)

lemma sample_waiting_ok: "run_ok sample_waiting"
  using next_run_ok [OF sample_running_ok, of "Utc (seconds 2)" empty_snapshot None
      WaitingApproval None] within_empty [OF sample_budget_ok]
  by (simp add: sample_waiting_def terminal_result_def error_matches_def sample_running_def
      sample_created_def created_run_def)

lemma sample_cancelled_ok: "run_ok sample_cancelled"
  using next_run_ok [OF sample_running_ok, of "Utc (seconds 2)" empty_snapshot None
      Cancelled "Some (cancel_error None)"] within_empty [OF sample_budget_ok]
  by (simp add: sample_cancelled_def error_matches_def sample_running_def cancel_error_def
      sample_created_def created_run_def safe_run_error_ok_def)

lemma sample_statuses [simp]:
  "r_status sample_created = Queued" "r_status sample_running = Running"
  "r_status sample_waiting = WaitingApproval" "r_status sample_cancelled = Cancelled"
  by (simp_all add: sample_created_def created_run_def sample_running_def sample_waiting_def
      sample_cancelled_def)

lemma sample_history:
  "history sample_running
     [projr (new_run_event (EventId ''e1'') sample_tenant sample_run_id 1 RunCreated (Utc 0) 1
       (py_dict [(''agent_version_id'', PStr ''v1''), (''run_version'', PInt 1),
         (''status'', PStr ''queued'')])),
      transition_event sample_created Running RunStarted (Utc (seconds 1)) (EventId ''e2'')
       [(''previous_status'', FStr ''queued'')]] []"
proof -
  have create: "run_create sample_tenant sample_run_id sample_task sample_version sample_budget
      (Utc 0) (EventId ''e1'') = Inr \<lparr>mut_run = sample_created,
      mut_events = [projr (new_run_event (EventId ''e1'') sample_tenant sample_run_id 1 RunCreated
        (Utc 0) 1 (py_dict [(''agent_version_id'', PStr ''v1''), (''run_version'', PInt 1),
         (''status'', PStr ''queued'')]))]\<rparr>"
    by code_simp
  have start: "run_operate sample_created OpStart (Utc (seconds 1)) (EventId ''e2'') =
      Inr \<lparr>mut_run = sample_running, mut_events = [transition_event sample_created Running RunStarted
        (Utc (seconds 1)) (EventId ''e2'') [(''previous_status'', FStr ''queued'')]]\<rparr>"
    by code_simp
  from history.created [OF sample_ids_ok sample_version_ok sample_budget_ok create]
  have "history sample_created [projr (new_run_event (EventId ''e1'') sample_tenant sample_run_id 1
      RunCreated (Utc 0) 1 (py_dict [(''agent_version_id'', PStr ''v1''),
      (''run_version'', PInt 1), (''status'', PStr ''queued'')]))] []"
    by simp
  from history.operated [OF this _ start] show ?thesis by (simp add: accepted_charge_def)
qed

lemma sample_budget_deadline [simp]: "bud_deadline_at sample_budget = Utc (seconds 1000)"
  by (simp add: sample_budget_def)

lemma sample_charge_accepted:
  "\<exists>f. digest_pattern f \<and> charge_fingerprint sample_charge = Inr f \<and>
    budget_apply empty_snapshot sample_charge sample_budget =
      Inr \<lparr>decided_snapshot = charged_snapshot empty_snapshot sample_charge (Fin False 5 (- 1)) f,
        decided_replayed = False, decided_exceeded = None\<rparr>"
proof -
  have "charge_printable sample_charge" by code_simp
  from charge_fingerprint_total [OF sample_charge_ok this] obtain f
    where f: "charge_fingerprint sample_charge = Inr f" "digest_pattern f" by blast
  have cost: "exact_decimal_add dec_zero (chg_cost sample_charge) = Inr (Fin False 5 (- 1))"
    by code_simp
  have "starts_with ''sha256:'' f" using f(2) by (simp add: digest_pattern_def)
  then have "budget_snapshot_post_init
      (charged_snapshot empty_snapshot sample_charge (Fin False 5 (- 1)) f) =
      Inr (charged_snapshot empty_snapshot sample_charge (Fin False 5 (- 1)) f)"
    by (intro budget_snapshot_post_init_ok)
      (simp add: budget_snapshot_ok_def charged_snapshot_def empty_snapshot_def sample_charge_def)
  moreover have "find fst (budget_checks
      (charged_snapshot empty_snapshot sample_charge (Fin False 5 (- 1)) f) sample_budget) = None"
    by (simp add: budget_checks_def charged_snapshot_def empty_snapshot_def sample_charge_def
        sample_budget_def total_tokens_def dec_less_def)
  ultimately show ?thesis
    using f cost by (intro exI [of _ f]) (simp add: budget_apply_def empty_snapshot_def)
qed

text \<open>A history in which the charge was accepted, and the run then waited and was resumed.\<close>

lemma sample_charged_history:
  "\<exists>r es. history r es [sample_charge] \<and> r_status r = Running \<and> r_budget r = sample_budget \<and> length es = 3"
proof -
  have run: "r_usage sample_running = empty_snapshot" "r_budget sample_running = sample_budget"
    "Utc (seconds 2) = datetime_max (r_last_observed_at sample_running) (Utc (seconds 2))"
    by (simp_all add: sample_running_def sample_created_def created_run_def datetime_max_def)
  from sample_charge_accepted obtain f where
    d: "budget_apply empty_snapshot sample_charge sample_budget =
      Inr \<lparr>decided_snapshot = charged_snapshot empty_snapshot sample_charge (Fin False 5 (- 1)) f,
        decided_replayed = False, decided_exceeded = None\<rparr>" by blast
  obtain u cost where m: "run_operate sample_running (OpConsumeBudget sample_charge) (Utc (seconds 2)) (EventId ''e3'') =
      Inr (usage_advance sample_running sample_charge u cost (Utc (seconds 2)) (EventId ''e3''))"
    using run_consume_budget_eq [OF sample_running_ok _ _ sample_charge_ok run(3), of "EventId ''e3''"] d
    by (simp add: run)
  have "operation_ok (OpConsumeBudget sample_charge)" by (simp add: sample_charge_ok)
  from history.operated [OF sample_history this m]
  have "history (mut_run (usage_advance sample_running sample_charge u cost (Utc (seconds 2)) (EventId ''e3'')))
      ([projr (new_run_event (EventId ''e1'') sample_tenant sample_run_id 1 RunCreated (Utc 0) 1
       (py_dict [(''agent_version_id'', PStr ''v1''), (''run_version'', PInt 1),
         (''status'', PStr ''queued'')])),
      transition_event sample_created Running RunStarted (Utc (seconds 1)) (EventId ''e2'')
       [(''previous_status'', FStr ''queued'')]] @
       mut_events (usage_advance sample_running sample_charge u cost (Utc (seconds 2)) (EventId ''e3'')))
      [sample_charge]"
    by (simp add: accepted_charge_def usage_advance_def)
  then show ?thesis by (intro exI conjI) (assumption, simp_all add: usage_advance_def run)
qed

lemma sample_resumed_history:
  "\<exists>r es. history r es [sample_charge] \<and> r_status r = Running \<and> length es = 5"
proof -
  obtain r es where h: "history r es [sample_charge]" "r_status r = Running" "length es = 3"
    using sample_charged_history by blast
  have ok: "run_ok r" using history_invariant [OF h(1)] by simp
  have ref: "operation_ok (OpWaitForApproval (ReferenceId ''ref-1''))" by simp code_simp
  obtain m where m: "run_operate r (OpWaitForApproval (ReferenceId ''ref-1'')) (Utc (seconds 3)) (EventId ''e4'') = Inr m"
      "r_status (mut_run m) = WaitingApproval" "length (mut_events m) = 1"
    using run_wait_for_approval_advance [OF ok, of "Utc (seconds 3)" "ReferenceId ''ref-1''" "EventId ''e4''"] h(2) ref
    by simp
  from history.operated [OF h(1) ref m(1)]
  have waiting: "history (mut_run m) (es @ mut_events m) [sample_charge]" by (simp add: accepted_charge_def)
  have ok2: "run_ok (mut_run m)" using history_invariant [OF waiting] by simp
  obtain m2 where m2: "run_operate (mut_run m) OpResume (Utc (seconds 4)) (EventId ''e5'') = Inr m2"
      "r_status (mut_run m2) = Running" "length (mut_events m2) = 1"
    using run_resume_advance [OF ok2, of "Utc (seconds 4)" "EventId ''e5''"] m(2) by simp
  from history.operated [OF waiting _ m2(1)]
  have "history (mut_run m2) ((es @ mut_events m) @ mut_events m2) [sample_charge]"
    by (simp add: accepted_charge_def)
  with h(3) m(3) m2(2,3) show ?thesis by (intro exI conjI) auto
qed

end
