(* ===== verification/Run_Outcomes.thy ===== *)
theory Run_Outcomes
  imports Run_History
begin

section \<open>The outcomes of the operations of a run\<close>

text \<open>
  The reference description of \<open>domain/runs/aggregate.py\<close>: for every operation in its status, the target, the
  event with its payload, the usage and the result, or the error; for a charge in terms of sums and limits, not of
  the code that computes them.
\<close>

subsection \<open>Charges\<close>

text \<open>The costs and their aligned sum have at most 4300 digits.\<close>

fun cost_addable :: "decimal \<Rightarrow> decimal \<Rightarrow> bool" where
  "cost_addable (Fin s1 c1 e1) (Fin s2 c2 e2) \<longleftrightarrow>
     length (nat_digits c1) \<le> int_max_str_digits \<and> length (nat_digits c2) \<le> int_max_str_digits \<and>
     length (nat_digits (aligned_sum c1 e1 c2 e2)) \<le> int_max_str_digits"
| "cost_addable a b \<longleftrightarrow> False"

text \<open>The limits in the order in which they are reported.\<close>

definition limit_order :: "budget_dimension list" where
  "limit_order = [DimSteps, DimModelCalls, DimToolCalls, DimInputTokens, DimOutputTokens, DimTotalTokens, DimCost]"

fun over_limit :: "run_budget \<Rightarrow> budget_snapshot \<Rightarrow> budget_charge \<Rightarrow> budget_dimension \<Rightarrow> bool" where
  "over_limit b u c DimSteps \<longleftrightarrow> bud_max_steps b < use_steps u + chg_steps c"
| "over_limit b u c DimModelCalls \<longleftrightarrow> bud_max_model_calls b < use_model_calls u + chg_model_calls c"
| "over_limit b u c DimToolCalls \<longleftrightarrow> bud_max_tool_calls b < use_tool_calls u + chg_tool_calls c"
| "over_limit b u c DimInputTokens \<longleftrightarrow> bud_max_input_tokens b < use_input_tokens u + chg_input_tokens c"
| "over_limit b u c DimOutputTokens \<longleftrightarrow> bud_max_output_tokens b < use_output_tokens u + chg_output_tokens c"
| "over_limit b u c DimTotalTokens \<longleftrightarrow>
     bud_max_total_tokens b <
       use_input_tokens u + use_output_tokens u + chg_input_tokens c + chg_output_tokens c"
| "over_limit b u c DimCost \<longleftrightarrow> dec_value (bud_max_cost b) < dec_value (use_cost u) + dec_value (chg_cost c)"
| "over_limit b u c DimDeadline \<longleftrightarrow> False"

definition absorbs :: "budget_snapshot \<Rightarrow> budget_charge \<Rightarrow> budget_snapshot \<Rightarrow> bool" where
  "absorbs u c u' \<longleftrightarrow>
     use_steps u' = use_steps u + chg_steps c \<and> use_model_calls u' = use_model_calls u + chg_model_calls c \<and>
     use_tool_calls u' = use_tool_calls u + chg_tool_calls c \<and>
     use_input_tokens u' = use_input_tokens u + chg_input_tokens c \<and>
     use_output_tokens u' = use_output_tokens u + chg_output_tokens c \<and>
     dec_value (use_cost u') = dec_value (use_cost u) + dec_value (chg_cost c) \<and>
     (\<exists>f. charge_fingerprint c = Inr f \<and> use_fingerprints u' = use_fingerprints u @ [(chg_charge_id c, f)])"

lemma charge_fingerprint_cases:
  assumes "budget_charge_ok c"
  shows "if charge_printable c then \<exists>f. charge_fingerprint c = Inr f else charge_fingerprint c = Inl ValueError"
proof (cases "charge_printable c")
  case True
  with charge_fingerprint_total [OF assms] show ?thesis by auto
next
  case False
  obtain cost where "canonical_decimal (chg_cost c) = Inr cost"
    using canonical_decimal_ok assms by (fastforce simp: budget_charge_ok_def)
  with False show ?thesis
    by (auto simp: charge_fingerprint_def fingerprint_json_def charge_body_def charge_printable_def printable_def
        py_str_int_def)
qed

lemma exact_decimal_add_cases:
  assumes "dec_normal a" and "dec_normal b"
  shows "if cost_addable a b then \<exists>c. exact_decimal_add a b = Inr c else exact_decimal_add a b = Inl ValueError"
  using assms by (cases a; cases b) (auto simp: exact_decimal_add_eq not_le)

text \<open>A charge that is not known yet.\<close>

lemma charged_snapshot_accepted:
  assumes s: "budget_snapshot_ok s" and c: "budget_charge_ok c"
    and cost: "exact_decimal_add (use_cost s) (chg_cost c) = Inr cost" and f: "charge_fingerprint c = Inr f"
    and fresh: "map_of (use_fingerprints s) (chg_charge_id c) = None"
  shows "\<exists>u. budget_snapshot_post_init (charged_snapshot s c cost f) = Inr u"
proof -
  have "dec_normal (use_cost s)" "dec_normal (chg_cost c)"
    using s c by (simp_all add: budget_snapshot_ok_def budget_charge_ok_def)
  then obtain k e where "cost = Fin False k e"
    using cost by (cases "use_cost s"; cases "chg_cost c") (auto simp: exact_decimal_add_eq split: if_splits)
  then obtain n where "normalize_decimal cost = Inr n" by (simp add: normalize_decimal_def)
  moreover have "starts_with ''sha256:'' f"
    using f by (auto simp: charge_fingerprint_def result_bind_eq_Inr digest_pattern_def dest!: fingerprint_json_pattern)
  moreover have "chg_charge_id c \<notin> fst ` set (use_fingerprints s)" using fresh by (simp add: map_of_eq_None_iff)
  ultimately show ?thesis
    using s c
    by (auto simp: budget_snapshot_post_init_def charged_snapshot_def validate_counters_eq budget_snapshot_ok_def
        budget_charge_ok_def list_ex_iff list_all_iff dict_set_fresh)
qed

lemma find_over_limit:
  assumes "absorbs s c u" and "is_finite (use_cost u)" and "is_finite (bud_max_cost b)"
  shows "find fst (budget_checks u b) = map_option (Pair True) (find (over_limit b s c) limit_order)"
  using assms
  by (simp add: budget_checks_def limit_order_def absorbs_def total_tokens_def dec_less_value add.assoc add.left_commute)

lemma budget_apply_fresh:
  assumes s: "budget_snapshot_ok s" and c: "budget_charge_ok c" and b: "run_budget_ok b"
    and fresh: "map_of (use_fingerprints s) (chg_charge_id c) = None"
  shows "if charge_printable c \<and> cost_addable (use_cost s) (chg_cost c)
    then (case find (over_limit b s c) limit_order of
        Some d \<Rightarrow> budget_apply s c b =
          Inr \<lparr>decided_snapshot = s, decided_replayed = False, decided_exceeded = Some d\<rparr>
      | None \<Rightarrow> \<exists>u. absorbs s c u \<and> budget_apply s c b =
          Inr \<lparr>decided_snapshot = u, decided_replayed = False, decided_exceeded = None\<rparr>)
    else budget_apply s c b = Inl ValueError"
proof -
  have normal: "dec_normal (use_cost s)" "dec_normal (chg_cost c)"
    using s c by (simp_all add: budget_snapshot_ok_def budget_charge_ok_def)
  show ?thesis
  proof (cases "charge_printable c \<and> cost_addable (use_cost s) (chg_cost c)")
    case False
    with charge_fingerprint_cases [OF c] exact_decimal_add_cases [OF normal] fresh show ?thesis
      by (cases "cost_addable (use_cost s) (chg_cost c)") (auto simp: budget_apply_def)
  next
    case True
    then obtain f cost where f: "charge_fingerprint c = Inr f"
        and cost: "exact_decimal_add (use_cost s) (chg_cost c) = Inr cost"
      using charge_fingerprint_cases [OF c] exact_decimal_add_cases [OF normal] by auto
    obtain u where u: "budget_snapshot_post_init (charged_snapshot s c cost f) = Inr u"
      using charged_snapshot_accepted [OF s c cost f fresh] ..
    note cand = charged_snapshot_candidate [OF s c cost f fresh u]
    have absorbed: "absorbs s c u"
      using cand f by (cases u) (auto simp: absorbs_def charged_snapshot_def)
    have finite: "is_finite (use_cost u)" "is_finite (bud_max_cost b)"
      using cand b by (simp_all add: budget_snapshot_ok_def run_budget_ok_def)
    show ?thesis
      using True fresh cost f u find_over_limit [OF absorbed finite] absorbed
      by (auto simp: budget_apply_def split: option.split)
  qed
qed

subsection \<open>Every operation\<close>

definition charge_outcome :: "run \<Rightarrow> budget_charge \<Rightarrow> datetime \<Rightarrow> event_id \<Rightarrow> exn + run_mutation \<Rightarrow> bool" where
  "charge_outcome r c eff eid res \<longleftrightarrow>
     (case map_of (use_fingerprints (r_usage r)) (chg_charge_id c) of
        Some f \<Rightarrow>
          res = (if \<not> charge_printable c then Inl ValueError
                 else if charge_fingerprint c = Inr f then Inr \<lparr>mut_run = r, mut_events = []\<rparr>
                 else Inl (RunLifecycleError RunIdempotencyConflict))
      | None \<Rightarrow>
          if \<not> (charge_printable c \<and> cost_addable (use_cost (r_usage r)) (chg_cost c)) then res = Inl ValueError
          else if instant (bud_deadline_at (r_budget r)) \<le> instant eff
          then res = Inr (limit_advance r DimDeadline eff eid)
          else (case find (over_limit (r_budget r) (r_usage r) c) limit_order of
              Some d \<Rightarrow> res = Inr (limit_advance r d eff eid)
            | None \<Rightarrow> \<exists>u cost. absorbs (r_usage r) c u \<and> canonical_decimal (use_cost u) = Inr cost \<and>
                res = Inr (usage_advance r c u cost eff eid)))"

text \<open>An operation in its status: target, event with its payload, usage, result draft and error.\<close>

fun operation_outcome ::
    "run \<Rightarrow> run_operation \<Rightarrow> datetime \<Rightarrow> event_id \<Rightarrow> exn + run_mutation \<Rightarrow> bool" where
  "operation_outcome r OpStart eff eid res \<longleftrightarrow>
     res = Inr (advance r Running RunStarted eff eid [(''previous_status'', FStr ''queued'')] (r_usage r) None None)"
| "operation_outcome r (OpWaitForApproval ref) eff eid res \<longleftrightarrow>
     res = Inr (advance r WaitingApproval RunWaitingApproval eff eid
       [(''previous_status'', FStr ''running''), (''reference_id'', FStr (reference_id_value ref))]
       (r_usage r) None None)"
| "operation_outcome r (OpWaitForResolution ref) eff eid res \<longleftrightarrow>
     res = Inr (advance r WaitingResolution RunWaitingResolution eff eid
       [(''previous_status'', FStr ''running''), (''reference_id'', FStr (reference_id_value ref))]
       (r_usage r) None None)"
| "operation_outcome r OpResume eff eid res \<longleftrightarrow>
     res = Inr (advance r Running RunResumed eff eid
       [(''previous_status'',
          FStr (if r_status r = WaitingApproval then ''waiting_approval'' else ''waiting_resolution''))]
       (r_usage r) None None)"
| "operation_outcome r (OpConsumeBudget c) eff eid res \<longleftrightarrow> charge_outcome r c eff eid res"
| "operation_outcome r (OpSucceed d) eff eid res \<longleftrightarrow>
     res = Inr (advance r Succeeded RunSucceeded eff eid [(''result_version'', FInt 1)] (r_usage r) (Some d) None)"
| "operation_outcome r (OpFail d e) eff eid res \<longleftrightarrow>
     res = (if err_code e = RunFailed
        then Inr (advance r Failed RunFailedEvent eff eid
          [(''error_code'', FStr ''failed''), (''result_version'', FInt 1)] (r_usage r) (Some d) (Some e))
        else Inl ValueError)"
| "operation_outcome r (OpCancel c) eff eid res \<longleftrightarrow>
     res = Inr (advance r Cancelled RunCancelledEvent eff eid
       ([(''error_code'', FStr ''cancelled''), (''result_version'', FInt 1)] @
        (case c of None \<Rightarrow> [] | Some i \<Rightarrow> [(''correlation_id'', FStr (correlation_id_value i))]))
       (r_usage r) (Some (empty_draft\<lparr>dr_correlation_id := c\<rparr>)) (Some (cancel_error c)))"
| "operation_outcome r OpEnforceDeadline eff eid res \<longleftrightarrow>
     res = Inr (if is_terminal (r_status r) \<or> instant eff < instant (bud_deadline_at (r_budget r))
       then \<lparr>mut_run = r, mut_events = []\<rparr> else limit_advance r DimDeadline eff eid)"

lemma consume_outcome:
  assumes r: "run_ok r" and ts: "is_utc ts" and run: "r_status r = Running" and c: "budget_charge_ok c"
    and eff: "eff = datetime_max (r_last_observed_at r) ts"
  shows "charge_outcome r c eff eid (run_consume_budget r c ts eid)"
proof -
  note eq = run_consume_budget_eq [OF r ts run c eff]
  have ok: "budget_snapshot_ok (r_usage r)" "run_budget_ok (r_budget r)" using r by (simp_all add: run_ok_def)
  show ?thesis
  proof (cases "map_of (use_fingerprints (r_usage r)) (chg_charge_id c)")
    case (Some f)
    show ?thesis
    proof (cases "charge_printable c")
      case True
      with charge_fingerprint_cases [OF c] obtain f' where "charge_fingerprint c = Inr f'" by auto
      with True Some budget_apply_known [OF Some this] eq show ?thesis by (simp add: charge_outcome_def)
    next
      case False
      with charge_fingerprint_cases [OF c] Some eq show ?thesis by (simp add: charge_outcome_def budget_apply_def)
    qed
  next
    case None
    note applied = budget_apply_fresh [OF ok(1) c ok(2) None]
    show ?thesis
    proof (cases "charge_printable c \<and> cost_addable (use_cost (r_usage r)) (chg_cost c)")
      case False
      with None applied eq show ?thesis by (auto simp: charge_outcome_def)
    next
      case countable: True
      show ?thesis
      proof (cases "find (over_limit (r_budget r) (r_usage r) c) limit_order")
        case (Some d)
        with None countable applied eq show ?thesis by (simp add: charge_outcome_def)
      next
        case accepted: None
        with countable applied obtain u where u: "absorbs (r_usage r) c u"
            "budget_apply (r_usage r) c (r_budget r) =
              Inr \<lparr>decided_snapshot = u, decided_replayed = False, decided_exceeded = None\<rparr>" by auto
        have "budget_snapshot_ok u" using budget_apply_ok [OF ok(1) c u(2)] by simp
        then obtain cost where "canonical_decimal (use_cost u) = Inr cost"
          using canonical_decimal_ok by (fastforce simp: budget_snapshot_ok_def)
        with None countable accepted u eq show ?thesis by (auto simp: charge_outcome_def)
      qed
    qed
  qed
qed

lemma operate_outcome:
  assumes "run_ok r" and "is_utc ts" and "operation_ok op" and "enabled op (r_status r)"
  shows "operation_outcome r op (datetime_max (r_last_observed_at r) ts) eid (run_operate r op ts eid)"
  using assms
  by (cases op) (auto simp: run_start_advance run_wait_for_approval_advance run_wait_for_resolution_advance
      run_resume_advance run_succeed_advance run_fail_eq run_cancel_advance run_enforce_deadline_eq consume_outcome)

end
