(* ===== verification/Run_Properties.thy ===== *)
theory Run_Properties
  imports Samples Run_Outcomes
begin

section \<open>Properties of the run aggregate\<close>

text \<open>The properties of decimals, budgets, events and the aggregate, with their witnesses.\<close>

subsection \<open>The event log\<close>

text \<open>C5: the event log of a run is complete and tells its state. In every history the sequence
  numbers are exactly 1 to the run's version, every event is well formed and belongs to the
  run, the statuses follow the transition table, times do not go back, and the run's status and
  timestamps are those of its last event.\<close>
theorem history_log_consistent:
  assumes "history r es cs"
  shows "run_ok r \<and> log_matches r es"
  using history_invariant [OF assms] by simp

theorem history_log_consistent_witness: "\<exists>es. run_ok sample_running \<and> log_matches sample_running es"
  using history_log_consistent [OF sample_history] by blast

text \<open>C4: a run never exceeds its hard budget, and its usage is exactly the sum of the charges
  it accepted, in every dimension, each charge id once, with the fingerprints of those charges; in every
  history the totals of the accepted charges stay within each limit, cost included.\<close>
theorem history_within_budget:
  assumes "history r es cs"
  shows "distinct (map chg_charge_id cs) \<and>
    use_steps (r_usage r) = sum_list (map chg_steps cs) \<and>
    use_model_calls (r_usage r) = sum_list (map chg_model_calls cs) \<and>
    use_tool_calls (r_usage r) = sum_list (map chg_tool_calls cs) \<and>
    use_input_tokens (r_usage r) = sum_list (map chg_input_tokens cs) \<and>
    use_output_tokens (r_usage r) = sum_list (map chg_output_tokens cs) \<and>
    dec_value (use_cost (r_usage r)) = sum_list (map (\<lambda>c. dec_value (chg_cost c)) cs) \<and>
    map (\<lambda>(i, f). (i, Inr f)) (use_fingerprints (r_usage r)) =
      map (\<lambda>c. (chg_charge_id c, charge_fingerprint c)) cs \<and>
    sum_list (map chg_steps cs) \<le> bud_max_steps (r_budget r) \<and>
    sum_list (map chg_model_calls cs) \<le> bud_max_model_calls (r_budget r) \<and>
    sum_list (map chg_tool_calls cs) \<le> bud_max_tool_calls (r_budget r) \<and>
    sum_list (map chg_input_tokens cs) \<le> bud_max_input_tokens (r_budget r) \<and>
    sum_list (map chg_output_tokens cs) \<le> bud_max_output_tokens (r_budget r) \<and>
    sum_list (map chg_input_tokens cs) + sum_list (map chg_output_tokens cs)
      \<le> bud_max_total_tokens (r_budget r) \<and>
    sum_list (map (\<lambda>c. dec_value (chg_cost c)) cs) \<le> dec_value (bud_max_cost (r_budget r))"
  using history_invariant [OF assms]
  by (simp add: run_ok_def ledger_matches_def within_budget_def total_tokens_def)

theorem history_within_budget_witness:
  "\<exists>r es. history r es [sample_charge] \<and> r_budget r = sample_budget \<and>
     use_input_tokens (r_usage r) = 20 \<and> use_output_tokens (r_usage r) = 5 \<and>
     dec_value (use_cost (r_usage r)) = 1 / 2 \<and> map fst (use_fingerprints (r_usage r)) = [ChargeId ''charge-1'']"
proof -
  obtain r es where h: "history r es [sample_charge]" "r_budget r = sample_budget"
    using sample_charged_history by blast
  from history_within_budget [OF h(1)] h show ?thesis
    by (intro exI [of _ r] exI [of _ es]) (auto simp: sample_charge_def power_int_def map_eq_Cons_conv)
qed

text \<open>No event follows a terminal one. In every history, every event but the last has a status
  that is not terminal, so a terminal run has exactly one terminal event, its last.\<close>
theorem history_terminal_last:
  assumes "history r es cs"
  shows "list_all (\<lambda>e. \<not> is_terminal (event_status e)) (butlast es) \<and>
    (is_terminal (r_status r) \<longleftrightarrow> is_terminal (event_status (last es)))"
proof -
  have steps: "successively status_step (map event_status es)" and
      "r_status r = event_status (last es)"
    using history_invariant [OF assms] by (simp_all add: log_matches_def)
  moreover have "list_all (\<lambda>e. \<not> is_terminal (event_status e)) (butlast es)" using steps
  proof (induction es rule: induct_list012)
    case (3 e e' es)
    then have "status_step (event_status e) (event_status e')" by simp
    then have "\<not> is_terminal (event_status e)"
      by (auto simp: status_step_def terminal_transitions)
    with 3 show ?case by simp
  qed simp_all
  ultimately show ?thesis by simp
qed

theorem history_terminal_last_witness:
  "\<exists>es. list_all (\<lambda>e. \<not> is_terminal (event_status e)) (butlast es) \<and>
    \<not> is_terminal (event_status (last es))"
  using history_terminal_last [OF sample_history] sample_statuses(2) is_terminal_simps(2) by metis

subsection \<open>The operations\<close>

text \<open>C6: the outcome of every operation on a well-formed run at a UTC time, error branches
  included, is that of the reference description. Out of its status an operation fails with the stable
  illegal-transition code (except \<open>start\<close> on a waiting run, which raises \<open>ValueError\<close>). In its status it
  moves to its target with its event, payload, usage and result; \<open>fail\<close> with another error code than \<open>failed\<close>
  raises \<open>ValueError\<close>; a known charge is a replay or a conflict; a new one raises \<open>ValueError\<close> when its numbers
  have more than 4300 digits, ends the run at the deadline or else at the first limit that the sums exceed,
  and else is added to the usage. What succeeds keeps the run well formed and extends its log.\<close>
theorem run_operate_outcome:
  assumes "run_ok r" and "is_utc ts" and "operation_ok op"
  shows "(if enabled op (r_status r)
    then operation_outcome r op (datetime_max (r_last_observed_at r) ts) eid (run_operate r op ts eid)
    else run_operate r op ts eid =
      Inl (if op = OpStart \<and> r_status r \<in> {WaitingApproval, WaitingResolution} then ValueError
           else RunLifecycleError RunIllegalTransition)) \<and>
    (\<forall>m. run_operate r op ts eid = Inr m \<longrightarrow> run_ok (mut_run m) \<and> extends r m)"
  using operate_outcome [OF assms] operate_disabled [OF assms(1,3)] operate_extends [OF assms] by simp

theorem run_operate_outcome_witness:
  "run_operate sample_waiting (OpSucceed empty_draft) (Utc (seconds 3)) (EventId ''e3'') =
     Inl (RunLifecycleError RunIllegalTransition) \<and>
   run_operate sample_running (OpFail empty_draft (cancel_error None)) (Utc (seconds 3)) (EventId ''e3'') =
     Inl ValueError \<and>
   r_status (mut_run (projr (run_operate sample_running (OpWaitForResolution (ReferenceId ''ref-1''))
     (Utc (seconds 3)) (EventId ''e3'')))) = WaitingResolution"
proof -
  have error: "safe_run_error_ok (cancel_error None)" by (simp add: safe_run_error_ok_def cancel_error_def)
  have ref: "operation_ok (OpWaitForResolution (ReferenceId ''ref-1''))" by simp code_simp
  from run_operate_outcome [OF sample_waiting_ok, of "Utc (seconds 3)" "OpSucceed empty_draft" "EventId ''e3''"]
    run_operate_outcome [OF sample_running_ok, of "Utc (seconds 3)" "OpFail empty_draft (cancel_error None)" "EventId ''e3''"]
    run_operate_outcome [OF sample_running_ok _ ref, of "Utc (seconds 3)" "EventId ''e3''"] error
  show ?thesis by (simp add: cancel_error_def)
qed

text \<open>\<open>start\<close> has no guard on the status. On a run that waits for an approval or a resolution
  the transition table lets it pass, and the constructor of its event raises \<open>ValueError\<close>,
  where every other operation out of its status raises the illegal-transition error.\<close>
theorem start_on_waiting_run:
  assumes "run_ok r" and "r_status r \<in> {WaitingApproval, WaitingResolution}"
  shows "assert_transition r Running = Inr () \<and> run_start r ts eid = Inl ValueError \<and>
    run_start r ts eid \<noteq> Inl (RunLifecycleError RunIllegalTransition)"
  using run_start_waiting [OF assms] assms(2) by (auto simp: assert_transition_def)

theorem start_on_waiting_run_witness:
  "run_start sample_waiting (Utc (seconds 3)) (EventId ''e3'') = Inl ValueError"
  using start_on_waiting_run [OF sample_waiting_ok] by simp

text \<open>a terminal run is absorbing. Every operation on it fails with the illegal-transition
  error, except the enforcement of the deadline, which returns the same run and no event.\<close>
theorem terminal_run_absorbing:
  assumes "run_ok r" and "is_terminal (r_status r)" and "operation_ok op"
  shows "run_operate r op ts eid =
    (if op = OpEnforceDeadline then Inr \<lparr>mut_run = r, mut_events = []\<rparr>
     else Inl (RunLifecycleError RunIllegalTransition))"
proof (cases "op = OpEnforceDeadline")
  case False
  then have "\<not> enabled op (r_status r)" using assms(2) by (cases op) auto
  with operate_disabled [OF assms(1,3)] False assms(2) show ?thesis by auto
qed (use assms in \<open>simp add: run_enforce_deadline_def\<close>)

theorem terminal_run_absorbing_witness:
  "run_operate sample_cancelled OpResume (Utc (seconds 3)) (EventId ''e3'') =
     Inl (RunLifecycleError RunIllegalTransition)"
  using terminal_run_absorbing [OF sample_cancelled_ok, of OpResume] by simp

text \<open>C8: the deadline is hard and has precedence over every other limit. A charge or an enforcement
  that is observed at or after the deadline, and is not the replay of an accepted charge, ends
  the run with the limit error of the deadline, whatever the charge asks for, and the usage
  stays what it was; before the deadline the enforcement changes nothing.\<close>
theorem deadline_is_hard:
  assumes r: "run_ok r" and ts: "is_utc ts"
    and eff: "eff = datetime_max (r_last_observed_at r) ts"
    and c: "budget_charge_ok c"
    and fresh: "map_of (use_fingerprints (r_usage r)) (chg_charge_id c) = None"
    and d: "budget_apply (r_usage r) c (r_budget r) = Inr d"
  shows "if instant (bud_deadline_at (r_budget r)) \<le> instant eff
    then (r_status r = Running \<longrightarrow>
           run_consume_budget r c ts eid = Inr (limit_advance r DimDeadline eff eid)) \<and>
         (\<not> is_terminal (r_status r) \<longrightarrow>
           run_enforce_deadline r ts eid = Inr (limit_advance r DimDeadline eff eid))
    else run_enforce_deadline r ts eid = Inr \<lparr>mut_run = r, mut_events = []\<rparr>"
proof -
  have "\<not> decided_replayed d"
    using d fresh by (cases rule: budget_apply_cases) simp_all
  then show ?thesis
    using run_consume_budget_eq [OF r ts _ c eff, of eid] run_enforce_deadline_eq [OF r ts eff, of eid] d
    by (simp add: not_less)
qed

theorem deadline_is_hard_witness:
  "run_consume_budget sample_running sample_charge (Utc (seconds 1000)) (EventId ''e3'') =
     Inr (limit_advance sample_running DimDeadline (Utc (seconds 1000)) (EventId ''e3''))"
proof -
  have run: "r_usage sample_running = empty_snapshot" "r_budget sample_running = sample_budget"
    "Utc (seconds 1000) = datetime_max (r_last_observed_at sample_running) (Utc (seconds 1000))"
    by (simp_all add: sample_running_def sample_created_def created_run_def datetime_max_def)
  from sample_charge_accepted obtain d
    where d: "budget_apply empty_snapshot sample_charge sample_budget = Inr d" by blast
  show ?thesis
    using deadline_is_hard [OF sample_running_ok _ run(3) sample_charge_ok, of d] d
    by (simp add: run) (simp add: empty_snapshot_def sample_budget_def)
qed

text \<open>C7: charges are idempotent. At any later point of its history, a running run that has accepted a
  charge answers it again, at any time and with any event id, with the same run and no event; a
  different charge under the same charge id is refused with the idempotency conflict, and a charge whose
  numbers do not print with the \<open>ValueError\<close> of its fingerprint.\<close>
theorem charge_replay_idempotent:
  assumes "history r es cs" and "c \<in> set cs" and "r_status r = Running"
    and "chg_charge_id c' = chg_charge_id c"
  shows "run_consume_budget r c' ts eid =
    (case charge_fingerprint c' of
       Inl x \<Rightarrow> Inl x
     | Inr f \<Rightarrow> if charge_fingerprint c = Inr f then Inr \<lparr>mut_run = r, mut_events = []\<rparr>
         else Inl (RunLifecycleError RunIdempotencyConflict))"
proof -
  have ledger: "ledger_matches (r_usage r) cs" and snap: "budget_snapshot_ok (r_usage r)"
    using history_invariant [OF assms(1)] by (simp_all add: run_ok_def)
  then obtain f where f: "charge_fingerprint c = Inr f"
      "map_of (use_fingerprints (r_usage r)) (chg_charge_id c) = Some f"
    using ledger_fingerprint [OF _ _ assms(2)] by (auto simp: budget_snapshot_ok_def)
  show ?thesis
    using f assms(3,4) by (cases "charge_fingerprint c'") (auto simp: run_consume_budget_def budget_apply_def)
qed

theorem charge_replay_idempotent_witness:
  "\<exists>r es. history r es [sample_charge] \<and> length es = 5 \<and>
     run_consume_budget r sample_charge (Utc (seconds 9)) (EventId ''e9'') = Inr \<lparr>mut_run = r, mut_events = []\<rparr>"
proof -
  obtain r es where h: "history r es [sample_charge]" "r_status r = Running" "length es = 5"
    using sample_resumed_history by blast
  from sample_charge_accepted obtain f where "charge_fingerprint sample_charge = Inr f" by blast
  with charge_replay_idempotent [OF h(1) _ h(2), of sample_charge sample_charge] h show ?thesis
    by (intro exI [of _ r] exI [of _ es]) simp
qed

subsection \<open>Events and decimals\<close>

text \<open>Events survive the thawing of their payload. Every event the constructor accepts satisfies
  its schema and, rebuilt from the mutable copy that \<open>thaw_event_payload\<close> hands to the
  adapters, is accepted again and is the same event.\<close>
theorem event_thaw_roundtrip:
  assumes "new_run_event eid tid rid seq t ts pv raw = Inr e"
  shows "run_event_ok e \<and>
    new_run_event eid tid rid seq t ts pv (thaw_event_payload (ev_payload e)) = Inr e"
proof -
  have ok: "run_event_ok e" by (rule new_run_event_ok [OF assms])
  have "ev_event_id e = eid \<and> ev_tenant_id e = tid \<and> ev_run_id e = rid \<and> ev_sequence e = seq \<and>
      ev_type e = t \<and> ev_occurred_at e = ts \<and> ev_payload_version e = pv"
    using assms by (auto elim: new_run_event_Inr)
  with ok run_event_rebuild [OF ok] show ?thesis by simp
qed

theorem event_thaw_roundtrip_witness:
  "run_event_ok (projr (new_run_event (EventId ''e1'') sample_tenant sample_run_id 1 RunCreated
     (Utc 0) 1 (py_dict [(''agent_version_id'', PStr ''v1''), (''run_version'', PInt 1),
         (''status'', PStr ''queued'')])))"
proof -
  have "\<not> isl (new_run_event (EventId ''e1'') sample_tenant sample_run_id 1 RunCreated
     (Utc 0) 1 (py_dict [(''agent_version_id'', PStr ''v1''), (''run_version'', PInt 1),
         (''status'', PStr ''queued'')]))"
    by code_simp
  then obtain e where "new_run_event (EventId ''e1'') sample_tenant sample_run_id 1 RunCreated
     (Utc 0) 1 (py_dict [(''agent_version_id'', PStr ''v1''), (''run_version'', PInt 1),
         (''status'', PStr ''queued'')]) = Inr e"
    by (metis sum.collapse(2))
  with event_thaw_roundtrip [OF this] show ?thesis by simp
qed

text \<open>C9: the canonical text of a cost is canonical. It exists for every normalised cost, matches the
  pattern the events and the codecs demand, reads back as the same number, and two costs have
  the same text exactly when they are the same number, so fingerprints do not depend on the exponent a
  caller chose.\<close>
theorem canonical_decimal_canonical:
  assumes "dec_normal a" and "dec_normal b"
  shows "(\<exists>s. canonical_decimal a = Inr s \<and> decimal_pattern s \<and>
      dec_value (decimal_of_text s) = dec_value a) \<and>
    (canonical_decimal a = canonical_decimal b \<longleftrightarrow> dec_value a = dec_value b)"
  using canonical_decimal_ok [OF assms(1)] canonical_decimal_eq_iff [OF assms] by simp

theorem canonical_decimal_canonical_witness:
  "canonical_decimal (Fin False 250 (- 2)) = canonical_decimal (Fin False 25 (- 1))"
  using canonical_decimal_canonical [of "Fin False 250 (- 2)" "Fin False 25 (- 1)"]
  by (simp add: power_int_def power2_eq_square)

text \<open>the addition of costs is exact, or raises. With the interpreter's limit of 4300 digits, the
  sum of two normalised costs is their exact sum when both coefficients and the aligned sum have at most 4300
  digits, and \<open>ValueError\<close> otherwise, however small the numbers of digits the caller wrote.\<close>
theorem exact_decimal_add_exact_or_raises:
  assumes "dec_normal (Fin s1 c1 e1)" and "dec_normal (Fin s2 c2 e2)"
  shows "exact_decimal_add (Fin s1 c1 e1) (Fin s2 c2 e2) = Inl ValueError \<and>
      (int_max_str_digits < length (nat_digits c1) \<or> int_max_str_digits < length (nat_digits c2) \<or>
       int_max_str_digits < length (nat_digits (aligned_sum c1 e1 c2 e2))) \<or>
    (\<exists>c. exact_decimal_add (Fin s1 c1 e1) (Fin s2 c2 e2) = Inr c \<and> is_finite c \<and>
      dec_value c = dec_value (Fin s1 c1 e1) + dec_value (Fin s2 c2 e2))"
proof (cases "exact_decimal_add (Fin s1 c1 e1) (Fin s2 c2 e2)")
  case (Inl x)
  then show ?thesis by (auto simp: exact_decimal_add_eq split: if_splits)
next
  case (Inr c)
  with exact_decimal_add_value [OF assms Inr] show ?thesis by blast
qed

theorem exact_decimal_add_exact_or_raises_witness:
  "\<exists>c. exact_decimal_add (Fin False 5 (- 1)) (Fin False 25 (- 2)) = Inr c \<and> is_finite c \<and>
     dec_value c = 3 / 4"
proof -
  have "exact_decimal_add (Fin False 5 (- 1)) (Fin False 25 (- 2)) \<noteq> Inl ValueError"
    by code_simp
  with exact_decimal_add_exact_or_raises [of False 5 "- 1" False 25 "- 2"] show ?thesis
    by (auto simp: power_int_def power2_eq_square)
qed

end
