(* ===== verification/Run_Commands.thy ===== *)
theory Run_Commands
  imports Run_Lifecycle_Props
begin

section \<open>Commands of the run life cycle\<close>

text \<open>
  \<open>src/zhiyi/application/commands/run_lifecycle.py\<close>: the canonical form of a command's intent,
  its fingerprint, and the commands. A command on an existing run is an envelope with one
  operation of the aggregate (\<open>run_operation\<close>), one constructor per command class; the checks
  that a field has its declared class are the types of the model.
\<close>

subsection \<open>Canonical values\<close>

text \<open>The Python values a command's intent is made of.\<close>

datatype intent_value =
    IvNone
  | IvBool bool
  | IvInt int
  | IvStr string
  | IvDecimal decimal
  | IvDatetime datetime
  | IvEnum string
  | IvTenantId tenant_id
  | IvRunId run_id
  | IvTaskId task_id
  | IvReferenceId reference_id
  | IvCorrelationId correlation_id
  | IvAgentVersion agent_version_ref
  | IvBudget run_budget
  | IvCharge budget_charge
  | IvDraft run_result_draft
  | IvError safe_run_error
  | IvTuple "intent_value list"
  | IvDict "(intent_value \<times> intent_value) list"
  | IvOther

definition json_optional :: "('a \<Rightarrow> string) \<Rightarrow> 'a option \<Rightarrow> json" where
  "json_optional f x = (case x of None \<Rightarrow> JNull | Some y \<Rightarrow> JStr (f y))"

definition json_strings :: "string list \<Rightarrow> json" where
  "json_strings xs = JArr (map JStr xs)"

definition canonical_agent_version :: "agent_version_ref \<Rightarrow> json" where
  "canonical_agent_version v =
     JObj [(''agent_id'', JStr (agent_id_value (avr_agent_id v))),
           (''build_digest'', JStr (avr_build_digest v)),
           (''tenant_id'', JStr (tenant_id_value (avr_tenant_id v))),
           (''version_id'', JStr (agent_version_id_value (avr_version_id v)))]"

definition canonical_budget :: "run_budget \<Rightarrow> exn + json" where
  "canonical_budget b =
     result_bind (canonical_decimal (bud_max_cost b)) (\<lambda>cost.
       Inr (JObj [(''currency'', JStr (bud_currency b)),
                  (''deadline_at'', JStr (isoformat (bud_deadline_at b))),
                  (''max_cost'', JStr cost),
                  (''max_input_tokens'', JInt (bud_max_input_tokens b)),
                  (''max_model_calls'', JInt (bud_max_model_calls b)),
                  (''max_output_tokens'', JInt (bud_max_output_tokens b)),
                  (''max_steps'', JInt (bud_max_steps b)),
                  (''max_tool_calls'', JInt (bud_max_tool_calls b)),
                  (''max_total_tokens'', JInt (bud_max_total_tokens b))]))"

definition canonical_draft :: "run_result_draft \<Rightarrow> json" where
  "canonical_draft d =
     JObj [(''answer'', json_optional id (dr_answer d)),
           (''approval_ids'', json_strings (map reference_id_value (dr_approval_ids d))),
           (''artifact_ids'', json_strings (map reference_id_value (dr_artifact_ids d))),
           (''citation_ids'', json_strings (map reference_id_value (dr_citation_ids d))),
           (''correlation_id'', json_optional correlation_id_value (dr_correlation_id d)),
           (''warning_codes'', json_strings (dr_warning_codes d))]"

definition canonical_error :: "safe_run_error \<Rightarrow> json" where
  "canonical_error e =
     JObj [(''code'', JStr (run_error_code_value (err_code e))),
           (''correlation_id'', json_optional correlation_id_value (err_correlation_id e)),
           (''limit_dimension'', json_optional budget_dimension_value (err_limit_dimension e))]"

fun is_str_key :: "intent_value \<times> 'a \<Rightarrow> bool" where
  "is_str_key (IvStr k, v) = True"
| "is_str_key (_, v) = False"

fun str_key :: "intent_value \<times> 'a \<Rightarrow> string" where
  "str_key (IvStr k, v) = k"
| "str_key (_, v) = []"

function (sequential) canonicalize :: "intent_value \<Rightarrow> exn + json" where
  "canonicalize IvNone = Inr JNull"
| "canonicalize (IvBool b) = Inr (JBool b)"
| "canonicalize (IvInt i) = Inr (JInt i)"
| "canonicalize (IvStr s) = Inr (JStr s)"
| "canonicalize (IvDecimal d) = result_bind (canonical_decimal d) (\<lambda>s. Inr (JStr s))"
| "canonicalize (IvDatetime t) = Inr (JStr (isoformat t))"
| "canonicalize (IvEnum s) = Inr (JStr s)"
| "canonicalize (IvTenantId i) = Inr (JStr (tenant_id_value i))"
| "canonicalize (IvRunId i) = Inr (JStr (run_id_value i))"
| "canonicalize (IvTaskId i) = Inr (JStr (task_id_value i))"
| "canonicalize (IvReferenceId i) = Inr (JStr (reference_id_value i))"
| "canonicalize (IvCorrelationId i) = Inr (JStr (correlation_id_value i))"
| "canonicalize (IvAgentVersion v) = Inr (canonical_agent_version v)"
| "canonicalize (IvBudget b) = canonical_budget b"
| "canonicalize (IvCharge c) =
     result_bind (canonical_decimal (chg_cost c)) (\<lambda>cost. Inr (charge_body c cost))"
| "canonicalize (IvDraft d) = Inr (canonical_draft d)"
| "canonicalize (IvError e) = Inr (canonical_error e)"
| "canonicalize (IvTuple vs) =
     result_bind (traverse canonicalize vs) (\<lambda>js. Inr (JArr js))"
| "canonicalize (IvDict kvs) =
     (if \<not> list_all is_str_key kvs then Inl TypeError
      else result_bind (traverse (\<lambda>kv. canonicalize (snd kv)) kvs) (\<lambda>js.
        Inr (JObj (zip (map str_key kvs) js))))"
| "canonicalize IvOther = Inl TypeError"
  by pat_completeness auto
termination
proof (relation "measure size", goal_cases)
  case 1
  show ?case by simp
next
  case (2 vs v)
  then show ?case using size_list_estimation' [of v vs "size v" size] by simp
next
  case (3 kvs kv)
  have small: "size (snd kv) < size_prod size size kv"
    by (simp add: prod.size_gen(1) [of size size "fst kv" "snd kv", simplified])
  from 3 have "kv \<in> set kvs" by simp
  then have "size_prod size size kv \<le> size_list (size_prod size size) kvs"
    by (rule size_list_estimation') simp
  with small show ?case by simp
qed

definition intent_dict :: "(string \<times> intent_value) list \<Rightarrow> intent_value" where
  "intent_dict kvs = IvDict (map (\<lambda>kv. (IvStr (fst kv), snd kv)) kvs)"

definition intent_fingerprint :: "(string \<times> intent_value) list \<Rightarrow> exn + string" where
  "intent_fingerprint body = result_bind (canonicalize (intent_dict body)) fingerprint_json"

subsection \<open>The commands\<close>

definition validate_envelope :: "int \<Rightarrow> exn + unit" where
  "validate_envelope expected_version =
     (if expected_version < 0 then Inl ValueError else Inr ())"

record create_run_command =
  crc_tenant_id :: tenant_id
  crc_command_id :: command_id
  crc_task_id :: task_id
  crc_agent_version :: agent_version_ref
  crc_budget :: run_budget
  crc_correlation_id :: "correlation_id option"

definition create_run_command_post_init :: "create_run_command \<Rightarrow> exn + create_run_command" where
  "create_run_command_post_init c =
     result_bind (validate_envelope 0) (\<lambda>_.
       if avr_tenant_id (crc_agent_version c) \<noteq> crc_tenant_id c then Inl ValueError else Inr c)"

definition create_command_type :: string where
  "create_command_type = ''create_run''"

definition create_command_fingerprint :: "create_run_command \<Rightarrow> exn + string" where
  "create_command_fingerprint c =
     intent_fingerprint
       [(''agent_version'', IvAgentVersion (crc_agent_version c)),
        (''budget'', IvBudget (crc_budget c)),
        (''command_type'', IvStr create_command_type),
        (''task_id'', IvTaskId (crc_task_id c)),
        (''tenant_id'', IvTenantId (crc_tenant_id c))]"

record existing_run_command =
  cmd_tenant_id :: tenant_id
  cmd_command_id :: command_id
  cmd_run_id :: run_id
  cmd_expected_version :: int
  cmd_operation :: run_operation

definition existing_command_post_init :: "existing_run_command \<Rightarrow> exn + existing_run_command" where
  "existing_command_post_init c =
     result_bind (validate_envelope (cmd_expected_version c)) (\<lambda>_. Inr c)"

fun command_type :: "run_operation \<Rightarrow> string" where
  "command_type OpStart = ''start_run''"
| "command_type (OpWaitForApproval ref) = ''wait_for_approval''"
| "command_type (OpWaitForResolution ref) = ''wait_for_resolution''"
| "command_type OpResume = ''resume_run''"
| "command_type (OpCancel c) = ''cancel_run''"
| "command_type (OpConsumeBudget c) = ''consume_budget''"
| "command_type (OpSucceed d) = ''succeed_run''"
| "command_type (OpFail d e) = ''fail_run''"
| "command_type OpEnforceDeadline = ''enforce_deadline''"

fun target_status :: "run_operation \<Rightarrow> run_status option" where
  "target_status OpStart = Some Running"
| "target_status (OpWaitForApproval ref) = Some WaitingApproval"
| "target_status (OpWaitForResolution ref) = Some WaitingResolution"
| "target_status OpResume = Some Running"
| "target_status (OpCancel c) = Some Cancelled"
| "target_status (OpConsumeBudget c) = None"
| "target_status (OpSucceed d) = Some Succeeded"
| "target_status (OpFail d e) = Some Failed"
| "target_status OpEnforceDeadline = Some LimitExceeded"

fun business_payload :: "run_operation \<Rightarrow> (string \<times> intent_value) list" where
  "business_payload (OpWaitForApproval ref) = [(''reference_id'', IvReferenceId ref)]"
| "business_payload (OpWaitForResolution ref) = [(''reference_id'', IvReferenceId ref)]"
| "business_payload (OpConsumeBudget c) = [(''charge'', IvCharge c)]"
| "business_payload (OpSucceed d) = [(''result'', IvDraft d)]"
| "business_payload (OpFail d e) = [(''error'', IvError e), (''result'', IvDraft d)]"
| "business_payload _ = []"

definition command_fingerprint :: "existing_run_command \<Rightarrow> exn + string" where
  "command_fingerprint c =
     intent_fingerprint
       [(''command_type'', IvStr (command_type (cmd_operation c))),
        (''payload'', intent_dict (business_payload (cmd_operation c))),
        (''run_id'', IvRunId (cmd_run_id c)),
        (''tenant_id'', IvTenantId (cmd_tenant_id c))]"

subsection \<open>Fingerprints\<close>

lemma intent_fingerprint_pattern: "intent_fingerprint body = Inr f \<Longrightarrow> digest_pattern f"
  by (auto simp: intent_fingerprint_def result_bind_eq_Inr dest: fingerprint_json_pattern)

lemma command_fingerprint_pattern: "command_fingerprint c = Inr f \<Longrightarrow> digest_pattern f"
  by (auto simp: command_fingerprint_def dest: intent_fingerprint_pattern)

lemma create_command_fingerprint_pattern:
  "create_command_fingerprint c = Inr f \<Longrightarrow> digest_pattern f"
  by (auto simp: create_command_fingerprint_def dest: intent_fingerprint_pattern)

text \<open>
  The fingerprint exists when the numbers of the command print; everything else in an intent
  is text. Charges carry the only unbounded numbers of a command on an existing run.
\<close>

lemma json_printable_texts [simp]:
  "json_printable (json_optional f x)" "json_printable (json_strings xs)"
  by (auto simp: json_optional_def json_strings_def list_all_iff split: option.splits)

lemma canonicalize_intent_dict:
  "canonicalize (intent_dict kvs) =
     result_bind (traverse (\<lambda>kv. canonicalize (snd kv)) kvs) (\<lambda>js. Inr (JObj (zip (map fst kvs) js)))"
proof -
  have "list_all is_str_key (map (\<lambda>kv. (IvStr (fst kv), snd kv)) kvs)"
    by (simp add: list_all_iff)
  moreover have "traverse (\<lambda>kv. canonicalize (snd kv)) (map (\<lambda>kv. (IvStr (fst kv), snd kv)) kvs) =
      traverse (\<lambda>kv. canonicalize (snd kv)) kvs"
    by (simp only: traverse_map) (rule traverse_cong, simp_all)
  moreover have "str_key \<circ> (\<lambda>kv :: string \<times> intent_value. (IvStr (fst kv), snd kv)) = fst"
    by (simp add: fun_eq_iff)
  ultimately show ?thesis by (simp add: intent_dict_def)
qed

lemma command_fingerprint_total:
  assumes "operation_ok (cmd_operation c)"
    and "\<And>charge. cmd_operation c = OpConsumeBudget charge \<Longrightarrow> charge_printable charge"
  shows "\<exists>f. command_fingerprint c = Inr f \<and> digest_pattern f"
proof -
  have "\<exists>j. canonicalize (intent_dict (business_payload (cmd_operation c))) = Inr j \<and>
      json_printable j"
  proof (cases "cmd_operation c")
    case (OpConsumeBudget charge)
    with assms have ok: "budget_charge_ok charge" "charge_printable charge" by simp_all
    then obtain cost where "canonical_decimal (chg_cost charge) = Inr cost"
      using canonical_decimal_ok by (fastforce simp: budget_charge_ok_def)
    with OpConsumeBudget ok show ?thesis
      by (simp add: canonicalize_intent_dict charge_body_def charge_printable_def)
  qed (simp_all add: canonicalize_intent_dict canonical_draft_def canonical_error_def)
  then obtain j where j: "canonicalize (intent_dict (business_payload (cmd_operation c))) = Inr j"
    "json_printable j" by blast
  have body: "canonicalize (intent_dict
      [(''command_type'', IvStr (command_type (cmd_operation c))),
       (''payload'', intent_dict (business_payload (cmd_operation c))),
       (''run_id'', IvRunId (cmd_run_id c)), (''tenant_id'', IvTenantId (cmd_tenant_id c))]) =
    Inr (JObj [(''command_type'', JStr (command_type (cmd_operation c))), (''payload'', j),
       (''run_id'', JStr (run_id_value (cmd_run_id c))),
       (''tenant_id'', JStr (tenant_id_value (cmd_tenant_id c)))])"
    by (simp add: canonicalize_intent_dict [of "_ # _"] j(1))
  show ?thesis
    using fingerprint_json_total [of "JObj [(''command_type'', JStr (command_type (cmd_operation c))),
       (''payload'', j), (''run_id'', JStr (run_id_value (cmd_run_id c))),
       (''tenant_id'', JStr (tenant_id_value (cmd_tenant_id c)))]"] j(2) body
    by (simp add: command_fingerprint_def intent_fingerprint_def)
qed

end
