(* ===== verification/Run_Repository.thy ===== *)
theory Run_Repository
  imports Run_Commands
begin

section \<open>The contract of a run repository\<close>

text \<open>
  \<open>src/zhiyi/application/ports/run_repository.py\<close> and \<open>run_repository_validation.py\<close>: receipts and
  outcomes of commands, the validation of a commit candidate that the adapters share, and
  the repository protocol as the record of its four operations over an abstract state. The
  locale \<open>run_repository\<close> states what the application relies on.
\<close>

subsection \<open>Receipts and outcomes\<close>

definition command_types :: "string list" where
  "command_types = [''cancel_run'', ''consume_budget'', ''create_run'', ''enforce_deadline'',
     ''fail_run'', ''resume_run'', ''start_run'', ''succeed_run'', ''wait_for_approval'',
     ''wait_for_resolution'']"

definition fingerprint_pattern :: "string \<Rightarrow> bool" where
  "fingerprint_pattern = digest_pattern"

record command_receipt =
  rc_tenant_id :: tenant_id
  rc_command_id :: command_id
  rc_run_id :: run_id
  rc_command_type :: string
  rc_fingerprint :: string
  rc_status :: run_status
  rc_version :: int
  rc_event_ids :: "event_id list"
  rc_created_at :: datetime

definition command_receipt_post_init :: "command_receipt \<Rightarrow> exn + command_receipt" where
  "command_receipt_post_init r =
     (if rc_command_type r \<notin> set command_types then Inl ValueError
      else if \<not> fingerprint_pattern (rc_fingerprint r) then Inl ValueError
      else if rc_version r < 1 then Inl ValueError
      else if \<not> is_utc (rc_created_at r) then Inl ValueError
      else Inr r)"

record commit_outcome =
  oc_receipt :: command_receipt
  oc_events :: "run_event list"
  oc_replayed :: bool

definition new_commit_outcome ::
    "command_receipt \<Rightarrow> run_event list \<Rightarrow> bool \<Rightarrow> exn + commit_outcome" where
  "new_commit_outcome receipt events replayed =
     (if rc_event_ids receipt \<noteq> map ev_event_id events then Inl ValueError
      else Inr \<lparr>oc_receipt = receipt, oc_events = events, oc_replayed = replayed\<rparr>)"

lemma command_receipt_post_init_Inr [dest]: "command_receipt_post_init r = Inr r' \<Longrightarrow> r' = r"
  by (auto simp: command_receipt_post_init_def split: if_splits)

lemma command_type_known [simp]:
  "command_type op \<in> set command_types" "create_command_type \<in> set command_types"
  by (cases op; simp add: command_types_def) (simp add: command_types_def create_command_type_def)

text \<open>\<open>Run.__eq__\<close>: field by field, decimals by value.\<close>

definition run_result_option_eq :: "run_result option \<Rightarrow> run_result option \<Rightarrow> bool" where
  "run_result_option_eq a b =
     (case a of None \<Rightarrow> b = None
      | Some x \<Rightarrow> (case b of None \<Rightarrow> False | Some y \<Rightarrow> run_result_eq x y))"

definition run_eq :: "run \<Rightarrow> run \<Rightarrow> bool" where
  "run_eq a b \<longleftrightarrow>
     r_tenant_id a = r_tenant_id b \<and> r_run_id a = r_run_id b \<and> r_task_id a = r_task_id b \<and>
     r_agent_version a = r_agent_version b \<and> r_status a = r_status b \<and>
     r_version a = r_version b \<and> run_budget_eq (r_budget a) (r_budget b) \<and>
     budget_snapshot_eq (r_usage a) (r_usage b) \<and> r_created_at a = r_created_at b \<and>
     r_updated_at a = r_updated_at b \<and> r_last_observed_at a = r_last_observed_at b \<and>
     r_next_event_sequence a = r_next_event_sequence b \<and>
     run_result_option_eq (r_result a) (r_result b)"

lemma run_eq_refl [simp]: "run_eq r r"
  by (auto simp: run_eq_def run_result_option_eq_def split: option.splits)

subsection \<open>Validation of a commit candidate\<close>

definition invariant_violation :: exn where
  "invariant_violation = RunLifecycleError RunInvariantViolation"

text \<open>The loop over the new events, with the next expected sequence and the ids seen.\<close>

fun check_new_events ::
    "run \<Rightarrow> event_id set \<Rightarrow> int \<Rightarrow> event_id list \<Rightarrow> run_event list \<Rightarrow> exn + int" where
  "check_new_events r occupied expected seen [] = Inr expected"
| "check_new_events r occupied expected seen (e # es) =
     (if ev_tenant_id e \<noteq> r_tenant_id r \<or> ev_run_id e \<noteq> r_run_id r \<or>
         ev_sequence e \<noteq> expected \<or> ev_event_id e \<in> occupied \<or> ev_event_id e \<in> set seen
      then Inl invariant_violation
      else check_new_events r occupied (expected + 1) (ev_event_id e # seen) es)"

definition validate_commit_candidate ::
    "int \<Rightarrow> run option \<Rightarrow> run \<Rightarrow> run_event list \<Rightarrow> command_receipt \<Rightarrow> event_id set
      \<Rightarrow> exn + unit" where
  "validate_commit_candidate expected_version current updated events receipt occupied =
     (if length events > 1 then Inl invariant_violation
      else if rc_tenant_id receipt \<noteq> r_tenant_id updated \<or> rc_run_id receipt \<noteq> r_run_id updated \<or>
              rc_status receipt \<noteq> r_status updated \<or> rc_version receipt \<noteq> r_version updated \<or>
              rc_event_ids receipt \<noteq> map ev_event_id events then Inl invariant_violation
      else result_bind
        (if expected_version = 0 then
           (if current \<noteq> None \<or> r_version updated \<noteq> 1 \<or> length events \<noteq> 1
            then Inl invariant_violation else Inr 1)
         else (case current of
             None \<Rightarrow> Inl invariant_violation
           | Some c \<Rightarrow> Inr (r_next_event_sequence c))) (\<lambda>expected_sequence.
      result_bind
        (if events = [] then
           (case current of
              None \<Rightarrow> Inl invariant_violation
            | Some c \<Rightarrow> if \<not> run_eq updated c then Inl invariant_violation else Inr ())
         else if r_version updated \<noteq> expected_version + 1 then Inl invariant_violation
         else Inr ()) (\<lambda>_.
      result_bind (check_new_events updated occupied expected_sequence [] events)
        (\<lambda>next_sequence.
          if r_next_event_sequence updated \<noteq> next_sequence then Inl invariant_violation
          else Inr ()))))"

text \<open>The accepted candidates: a creation, a no-op, or one further event.\<close>

definition candidate_ok ::
    "int \<Rightarrow> run option \<Rightarrow> run \<Rightarrow> run_event list \<Rightarrow> command_receipt \<Rightarrow> event_id set \<Rightarrow> bool" where
  "candidate_ok v current updated events receipt occupied \<longleftrightarrow>
     rc_tenant_id receipt = r_tenant_id updated \<and> rc_run_id receipt = r_run_id updated \<and>
     rc_status receipt = r_status updated \<and> rc_version receipt = r_version updated \<and>
     rc_event_ids receipt = map ev_event_id events \<and>
     (case current of
        None \<Rightarrow> v = 0 \<and> r_version updated = 1 \<and> r_next_event_sequence updated = 2 \<and>
          (\<exists>e. events = [e] \<and> ev_sequence e = 1 \<and> ev_tenant_id e = r_tenant_id updated \<and>
             ev_run_id e = r_run_id updated \<and> ev_event_id e \<notin> occupied)
      | Some c \<Rightarrow> v \<noteq> 0 \<and>
          (events = [] \<and> run_eq updated c \<or>
           (\<exists>e. events = [e] \<and> r_version updated = v + 1 \<and>
              ev_sequence e = r_next_event_sequence c \<and>
              r_next_event_sequence updated = r_next_event_sequence c + 1 \<and>
              ev_tenant_id e = r_tenant_id updated \<and> ev_run_id e = r_run_id updated \<and>
              ev_event_id e \<notin> occupied)))"

lemma at_most_one: "\<not> length xs > Suc 0 \<longleftrightarrow> xs = [] \<or> (\<exists>x. xs = [x])"
  by (cases xs) auto

lemma validate_commit_candidate_iff:
  "validate_commit_candidate v current updated events receipt occupied = Inr () \<longleftrightarrow>
     candidate_ok v current updated events receipt occupied"
proof (cases "length events > Suc 0")
  case False
  then consider "events = []" | e where "events = [e]" by (auto simp: at_most_one)
  then show ?thesis
    by cases (auto simp: validate_commit_candidate_def candidate_ok_def invariant_violation_def
        result_bind_eq_Inr run_eq_def split: option.splits if_splits)
qed (auto simp: validate_commit_candidate_def candidate_ok_def split: option.splits)

lemma validate_commit_candidate_Inl:
  "validate_commit_candidate v current updated events receipt occupied = Inl x \<Longrightarrow>
     x = invariant_violation"
  by (cases "length events > Suc 0")
    (auto simp: validate_commit_candidate_def at_most_one result_bind_eq_Inl
      split: option.splits if_splits)

subsection \<open>The protocol\<close>

record 's run_repository_ops =
  repo_load :: "'s \<Rightarrow> tenant_id \<Rightarrow> run_id \<Rightarrow> run option"
  repo_list_events :: "'s \<Rightarrow> tenant_id \<Rightarrow> run_id \<Rightarrow> int \<Rightarrow> int \<Rightarrow> exn + run_event list"
  repo_find_command :: "'s \<Rightarrow> tenant_id \<Rightarrow> command_id \<Rightarrow> string \<Rightarrow> exn + commit_outcome option"
  repo_commit :: "'s \<Rightarrow> int \<Rightarrow> run \<Rightarrow> run_event list \<Rightarrow> command_receipt
    \<Rightarrow> (exn + commit_outcome) \<times> 's"

text \<open>
  What the application relies on. \<open>find\<close> answers a known command with its recorded outcome,
  marked as replayed, and refuses another intent; \<open>commit\<close> is atomic, answers a known command
  without looking at the version, and otherwise arbitrates the version and publishes
  exactly the validated candidate.
\<close>

definition at_version :: "run option \<Rightarrow> int \<Rightarrow> bool" where
  "at_version current v \<longleftrightarrow> (case current of None \<Rightarrow> v = 0 | Some c \<Rightarrow> r_version c = v)"

text \<open>The states a repository goes through under commits of constructed values.\<close>

inductive commits :: "'s run_repository_ops \<Rightarrow> 's \<Rightarrow> 's \<Rightarrow> bool" for ops where
  refl: "commits ops s s"
| step: "\<lbrakk>commits ops s s'; run_ok u; list_all run_event_ok es;
    command_receipt_post_init rc = Inr rc; repo_commit ops s' v u es rc = (res, s'')\<rbrakk> \<Longrightarrow>
    commits ops s s''"

lemma commits_trans: "commits ops s' s'' \<Longrightarrow> commits ops s s' \<Longrightarrow> commits ops s s''"
  by (induction rule: commits.induct) (auto intro: commits.step)

lemma commits_one:
  "run_ok u \<Longrightarrow> list_all run_event_ok es \<Longrightarrow> command_receipt_post_init rc = Inr rc \<Longrightarrow>
     repo_commit ops s v u es rc = (res, s') \<Longrightarrow> commits ops s s'"
  by (rule commits.step [OF commits.refl])

locale run_repository =
  fixes ops :: "'s run_repository_ops" and inv :: "'s \<Rightarrow> bool"
  assumes load_key: "inv s \<Longrightarrow> repo_load ops s t r = Some c \<Longrightarrow>
      run_ok c \<and> r_tenant_id c = t \<and> r_run_id c = r"
    and commit_inv: "inv s \<Longrightarrow> run_ok u \<Longrightarrow> list_all run_event_ok es \<Longrightarrow>
      command_receipt_post_init rc = Inr rc \<Longrightarrow> repo_commit ops s v u es rc = (res, s') \<Longrightarrow> inv s'"
    and commit_error: "repo_commit ops s v u es rc = (Inl x, s') \<Longrightarrow> s' = s"
    and commit_negative: "v < 0 \<Longrightarrow> repo_commit ops s v u es rc = (Inl ValueError, s)"
    and commit_known: "inv s \<Longrightarrow> 0 \<le> v \<Longrightarrow>
      repo_find_command ops s (rc_tenant_id rc) (rc_command_id rc) (rc_fingerprint rc) =
        Inr (Some oc) \<Longrightarrow> repo_commit ops s v u es rc = (Inr oc, s)"
    and commit_conflict: "inv s \<Longrightarrow> 0 \<le> v \<Longrightarrow>
      repo_find_command ops s (rc_tenant_id rc) (rc_command_id rc) (rc_fingerprint rc) = Inl x \<Longrightarrow>
      repo_commit ops s v u es rc = (Inl x, s)"
    and commit_new: "inv s \<Longrightarrow>
      repo_find_command ops s (rc_tenant_id rc) (rc_command_id rc) (rc_fingerprint rc) = Inr None \<Longrightarrow>
      repo_commit ops s v u es rc = (Inr oc, s') \<Longrightarrow>
      oc = \<lparr>oc_receipt = rc, oc_events = es, oc_replayed = False\<rparr> \<and>
      at_version (repo_load ops s (r_tenant_id u) (r_run_id u)) v \<and>
      (\<exists>occupied. candidate_ok v (repo_load ops s (r_tenant_id u) (r_run_id u)) u es rc occupied) \<and>
      repo_load ops s' (r_tenant_id u) (r_run_id u) = Some u"
    and commit_frame: "inv s \<Longrightarrow> repo_commit ops s v u es rc = (res, s') \<Longrightarrow>
      (t, r) \<noteq> (r_tenant_id u, r_run_id u) \<Longrightarrow> repo_load ops s' t r = repo_load ops s t r"
    and find_recorded: "inv s \<Longrightarrow> repo_commit ops s v u es rc = (Inr oc, s') \<Longrightarrow>
      repo_find_command ops s' (rc_tenant_id rc) (rc_command_id rc) (rc_fingerprint rc) =
        Inr (Some (oc\<lparr>oc_replayed := True\<rparr>))"
    and find_stable: "inv s \<Longrightarrow> repo_commit ops s v u es rc = (res, s') \<Longrightarrow>
      repo_find_command ops s t k f = Inr (Some oc) \<Longrightarrow>
      repo_find_command ops s' t k f = Inr (Some oc)"
    and find_replayed: "inv s \<Longrightarrow> repo_find_command ops s t k f = Inr (Some oc) \<Longrightarrow>
      oc_replayed oc \<and> rc_tenant_id (oc_receipt oc) = t \<and> rc_command_id (oc_receipt oc) = k \<and>
      rc_fingerprint (oc_receipt oc) = f"
begin

lemma commits_inv: "commits ops s s' \<Longrightarrow> inv s \<Longrightarrow> inv s'"
  by (induction rule: commits.induct) (auto intro: commit_inv)

lemma commits_find:
  assumes "commits ops s s'" and "inv s" and "repo_find_command ops s t k f = Inr (Some oc)"
  shows "repo_find_command ops s' t k f = Inr (Some oc)"
  using assms
proof (induction rule: commits.induct)
  case (step s s' u es rc v res s'')
  then show ?case using commits_inv find_stable by blast
qed

text \<open>A run's version never goes back, and one version is one snapshot.\<close>

lemma commit_version:
  assumes "inv s" and "repo_commit ops s v u es rc = (res, s')" and "repo_load ops s t r = Some c"
  shows "\<exists>c'. repo_load ops s' t r = Some c' \<and>
    (c' = c \<or> r_version c' = r_version c \<and> run_eq c' c \<and> es = [] \<or> r_version c' = r_version c + 1)"
proof (cases res)
  case (Inl x)
  with assms commit_error show ?thesis by blast
next
  case (Inr oc)
  with assms(2) commit_negative have v: "0 \<le> v" by (metis not_le old.sum.distinct(1) prod.inject)
  show ?thesis
  proof (cases "(t, r) = (r_tenant_id u, r_run_id u)")
    case False
    with assms commit_frame show ?thesis by metis
  next
    case key: True
    show ?thesis
    proof (cases "repo_find_command ops s (rc_tenant_id rc) (rc_command_id rc) (rc_fingerprint rc)")
      case (Inl x)
      with assms v commit_conflict show ?thesis by fastforce
    next
      case find: (Inr found)
      show ?thesis
      proof (cases found)
        case (Some oc')
        with assms v find commit_known show ?thesis by fastforce
      next
        case None
        with commit_new [OF assms(1)] find assms Inr key
        have "at_version (Some c) v" "\<exists>occupied. candidate_ok v (Some c) u es rc occupied"
          "repo_load ops s' t r = Some u" by (metis prod.inject)+
        then show ?thesis by (auto simp: at_version_def candidate_ok_def run_eq_def)
      qed
    qed
  qed
qed

end

end
