(* ===== verification/Memory_Repository.thy ===== *)
theory Memory_Repository
  imports Run_Repository
begin

section \<open>The in-memory repository\<close>

text \<open>
  \<open>src/zhiyi/adapters/persistence/memory_run_repository.py\<close>: the four dictionaries and the
  copy-validate-swap commit. Every method runs without awaiting anything but the lock, so it is
  one step. The callback \<open>before_swap\<close> is an argument: \<open>None\<close> when it returns, \<open>Some x\<close>
  when it raises \<open>x\<close>.
\<close>

type_synonym run_key = "tenant_id \<times> run_id"
type_synonym command_key = "tenant_id \<times> command_id"

record memory_repository =
  mem_runs :: "run_key \<Rightarrow> run option"
  mem_events :: "run_key \<Rightarrow> run_event list option"
  mem_commands :: "command_key \<Rightarrow> commit_outcome option"
  mem_event_ids :: "event_id set"

definition mem_init :: memory_repository where
  "mem_init = \<lparr>mem_runs = Map.empty, mem_events = Map.empty, mem_commands = Map.empty,
     mem_event_ids = {}\<rparr>"

definition mem_load :: "memory_repository \<Rightarrow> tenant_id \<Rightarrow> run_id \<Rightarrow> run option" where
  "mem_load s t r = mem_runs s (t, r)"

definition mem_list_events ::
    "memory_repository \<Rightarrow> tenant_id \<Rightarrow> run_id \<Rightarrow> int \<Rightarrow> int \<Rightarrow> exn + run_event list" where
  "mem_list_events s t r after_sequence limit =
     (if after_sequence < 0 then Inl ValueError
      else if \<not> (1 \<le> limit \<and> limit \<le> 1000) then Inl ValueError
      else (case mem_events s (t, r) of
          None \<Rightarrow> Inl (RunLifecycleError RunNotFound)
        | Some events \<Rightarrow>
            Inr (take (nat limit) (filter (\<lambda>e. ev_sequence e > after_sequence) events))))"

definition mem_find_command ::
    "memory_repository \<Rightarrow> tenant_id \<Rightarrow> command_id \<Rightarrow> string \<Rightarrow> exn + commit_outcome option" where
  "mem_find_command s t k fingerprint =
     (case mem_commands s (t, k) of
        None \<Rightarrow> Inr None
      | Some existing \<Rightarrow>
          if rc_fingerprint (oc_receipt existing) \<noteq> fingerprint
          then Inl (RunLifecycleError RunIdempotencyConflict)
          else result_bind (new_commit_outcome (oc_receipt existing) (oc_events existing) True)
            (\<lambda>oc. Inr (Some oc)))"

text \<open>Published state after a commit, built as copies before the swap.\<close>

definition mem_published ::
    "memory_repository \<Rightarrow> run \<Rightarrow> run_event list \<Rightarrow> command_receipt \<Rightarrow> commit_outcome
      \<Rightarrow> memory_repository" where
  "mem_published s updated events receipt outcome =
     (let run_key = (r_tenant_id updated, r_run_id updated);
          current_events = (case mem_events s run_key of None \<Rightarrow> [] | Some es \<Rightarrow> es) in
      \<lparr>mem_runs = (mem_runs s)(run_key \<mapsto> updated),
       mem_events = (mem_events s)(run_key \<mapsto> current_events @ events),
       mem_commands =
         (mem_commands s)((rc_tenant_id receipt, rc_command_id receipt) \<mapsto> outcome),
       mem_event_ids = mem_event_ids s \<union> set (map ev_event_id events)\<rparr>)"

definition mem_commit ::
    "exn option \<Rightarrow> memory_repository \<Rightarrow> int \<Rightarrow> run \<Rightarrow> run_event list \<Rightarrow> command_receipt
      \<Rightarrow> (exn + commit_outcome) \<times> memory_repository" where
  "mem_commit before_swap s expected_version updated events receipt =
     (if expected_version < 0 then (Inl ValueError, s)
      else (case mem_commands s (rc_tenant_id receipt, rc_command_id receipt) of
        Some existing \<Rightarrow>
          if rc_fingerprint (oc_receipt existing) \<noteq> rc_fingerprint receipt
          then (Inl (RunLifecycleError RunIdempotencyConflict), s)
          else (new_commit_outcome (oc_receipt existing) (oc_events existing) True, s)
      | None \<Rightarrow>
          let current = mem_runs s (r_tenant_id updated, r_run_id updated);
              current_version = (case current of Some c \<Rightarrow> r_version c | None \<Rightarrow> 0) in
          if expected_version \<noteq> current_version
          then (Inl (RunLifecycleError RunVersionConflict), s)
          else (case validate_commit_candidate expected_version current updated events receipt
                  (mem_event_ids s) of
              Inl x \<Rightarrow> (Inl x, s)
            | Inr _ \<Rightarrow>
                (case new_commit_outcome receipt events False of
                   Inl x \<Rightarrow> (Inl x, s)
                 | Inr outcome \<Rightarrow>
                     (case before_swap of
                        Some x \<Rightarrow> (Inl x, s)
                      | None \<Rightarrow> (Inr outcome, mem_published s updated events receipt outcome))))))"

definition memory_ops :: "exn option \<Rightarrow> memory_repository run_repository_ops" where
  "memory_ops before_swap =
     \<lparr>repo_load = mem_load, repo_list_events = mem_list_events,
      repo_find_command = mem_find_command, repo_commit = mem_commit before_swap\<rparr>"

subsection \<open>The invariant\<close>

definition log_ok :: "run \<Rightarrow> run_event list \<Rightarrow> bool" where
  "log_ok r es \<longleftrightarrow>
     run_ok r \<and> map ev_sequence es = [1..r_version r] \<and>
     (\<forall>e \<in> set es. run_event_ok e \<and> ev_tenant_id e = r_tenant_id r \<and> ev_run_id e = r_run_id r)"

definition stored_ok :: "memory_repository \<Rightarrow> run_key \<Rightarrow> bool" where
  "stored_ok s key \<longleftrightarrow>
     (case mem_runs s key of
        None \<Rightarrow> mem_events s key = None
      | Some r \<Rightarrow> (r_tenant_id r, r_run_id r) = key \<and>
          (case mem_events s key of
             None \<Rightarrow> False
           | Some es \<Rightarrow> log_ok r es \<and> distinct (map ev_event_id es) \<and>
               set (map ev_event_id es) \<subseteq> mem_event_ids s))"

text \<open>A recorded outcome is what its command committed, and its events are in the log.\<close>

definition command_ok :: "memory_repository \<Rightarrow> command_key \<Rightarrow> bool" where
  "command_ok s key \<longleftrightarrow>
     (case mem_commands s key of
        None \<Rightarrow> True
      | Some oc \<Rightarrow>
          let rc = oc_receipt oc in
          \<not> oc_replayed oc \<and> (rc_tenant_id rc, rc_command_id rc) = key \<and>
          command_receipt_post_init rc = Inr rc \<and> rc_event_ids rc = map ev_event_id (oc_events oc) \<and>
          (\<exists>r es. mem_runs s (rc_tenant_id rc, rc_run_id rc) = Some r \<and>
             mem_events s (rc_tenant_id rc, rc_run_id rc) = Some es \<and>
             rc_version rc \<le> r_version r \<and> set (oc_events oc) \<subseteq> set es))"

definition ids_unshared :: "memory_repository \<Rightarrow> bool" where
  "ids_unshared s \<longleftrightarrow>
     (\<forall>k1 k2 es1 es2 e1 e2. mem_events s k1 = Some es1 \<longrightarrow> mem_events s k2 = Some es2 \<longrightarrow>
        e1 \<in> set es1 \<longrightarrow> e2 \<in> set es2 \<longrightarrow> ev_event_id e1 = ev_event_id e2 \<longrightarrow> k1 = k2)"

definition mem_ok :: "memory_repository \<Rightarrow> bool" where
  "mem_ok s \<longleftrightarrow> (\<forall>key. stored_ok s key) \<and> (\<forall>key. command_ok s key) \<and> ids_unshared s"

lemma mem_init_ok: "mem_ok mem_init"
  by (simp add: mem_ok_def mem_init_def stored_ok_def command_ok_def ids_unshared_def)

lemma mem_okD:
  assumes "mem_ok s"
  shows "stored_ok s key" "command_ok s ckey" "ids_unshared s"
  using assms unfolding mem_ok_def by blast+

lemma stored_okD:
  assumes "stored_ok s key" and "mem_runs s key = Some r"
  obtains es where "mem_events s key = Some es" "log_ok r es" "distinct (map ev_event_id es)"
    "set (map ev_event_id es) \<subseteq> mem_event_ids s" "(r_tenant_id r, r_run_id r) = key"
  using assms by (auto simp: stored_ok_def split: option.splits)

lemma log_ok_append:
  assumes l: "log_ok c es" and r: "run_ok r" and v: "r_version r = r_version c + 1"
    and key: "r_tenant_id r = r_tenant_id c" "r_run_id r = r_run_id c"
    and e: "run_event_ok e" "ev_sequence e = r_version c + 1" "ev_tenant_id e = r_tenant_id r"
      "ev_run_id e = r_run_id r"
  shows "log_ok r (es @ [e])"
  using assms run_okD(1) [of c] by (auto simp: log_ok_def upto_snoc)

subsection \<open>Commits, case by case\<close>

lemma mem_commit_cases:
  assumes "mem_commit bs s v u es rc = (res, s')"
  obtains (unchanged) "s' = s"
    "(\<exists>x. res = Inl x) \<or>
     (\<exists>oc. mem_commands s (rc_tenant_id rc, rc_command_id rc) = Some oc \<and>
        rc_fingerprint (oc_receipt oc) = rc_fingerprint rc \<and>
        res = new_commit_outcome (oc_receipt oc) (oc_events oc) True)"
  | (published) oc where "mem_commands s (rc_tenant_id rc, rc_command_id rc) = None"
    "at_version (mem_runs s (r_tenant_id u, r_run_id u)) v"
    "candidate_ok v (mem_runs s (r_tenant_id u, r_run_id u)) u es rc (mem_event_ids s)"
    "oc = \<lparr>oc_receipt = rc, oc_events = es, oc_replayed = False\<rparr>" "res = Inr oc"
    "s' = mem_published s u es rc oc" "0 \<le> v" "bs = None"
proof (cases "mem_commands s (rc_tenant_id rc, rc_command_id rc)")
  case (Some oc)
  with assms unchanged show thesis by (auto simp: mem_commit_def split: if_splits)
next
  case None
  show thesis
  proof (cases "\<exists>x. res = Inl x")
    case True
    with assms None have "s' = s"
      by (auto simp: mem_commit_def Let_def split: if_splits sum.splits option.splits)
    with True unchanged show thesis by blast
  next
    case False
    then obtain oc where res: "res = Inr oc" by (cases res) auto
    with assms None have "validate_commit_candidate v (mem_runs s (r_tenant_id u, r_run_id u)) u es
        rc (mem_event_ids s) = Inr ()" and v: "0 \<le> v"
      "v = (case mem_runs s (r_tenant_id u, r_run_id u) of Some c \<Rightarrow> r_version c | None \<Rightarrow> 0)"
      and rest: "new_commit_outcome rc es False = Inr oc" "s' = mem_published s u es rc oc" "bs = None"
      by (auto simp: mem_commit_def Let_def split: if_splits sum.splits option.splits)
    then have cand: "candidate_ok v (mem_runs s (r_tenant_id u, r_run_id u)) u es rc
        (mem_event_ids s)"
      by (simp add: validate_commit_candidate_iff)
    have "at_version (mem_runs s (r_tenant_id u, r_run_id u)) v"
      using v by (auto simp: at_version_def split: option.splits)
    moreover have "oc = \<lparr>oc_receipt = rc, oc_events = es, oc_replayed = False\<rparr>"
      using rest(1) by (auto simp: new_commit_outcome_def split: if_splits)
    ultimately show thesis using published None cand res rest v by blast
  qed
qed

subsection \<open>Commits keep the invariant\<close>

lemma published_simps [simp]:
  "mem_runs (mem_published s u es rc oc) = (mem_runs s)((r_tenant_id u, r_run_id u) \<mapsto> u)"
  "mem_events (mem_published s u es rc oc) = (mem_events s)((r_tenant_id u, r_run_id u) \<mapsto>
     (case mem_events s (r_tenant_id u, r_run_id u) of None \<Rightarrow> [] | Some es' \<Rightarrow> es') @ es)"
  "mem_commands (mem_published s u es rc oc) =
     (mem_commands s)((rc_tenant_id rc, rc_command_id rc) \<mapsto> oc)"
  "mem_event_ids (mem_published s u es rc oc) = mem_event_ids s \<union> set (map ev_event_id es)"
  by (simp_all add: mem_published_def Let_def)

text \<open>The log that a published commit leaves for the run it names.\<close>

definition old_log :: "memory_repository \<Rightarrow> run_key \<Rightarrow> run_event list" where
  "old_log s key = (case mem_events s key of None \<Rightarrow> [] | Some es \<Rightarrow> es)"

lemma candidate_log:
  assumes s: "stored_ok s (r_tenant_id u, r_run_id u)" and u: "run_ok u"
    and es: "list_all run_event_ok es"
    and cand: "candidate_ok v (mem_runs s (r_tenant_id u, r_run_id u)) u es rc (mem_event_ids s)"
    and v: "at_version (mem_runs s (r_tenant_id u, r_run_id u)) v"
  shows "log_ok u (old_log s (r_tenant_id u, r_run_id u) @ es) \<and>
    distinct (map ev_event_id (old_log s (r_tenant_id u, r_run_id u) @ es)) \<and>
    set (map ev_event_id (old_log s (r_tenant_id u, r_run_id u))) \<subseteq> mem_event_ids s \<and>
    set (map ev_event_id es) \<inter> mem_event_ids s = {}"
proof (cases "mem_runs s (r_tenant_id u, r_run_id u)")
  case None
  with s have "mem_events s (r_tenant_id u, r_run_id u) = None" by (simp add: stored_ok_def)
  with None cand es u show ?thesis
    by (auto simp: candidate_ok_def log_ok_def old_log_def)
next
  case (Some c)
  from stored_okD [OF s Some] obtain old where
    old: "mem_events s (r_tenant_id u, r_run_id u) = Some old" "log_ok c old"
      "distinct (map ev_event_id old)" "set (map ev_event_id old) \<subseteq> mem_event_ids s"
      "(r_tenant_id c, r_run_id c) = (r_tenant_id u, r_run_id u)" by metis
  have c: "run_ok c" using old(2) by (simp add: log_ok_def)
  from cand Some consider (same) "es = []" "run_eq u c"
    | (next_) e where "es = [e]" "r_version u = v + 1" "ev_sequence e = r_next_event_sequence c"
      "ev_tenant_id e = r_tenant_id u" "ev_run_id e = r_run_id u" "ev_event_id e \<notin> mem_event_ids s"
    by (auto simp: candidate_ok_def)
  then show ?thesis
  proof cases
    case same
    then have "r_version u = r_version c" by (simp add: run_eq_def)
    with same old u show ?thesis by (auto simp: log_ok_def old_log_def)
  next
    case next_
    have "r_version u = r_version c + 1" using next_ v Some by (simp add: at_version_def)
    moreover have "ev_sequence e = r_version c + 1" using next_ run_okD(5) [OF c] by simp
    moreover have "run_event_ok e" using es next_ by simp
    ultimately have "log_ok u (old @ es)"
      using next_ old by (simp add: log_ok_append [OF old(2) u])
    with next_ old show ?thesis by (auto simp: old_log_def)
  qed
qed

lemma published_stored:
  assumes ok: "mem_ok s" and u: "run_ok u" and es: "list_all run_event_ok es"
    and cand: "candidate_ok v (mem_runs s (r_tenant_id u, r_run_id u)) u es rc (mem_event_ids s)"
    and v: "at_version (mem_runs s (r_tenant_id u, r_run_id u)) v"
  shows "stored_ok (mem_published s u es rc oc) key"
proof (cases "key = (r_tenant_id u, r_run_id u)")
  case True
  have "stored_ok s (r_tenant_id u, r_run_id u)" using ok by (rule mem_okD)
  from candidate_log [OF this u es cand v] True show ?thesis
    by (cases "mem_events s (r_tenant_id u, r_run_id u)") (auto simp: stored_ok_def old_log_def)
next
  case False
  have "stored_ok s key" using ok by (rule mem_okD)
  with False show ?thesis
    by (auto simp: stored_ok_def split: option.splits)
qed

lemma published_ids:
  assumes ok: "mem_ok s" and u: "run_ok u" and es: "list_all run_event_ok es"
    and cand: "candidate_ok v (mem_runs s (r_tenant_id u, r_run_id u)) u es rc (mem_event_ids s)"
    and v: "at_version (mem_runs s (r_tenant_id u, r_run_id u)) v"
  shows "ids_unshared (mem_published s u es rc oc)"
proof -
  let ?key = "(r_tenant_id u, r_run_id u)"
  have stored: "stored_ok s k" for k using ok by (rule mem_okD)
  note log = candidate_log [OF stored u es cand v]
  have known: "ev_event_id e \<in> mem_event_ids s" if "mem_events s k = Some l" "e \<in> set l" for k l e
    using stored [of k] that by (force simp: stored_ok_def split: option.splits)
  have old: "e \<in> set es \<or> (\<exists>l. mem_events s k = Some l \<and> e \<in> set l)"
    if "mem_events (mem_published s u es rc oc) k = Some l'" "e \<in> set l'" for k l' e
    using that by (auto split: if_splits option.splits)
  have new_key: "k = ?key" if "mem_events (mem_published s u es rc oc) k = Some l'" "e \<in> set l'"
      "ev_event_id e \<notin> mem_event_ids s" for k l' e
    using that known by (auto split: if_splits)
  have fresh: "ev_event_id e \<notin> mem_event_ids s" if "e \<in> set es" for e
    using log that by auto
  show ?thesis
    unfolding ids_unshared_def
  proof (intro allI impI)
    fix k1 k2 l1 l2 e1 e2
    assume l: "mem_events (mem_published s u es rc oc) k1 = Some l1"
        "mem_events (mem_published s u es rc oc) k2 = Some l2"
      and e: "e1 \<in> set l1" "e2 \<in> set l2" and eq: "ev_event_id e1 = ev_event_id e2"
    show "k1 = k2"
    proof (cases "ev_event_id e1 \<in> mem_event_ids s")
      case False
      with new_key l e eq show ?thesis by metis
    next
      case True
      with old [OF l(1) e(1)] old [OF l(2) e(2)] fresh eq
      obtain m1 m2 where "mem_events s k1 = Some m1" "e1 \<in> set m1"
        "mem_events s k2 = Some m2" "e2 \<in> set m2" by metis
      with ok eq show ?thesis unfolding mem_ok_def ids_unshared_def by blast
    qed
  qed
qed

lemma published_command:
  assumes ok: "mem_ok s"
    and cand: "candidate_ok v (mem_runs s (r_tenant_id u, r_run_id u)) u es rc (mem_event_ids s)"
    and v: "at_version (mem_runs s (r_tenant_id u, r_run_id u)) v"
    and rc: "command_receipt_post_init rc = Inr rc"
    and oc: "oc = \<lparr>oc_receipt = rc, oc_events = es, oc_replayed = False\<rparr>"
  shows "command_ok (mem_published s u es rc oc) key"
proof (cases "key = (rc_tenant_id rc, rc_command_id rc)")
  case True
  with cand rc oc show ?thesis
    by (auto simp: command_ok_def candidate_ok_def Let_def)
next
  case False
  have version: "r_version c \<le> r_version u" if "mem_runs s (r_tenant_id u, r_run_id u) = Some c" for c
    using that cand v by (auto simp: candidate_ok_def at_version_def run_eq_def)
  have "command_ok s key" using ok by (rule mem_okD)
  with False version show ?thesis
    by (fastforce simp: command_ok_def Let_def split: option.splits)
qed

lemma mem_commit_ok:
  assumes ok: "mem_ok s" and u: "run_ok u" and es: "list_all run_event_ok es"
    and rc: "command_receipt_post_init rc = Inr rc"
    and commit: "mem_commit bs s v u es rc = (res, s')"
  shows "mem_ok s'"
  using commit
proof (cases rule: mem_commit_cases)
  case (published oc)
  then show ?thesis
    using published_stored [OF ok u es published(3,2)] published_ids [OF ok u es published(3,2)]
      published_command [OF ok published(3,2) rc published(4)]
    by (simp add: mem_ok_def)
qed (use ok in simp)

subsection \<open>The contract\<close>

lemma mem_find_Some:
  assumes ok: "mem_ok s"
  shows "mem_find_command s t k f = Inr (Some oc) \<longleftrightarrow>
    (\<exists>oc'. mem_commands s (t, k) = Some oc' \<and> rc_fingerprint (oc_receipt oc') = f \<and>
      oc = oc'\<lparr>oc_replayed := True\<rparr>)"
proof (cases "mem_commands s (t, k)")
  case (Some oc')
  have "command_ok s (t, k)" using ok by (rule mem_okD)
  with Some show ?thesis
    by (cases oc') (auto simp: mem_find_command_def command_ok_def Let_def new_commit_outcome_def)
qed (simp add: mem_find_command_def)

lemma mem_find_None: "mem_find_command s t k f = Inr None \<longleftrightarrow> mem_commands s (t, k) = None"
  by (auto simp: mem_find_command_def result_bind_eq_Inr split: option.splits if_splits)

lemma mem_find_Inl:
  assumes "mem_ok s"
  shows "mem_find_command s t k f = Inl x \<longleftrightarrow>
    (\<exists>oc'. mem_commands s (t, k) = Some oc' \<and> rc_fingerprint (oc_receipt oc') \<noteq> f \<and>
      x = RunLifecycleError RunIdempotencyConflict)"
proof (cases "mem_commands s (t, k)")
  case (Some oc')
  have "command_ok s (t, k)" using assms by (rule mem_okD)
  with Some show ?thesis
    by (auto simp: mem_find_command_def command_ok_def Let_def new_commit_outcome_def)
qed (simp add: mem_find_command_def)

lemma memory_ops_simps [simp]:
  "repo_load (memory_ops bs) = mem_load"
  "repo_list_events (memory_ops bs) = mem_list_events"
  "repo_find_command (memory_ops bs) = mem_find_command"
  "repo_commit (memory_ops bs) = mem_commit bs"
  by (simp_all add: memory_ops_def)

lemma mem_commit_known:
  assumes "mem_ok s" and "0 \<le> v"
    and "mem_find_command s (rc_tenant_id rc) (rc_command_id rc) (rc_fingerprint rc) = Inr (Some oc)"
  shows "mem_commit bs s v u es rc = (Inr oc, s)"
proof -
  from assms(3) obtain oc' where oc': "mem_commands s (rc_tenant_id rc, rc_command_id rc) = Some oc'"
      "rc_fingerprint (oc_receipt oc') = rc_fingerprint rc" "oc = oc'\<lparr>oc_replayed := True\<rparr>"
    using mem_find_Some [OF assms(1)] by blast
  then have "command_ok s (rc_tenant_id rc, rc_command_id rc)" using assms(1) by (intro mem_okD)
  with oc' assms(2) show ?thesis
    by (cases oc') (simp add: mem_commit_def command_ok_def Let_def new_commit_outcome_def)
qed

lemma mem_commit_error: "mem_commit bs s v u es rc = (Inl x, s') \<Longrightarrow> s' = s"
  by (auto simp: mem_commit_def Let_def split: if_splits option.splits sum.splits)

lemma mem_commit_new:
  assumes "mem_find_command s (rc_tenant_id rc) (rc_command_id rc) (rc_fingerprint rc) = Inr None"
    and "mem_commit bs s v u es rc = (Inr oc, s')"
  shows "oc = \<lparr>oc_receipt = rc, oc_events = es, oc_replayed = False\<rparr> \<and>
      at_version (mem_load s (r_tenant_id u) (r_run_id u)) v \<and>
      (\<exists>occupied. candidate_ok v (mem_load s (r_tenant_id u) (r_run_id u)) u es rc occupied) \<and>
      mem_load s' (r_tenant_id u) (r_run_id u) = Some u"
  using assms(2)
proof (cases rule: mem_commit_cases)
  case unchanged
  with assms show ?thesis by (simp add: mem_find_None)
next
  case (published oc')
  then show ?thesis by (auto simp: mem_load_def)
qed

lemma mem_commit_frame:
  "mem_commit bs s v u es rc = (res, s') \<Longrightarrow> (t, r) \<noteq> (r_tenant_id u, r_run_id u) \<Longrightarrow>
     mem_load s' t r = mem_load s t r"
  by (elim mem_commit_cases) (auto simp: mem_load_def)

lemma mem_find_recorded:
  assumes "mem_ok s" and "mem_commit bs s v u es rc = (Inr oc, s')"
  shows "mem_find_command s' (rc_tenant_id rc) (rc_command_id rc) (rc_fingerprint rc) =
    Inr (Some (oc\<lparr>oc_replayed := True\<rparr>))"
  using assms(2)
proof (cases rule: mem_commit_cases)
  case unchanged
  then obtain oc' where oc': "mem_commands s (rc_tenant_id rc, rc_command_id rc) = Some oc'"
      "rc_fingerprint (oc_receipt oc') = rc_fingerprint rc"
      "Inr oc = new_commit_outcome (oc_receipt oc') (oc_events oc') True" by blast
  then have "oc = oc'\<lparr>oc_replayed := True\<rparr>"
    by (cases oc') (auto simp: new_commit_outcome_def split: if_splits)
  with oc' unchanged(1) mem_find_Some [OF assms(1)] show ?thesis by simp
next
  case (published oc')
  then have "rc_event_ids rc = map ev_event_id es" by (simp add: candidate_ok_def)
  with published show ?thesis
    by (simp add: mem_find_command_def new_commit_outcome_def)
qed

lemma mem_find_stable:
  assumes "mem_commit bs s v u es rc = (res, s')" and "mem_find_command s t k f = Inr (Some oc)"
  shows "mem_find_command s' t k f = Inr (Some oc)"
  using assms(1)
proof (cases rule: mem_commit_cases)
  case (published oc')
  with assms(2) have "(t, k) \<noteq> (rc_tenant_id rc, rc_command_id rc)"
    by (auto simp: mem_find_command_def)
  then have "mem_commands s' (t, k) = mem_commands s (t, k)"
    using published(6) by (simp only: published_simps fun_upd_apply if_False)
  with assms(2) show ?thesis by (simp add: mem_find_command_def)
qed (use assms in simp)

lemma mem_find_replayed:
  assumes "mem_ok s" and "mem_find_command s t k f = Inr (Some oc)"
  shows "oc_replayed oc \<and> rc_tenant_id (oc_receipt oc) = t \<and> rc_command_id (oc_receipt oc) = k \<and>
      rc_fingerprint (oc_receipt oc) = f"
proof -
  from assms obtain oc' where "mem_commands s (t, k) = Some oc'"
      "rc_fingerprint (oc_receipt oc') = f" "oc = oc'\<lparr>oc_replayed := True\<rparr>"
    using mem_find_Some [OF assms(1)] by blast
  with mem_okD(2) [OF assms(1), of "(t, k)"] show ?thesis
    by (auto simp: command_ok_def Let_def)
qed

interpretation mem_repo: run_repository "memory_ops bs" mem_ok
proof (unfold_locales, goal_cases)
  case (1 s t r c)
  then have "stored_ok s (t, r)" by (intro mem_okD)
  with 1 show ?case by (auto simp: mem_load_def stored_ok_def log_ok_def split: option.splits)
next
  case (2 s u es rc v res s')
  then show ?case by (simp add: mem_commit_ok)
next
  case (3 s v u es rc x s')
  then show ?case by (simp add: mem_commit_error)
next
  case (4 v s u es rc)
  then show ?case by (simp add: mem_commit_def)
next
  case (5 s v rc oc u es)
  then show ?case by (simp add: mem_commit_known)
next
  case (6 s v rc x u es)
  then have "mem_find_command s (rc_tenant_id rc) (rc_command_id rc) (rc_fingerprint rc) = Inl x"
    by simp
  with 6 show ?case by (auto simp: mem_find_Inl mem_commit_def)
next
  case (7 s rc v u es oc s')
  then show ?case using mem_commit_new by (metis memory_ops_simps(1,3,4))
next
  case (8 s v u es rc res s' t r)
  then show ?case using mem_commit_frame by (metis memory_ops_simps(1,4))
next
  case (9 s v u es rc oc s')
  then show ?case by (simp add: mem_find_recorded)
next
  case (10 s v u es rc res s' t k f oc)
  then show ?case by (auto intro: mem_find_stable)
next
  case (11 s t k f oc)
  then show ?case by (simp add: mem_find_replayed)
qed

end
