(* ===== verification/Run_Service.thy ===== *)
theory Run_Service
  imports Memory_Repository Run_History
begin

section \<open>The run life cycle service\<close>

text \<open>
  \<open>src/zhiyi/application/services/run_lifecycle.py\<close>. A call awaits the repository up to three
  times (find the command, load the run, commit), and other calls may commit in between: the
  functions take the repository state at each of these points. The readings of the injected
  clock and identifier generator are the record \<open>env\<close>. A call returns its result and the
  repository state after it.
\<close>

record env =
  env_now :: datetime
  env_run_id :: string
  env_event_id :: string

record deadline_outcome =
  do_run :: run
  do_outcome :: "commit_outcome option"

definition service_event_id :: "env \<Rightarrow> exn + event_id" where
  "service_event_id e = new_identifier EventId (env_event_id e)"

definition service_receipt ::
    "tenant_id \<Rightarrow> command_id \<Rightarrow> string \<Rightarrow> exn + string \<Rightarrow> run_mutation \<Rightarrow> datetime
      \<Rightarrow> exn + command_receipt" where
  "service_receipt t k ctype fingerprint m created_at =
     result_bind fingerprint (\<lambda>f. command_receipt_post_init
       \<lparr>rc_tenant_id = t, rc_command_id = k, rc_run_id = r_run_id (mut_run m),
        rc_command_type = ctype, rc_fingerprint = f, rc_status = r_status (mut_run m),
        rc_version = r_version (mut_run m), rc_event_ids = map ev_event_id (mut_events m),
        rc_created_at = created_at\<rparr>)"

text \<open>\<open>await self._repository.find_command(...)\<close>, whose argument is the fingerprint.\<close>

definition find_replay ::
    "'s run_repository_ops \<Rightarrow> 's \<Rightarrow> tenant_id \<Rightarrow> command_id \<Rightarrow> exn + string
      \<Rightarrow> exn + commit_outcome option" where
  "find_replay repo s t k fingerprint =
     result_bind fingerprint (\<lambda>f. repo_find_command repo s t k f)"

definition prepare_create :: "create_run_command \<Rightarrow> env \<Rightarrow> exn + run_mutation \<times> command_receipt" where
  "prepare_create c e =
     result_bind (new_identifier RunId (env_run_id e)) (\<lambda>rid.
     result_bind (service_event_id e) (\<lambda>eid.
     result_bind (run_create (crc_tenant_id c) rid (crc_task_id c) (crc_agent_version c)
       (crc_budget c) (env_now e) eid) (\<lambda>m.
     result_bind (service_receipt (crc_tenant_id c) (crc_command_id c) create_command_type
       (create_command_fingerprint c) m (env_now e)) (\<lambda>rc. Inr (m, rc)))))"

definition service_create_run ::
    "'s run_repository_ops \<Rightarrow> 's \<Rightarrow> 's \<Rightarrow> create_run_command \<Rightarrow> env
      \<Rightarrow> (exn + commit_outcome) \<times> 's" where
  "service_create_run repo s1 s2 c e =
     (case find_replay repo s1 (crc_tenant_id c) (crc_command_id c)
         (create_command_fingerprint c) of
        Inl x \<Rightarrow> (Inl x, s2)
      | Inr (Some replayed) \<Rightarrow> (Inr replayed, s2)
      | Inr None \<Rightarrow>
          (case prepare_create c e of
             Inl x \<Rightarrow> (Inl x, s2)
           | Inr (m, rc) \<Rightarrow> repo_commit repo s2 0 (mut_run m) (mut_events m) rc))"

definition service_get_run ::
    "'s run_repository_ops \<Rightarrow> 's \<Rightarrow> tenant_id \<Rightarrow> run_id \<Rightarrow> exn + run" where
  "service_get_run repo s t r =
     (case repo_load repo s t r of
        None \<Rightarrow> Inl (RunLifecycleError RunNotFound) | Some run \<Rightarrow> Inr run)"

definition service_list_events ::
    "'s run_repository_ops \<Rightarrow> 's \<Rightarrow> tenant_id \<Rightarrow> run_id \<Rightarrow> int \<Rightarrow> int \<Rightarrow> exn + run_event list" where
  "service_list_events repo s t r after_sequence limit =
     repo_list_events repo s t r after_sequence limit"

text \<open>Load, check the version, and apply the command's operation to the loaded run.\<close>

definition load_and_operate ::
    "'s run_repository_ops \<Rightarrow> 's \<Rightarrow> existing_run_command \<Rightarrow> env \<Rightarrow> exn + run_mutation" where
  "load_and_operate repo s c e =
     (case repo_load repo s (cmd_tenant_id c) (cmd_run_id c) of
        None \<Rightarrow> Inl (RunLifecycleError RunNotFound)
      | Some current \<Rightarrow>
          if r_version current \<noteq> cmd_expected_version c
          then Inl (RunLifecycleError RunVersionConflict)
          else result_bind (service_event_id e) (\<lambda>eid.
            run_operate current (cmd_operation c) (env_now e) eid))"

definition command_receipt_of ::
    "existing_run_command \<Rightarrow> run_mutation \<Rightarrow> datetime \<Rightarrow> exn + command_receipt" where
  "command_receipt_of c m created_at =
     service_receipt (cmd_tenant_id c) (cmd_command_id c) (command_type (cmd_operation c))
       (command_fingerprint c) m created_at"

definition service_mutate ::
    "'s run_repository_ops \<Rightarrow> 's \<Rightarrow> 's \<Rightarrow> 's \<Rightarrow> existing_run_command \<Rightarrow> env
      \<Rightarrow> (exn + commit_outcome) \<times> 's" where
  "service_mutate repo s1 s2 s3 c e =
     (case find_replay repo s1 (cmd_tenant_id c) (cmd_command_id c) (command_fingerprint c) of
        Inl x \<Rightarrow> (Inl x, s3)
      | Inr (Some replayed) \<Rightarrow> (Inr replayed, s3)
      | Inr None \<Rightarrow>
          (case load_and_operate repo s2 c e of
             Inl x \<Rightarrow> (Inl x, s3)
           | Inr m \<Rightarrow>
               (case command_receipt_of c m (env_now e) of
                  Inl x \<Rightarrow> (Inl x, s3)
                | Inr rc \<Rightarrow>
                    repo_commit repo s3 (cmd_expected_version c) (mut_run m) (mut_events m) rc)))"

definition service_enforce_deadline ::
    "'s run_repository_ops \<Rightarrow> 's \<Rightarrow> 's \<Rightarrow> 's \<Rightarrow> existing_run_command \<Rightarrow> env
      \<Rightarrow> (exn + deadline_outcome) \<times> 's" where
  "service_enforce_deadline repo s1 s2 s3 c e =
     (case find_replay repo s1 (cmd_tenant_id c) (cmd_command_id c) (command_fingerprint c) of
        Inl x \<Rightarrow> (Inl x, s3)
      | Inr (Some replayed) \<Rightarrow>
          (result_bind (service_get_run repo s2 (cmd_tenant_id c) (rc_run_id (oc_receipt replayed)))
             (\<lambda>run. Inr \<lparr>do_run = run, do_outcome = Some replayed\<rparr>), s3)
      | Inr None \<Rightarrow>
          (case load_and_operate repo s2 c e of
             Inl x \<Rightarrow> (Inl x, s3)
           | Inr m \<Rightarrow>
               if mut_events m = [] then (Inr \<lparr>do_run = mut_run m, do_outcome = None\<rparr>, s3)
               else (case command_receipt_of c m (env_now e) of
                  Inl x \<Rightarrow> (Inl x, s3)
                | Inr rc \<Rightarrow>
                    (case repo_commit repo s3 (cmd_expected_version c) (mut_run m) (mut_events m) rc of
                       (res, s') \<Rightarrow>
                         (result_bind res (\<lambda>oc.
                            Inr \<lparr>do_run = mut_run m, do_outcome = Some oc\<rparr>), s')))))"

subsection \<open>Receipts\<close>

lemma service_receipt_Inr:
  "service_receipt t k ty fp m ts = Inr rc \<longleftrightarrow>
     (\<exists>f. fp = Inr f \<and> command_receipt_post_init rc = Inr rc \<and>
        rc = \<lparr>rc_tenant_id = t, rc_command_id = k, rc_run_id = r_run_id (mut_run m),
          rc_command_type = ty, rc_fingerprint = f, rc_status = r_status (mut_run m),
          rc_version = r_version (mut_run m), rc_event_ids = map ev_event_id (mut_events m),
          rc_created_at = ts\<rparr>)"
  by (auto simp: service_receipt_def result_bind_eq_Inr)

lemma extends_events_ok: "extends r m \<Longrightarrow> list_all run_event_ok (mut_events m)"
  by (auto simp: extends_def)

lemma operate_ok:
  assumes "run_ok r" and "operation_ok op" and "run_operate r op ts eid = Inr m"
  shows "run_ok (mut_run m) \<and> extends r m"
proof (cases "is_utc ts")
  case True
  with operate_extends [OF assms(1) _ assms(2,3)] show ?thesis by simp
next
  case False
  with operate_utc [OF assms] assms(1) show ?thesis by (simp add: extends_def)
qed

text \<open>A command object: the envelope was checked, and its fields are constructed values.\<close>

definition command_ok_fields :: "existing_run_command \<Rightarrow> bool" where
  "command_ok_fields c \<longleftrightarrow>
     existing_command_post_init c = Inr c \<and> operation_ok (cmd_operation c)"

lemma command_expected: "command_ok_fields c \<Longrightarrow> 0 \<le> cmd_expected_version c"
  by (auto simp: command_ok_fields_def existing_command_post_init_def validate_envelope_def
      split: if_splits)

subsection \<open>Calls against any repository that keeps the contract\<close>

context run_repository
begin

lemma load_and_operate_Inr:
  assumes "inv s" and "command_ok_fields c" and "load_and_operate ops s c e = Inr m"
  obtains r eid where "repo_load ops s (cmd_tenant_id c) (cmd_run_id c) = Some r"
    "r_version r = cmd_expected_version c" "run_ok r" "r_tenant_id r = cmd_tenant_id c"
    "r_run_id r = cmd_run_id c" "run_operate r (cmd_operation c) (env_now e) eid = Inr m"
    "run_ok (mut_run m)" "extends r m" "eid = EventId (env_event_id e)"
proof -
  from assms(3) obtain r eid where r: "repo_load ops s (cmd_tenant_id c) (cmd_run_id c) = Some r"
    "r_version r = cmd_expected_version c"
    "run_operate r (cmd_operation c) (env_now e) eid = Inr m"  "eid = EventId (env_event_id e)"
    by (auto simp: load_and_operate_def service_event_id_def result_bind_eq_Inr
        split: option.splits if_splits)
  with load_key [OF assms(1) r(1)] operate_ok [of r "cmd_operation c"] assms(2) that
  show thesis by (auto simp: command_ok_fields_def)
qed

lemma mutate_commits:
  assumes "inv s2" and "command_ok_fields c" and "service_mutate ops s1 s2 s3 c e = (res, s')"
  shows "commits ops s3 s'"
proof (cases "s' = s3")
  case False
  with assms(3) obtain m rc where m: "load_and_operate ops s2 c e = Inr m"
      "command_receipt_of c m (env_now e) = Inr rc"
      "repo_commit ops s3 (cmd_expected_version c) (mut_run m) (mut_events m) rc = (res, s')"
    by (auto simp: service_mutate_def split: sum.splits option.splits)
  from load_and_operate_Inr [OF assms(1,2) m(1)] obtain r
    where "run_ok (mut_run m)" "extends r m" by metis
  with m show ?thesis
    by (auto intro!: commits_one [OF _ extends_events_ok]
        simp: command_receipt_of_def service_receipt_Inr)
qed (simp add: commits.refl)

text \<open>A command that committed, sent again, at any later state: the recorded outcome.\<close>

lemma mutate_idempotent:
  assumes inv: "inv s1" and later: "commits ops s1 s2" "commits ops s2 s3"
    and c: "command_ok_fields c" and res: "service_mutate ops s1 s2 s3 c e = (Inr oc, s')"
    and after: "commits ops s' t1"
  shows "service_mutate ops t1 t2 t3 c e' = (Inr (oc\<lparr>oc_replayed := True\<rparr>), t3)"
proof -
  have inv2: "inv s2" and inv3: "inv s3" using later inv commits_inv by blast+
  from res obtain f where f: "command_fingerprint c = Inr f"
    by (cases "command_fingerprint c") (auto simp: service_mutate_def find_replay_def)
  have "repo_find_command ops s' (cmd_tenant_id c) (cmd_command_id c) f =
      Inr (Some (oc\<lparr>oc_replayed := True\<rparr>))"
  proof (cases "repo_find_command ops s1 (cmd_tenant_id c) (cmd_command_id c) f = Inr (Some oc)")
    case True
    with res f have "s' = s3" by (simp add: service_mutate_def find_replay_def)
    moreover have "oc\<lparr>oc_replayed := True\<rparr> = oc" using find_replayed [OF inv True] by (cases oc) simp
    ultimately show ?thesis
      using commits_find [OF commits_trans [OF later(2,1)] inv True] by simp
  next
    case False
    with res f obtain m rc where m: "load_and_operate ops s2 c e = Inr m"
      "command_receipt_of c m (env_now e) = Inr rc"
      "repo_commit ops s3 (cmd_expected_version c) (mut_run m) (mut_events m) rc = (Inr oc, s')"
      by (auto simp: service_mutate_def find_replay_def split: sum.splits option.splits)
    then have "rc_tenant_id rc = cmd_tenant_id c" "rc_command_id rc = cmd_command_id c"
      "rc_fingerprint rc = f" using f by (auto simp: command_receipt_of_def service_receipt_Inr)
    with find_recorded [OF inv3 m(3)] show ?thesis by simp
  qed
  moreover have "inv s'"
    using mutate_commits [OF inv2 c res] inv3 commits_inv by blast
  ultimately have "repo_find_command ops t1 (cmd_tenant_id c) (cmd_command_id c) f =
      Inr (Some (oc\<lparr>oc_replayed := True\<rparr>))"
    using commits_find [OF after] by blast
  with f show ?thesis by (simp add: service_mutate_def find_replay_def)
qed

text \<open>
  No lost update: a commit that is not a replay happened on the version the command expected,
  and that is the run the operation was applied to.
\<close>

lemma commits_version:
  assumes "commits ops s s'" and "inv s" and "repo_load ops s t r = Some c"
  shows "\<exists>c'. repo_load ops s' t r = Some c' \<and> r_version c \<le> r_version c' \<and>
    (r_version c' = r_version c \<longrightarrow> r_status c' = r_status c \<and> r_updated_at c' = r_updated_at c)"
  using assms
proof (induction rule: commits.induct)
  case (step s s' u es rc v res s'')
  then obtain c' where c': "repo_load ops s' t r = Some c'" "r_version c \<le> r_version c'"
    "r_version c' = r_version c \<longrightarrow> r_status c' = r_status c \<and> r_updated_at c' = r_updated_at c"
    by blast
  have "inv s'" using step commits_inv by blast
  from commit_version [OF this step(5) c'(1)] c' show ?case
    by (auto simp: run_eq_def)
qed simp

lemma fresh_commit_find:
  assumes inv: "inv s" and v: "0 \<le> v" and commit: "repo_commit ops s v u es rc = (Inr oc, s')"
    and new: "\<not> oc_replayed oc"
  shows "repo_find_command ops s (rc_tenant_id rc) (rc_command_id rc) (rc_fingerprint rc) = Inr None"
proof (cases "repo_find_command ops s (rc_tenant_id rc) (rc_command_id rc) (rc_fingerprint rc)")
  case (Inl x)
  with commit_conflict [OF inv v this] commit show ?thesis by simp
next
  case (Inr found)
  show ?thesis
  proof (cases found)
    case (Some oc')
    with Inr have "oc' = oc" using commit_known [OF inv v] commit by fastforce
    with Inr Some find_replayed [OF inv] new show ?thesis by blast
  qed (use Inr in simp)
qed

lemma mutate_no_lost_update:
  assumes inv: "inv s1" and later: "commits ops s1 s2" "commits ops s2 s3"
    and c: "command_ok_fields c" and res: "service_mutate ops s1 s2 s3 c e = (Inr oc, s')"
    and new: "\<not> oc_replayed oc"
  shows "\<exists>r cur m. repo_load ops s2 (cmd_tenant_id c) (cmd_run_id c) = Some r \<and>
    run_operate r (cmd_operation c) (env_now e) (EventId (env_event_id e)) = Inr m \<and>
    repo_load ops s3 (cmd_tenant_id c) (cmd_run_id c) = Some cur \<and>
    r_version cur = cmd_expected_version c \<and> r_version r = cmd_expected_version c \<and>
    r_status cur = r_status r \<and> r_updated_at cur = r_updated_at r \<and>
    repo_load ops s' (cmd_tenant_id c) (cmd_run_id c) = Some (mut_run m) \<and>
    oc_events oc = mut_events m"
proof -
  have inv2: "inv s2" and inv3: "inv s3" using later inv commits_inv by blast+
  from res obtain f where f: "command_fingerprint c = Inr f"
    by (cases "command_fingerprint c") (auto simp: service_mutate_def find_replay_def)
  have "repo_find_command ops s1 (cmd_tenant_id c) (cmd_command_id c) f \<noteq> Inr (Some oc)"
    using find_replayed [OF inv] new by blast
  with res f obtain m rc where m: "load_and_operate ops s2 c e = Inr m"
    "command_receipt_of c m (env_now e) = Inr rc"
    "repo_commit ops s3 (cmd_expected_version c) (mut_run m) (mut_events m) rc = (Inr oc, s')"
    by (auto simp: service_mutate_def find_replay_def split: sum.splits option.splits)
  from load_and_operate_Inr [OF inv2 c m(1)] obtain r where
    r: "repo_load ops s2 (cmd_tenant_id c) (cmd_run_id c) = Some r"
      "r_version r = cmd_expected_version c" "r_tenant_id r = cmd_tenant_id c"
      "r_run_id r = cmd_run_id c" "extends r m"
      "run_operate r (cmd_operation c) (env_now e) (EventId (env_event_id e)) = Inr m" by metis
  have key: "r_tenant_id (mut_run m) = cmd_tenant_id c" "r_run_id (mut_run m) = cmd_run_id c"
    using r by (auto simp: extends_def)
  have find: "repo_find_command ops s3 (rc_tenant_id rc) (rc_command_id rc) (rc_fingerprint rc) =
      Inr None"
    by (rule fresh_commit_find [OF inv3 command_expected [OF c] m(3) new])
  note new_commit = commit_new [OF inv3 find m(3)]
  obtain cur where cur: "repo_load ops s3 (cmd_tenant_id c) (cmd_run_id c) = Some cur"
      "r_version r \<le> r_version cur"
      "r_version cur = r_version r \<longrightarrow> r_status cur = r_status r \<and> r_updated_at cur = r_updated_at r"
    using commits_version [OF later(2) inv2 r(1)] by blast
  with new_commit key have "r_version cur = cmd_expected_version c" by (simp add: at_version_def)
  with cur r new_commit key show ?thesis by auto
qed

end

end
