(* ===== verification/Run_System.thy ===== *)
theory Run_System
  imports Run_Service
begin

section \<open>Concurrent calls against the in-memory repository\<close>

text \<open>
  The system of \<open>RunLifecycleService\<close> over \<open>MemoryRunRepository\<close>: any number of calls in flight, each
  stopped at one of its awaits, and one step at a time in any order. A call may also stop at any await
  (an exception, a cancellation). Every step uses the functions of the service and of the
  repository.
\<close>

datatype service_call = CallCreate create_run_command | CallExisting existing_run_command

datatype task =
    Waiting service_call
  | Loading existing_run_command
  | Committing int run_mutation command_receipt
  | Finished

definition create_command_ok :: "create_run_command \<Rightarrow> bool" where
  "create_command_ok c \<longleftrightarrow>
     create_run_command_post_init c = Inr c \<and>
     identifier_pattern (tenant_id_value (crc_tenant_id c)) \<and>
     identifier_pattern (task_id_value (crc_task_id c)) \<and>
     agent_version_ref_ok (crc_agent_version c) \<and> run_budget_ok (crc_budget c)"

fun call_ok :: "service_call \<Rightarrow> bool" where
  "call_ok (CallCreate c) = create_command_ok c"
| "call_ok (CallExisting c) = command_ok_fields c"

type_synonym system = "memory_repository \<times> task list"

inductive sys_step :: "system \<Rightarrow> system \<Rightarrow> bool" where
  arrive: "call_ok call \<Longrightarrow> sys_step (s, ts) (s, ts @ [Waiting call])"
| stop: "sys_step (s, ts) (s, ts[i := Finished])"
| find: "\<lbrakk>i < length ts; ts ! i = Waiting (CallExisting c);
    find_replay (memory_ops bs) s (cmd_tenant_id c) (cmd_command_id c) (command_fingerprint c) =
      Inr None\<rbrakk> \<Longrightarrow> sys_step (s, ts) (s, ts[i := Loading c])"
| load: "\<lbrakk>i < length ts; ts ! i = Loading c; load_and_operate (memory_ops bs) s c e = Inr m;
    command_receipt_of c m (env_now e) = Inr rc\<rbrakk> \<Longrightarrow>
    sys_step (s, ts) (s, ts[i := Committing (cmd_expected_version c) m rc])"
| prepare: "\<lbrakk>i < length ts; ts ! i = Waiting (CallCreate c);
    find_replay (memory_ops bs) s (crc_tenant_id c) (crc_command_id c)
      (create_command_fingerprint c) = Inr None;
    prepare_create c e = Inr (m, rc)\<rbrakk> \<Longrightarrow> sys_step (s, ts) (s, ts[i := Committing 0 m rc])"
| commit: "\<lbrakk>i < length ts; ts ! i = Committing v m rc;
    mem_commit bs s v (mut_run m) (mut_events m) rc = (res, s')\<rbrakk> \<Longrightarrow>
    sys_step (s, ts) (s', ts[i := Finished])"

definition sys_reachable :: "system \<Rightarrow> bool" where
  "sys_reachable y \<longleftrightarrow> sys_step\<^sup>*\<^sup>* (mem_init, []) y"

subsection \<open>The invariant\<close>

text \<open>
  A call about to commit holds a mutation of a run it loaded; while the version has not moved
  on, the stored run is still that run.
\<close>

definition base_ok :: "memory_repository \<Rightarrow> int \<Rightarrow> run_mutation \<Rightarrow> bool" where
  "base_ok s v m \<longleftrightarrow>
     (\<exists>r op ts eid cur. run_ok r \<and> operation_ok op \<and> run_operate r op ts eid = Inr m \<and> r_version r = v \<and>
        mem_runs s (r_tenant_id r, r_run_id r) = Some cur \<and> v \<le> r_version cur \<and>
        (r_version cur = v \<longrightarrow> cur = r))"

fun task_ok :: "memory_repository \<Rightarrow> task \<Rightarrow> bool" where
  "task_ok s (Waiting call) = call_ok call"
| "task_ok s (Loading c) = command_ok_fields c"
| "task_ok s (Committing v m rc) =
     (command_receipt_post_init rc = Inr rc \<and> run_ok (mut_run m) \<and>
      list_all run_event_ok (mut_events m) \<and>
      (v = 0 \<and> history (mut_run m) (mut_events m) [] \<or> 1 \<le> v \<and> base_ok s v m))"
| "task_ok s Finished = True"

definition histories_ok :: "memory_repository \<Rightarrow> bool" where
  "histories_ok s \<longleftrightarrow>
     (\<forall>key r. mem_runs s key = Some r \<longrightarrow>
        (\<exists>es cs. mem_events s key = Some es \<and> history r es cs))"

definition sys_ok :: "system \<Rightarrow> bool" where
  "sys_ok y \<longleftrightarrow> mem_ok (fst y) \<and> histories_ok (fst y) \<and> list_all (task_ok (fst y)) (snd y)"

lemma sys_ok_init: "sys_ok (mem_init, [])"
  by (simp add: sys_ok_def mem_init_ok histories_ok_def) (simp add: mem_init_def)

lemma list_all_update: "list_all P xs \<Longrightarrow> P x \<Longrightarrow> list_all P (xs[i := x])"
  using set_update_subset_insert [of xs i x] by (auto simp: list_all_iff)

lemma stored_history:
  assumes "histories_ok s" and "mem_runs s key = Some r"
  obtains es cs where "mem_events s key = Some es" "history r es cs"
  using assms unfolding histories_ok_def by blast

lemma history_run_ok: "history r es cs \<Longrightarrow> run_ok r"
  using history_invariant by blast

lemma load_task_ok:
  assumes ok: "mem_ok s" and c: "command_ok_fields c"
    and m: "load_and_operate (memory_ops bs) s c e = Inr m"
    and rc: "command_receipt_of c m (env_now e) = Inr rc"
  shows "task_ok s (Committing (cmd_expected_version c) m rc)"
proof -
  from mem_repo.load_and_operate_Inr [OF ok c m] obtain r eid where
    r: "mem_load s (cmd_tenant_id c) (cmd_run_id c) = Some r" "r_version r = cmd_expected_version c"
      "run_ok r" "r_tenant_id r = cmd_tenant_id c" "r_run_id r = cmd_run_id c"
      "run_operate r (cmd_operation c) (env_now e) eid = Inr m" "run_ok (mut_run m)" "extends r m"
    by (metis memory_ops_simps(1))
  have "base_ok s (cmd_expected_version c) m"
    unfolding base_ok_def
    using r c by (intro exI [of _ r] exI [of _ "cmd_operation c"] exI [of _ "env_now e"]
      exI [of _ eid]) (simp add: command_ok_fields_def mem_load_def)
  with r rc run_okD(1) [OF r(3)] extends_events_ok [OF r(8)] show ?thesis
    by (auto simp: command_receipt_of_def service_receipt_Inr)
qed

lemma prepare_task_ok:
  assumes c: "create_command_ok c" and p: "prepare_create c e = Inr (m, rc)"
  shows "task_ok s (Committing 0 m rc)"
proof -
  from p obtain eid where rid: "identifier_pattern (env_run_id e)"
    and m: "run_create (crc_tenant_id c) (RunId (env_run_id e)) (crc_task_id c)
      (crc_agent_version c) (crc_budget c) (env_now e) eid = Inr m"
    and rc: "command_receipt_post_init rc = Inr rc"
    by (auto simp: prepare_create_def result_bind_eq_Inr service_receipt_Inr)
  have "history (mut_run m) (mut_events m) []"
    using c rid m by (intro history.created [OF _ _ _ _ _ m]) (auto simp: create_command_ok_def)
  moreover from history_invariant [OF this] have "run_ok (mut_run m)" by blast
  moreover have "list_all run_event_ok (mut_events m)" using run_create_Inr [OF m] by auto
  ultimately show ?thesis using rc by simp
qed

text \<open>What a published commit of a consistent task is: a creation, or the next step of the log.\<close>

lemma commit_published:
  assumes ok: "sys_ok (s, ts)" and t: "task_ok s (Committing v m rc)"
    and v: "at_version (mem_runs s (r_tenant_id (mut_run m), r_run_id (mut_run m))) v"
  shows "(\<exists>cs. history (mut_run m)
      (old_log s (r_tenant_id (mut_run m), r_run_id (mut_run m)) @ mut_events m) cs) \<and>
    (mem_runs s (r_tenant_id (mut_run m), r_run_id (mut_run m)) = Some (mut_run m) \<or>
     v < r_version (mut_run m))"
proof -
  have mem: "mem_ok s" and hist: "histories_ok s" using ok by (simp_all add: sys_ok_def)
  let ?key = "(r_tenant_id (mut_run m), r_run_id (mut_run m))"
  from t consider (create) "v = 0" "history (mut_run m) (mut_events m) []" | (base) "1 \<le> v" "base_ok s v m"
    by auto
  then show ?thesis
  proof cases
    case create
    have "mem_runs s ?key = None"
    proof (rule ccontr)
      assume "mem_runs s ?key \<noteq> None"
      then obtain c where c: "mem_runs s ?key = Some c" by blast
      from stored_history [OF hist c] obtain es cs where "history c es cs" by metis
      then have "1 \<le> r_version c" using history_run_ok run_okD(1) by blast
      with c v create show False by (simp add: at_version_def)
    qed
    with mem_okD(1) [OF mem, of ?key] have "old_log s ?key = []"
      by (simp add: stored_ok_def old_log_def)
    moreover have "0 < r_version (mut_run m)"
      using history_run_ok [OF create(2)] run_okD(1) by fastforce
    ultimately show ?thesis using create by auto
  next
    case base
    then obtain r op ts eid cur where b: "run_ok r" "operation_ok op"
        "run_operate r op ts eid = Inr m" "r_version r = v"
        "mem_runs s (r_tenant_id r, r_run_id r) = Some cur" "r_version cur = v \<longrightarrow> cur = r"
      by (auto simp: base_ok_def)
    have ext: "extends r m" using operate_ok [OF b(1-3)] by blast
    then have key: "r_tenant_id (mut_run m) = r_tenant_id r" "r_run_id (mut_run m) = r_run_id r"
      by (simp_all add: extends_def)
    with v b have cur: "cur = r" by (simp add: at_version_def)
    from stored_history [OF hist b(5)] obtain es' cs' where
      h: "mem_events s (r_tenant_id r, r_run_id r) = Some es'" "history cur es' cs'" by metis
    from history.operated [OF h(2) [unfolded cur] b(2,3)] h(1) key
    have "\<exists>cs. history (mut_run m) (old_log s ?key @ mut_events m) cs" by (auto simp: old_log_def)
    moreover have "mem_runs s ?key = Some (mut_run m) \<or> v < r_version (mut_run m)"
      using ext b(4,5) cur key by (auto simp: extends_def)
    ultimately show ?thesis by blast
  qed
qed

lemma base_ok_published:
  assumes b: "base_ok s v' m'"
    and v: "at_version (mem_runs s (r_tenant_id u, r_run_id u)) v"
    and new: "mem_runs s (r_tenant_id u, r_run_id u) = Some u \<or> v < r_version u"
  shows "base_ok (mem_published s u es rc oc) v' m'"
proof -
  from b obtain r op ts eid cur where b: "run_ok r" "operation_ok op"
      "run_operate r op ts eid = Inr m'" "r_version r = v'"
      "mem_runs s (r_tenant_id r, r_run_id r) = Some cur" "v' \<le> r_version cur"
      "r_version cur = v' \<longrightarrow> cur = r"
    by (auto simp: base_ok_def)
  have "\<exists>cur'. mem_runs (mem_published s u es rc oc) (r_tenant_id r, r_run_id r) = Some cur' \<and>
      v' \<le> r_version cur' \<and> (r_version cur' = v' \<longrightarrow> cur' = r)"
  proof (cases "(r_tenant_id r, r_run_id r) = (r_tenant_id u, r_run_id u)")
    case True
    with b(5) v have cur: "mem_runs s (r_tenant_id u, r_run_id u) = Some cur" "r_version cur = v"
      by (simp_all add: at_version_def)
    from new cur have "cur = u \<or> v < r_version u" by simp
    with True b(6,7) cur(2) show ?thesis by auto
  next
    case False
    then have "mem_runs (mem_published s u es rc oc) (r_tenant_id r, r_run_id r) = Some cur"
      using b(5) by (simp only: published_simps fun_upd_apply if_False)
    with b(6,7) show ?thesis by blast
  qed
  with b(1-4) show ?thesis unfolding base_ok_def by blast
qed

lemma commit_sys_ok:
  assumes ok: "sys_ok (s, ts)" and t: "task_ok s (Committing v m rc)"
    and commit: "mem_commit bs s v (mut_run m) (mut_events m) rc = (res, s')"
  shows "sys_ok (s', ts)"
  using commit
proof (cases rule: mem_commit_cases)
  case (published oc)
  have mem: "mem_ok s'"
    using mem_commit_ok [OF _ _ _ _ commit] ok t by (simp add: sys_ok_def)
  note pub = commit_published [OF ok t published(2)]
  have "histories_ok s'"
    unfolding histories_ok_def
  proof (intro allI impI)
    fix key r
    assume r: "mem_runs s' key = Some r"
    show "\<exists>es cs. mem_events s' key = Some es \<and> history r es cs"
    proof (cases "key = (r_tenant_id (mut_run m), r_run_id (mut_run m))")
      case True
      with r pub published(6) show ?thesis by (auto simp: old_log_def)
    next
      case False
      with r published(6) have old: "mem_runs s key = Some r" "mem_events s' key = mem_events s key"
        by simp_all
      from ok have "histories_ok s" by (simp add: sys_ok_def)
      from stored_history [OF this old(1)] old(2) show ?thesis by metis
    qed
  qed
  moreover have "task_ok s' t" if "task_ok s t" for t
    using that base_ok_published [OF _ published(2) conjunct2 [OF pub]] published(6)
    by (cases t) auto
  with ok have "list_all (task_ok s') ts" by (auto simp: sys_ok_def list_all_iff)
  ultimately show ?thesis using mem by (simp add: sys_ok_def)
qed (use ok in simp)

lemma sys_step_ok: "sys_step y y' \<Longrightarrow> sys_ok y \<Longrightarrow> sys_ok y'"
proof (induction rule: sys_step.induct)
  case (load i ts c bs s e m rc)
  then have "mem_ok s" "command_ok_fields c" by (auto simp: sys_ok_def list_all_length)
  from load_task_ok [OF this load(3,4)] load(5) show ?case
    by (auto simp: sys_ok_def intro: list_all_update)
next
  case (prepare i ts c bs s e m rc)
  then have "create_command_ok c" by (auto simp: sys_ok_def list_all_length)
  from prepare_task_ok [OF this prepare(4)] prepare(5) show ?case
    by (auto simp: sys_ok_def intro: list_all_update)
next
  case (commit i ts v m rc bs s res s')
  then have "task_ok s (Committing v m rc)" by (metis list_all_length snd_conv fst_conv sys_ok_def)
  from commit_sys_ok [OF commit(4) this commit(3)] show ?case
    by (auto simp: sys_ok_def intro: list_all_update)
next
  case (find i ts c bs s)
  then have "command_ok_fields c" by (auto simp: sys_ok_def list_all_length)
  with find(4) show ?case by (auto simp: sys_ok_def intro: list_all_update)
qed (auto simp: sys_ok_def intro: list_all_update)

lemma sys_reachable_ok: "sys_reachable y \<Longrightarrow> sys_ok y"
  unfolding sys_reachable_def
  by (induction rule: rtranclp_induct) (auto intro: sys_ok_init sys_step_ok)

end
