(* ===== verification/Service_Properties.thy ===== *)
theory Service_Properties
  imports Run_System Samples
begin

section \<open>Properties of the service and the in-memory repository\<close>

text \<open>Sample calls, and the properties of \<open>RunLifecycleService\<close> over \<open>MemoryRunRepository\<close>.\<close>

subsection \<open>A sample session\<close>

definition sample_create_command :: create_run_command where
  "sample_create_command = \<lparr>crc_tenant_id = sample_tenant, crc_command_id = CommandId ''cmd-1'',
     crc_task_id = sample_task, crc_agent_version = sample_version, crc_budget = sample_budget,
     crc_correlation_id = None\<rparr>"

definition sample_start_command :: existing_run_command where
  "sample_start_command = \<lparr>cmd_tenant_id = sample_tenant, cmd_command_id = CommandId ''cmd-2'',
     cmd_run_id = sample_run_id, cmd_expected_version = 1, cmd_operation = OpStart\<rparr>"

definition sample_env :: "int \<Rightarrow> string \<Rightarrow> env" where
  "sample_env n eid = \<lparr>env_now = Utc (seconds n), env_run_id = ''run-1'', env_event_id = eid\<rparr>"

lemma sample_create_ok: "create_command_ok sample_create_command"
  by code_simp

lemma sample_start_ok: "command_ok_fields sample_start_command"
  by code_simp

lemma sample_create_fingerprint: "\<exists>f. create_command_fingerprint sample_create_command = Inr f"
proof -
  have "\<exists>j. canonicalize (IvBudget sample_budget) = Inr j \<and> json_printable j"
    by (rule exI [of _ "projr (canonicalize (IvBudget sample_budget))"]) code_simp
  then obtain j where j: "canonical_budget sample_budget = Inr j" "json_printable j" by auto
  have "json_printable (JObj [(''agent_version'', canonical_agent_version sample_version),
      (''budget'', j), (''command_type'', JStr create_command_type),
      (''task_id'', JStr (task_id_value sample_task)),
      (''tenant_id'', JStr (tenant_id_value sample_tenant))])"
    using j(2) by (simp add: canonical_agent_version_def)
  from fingerprint_json_total [OF this] j(1) show ?thesis
    by (auto simp: create_command_fingerprint_def intent_fingerprint_def canonicalize_intent_dict
        sample_create_command_def)
qed

lemma sample_start_fingerprint: "\<exists>f. command_fingerprint sample_start_command = Inr f"
  using command_fingerprint_total [of sample_start_command] by (auto simp: sample_start_command_def)

lemma sample_prepare:
  "\<exists>m rc. prepare_create sample_create_command (sample_env 0 ''e1'') = Inr (m, rc) \<and>
     mut_run m = sample_created \<and> length (mut_events m) = 1"
proof -
  obtain f where f: "create_command_fingerprint sample_create_command = Inr f"
    using sample_create_fingerprint by blast
  obtain m where m: "run_create sample_tenant sample_run_id sample_task sample_version
      sample_budget (Utc 0) (EventId ''e1'') = Inr m"
    using run_create_iff [OF sample_version_ok, of "Utc 0" sample_tenant sample_run_id sample_task
        sample_budget "EventId ''e1''"] by (auto simp: sample_version_def)
  note m' = run_create_Inr [OF m]
  have ids: "identifier_pattern ''run-1''" "identifier_pattern ''e1''" by code_simp+
  have "mut_run m = sample_created" "length (mut_events m) = 1"
    using m' by (auto simp: sample_created_def)
  moreover have "digest_pattern f" by (rule create_command_fingerprint_pattern [OF f])
  ultimately show ?thesis
    using f m m' ids
    by (simp add: prepare_create_def sample_env_def service_event_id_def new_identifier_def
        sample_create_command_def service_receipt_def command_receipt_post_init_def
        fingerprint_pattern_def sample_created_def created_run_def flip: sample_run_id_def)
qed

lemma sample_created_state:
  "\<exists>s m rc oc. prepare_create sample_create_command (sample_env 0 ''e1'') = Inr (m, rc) \<and>
     mem_commit None mem_init 0 (mut_run m) (mut_events m) rc = (Inr oc, s) \<and>
     mem_load s sample_tenant sample_run_id = Some sample_created \<and>
     mem_commands s (sample_tenant, CommandId ''cmd-2'') = None \<and> mem_ok s \<and>
     mem_event_ids s = {EventId ''e1''}"
proof -
  obtain m rc where p: "prepare_create sample_create_command (sample_env 0 ''e1'') = Inr (m, rc)"
      "mut_run m = sample_created" "length (mut_events m) = 1"
    using sample_prepare by blast
  have t: "task_ok mem_init (Committing 0 m rc)"
    by (rule prepare_task_ok [OF sample_create_ok p(1)])
  from p(1) obtain eid where rc: "rc_event_ids rc = map ev_event_id (mut_events m)"
    "rc_tenant_id rc = sample_tenant" "rc_run_id rc = r_run_id (mut_run m)"
    "rc_status rc = r_status (mut_run m)" "rc_version rc = r_version (mut_run m)"
    "rc_command_id rc = CommandId ''cmd-1''" and
    m: "run_create sample_tenant sample_run_id sample_task sample_version sample_budget (Utc 0)
      eid = Inr m" "eid = EventId ''e1''"
    by (auto simp: prepare_create_def result_bind_eq_Inr service_receipt_Inr sample_create_command_def
        sample_env_def service_event_id_def sample_run_id_def)
  from run_create_Inr [OF m(1)] obtain ev where ev: "mut_events m = [ev]" "ev_sequence ev = 1"
    "ev_tenant_id ev = sample_tenant" "ev_run_id ev = sample_run_id" by blast
  have evid: "ev_event_id ev = EventId ''e1''"
    using m ev(1) by (auto simp: run_create_def result_bind_eq_Inr elim!: new_run_event_Inr)
  have run: "r_tenant_id sample_created = sample_tenant" "r_run_id sample_created = sample_run_id"
    "r_version sample_created = 1" "r_next_event_sequence sample_created = 2"
    by (simp_all add: sample_created_def created_run_def)
  let ?oc = "\<lparr>oc_receipt = rc, oc_events = mut_events m, oc_replayed = False\<rparr>"
  have "candidate_ok 0 None (mut_run m) (mut_events m) rc {}"
    using rc ev p(2) run by (simp add: candidate_ok_def)
  then have "validate_commit_candidate 0 None (mut_run m) (mut_events m) rc {} = Inr ()"
    by (simp add: validate_commit_candidate_iff)
  then have commit: "mem_commit None mem_init 0 (mut_run m) (mut_events m) rc =
      (Inr ?oc, mem_published mem_init (mut_run m) (mut_events m) rc ?oc)"
    using rc(1) by (simp add: mem_commit_def mem_init_def new_commit_outcome_def)
  have "mem_ok (mem_published mem_init (mut_run m) (mut_events m) rc ?oc)"
    using mem_commit_ok [OF mem_init_ok _ _ _ commit] t by simp
  with p commit rc ev evid run show ?thesis
    by (intro exI conjI) (auto simp: mem_load_def mem_init_def)
qed

lemma sample_started:
  "\<exists>s oc s'. mem_ok s \<and> mem_load s sample_tenant sample_run_id = Some sample_created \<and>
     service_mutate (memory_ops None) s s s sample_start_command (sample_env 1 ''e2'') =
       (Inr oc, s') \<and> \<not> oc_replayed oc"
proof -
  obtain s where s: "mem_load s sample_tenant sample_run_id = Some sample_created"
      "mem_commands s (sample_tenant, CommandId ''cmd-2'') = None" "mem_ok s"
      "mem_event_ids s = {EventId ''e1''}"
    using sample_created_state by blast
  obtain f where f: "command_fingerprint sample_start_command = Inr f"
    using sample_start_fingerprint by blast
  have run: "r_tenant_id sample_created = sample_tenant" "r_run_id sample_created = sample_run_id"
    "r_version sample_created = 1" "r_next_event_sequence sample_created = 2"
    by (simp_all add: sample_created_def created_run_def)
  let ?m = "advance sample_created Running RunStarted
      (datetime_max (r_last_observed_at sample_created) (Utc (seconds 1))) (EventId ''e2'')
      [(''previous_status'', FStr ''queued'')] (r_usage sample_created) None None"
  have start: "run_start sample_created (Utc (seconds 1)) (EventId ''e2'') = Inr ?m"
    by (rule run_start_advance [OF sample_created_ok]) simp_all
  have id: "identifier_pattern ''e2''" by code_simp
  have load: "load_and_operate (memory_ops None) s sample_start_command (sample_env 1 ''e2'') = Inr ?m"
    using s start id run
    by (simp add: load_and_operate_def sample_start_command_def sample_env_def service_event_id_def
        new_identifier_def)
  have "digest_pattern f" by (rule command_fingerprint_pattern [OF f])
  then have "\<exists>rc. command_receipt_of sample_start_command ?m (env_now (sample_env 1 ''e2'')) = Inr rc"
    using f run command_type_known(1) [of OpStart]
    by (simp add: command_receipt_of_def service_receipt_def command_receipt_post_init_def
        fingerprint_pattern_def sample_env_def sample_start_command_def)
  then obtain rc where rc: "command_receipt_of sample_start_command ?m
      (env_now (sample_env 1 ''e2'')) = Inr rc" by blast
  then have fields: "rc_event_ids rc = map ev_event_id (mut_events ?m)"
    "rc_tenant_id rc = sample_tenant" "rc_run_id rc = r_run_id (mut_run ?m)"
    "rc_status rc = r_status (mut_run ?m)" "rc_version rc = r_version (mut_run ?m)"
    "rc_command_id rc = CommandId ''cmd-2''"
    by (auto simp: command_receipt_of_def service_receipt_Inr sample_start_command_def)
  have "candidate_ok 1 (Some sample_created) (mut_run ?m) (mut_events ?m) rc (mem_event_ids s)"
    using fields run s(4) by (simp add: candidate_ok_def)
  then have "validate_commit_candidate 1 (Some sample_created) (mut_run ?m) (mut_events ?m) rc
      (mem_event_ids s) = Inr ()"
    by (simp only: validate_commit_candidate_iff)
  then have commit: "mem_commit None s 1 (mut_run ?m) (mut_events ?m) rc =
      (Inr \<lparr>oc_receipt = rc, oc_events = mut_events ?m, oc_replayed = False\<rparr>,
       mem_published s (mut_run ?m) (mut_events ?m) rc
         \<lparr>oc_receipt = rc, oc_events = mut_events ?m, oc_replayed = False\<rparr>)"
    using fields s run
    by (simp add: mem_commit_def mem_load_def del: advance_simps)
      (simp add: new_commit_outcome_def)
  have cmd: "cmd_tenant_id sample_start_command = sample_tenant"
    "cmd_command_id sample_start_command = CommandId ''cmd-2''"
    "cmd_expected_version sample_start_command = 1"
    by (simp_all add: sample_start_command_def)
  have "find_replay (memory_ops None) s sample_tenant (CommandId ''cmd-2'')
      (command_fingerprint sample_start_command) = Inr None"
    using f s(2) by (simp add: find_replay_def mem_find_command_def)
  then have "service_mutate (memory_ops None) s s s sample_start_command (sample_env 1 ''e2'') =
      mem_commit None s 1 (mut_run ?m) (mut_events ?m) rc"
    unfolding service_mutate_def cmd using load rc by (simp only: option.case sum.case memory_ops_simps)
  with commit s(1,3) show ?thesis by auto
qed

subsection \<open>The properties\<close>

text \<open>C10: under every interleaving of concurrent calls, with calls stopped at any await, every run the
  in-memory repository stores is one that \<open>Run.create\<close> and the operations of the aggregate
  produce, with exactly the event log of that history, under its own tenant and run id.\<close>
theorem concurrent_runs_are_histories:
  assumes "sys_reachable (s, ts)" and "mem_load s t r = Some c"
  shows "\<exists>es cs. mem_events s (t, r) = Some es \<and> history c es cs \<and>
    r_tenant_id c = t \<and> r_run_id c = r"
proof -
  have ok: "mem_ok s" "histories_ok s" using sys_reachable_ok [OF assms(1)] by (simp_all add: sys_ok_def)
  have c: "mem_runs s (t, r) = Some c" using assms(2) by (simp add: mem_load_def)
  from stored_history [OF ok(2) c] obtain es cs where "mem_events s (t, r) = Some es" "history c es cs"
    by metis
  moreover have "(r_tenant_id c, r_run_id c) = (t, r)"
    using stored_okD [OF mem_okD(1) [OF ok(1)] c] by metis
  ultimately show ?thesis by blast
qed

lemma sample_system:
  "\<exists>s. sys_reachable (s, [Finished]) \<and> mem_load s sample_tenant sample_run_id = Some sample_created"
proof -
  obtain s m rc oc where p: "prepare_create sample_create_command (sample_env 0 ''e1'') = Inr (m, rc)"
      "mem_commit None mem_init 0 (mut_run m) (mut_events m) rc = (Inr oc, s)"
    and s: "mem_load s sample_tenant sample_run_id = Some sample_created"
    using sample_created_state by blast
  obtain f where f: "create_command_fingerprint sample_create_command = Inr f"
    using sample_create_fingerprint by blast
  have "sys_step (mem_init, []) (mem_init, [Waiting (CallCreate sample_create_command)])"
    using sys_step.arrive [of "CallCreate sample_create_command" mem_init "[]"] sample_create_ok by simp
  moreover have "sys_step (mem_init, [Waiting (CallCreate sample_create_command)])
      (mem_init, [Committing 0 m rc])"
    using sys_step.prepare [OF _ _ _ p(1), of 0 "[Waiting (CallCreate sample_create_command)]" None
        mem_init] f
    by (simp add: find_replay_def mem_find_command_def mem_init_def)
  moreover have "sys_step (mem_init, [Committing 0 m rc]) (s, [Finished])"
    using sys_step.commit [of 0 "[Committing 0 m rc]", OF _ _ p(2)] by simp
  ultimately have "sys_reachable (s, [Finished])"
    unfolding sys_reachable_def by (meson rtranclp.rtrancl_into_rtrancl rtranclp.rtrancl_refl)
  with s show ?thesis by blast
qed

theorem concurrent_runs_are_histories_witness:
  "\<exists>(s :: memory_repository) es cs. mem_events s (sample_tenant, sample_run_id) = Some es \<and> history sample_created es cs"
proof -
  obtain s where s: "sys_reachable (s, [Finished])"
      "mem_load s sample_tenant sample_run_id = Some sample_created"
    using sample_system by blast
  from concurrent_runs_are_histories [OF s] show ?thesis by blast
qed

text \<open>C11: the commit of the in-memory repository is atomic and keeps its invariant. Whatever run,
  events and receipt are offered at whatever expected version, and whether or not the callback before
  the swap raises: an error leaves the state as it was; a success either replays the recorded
  outcome of the same intent and changes nothing, or publishes the validated candidate of the
  current version. In both cases logs stay gapless, event ids stay unique over all runs, and every recorded
  outcome stays consistent with the stored runs.\<close>
theorem memory_commit_atomic:
  assumes "mem_ok s" and "run_ok u" and "list_all run_event_ok es"
    and "command_receipt_post_init rc = Inr rc"
    and "mem_commit bs s v u es rc = (res, s')"
  shows "mem_ok s' \<and>
    (case res of
       Inl x \<Rightarrow> s' = s
     | Inr oc \<Rightarrow>
         if mem_commands s (rc_tenant_id rc, rc_command_id rc) \<noteq> None
         then s' = s \<and> oc_replayed oc \<and> rc_fingerprint (oc_receipt oc) = rc_fingerprint rc
         else bs = None \<and> s' = mem_published s u es rc oc \<and> oc_receipt oc = rc \<and>
           at_version (mem_runs s (r_tenant_id u, r_run_id u)) v \<and>
           candidate_ok v (mem_runs s (r_tenant_id u, r_run_id u)) u es rc (mem_event_ids s))"
proof -
  have "mem_ok s'" using mem_commit_ok [OF assms] .
  moreover have "case res of
       Inl x \<Rightarrow> s' = s
     | Inr oc \<Rightarrow>
         if mem_commands s (rc_tenant_id rc, rc_command_id rc) \<noteq> None
         then s' = s \<and> oc_replayed oc \<and> rc_fingerprint (oc_receipt oc) = rc_fingerprint rc
         else bs = None \<and> s' = mem_published s u es rc oc \<and> oc_receipt oc = rc \<and>
           at_version (mem_runs s (r_tenant_id u, r_run_id u)) v \<and>
           candidate_ok v (mem_runs s (r_tenant_id u, r_run_id u)) u es rc (mem_event_ids s)"
    using assms(5)
    by (cases rule: mem_commit_cases)
      (auto simp: new_commit_outcome_def split: sum.splits if_splits)
  ultimately show ?thesis by blast
qed

theorem memory_commit_atomic_witness:
  "\<exists>(m :: run_mutation) rc s' oc. mem_commit None mem_init 0 (mut_run m) (mut_events m) rc = (Inr oc, s') \<and>
     mem_ok s' \<and> s' = mem_published mem_init (mut_run m) (mut_events m) rc oc"
proof -
  obtain s m rc oc where p: "prepare_create sample_create_command (sample_env 0 ''e1'') = Inr (m, rc)"
      "mem_commit None mem_init 0 (mut_run m) (mut_events m) rc = (Inr oc, s)"
    using sample_created_state by blast
  have "task_ok mem_init (Committing 0 m rc)"
    by (rule prepare_task_ok [OF sample_create_ok p(1)])
  then have "run_ok (mut_run m)" "list_all run_event_ok (mut_events m)"
    "command_receipt_post_init rc = Inr rc" by simp_all
  from memory_commit_atomic [OF mem_init_ok this p(2)] have
    "mem_ok s \<and> s = mem_published mem_init (mut_run m) (mut_events m) rc oc"
    by (auto simp: mem_init_def)
  with p(2) show ?thesis by blast
qed

text \<open>C12: commands are idempotent. A call on an existing run that returned an outcome, whatever other
  commits happened between its awaits, returns that outcome again, marked as replayed, when
  the same command is sent in any later state of the repository, at any time and with any
  generated id, and then changes nothing.\<close>
theorem service_command_idempotent:
  assumes "mem_ok s1" and "commits (memory_ops bs) s1 s2" and "commits (memory_ops bs) s2 s3"
    and "command_ok_fields c"
    and "service_mutate (memory_ops bs) s1 s2 s3 c e = (Inr oc, s')"
    and "commits (memory_ops bs) s' t1"
  shows "service_mutate (memory_ops bs) t1 t2 t3 c e' = (Inr (oc\<lparr>oc_replayed := True\<rparr>), t3)"
  using mem_repo.mutate_idempotent [OF assms] .

theorem service_command_idempotent_witness:
  "\<exists>s oc s'. service_mutate (memory_ops None) s s s sample_start_command (sample_env 1 ''e2'') =
       (Inr oc, s') \<and>
     service_mutate (memory_ops None) s' s' s' sample_start_command (sample_env 9 ''e9'') =
       (Inr (oc\<lparr>oc_replayed := True\<rparr>), s')"
  using sample_started service_command_idempotent [OF _ commits.refl commits.refl sample_start_ok _
      commits.refl] by metis

text \<open>C13: no update is lost. When a call commits (and does not replay), the run stored at the moment of
  the commit has the version the caller expected, which is the version, status and update time
  of the run the operation was applied to, and the stored run becomes exactly the operation's
  result, even when other calls committed between the load and the commit.\<close>
theorem service_no_lost_update:
  assumes "mem_ok s1" and "commits (memory_ops bs) s1 s2" and "commits (memory_ops bs) s2 s3"
    and "command_ok_fields c"
    and "service_mutate (memory_ops bs) s1 s2 s3 c e = (Inr oc, s')"
    and "\<not> oc_replayed oc"
  shows "\<exists>r cur m. mem_load s2 (cmd_tenant_id c) (cmd_run_id c) = Some r \<and>
    run_operate r (cmd_operation c) (env_now e) (EventId (env_event_id e)) = Inr m \<and>
    mem_load s3 (cmd_tenant_id c) (cmd_run_id c) = Some cur \<and>
    r_version cur = cmd_expected_version c \<and> r_version r = cmd_expected_version c \<and>
    r_status cur = r_status r \<and> r_updated_at cur = r_updated_at r \<and>
    mem_load s' (cmd_tenant_id c) (cmd_run_id c) = Some (mut_run m) \<and>
    oc_events oc = mut_events m"
  using mem_repo.mutate_no_lost_update [OF assms] by simp

theorem service_no_lost_update_witness:
  "\<exists>s oc s' m. service_mutate (memory_ops None) s s s sample_start_command (sample_env 1 ''e2'') =
       (Inr oc, s') \<and> run_start sample_created (Utc (seconds 1)) (EventId ''e2'') = Inr m \<and>
     mem_load s' sample_tenant sample_run_id = Some (mut_run m)"
proof -
  obtain s oc s' where s: "mem_ok s" "mem_load s sample_tenant sample_run_id = Some sample_created"
    "service_mutate (memory_ops None) s s s sample_start_command (sample_env 1 ''e2'') =
       (Inr oc, s')" "\<not> oc_replayed oc"
    using sample_started by blast
  from service_no_lost_update [OF s(1) commits.refl commits.refl sample_start_ok s(3,4)] s
  show ?thesis by (auto simp: sample_start_command_def sample_env_def)
qed

text \<open>Paging through the events of a run is exact. For a stored run, a page returns precisely the
  events with the sequence numbers after the given one, in order and without gaps, at most
  \<open>limit\<close> of them; arguments out of range raise, and an unknown run is not found.\<close>
theorem memory_list_events_page:
  assumes "mem_ok s" and "mem_load s t r = Some c"
    and "0 \<le> after_sequence" and "1 \<le> limit" and "limit \<le> 1000"
  shows "\<exists>es. mem_list_events s t r after_sequence limit = Inr es \<and>
    map ev_sequence es = [after_sequence + 1..min (after_sequence + limit) (r_version c)]"
proof -
  have "mem_runs s (t, r) = Some c" using assms(2) by (simp add: mem_load_def)
  from stored_okD [OF mem_okD(1) [OF assms(1)] this] obtain es where
    es: "mem_events s (t, r) = Some es" "log_ok c es" by metis
  have "map ev_sequence (take n (filter (\<lambda>e. ev_sequence e > a) es)) =
      take n (filter (\<lambda>i. i > a) (map ev_sequence es))" for n a
    by (simp add: take_map filter_map comp_def)
  moreover have "take (nat limit) (filter (\<lambda>i. i > after_sequence) [1..r_version c]) =
      [after_sequence + 1..min (after_sequence + limit) (r_version c)]"
    using assms(3,4) take_filter_upto by blast
  ultimately show ?thesis
    using es assms(3-5) by (simp add: mem_list_events_def log_ok_def)
qed

theorem memory_list_events_page_witness:
  "\<exists>s es. mem_list_events s sample_tenant sample_run_id 0 100 = Inr es \<and> map ev_sequence es = [1..1]"
proof -
  obtain s where s: "mem_ok s" "mem_load s sample_tenant sample_run_id = Some sample_created"
    using sample_started by blast
  have "r_version sample_created = 1" by (simp add: sample_created_def created_run_def)
  with memory_list_events_page [OF s, of 0 100] obtain es where
    "mem_list_events s sample_tenant sample_run_id 0 100 = Inr es" "map ev_sequence es = [1..1]"
    by auto
  then show ?thesis by (intro exI conjI)
qed

end
