(* ===== verification/Lease_Values.thy ===== *)
theory Lease_Values
  imports Budget
begin

section \<open>Worker lease values\<close>

text \<open>
  \<open>src/zhiyi/domain/worker_leases/identifiers.py\<close> and \<open>models.py\<close>, the commands of
  \<open>application/commands/worker_leases.py\<close>, the token digest of
  \<open>infrastructure/security/lease_tokens.py\<close> and the delegation of
  \<open>application/services/worker_lease_kernel.py\<close>. A UUID is its 128-bit integer, a \<open>bytes\<close> value a
  list of bytes.
\<close>

subsection \<open>Identifiers and counters\<close>

definition min_lease_duration_seconds :: int where
  "min_lease_duration_seconds = 10"

definition max_lease_duration_seconds :: int where
  "max_lease_duration_seconds = 30"

definition default_lease_duration_seconds :: int where
  "default_lease_duration_seconds = 30"

definition lease_token_bytes :: nat where
  "lease_token_bytes = 32"

definition max_signed_bigint :: int where
  "max_signed_bigint = 9223372036854775807"

definition worker_id_pattern :: "string \<Rightarrow> bool" where
  "worker_id_pattern = identifier_pattern"

definition new_worker_id :: "string \<Rightarrow> exn + worker_id" where
  "new_worker_id s = (if worker_id_pattern s then Inr (WorkerId s) else Inl ValueError)"

text \<open>\<open>uuid.UUID\<close>: \<open>version\<close> is meaningful for the RFC 4122 variant only.\<close>

datatype uuid = Uuid (uuid_int: "128 word")

definition uuid_rfc_variant :: "uuid \<Rightarrow> bool" where
  "uuid_rfc_variant u \<longleftrightarrow> unat (drop_bit 62 (uuid_int u)) mod 4 = 2"

definition uuid_version :: "uuid \<Rightarrow> nat option" where
  "uuid_version u =
     (if uuid_rfc_variant u then Some (unat (drop_bit 76 (uuid_int u)) mod 16) else None)"

datatype lease_claim_id = LeaseClaimId (lease_claim_id_value: uuid)

definition new_lease_claim_id :: "uuid \<Rightarrow> exn + lease_claim_id" where
  "new_lease_claim_id u =
     (if uuid_version u \<noteq> Some 7 \<or> \<not> uuid_rfc_variant u then Inl ValueError
      else Inr (LeaseClaimId u))"

datatype lease_token = LeaseToken (lease_token_value: "byte list")

definition new_lease_token :: "byte list \<Rightarrow> exn + lease_token" where
  "new_lease_token bs =
     (if length bs \<noteq> lease_token_bytes then Inl ValueError else Inr (LeaseToken bs))"

text \<open>\<open>LeaseToken.__str__\<close> and \<open>__repr__\<close>.\<close>

definition lease_token_str :: "lease_token \<Rightarrow> string" where
  "lease_token_str t = ''<lease-token:redacted>''"

definition lease_token_repr :: "lease_token \<Rightarrow> string" where
  "lease_token_repr t = ''LeaseToken(<redacted>)''"

datatype lease_duration = LeaseDurationSeconds (duration_seconds: int)

definition new_lease_duration :: "int \<Rightarrow> exn + lease_duration" where
  "new_lease_duration v =
     (if \<not> (min_lease_duration_seconds \<le> v \<and> v \<le> max_lease_duration_seconds) then Inl ValueError
      else Inr (LeaseDurationSeconds v))"

definition lease_duration_ok :: "lease_duration \<Rightarrow> bool" where
  "lease_duration_ok d \<longleftrightarrow>
     min_lease_duration_seconds \<le> duration_seconds d \<and>
     duration_seconds d \<le> max_lease_duration_seconds"

datatype lease_attempt_no = LeaseAttemptNo (attempt_no_value: int)
datatype lease_version = LeaseVersion (lease_version_value: int)

definition new_counter :: "(int \<Rightarrow> 'c) \<Rightarrow> int \<Rightarrow> exn + 'c" where
  "new_counter cls v =
     (if \<not> (1 \<le> v \<and> v \<le> max_signed_bigint) then Inl ValueError else Inr (cls v))"

definition counter_next :: "(int \<Rightarrow> 'c) \<Rightarrow> int \<Rightarrow> exn + 'c" where
  "counter_next cls v =
     (if v = max_signed_bigint then Inl OverflowError else new_counter cls (v + 1))"

definition counter_ok :: "int \<Rightarrow> bool" where
  "counter_ok v \<longleftrightarrow> 1 \<le> v \<and> v \<le> max_signed_bigint"

lemma new_counter_Inr [simp]: "new_counter cls v = Inr c \<longleftrightarrow> counter_ok v \<and> c = cls v"
  by (auto simp: new_counter_def counter_ok_def)

lemma counter_next_eq:
  "counter_ok v \<Longrightarrow> counter_next cls v =
     (if v = max_signed_bigint then Inl OverflowError else Inr (cls (v + 1)))"
  by (simp add: counter_next_def new_counter_def counter_ok_def)

lemma new_lease_duration_Inr [simp]:
  "new_lease_duration v = Inr d \<longleftrightarrow> lease_duration_ok d \<and> d = LeaseDurationSeconds v"
  by (auto simp: new_lease_duration_def lease_duration_ok_def)

subsection \<open>Proofs, grants and authority\<close>

text \<open>\<open>renew_by_at\<close>: the captured time plus a third of the duration, floored.\<close>

definition renew_by_at :: "datetime \<Rightarrow> lease_duration \<Rightarrow> exn + datetime" where
  "renew_by_at captured_at d =
     result_bind (require_utc captured_at) (\<lambda>_.
       datetime_add captured_at (duration_seconds d * 1000000 div 3))"

record lease_authority_proof =
  pf_tenant_id :: tenant_id
  pf_run_id :: run_id
  pf_worker_id :: worker_id
  pf_claim_id :: lease_claim_id
  pf_attempt_no :: lease_attempt_no
  pf_token :: lease_token

record lease_grant =
  gr_tenant_id :: tenant_id
  gr_run_id :: run_id
  gr_worker_id :: worker_id
  gr_claim_id :: lease_claim_id
  gr_token :: lease_token
  gr_attempt_no :: lease_attempt_no
  gr_lease_version :: lease_version
  gr_duration :: lease_duration
  gr_acquired_at :: datetime
  gr_heartbeat_at :: datetime
  gr_lease_expires_at :: datetime
  gr_renew_by_at :: datetime
  gr_currently_authoritative :: bool

definition lease_grant_post_init :: "lease_grant \<Rightarrow> exn + lease_grant" where
  "lease_grant_post_init g =
     (if \<not> list_all is_utc
           [gr_acquired_at g, gr_heartbeat_at g, gr_lease_expires_at g, gr_renew_by_at g]
      then Inl ValueError
      else if instant (gr_heartbeat_at g) < instant (gr_acquired_at g) then Inl ValueError
      else if instant (gr_lease_expires_at g) \<le> instant (gr_heartbeat_at g) then Inl ValueError
      else if \<not> (instant (gr_heartbeat_at g) < instant (gr_renew_by_at g) \<and>
                 instant (gr_renew_by_at g) < instant (gr_lease_expires_at g)) then Inl ValueError
      else Inr g)"

definition grant_may_start_new_work :: "lease_grant \<Rightarrow> bool" where
  "grant_may_start_new_work g = gr_currently_authoritative g"

definition grant_proof :: "lease_grant \<Rightarrow> lease_authority_proof" where
  "grant_proof g =
     \<lparr>pf_tenant_id = gr_tenant_id g, pf_run_id = gr_run_id g, pf_worker_id = gr_worker_id g,
      pf_claim_id = gr_claim_id g, pf_attempt_no = gr_attempt_no g, pf_token = gr_token g\<rparr>"

datatype lease_claim_outcome_code = Claimed | NoWork

record lease_claim_outcome =
  lco_code :: lease_claim_outcome_code
  lco_grant :: "lease_grant option"
  lco_replayed :: bool

definition lease_claim_outcome_post_init :: "lease_claim_outcome \<Rightarrow> exn + lease_claim_outcome" where
  "lease_claim_outcome_post_init out =
     (if lco_code out = Claimed then
        (if lco_grant out = None then Inl TypeError else Inr out)
      else if lco_grant out \<noteq> None then Inl ValueError else Inr out)"

definition outcome_claimed :: "lease_grant \<Rightarrow> bool \<Rightarrow> exn + lease_claim_outcome" where
  "outcome_claimed g replayed = lease_claim_outcome_post_init
     \<lparr>lco_code = Claimed, lco_grant = Some g, lco_replayed = replayed\<rparr>"

definition outcome_no_work :: "bool \<Rightarrow> exn + lease_claim_outcome" where
  "outcome_no_work replayed = lease_claim_outcome_post_init
     \<lparr>lco_code = NoWork, lco_grant = None, lco_replayed = replayed\<rparr>"

definition outcome_may_start_new_work :: "lease_claim_outcome \<Rightarrow> bool" where
  "outcome_may_start_new_work out =
     (case lco_grant out of None \<Rightarrow> False | Some g \<Rightarrow> gr_currently_authoritative g)"

record lease_authority =
  au_authoritative :: bool
  au_reason :: "worker_lease_error_code option"
  au_lease_version :: "lease_version option"
  au_acquired_at :: "datetime option"
  au_heartbeat_at :: "datetime option"
  au_lease_expires_at :: "datetime option"

text \<open>The loop over the three timestamps: missing or not UTC raises \<open>ValueError\<close>.\<close>

fun require_timestamps :: "datetime option list \<Rightarrow> exn + unit" where
  "require_timestamps [] = Inr ()"
| "require_timestamps (None # ts) = Inl ValueError"
| "require_timestamps (Some t # ts) =
     result_bind (require_utc t) (\<lambda>_. require_timestamps ts)"

definition lease_authority_post_init :: "lease_authority \<Rightarrow> exn + lease_authority" where
  "lease_authority_post_init a =
     (if au_authoritative a \<and> au_reason a \<noteq> None then Inl ValueError
      else if \<not> au_authoritative a \<and> au_reason a \<notin> {Some LeaseNotCurrent, Some LeaseExpired}
      then Inl ValueError
      else if au_lease_version a = None \<and> au_acquired_at a = None \<and> au_heartbeat_at a = None \<and>
              au_lease_expires_at a = None then Inr a
      else if au_lease_version a = None then Inl TypeError
      else result_bind (require_timestamps
          [au_acquired_at a, au_heartbeat_at a, au_lease_expires_at a]) (\<lambda>_.
        (case (au_acquired_at a, au_heartbeat_at a, au_lease_expires_at a) of
           (Some acquired, Some heartbeat, Some expires) \<Rightarrow>
             if \<not> (instant acquired \<le> instant heartbeat \<and> instant heartbeat \<le> instant expires)
             then Inl ValueError else Inr a
         | _ \<Rightarrow> Inl ValueError)))"

definition authority_current ::
    "lease_version \<Rightarrow> datetime \<Rightarrow> datetime \<Rightarrow> datetime \<Rightarrow> exn + lease_authority" where
  "authority_current v acquired heartbeat expires = lease_authority_post_init
     \<lparr>au_authoritative = True, au_reason = None, au_lease_version = Some v,
      au_acquired_at = Some acquired, au_heartbeat_at = Some heartbeat,
      au_lease_expires_at = Some expires\<rparr>"

definition authority_not_current :: "exn + lease_authority" where
  "authority_not_current = lease_authority_post_init
     \<lparr>au_authoritative = False, au_reason = Some LeaseNotCurrent, au_lease_version = None,
      au_acquired_at = None, au_heartbeat_at = None, au_lease_expires_at = None\<rparr>"

definition authority_expired ::
    "lease_version \<Rightarrow> datetime \<Rightarrow> datetime \<Rightarrow> datetime \<Rightarrow> exn + lease_authority" where
  "authority_expired v acquired heartbeat expires = lease_authority_post_init
     \<lparr>au_authoritative = False, au_reason = Some LeaseExpired, au_lease_version = Some v,
      au_acquired_at = Some acquired, au_heartbeat_at = Some heartbeat,
      au_lease_expires_at = Some expires\<rparr>"

definition authority_may_start_new_work :: "lease_authority \<Rightarrow> bool" where
  "authority_may_start_new_work a = au_authoritative a"

record conditional_lease_outcome =
  cl_applied :: bool
  cl_authority :: lease_authority
  cl_renew_by_at :: "datetime option"

definition conditional_lease_outcome_post_init ::
    "conditional_lease_outcome \<Rightarrow> exn + conditional_lease_outcome" where
  "conditional_lease_outcome_post_init c =
     (case cl_renew_by_at c of
        None \<Rightarrow> Inr c
      | Some t \<Rightarrow> result_bind (require_utc t) (\<lambda>_. Inr c))"

definition conditional_may_start_new_work :: "conditional_lease_outcome \<Rightarrow> bool" where
  "conditional_may_start_new_work c \<longleftrightarrow> cl_applied c \<and> au_authoritative (cl_authority c)"

subsection \<open>Inactive leases\<close>

datatype inactive_running_reason = ReasonExpired | ReasonReleased

fun inactive_running_reason_value :: "inactive_running_reason \<Rightarrow> string" where
  "inactive_running_reason_value ReasonExpired = ''expired''"
| "inactive_running_reason_value ReasonReleased = ''released''"

record inactive_running_lease =
  in_tenant_id :: tenant_id
  in_run_id :: run_id
  in_attempt_no :: lease_attempt_no
  in_lease_version :: lease_version
  in_acquired_at :: datetime
  in_heartbeat_at :: datetime
  in_authority_ended_at :: datetime
  in_reason :: inactive_running_reason

definition inactive_running_lease_post_init ::
    "inactive_running_lease \<Rightarrow> exn + inactive_running_lease" where
  "inactive_running_lease_post_init i =
     (if \<not> list_all is_utc [in_acquired_at i, in_heartbeat_at i, in_authority_ended_at i]
      then Inl ValueError
      else if instant (in_heartbeat_at i) < instant (in_acquired_at i) then Inl ValueError
      else if instant (in_authority_ended_at i) < instant (in_acquired_at i) then Inl ValueError
      else Inr i)"

record inactive_running_cursor =
  cu_tenant_id :: tenant_id
  cu_as_of :: datetime
  cu_last_authority_ended_at :: datetime
  cu_last_run_id :: run_id

definition inactive_running_cursor_post_init ::
    "inactive_running_cursor \<Rightarrow> exn + inactive_running_cursor" where
  "inactive_running_cursor_post_init c =
     result_bind (require_utc (cu_as_of c)) (\<lambda>_.
     result_bind (require_utc (cu_last_authority_ended_at c)) (\<lambda>_.
       if instant (cu_as_of c) < instant (cu_last_authority_ended_at c) then Inl ValueError
       else Inr c))"

record inactive_running_page =
  pg_items :: "inactive_running_lease list"
  pg_next_cursor :: "inactive_running_cursor option"

subsection \<open>Claim intents\<close>

definition claim_intent_format_version :: nat where
  "claim_intent_format_version = 1"

definition length_prefixed :: "string \<Rightarrow> string" where
  "length_prefixed s = nat_text (length s) @ '':'' @ s"

text \<open>The fields are ASCII, so the encoded bytes are the characters.\<close>

definition encode_claim_intent :: "worker_id \<Rightarrow> lease_duration \<Rightarrow> string" where
  "encode_claim_intent w d =
     join ''|'' (map length_prefixed
       [nat_text claim_intent_format_version, worker_id_value w,
        nat_text (nat (duration_seconds d))])"

record claim_lease_command =
  clm_tenant_id :: tenant_id
  clm_worker_id :: worker_id
  clm_claim_id :: lease_claim_id
  clm_duration :: lease_duration

definition claim_intent_fingerprint :: "claim_lease_command \<Rightarrow> string" where
  "claim_intent_fingerprint c =
     sha256_fingerprint (ascii_bytes (encode_claim_intent (clm_worker_id c) (clm_duration c)))"

record renew_lease_command =
  rnw_proof :: lease_authority_proof
  rnw_expected_version :: lease_version
  rnw_duration :: lease_duration

record release_lease_command =
  rls_proof :: lease_authority_proof
  rls_expected_version :: lease_version

subsection \<open>Token digests\<close>

definition digest_lease_token :: "lease_token \<Rightarrow> byte list" where
  "digest_lease_token t = sha256_digest (lease_token_value t)"

definition lease_token_matches :: "lease_token \<Rightarrow> byte list \<Rightarrow> exn + bool" where
  "lease_token_matches t expected =
     (if length expected \<noteq> 32 then Inl ValueError else Inr (digest_lease_token t = expected))"

subsection \<open>Lemmas\<close>

text \<open>
  A length-prefixed field decodes in front of any other text: the digits before the first
  colon give the length.
\<close>

definition parse_prefixed :: "string \<Rightarrow> string \<times> string" where
  "parse_prefixed s =
     (let digits = takeWhile is_digit s; rest = drop (length digits + 1) s; n = text_value digits
      in (take n rest, drop n rest))"

lemma parse_length_prefixed [simp]: "parse_prefixed (length_prefixed s @ rest) = (s, rest)"
proof -
  have "takeWhile is_digit (nat_text (length s) @ '':'' @ s @ rest) = nat_text (length s)"
    by (subst takeWhile_append2) (auto dest: nat_text_digits simp: is_digit_def char_in_def)
  then show ?thesis by (simp add: parse_prefixed_def length_prefixed_def)
qed

lemma length_prefixed_inj:
  "length_prefixed s @ r = length_prefixed s' @ r' \<longleftrightarrow> s = s' \<and> r = r'"
  by (metis parse_length_prefixed prod.inject)

lemma renew_by_within:
  assumes "lease_duration_ok d"
  shows "0 < duration_seconds d * 1000000 div 3 \<and>
    duration_seconds d * 1000000 div 3 < duration_seconds d * 1000000"
proof -
  have "10 \<le> duration_seconds d"
    using assms by (simp add: lease_duration_ok_def min_lease_duration_seconds_def)
  then have "3 \<le> duration_seconds d * 1000000" by simp
  then show ?thesis by (simp add: pos_imp_zdiv_pos_iff int_div_less_self)
qed

end
