(* ===== verification/Lease_Records.thy ===== *)
theory Lease_Records
  imports Lease_Values
begin

section \<open>Stored worker leases and claim receipts\<close>

text \<open>
  \<open>src/zhiyi/adapters/persistence/postgresql_worker_lease_codecs.py\<close>: the lease and receipt records,
  their rows, and the decoders that turn every malformed row into the data-corruption error.
  A row is a dictionary from column names to database values.
\<close>

datatype db_value =
    DvNull
  | DvText string
  | DvInt int
  | DvBool bool
  | DvBytes "byte list"
  | DvUuid uuid
  | DvTime datetime
  | DvOther

type_synonym db_row = "(string \<times> db_value) list"

datatype stored_claim_outcome = StoredClaimed | StoredNoWork

fun stored_claim_outcome_value :: "stored_claim_outcome \<Rightarrow> string" where
  "stored_claim_outcome_value StoredClaimed = ''claimed''"
| "stored_claim_outcome_value StoredNoWork = ''no_work''"

definition record_format_version :: int where
  "record_format_version = 1"

definition intent_format_version :: int where
  "intent_format_version = 1"

text \<open>
  \<open>claim_id_issued_at\<close>: the milliseconds in the top 48 bits. \<open>fromtimestamp\<close> raises \<open>ValueError\<close> past
  the year 9999. The division by 1000 is exact here; CPython's double is exact to the
  microsecond for timestamps before the year 2242.
\<close>

definition claim_id_issued_at :: "lease_claim_id \<Rightarrow> exn + datetime" where
  "claim_id_issued_at c =
     (let milliseconds = uint (drop_bit 80 (uuid_int (lease_claim_id_value c))) in
      if in_range (milliseconds * 1000) then Inr (Utc (milliseconds * 1000)) else Inl ValueError)"

abbreviation hours :: "int \<Rightarrow> int" where
  "hours n \<equiv> n * 3600000000"

subsection \<open>Records\<close>

record worker_lease_record =
  wl_tenant_id :: tenant_id
  wl_run_id :: run_id
  wl_worker_id :: worker_id
  wl_claim_id :: lease_claim_id
  wl_token_digest :: "byte list"
  wl_attempt_no :: lease_attempt_no
  wl_lease_version :: lease_version
  wl_duration :: lease_duration
  wl_acquired_at :: datetime
  wl_heartbeat_at :: datetime
  wl_lease_expires_at :: datetime
  wl_released_at :: "datetime option"

definition worker_lease_record_post_init :: "worker_lease_record \<Rightarrow> exn + worker_lease_record" where
  "worker_lease_record_post_init r =
     (if length (wl_token_digest r) \<noteq> 32 then Inl ValueError
      else if \<not> list_all is_utc [wl_acquired_at r, wl_heartbeat_at r, wl_lease_expires_at r]
      then Inl ValueError
      else if instant (wl_heartbeat_at r) < instant (wl_acquired_at r) then Inl ValueError
      else if instant (wl_lease_expires_at r) \<le> instant (wl_heartbeat_at r) then Inl ValueError
      else (case wl_released_at r of
          None \<Rightarrow> Inr r
        | Some t \<Rightarrow>
            if \<not> is_utc t then Inl ValueError
            else if instant t < instant (wl_acquired_at r) then Inl ValueError
            else Inr r))"

record claim_receipt_record =
  cr_tenant_id :: tenant_id
  cr_claim_id :: lease_claim_id
  cr_claim_issued_at :: datetime
  cr_replay_expires_at :: datetime
  cr_worker_id :: worker_id
  cr_duration :: lease_duration
  cr_intent_fingerprint :: string
  cr_outcome :: stored_claim_outcome
  cr_run_id :: "run_id option"
  cr_attempt_no :: "lease_attempt_no option"
  cr_initial_lease_version :: "lease_version option"
  cr_lease_acquired_at :: "datetime option"
  cr_lease_expires_at :: "datetime option"
  cr_replay_token :: "lease_token option"
  cr_created_at :: datetime

definition claim_result_complete :: "claim_receipt_record \<Rightarrow> exn + claim_receipt_record" where
  "claim_result_complete r =
     (if cr_run_id r = None \<or> cr_attempt_no r = None \<or> cr_initial_lease_version r = None \<or>
         cr_replay_token r = None then Inl TypeError
      else (case (cr_lease_acquired_at r, cr_lease_expires_at r) of
          (Some acquired, Some expires) \<Rightarrow>
            if \<not> is_utc acquired \<or> \<not> is_utc expires then Inl ValueError
            else if instant expires \<le> instant acquired then Inl ValueError
            else Inr r
        | _ \<Rightarrow> Inl ValueError))"

definition claim_receipt_record_post_init ::
    "claim_receipt_record \<Rightarrow> exn + claim_receipt_record" where
  "claim_receipt_record_post_init r =
     (if \<not> list_all is_utc [cr_claim_issued_at r, cr_replay_expires_at r, cr_created_at r]
      then Inl ValueError
      else result_bind (claim_id_issued_at (cr_claim_id r)) (\<lambda>issued.
        if instant (cr_claim_issued_at r) \<noteq> instant issued then Inl ValueError
        else result_bind (datetime_add (cr_claim_issued_at r) (hours 24)) (\<lambda>expires.
          if instant (cr_replay_expires_at r) \<noteq> instant expires then Inl ValueError
          else if \<not> digest_pattern (cr_intent_fingerprint r) then Inl ValueError
          else if cr_outcome r = StoredNoWork then
            (if cr_run_id r \<noteq> None \<or> cr_attempt_no r \<noteq> None \<or>
                cr_initial_lease_version r \<noteq> None \<or> cr_lease_acquired_at r \<noteq> None \<or>
                cr_lease_expires_at r \<noteq> None \<or> cr_replay_token r \<noteq> None
             then Inl ValueError else Inr r)
          else claim_result_complete r)))"

subsection \<open>Encoding\<close>

fun dv_optional :: "('a \<Rightarrow> db_value) \<Rightarrow> 'a option \<Rightarrow> db_value" where
  "dv_optional f None = DvNull"
| "dv_optional f (Some x) = f x"

definition encode_worker_lease :: "worker_lease_record \<Rightarrow> db_row" where
  "encode_worker_lease r =
     [(''tenant_id'', DvText (tenant_id_value (wl_tenant_id r))),
      (''run_id'', DvText (run_id_value (wl_run_id r))),
      (''worker_id'', DvText (worker_id_value (wl_worker_id r))),
      (''claim_id'', DvUuid (lease_claim_id_value (wl_claim_id r))),
      (''token_digest'', DvBytes (wl_token_digest r)),
      (''attempt_no'', DvInt (attempt_no_value (wl_attempt_no r))),
      (''lease_version'', DvInt (lease_version_value (wl_lease_version r))),
      (''duration_seconds'', DvInt (duration_seconds (wl_duration r))),
      (''acquired_at'', DvTime (wl_acquired_at r)),
      (''heartbeat_at'', DvTime (wl_heartbeat_at r)),
      (''lease_expires_at'', DvTime (wl_lease_expires_at r)),
      (''released_at'', dv_optional DvTime (wl_released_at r)),
      (''record_format_version'', DvInt record_format_version)]"

definition encode_claim_receipt :: "claim_receipt_record \<Rightarrow> db_row" where
  "encode_claim_receipt r =
     [(''tenant_id'', DvText (tenant_id_value (cr_tenant_id r))),
      (''claim_id'', DvUuid (lease_claim_id_value (cr_claim_id r))),
      (''claim_issued_at'', DvTime (cr_claim_issued_at r)),
      (''replay_expires_at'', DvTime (cr_replay_expires_at r)),
      (''worker_id'', DvText (worker_id_value (cr_worker_id r))),
      (''duration_seconds'', DvInt (duration_seconds (cr_duration r))),
      (''intent_format_version'', DvInt intent_format_version),
      (''intent_fingerprint'', DvText (cr_intent_fingerprint r)),
      (''outcome'', DvText (stored_claim_outcome_value (cr_outcome r))),
      (''run_id'', dv_optional (DvText \<circ> run_id_value) (cr_run_id r)),
      (''attempt_no'', dv_optional (DvInt \<circ> attempt_no_value) (cr_attempt_no r)),
      (''initial_lease_version'',
        dv_optional (DvInt \<circ> lease_version_value) (cr_initial_lease_version r)),
      (''lease_acquired_at'', dv_optional DvTime (cr_lease_acquired_at r)),
      (''lease_expires_at'', dv_optional DvTime (cr_lease_expires_at r)),
      (''replay_token'', dv_optional (DvBytes \<circ> lease_token_value) (cr_replay_token r)),
      (''created_at'', DvTime (cr_created_at r)),
      (''record_format_version'', DvInt record_format_version)]"

subsection \<open>Decoding\<close>

definition column :: "db_row \<Rightarrow> string \<Rightarrow> exn + db_value" where
  "column row name = (case map_of row name of Some v \<Rightarrow> Inr v | None \<Rightarrow> Inl KeyError)"

text \<open>The constructors applied to a database value, with the exception each raises.\<close>

fun dv_identifier :: "(string \<Rightarrow> 'i) \<Rightarrow> db_value \<Rightarrow> exn + 'i" where
  "dv_identifier cls (DvText s) = new_identifier cls s"
| "dv_identifier cls _ = Inl ValueError"

fun dv_claim_id :: "db_value \<Rightarrow> exn + lease_claim_id" where
  "dv_claim_id (DvUuid u) = new_lease_claim_id u"
| "dv_claim_id _ = Inl TypeError"

fun dv_counter :: "(int \<Rightarrow> 'c) \<Rightarrow> db_value \<Rightarrow> exn + 'c" where
  "dv_counter cls (DvInt i) = new_counter cls i"
| "dv_counter cls _ = Inl TypeError"

fun dv_duration :: "db_value \<Rightarrow> exn + lease_duration" where
  "dv_duration (DvInt i) = new_lease_duration i"
| "dv_duration _ = Inl TypeError"

fun dv_token :: "db_value \<Rightarrow> exn + lease_token" where
  "dv_token (DvBytes bs) = new_lease_token bs"
| "dv_token _ = Inl TypeError"

text \<open>Values the record's own constructor checks: another type fails there with \<open>ValueError\<close>.\<close>

fun dv_bytes :: "db_value \<Rightarrow> exn + byte list" where
  "dv_bytes (DvBytes bs) = Inr bs"
| "dv_bytes _ = Inl ValueError"

fun dv_time :: "db_value \<Rightarrow> exn + datetime" where
  "dv_time (DvTime t) = Inr t"
| "dv_time _ = Inl ValueError"

fun dv_text :: "db_value \<Rightarrow> exn + string" where
  "dv_text (DvText s) = Inr s"
| "dv_text _ = Inl ValueError"

fun dv_outcome :: "db_value \<Rightarrow> exn + stored_claim_outcome" where
  "dv_outcome (DvText s) =
     (if s = ''claimed'' then Inr StoredClaimed else if s = ''no_work'' then Inr StoredNoWork
      else Inl ValueError)"
| "dv_outcome _ = Inl ValueError"

fun dv_reason :: "db_value \<Rightarrow> exn + inactive_running_reason" where
  "dv_reason (DvText s) =
     (if s = ''expired'' then Inr ReasonExpired else if s = ''released'' then Inr ReasonReleased
      else Inl ValueError)"
| "dv_reason _ = Inl ValueError"

fun dv_option :: "(db_value \<Rightarrow> exn + 'a) \<Rightarrow> db_value \<Rightarrow> exn + 'a option" where
  "dv_option f DvNull = Inr None"
| "dv_option f v = result_bind (f v) (\<lambda>x. Inr (Some x))"

definition field :: "db_row \<Rightarrow> string \<Rightarrow> (db_value \<Rightarrow> exn + 'a) \<Rightarrow> exn + 'a" where
  "field row name f = result_bind (column row name) f"

text \<open>\<open>type(record.get(name)) is not int or record.get(name) != version\<close>\<close>

definition require_version :: "db_row \<Rightarrow> string \<Rightarrow> int \<Rightarrow> exn + unit" where
  "require_version row name version =
     (if map_of row name \<noteq> Some (DvInt version) then Inl ValueError else Inr ())"

text \<open>\<open>except (KeyError, TypeError, ValueError, OverflowError)\<close>\<close>

fun corrupt_lease :: "exn \<Rightarrow> exn" where
  "corrupt_lease KeyError = WorkerLeaseError LeaseDataCorruption"
| "corrupt_lease TypeError = WorkerLeaseError LeaseDataCorruption"
| "corrupt_lease ValueError = WorkerLeaseError LeaseDataCorruption"
| "corrupt_lease OverflowError = WorkerLeaseError LeaseDataCorruption"
| "corrupt_lease x = x"

definition decode_worker_lease_raw :: "db_row \<Rightarrow> exn + worker_lease_record" where
  "decode_worker_lease_raw row =
     result_bind (require_version row ''record_format_version'' record_format_version) (\<lambda>_.
     result_bind (field row ''tenant_id'' (dv_identifier TenantId)) (\<lambda>tenant.
     result_bind (field row ''run_id'' (dv_identifier RunId)) (\<lambda>run.
     result_bind (field row ''worker_id'' (dv_identifier WorkerId)) (\<lambda>worker.
     result_bind (field row ''claim_id'' dv_claim_id) (\<lambda>claim.
     result_bind (field row ''token_digest'' dv_bytes) (\<lambda>digest.
     result_bind (field row ''attempt_no'' (dv_counter LeaseAttemptNo)) (\<lambda>attempt.
     result_bind (field row ''lease_version'' (dv_counter LeaseVersion)) (\<lambda>version.
     result_bind (field row ''duration_seconds'' dv_duration) (\<lambda>duration.
     result_bind (field row ''acquired_at'' dv_time) (\<lambda>acquired.
     result_bind (field row ''heartbeat_at'' dv_time) (\<lambda>heartbeat.
     result_bind (field row ''lease_expires_at'' dv_time) (\<lambda>expires.
     result_bind (field row ''released_at'' (dv_option dv_time)) (\<lambda>released.
       worker_lease_record_post_init
         \<lparr>wl_tenant_id = tenant, wl_run_id = run, wl_worker_id = worker, wl_claim_id = claim,
          wl_token_digest = digest, wl_attempt_no = attempt, wl_lease_version = version,
          wl_duration = duration, wl_acquired_at = acquired, wl_heartbeat_at = heartbeat,
          wl_lease_expires_at = expires, wl_released_at = released\<rparr>)))))))))))))"

definition decode_worker_lease :: "db_row \<Rightarrow> exn + worker_lease_record" where
  "decode_worker_lease row =
     (case decode_worker_lease_raw row of Inl x \<Rightarrow> Inl (corrupt_lease x) | Inr r \<Rightarrow> Inr r)"

definition decode_claim_receipt_raw :: "db_row \<Rightarrow> exn + claim_receipt_record" where
  "decode_claim_receipt_raw row =
     result_bind (require_version row ''record_format_version'' record_format_version) (\<lambda>_.
     result_bind (require_version row ''intent_format_version'' intent_format_version) (\<lambda>_.
     result_bind (field row ''tenant_id'' (dv_identifier TenantId)) (\<lambda>tenant.
     result_bind (field row ''claim_id'' dv_claim_id) (\<lambda>claim.
     result_bind (field row ''claim_issued_at'' dv_time) (\<lambda>issued.
     result_bind (field row ''replay_expires_at'' dv_time) (\<lambda>replay_expires.
     result_bind (field row ''worker_id'' (dv_identifier WorkerId)) (\<lambda>worker.
     result_bind (field row ''duration_seconds'' dv_duration) (\<lambda>duration.
     result_bind (field row ''intent_fingerprint'' dv_text) (\<lambda>fingerprint.
     result_bind (field row ''outcome'' dv_outcome) (\<lambda>outcome.
     result_bind (field row ''run_id'' (dv_option (dv_identifier RunId))) (\<lambda>run.
     result_bind (field row ''attempt_no'' (dv_option (dv_counter LeaseAttemptNo))) (\<lambda>attempt.
     result_bind (field row ''initial_lease_version''
       (dv_option (dv_counter LeaseVersion))) (\<lambda>version.
     result_bind (field row ''lease_acquired_at'' (dv_option dv_time)) (\<lambda>acquired.
     result_bind (field row ''lease_expires_at'' (dv_option dv_time)) (\<lambda>expires.
     result_bind (field row ''replay_token'' (dv_option dv_token)) (\<lambda>token.
     result_bind (field row ''created_at'' dv_time) (\<lambda>created.
       claim_receipt_record_post_init
         \<lparr>cr_tenant_id = tenant, cr_claim_id = claim, cr_claim_issued_at = issued,
          cr_replay_expires_at = replay_expires, cr_worker_id = worker, cr_duration = duration,
          cr_intent_fingerprint = fingerprint, cr_outcome = outcome, cr_run_id = run,
          cr_attempt_no = attempt, cr_initial_lease_version = version,
          cr_lease_acquired_at = acquired, cr_lease_expires_at = expires,
          cr_replay_token = token, cr_created_at = created\<rparr>)))))))))))))))))"

definition decode_claim_receipt :: "db_row \<Rightarrow> exn + claim_receipt_record" where
  "decode_claim_receipt row =
     (case decode_claim_receipt_raw row of Inl x \<Rightarrow> Inl (corrupt_lease x) | Inr r \<Rightarrow> Inr r)"

definition decode_inactive_running_raw :: "db_row \<Rightarrow> exn + inactive_running_lease" where
  "decode_inactive_running_raw row =
     result_bind (field row ''tenant_id'' (dv_identifier TenantId)) (\<lambda>tenant.
     result_bind (field row ''run_id'' (dv_identifier RunId)) (\<lambda>run.
     result_bind (field row ''attempt_no'' (dv_counter LeaseAttemptNo)) (\<lambda>attempt.
     result_bind (field row ''lease_version'' (dv_counter LeaseVersion)) (\<lambda>version.
     result_bind (field row ''acquired_at'' dv_time) (\<lambda>acquired.
     result_bind (field row ''heartbeat_at'' dv_time) (\<lambda>heartbeat.
     result_bind (field row ''authority_ended_at'' dv_time) (\<lambda>ended.
     result_bind (field row ''reason'' dv_reason) (\<lambda>reason.
       inactive_running_lease_post_init
         \<lparr>in_tenant_id = tenant, in_run_id = run, in_attempt_no = attempt,
          in_lease_version = version, in_acquired_at = acquired, in_heartbeat_at = heartbeat,
          in_authority_ended_at = ended, in_reason = reason\<rparr>))))))))"

definition decode_inactive_running :: "db_row \<Rightarrow> exn + inactive_running_lease" where
  "decode_inactive_running row =
     (case decode_inactive_running_raw row of Inl x \<Rightarrow> Inl (corrupt_lease x) | Inr r \<Rightarrow> Inr r)"

subsection \<open>Round trips\<close>

definition claim_id_ok :: "lease_claim_id \<Rightarrow> bool" where
  "claim_id_ok c \<longleftrightarrow> new_lease_claim_id (lease_claim_id_value c) = Inr c"

definition worker_lease_record_ok :: "worker_lease_record \<Rightarrow> bool" where
  "worker_lease_record_ok r \<longleftrightarrow>
     identifier_pattern (tenant_id_value (wl_tenant_id r)) \<and>
     identifier_pattern (run_id_value (wl_run_id r)) \<and>
     identifier_pattern (worker_id_value (wl_worker_id r)) \<and> claim_id_ok (wl_claim_id r) \<and>
     counter_ok (attempt_no_value (wl_attempt_no r)) \<and>
     counter_ok (lease_version_value (wl_lease_version r)) \<and>
     lease_duration_ok (wl_duration r) \<and> worker_lease_record_post_init r = Inr r"

definition token_ok :: "lease_token \<Rightarrow> bool" where
  "token_ok t \<longleftrightarrow> length (lease_token_value t) = lease_token_bytes"

definition option_all :: "('a \<Rightarrow> bool) \<Rightarrow> 'a option \<Rightarrow> bool" where
  "option_all P x = (case x of None \<Rightarrow> True | Some y \<Rightarrow> P y)"

definition claim_receipt_record_ok :: "claim_receipt_record \<Rightarrow> bool" where
  "claim_receipt_record_ok r \<longleftrightarrow>
     identifier_pattern (tenant_id_value (cr_tenant_id r)) \<and>
     identifier_pattern (worker_id_value (cr_worker_id r)) \<and> claim_id_ok (cr_claim_id r) \<and>
     lease_duration_ok (cr_duration r) \<and>
     option_all (\<lambda>i. identifier_pattern (run_id_value i)) (cr_run_id r) \<and>
     option_all (\<lambda>a. counter_ok (attempt_no_value a)) (cr_attempt_no r) \<and>
     option_all (\<lambda>v. counter_ok (lease_version_value v)) (cr_initial_lease_version r) \<and>
     option_all token_ok (cr_replay_token r) \<and> claim_receipt_record_post_init r = Inr r"

lemma option_all_simps [simp]: "option_all P None" "option_all P (Some x) = P x"
  by (simp_all add: option_all_def)

lemma corrupt_lease_cases:
  "corrupt_lease x = WorkerLeaseError LeaseDataCorruption \<or> corrupt_lease x = x"
  by (cases x) simp_all

lemma dv_option_optional [simp]:
  "(\<And>x. x \<in> set_option v \<Longrightarrow> g x \<noteq> DvNull \<and> f (g x) = Inr x) \<Longrightarrow>
     dv_option f (dv_optional g v) = Inr v"
proof (cases v)
  case (Some x)
  moreover assume "\<And>x. x \<in> set_option v \<Longrightarrow> g x \<noteq> DvNull \<and> f (g x) = Inr x"
  ultimately have "g x \<noteq> DvNull" "f (g x) = Inr x" by simp_all
  with Some show ?thesis by (cases "g x") simp_all
qed simp

lemma duration_collapse [simp]: "LeaseDurationSeconds (duration_seconds d) = d"
  by (cases d) simp

lemma worker_lease_record_collapse:
  "\<lparr>wl_tenant_id = wl_tenant_id r, wl_run_id = wl_run_id r, wl_worker_id = wl_worker_id r,
    wl_claim_id = wl_claim_id r, wl_token_digest = wl_token_digest r,
    wl_attempt_no = wl_attempt_no r, wl_lease_version = wl_lease_version r,
    wl_duration = wl_duration r, wl_acquired_at = wl_acquired_at r,
    wl_heartbeat_at = wl_heartbeat_at r, wl_lease_expires_at = wl_lease_expires_at r,
    wl_released_at = wl_released_at r\<rparr> = r"
  by (cases r) simp

lemma claim_receipt_record_collapse:
  "\<lparr>cr_tenant_id = cr_tenant_id r, cr_claim_id = cr_claim_id r,
    cr_claim_issued_at = cr_claim_issued_at r, cr_replay_expires_at = cr_replay_expires_at r,
    cr_worker_id = cr_worker_id r, cr_duration = cr_duration r,
    cr_intent_fingerprint = cr_intent_fingerprint r, cr_outcome = cr_outcome r,
    cr_run_id = cr_run_id r, cr_attempt_no = cr_attempt_no r,
    cr_initial_lease_version = cr_initial_lease_version r,
    cr_lease_acquired_at = cr_lease_acquired_at r, cr_lease_expires_at = cr_lease_expires_at r,
    cr_replay_token = cr_replay_token r, cr_created_at = cr_created_at r\<rparr> = r"
  by (cases r) simp

lemma decode_encode_worker_lease:
  assumes "worker_lease_record_ok r"
  shows "decode_worker_lease (encode_worker_lease r) = Inr r"
  using assms
  by (simp add: decode_worker_lease_def decode_worker_lease_raw_def encode_worker_lease_def
      require_version_def field_def column_def worker_lease_record_ok_def new_identifier_def
      claim_id_ok_def new_counter_def counter_ok_def new_lease_duration_def lease_duration_ok_def
      worker_lease_record_collapse)

lemma decode_encode_claim_receipt:
  assumes "claim_receipt_record_ok r"
  shows "decode_claim_receipt (encode_claim_receipt r) = Inr r"
proof -
  have outcome: "dv_outcome (DvText (stored_claim_outcome_value (cr_outcome r))) = Inr (cr_outcome r)"
    by (cases "cr_outcome r") simp_all
  have opts:
    "dv_option (dv_identifier RunId) (dv_optional (DvText \<circ> run_id_value) (cr_run_id r)) =
      Inr (cr_run_id r)"
    "dv_option (dv_counter LeaseAttemptNo) (dv_optional (DvInt \<circ> attempt_no_value)
      (cr_attempt_no r)) = Inr (cr_attempt_no r)"
    "dv_option (dv_counter LeaseVersion) (dv_optional (DvInt \<circ> lease_version_value)
      (cr_initial_lease_version r)) = Inr (cr_initial_lease_version r)"
    "dv_option dv_token (dv_optional (DvBytes \<circ> lease_token_value) (cr_replay_token r)) =
      Inr (cr_replay_token r)"
    "dv_option dv_time (dv_optional DvTime (cr_lease_acquired_at r)) = Inr (cr_lease_acquired_at r)"
    "dv_option dv_time (dv_optional DvTime (cr_lease_expires_at r)) = Inr (cr_lease_expires_at r)"
    using assms
    by (auto simp: claim_receipt_record_ok_def option_all_def new_identifier_def token_ok_def
        new_lease_token_def new_counter_def counter_ok_def intro!: dv_option_optional
        split: option.splits)
  show ?thesis
    using assms outcome opts
    by (simp add: decode_claim_receipt_def decode_claim_receipt_raw_def encode_claim_receipt_def
        require_version_def field_def column_def claim_receipt_record_ok_def new_identifier_def
        claim_id_ok_def new_lease_duration_def lease_duration_ok_def claim_receipt_record_collapse)
qed

subsection \<open>Malformed rows\<close>

text \<open>What a decoder raises before the \<open>except\<close> clause is caught there.\<close>

definition caught :: "exn + 'a \<Rightarrow> bool" where
  "caught r \<longleftrightarrow> (\<forall>x. r = Inl x \<longrightarrow> x \<in> {KeyError, TypeError, ValueError, OverflowError})"

lemma caught_corrupt:
  "caught r \<Longrightarrow> r = Inl x \<Longrightarrow> corrupt_lease x = WorkerLeaseError LeaseDataCorruption"
  by (auto simp: caught_def)

named_theorems caught_rules \<open>calls that raise only what the decoders catch\<close>

lemma caught_bind [caught_rules]:
  "caught r \<Longrightarrow> (\<And>v. caught (f v)) \<Longrightarrow> caught (result_bind r f)"
  by (auto simp: caught_def result_bind_eq_Inl)

lemma caught_dv [caught_rules]:
  "caught (dv_identifier cls v)" "caught (dv_claim_id v)" "caught (dv_counter cls' v)"
  "caught (dv_duration v)" "caught (dv_token v)" "caught (dv_bytes v)" "caught (dv_time v)"
  "caught (dv_text v)" "caught (dv_outcome v)" "caught (dv_reason v)"
  by (cases v; auto simp: caught_def new_identifier_def new_lease_claim_id_def new_counter_def
      new_lease_duration_def new_lease_token_def split: if_splits)+

lemma caught_option [caught_rules]: "(\<And>v. caught (f v)) \<Longrightarrow> caught (dv_option f v)"
  by (cases v) (auto simp: caught_def result_bind_eq_Inl)

lemma caught_field [caught_rules]: "(\<And>v. caught (f v)) \<Longrightarrow> caught (field row name f)"
  by (auto simp: caught_def field_def column_def result_bind_eq_Inl split: option.splits)

lemma caught_version [caught_rules]: "caught (require_version row name v)"
  by (simp add: caught_def require_version_def)

lemma caught_post_init [caught_rules]:
  "caught (worker_lease_record_post_init r)" "caught (claim_receipt_record_post_init q)"
  "caught (inactive_running_lease_post_init i)"
  by (auto simp: caught_def worker_lease_record_post_init_def claim_receipt_record_post_init_def
      inactive_running_lease_post_init_def claim_result_complete_def claim_id_issued_at_def
      datetime_add_def Let_def result_bind_eq_Inl split: if_splits option.splits)

lemma caught_decoders:
  "caught (decode_worker_lease_raw row)" "caught (decode_claim_receipt_raw row)"
  "caught (decode_inactive_running_raw row)"
  unfolding decode_worker_lease_raw_def decode_claim_receipt_raw_def decode_inactive_running_raw_def
  by (intro caught_rules)+

lemma decode_error:
  "decode_worker_lease row = Inl x \<Longrightarrow> x = WorkerLeaseError LeaseDataCorruption"
  "decode_claim_receipt row = Inl x \<Longrightarrow> x = WorkerLeaseError LeaseDataCorruption"
  "decode_inactive_running row = Inl x \<Longrightarrow> x = WorkerLeaseError LeaseDataCorruption"
  using caught_decoders [of row]
  by (auto simp: decode_worker_lease_def decode_claim_receipt_def decode_inactive_running_def
      dest: caught_corrupt split: sum.splits)

end
