(* ===== verification/Lease_Storage.thy ===== *)
theory Lease_Storage
  imports Lease_Records
begin

section \<open>Transactions and tables of the lease store\<close>

text \<open>
  \<open>src/zhiyi/adapters/persistence/postgresql_transaction_support.py\<close>, the observations of
  \<open>application/ports/worker_lease_observability.py\<close>, and the SQL statements that
  \<open>postgresql_worker_lease_repository.py\<close> sends. PostgreSQL is outside the repository: a statement
  is the function on tables that its text denotes, the collation of the text columns is the
  parameter \<open>le\<close>, and the constraints of \<open>postgresql_worker_lease_schema.py\<close> that a write can hit
  (the two primary keys, the unique claim, the foreign key to \<open>runs\<close>) are checked by the writes.
\<close>

subsection \<open>Transaction settings and storage failures\<close>

datatype transaction_phase = Acquire | Begin | Arbitration | LockPhase | WritePhase | Commit | Complete

datatype storage_failure_disposition = DispositionUnavailable | DispositionUnknown

record transaction_settings =
  ts_lock_timeout_ms :: int
  ts_statement_timeout_ms :: int
  ts_isolation_level :: string
  ts_synchronous_commit :: bool

definition transaction_settings_post_init ::
    "transaction_settings \<Rightarrow> exn + transaction_settings" where
  "transaction_settings_post_init s =
     (if \<not> (1 \<le> ts_lock_timeout_ms s \<and> ts_lock_timeout_ms s \<le> 5000) then Inl ValueError
      else if \<not> (1 \<le> ts_statement_timeout_ms s \<and> ts_statement_timeout_ms s \<le> 10000) \<or>
              ts_statement_timeout_ms s < ts_lock_timeout_ms s then Inl ValueError
      else if ts_isolation_level s \<noteq> ''READ COMMITTED'' then Inl ValueError
      else if \<not> ts_synchronous_commit s then Inl ValueError
      else Inr s)"

text \<open>
  A driver exception: its \<open>sqlstate\<close>, \<open>pgcode\<close> and \<open>connection_invalidated\<close> attributes, the
  exception in \<open>orig\<close>.
\<close>

datatype db_error =
  DbError (err_sqlstate: "string option") (err_pgcode: "string option") (err_invalidated: bool)
    (err_orig: "db_error option")

text \<open>\<open>getattr(e, "sqlstate", None) or getattr(e, "pgcode", None)\<close>: an empty text is false.\<close>

definition error_state :: "db_error \<Rightarrow> string option" where
  "error_state e =
     (if err_sqlstate e = None \<or> err_sqlstate e = Some '''' then err_pgcode e else err_sqlstate e)"

fun sqlstate_within :: "nat \<Rightarrow> db_error \<Rightarrow> string option" where
  "sqlstate_within 0 e = None"
| "sqlstate_within (Suc n) e =
     (case error_state e of
        Some s \<Rightarrow> Some s
      | None \<Rightarrow> (case err_orig e of None \<Rightarrow> None | Some nested \<Rightarrow> sqlstate_within n nested))"

definition sqlstate :: "db_error \<Rightarrow> string option" where
  "sqlstate e = sqlstate_within 3 e"

definition known_rollback_sqlstates :: "string list" where
  "known_rollback_sqlstates = [''40001'', ''40P01'', ''55P03'', ''57014'', ''57P01'']"

definition unknown_outcome_sqlstates :: "string list" where
  "unknown_outcome_sqlstates = [''08007'', ''40003'']"

definition classify_storage_failure ::
    "db_error \<Rightarrow> transaction_phase \<Rightarrow> bool \<Rightarrow> storage_failure_disposition" where
  "classify_storage_failure e phase rollback_confirmed =
     (let state = sqlstate e in
      if rollback_confirmed \<or> state \<in> Some ` set known_rollback_sqlstates
      then DispositionUnavailable
      else if phase = Commit \<and>
              (state \<in> Some ` set unknown_outcome_sqlstates \<or> err_invalidated e \<or> state = None)
      then DispositionUnknown
      else DispositionUnavailable)"

fun worker_lease_storage_error :: "storage_failure_disposition \<Rightarrow> exn" where
  "worker_lease_storage_error DispositionUnknown = WorkerLeaseError LeaseCommitOutcomeUnknown"
| "worker_lease_storage_error DispositionUnavailable = WorkerLeaseError LeaseStorageUnavailable"

text \<open>
  \<open>receipt_first\<close> and \<open>arbitrate_complete_receipt\<close> on a state: the first operation decides
  whether the second one runs.
\<close>

definition receipt_first ::
    "('s \<Rightarrow> 's \<times> (exn + 'a option)) \<Rightarrow> ('s \<Rightarrow> 's \<times> (exn + 'a)) \<Rightarrow> 's \<Rightarrow> 's \<times> (exn + 'a)" where
  "receipt_first find_receipt perform_new_write s =
     (case find_receipt s of
        (s', Inl x) \<Rightarrow> (s', Inl x)
      | (s', Inr (Some replay)) \<Rightarrow> (s', Inr replay)
      | (s', Inr None) \<Rightarrow> perform_new_write s')"

record 'a receipt_arbitration =
  arb_inserted :: bool
  arb_replay :: "'a option"

definition arbitrate_complete_receipt ::
    "('s \<Rightarrow> 's \<times> (exn + bool)) \<Rightarrow> ('s \<Rightarrow> 's \<times> (exn + 'a option)) \<Rightarrow>
     's \<Rightarrow> 's \<times> (exn + 'a receipt_arbitration)" where
  "arbitrate_complete_receipt insert_receipt load_replay s =
     (case insert_receipt s of
        (s', Inl x) \<Rightarrow> (s', Inl x)
      | (s', Inr inserted) \<Rightarrow>
          if inserted then (s', Inr \<lparr>arb_inserted = True, arb_replay = None\<rparr>)
          else (case load_replay s' of
              (s'', Inl x) \<Rightarrow> (s'', Inl x)
            | (s'', Inr replay) \<Rightarrow> (s'', Inr \<lparr>arb_inserted = False, arb_replay = replay\<rparr>)))"

subsection \<open>Observations\<close>

datatype lease_operation =
    OpIssueClaimId | OpClaim | OpGetAuthority | OpRenew | OpRelease | OpGetInactiveRunning
  | OpListInactiveRunning | OpCommitWithLease

datatype lease_transaction_phase =
    ObsValidate | ObsSchema | ObsAcquire | ObsBegin | ObsArbitration | ObsLock | ObsWrite | ObsCommit
  | ObsComplete

record lease_observation =
  ob_operation :: lease_operation
  ob_phase :: lease_transaction_phase
  ob_outcome_code :: string
  ob_correlation_id :: "correlation_id option"
  ob_tenant_id :: "tenant_id option"
  ob_run_id :: "run_id option"
  ob_worker_id :: "worker_id option"
  ob_claim_id :: "lease_claim_id option"
  ob_duration_bucket :: "string option"
  ob_replayed :: bool
  ob_empty :: bool
  ob_contended :: bool

definition lease_observation_post_init :: "lease_observation \<Rightarrow> exn + lease_observation" where
  "lease_observation_post_init ob =
     (if ob_outcome_code ob = '''' \<or> 64 < length (ob_outcome_code ob) then Inl ValueError
      else (case ob_duration_bucket ob of
          None \<Rightarrow> Inr ob
        | Some b \<Rightarrow> if b = '''' \<or> 32 < length b then Inl ValueError else Inr ob))"

text \<open>
  The three recorders are called in turn, each exception is suppressed. A recorder maps the
  state of the telemetry to its new state and to the exception it raises, if any.
\<close>

fun deliver_terminal_observation ::
    "('s \<Rightarrow> lease_observation \<Rightarrow> 's \<times> exn option) list \<Rightarrow> lease_observation \<Rightarrow> 's \<Rightarrow> 's" where
  "deliver_terminal_observation [] ob s = s"
| "deliver_terminal_observation (rec # recs) ob s =
     deliver_terminal_observation recs ob (fst (rec s ob))"

subsection \<open>Tables\<close>

record run_row =
  rr_tenant_id :: string
  rr_run_id :: string
  rr_run_status :: string
  rr_updated_at :: datetime

record lease_db =
  db_runs :: "run_row list"
  db_leases :: "db_row list"
  db_receipts :: "db_row list"

definition column_is :: "db_row \<Rightarrow> string \<Rightarrow> db_value \<Rightarrow> bool" where
  "column_is row name v \<longleftrightarrow> map_of row name = Some v"

definition lease_at :: "lease_db \<Rightarrow> tenant_id \<Rightarrow> run_id \<Rightarrow> db_row option" where
  "lease_at db t r =
     List.find (\<lambda>row. column_is row ''tenant_id'' (DvText (tenant_id_value t)) \<and>
       column_is row ''run_id'' (DvText (run_id_value r))) (db_leases db)"

definition receipt_at :: "lease_db \<Rightarrow> tenant_id \<Rightarrow> lease_claim_id \<Rightarrow> db_row option" where
  "receipt_at db t c =
     List.find (\<lambda>row. column_is row ''tenant_id'' (DvText (tenant_id_value t)) \<and>
       column_is row ''claim_id'' (DvUuid (lease_claim_id_value c))) (db_receipts db)"

definition run_status_at :: "lease_db \<Rightarrow> tenant_id \<Rightarrow> run_id \<Rightarrow> string option" where
  "run_status_at db t r =
     map_option rr_run_status
       (List.find (\<lambda>row. rr_tenant_id row = tenant_id_value t \<and> rr_run_id row = run_id_value r)
         (db_runs db))"

subsection \<open>Eligible runs\<close>

fun dv_instant :: "db_value option \<Rightarrow> int option" where
  "dv_instant (Some (DvTime t)) = Some (instant t)"
| "dv_instant _ = None"

text \<open>The \<open>or_\<close> of the query on the outer-joined lease row; a comparison with NULL is not true.\<close>

definition lease_row_open :: "db_row option \<Rightarrow> datetime \<Rightarrow> bool" where
  "lease_row_open joined now =
     (case joined of
        None \<Rightarrow> True
      | Some row \<Rightarrow>
          map_of row ''released_at'' \<notin> {None, Some DvNull} \<or>
          (case dv_instant (map_of row ''lease_expires_at'') of
             None \<Rightarrow> False | Some expires \<Rightarrow> expires \<le> instant now))"

text \<open>\<open>ORDER BY\<close> by insertion.\<close>

fun insert_by :: "('a \<Rightarrow> 'a \<Rightarrow> bool) \<Rightarrow> 'a \<Rightarrow> 'a list \<Rightarrow> 'a list" where
  "insert_by before x [] = [x]"
| "insert_by before x (y # ys) = (if before x y then x # y # ys else y # insert_by before x ys)"

fun order_by :: "('a \<Rightarrow> 'a \<Rightarrow> bool) \<Rightarrow> 'a list \<Rightarrow> 'a list" where
  "order_by before [] = []"
| "order_by before (x # xs) = insert_by before x (order_by before xs)"

text \<open>Two keys compare first by a time, then by a text in the collation \<open>le\<close>.\<close>

definition key_before :: "(string \<Rightarrow> string \<Rightarrow> bool) \<Rightarrow> int \<times> string \<Rightarrow> int \<times> string \<Rightarrow> bool" where
  "key_before le a b \<longleftrightarrow> fst a < fst b \<or> (fst a = fst b \<and> le (snd a) (snd b))"

definition run_row_key :: "run_row \<Rightarrow> int \<times> string" where
  "run_row_key row = (instant (rr_updated_at row), rr_run_id row)"

definition run_row_eligible :: "lease_db \<Rightarrow> tenant_id \<Rightarrow> datetime \<Rightarrow> run_row \<Rightarrow> bool" where
  "run_row_eligible db t now row \<longleftrightarrow>
     rr_tenant_id row = tenant_id_value t \<and> rr_run_status row = ''queued'' \<and>
     lease_row_open (lease_at db t (RunId (rr_run_id row))) now"

definition select_eligible_run ::
    "(string \<Rightarrow> string \<Rightarrow> bool) \<Rightarrow> lease_db \<Rightarrow> string list \<Rightarrow> tenant_id \<Rightarrow> datetime \<Rightarrow> bool \<Rightarrow>
     run_row option" where
  "select_eligible_run le db locked t now skip_locked =
     List.find (\<lambda>row. \<not> (skip_locked \<and> rr_run_id row \<in> set locked))
       (order_by (\<lambda>a b. key_before le (run_row_key a) (run_row_key b))
         (filter (run_row_eligible db t now) (db_runs db)))"

text \<open>\<open>_load_lease_for_update\<close>\<close>

definition load_lease_for_update ::
    "lease_db \<Rightarrow> tenant_id \<Rightarrow> run_id \<Rightarrow> exn + worker_lease_record option" where
  "load_lease_for_update db t r =
     (case lease_at db t r of
        None \<Rightarrow> Inr None
      | Some row \<Rightarrow> result_bind (decode_worker_lease row) (\<lambda>lease. Inr (Some lease)))"

subsection \<open>Writes\<close>

text \<open>How a database call inside a transaction fails.\<close>

datatype claim_failure =
    ClaimRaceLost
  | Raised exn
  | IntegrityError "string option"
  | StorageError db_error

definition same_lease_key :: "db_row \<Rightarrow> db_row \<Rightarrow> bool" where
  "same_lease_key a b \<longleftrightarrow> map_of a ''tenant_id'' = map_of b ''tenant_id'' \<and>
     map_of a ''run_id'' = map_of b ''run_id''"

definition same_claim :: "db_row \<Rightarrow> db_row \<Rightarrow> bool" where
  "same_claim a b \<longleftrightarrow> map_of a ''tenant_id'' = map_of b ''tenant_id'' \<and>
     map_of a ''claim_id'' = map_of b ''claim_id''"

definition run_exists :: "lease_db \<Rightarrow> db_row \<Rightarrow> bool" where
  "run_exists db row \<longleftrightarrow>
     list_ex (\<lambda>run. map_of row ''tenant_id'' = Some (DvText (rr_tenant_id run)) \<and>
       map_of row ''run_id'' = Some (DvText (rr_run_id run))) (db_runs db)"

definition insert_lease :: "lease_db \<Rightarrow> db_row \<Rightarrow> claim_failure + lease_db" where
  "insert_lease db row =
     (if list_ex (same_lease_key row) (db_leases db)
      then Inl (IntegrityError (Some ''pk_worker_leases''))
      else if list_ex (same_claim row) (db_leases db)
      then Inl (IntegrityError (Some ''uq_worker_leases_tenant_claim''))
      else if \<not> run_exists db row
      then Inl (IntegrityError (Some ''fk_worker_leases_tenant_run_runs''))
      else Inr (db\<lparr>db_leases := db_leases db @ [row]\<rparr>))"

text \<open>\<open>UPDATE worker_leases ... WHERE\<close>: the new columns in each matching row, and the row count.\<close>

definition update_leases ::
    "lease_db \<Rightarrow> (db_row \<Rightarrow> bool) \<Rightarrow> db_row \<Rightarrow> claim_failure + (nat \<times> lease_db)" where
  "update_leases db matches values =
     (let rows = map (\<lambda>row. if matches row then dict_update row values else row) (db_leases db) in
      if map_of values ''claim_id'' \<noteq> None \<and>
         list_ex (\<lambda>row. \<not> matches row \<and>
           list_ex (\<lambda>m. matches m \<and> map_of m ''tenant_id'' = map_of row ''tenant_id'')
             (db_leases db) \<and>
           map_of row ''claim_id'' = map_of values ''claim_id'') (db_leases db)
      then Inl (IntegrityError (Some ''uq_worker_leases_tenant_claim''))
      else Inr (length (filter matches (db_leases db)), db\<lparr>db_leases := rows\<rparr>))"

text \<open>\<open>_store_lease\<close>\<close>

definition store_lease ::
    "lease_db \<Rightarrow> worker_lease_record \<Rightarrow> worker_lease_record option \<Rightarrow> claim_failure + lease_db" where
  "store_lease db lease current =
     (let encoded = encode_worker_lease lease in
      if current = None then insert_lease db encoded
      else result_bind
        (update_leases db (same_lease_key encoded)
          (filter (\<lambda>c. fst c \<noteq> ''tenant_id'' \<and> fst c \<noteq> ''run_id'') encoded))
        (\<lambda>(count, db').
          if count \<noteq> 1 then Inl (Raised (WorkerLeaseError LeaseDataCorruption)) else Inr db'))"

text \<open>\<open>_insert_claim_receipt\<close>: \<open>ON CONFLICT DO NOTHING ... RETURNING\<close>.\<close>

definition insert_claim_receipt ::
    "lease_db \<Rightarrow> claim_receipt_record \<Rightarrow> claim_failure + (bool \<times> lease_db)" where
  "insert_claim_receipt db receipt =
     (let row = encode_claim_receipt receipt in
      if list_ex (same_claim row) (db_receipts db) then Inr (False, db)
      else if cr_run_id receipt \<noteq> None \<and> \<not> run_exists db row
      then Inl (IntegrityError (Some ''fk_worker_lease_claim_receipts_tenant_run_runs''))
      else Inr (True, db\<lparr>db_receipts := db_receipts db @ [row]\<rparr>))"

end
