(* ===== verification/Lease_Repository.thy ===== *)
theory Lease_Repository
  imports Lease_Storage
begin

section \<open>The PostgreSQL worker lease repository\<close>

text \<open>
  \<open>src/zhiyi/adapters/persistence/postgresql_worker_lease_repository.py\<close>. A transaction runs at READ
  COMMITTED, so each statement sees a snapshot of its own: the snapshots, the rows other
  transactions hold locked, the clock readings and an optional storage fault are arguments
  (\<open>claim_schedule\<close>, \<open>mutation_schedule\<close>). A transaction that does not commit leaves the tables as
  they are. The value \<open>None\<close> of a claim means that the given iterations did not end its loop.
\<close>

abbreviation lease_error :: "worker_lease_error_code \<Rightarrow> exn" where
  "lease_error code \<equiv> WorkerLeaseError code"

abbreviation raised :: "exn + 'a \<Rightarrow> claim_failure + 'a" where
  "raised r \<equiv> (case r of Inl x \<Rightarrow> Inl (Raised x) | Inr v \<Rightarrow> Inr v)"

subsection \<open>Clock and claim age\<close>

fun database_now :: "datetime \<Rightarrow> exn + datetime" where
  "database_now (Naive w) = Inl (lease_error LeaseDataCorruption)"
| "database_now (Aware w off) = Inr (Aware w off)"

definition validate_claim_age :: "lease_claim_id \<Rightarrow> datetime \<Rightarrow> exn + unit" where
  "validate_claim_age claim now =
     result_bind (claim_id_issued_at claim) (\<lambda>issued.
     result_bind (datetime_add now (seconds 60)) (\<lambda>latest.
       if instant latest < instant issued then Inl (lease_error LeaseInvalidInput)
       else result_bind (datetime_add issued (hours 24)) (\<lambda>expires.
         if instant expires \<le> instant now then Inl (lease_error LeaseIdempotencyExpired)
         else Inr ())))"

subsection \<open>Receipts\<close>

definition stored_intent :: "claim_receipt_record \<Rightarrow> claim_lease_command" where
  "stored_intent r =
     \<lparr>clm_tenant_id = cr_tenant_id r, clm_worker_id = cr_worker_id r, clm_claim_id = cr_claim_id r,
      clm_duration = cr_duration r\<rparr>"

definition load_receipt ::
    "lease_db \<Rightarrow> claim_lease_command \<Rightarrow> exn + claim_receipt_record option" where
  "load_receipt db cmd =
     (case receipt_at db (clm_tenant_id cmd) (clm_claim_id cmd) of
        None \<Rightarrow> Inr None
      | Some row \<Rightarrow>
          result_bind (decode_claim_receipt row) (\<lambda>r.
            if cr_intent_fingerprint r \<noteq> claim_intent_fingerprint (stored_intent r)
            then Inl (lease_error LeaseDataCorruption)
            else if cr_worker_id r \<noteq> clm_worker_id cmd \<or> cr_duration r \<noteq> clm_duration cmd \<or>
                    cr_intent_fingerprint r \<noteq> claim_intent_fingerprint cmd
            then Inl (lease_error LeaseIdempotencyConflict)
            else Inr (Some r)))"

definition no_work_receipt ::
    "claim_lease_command \<Rightarrow> datetime \<Rightarrow> exn + claim_receipt_record" where
  "no_work_receipt cmd created =
     result_bind (claim_id_issued_at (clm_claim_id cmd)) (\<lambda>issued.
     result_bind (datetime_add issued (hours 24)) (\<lambda>expires.
       claim_receipt_record_post_init
         \<lparr>cr_tenant_id = clm_tenant_id cmd, cr_claim_id = clm_claim_id cmd,
          cr_claim_issued_at = issued, cr_replay_expires_at = expires,
          cr_worker_id = clm_worker_id cmd, cr_duration = clm_duration cmd,
          cr_intent_fingerprint = claim_intent_fingerprint cmd, cr_outcome = StoredNoWork,
          cr_run_id = None, cr_attempt_no = None, cr_initial_lease_version = None,
          cr_lease_acquired_at = None, cr_lease_expires_at = None, cr_replay_token = None,
          cr_created_at = created\<rparr>))"

definition claimed_receipt ::
    "claim_lease_command \<Rightarrow> worker_lease_record \<Rightarrow> lease_token \<Rightarrow> datetime \<Rightarrow>
     exn + claim_receipt_record" where
  "claimed_receipt cmd lease token created =
     result_bind (claim_id_issued_at (clm_claim_id cmd)) (\<lambda>issued.
     result_bind (datetime_add issued (hours 24)) (\<lambda>expires.
       claim_receipt_record_post_init
         \<lparr>cr_tenant_id = clm_tenant_id cmd, cr_claim_id = clm_claim_id cmd,
          cr_claim_issued_at = issued, cr_replay_expires_at = expires,
          cr_worker_id = clm_worker_id cmd, cr_duration = clm_duration cmd,
          cr_intent_fingerprint = claim_intent_fingerprint cmd, cr_outcome = StoredClaimed,
          cr_run_id = Some (wl_run_id lease), cr_attempt_no = Some (wl_attempt_no lease),
          cr_initial_lease_version = Some (wl_lease_version lease),
          cr_lease_acquired_at = Some (wl_acquired_at lease),
          cr_lease_expires_at = Some (wl_lease_expires_at lease),
          cr_replay_token = Some token, cr_created_at = created\<rparr>))"

definition grant_from_receipt :: "claim_receipt_record \<Rightarrow> bool \<Rightarrow> exn + lease_grant" where
  "grant_from_receipt r authoritative =
     (case (cr_run_id r, cr_attempt_no r, cr_initial_lease_version r, cr_lease_acquired_at r,
            cr_lease_expires_at r, cr_replay_token r) of
        (Some run, Some attempt, Some version, Some acquired, Some expires, Some token) \<Rightarrow>
          result_bind (renew_by_at acquired (cr_duration r)) (\<lambda>renew_by.
            lease_grant_post_init
              \<lparr>gr_tenant_id = cr_tenant_id r, gr_run_id = run, gr_worker_id = cr_worker_id r,
               gr_claim_id = cr_claim_id r, gr_token = token, gr_attempt_no = attempt,
               gr_lease_version = version, gr_duration = cr_duration r, gr_acquired_at = acquired,
               gr_heartbeat_at = acquired, gr_lease_expires_at = expires,
               gr_renew_by_at = renew_by, gr_currently_authoritative = authoritative\<rparr>)
      | _ \<Rightarrow> Inl (lease_error LeaseDataCorruption))"

text \<open>The inner join of a lease with its run.\<close>

definition joined_lease ::
    "lease_db \<Rightarrow> tenant_id \<Rightarrow> run_id \<Rightarrow> (db_row \<times> string) option" where
  "joined_lease db t r =
     (case (lease_at db t r, run_status_at db t r) of
        (Some row, Some status) \<Rightarrow> Some (row, status)
      | _ \<Rightarrow> None)"

definition active_statuses :: "string list" where
  "active_statuses = [''queued'', ''running'']"

text \<open>The assertions on \<open>run_id\<close> and \<open>replay_token\<close> hold after the checks of the caller.\<close>

definition receipt_is_current ::
    "lease_db \<Rightarrow> claim_receipt_record \<Rightarrow> run_id \<Rightarrow> lease_token \<Rightarrow> datetime \<Rightarrow> exn + bool" where
  "receipt_is_current db r run token now =
     (case joined_lease db (cr_tenant_id r) run of
        None \<Rightarrow> Inr False
      | Some (row, status) \<Rightarrow>
          result_bind (decode_worker_lease row) (\<lambda>lease.
            if wl_worker_id lease \<noteq> cr_worker_id r \<or> wl_claim_id lease \<noteq> cr_claim_id r \<or>
               Some (wl_attempt_no lease) \<noteq> cr_attempt_no r then Inr False
            else result_bind (lease_token_matches token (wl_token_digest lease)) (\<lambda>matches.
              Inr (matches \<and> wl_released_at lease = None \<and>
                instant now < instant (wl_lease_expires_at lease) \<and>
                status \<in> set active_statuses))))"

definition outcome_from_receipt ::
    "lease_db \<Rightarrow> claim_receipt_record \<Rightarrow> datetime \<Rightarrow> bool \<Rightarrow> exn + lease_claim_outcome" where
  "outcome_from_receipt db r now replayed =
     (if cr_outcome r = StoredNoWork then outcome_no_work replayed
      else (case (cr_run_id r, cr_replay_token r) of
          (Some run, Some token) \<Rightarrow>
            result_bind (receipt_is_current db r run token now) (\<lambda>authoritative.
            result_bind (grant_from_receipt r authoritative) (\<lambda>grant.
              outcome_claimed grant replayed))
        | _ \<Rightarrow> Inl (lease_error LeaseDataCorruption)))"

subsection \<open>Claiming\<close>

record claim_execution =
  ce_outcome :: lease_claim_outcome
  ce_contended :: bool

text \<open>One pass of the claim loop: the snapshots of its statements and its clock reading.\<close>

record claim_iteration =
  it_lease_db :: lease_db
  it_now :: datetime
  it_skip_db :: lease_db
  it_locked :: "string list"
  it_wait_db :: lease_db

record storage_fault =
  sf_phase :: transaction_phase
  sf_error :: db_error
  sf_rollback :: bool
  sf_applied :: bool

record claim_schedule =
  cs_request_now :: datetime
  cs_receipt_db :: lease_db
  cs_authority_db :: lease_db
  cs_first :: claim_iteration
  cs_iterations :: "claim_iteration list"
  cs_no_work_now :: datetime
  cs_write_db :: lease_db
  cs_fault :: "storage_fault option"

text \<open>The query with \<open>SKIP LOCKED\<close>, and the waiting one when it finds nothing.\<close>

definition select_next ::
    "(string \<Rightarrow> string \<Rightarrow> bool) \<Rightarrow> claim_lease_command \<Rightarrow> claim_iteration \<Rightarrow> datetime \<Rightarrow>
     run_row option" where
  "select_next le cmd it now =
     (case select_eligible_run le (it_skip_db it) (it_locked it) (clm_tenant_id cmd) now True of
        Some row \<Rightarrow> Some row
      | None \<Rightarrow> select_eligible_run le (it_wait_db it) [] (clm_tenant_id cmd) now False)"

definition lease_available :: "worker_lease_record option \<Rightarrow> datetime \<Rightarrow> bool" where
  "lease_available current now \<longleftrightarrow>
     (case current of
        None \<Rightarrow> True
      | Some lease \<Rightarrow> wl_released_at lease \<noteq> None \<or>
          instant (wl_lease_expires_at lease) \<le> instant now)"

record claim_target =
  ct_run_id :: run_id
  ct_current :: "worker_lease_record option"
  ct_now :: datetime

fun claim_loop ::
    "(string \<Rightarrow> string \<Rightarrow> bool) \<Rightarrow> claim_lease_command \<Rightarrow> run_row option \<Rightarrow> bool \<Rightarrow>
     claim_iteration list \<Rightarrow> (exn + (claim_target option \<times> bool)) option" where
  "claim_loop le cmd None contended its = Some (Inr (None, contended))"
| "claim_loop le cmd (Some row) contended [] = None"
| "claim_loop le cmd (Some row) contended (it # its) =
     (case result_bind (new_identifier RunId (rr_run_id row)) (\<lambda>run.
           result_bind (load_lease_for_update (it_lease_db it) (clm_tenant_id cmd) run) (\<lambda>current.
           result_bind (database_now (it_now it)) (\<lambda>now. Inr (run, current, now)))) of
        Inl x \<Rightarrow> Some (Inl x)
      | Inr (run, current, now) \<Rightarrow>
          if rr_run_status row = ''queued'' \<and> lease_available current now
          then Some (Inr (Some \<lparr>ct_run_id = run, ct_current = current, ct_now = now\<rparr>, contended))
          else claim_loop le cmd (select_next le cmd it now) True its)"

definition next_attempt :: "worker_lease_record option \<Rightarrow> exn + lease_attempt_no" where
  "next_attempt current =
     (case current of
        None \<Rightarrow> new_counter LeaseAttemptNo 1
      | Some lease \<Rightarrow> counter_next LeaseAttemptNo (attempt_no_value (wl_attempt_no lease)))"

definition next_version :: "worker_lease_record option \<Rightarrow> exn + lease_version" where
  "next_version current =
     (case current of
        None \<Rightarrow> new_counter LeaseVersion 1
      | Some lease \<Rightarrow> counter_next LeaseVersion (lease_version_value (wl_lease_version lease)))"

text \<open>The lease record that a claim writes.\<close>

definition claimed_lease ::
    "claim_lease_command \<Rightarrow> lease_token \<Rightarrow> claim_target \<Rightarrow> exn + worker_lease_record" where
  "claimed_lease cmd token target =
     result_bind (next_attempt (ct_current target)) (\<lambda>attempt.
     result_bind (next_version (ct_current target)) (\<lambda>version.
     result_bind (datetime_add (ct_now target) (seconds (duration_seconds (clm_duration cmd))))
       (\<lambda>expires.
       worker_lease_record_post_init
         \<lparr>wl_tenant_id = clm_tenant_id cmd, wl_run_id = ct_run_id target,
          wl_worker_id = clm_worker_id cmd, wl_claim_id = clm_claim_id cmd,
          wl_token_digest = digest_lease_token token, wl_attempt_no = attempt,
          wl_lease_version = version, wl_duration = clm_duration cmd,
          wl_acquired_at = ct_now target, wl_heartbeat_at = ct_now target,
          wl_lease_expires_at = expires, wl_released_at = None\<rparr>)))"

text \<open>A fault of the current phase: the statements of the phase do not take effect.\<close>

definition fault_in :: "transaction_phase \<Rightarrow> storage_fault option \<Rightarrow> claim_failure + unit" where
  "fault_in phase fault =
     (case fault of
        Some f \<Rightarrow> if sf_phase f = phase then Inl (StorageError (sf_error f)) else Inr ()
      | None \<Rightarrow> Inr ())"

text \<open>
  What follows the loop, for an empty queue and for a selected run. The records are built before
  the write phase starts; a statement that fails undoes all of them.
\<close>

definition write_no_work ::
    "claim_lease_command \<Rightarrow> datetime \<Rightarrow> storage_fault option \<Rightarrow> lease_db \<Rightarrow>
     claim_failure + lease_db" where
  "write_no_work cmd clock fault db =
     result_bind (raised (database_now clock)) (\<lambda>now.
     result_bind (raised (no_work_receipt cmd now)) (\<lambda>receipt.
     result_bind (fault_in WritePhase fault) (\<lambda>_.
     result_bind (insert_claim_receipt db receipt) (\<lambda>(inserted, db').
       if \<not> inserted then Inl ClaimRaceLost else Inr db'))))"

definition write_claimed ::
    "claim_lease_command \<Rightarrow> lease_token \<Rightarrow> claim_target \<Rightarrow> storage_fault option \<Rightarrow> lease_db \<Rightarrow>
     claim_failure + (lease_db \<times> claim_receipt_record)" where
  "write_claimed cmd token target fault db =
     result_bind (raised (claimed_lease cmd token target)) (\<lambda>lease.
     result_bind (raised (claimed_receipt cmd lease token (ct_now target))) (\<lambda>receipt.
     result_bind (fault_in WritePhase fault) (\<lambda>_.
     result_bind (store_lease db lease (ct_current target)) (\<lambda>db1.
     result_bind (insert_claim_receipt db1 receipt) (\<lambda>(inserted, db2).
       if \<not> inserted then Inl ClaimRaceLost else Inr (db2, receipt))))))"

text \<open>
  The statements before the loop: the clock, the age of the claim and the stored receipt. The
  result is the clock reading and, when there is a receipt, the outcome it replays.
\<close>

definition claim_arbitration ::
    "claim_lease_command \<Rightarrow> claim_schedule \<Rightarrow>
     claim_failure + (datetime \<times> lease_claim_outcome option)" where
  "claim_arbitration cmd sched =
     result_bind (fault_in Acquire (cs_fault sched)) (\<lambda>_.
     result_bind (fault_in Begin (cs_fault sched)) (\<lambda>_.
     result_bind (raised (database_now (cs_request_now sched))) (\<lambda>now.
     result_bind (raised (validate_claim_age (clm_claim_id cmd) now)) (\<lambda>_.
     result_bind (fault_in Arbitration (cs_fault sched)) (\<lambda>_.
     result_bind (raised (load_receipt (cs_receipt_db sched) cmd)) (\<lambda>receipt.
       case receipt of
         None \<Rightarrow> Inr (now, None)
       | Some r \<Rightarrow>
           result_bind (raised (outcome_from_receipt (cs_authority_db sched) r now True))
             (\<lambda>outcome. Inr (now, Some outcome))))))))"

text \<open>
  The rest of \<open>_claim_transaction\<close>: the selection, the loop and the writes, and what the call
  returns after the commit. A replayed receipt commits without having left the arbitration
  phase.
\<close>

definition claim_writes ::
    "claim_lease_command \<Rightarrow> lease_token \<Rightarrow> claim_schedule \<Rightarrow> claim_target option \<times> bool \<Rightarrow>
     claim_failure + (lease_db \<times> (exn + claim_execution))" where
  "claim_writes cmd token sched selection =
     (case selection of
        (None, contended) \<Rightarrow>
          result_bind (write_no_work cmd (cs_no_work_now sched) (cs_fault sched)
            (cs_write_db sched)) (\<lambda>db.
            Inr (db, result_bind (outcome_no_work False) (\<lambda>outcome.
              Inr \<lparr>ce_outcome = outcome, ce_contended = contended\<rparr>)))
      | (Some target, contended) \<Rightarrow>
          result_bind (write_claimed cmd token target (cs_fault sched) (cs_write_db sched))
            (\<lambda>(db, receipt). Inr (db,
              result_bind (grant_from_receipt receipt True) (\<lambda>grant.
              result_bind (outcome_claimed grant False) (\<lambda>outcome.
                Inr \<lparr>ce_outcome = outcome, ce_contended = contended\<rparr>)))))"

definition claim_selection ::
    "(string \<Rightarrow> string \<Rightarrow> bool) \<Rightarrow> claim_lease_command \<Rightarrow> claim_schedule \<Rightarrow> datetime \<Rightarrow>
     (exn + (claim_target option \<times> bool)) option" where
  "claim_selection le cmd sched now =
     (let first = select_eligible_run le (it_skip_db (cs_first sched)) (it_locked (cs_first sched))
          (clm_tenant_id cmd) now True in
      claim_loop le cmd (select_next le cmd (cs_first sched) now) (first = None)
        (cs_iterations sched))"

definition claim_body ::
    "(string \<Rightarrow> string \<Rightarrow> bool) \<Rightarrow> claim_lease_command \<Rightarrow> lease_token \<Rightarrow> claim_schedule \<Rightarrow>
     (claim_failure + (transaction_phase \<times> lease_db \<times> (exn + claim_execution))) option" where
  "claim_body le cmd token sched =
     (case claim_arbitration cmd sched of
        Inl f \<Rightarrow> Some (Inl f)
      | Inr (now, Some outcome) \<Rightarrow>
          Some (Inr (Arbitration, cs_write_db sched,
            Inr \<lparr>ce_outcome = outcome, ce_contended = False\<rparr>))
      | Inr (now, None) \<Rightarrow>
          (case fault_in LockPhase (cs_fault sched) of
             Inl f \<Rightarrow> Some (Inl f)
           | Inr _ \<Rightarrow> map_option (\<lambda>r.
               result_bind (raised r) (\<lambda>selection.
               result_bind (claim_writes cmd token sched selection) (\<lambda>(db, result).
                 Inr (Commit, db, result))))
               (claim_selection le cmd sched now)))"

text \<open>The \<open>except\<close> clauses: what a failure becomes once the transaction is rolled back.\<close>

fun claim_failure_public :: "storage_fault option \<Rightarrow> claim_failure \<Rightarrow> claim_failure" where
  "claim_failure_public fault ClaimRaceLost = ClaimRaceLost"
| "claim_failure_public fault (Raised x) = Raised x"
| "claim_failure_public fault (IntegrityError name) =
     (if name = Some ''uq_worker_leases_tenant_claim'' then ClaimRaceLost
      else Raised (lease_error LeaseDataCorruption))"
| "claim_failure_public None (StorageError e) =
     Raised (worker_lease_storage_error (classify_storage_failure e Complete False))"
| "claim_failure_public (Some f) (StorageError e) =
     Raised (worker_lease_storage_error (classify_storage_failure e (sf_phase f) (sf_rollback f)))"

text \<open>A fault of the commit: the server may have applied the writes although the call failed.\<close>

definition commit_fault :: "storage_fault option \<Rightarrow> transaction_phase \<Rightarrow> storage_fault option" where
  "commit_fault fault phase =
     (case fault of
        Some f \<Rightarrow> if phase = Commit \<and> sf_phase f = Commit then Some f else None
      | None \<Rightarrow> None)"

definition claim_transaction ::
    "(string \<Rightarrow> string \<Rightarrow> bool) \<Rightarrow> claim_lease_command \<Rightarrow> lease_token \<Rightarrow> claim_schedule \<Rightarrow>
     (lease_db \<times> (claim_failure + claim_execution)) option" where
  "claim_transaction le cmd token sched =
     map_option (\<lambda>r. case r of
         Inl f \<Rightarrow> (cs_write_db sched, Inl (claim_failure_public (cs_fault sched) f))
       | Inr (phase, db, result) \<Rightarrow>
           (case commit_fault (cs_fault sched) phase of
              Some f \<Rightarrow> (if sf_applied f then db else cs_write_db sched,
                Inl (claim_failure_public (Some f) (StorageError (sf_error f))))
            | None \<Rightarrow> (db, raised result)))
       (claim_body le cmd token sched)"

text \<open>\<open>_replay_after_race\<close>: the winner's receipt, read by a connection of its own.\<close>

record race_schedule =
  rs_now :: datetime
  rs_receipt_db :: lease_db
  rs_authority_db :: lease_db
  rs_fault :: bool

definition replay_after_race ::
    "claim_lease_command \<Rightarrow> race_schedule \<Rightarrow> exn + claim_execution" where
  "replay_after_race cmd sched =
     (if rs_fault sched then Inl (worker_lease_storage_error DispositionUnavailable)
      else result_bind (database_now (rs_now sched)) (\<lambda>now.
        result_bind (validate_claim_age (clm_claim_id cmd) now) (\<lambda>_.
        result_bind (load_receipt (rs_receipt_db sched) cmd) (\<lambda>receipt.
          case receipt of
            None \<Rightarrow> Inl (lease_error LeaseDataCorruption)
          | Some r \<Rightarrow>
              result_bind (outcome_from_receipt (rs_authority_db sched) r now True) (\<lambda>outcome.
                Inr \<lparr>ce_outcome = outcome, ce_contended = True\<rparr>)))))"

text \<open>
  \<open>claim\<close>, after its argument check: \<open>schema\<close> is the verdict of the schema check. The tables
  after the call and its result.
\<close>

definition claim ::
    "(string \<Rightarrow> string \<Rightarrow> bool) \<Rightarrow> exn + unit \<Rightarrow> claim_lease_command \<Rightarrow> lease_token \<Rightarrow>
     claim_schedule \<Rightarrow> race_schedule \<Rightarrow> (lease_db \<times> (exn + claim_execution)) option" where
  "claim le schema cmd token sched race =
     (case schema of
        Inl x \<Rightarrow> Some (cs_write_db sched, Inl x)
      | Inr _ \<Rightarrow> map_option (\<lambda>r. case r of
            (db, Inl (Raised x)) \<Rightarrow> (db, Inl x)
          | (db, Inl _) \<Rightarrow> (db, replay_after_race cmd race)
          | (db, Inr execution) \<Rightarrow> (db, Inr execution))
          (claim_transaction le cmd token sched))"

text \<open>\<open>issue_claim_id\<close>: the database generates the identifier.\<close>

definition issue_claim_id :: "exn + unit \<Rightarrow> db_error + db_value \<Rightarrow> exn + lease_claim_id" where
  "issue_claim_id schema generated =
     result_bind schema (\<lambda>_.
       case generated of
         Inl e \<Rightarrow> Inl (worker_lease_storage_error DispositionUnavailable)
       | Inr (DvUuid u) \<Rightarrow> new_lease_claim_id u
       | Inr _ \<Rightarrow> Inl (lease_error LeaseDataCorruption))"

end
