(* ===== verification/Lease_Authority.thy ===== *)
theory Lease_Authority
  imports Lease_Repository
begin

section \<open>Authority, renewal, release and inactive leases\<close>

text \<open>
  The operations of \<open>postgresql_worker_lease_repository.py\<close> on an existing lease:
  \<open>get_authority\<close>, \<open>renew\<close> and \<open>release\<close> (both through \<open>_conditional_mutation\<close>), the two queries for
  inactive leases, and the observation that each operation delivers.
\<close>

subsection \<open>Evaluating a proof\<close>

definition load_authority_state ::
    "lease_db \<Rightarrow> lease_authority_proof \<Rightarrow> exn + (worker_lease_record option \<times> string option)" where
  "load_authority_state db proof =
     (case joined_lease db (pf_tenant_id proof) (pf_run_id proof) of
        None \<Rightarrow> Inr (None, None)
      | Some (row, status) \<Rightarrow>
          result_bind (decode_worker_lease row) (\<lambda>lease. Inr (Some lease, Some status)))"

definition proof_matches :: "lease_authority_proof \<Rightarrow> worker_lease_record \<Rightarrow> exn + bool" where
  "proof_matches proof lease =
     (if wl_tenant_id lease \<noteq> pf_tenant_id proof \<or> wl_run_id lease \<noteq> pf_run_id proof \<or>
         wl_worker_id lease \<noteq> pf_worker_id proof \<or> wl_claim_id lease \<noteq> pf_claim_id proof \<or>
         wl_attempt_no lease \<noteq> pf_attempt_no proof
      then Inr False
      else lease_token_matches (pf_token proof) (wl_token_digest lease))"

definition matched_not_current :: "worker_lease_record \<Rightarrow> exn + lease_authority" where
  "matched_not_current lease = lease_authority_post_init
     \<lparr>au_authoritative = False, au_reason = Some LeaseNotCurrent,
      au_lease_version = Some (wl_lease_version lease), au_acquired_at = Some (wl_acquired_at lease),
      au_heartbeat_at = Some (wl_heartbeat_at lease),
      au_lease_expires_at = Some (wl_lease_expires_at lease)\<rparr>"

definition status_active :: "string option \<Rightarrow> bool" where
  "status_active status \<longleftrightarrow> status \<in> Some ` set active_statuses"

definition evaluate_authority ::
    "lease_authority_proof \<Rightarrow> worker_lease_record option \<Rightarrow> string option \<Rightarrow> datetime \<Rightarrow>
     exn + lease_authority" where
  "evaluate_authority proof current status now =
     (case current of
        None \<Rightarrow> authority_not_current
      | Some lease \<Rightarrow>
          result_bind (proof_matches proof lease) (\<lambda>matches.
            if \<not> matches then authority_not_current
            else if wl_released_at lease \<noteq> None \<or> \<not> status_active status
            then matched_not_current lease
            else if instant (wl_lease_expires_at lease) \<le> instant now
            then authority_expired (wl_lease_version lease) (wl_acquired_at lease)
              (wl_heartbeat_at lease) (wl_lease_expires_at lease)
            else authority_current (wl_lease_version lease) (wl_acquired_at lease)
              (wl_heartbeat_at lease) (wl_lease_expires_at lease)))"

definition get_authority ::
    "exn + unit \<Rightarrow> lease_db \<Rightarrow> lease_authority_proof \<Rightarrow> datetime \<Rightarrow> bool \<Rightarrow> exn + lease_authority" where
  "get_authority schema db proof clock fault =
     result_bind schema (\<lambda>_.
       if fault then Inl (worker_lease_storage_error DispositionUnavailable)
       else result_bind (database_now clock) (\<lambda>now.
         result_bind (load_authority_state db proof) (\<lambda>(current, status).
           evaluate_authority proof current status now)))"

subsection \<open>Conditional mutations\<close>

datatype conditional_command =
    RenewCommand renew_lease_command
  | ReleaseCommand release_lease_command

fun command_proof :: "conditional_command \<Rightarrow> lease_authority_proof" where
  "command_proof (RenewCommand c) = rnw_proof c"
| "command_proof (ReleaseCommand c) = rls_proof c"

text \<open>\<open>UPDATE ... WHERE tenant, run and lease_version\<close>; another row count than one is corruption.\<close>

definition lease_version_matches :: "lease_authority_proof \<Rightarrow> lease_version \<Rightarrow> db_row \<Rightarrow> bool" where
  "lease_version_matches proof v row \<longleftrightarrow>
     column_is row ''tenant_id'' (DvText (tenant_id_value (pf_tenant_id proof))) \<and>
     column_is row ''run_id'' (DvText (run_id_value (pf_run_id proof))) \<and>
     column_is row ''lease_version'' (DvInt (lease_version_value v))"

definition update_lease ::
    "lease_db \<Rightarrow> lease_authority_proof \<Rightarrow> lease_version \<Rightarrow> db_row \<Rightarrow> claim_failure + lease_db" where
  "update_lease db proof v values =
     result_bind (update_leases db (lease_version_matches proof v) values) (\<lambda>(count, db').
       if count \<noteq> 1 then Inl (Raised (lease_error LeaseDataCorruption)) else Inr db')"

definition not_applied :: "exn + lease_authority \<Rightarrow> exn + conditional_lease_outcome" where
  "not_applied authority =
     result_bind authority (\<lambda>a. conditional_lease_outcome_post_init
       \<lparr>cl_applied = False, cl_authority = a, cl_renew_by_at = None\<rparr>)"

definition applied ::
    "exn + lease_authority \<Rightarrow> (exn + datetime) option \<Rightarrow> exn + conditional_lease_outcome" where
  "applied authority renew_by =
     result_bind authority (\<lambda>a.
       case renew_by of
         None \<Rightarrow> conditional_lease_outcome_post_init
           \<lparr>cl_applied = True, cl_authority = a, cl_renew_by_at = None\<rparr>
       | Some r \<Rightarrow> result_bind r (\<lambda>t. conditional_lease_outcome_post_init
           \<lparr>cl_applied = True, cl_authority = a, cl_renew_by_at = Some t\<rparr>))"

text \<open>
  The two branches of the mutation, from the locked lease, the status of its run and the
  authority of the proof: the phase of the commit, the tables it writes and its outcome.
\<close>

definition renew_branch ::
    "renew_lease_command \<Rightarrow> worker_lease_record \<Rightarrow> lease_authority \<Rightarrow> datetime \<Rightarrow>
     storage_fault option \<Rightarrow> lease_db \<Rightarrow>
     claim_failure + (transaction_phase \<times> lease_db \<times> conditional_lease_outcome)" where
  "renew_branch cmd lease authority now fault db =
     (if \<not> au_authoritative authority \<or> rnw_expected_version cmd \<noteq> wl_lease_version lease
      then result_bind (raised (not_applied (Inr authority))) (\<lambda>out. Inr (LockPhase, db, out))
      else
        result_bind (raised (counter_next LeaseVersion (lease_version_value (wl_lease_version lease))))
          (\<lambda>version.
        result_bind (raised (datetime_add now (seconds (duration_seconds (rnw_duration cmd)))))
          (\<lambda>expires.
        result_bind (fault_in WritePhase fault) (\<lambda>_.
        result_bind (update_lease db (rnw_proof cmd) (wl_lease_version lease)
          [(''duration_seconds'', DvInt (duration_seconds (rnw_duration cmd))),
           (''lease_version'', DvInt (lease_version_value version)),
           (''heartbeat_at'', DvTime now), (''lease_expires_at'', DvTime expires)]) (\<lambda>db'.
        result_bind (raised (applied
            (authority_current version (wl_acquired_at lease) now expires)
            (Some (renew_by_at now (rnw_duration cmd))))) (\<lambda>out. Inr (Commit, db', out)))))))"

definition release_branch ::
    "release_lease_command \<Rightarrow> worker_lease_record \<Rightarrow> string \<Rightarrow> lease_authority \<Rightarrow> datetime \<Rightarrow>
     storage_fault option \<Rightarrow> lease_db \<Rightarrow>
     claim_failure + (transaction_phase \<times> lease_db \<times> conditional_lease_outcome)" where
  "release_branch cmd lease status authority now fault db =
     (let cleanup_allowed = status \<notin> set active_statuses in
      if wl_released_at lease \<noteq> None
      then result_bind (raised (not_applied (matched_not_current lease)))
        (\<lambda>out. Inr (LockPhase, db, out))
      else if rls_expected_version cmd \<noteq> wl_lease_version lease \<or>
              (\<not> cleanup_allowed \<and> \<not> au_authoritative authority)
      then result_bind (raised (not_applied (Inr authority))) (\<lambda>out. Inr (LockPhase, db, out))
      else
        result_bind (raised (counter_next LeaseVersion (lease_version_value (wl_lease_version lease))))
          (\<lambda>version.
        result_bind (fault_in WritePhase fault) (\<lambda>_.
        result_bind (update_lease db (rls_proof cmd) (wl_lease_version lease)
          [(''lease_version'', DvInt (lease_version_value version)),
           (''released_at'', DvTime now)]) (\<lambda>db'.
        result_bind (raised (worker_lease_record_post_init
            (lease\<lparr>wl_lease_version := version, wl_released_at := Some now\<rparr>))) (\<lambda>released.
        result_bind (raised (applied (matched_not_current released) None))
          (\<lambda>out. Inr (Commit, db', out)))))))"

record mutation_schedule =
  ms_status_db :: lease_db
  ms_lease_db :: lease_db
  ms_now :: datetime
  ms_write_db :: lease_db
  ms_fault :: "storage_fault option"

definition conditional_body ::
    "conditional_command \<Rightarrow> mutation_schedule \<Rightarrow>
     claim_failure + (transaction_phase \<times> lease_db \<times> conditional_lease_outcome)" where
  "conditional_body cmd sched =
     (let proof = command_proof cmd; db = ms_write_db sched in
      result_bind (fault_in Acquire (ms_fault sched)) (\<lambda>_.
      result_bind (fault_in Begin (ms_fault sched)) (\<lambda>_.
      result_bind (fault_in LockPhase (ms_fault sched)) (\<lambda>_.
        case run_status_at (ms_status_db sched) (pf_tenant_id proof) (pf_run_id proof) of
          None \<Rightarrow> result_bind (raised (not_applied authority_not_current))
            (\<lambda>out. Inr (LockPhase, db, out))
        | Some status \<Rightarrow>
            result_bind (raised (load_authority_state (ms_lease_db sched) proof))
              (\<lambda>(current, joined_status).
            if joined_status \<noteq> Some status
            then Inl (Raised (lease_error LeaseDataCorruption))
            else
              result_bind (raised (database_now (ms_now sched))) (\<lambda>now.
              result_bind (raised (evaluate_authority proof current (Some status) now)) (\<lambda>authority.
                case current of
                  None \<Rightarrow> result_bind (raised (not_applied (Inr authority)))
                    (\<lambda>out. Inr (LockPhase, db, out))
                | Some lease \<Rightarrow>
                    result_bind (raised (proof_matches proof lease)) (\<lambda>matches.
                      if \<not> matches
                      then result_bind (raised (not_applied (Inr authority)))
                        (\<lambda>out. Inr (LockPhase, db, out))
                      else (case cmd of
                          RenewCommand c \<Rightarrow> renew_branch c lease authority now (ms_fault sched) db
                        | ReleaseCommand c \<Rightarrow>
                            release_branch c lease status authority now (ms_fault sched) db)))))))))"

text \<open>
  \<open>_conditional_mutation\<close>: the failure classes and the commit. It has no clause for an integrity
  error of its own: that is a storage failure.
\<close>

definition conditional_failure :: "storage_fault option \<Rightarrow> claim_failure \<Rightarrow> exn" where
  "conditional_failure fault failure =
     (case failure of
        Raised x \<Rightarrow> x
      | StorageError e \<Rightarrow>
          (case fault of
             Some f \<Rightarrow> worker_lease_storage_error
               (classify_storage_failure e (sf_phase f) (sf_rollback f))
           | None \<Rightarrow> worker_lease_storage_error DispositionUnavailable)
      | _ \<Rightarrow> worker_lease_storage_error DispositionUnavailable)"

definition conditional_mutation ::
    "conditional_command \<Rightarrow> mutation_schedule \<Rightarrow> lease_db \<times> (exn + conditional_lease_outcome)" where
  "conditional_mutation cmd sched =
     (case conditional_body cmd sched of
        Inl f \<Rightarrow> (ms_write_db sched, Inl (conditional_failure (ms_fault sched) f))
      | Inr (phase, db, out) \<Rightarrow>
          (case commit_fault (ms_fault sched) phase of
             Some f \<Rightarrow> (if sf_applied f then db else ms_write_db sched,
               Inl (conditional_failure (Some f) (StorageError (sf_error f))))
           | None \<Rightarrow> (db, Inr out)))"

definition renew ::
    "exn + unit \<Rightarrow> renew_lease_command \<Rightarrow> mutation_schedule \<Rightarrow>
     lease_db \<times> (exn + conditional_lease_outcome)" where
  "renew schema cmd sched =
     (case schema of
        Inl x \<Rightarrow> (ms_write_db sched, Inl x)
      | Inr _ \<Rightarrow> conditional_mutation (RenewCommand cmd) sched)"

definition release ::
    "exn + unit \<Rightarrow> release_lease_command \<Rightarrow> mutation_schedule \<Rightarrow>
     lease_db \<times> (exn + conditional_lease_outcome)" where
  "release schema cmd sched =
     (case schema of
        Inl x \<Rightarrow> (ms_write_db sched, Inl x)
      | Inr _ \<Rightarrow> conditional_mutation (ReleaseCommand cmd) sched)"

subsection \<open>Inactive running leases\<close>

text \<open>\<open>coalesce(released_at, lease_expires_at)\<close>\<close>

definition authority_ended_at :: "db_row \<Rightarrow> db_value" where
  "authority_ended_at row =
     (case map_of row ''released_at'' of
        Some DvNull \<Rightarrow> (case map_of row ''lease_expires_at'' of Some v \<Rightarrow> v | None \<Rightarrow> DvNull)
      | Some v \<Rightarrow> v
      | None \<Rightarrow> (case map_of row ''lease_expires_at'' of Some v \<Rightarrow> v | None \<Rightarrow> DvNull))"

definition ended_instant :: "db_row \<Rightarrow> int option" where
  "ended_instant row = dv_instant (Some (authority_ended_at row))"

definition select_column :: "db_row \<Rightarrow> string \<Rightarrow> string \<times> db_value" where
  "select_column row name = (name, case map_of row name of Some v \<Rightarrow> v | None \<Rightarrow> DvNull)"

definition inactive_columns :: "db_row \<Rightarrow> db_row" where
  "inactive_columns row =
     map (select_column row)
       [''tenant_id'', ''run_id'', ''attempt_no'', ''lease_version'', ''acquired_at'',
        ''heartbeat_at''] @
     [(''authority_ended_at'', authority_ended_at row),
      (''reason'', DvText (if map_of row ''released_at'' \<notin> {None, Some DvNull}
        then ''released'' else ''expired''))]"

definition run_is_running :: "lease_db \<Rightarrow> db_row \<Rightarrow> bool" where
  "run_is_running db row \<longleftrightarrow>
     list_ex (\<lambda>run. map_of row ''tenant_id'' = Some (DvText (rr_tenant_id run)) \<and>
       map_of row ''run_id'' = Some (DvText (rr_run_id run)) \<and> rr_run_status run = ''running'')
       (db_runs db)"

text \<open>The rows of \<open>_inactive_running_select\<close> of a tenant whose authority ended by \<open>as_of\<close>.\<close>

definition inactive_rows :: "lease_db \<Rightarrow> tenant_id \<Rightarrow> datetime \<Rightarrow> db_row list" where
  "inactive_rows db t as_of =
     filter (\<lambda>row. run_is_running db row \<and>
         column_is row ''tenant_id'' (DvText (tenant_id_value t)) \<and>
         (case ended_instant row of None \<Rightarrow> False | Some ended \<Rightarrow> ended \<le> instant as_of))
       (db_leases db)"

fun dv_text_of :: "db_value option \<Rightarrow> string" where
  "dv_text_of (Some (DvText s)) = s"
| "dv_text_of _ = []"

definition row_key :: "db_row \<Rightarrow> int \<times> string" where
  "row_key row =
     (case ended_instant row of None \<Rightarrow> 0 | Some i \<Rightarrow> i, dv_text_of (map_of row ''run_id''))"

definition row_before :: "(string \<Rightarrow> string \<Rightarrow> bool) \<Rightarrow> db_row \<Rightarrow> db_row \<Rightarrow> bool" where
  "row_before le a b \<longleftrightarrow> key_before le (row_key a) (row_key b)"

definition cursor_key :: "inactive_running_cursor \<Rightarrow> int \<times> string" where
  "cursor_key c = (instant (cu_last_authority_ended_at c), run_id_value (cu_last_run_id c))"

text \<open>\<open>ended > last OR (ended = last AND run_id > last_run_id)\<close>\<close>

definition after_cursor ::
    "(string \<Rightarrow> string \<Rightarrow> bool) \<Rightarrow> inactive_running_cursor option \<Rightarrow> db_row \<Rightarrow> bool" where
  "after_cursor le cursor row =
     (case cursor of
        None \<Rightarrow> True
      | Some c \<Rightarrow> key_before le (cursor_key c) (row_key row) \<and> row_key row \<noteq> cursor_key c)"

definition get_inactive_running ::
    "exn + unit \<Rightarrow> lease_db \<Rightarrow> tenant_id \<Rightarrow> run_id \<Rightarrow> datetime \<Rightarrow> bool \<Rightarrow>
     exn + inactive_running_lease option" where
  "get_inactive_running schema db t r clock fault =
     result_bind schema (\<lambda>_.
       if fault then Inl (worker_lease_storage_error DispositionUnavailable)
       else result_bind (database_now clock) (\<lambda>as_of.
         case List.find (\<lambda>row. column_is row ''run_id'' (DvText (run_id_value r)))
             (inactive_rows db t as_of) of
           None \<Rightarrow> Inr None
         | Some row \<Rightarrow>
             result_bind (decode_inactive_running (inactive_columns row)) (\<lambda>i. Inr (Some i))))"

definition require_inactive_page ::
    "tenant_id \<Rightarrow> inactive_running_cursor option \<Rightarrow> int \<Rightarrow> exn + unit" where
  "require_inactive_page t cursor limit =
     (if (case cursor of None \<Rightarrow> False | Some c \<Rightarrow> cu_tenant_id c \<noteq> t) \<or> \<not> (1 \<le> limit \<and> limit \<le> 1000)
      then Inl (lease_error LeaseInvalidInput) else Inr ())"

definition page_rows ::
    "(string \<Rightarrow> string \<Rightarrow> bool) \<Rightarrow> lease_db \<Rightarrow> tenant_id \<Rightarrow> inactive_running_cursor option \<Rightarrow>
     datetime \<Rightarrow> nat \<Rightarrow> db_row list" where
  "page_rows le db t cursor as_of n =
     take n (order_by (row_before le) (filter (after_cursor le cursor) (inactive_rows db t as_of)))"

definition list_inactive_running ::
    "(string \<Rightarrow> string \<Rightarrow> bool) \<Rightarrow> exn + unit \<Rightarrow> lease_db \<Rightarrow> tenant_id \<Rightarrow>
     inactive_running_cursor option \<Rightarrow> int \<Rightarrow> datetime \<Rightarrow> bool \<Rightarrow> exn + inactive_running_page" where
  "list_inactive_running le schema db t cursor limit clock fault =
     result_bind (require_inactive_page t cursor limit) (\<lambda>_.
     result_bind schema (\<lambda>_.
       if fault then Inl (worker_lease_storage_error DispositionUnavailable)
       else
         result_bind (case cursor of Some c \<Rightarrow> Inr (cu_as_of c) | None \<Rightarrow> database_now clock)
           (\<lambda>as_of.
         result_bind (traverse (decode_inactive_running \<circ> inactive_columns)
             (page_rows le db t cursor as_of (nat (limit + 1)))) (\<lambda>decoded.
           let items = take (nat limit) decoded in
           if limit < int (length decoded) then
             result_bind (inactive_running_cursor_post_init
                 \<lparr>cu_tenant_id = t, cu_as_of = as_of,
                  cu_last_authority_ended_at = in_authority_ended_at (last items),
                  cu_last_run_id = in_run_id (last items)\<rparr>)
               (\<lambda>next. Inr \<lparr>pg_items = items, pg_next_cursor = Some next\<rparr>)
           else Inr \<lparr>pg_items = items, pg_next_cursor = None\<rparr>))))"

subsection \<open>Terminal observations\<close>

definition failure_phase :: "worker_lease_error_code \<Rightarrow> lease_transaction_phase" where
  "failure_phase code = (if code = LeaseCommitOutcomeUnknown then ObsCommit else ObsComplete)"

definition observe_issue :: "string \<Rightarrow> exn + lease_observation" where
  "observe_issue code = lease_observation_post_init
     \<lparr>ob_operation = OpIssueClaimId, ob_phase = ObsComplete, ob_outcome_code = code,
      ob_correlation_id = None, ob_tenant_id = None, ob_run_id = None, ob_worker_id = None,
      ob_claim_id = None, ob_duration_bucket = None, ob_replayed = False, ob_empty = False,
      ob_contended = False\<rparr>"

fun lease_claim_outcome_code_value :: "lease_claim_outcome_code \<Rightarrow> string" where
  "lease_claim_outcome_code_value Claimed = ''claimed''"
| "lease_claim_outcome_code_value NoWork = ''no_work''"

definition observe_claim ::
    "claim_lease_command option \<Rightarrow> worker_lease_error_code + claim_execution \<Rightarrow>
     exn + lease_observation" where
  "observe_claim cmd result = lease_observation_post_init
     \<lparr>ob_operation = OpClaim,
      ob_phase = (case result of Inl code \<Rightarrow> failure_phase code | Inr _ \<Rightarrow> ObsComplete),
      ob_outcome_code = (case result of
          Inl code \<Rightarrow> worker_lease_error_code_value code
        | Inr ex \<Rightarrow> lease_claim_outcome_code_value (lco_code (ce_outcome ex))),
      ob_correlation_id = None, ob_tenant_id = map_option clm_tenant_id cmd,
      ob_run_id = (case result of
          Inl _ \<Rightarrow> None | Inr ex \<Rightarrow> map_option gr_run_id (lco_grant (ce_outcome ex))),
      ob_worker_id = map_option clm_worker_id cmd, ob_claim_id = map_option clm_claim_id cmd,
      ob_duration_bucket = map_option (\<lambda>_. ''10-30s'') cmd,
      ob_replayed = (case result of Inl _ \<Rightarrow> False | Inr ex \<Rightarrow> lco_replayed (ce_outcome ex)),
      ob_empty = (case result of Inl _ \<Rightarrow> False | Inr ex \<Rightarrow> lco_grant (ce_outcome ex) = None),
      ob_contended = (case result of Inl _ \<Rightarrow> False | Inr ex \<Rightarrow> ce_contended ex)\<rparr>"

text \<open>A cast \<open>result.reason.value\<close> on a missing reason would raise; the constructor excludes it.\<close>

definition reason_value :: "lease_authority \<Rightarrow> string" where
  "reason_value a = (case au_reason a of None \<Rightarrow> '''' | Some code \<Rightarrow> worker_lease_error_code_value code)"

definition proof_observation ::
    "lease_operation \<Rightarrow> lease_transaction_phase \<Rightarrow> string \<Rightarrow> lease_authority_proof option \<Rightarrow>
     string option \<Rightarrow> exn + lease_observation" where
  "proof_observation op phase code proof bucket = lease_observation_post_init
     \<lparr>ob_operation = op, ob_phase = phase, ob_outcome_code = code, ob_correlation_id = None,
      ob_tenant_id = map_option pf_tenant_id proof, ob_run_id = map_option pf_run_id proof,
      ob_worker_id = map_option pf_worker_id proof, ob_claim_id = map_option pf_claim_id proof,
      ob_duration_bucket = bucket, ob_replayed = False, ob_empty = False, ob_contended = False\<rparr>"

definition observe_authority ::
    "lease_authority_proof option \<Rightarrow> worker_lease_error_code + lease_authority \<Rightarrow>
     exn + lease_observation" where
  "observe_authority proof result =
     (case result of
        Inl code \<Rightarrow> proof_observation OpGetAuthority (failure_phase code)
          (worker_lease_error_code_value code) proof None
      | Inr a \<Rightarrow> proof_observation OpGetAuthority ObsComplete
          (if au_authoritative a then ''current'' else reason_value a) proof None)"

definition observe_conditional ::
    "lease_operation \<Rightarrow> conditional_command option \<Rightarrow>
     worker_lease_error_code + conditional_lease_outcome \<Rightarrow> exn + lease_observation" where
  "observe_conditional op cmd result =
     proof_observation op
       (case result of Inl code \<Rightarrow> failure_phase code | Inr _ \<Rightarrow> ObsComplete)
       (case result of
          Inl code \<Rightarrow> worker_lease_error_code_value code
        | Inr out \<Rightarrow>
            if cl_applied out \<and> op = OpRenew then ''renewed''
            else if cl_applied out then ''released''
            else if au_reason (cl_authority out) \<noteq> None then reason_value (cl_authority out)
            else ''not_applied'')
       (map_option command_proof cmd)
       (case cmd of Some (RenewCommand _) \<Rightarrow> Some ''10-30s'' | _ \<Rightarrow> None)"

datatype inactive_result =
    InactiveError worker_lease_error_code
  | InactivePage inactive_running_page
  | InactiveLease "inactive_running_lease option"

definition observe_inactive ::
    "lease_operation \<Rightarrow> tenant_id option \<Rightarrow> run_id option \<Rightarrow> inactive_result \<Rightarrow>
     exn + lease_observation" where
  "observe_inactive op t r result = lease_observation_post_init
     \<lparr>ob_operation = op, ob_phase = ObsComplete,
      ob_outcome_code = (case result of
          InactiveError code \<Rightarrow> worker_lease_error_code_value code
        | InactivePage _ \<Rightarrow> ''listed''
        | InactiveLease i \<Rightarrow> if i \<noteq> None then ''found'' else ''not_found''),
      ob_correlation_id = None, ob_tenant_id = t, ob_run_id = r, ob_worker_id = None,
      ob_claim_id = None, ob_duration_bucket = None, ob_replayed = False,
      ob_empty = (case result of
          InactiveError _ \<Rightarrow> False
        | InactivePage p \<Rightarrow> pg_items p = []
        | InactiveLease i \<Rightarrow> i = None),
      ob_contended = False\<rparr>"

end
