(* ===== verification/Lease_Invariants.thy ===== *)
theory Lease_Invariants
  imports Lease_Authority
begin

section \<open>What the lease tables hold\<close>

text \<open>
  The tables as lists of records: every row is the encoding of a well-formed record, no two
  leases share a run or a claim, no two receipts share a claim, and a claimed receipt is never
  ahead of the lease of its run. The lemmas give each SQL statement on the records.
\<close>

definition stores :: "lease_db \<Rightarrow> worker_lease_record list \<Rightarrow> claim_receipt_record list \<Rightarrow> bool" where
  "stores db ls rs \<longleftrightarrow>
     db_leases db = map encode_worker_lease ls \<and> db_receipts db = map encode_claim_receipt rs \<and>
     (\<forall>l \<in> set ls. worker_lease_record_ok l) \<and> (\<forall>r \<in> set rs. claim_receipt_record_ok r)"

definition lease_key :: "worker_lease_record \<Rightarrow> tenant_id \<times> run_id" where
  "lease_key l = (wl_tenant_id l, wl_run_id l)"

definition find_lease :: "worker_lease_record list \<Rightarrow> tenant_id \<Rightarrow> run_id \<Rightarrow> worker_lease_record option" where
  "find_lease ls t r = List.find (\<lambda>l. lease_key l = (t, r)) ls"

definition find_receipt ::
    "claim_receipt_record list \<Rightarrow> tenant_id \<Rightarrow> lease_claim_id \<Rightarrow> claim_receipt_record option" where
  "find_receipt rs t c = List.find (\<lambda>r. (cr_tenant_id r, cr_claim_id r) = (t, c)) rs"

lemma value_eq_iff [simp]:
  "tenant_id_value t = tenant_id_value t' \<longleftrightarrow> t = t'"
  "run_id_value r = run_id_value r' \<longleftrightarrow> r = r'"
  "lease_claim_id_value c = lease_claim_id_value c' \<longleftrightarrow> c = c'"
  "lease_version_value v = lease_version_value v' \<longleftrightarrow> v = v'"
  "attempt_no_value a = attempt_no_value a' \<longleftrightarrow> a = a'"
  by (auto intro: tenant_id.expand run_id.expand lease_claim_id.expand lease_version.expand
      lease_attempt_no.expand)

lemma find_map: "List.find P (map f xs) = map_option f (List.find (P \<circ> f) xs)"
  by (induction xs) auto

lemma find_cong: "(\<And>x. x \<in> set xs \<Longrightarrow> P x = Q x) \<Longrightarrow> List.find P xs = List.find Q xs"
  by (induction xs) auto

lemma map_of_encode_worker_lease [simp]:
  "map_of (encode_worker_lease l) ''tenant_id'' = Some (DvText (tenant_id_value (wl_tenant_id l)))"
  "map_of (encode_worker_lease l) ''run_id'' = Some (DvText (run_id_value (wl_run_id l)))"
  "map_of (encode_worker_lease l) ''claim_id'' =
     Some (DvUuid (lease_claim_id_value (wl_claim_id l)))"
  "map_of (encode_worker_lease l) ''lease_version'' =
     Some (DvInt (lease_version_value (wl_lease_version l)))"
  "map_of (encode_worker_lease l) ''released_at'' = Some (dv_optional DvTime (wl_released_at l))"
  "map_of (encode_worker_lease l) ''lease_expires_at'' = Some (DvTime (wl_lease_expires_at l))"
  by (simp_all add: encode_worker_lease_def)

lemma map_of_encode_claim_receipt [simp]:
  "map_of (encode_claim_receipt r) ''tenant_id'' = Some (DvText (tenant_id_value (cr_tenant_id r)))"
  "map_of (encode_claim_receipt r) ''claim_id'' =
     Some (DvUuid (lease_claim_id_value (cr_claim_id r)))"
  "map_of (encode_claim_receipt r) ''run_id'' =
     Some (dv_optional (DvText \<circ> run_id_value) (cr_run_id r))"
  by (simp_all add: encode_claim_receipt_def)

lemma lease_at_stored:
  "stores db ls rs \<Longrightarrow> lease_at db t r = map_option encode_worker_lease (find_lease ls t r)"
  by (simp add: lease_at_def stores_def find_lease_def find_map column_is_def comp_def lease_key_def)

lemma receipt_at_stored:
  "stores db ls rs \<Longrightarrow> receipt_at db t c = map_option encode_claim_receipt (find_receipt rs t c)"
  by (simp add: receipt_at_def stores_def find_receipt_def find_map column_is_def comp_def)

lemma find_lease_Some:
  "find_lease ls t r = Some l \<Longrightarrow> l \<in> set ls \<and> wl_tenant_id l = t \<and> wl_run_id l = r"
  by (auto simp: find_lease_def find_Some_iff lease_key_def)

lemma find_receipt_Some:
  "find_receipt rs t c = Some r \<Longrightarrow> r \<in> set rs \<and> cr_tenant_id r = t \<and> cr_claim_id r = c"
  by (auto simp: find_receipt_def find_Some_iff)

lemma find_lease_mem:
  "distinct (map lease_key ls) \<Longrightarrow> l \<in> set ls \<Longrightarrow> find_lease ls (wl_tenant_id l) (wl_run_id l) = Some l"
  by (induction ls) (auto simp: find_lease_def lease_key_def rev_image_eqI)

lemma find_lease_None: "find_lease ls t r = None \<longleftrightarrow> (t, r) \<notin> lease_key ` set ls"
  by (force simp: find_lease_def find_None_iff)

lemma decode_stored_lease:
  "stores db ls rs \<Longrightarrow> l \<in> set ls \<Longrightarrow> decode_worker_lease (encode_worker_lease l) = Inr l"
  by (simp add: stores_def decode_encode_worker_lease)

lemma load_lease_stored:
  assumes "stores db ls rs"
  shows "load_lease_for_update db t r = Inr (find_lease ls t r)"
proof (cases "find_lease ls t r")
  case None
  then show ?thesis by (simp add: load_lease_for_update_def lease_at_stored [OF assms])
next
  case (Some l)
  then have "l \<in> set ls" by (simp add: find_lease_Some)
  then show ?thesis
    by (simp add: load_lease_for_update_def lease_at_stored [OF assms] Some decode_stored_lease [OF assms])
qed

lemma decode_stored_receipt:
  "stores db ls rs \<Longrightarrow> r \<in> set rs \<Longrightarrow> decode_claim_receipt (encode_claim_receipt r) = Inr r"
  by (simp add: stores_def decode_encode_claim_receipt)

subsection \<open>Writes on records\<close>

lemma same_lease_key_encode [simp]:
  "same_lease_key (encode_worker_lease l) (encode_worker_lease m) \<longleftrightarrow> lease_key l = lease_key m"
  by (simp add: same_lease_key_def lease_key_def)

lemma same_claim_encode [simp]:
  "same_claim (encode_worker_lease l) (encode_worker_lease m) \<longleftrightarrow>
     wl_tenant_id l = wl_tenant_id m \<and> wl_claim_id l = wl_claim_id m"
  "same_claim (encode_claim_receipt r) (encode_claim_receipt q) \<longleftrightarrow>
     cr_tenant_id r = cr_tenant_id q \<and> cr_claim_id r = cr_claim_id q"
  by (simp_all add: same_claim_def)

text \<open>The lease of a run replaced by another one.\<close>

definition put_lease :: "worker_lease_record \<Rightarrow> worker_lease_record list \<Rightarrow> worker_lease_record list" where
  "put_lease l ls = map (\<lambda>m. if lease_key m = lease_key l then l else m) ls"

lemma lease_key_put [simp]: "map lease_key (put_lease l ls) = map lease_key ls"
  by (simp add: put_lease_def)

lemma find_lease_put:
  "find_lease (put_lease l ls) t r =
     (if lease_key l = (t, r) \<and> find_lease ls t r \<noteq> None then Some l else find_lease ls t r)"
  by (induction ls) (auto simp: find_lease_def put_lease_def)

lemma find_lease_append:
  "find_lease (ls @ [l]) t r =
     (case find_lease ls t r of Some m \<Rightarrow> Some m
      | None \<Rightarrow> if lease_key l = (t, r) then Some l else None)"
  by (induction ls) (auto simp: find_lease_def)

lemma overwrite_encode:
  assumes "lease_key m = lease_key l"
  shows "dict_update (encode_worker_lease m)
      (filter (\<lambda>c. fst c \<noteq> ''tenant_id'' \<and> fst c \<noteq> ''run_id'') (encode_worker_lease l)) =
    encode_worker_lease l"
  using assms by (simp add: encode_worker_lease_def lease_key_def)

lemma count_key:
  "distinct (map lease_key ls) \<Longrightarrow>
     length (filter (\<lambda>m. k = lease_key m) ls) = (if k \<in> lease_key ` set ls then 1 else 0)"
proof (induction ls)
  case (Cons m ls)
  then show ?case by (cases "k = lease_key m") auto
qed simp

lemma update_leases_Inr:
  assumes "update_leases db matches values = Inr (c, db')"
    and "map_of values ''claim_id'' = Some v"
  shows "c = length (filter matches (db_leases db)) \<and>
    db' = db\<lparr>db_leases := map (\<lambda>row. if matches row then dict_update row values else row)
      (db_leases db)\<rparr> \<and>
    \<not> (\<exists>row \<in> set (db_leases db). \<not> matches row \<and>
      (\<exists>m \<in> set (db_leases db). matches m \<and> map_of m ''tenant_id'' = map_of row ''tenant_id'') \<and>
      map_of row ''claim_id'' = Some v)"
  using assms by (simp add: update_leases_def Let_def list_ex_iff split: if_splits)

lemma insert_lease_stored:
  assumes "stores db ls rs" and "worker_lease_record_ok l"
    and "insert_lease db (encode_worker_lease l) = Inr db'"
  shows "stores db' (ls @ [l]) rs \<and> db_runs db' = db_runs db \<and> lease_key l \<notin> lease_key ` set ls \<and>
    (\<forall>m \<in> set ls. wl_tenant_id m = wl_tenant_id l \<longrightarrow> wl_claim_id m \<noteq> wl_claim_id l)"
  using assms
  by (auto simp: insert_lease_def stores_def list_ex_iff split: if_splits)

lemma store_lease_update_cases:
  assumes "store_lease db l (Some current) = Inr db'"
    and "v = filter (\<lambda>c. fst c \<noteq> ''tenant_id'' \<and> fst c \<noteq> ''run_id'') (encode_worker_lease l)"
  obtains c where "update_leases db (same_lease_key (encode_worker_lease l)) v = Inr (c, db')"
    and "c = 1"
proof -
  have *: "store_lease db l (Some current) =
      result_bind (update_leases db (same_lease_key (encode_worker_lease l)) v) (\<lambda>(count, db').
        if count \<noteq> 1 then Inl (Raised (WorkerLeaseError LeaseDataCorruption)) else Inr db')"
    by (simp only: store_lease_def Let_def assms(2) option.distinct if_False)
  show ?thesis
  proof (cases "update_leases db (same_lease_key (encode_worker_lease l)) v")
    case (Inl x)
    with assms(1) show ?thesis by (simp add: *)
  next
    case (Inr p)
    then show ?thesis using assms(1) that [of "fst p"]
      by (cases p) (simp add: * split: if_splits)
  qed
qed

lemma overwrite_rows:
  assumes "db_leases db = map encode_worker_lease ls"
    and "v = filter (\<lambda>c. fst c \<noteq> ''tenant_id'' \<and> fst c \<noteq> ''run_id'') (encode_worker_lease l)"
  shows "map (\<lambda>row. if same_lease_key (encode_worker_lease l) row then dict_update row v else row)
      (db_leases db) = map encode_worker_lease (put_lease l ls)"
  unfolding assms put_lease_def map_map
  by (rule map_cong) (auto simp: overwrite_encode)

lemma store_lease_update:
  assumes "db_leases db = map encode_worker_lease ls" and "distinct (map lease_key ls)"
    and "store_lease db l (Some current) = Inr db'"
  shows "db' = db\<lparr>db_leases := map encode_worker_lease (put_lease l ls)\<rparr> \<and>
    lease_key l \<in> lease_key ` set ls \<and>
    \<not> (\<exists>row \<in> set (db_leases db). \<not> same_lease_key (encode_worker_lease l) row \<and>
      (\<exists>m \<in> set (db_leases db). same_lease_key (encode_worker_lease l) m \<and>
        map_of m ''tenant_id'' = map_of row ''tenant_id'') \<and>
      map_of row ''claim_id'' = Some (DvUuid (lease_claim_id_value (wl_claim_id l))))"
proof -
  define v where
    "v = filter (\<lambda>c. fst c \<noteq> ''tenant_id'' \<and> fst c \<noteq> ''run_id'') (encode_worker_lease l)"
  have claim: "map_of v ''claim_id'' = Some (DvUuid (lease_claim_id_value (wl_claim_id l)))"
    by (simp add: v_def encode_worker_lease_def)
  obtain c
    where u: "update_leases db (same_lease_key (encode_worker_lease l)) v = Inr (c, db')" and c: "c = 1"
    using assms(3) by (rule store_lease_update_cases [OF _ v_def])
  note u' = update_leases_Inr [OF u claim, unfolded overwrite_rows [OF assms(1) v_def]]
  have "length (filter (same_lease_key (encode_worker_lease l)) (db_leases db)) = 1"
    using u' c by simp
  then have "length (filter (\<lambda>m. lease_key l = lease_key m) ls) = 1"
    unfolding assms(1) filter_map length_map comp_def same_lease_key_encode .
  then have "lease_key l \<in> lease_key ` set ls"
    unfolding count_key [OF assms(2)] by (cases "lease_key l \<in> lease_key ` set ls") simp_all
  with u' show ?thesis by blast
qed

lemma store_lease_update_stored:
  assumes st: "stores db ls rs" and "worker_lease_record_ok l" and d: "distinct (map lease_key ls)"
    and w: "store_lease db l (Some current) = Inr db'"
  shows "stores db' (put_lease l ls) rs \<and> db_runs db' = db_runs db \<and>
    lease_key l \<in> lease_key ` set ls \<and>
    (\<forall>m \<in> set ls. lease_key m \<noteq> lease_key l \<longrightarrow> wl_tenant_id m = wl_tenant_id l \<longrightarrow>
       wl_claim_id m \<noteq> wl_claim_id l)"
proof -
  have leases: "db_leases db = map encode_worker_lease ls" using st by (simp add: stores_def)
  note u = store_lease_update [OF leases d w]
  from u obtain k where k: "k \<in> set ls" "lease_key k = lease_key l" by force
  have "wl_claim_id m \<noteq> wl_claim_id l"
    if m: "m \<in> set ls" "lease_key m \<noteq> lease_key l" "wl_tenant_id m = wl_tenant_id l" for m
  proof
    assume c: "wl_claim_id m = wl_claim_id l"
    have "same_lease_key (encode_worker_lease l) (encode_worker_lease k)" using k by simp
    moreover have "map_of (encode_worker_lease k) ''tenant_id'' = map_of (encode_worker_lease m) ''tenant_id''"
      using k m by (simp add: lease_key_def)
    moreover have "encode_worker_lease m \<in> set (db_leases db)" "encode_worker_lease k \<in> set (db_leases db)"
      using m k by (simp_all add: leases)
    moreover have "\<not> same_lease_key (encode_worker_lease l) (encode_worker_lease m)"
      "map_of (encode_worker_lease m) ''claim_id'' = Some (DvUuid (lease_claim_id_value (wl_claim_id l)))"
      using m c by simp_all
    ultimately show False using u by blast
  qed
  moreover have "stores db' (put_lease l ls) rs"
    using st assms(2) u by (auto simp: stores_def put_lease_def)
  ultimately show ?thesis using u by auto
qed

lemma insert_receipt_stored:
  assumes "stores db ls rs" and "claim_receipt_record_ok r"
    and "insert_claim_receipt db r = Inr (inserted, db')"
  shows "(if inserted then stores db' ls (rs @ [r]) else db' = db) \<and> db_runs db' = db_runs db \<and>
    inserted = (find_receipt rs (cr_tenant_id r) (cr_claim_id r) = None)"
  using assms
  by (auto simp: insert_claim_receipt_def Let_def stores_def list_ex_iff find_receipt_def
      find_None_iff split: if_splits)

end
