(* ===== verification/Lease_System.thy ===== *)
theory Lease_System
  imports Lease_Invariants
begin

section \<open>The lease store as a transition system\<close>

text \<open>
  Every operation of the repository as a step between table states. The row locks that
  PostgreSQL keeps until the end of a transaction enter as the two predicates \<open>claim_locked\<close> and
  \<open>mutation_locked\<close>: what a transaction read under a lock is still there when it writes. The run
  repository changes the \<open>runs\<close> table between these steps, without removing a run. The
  invariant of the tables and the way a lease advances are proved for each step.
\<close>

subsection \<open>Well-formed commands\<close>

definition claim_command_ok :: "claim_lease_command \<Rightarrow> bool" where
  "claim_command_ok cmd \<longleftrightarrow>
     identifier_pattern (tenant_id_value (clm_tenant_id cmd)) \<and>
     identifier_pattern (worker_id_value (clm_worker_id cmd)) \<and>
     claim_id_ok (clm_claim_id cmd) \<and> lease_duration_ok (clm_duration cmd)"

lemma worker_lease_post_init_same:
  "worker_lease_record_post_init r = Inr r' \<Longrightarrow> r' = r"
  by (auto simp: worker_lease_record_post_init_def split: if_splits option.splits)

lemma claim_result_complete_same: "claim_result_complete r = Inr r' \<Longrightarrow> r' = r"
  by (auto simp: claim_result_complete_def split: if_splits option.splits)

lemma claim_receipt_post_init_same:
  "claim_receipt_record_post_init r = Inr r' \<Longrightarrow> r' = r"
  by (auto simp: claim_receipt_record_post_init_def result_bind_eq_Inr
      dest: claim_result_complete_same split: if_splits)

lemma next_attempt_Inr:
  "next_attempt current = Inr a \<longleftrightarrow>
     (case current of
        None \<Rightarrow> a = LeaseAttemptNo 1
      | Some l \<Rightarrow> a = LeaseAttemptNo (attempt_no_value (wl_attempt_no l) + 1) \<and>
          attempt_no_value (wl_attempt_no l) \<noteq> max_signed_bigint \<and> counter_ok (attempt_no_value a))"
  by (auto simp: next_attempt_def counter_next_def counter_ok_def max_signed_bigint_def
      split: option.splits)

lemma next_version_Inr:
  "next_version current = Inr v \<longleftrightarrow>
     (case current of
        None \<Rightarrow> v = LeaseVersion 1
      | Some l \<Rightarrow> v = LeaseVersion (lease_version_value (wl_lease_version l) + 1) \<and>
          lease_version_value (wl_lease_version l) \<noteq> max_signed_bigint \<and>
          counter_ok (lease_version_value v))"
  by (auto simp: next_version_def counter_next_def counter_ok_def max_signed_bigint_def
      split: option.splits)

subsection \<open>The invariant\<close>

text \<open>A claimed receipt is the current attempt of its run or an earlier one.\<close>

definition receipt_backed :: "worker_lease_record list \<Rightarrow> claim_receipt_record \<Rightarrow> bool" where
  "receipt_backed ls r \<longleftrightarrow>
     (case (cr_run_id r, cr_attempt_no r, cr_replay_token r) of
        (Some run, Some attempt, Some token) \<Rightarrow>
          (case find_lease ls (cr_tenant_id r) run of
             None \<Rightarrow> False
           | Some l \<Rightarrow>
               attempt_no_value attempt < attempt_no_value (wl_attempt_no l) \<or>
               (attempt = wl_attempt_no l \<and> cr_worker_id r = wl_worker_id l \<and>
                cr_claim_id r = wl_claim_id l \<and> digest_lease_token token = wl_token_digest l))
      | _ \<Rightarrow> True)"

definition receipt_key :: "claim_receipt_record \<Rightarrow> tenant_id \<times> lease_claim_id" where
  "receipt_key r = (cr_tenant_id r, cr_claim_id r)"

text \<open>An attempt of a run is granted to one claim at most.\<close>

definition grant_key :: "claim_receipt_record \<Rightarrow> tenant_id \<times> run_id option \<times> lease_attempt_no option" where
  "grant_key r = (cr_tenant_id r, cr_run_id r, cr_attempt_no r)"

definition grants_unique :: "claim_receipt_record list \<Rightarrow> bool" where
  "grants_unique rs \<longleftrightarrow>
     (\<forall>r \<in> set rs. \<forall>q \<in> set rs. cr_run_id r \<noteq> None \<longrightarrow> grant_key r = grant_key q \<longrightarrow> r = q)"

definition lease_state ::
    "lease_db \<Rightarrow> worker_lease_record list \<Rightarrow> claim_receipt_record list \<Rightarrow> bool" where
  "lease_state db ls rs \<longleftrightarrow>
     stores db ls rs \<and> distinct (map lease_key ls) \<and> distinct (map receipt_key rs) \<and>
     grants_unique rs \<and>
     (\<forall>r \<in> set rs. receipt_backed ls r \<and>
        cr_intent_fingerprint r = claim_intent_fingerprint (stored_intent r))"

text \<open>
  How the lease of a run changes: a new attempt, or the same attempt under a higher version
  that keeps its owner; a released lease changes by a new attempt only.
\<close>

definition lease_advances :: "worker_lease_record \<Rightarrow> worker_lease_record \<Rightarrow> bool" where
  "lease_advances l l' \<longleftrightarrow>
     l' = l \<or>
     (lease_version_value (wl_lease_version l) < lease_version_value (wl_lease_version l') \<and>
      lease_key l' = lease_key l \<and>
      (attempt_no_value (wl_attempt_no l) < attempt_no_value (wl_attempt_no l') \<or>
       (wl_attempt_no l' = wl_attempt_no l \<and> wl_worker_id l' = wl_worker_id l \<and>
        wl_claim_id l' = wl_claim_id l \<and> wl_token_digest l' = wl_token_digest l \<and>
        wl_acquired_at l' = wl_acquired_at l \<and> wl_released_at l = None)))"

definition leases_advance :: "worker_lease_record list \<Rightarrow> worker_lease_record list \<Rightarrow> bool" where
  "leases_advance ls ls' \<longleftrightarrow>
     (\<forall>t r l. find_lease ls t r = Some l \<longrightarrow> (\<exists>l'. find_lease ls' t r = Some l' \<and> lease_advances l l'))"

lemma lease_advances_refl [simp]: "lease_advances l l"
  by (simp add: lease_advances_def)

lemma lease_advances_trans:
  "lease_advances l m \<Longrightarrow> lease_advances m n \<Longrightarrow>
     (lease_advances l n \<or> attempt_no_value (wl_attempt_no l) < attempt_no_value (wl_attempt_no n)) \<and>
     attempt_no_value (wl_attempt_no l) \<le> attempt_no_value (wl_attempt_no n)"
  by (auto simp: lease_advances_def)

lemma leases_advance_refl [simp]: "leases_advance ls ls"
  by (simp add: leases_advance_def)

lemma advance_backed:
  assumes "leases_advance ls ls'" and "receipt_backed ls r"
  shows "receipt_backed ls' r"
proof -
  have step: "\<exists>l'. find_lease ls' t run = Some l' \<and> lease_advances l l'"
    if "find_lease ls t run = Some l" for t run l
    using assms(1) that unfolding leases_advance_def by blast
  show ?thesis
    using assms(2) unfolding receipt_backed_def
    by (auto simp: lease_advances_def split: option.splits dest!: step)
qed

lemma put_advances:
  assumes "find_lease ls (wl_tenant_id l') (wl_run_id l') = Some l" and "lease_advances l l'"
  shows "leases_advance ls (put_lease l' ls)"
  using assms by (auto simp: leases_advance_def find_lease_put lease_key_def split: if_splits)

lemma append_advances:
  "leases_advance ls (ls @ [l])"
  by (simp add: leases_advance_def find_lease_append)

text \<open>Adding a receipt and advancing the leases keep the invariant.\<close>

lemma lease_state_extend:
  assumes "lease_state db ls rs" and "leases_advance ls ls'" and "stores db' ls' (rs @ new)"
    and "distinct (map lease_key ls')"
    and "\<forall>r \<in> set new. receipt_backed ls' r \<and>
      cr_intent_fingerprint r = claim_intent_fingerprint (stored_intent r) \<and>
      receipt_key r \<notin> receipt_key ` set rs \<and>
      (cr_run_id r \<noteq> None \<longrightarrow> grant_key r \<notin> grant_key ` set rs)"
    and "length new \<le> 1"
  shows "lease_state db' ls' (rs @ new)"
proof -
  have "distinct (map receipt_key (rs @ new))"
    using assms(1,5,6) by (cases new) (auto simp: lease_state_def)
  moreover have "grants_unique (rs @ new)"
    unfolding grants_unique_def
  proof (intro ballI impI)
    fix r q assume r: "r \<in> set (rs @ new)" "q \<in> set (rs @ new)" "cr_run_id r \<noteq> None"
      "grant_key r = grant_key q"
    then have "cr_run_id q \<noteq> None" by (simp add: grant_key_def)
    with r assms(1,5,6) show "r = q"
      unfolding lease_state_def grants_unique_def by (cases new) (auto simp: image_iff)
  qed
  ultimately show ?thesis
    using assms by (auto simp: lease_state_def intro: advance_backed)
qed

lemma complete_receipt:
  assumes "claim_receipt_record_ok r" and "cr_run_id r = Some run"
  shows "cr_attempt_no r \<noteq> None \<and> cr_replay_token r \<noteq> None"
  using assms
  by (auto simp: claim_receipt_record_ok_def claim_receipt_record_post_init_def result_bind_eq_Inr
      claim_result_complete_def split: if_splits)

text \<open>A claimed receipt in the table has no later attempt than the lease of its run.\<close>

lemma receipt_attempt_le:
  assumes inv: "lease_state db ls rs" and r: "r \<in> set rs" "cr_run_id r = Some run"
  shows "\<exists>l a. find_lease ls (cr_tenant_id r) run = Some l \<and> cr_attempt_no r = Some a \<and>
    attempt_no_value a \<le> attempt_no_value (wl_attempt_no l)"
proof -
  have "claim_receipt_record_ok r" "receipt_backed ls r"
    using inv r(1) by (auto simp: lease_state_def stores_def)
  with complete_receipt [OF _ r(2)] r(2) show ?thesis
    by (auto simp: receipt_backed_def split: option.splits)
qed

subsection \<open>Claims\<close>

definition target_ok :: "claim_lease_command \<Rightarrow> claim_target \<Rightarrow> bool" where
  "target_ok cmd target \<longleftrightarrow>
     identifier_pattern (run_id_value (ct_run_id target)) \<and>
     lease_available (ct_current target) (ct_now target)"

lemma claimed_lease_Inr:
  assumes "claimed_lease cmd token target = Inr l"
  shows "worker_lease_record_post_init l = Inr l \<and> wl_tenant_id l = clm_tenant_id cmd \<and>
    wl_run_id l = ct_run_id target \<and> wl_worker_id l = clm_worker_id cmd \<and>
    wl_claim_id l = clm_claim_id cmd \<and> wl_token_digest l = digest_lease_token token \<and>
    wl_duration l = clm_duration cmd \<and> wl_acquired_at l = ct_now target \<and>
    wl_heartbeat_at l = ct_now target \<and>
    datetime_add (ct_now target) (seconds (duration_seconds (clm_duration cmd))) =
      Inr (wl_lease_expires_at l) \<and>
    wl_released_at l = None \<and>
    next_attempt (ct_current target) = Inr (wl_attempt_no l) \<and>
    next_version (ct_current target) = Inr (wl_lease_version l)"
proof -
  obtain attempt version expires where
    *: "next_attempt (ct_current target) = Inr attempt" "next_version (ct_current target) = Inr version"
      "datetime_add (ct_now target) (seconds (duration_seconds (clm_duration cmd))) = Inr expires"
    and post: "worker_lease_record_post_init
         \<lparr>wl_tenant_id = clm_tenant_id cmd, wl_run_id = ct_run_id target,
          wl_worker_id = clm_worker_id cmd, wl_claim_id = clm_claim_id cmd,
          wl_token_digest = digest_lease_token token, wl_attempt_no = attempt,
          wl_lease_version = version, wl_duration = clm_duration cmd,
          wl_acquired_at = ct_now target, wl_heartbeat_at = ct_now target,
          wl_lease_expires_at = expires, wl_released_at = None\<rparr> = Inr l"
    using assms unfolding claimed_lease_def result_bind_eq_Inr by blast
  note worker_lease_post_init_same [OF post]
  with * post show ?thesis by simp
qed

lemma claimed_lease_ok:
  assumes l: "claimed_lease cmd token target = Inr l" and "claim_command_ok cmd"
    and "target_ok cmd target"
  shows "worker_lease_record_ok l"
proof -
  note f = claimed_lease_Inr [OF l]
  have "counter_ok (attempt_no_value (wl_attempt_no l))" "counter_ok (lease_version_value (wl_lease_version l))"
    using f by (auto simp: next_attempt_Inr next_version_Inr counter_ok_def max_signed_bigint_def
        split: option.splits)
  with f assms(2,3) show ?thesis
    by (simp add: worker_lease_record_ok_def claim_command_ok_def target_ok_def)
qed

lemma claimed_lease_advances:
  assumes "claimed_lease cmd token target = Inr l" and "ct_current target = Some m"
    and "lease_key m = (clm_tenant_id cmd, ct_run_id target)"
  shows "lease_advances m l"
  using claimed_lease_Inr [OF assms(1)] assms(2,3)
  by (simp add: lease_advances_def next_attempt_Inr next_version_Inr lease_key_def)

lemma claimed_receipt_Inr:
  assumes "claimed_receipt cmd l token created = Inr r"
  shows "claim_receipt_record_post_init r = Inr r \<and> stored_intent r = cmd \<and>
    cr_intent_fingerprint r = claim_intent_fingerprint cmd \<and> cr_outcome r = StoredClaimed \<and>
    cr_run_id r = Some (wl_run_id l) \<and> cr_attempt_no r = Some (wl_attempt_no l) \<and>
    cr_initial_lease_version r = Some (wl_lease_version l) \<and>
    cr_lease_acquired_at r = Some (wl_acquired_at l) \<and>
    cr_lease_expires_at r = Some (wl_lease_expires_at l) \<and> cr_replay_token r = Some token"
proof -
  obtain issued expires where post: "claim_receipt_record_post_init
         \<lparr>cr_tenant_id = clm_tenant_id cmd, cr_claim_id = clm_claim_id cmd,
          cr_claim_issued_at = issued, cr_replay_expires_at = expires,
          cr_worker_id = clm_worker_id cmd, cr_duration = clm_duration cmd,
          cr_intent_fingerprint = claim_intent_fingerprint cmd, cr_outcome = StoredClaimed,
          cr_run_id = Some (wl_run_id l), cr_attempt_no = Some (wl_attempt_no l),
          cr_initial_lease_version = Some (wl_lease_version l),
          cr_lease_acquired_at = Some (wl_acquired_at l),
          cr_lease_expires_at = Some (wl_lease_expires_at l),
          cr_replay_token = Some token, cr_created_at = created\<rparr> = Inr r"
    using assms unfolding claimed_receipt_def result_bind_eq_Inr by blast
  note claim_receipt_post_init_same [OF post]
  with post show ?thesis by (simp add: stored_intent_def)
qed

lemma no_work_receipt_Inr:
  assumes "no_work_receipt cmd created = Inr r"
  shows "claim_receipt_record_post_init r = Inr r \<and> stored_intent r = cmd \<and>
    cr_intent_fingerprint r = claim_intent_fingerprint cmd \<and> cr_outcome r = StoredNoWork \<and>
    cr_run_id r = None \<and> cr_attempt_no r = None \<and> cr_initial_lease_version r = None \<and>
    cr_replay_token r = None"
proof -
  obtain issued expires where post: "claim_receipt_record_post_init
         \<lparr>cr_tenant_id = clm_tenant_id cmd, cr_claim_id = clm_claim_id cmd,
          cr_claim_issued_at = issued, cr_replay_expires_at = expires,
          cr_worker_id = clm_worker_id cmd, cr_duration = clm_duration cmd,
          cr_intent_fingerprint = claim_intent_fingerprint cmd, cr_outcome = StoredNoWork,
          cr_run_id = None, cr_attempt_no = None, cr_initial_lease_version = None,
          cr_lease_acquired_at = None, cr_lease_expires_at = None, cr_replay_token = None,
          cr_created_at = created\<rparr> = Inr r"
    using assms unfolding no_work_receipt_def result_bind_eq_Inr by blast
  note claim_receipt_post_init_same [OF post]
  with post show ?thesis by (simp add: stored_intent_def)
qed

lemma stored_intent_fields:
  "stored_intent r = cmd \<Longrightarrow> cr_tenant_id r = clm_tenant_id cmd \<and> cr_claim_id r = clm_claim_id cmd \<and>
     cr_worker_id r = clm_worker_id cmd \<and> cr_duration r = clm_duration cmd"
  by (auto simp: stored_intent_def)

lemma receipt_record_ok_claimed:
  assumes "claimed_receipt cmd l token created = Inr r" and "claim_command_ok cmd"
    and "worker_lease_record_ok l" and "token_ok token"
  shows "claim_receipt_record_ok r"
  using claimed_receipt_Inr [OF assms(1)] stored_intent_fields [of r cmd] assms(2-4)
  by (simp add: claim_receipt_record_ok_def claim_command_ok_def worker_lease_record_ok_def)

lemma receipt_record_ok_no_work:
  assumes "no_work_receipt cmd created = Inr r" and "claim_command_ok cmd"
  shows "claim_receipt_record_ok r"
  using no_work_receipt_Inr [OF assms(1)] stored_intent_fields [of r cmd] assms(2)
  by (simp add: claim_receipt_record_ok_def claim_command_ok_def)

lemma raised_eq_Inr [simp]: "raised r = Inr v \<longleftrightarrow> r = Inr v"
  by (cases r) auto

text \<open>The tables that the write phase of a claim leaves.\<close>

definition put_or_add ::
    "worker_lease_record option \<Rightarrow> worker_lease_record \<Rightarrow> worker_lease_record list \<Rightarrow>
     worker_lease_record list" where
  "put_or_add current l ls = (if current = None then ls @ [l] else put_lease l ls)"

lemma find_put_or_add:
  assumes "find_lease ls (wl_tenant_id l) (wl_run_id l) = current"
  shows "find_lease (put_or_add current l ls) (wl_tenant_id l) (wl_run_id l) = Some l"
  using assms by (auto simp: put_or_add_def find_lease_append find_lease_put lease_key_def)

lemma write_claimed_state:
  assumes inv: "lease_state db ls rs" and cmd: "claim_command_ok cmd" "token_ok token"
    and target: "target_ok cmd target"
    and current: "find_lease ls (clm_tenant_id cmd) (ct_run_id target) = ct_current target"
    and w: "write_claimed cmd token target fault db = Inr (db', r)"
  obtains l where "claimed_lease cmd token target = Inr l"
    and "claimed_receipt cmd l token (ct_now target) = Inr r"
    and "lease_state db' (put_or_add (ct_current target) l ls) (rs @ [r])"
    and "leases_advance ls (put_or_add (ct_current target) l ls)"
    and "db_runs db' = db_runs db"
proof -
  obtain l db1 inserted where
    l: "claimed_lease cmd token target = Inr l" and
    r: "claimed_receipt cmd l token (ct_now target) = Inr r" and
    s1: "store_lease db l (ct_current target) = Inr db1" and
    s2: "insert_claim_receipt db1 r = Inr (True, db')"
    using w unfolding write_claimed_def by (auto simp: result_bind_eq_Inr split: if_splits)
  note lf = claimed_lease_Inr [OF l] and rf = claimed_receipt_Inr [OF r]
  note lok = claimed_lease_ok [OF l cmd(1) target]
  note rok = receipt_record_ok_claimed [OF r cmd(1) lok cmd(2)]
  have st: "stores db ls rs" and d: "distinct (map lease_key ls)"
    using inv by (simp_all add: lease_state_def)
  let ?ls = "put_or_add (ct_current target) l ls"
  have 1: "stores db1 ?ls rs \<and> db_runs db1 = db_runs db \<and> distinct (map lease_key ?ls)"
  proof (cases "ct_current target")
    case None
    then have "insert_lease db (encode_worker_lease l) = Inr db1"
      using s1 by (simp add: store_lease_def)
    from insert_lease_stored [OF st lok this] d None show ?thesis by (simp add: put_or_add_def)
  next
    case (Some m)
    then show ?thesis
      using store_lease_update_stored [OF st lok d] s1 d by (simp add: put_or_add_def)
  qed
  have adv: "leases_advance ls ?ls"
  proof (cases "ct_current target")
    case None
    then show ?thesis by (simp add: put_or_add_def append_advances)
  next
    case (Some m)
    then have "lease_key m = (clm_tenant_id cmd, ct_run_id target)"
      using current find_lease_Some by (auto simp: lease_key_def)
    from claimed_lease_advances [OF l Some this] Some current lf show ?thesis
      by (simp add: put_or_add_def put_advances)
  qed
  have 2: "stores db' ?ls (rs @ [r])" "db_runs db' = db_runs db1"
    "find_receipt rs (cr_tenant_id r) (cr_claim_id r) = None"
    using insert_receipt_stored [OF conjunct1 [OF 1] rok s2] by simp_all
  have "find_lease ?ls (wl_tenant_id l) (wl_run_id l) = Some l"
    using find_put_or_add current lf by metis
  then have "receipt_backed ?ls r"
    using rf lf stored_intent_fields [of r cmd] by (simp add: receipt_backed_def)
  moreover have "receipt_key r \<notin> receipt_key ` set rs"
    using 2(3) by (force simp: find_receipt_def find_None_iff receipt_key_def)
  moreover have "grant_key r \<notin> grant_key ` set rs"
  proof
    assume "grant_key r \<in> grant_key ` set rs"
    then obtain q where q: "q \<in> set rs" "grant_key q = grant_key r" by auto
    then have k: "cr_run_id q = Some (ct_run_id target)" "cr_tenant_id q = clm_tenant_id cmd"
      "cr_attempt_no q = Some (wl_attempt_no l)"
      using rf lf stored_intent_fields [of r cmd] by (simp_all add: grant_key_def)
    from receipt_attempt_le [OF inv q(1) k(1)] k(2,3) current obtain m where
      "ct_current target = Some m" "attempt_no_value (wl_attempt_no l) \<le> attempt_no_value (wl_attempt_no m)"
      by auto
    with lf show False by (simp add: next_attempt_Inr)
  qed
  ultimately have "lease_state db' ?ls (rs @ [r])"
    using lease_state_extend [OF inv adv 2(1)] 1 rf by simp
  with that l r adv 1 2 show ?thesis by simp
qed

lemma write_no_work_state:
  assumes inv: "lease_state db ls rs" and cmd: "claim_command_ok cmd"
    and w: "write_no_work cmd clock fault db = Inr db'"
  obtains r where "no_work_receipt cmd clock = Inr r" and "lease_state db' ls (rs @ [r])"
    and "db_runs db' = db_runs db"
proof -
  obtain now r where
    now: "database_now clock = Inr now" and
    r: "no_work_receipt cmd now = Inr r" and s: "insert_claim_receipt db r = Inr (True, db')"
    using w unfolding write_no_work_def by (auto simp: result_bind_eq_Inr split: if_splits)
  then have [simp]: "now = clock" by (cases clock) simp_all
  note rf = no_work_receipt_Inr [OF r]
  have st: "stores db ls rs" and d: "distinct (map lease_key ls)"
    using inv by (simp_all add: lease_state_def)
  have 2: "stores db' ls (rs @ [r])" "db_runs db' = db_runs db"
    "find_receipt rs (cr_tenant_id r) (cr_claim_id r) = None"
    using insert_receipt_stored [OF st receipt_record_ok_no_work [OF r cmd] s] by simp_all
  have "receipt_backed ls r" using rf by (simp add: receipt_backed_def)
  moreover have "receipt_key r \<notin> receipt_key ` set rs"
    using 2(3) by (force simp: find_receipt_def find_None_iff receipt_key_def)
  ultimately have "lease_state db' ls (rs @ [r])"
    using lease_state_extend [OF inv leases_advance_refl 2(1) d] rf by simp
  with that r 2 show ?thesis by simp
qed

end
