(* ===== verification/Lease_Steps.thy ===== *)
theory Lease_Steps
  imports Lease_System
begin

section \<open>Steps of the lease store\<close>

text \<open>
  The whole operations as steps: what the tables are after a claim, a renewal and a release,
  and the relation that interleaves them with changes of the \<open>runs\<close> table.
\<close>

subsection \<open>The claim as a step\<close>

lemma claim_loop_target:
  assumes "claim_loop le cmd selected contended its = Some (Inr (Some target, c))"
  shows "target_ok cmd target \<and> (\<exists>it \<in> set its. ct_now target = it_now it \<and>
    load_lease_for_update (it_lease_db it) (clm_tenant_id cmd) (ct_run_id target) =
      Inr (ct_current target))"
  using assms
proof (induction le cmd selected contended its rule: claim_loop.induct)
  case (3 le cmd row contended it its)
  let ?r = "result_bind (new_identifier RunId (rr_run_id row)) (\<lambda>run.
           result_bind (load_lease_for_update (it_lease_db it) (clm_tenant_id cmd) run) (\<lambda>current.
           result_bind (database_now (it_now it)) (\<lambda>now. Inr (run, current, now))))"
  show ?case
  proof (cases ?r)
    case (Inl x)
    with "3.prems" show ?thesis by simp
  next
    case (Inr p)
    obtain run current now where p: "p = (run, current, now)" by (cases p)
    have now: "now = it_now it" "identifier_pattern (run_id_value run)"
      "load_lease_for_update (it_lease_db it) (clm_tenant_id cmd) run = Inr current"
      using Inr p by (auto simp: result_bind_eq_Inr elim: database_now.elims)
    show ?thesis
    proof (cases "rr_run_status row = ''queued'' \<and> lease_available current now")
      case True
      with "3.prems" Inr p have "target = \<lparr>ct_run_id = run, ct_current = current, ct_now = now\<rparr>"
        by simp
      with True now show ?thesis by (simp add: target_ok_def)
    next
      case False
      then have "claim_loop le cmd (select_next le cmd it now) True its = Some (Inr (Some target, c))"
        using "3.prems" unfolding claim_loop.simps Inr p by (simp split: if_splits)
      from "3.IH" [OF Inr p [symmetric] refl False this] show ?thesis by auto
    qed
  qed
qed simp_all

text \<open>
  What the row locks give: the lease of the selected run is as the loop read it when the claim
  writes.
\<close>

definition claim_locked ::
    "(string \<Rightarrow> string \<Rightarrow> bool) \<Rightarrow> claim_lease_command \<Rightarrow> claim_schedule \<Rightarrow> bool" where
  "claim_locked le cmd sched \<longleftrightarrow>
     (\<forall>now target c. claim_selection le cmd sched now = Some (Inr (Some target, c)) \<longrightarrow>
        load_lease_for_update (cs_write_db sched) (clm_tenant_id cmd) (ct_run_id target) =
          Inr (ct_current target))"

text \<open>The ways a claim can leave the tables.\<close>

definition claim_effect ::
    "claim_lease_command \<Rightarrow> lease_token \<Rightarrow> claim_target option \<Rightarrow> worker_lease_record list \<Rightarrow>
     worker_lease_record list \<Rightarrow> claim_receipt_record list \<Rightarrow> bool" where
  "claim_effect cmd token target ls ls' new \<longleftrightarrow>
     (case target of
        None \<Rightarrow> ls' = ls \<and> (\<exists>now r. no_work_receipt cmd now = Inr r \<and> new = [r])
      | Some t \<Rightarrow> (\<exists>l r. claimed_lease cmd token t = Inr l \<and>
          claimed_receipt cmd l token (ct_now t) = Inr r \<and> new = [r] \<and>
          ls' = put_or_add (ct_current t) l ls))"

lemma claim_writes_state:
  assumes inv: "lease_state (cs_write_db sched) ls rs" and cmd: "claim_command_ok cmd" "token_ok token"
    and target: "\<And>t. target = Some t \<Longrightarrow> target_ok cmd t \<and>
      find_lease ls (clm_tenant_id cmd) (ct_run_id t) = ct_current t"
    and w: "claim_writes cmd token sched (target, c) = Inr (db', result)"
  obtains ls' new where "lease_state db' ls' (rs @ new)" and "leases_advance ls ls'"
    and "claim_effect cmd token target ls ls' new" and "db_runs db' = db_runs (cs_write_db sched)"
proof (cases target)
  case None
  then have "write_no_work cmd (cs_no_work_now sched) (cs_fault sched) (cs_write_db sched) = Inr db'"
    using w by (auto simp: claim_writes_def result_bind_eq_Inr)
  from write_no_work_state [OF inv cmd(1) this] obtain r where
    "no_work_receipt cmd (cs_no_work_now sched) = Inr r" "lease_state db' ls (rs @ [r])"
    "db_runs db' = db_runs (cs_write_db sched)" .
  with None show ?thesis by (intro that [of ls "[r]"]) (auto simp: claim_effect_def)
next
  case (Some t)
  then obtain r where
    "write_claimed cmd token t (cs_fault sched) (cs_write_db sched) = Inr (db', r)"
    using w by (auto simp: claim_writes_def result_bind_eq_Inr)
  from write_claimed_state [OF inv cmd _ _ this] target [OF Some] obtain l where
    "claimed_lease cmd token t = Inr l" "claimed_receipt cmd l token (ct_now t) = Inr r"
    "lease_state db' (put_or_add (ct_current t) l ls) (rs @ [r])"
    "leases_advance ls (put_or_add (ct_current t) l ls)"
    "db_runs db' = db_runs (cs_write_db sched)" by blast
  with Some show ?thesis
    by (intro that [of "put_or_add (ct_current t) l ls" "[r]"]) (auto simp: claim_effect_def)
qed

lemma claim_body_state:
  assumes inv: "lease_state (cs_write_db sched) ls rs" and cmd: "claim_command_ok cmd" "token_ok token"
    and locked: "claim_locked le cmd sched"
    and b: "claim_body le cmd token sched = Some (Inr (phase, db', result))"
  obtains ls' new where "lease_state db' ls' (rs @ new)" and "leases_advance ls ls'"
    and "db_runs db' = db_runs (cs_write_db sched)"
    and "(new = [] \<and> ls' = ls \<and> db' = cs_write_db sched \<and> phase = Arbitration) \<or>
      (phase = Commit \<and> (\<exists>now target c. claim_selection le cmd sched now = Some (Inr (target, c)) \<and>
        claim_effect cmd token target ls ls' new))"
proof -
  obtain now replay where arb: "claim_arbitration cmd sched = Inr (now, replay)"
    using b by (cases "claim_arbitration cmd sched") (auto simp: claim_body_def)
  show ?thesis
  proof (cases replay)
    case (Some outcome)
    then have "db' = cs_write_db sched" "phase = Arbitration"
      using b arb by (auto simp: claim_body_def)
    with inv show ?thesis by (intro that [of ls "[]"]) simp_all
  next
    case None
    obtain sel where sel: "claim_selection le cmd sched now = Some sel"
      and w: "result_bind (raised sel) (\<lambda>selection.
               result_bind (claim_writes cmd token sched selection) (\<lambda>(db, result).
                 Inr (Commit, db, result))) = Inr (phase, db', result)"
      using b arb None
      by (cases "fault_in LockPhase (cs_fault sched)"; cases "claim_selection le cmd sched now")
        (auto simp: claim_body_def)
    then obtain target c where t: "sel = Inr (target, c)"
      and cw: "claim_writes cmd token sched (target, c) = Inr (db', result)" and ph: "phase = Commit"
      by (cases sel) (auto simp: result_bind_eq_Inr)
    have target: "target_ok cmd t \<and> find_lease ls (clm_tenant_id cmd) (ct_run_id t) = ct_current t"
      if "target = Some t" for t
      using sel [unfolded claim_selection_def Let_def] locked sel t that
        load_lease_stored [of "cs_write_db sched" ls rs] inv
      by (auto simp: claim_locked_def lease_state_def dest!: claim_loop_target)
    from claim_writes_state [OF inv cmd target cw] obtain ls' new where
      "lease_state db' ls' (rs @ new)" "leases_advance ls ls'"
      "claim_effect cmd token target ls ls' new" "db_runs db' = db_runs (cs_write_db sched)" .
    with sel t ph show ?thesis by (intro that [of ls' new]) auto
  qed
qed

text \<open>
  A claim leaves the tables alone, or commits its effect: also when the acknowledgement of the
  commit is lost.
\<close>

lemma claim_transaction_state:
  assumes inv: "lease_state (cs_write_db sched) ls rs" and cmd: "claim_command_ok cmd" "token_ok token"
    and locked: "claim_locked le cmd sched"
    and t: "claim_transaction le cmd token sched = Some (db', result)"
  obtains ls' new where "lease_state db' ls' (rs @ new)" and "leases_advance ls ls'"
    and "db_runs db' = db_runs (cs_write_db sched)"
    and "(new = [] \<and> ls' = ls \<and> db' = cs_write_db sched) \<or>
      (\<exists>now target c. claim_selection le cmd sched now = Some (Inr (target, c)) \<and>
        claim_effect cmd token target ls ls' new)"
proof -
  obtain b where b: "claim_body le cmd token sched = Some b"
    using t by (auto simp: claim_transaction_def)
  note result = that
  have same: thesis if "db' = cs_write_db sched"
    using that inv by (intro result [of ls "[]"]) simp_all
  show ?thesis
  proof (cases b)
    case (Inl f)
    with t b same show ?thesis by (simp add: claim_transaction_def)
  next
    case (Inr p)
    obtain phase db2 r where p: "p = (phase, db2, r)" by (cases p)
    have "db' = db2 \<or> db' = cs_write_db sched"
      using t b Inr p
      by (cases "commit_fault (cs_fault sched) phase") (auto simp: claim_transaction_def split: if_splits)
    then show ?thesis
    proof
      assume db': "db' = db2"
      from claim_body_state [OF inv cmd locked b [unfolded Inr p]] obtain ls' new where
        "lease_state db2 ls' (rs @ new)" "leases_advance ls ls'"
        "db_runs db2 = db_runs (cs_write_db sched)"
        "(new = [] \<and> ls' = ls \<and> db2 = cs_write_db sched \<and> phase = Arbitration) \<or>
          (phase = Commit \<and> (\<exists>now target c. claim_selection le cmd sched now = Some (Inr (target, c)) \<and>
            claim_effect cmd token target ls ls' new))" .
      with db' show ?thesis by (intro result [of ls' new]) auto
    qed (rule same)
  qed
qed

lemma claim_state:
  assumes inv: "lease_state (cs_write_db sched) ls rs" and cmd: "claim_command_ok cmd" "token_ok token"
    and locked: "claim_locked le cmd sched"
    and t: "claim le schema cmd token sched race = Some (db', result)"
  obtains ls' new where "lease_state db' ls' (rs @ new)" and "leases_advance ls ls'"
    and "db_runs db' = db_runs (cs_write_db sched)"
    and "(new = [] \<and> ls' = ls \<and> db' = cs_write_db sched) \<or>
      (\<exists>now target c. claim_selection le cmd sched now = Some (Inr (target, c)) \<and>
        claim_effect cmd token target ls ls' new)"
proof (cases schema)
  case (Inl x)
  with t have "db' = cs_write_db sched" by (simp add: claim_def)
  with inv show ?thesis by (intro that [of ls "[]"]) simp_all
next
  case (Inr u)
  then obtain p where p: "claim_transaction le cmd token sched = Some p"
    and c: "(case p of (db, Inl (Raised x)) \<Rightarrow> (db, Inl x)
          | (db, Inl _) \<Rightarrow> (db, replay_after_race cmd race)
          | (db, Inr execution) \<Rightarrow> (db, Inr execution)) = (db', result)"
    using t by (auto simp: claim_def)
  obtain res where "p = (db', res)"
    using c by (cases p) (auto split: sum.splits claim_failure.splits)
  with p have "claim_transaction le cmd token sched = Some (db', res)" by simp
  from claim_transaction_state [OF inv cmd locked this] that show ?thesis by blast
qed

subsection \<open>Renewal and release as steps\<close>

definition mutation_locked :: "conditional_command \<Rightarrow> mutation_schedule \<Rightarrow> bool" where
  "mutation_locked cmd sched \<longleftrightarrow>
     (let t = pf_tenant_id (command_proof cmd); r = pf_run_id (command_proof cmd) in
      run_status_at (ms_status_db sched) t r = run_status_at (ms_write_db sched) t r \<and>
      joined_lease (ms_lease_db sched) t r = joined_lease (ms_write_db sched) t r)"

text \<open>The renewed and the released lease record.\<close>

definition renewed_lease ::
    "worker_lease_record \<Rightarrow> lease_version \<Rightarrow> lease_duration \<Rightarrow> datetime \<Rightarrow> datetime \<Rightarrow>
     worker_lease_record" where
  "renewed_lease l v d now expires =
     l\<lparr>wl_lease_version := v, wl_duration := d, wl_heartbeat_at := now, wl_lease_expires_at := expires\<rparr>"

definition released_lease ::
    "worker_lease_record \<Rightarrow> lease_version \<Rightarrow> datetime \<Rightarrow> worker_lease_record" where
  "released_lease l v now = l\<lparr>wl_lease_version := v, wl_released_at := Some now\<rparr>"

lemma renew_row:
  "wl_released_at l = None \<Longrightarrow> dict_update (encode_worker_lease l)
     [(''duration_seconds'', DvInt (duration_seconds d)),
      (''lease_version'', DvInt (lease_version_value v)), (''heartbeat_at'', DvTime now),
      (''lease_expires_at'', DvTime expires)] = encode_worker_lease (renewed_lease l v d now expires)"
  by (simp add: encode_worker_lease_def renewed_lease_def)

lemma release_row:
  "dict_update (encode_worker_lease l)
     [(''lease_version'', DvInt (lease_version_value v)), (''released_at'', DvTime now)] =
   encode_worker_lease (released_lease l v now)"
  by (simp add: encode_worker_lease_def released_lease_def)

lemma update_lease_stored:
  assumes st: "stores db ls rs" and d: "distinct (map lease_key ls)"
    and l: "find_lease ls (pf_tenant_id proof) (pf_run_id proof) = Some l"
    and vals: "dict_update (encode_worker_lease l) values = encode_worker_lease l'"
      "map_of values ''claim_id'' = None"
    and keep: "lease_key l' = lease_key l" and ok: "worker_lease_record_ok l'"
    and u: "update_lease db proof (wl_lease_version l) values = Inr db'"
  shows "stores db' (put_lease l' ls) rs \<and> db_runs db' = db_runs db"
proof -
  have leases: "db_leases db = map encode_worker_lease ls" using st by (simp add: stores_def)
  let ?m = "lease_version_matches proof (wl_lease_version l)"
  have db': "db' = db\<lparr>db_leases := map (\<lambda>row. if ?m row then dict_update row values else row)
      (db_leases db)\<rparr>"
    using u vals(2) unfolding update_lease_def update_leases_def Let_def
    by (simp split: if_splits)
  have lk: "lease_key l = (pf_tenant_id proof, pf_run_id proof)" "l \<in> set ls"
    using find_lease_Some [OF l] by (auto simp: lease_key_def)
  have m: "?m (encode_worker_lease k) \<longleftrightarrow> k = l" if k: "k \<in> set ls" for k
  proof
    assume "?m (encode_worker_lease k)"
    then have "lease_key k = lease_key l"
      by (simp add: lease_version_matches_def column_is_def lease_key_def lk(1) [unfolded lease_key_def])
    with k lk(2) d show "k = l" by (metis distinct_map inj_onD)
  next
    assume "k = l"
    then show "?m (encode_worker_lease k)"
      using lk(1) by (simp add: lease_version_matches_def column_is_def lease_key_def)
  qed
  have "map (\<lambda>row. if ?m row then dict_update row values else row) (db_leases db) =
      map encode_worker_lease (put_lease l' ls)"
    unfolding leases put_lease_def map_map comp_def keep
  proof (rule map_cong [OF refl])
    fix k assume k: "k \<in> set ls"
    show "(if ?m (encode_worker_lease k) then dict_update (encode_worker_lease k) values
        else encode_worker_lease k) =
      encode_worker_lease (if lease_key k = lease_key l then l' else k)"
      using m [OF k] vals(1) k lk(2) d by (auto simp: distinct_map dest: inj_onD)
  qed
  with st ok show ?thesis by (auto simp: db' stores_def put_lease_def)
qed

end
