(* ===== verification/Lease_Mutations.thy ===== *)
theory Lease_Mutations
  imports Lease_Steps
begin

section \<open>Renewal, release and the step relation\<close>

text \<open>
  The authority a proof has, what a renewal and a release do to the tables, and the relation
  \<open>lease_step\<close> with its invariant and its fencing lemmas.
\<close>

subsection \<open>Authority\<close>

lemma lease_authority_post_init_same: "lease_authority_post_init a = Inr a' \<Longrightarrow> a' = a"
  by (auto simp: lease_authority_post_init_def result_bind_eq_Inr split: if_splits option.splits)

lemma authority_results:
  "authority_not_current = Inr a \<Longrightarrow> \<not> au_authoritative a \<and> au_reason a = Some LeaseNotCurrent"
  "matched_not_current l = Inr a \<Longrightarrow> \<not> au_authoritative a \<and> au_reason a = Some LeaseNotCurrent"
  "authority_expired v t1 t2 t3 = Inr a \<Longrightarrow> \<not> au_authoritative a \<and> au_reason a = Some LeaseExpired"
  "authority_current v t1 t2 t3 = Inr a \<Longrightarrow> au_authoritative a \<and> au_reason a = None \<and>
     au_lease_version a = Some v \<and> au_acquired_at a = Some t1 \<and> au_heartbeat_at a = Some t2 \<and>
     au_lease_expires_at a = Some t3"
  by (auto simp: authority_not_current_def matched_not_current_def authority_expired_def
      authority_current_def dest!: lease_authority_post_init_same)

lemma evaluate_authoritative:
  assumes "evaluate_authority proof current status now = Inr a" and "au_authoritative a"
  obtains l where "current = Some l" and "proof_matches proof l = Inr True"
    and "wl_released_at l = None" and "status_active status"
    and "instant now < instant (wl_lease_expires_at l)"
    and "au_lease_version a = Some (wl_lease_version l)"
proof (cases current)
  case None
  with assms show ?thesis by (simp add: evaluate_authority_def authority_results)
next
  case (Some l)
  then obtain m where m: "proof_matches proof l = Inr m"
    using assms(1) by (auto simp: evaluate_authority_def result_bind_eq_Inr)
  show ?thesis
    using assms Some m that [OF Some]
    by (auto simp: evaluate_authority_def dest: authority_results split: if_splits)
qed

lemma authority_current_times:
  assumes "authority_current v acquired heartbeat expires = Inr a"
  shows "is_utc acquired \<and> is_utc heartbeat \<and> is_utc expires \<and>
    instant acquired \<le> instant heartbeat \<and> instant heartbeat \<le> instant expires"
  using assms
  by (auto simp: authority_current_def lease_authority_post_init_def result_bind_eq_Inr
      split: if_splits)

lemma proof_matches_True:
  "proof_matches proof l = Inr True \<longleftrightarrow>
     wl_tenant_id l = pf_tenant_id proof \<and> wl_run_id l = pf_run_id proof \<and>
     wl_worker_id l = pf_worker_id proof \<and> wl_claim_id l = pf_claim_id proof \<and>
     wl_attempt_no l = pf_attempt_no proof \<and> length (wl_token_digest l) = 32 \<and>
     digest_lease_token (pf_token proof) = wl_token_digest l"
  by (auto simp: proof_matches_def lease_token_matches_def)

subsection \<open>Well-formed mutations\<close>

fun conditional_command_ok :: "conditional_command \<Rightarrow> bool" where
  "conditional_command_ok (RenewCommand c) = lease_duration_ok (rnw_duration c)"
| "conditional_command_ok (ReleaseCommand c) = True"

lemma renewed_lease_ok:
  assumes "worker_lease_record_ok l" and "wl_released_at l = None" and "lease_duration_ok d"
    and "counter_next LeaseVersion (lease_version_value (wl_lease_version l)) = Inr v"
    and "datetime_add now (seconds (duration_seconds d)) = Inr expires"
    and "authority_current v (wl_acquired_at l) now expires = Inr a"
  shows "worker_lease_record_ok (renewed_lease l v d now expires)"
proof -
  have "instant expires = instant now + seconds (duration_seconds d)" "0 < seconds (duration_seconds d)"
    using assms(3,5)
    by (auto simp: datetime_add_Inr lease_duration_ok_def min_lease_duration_seconds_def)
  moreover have "counter_ok (lease_version_value v)"
    using assms(1,4) by (auto simp: counter_next_def worker_lease_record_ok_def split: if_splits)
  moreover have "length (wl_token_digest l) = 32"
    using assms(1) by (auto simp: worker_lease_record_ok_def worker_lease_record_post_init_def
        split: if_splits)
  ultimately show ?thesis
    using assms(1,2,3) authority_current_times [OF assms(6)]
    by (simp add: worker_lease_record_ok_def renewed_lease_def worker_lease_record_post_init_def)
qed

lemma released_lease_ok:
  assumes "worker_lease_record_ok l"
    and "counter_next LeaseVersion (lease_version_value (wl_lease_version l)) = Inr v"
    and "worker_lease_record_post_init (l\<lparr>wl_lease_version := v, wl_released_at := Some now\<rparr>) = Inr l'"
  shows "worker_lease_record_ok (released_lease l v now)"
  using assms worker_lease_post_init_same [OF assms(3)]
  by (auto simp: worker_lease_record_ok_def released_lease_def counter_next_def split: if_splits)

lemma counter_next_version:
  "counter_next LeaseVersion i = Inr v \<Longrightarrow> lease_version_value v = i + 1"
  by (auto simp: counter_next_def split: if_splits)

lemma renewed_advances:
  "counter_next LeaseVersion (lease_version_value (wl_lease_version l)) = Inr v \<Longrightarrow>
     wl_released_at l = None \<Longrightarrow> lease_advances l (renewed_lease l v d now expires)"
  by (simp add: lease_advances_def renewed_lease_def lease_key_def counter_next_version)

lemma released_advances:
  "counter_next LeaseVersion (lease_version_value (wl_lease_version l)) = Inr v \<Longrightarrow>
     wl_released_at l = None \<Longrightarrow> lease_advances l (released_lease l v now)"
  by (simp add: lease_advances_def released_lease_def lease_key_def counter_next_version)

text \<open>The two ways a mutation changes a lease.\<close>

definition mutation_effect ::
    "conditional_command \<Rightarrow> datetime \<Rightarrow> worker_lease_record \<Rightarrow> worker_lease_record \<Rightarrow> bool" where
  "mutation_effect cmd now l l' \<longleftrightarrow>
     proof_matches (command_proof cmd) l = Inr True \<and> wl_released_at l = None \<and>
     (\<exists>v. counter_next LeaseVersion (lease_version_value (wl_lease_version l)) = Inr v \<and>
       (case cmd of
          RenewCommand c \<Rightarrow> rnw_expected_version c = wl_lease_version l \<and>
            instant now < instant (wl_lease_expires_at l) \<and>
            (\<exists>expires. datetime_add now (seconds (duration_seconds (rnw_duration c))) = Inr expires \<and>
              l' = renewed_lease l v (rnw_duration c) now expires)
        | ReleaseCommand c \<Rightarrow> rls_expected_version c = wl_lease_version l \<and>
            l' = released_lease l v now))"

lemma mutation_effect_advances: "mutation_effect cmd now l l' \<Longrightarrow> lease_advances l l'"
  by (cases cmd) (auto simp: mutation_effect_def renewed_advances released_advances)

lemma mutation_effect_key: "mutation_effect cmd now l l' \<Longrightarrow> lease_key l' = lease_key l"
  by (cases cmd) (auto simp: mutation_effect_def renewed_lease_def released_lease_def lease_key_def)

lemma renew_branch_cases:
  assumes b: "renew_branch c l a now fault db = Inr (phase, db', out)"
  shows "(\<not> cl_applied out \<and> db' = db \<and> phase = LockPhase \<and> cl_authority out = a) \<or>
    (cl_applied out \<and> phase = Commit \<and> au_authoritative a \<and> rnw_expected_version c = wl_lease_version l \<and>
     (\<exists>v expires a'. counter_next LeaseVersion (lease_version_value (wl_lease_version l)) = Inr v \<and>
       datetime_add now (seconds (duration_seconds (rnw_duration c))) = Inr expires \<and>
       authority_current v (wl_acquired_at l) now expires = Inr a' \<and> cl_authority out = a' \<and>
       update_lease db (rnw_proof c) (wl_lease_version l)
          [(''duration_seconds'', DvInt (duration_seconds (rnw_duration c))),
           (''lease_version'', DvInt (lease_version_value v)),
           (''heartbeat_at'', DvTime now), (''lease_expires_at'', DvTime expires)] = Inr db'))"
proof (cases "\<not> au_authoritative a \<or> rnw_expected_version c \<noteq> wl_lease_version l")
  case True
  then show ?thesis
    using b by (auto simp: renew_branch_def result_bind_eq_Inr not_applied_def
        conditional_lease_outcome_post_init_def)
next
  case False
  then obtain v expires where
    *: "counter_next LeaseVersion (lease_version_value (wl_lease_version l)) = Inr v"
      "datetime_add now (seconds (duration_seconds (rnw_duration c))) = Inr expires"
      "update_lease db (rnw_proof c) (wl_lease_version l)
          [(''duration_seconds'', DvInt (duration_seconds (rnw_duration c))),
           (''lease_version'', DvInt (lease_version_value v)),
           (''heartbeat_at'', DvTime now), (''lease_expires_at'', DvTime expires)] = Inr db'"
    and out: "applied (authority_current v (wl_acquired_at l) now expires)
            (Some (renew_by_at now (rnw_duration c))) = Inr out"
    and "phase = Commit"
    using b unfolding renew_branch_def by (auto simp: result_bind_eq_Inr)
  from out obtain a' where "authority_current v (wl_acquired_at l) now expires = Inr a'"
    "cl_applied out" "cl_authority out = a'"
    by (auto simp: applied_def result_bind_eq_Inr conditional_lease_outcome_post_init_def)
  with * False \<open>phase = Commit\<close> show ?thesis by auto
qed

lemma release_branch_cases:
  assumes b: "release_branch c l status a now fault db = Inr (phase, db', out)"
  shows "(\<not> cl_applied out \<and> db' = db \<and> phase = LockPhase) \<or>
    (cl_applied out \<and> phase = Commit \<and> wl_released_at l = None \<and> rls_expected_version c = wl_lease_version l \<and>
     (au_authoritative a \<or> status \<notin> set active_statuses) \<and>
     \<not> au_authoritative (cl_authority out) \<and>
     (\<exists>v l'. counter_next LeaseVersion (lease_version_value (wl_lease_version l)) = Inr v \<and>
       worker_lease_record_post_init (l\<lparr>wl_lease_version := v, wl_released_at := Some now\<rparr>) = Inr l' \<and>
       update_lease db (rls_proof c) (wl_lease_version l)
          [(''lease_version'', DvInt (lease_version_value v)), (''released_at'', DvTime now)] =
         Inr db'))"
proof (cases "wl_released_at l \<noteq> None \<or> rls_expected_version c \<noteq> wl_lease_version l \<or>
    (status \<in> set active_statuses \<and> \<not> au_authoritative a)")
  case True
  then show ?thesis
    using b by (auto simp: release_branch_def Let_def result_bind_eq_Inr not_applied_def
        conditional_lease_outcome_post_init_def split: if_splits)
next
  case False
  then obtain v l' where
    *: "counter_next LeaseVersion (lease_version_value (wl_lease_version l)) = Inr v"
      "update_lease db (rls_proof c) (wl_lease_version l)
          [(''lease_version'', DvInt (lease_version_value v)), (''released_at'', DvTime now)] =
         Inr db'"
      "worker_lease_record_post_init (l\<lparr>wl_lease_version := v, wl_released_at := Some now\<rparr>) = Inr l'"
    and out: "applied (matched_not_current l') None = Inr out" and "phase = Commit"
    using b unfolding release_branch_def Let_def by (auto simp: result_bind_eq_Inr)
  from out have "cl_applied out" "\<not> au_authoritative (cl_authority out)"
    by (auto simp: applied_def result_bind_eq_Inr conditional_lease_outcome_post_init_def
        dest: authority_results)
  with * False \<open>phase = Commit\<close> show ?thesis by auto
qed

text \<open>
  The body of a mutation: it leaves the tables alone with an outcome that was not applied, or it
  reaches the commit with one lease changed.
\<close>

lemma conditional_body_branch:
  assumes b: "conditional_body cmd sched = Inr (phase, db', out)"
  shows "(\<not> cl_applied out \<and> db' = ms_write_db sched \<and> phase = LockPhase) \<or>
    (\<exists>l status a now. ms_now sched = now \<and>
      run_status_at (ms_status_db sched) (pf_tenant_id (command_proof cmd))
        (pf_run_id (command_proof cmd)) = Some status \<and>
      load_authority_state (ms_lease_db sched) (command_proof cmd) = Inr (Some l, Some status) \<and>
      evaluate_authority (command_proof cmd) (Some l) (Some status) now = Inr a \<and>
      proof_matches (command_proof cmd) l = Inr True \<and>
      (case cmd of
         RenewCommand c \<Rightarrow>
           renew_branch c l a now (ms_fault sched) (ms_write_db sched) = Inr (phase, db', out)
       | ReleaseCommand c \<Rightarrow>
           release_branch c l status a now (ms_fault sched) (ms_write_db sched) =
             Inr (phase, db', out)))"
proof (cases "run_status_at (ms_status_db sched) (pf_tenant_id (command_proof cmd))
    (pf_run_id (command_proof cmd))")
  case None
  with b show ?thesis
    by (auto simp: conditional_body_def Let_def result_bind_eq_Inr not_applied_def
        conditional_lease_outcome_post_init_def)
next
  case (Some status)
  note s = Some
  from b obtain current now a where
    la: "load_authority_state (ms_lease_db sched) (command_proof cmd) = Inr (current, Some status)" and
    now: "database_now (ms_now sched) = Inr now" and
    a: "evaluate_authority (command_proof cmd) current (Some status) now = Inr a" and
    rest: "(case current of
              None \<Rightarrow> result_bind (raised (not_applied (Inr a)))
                    (\<lambda>out. Inr (LockPhase, ms_write_db sched, out))
            | Some lease \<Rightarrow>
                result_bind (raised (proof_matches (command_proof cmd) lease)) (\<lambda>matches.
                  if \<not> matches
                  then result_bind (raised (not_applied (Inr a)))
                    (\<lambda>out. Inr (LockPhase, ms_write_db sched, out))
                  else (case cmd of
                      RenewCommand c \<Rightarrow> renew_branch c lease a now (ms_fault sched) (ms_write_db sched)
                    | ReleaseCommand c \<Rightarrow>
                        release_branch c lease status a now (ms_fault sched) (ms_write_db sched)))) =
          Inr (phase, db', out)"
    unfolding conditional_body_def Let_def s
    by (auto simp: result_bind_eq_Inr split: if_splits)
  have now': "ms_now sched = now" using now by (cases "ms_now sched") simp_all
  show ?thesis
  proof (cases current)
    case None
    with rest show ?thesis
      by (auto simp: result_bind_eq_Inr not_applied_def conditional_lease_outcome_post_init_def)
  next
    case (Some l)
    then obtain m where m: "proof_matches (command_proof cmd) l = Inr m"
      using rest by (auto simp: result_bind_eq_Inr)
    show ?thesis
    proof (cases m)
      case False
      with rest Some m show ?thesis
        by (auto simp: result_bind_eq_Inr not_applied_def conditional_lease_outcome_post_init_def)
    next
      case True
      with rest Some m have "(case cmd of
         RenewCommand c \<Rightarrow>
           renew_branch c l a now (ms_fault sched) (ms_write_db sched) = Inr (phase, db', out)
       | ReleaseCommand c \<Rightarrow>
           release_branch c l status a now (ms_fault sched) (ms_write_db sched) =
             Inr (phase, db', out))"
        by (simp split: conditional_command.splits)
      moreover have "load_authority_state (ms_lease_db sched) (command_proof cmd) =
          Inr (Some l, Some status)"
        "evaluate_authority (command_proof cmd) (Some l) (Some status) now = Inr a"
        "proof_matches (command_proof cmd) l = Inr True"
        using la a m Some True by simp_all
      ultimately show ?thesis using s now' by blast
    qed
  qed
qed

lemma load_authority_stored:
  assumes "stores db ls rs" and "load_authority_state db proof = Inr (Some l, status)"
  shows "find_lease ls (pf_tenant_id proof) (pf_run_id proof) = Some l"
proof -
  obtain row st where j: "joined_lease db (pf_tenant_id proof) (pf_run_id proof) = Some (row, st)"
    and d: "decode_worker_lease row = Inr l"
    using assms(2) by (auto simp: load_authority_state_def result_bind_eq_Inr split: option.splits)
  then have "lease_at db (pf_tenant_id proof) (pf_run_id proof) = Some row"
    by (auto simp: joined_lease_def split: option.splits)
  then obtain k where k: "find_lease ls (pf_tenant_id proof) (pf_run_id proof) = Some k"
    "row = encode_worker_lease k"
    by (auto simp: lease_at_stored [OF assms(1)])
  moreover have "k \<in> set ls" using find_lease_Some [OF k(1)] by simp
  ultimately show ?thesis using d decode_stored_lease [OF assms(1)] by simp
qed

lemma conditional_body_state:
  assumes inv: "lease_state (ms_write_db sched) ls rs" and ok: "conditional_command_ok cmd"
    and locked: "mutation_locked cmd sched"
    and b: "conditional_body cmd sched = Inr (phase, db', out)" and applied: "cl_applied out"
  obtains l l' where
    "find_lease ls (pf_tenant_id (command_proof cmd)) (pf_run_id (command_proof cmd)) = Some l"
    and "mutation_effect cmd (ms_now sched) l l'" and "lease_state db' (put_lease l' ls) rs"
    and "db_runs db' = db_runs (ms_write_db sched)" and "phase = Commit"
proof -
  let ?p = "command_proof cmd" and ?db = "ms_write_db sched"
  have st: "stores ?db ls rs" and d: "distinct (map lease_key ls)"
    using inv by (simp_all add: lease_state_def)
  obtain l status a where
    la: "load_authority_state (ms_lease_db sched) ?p = Inr (Some l, Some status)" and
    a: "evaluate_authority ?p (Some l) (Some status) (ms_now sched) = Inr a" and
    m: "proof_matches ?p l = Inr True" and
    br: "case cmd of
         RenewCommand c \<Rightarrow>
           renew_branch c l a (ms_now sched) (ms_fault sched) ?db = Inr (phase, db', out)
       | ReleaseCommand c \<Rightarrow>
           release_branch c l status a (ms_now sched) (ms_fault sched) ?db = Inr (phase, db', out)"
    using conditional_body_branch [OF b] applied by blast
  have "load_authority_state ?db ?p = Inr (Some l, Some status)"
    using la locked by (simp add: load_authority_state_def mutation_locked_def Let_def)
  from load_authority_stored [OF st this]
  have l: "find_lease ls (pf_tenant_id ?p) (pf_run_id ?p) = Some l" .
  then have lok: "worker_lease_record_ok l"
    using st find_lease_Some [OF l] by (simp add: stores_def)
  have "\<exists>l'. mutation_effect cmd (ms_now sched) l l' \<and> worker_lease_record_ok l' \<and> phase = Commit \<and>
      stores db' (put_lease l' ls) rs \<and> db_runs db' = db_runs ?db"
  proof (cases cmd)
    case (RenewCommand c)
    with br renew_branch_cases [of c l a "ms_now sched" "ms_fault sched" ?db phase db' out] applied
    obtain v expires a' where
      au: "au_authoritative a" "rnw_expected_version c = wl_lease_version l" and
      v: "counter_next LeaseVersion (lease_version_value (wl_lease_version l)) = Inr v" and
      e: "datetime_add (ms_now sched) (seconds (duration_seconds (rnw_duration c))) = Inr expires" and
      c: "authority_current v (wl_acquired_at l) (ms_now sched) expires = Inr a'" and
      u: "update_lease ?db (rnw_proof c) (wl_lease_version l)
          [(''duration_seconds'', DvInt (duration_seconds (rnw_duration c))),
           (''lease_version'', DvInt (lease_version_value v)),
           (''heartbeat_at'', DvTime (ms_now sched)), (''lease_expires_at'', DvTime expires)] = Inr db'"
      and ph: "phase = Commit" by auto
    from evaluate_authoritative [OF a au(1)]
    have r: "wl_released_at l = None" "instant (ms_now sched) < instant (wl_lease_expires_at l)"
      by auto
    let ?l' = "renewed_lease l v (rnw_duration c) (ms_now sched) expires"
    have eff: "mutation_effect cmd (ms_now sched) l ?l'"
      using RenewCommand m r au(2) v e by (auto simp: mutation_effect_def)
    have lok': "worker_lease_record_ok ?l'"
      using renewed_lease_ok [OF lok r(1) _ v e c] ok RenewCommand by simp
    have "stores db' (put_lease ?l' ls) rs \<and> db_runs db' = db_runs ?db"
      by (rule update_lease_stored [OF st d _ renew_row [OF r(1)] _ mutation_effect_key [OF eff] lok' u])
        (use l RenewCommand in simp_all)
    with eff lok' ph show ?thesis by blast
  next
    case (ReleaseCommand c)
    with br release_branch_cases [of c l status a "ms_now sched" "ms_fault sched" ?db phase db' out] applied
    obtain v l2 where
      r: "wl_released_at l = None" "rls_expected_version c = wl_lease_version l" and
      v: "counter_next LeaseVersion (lease_version_value (wl_lease_version l)) = Inr v" and
      p: "worker_lease_record_post_init (l\<lparr>wl_lease_version := v, wl_released_at := Some (ms_now sched)\<rparr>) =
        Inr l2" and
      u: "update_lease ?db (rls_proof c) (wl_lease_version l)
          [(''lease_version'', DvInt (lease_version_value v)), (''released_at'', DvTime (ms_now sched))] =
         Inr db'"
      and ph: "phase = Commit" by auto
    let ?l' = "released_lease l v (ms_now sched)"
    have eff: "mutation_effect cmd (ms_now sched) l ?l'"
      using ReleaseCommand m r v by (auto simp: mutation_effect_def)
    have lok': "worker_lease_record_ok ?l'" by (rule released_lease_ok [OF lok v p])
    have "stores db' (put_lease ?l' ls) rs \<and> db_runs db' = db_runs ?db"
      by (rule update_lease_stored [OF st d _ release_row _ mutation_effect_key [OF eff] lok' u])
        (use l ReleaseCommand in simp_all)
    with eff lok' ph show ?thesis by blast
  qed
  then obtain l' where eff: "mutation_effect cmd (ms_now sched) l l'" and "phase = Commit"
    and s: "stores db' (put_lease l' ls) rs" "db_runs db' = db_runs ?db" by blast
  have "find_lease ls (wl_tenant_id l') (wl_run_id l') = Some l"
    using mutation_effect_key [OF eff] find_lease_Some [OF l] l by (auto simp: lease_key_def)
  from put_advances [OF this mutation_effect_advances [OF eff]]
  have "lease_state db' (put_lease l' ls) (rs @ [])"
    using d s by (intro lease_state_extend [OF inv]) simp_all
  with that l eff s \<open>phase = Commit\<close> show ?thesis by simp
qed

text \<open>
  The whole mutation: the tables change only through its effect, which it reports as applied
  unless the acknowledgement of the commit is lost.
\<close>

lemma conditional_mutation_state:
  assumes inv: "lease_state (ms_write_db sched) ls rs" and ok: "conditional_command_ok cmd"
    and locked: "mutation_locked cmd sched"
    and m: "conditional_mutation cmd sched = (db', result)"
  shows "(db' = ms_write_db sched \<and> (\<forall>out. result = Inr out \<longrightarrow> \<not> cl_applied out)) \<or>
    (\<exists>l l'. find_lease ls (pf_tenant_id (command_proof cmd)) (pf_run_id (command_proof cmd)) = Some l \<and>
      mutation_effect cmd (ms_now sched) l l' \<and> lease_state db' (put_lease l' ls) rs \<and>
      db_runs db' = db_runs (ms_write_db sched) \<and> (\<forall>out. result = Inr out \<longrightarrow> cl_applied out))"
proof (cases "conditional_body cmd sched")
  case (Inl f)
  with m show ?thesis by (auto simp: conditional_mutation_def)
next
  case (Inr p)
  obtain phase db2 out where p: "p = (phase, db2, out)" by (cases p)
  note b = Inr [unfolded p]
  have r: "(db' = db2 \<and> (\<forall>o'. result = Inr o' \<longrightarrow> o' = out)) \<or>
      (db' = ms_write_db sched \<and> (\<exists>x. result = Inl x))"
    using m b by (cases "commit_fault (ms_fault sched) phase")
      (auto simp: conditional_mutation_def split: if_splits)
  show ?thesis
  proof (cases "cl_applied out")
    case False
    then have "db2 = ms_write_db sched" using conditional_body_branch [OF b]
      by (cases cmd) (auto dest!: renew_branch_cases release_branch_cases)
    with r False show ?thesis by auto
  next
    case True
    from conditional_body_state [OF inv ok locked b True] obtain l l' where
      "find_lease ls (pf_tenant_id (command_proof cmd)) (pf_run_id (command_proof cmd)) = Some l"
      "mutation_effect cmd (ms_now sched) l l'" "lease_state db2 (put_lease l' ls) rs"
      "db_runs db2 = db_runs (ms_write_db sched)" .
    with r True show ?thesis by blast
  qed
qed

lemma conditional_mutation_advances:
  assumes inv: "lease_state (ms_write_db sched) ls rs" and ok: "conditional_command_ok cmd"
    and locked: "mutation_locked cmd sched"
    and m: "conditional_mutation cmd sched = (db', result)"
  obtains ls' where "lease_state db' ls' rs" and "leases_advance ls ls'"
    and "db_runs db' = db_runs (ms_write_db sched)"
proof -
  note result = that
  from conditional_mutation_state [OF assms] show ?thesis
  proof
    assume "db' = ms_write_db sched \<and> (\<forall>out. result = Inr out \<longrightarrow> \<not> cl_applied out)"
    with inv result [of ls] show ?thesis by simp
  next
    assume "\<exists>l l'. find_lease ls (pf_tenant_id (command_proof cmd)) (pf_run_id (command_proof cmd)) = Some l \<and>
      mutation_effect cmd (ms_now sched) l l' \<and> lease_state db' (put_lease l' ls) rs \<and>
      db_runs db' = db_runs (ms_write_db sched) \<and> (\<forall>out. result = Inr out \<longrightarrow> cl_applied out)"
    then obtain l l' where
      l: "find_lease ls (pf_tenant_id (command_proof cmd)) (pf_run_id (command_proof cmd)) = Some l" and
      e: "mutation_effect cmd (ms_now sched) l l'" and
      s: "lease_state db' (put_lease l' ls) rs" "db_runs db' = db_runs (ms_write_db sched)" by blast
    have "find_lease ls (wl_tenant_id l') (wl_run_id l') = Some l"
      using mutation_effect_key [OF e] find_lease_Some [OF l] l by (auto simp: lease_key_def)
    from put_advances [OF this mutation_effect_advances [OF e]] s show ?thesis
      by (intro result [of "put_lease l' ls"])
  qed
qed

lemma get_authority_authoritative:
  assumes "get_authority schema db proof clock fault = Inr a" and "au_authoritative a"
    and "lease_state db ls rs"
  shows "\<exists>l. find_lease ls (pf_tenant_id proof) (pf_run_id proof) = Some l \<and>
    wl_worker_id l = pf_worker_id proof \<and> wl_claim_id l = pf_claim_id proof \<and>
    wl_attempt_no l = pf_attempt_no proof \<and> digest_lease_token (pf_token proof) = wl_token_digest l \<and>
    wl_released_at l = None \<and> instant clock < instant (wl_lease_expires_at l)"
proof -
  obtain now current status where now: "database_now clock = Inr now" and
    ld: "load_authority_state db proof = Inr (current, status)" and
    e: "evaluate_authority proof current status now = Inr a"
    using assms(1) by (auto simp: get_authority_def result_bind_eq_Inr split: if_splits)
  have [simp]: "now = clock" using now by (cases clock) simp_all
  from evaluate_authoritative [OF e assms(2)] obtain l where
    l: "current = Some l" "proof_matches proof l = Inr True" "wl_released_at l = None"
      "instant now < instant (wl_lease_expires_at l)" by metis
  have "stores db ls rs" using assms(3) by (simp add: lease_state_def)
  from load_authority_stored [OF this] ld l(1)
  have "find_lease ls (pf_tenant_id proof) (pf_run_id proof) = Some l" by simp
  with l show ?thesis by (auto simp: proof_matches_True)
qed

subsection \<open>The step relation\<close>

definition runs_kept :: "run_row list \<Rightarrow> run_row list \<Rightarrow> bool" where
  "runs_kept runs runs' \<longleftrightarrow>
     (\<forall>r \<in> set runs. \<exists>r' \<in> set runs'. rr_tenant_id r' = rr_tenant_id r \<and> rr_run_id r' = rr_run_id r)"

inductive lease_step :: "(string \<Rightarrow> string \<Rightarrow> bool) \<Rightarrow> lease_db \<Rightarrow> lease_db \<Rightarrow> bool"
  for le :: "string \<Rightarrow> string \<Rightarrow> bool" where
  step_claim:
    "claim_command_ok cmd \<Longrightarrow> token_ok token \<Longrightarrow> claim_locked le cmd sched \<Longrightarrow>
     cs_write_db sched = db \<Longrightarrow> claim le schema cmd token sched race = Some (db', result) \<Longrightarrow>
     lease_step le db db'"
| step_renew:
    "conditional_command_ok (RenewCommand c) \<Longrightarrow> mutation_locked (RenewCommand c) sched \<Longrightarrow>
     ms_write_db sched = db \<Longrightarrow> renew schema c sched = (db', outcome) \<Longrightarrow> lease_step le db db'"
| step_release:
    "mutation_locked (ReleaseCommand c) sched \<Longrightarrow> ms_write_db sched = db \<Longrightarrow>
     release schema c sched = (db', outcome) \<Longrightarrow> lease_step le db db'"
| step_runs:
    "runs_kept (db_runs db) runs \<Longrightarrow> lease_step le db (db\<lparr>db_runs := runs\<rparr>)"

inductive_cases lease_step_elim: "lease_step le db db'"

lemma lease_state_runs [simp]: "lease_state (db\<lparr>db_runs := runs\<rparr>) ls rs = lease_state db ls rs"
  by (simp add: lease_state_def stores_def)

lemma lease_step_state:
  assumes "lease_step le db db'" and "lease_state db ls rs"
  shows "\<exists>ls' new. lease_state db' ls' (rs @ new) \<and> leases_advance ls ls'"
  using assms
proof (cases rule: lease_step.cases)
  case (step_claim cmd token sched schema race result)
  then show ?thesis
    using claim_state [of sched ls rs cmd token le schema race db' result] assms(2) by metis
next
  case (step_renew c sched schema outcome)
  show ?thesis
  proof (cases schema)
    case (Inl x)
    with step_renew assms(2) have "lease_state db' ls (rs @ [])" by (simp add: renew_def)
    then show ?thesis by (metis leases_advance_refl)
  next
    case (Inr u)
    then have "conditional_mutation (RenewCommand c) sched = (db', outcome)"
      using step_renew by (simp add: renew_def)
    with conditional_mutation_advances [of sched ls rs "RenewCommand c" db' outcome] step_renew assms(2)
    show ?thesis by (metis append_Nil2)
  qed
next
  case (step_release c sched schema outcome)
  show ?thesis
  proof (cases schema)
    case (Inl x)
    with step_release assms(2) have "lease_state db' ls (rs @ [])" by (simp add: release_def)
    then show ?thesis by (metis leases_advance_refl)
  next
    case (Inr u)
    then have "conditional_mutation (ReleaseCommand c) sched = (db', outcome)"
      using step_release by (simp add: release_def)
    with conditional_mutation_advances [of sched ls rs "ReleaseCommand c" db' outcome] step_release assms(2)
    show ?thesis by (metis append_Nil2 conditional_command_ok.simps(2))
  qed
next
  case (step_runs runs)
  with assms(2) have "lease_state db' ls (rs @ [])" by simp
  then show ?thesis by (metis leases_advance_refl)
qed

text \<open>Along a run of the system a lease only moves forward.\<close>

definition lease_moved :: "worker_lease_record \<Rightarrow> worker_lease_record \<Rightarrow> bool" where
  "lease_moved l l' \<longleftrightarrow>
     lease_advances l l' \<or>
     (lease_key l' = lease_key l \<and>
      lease_version_value (wl_lease_version l) < lease_version_value (wl_lease_version l') \<and>
      attempt_no_value (wl_attempt_no l) < attempt_no_value (wl_attempt_no l'))"

lemma lease_moved_step: "lease_moved l m \<Longrightarrow> lease_advances m n \<Longrightarrow> lease_moved l n"
  by (auto simp: lease_moved_def lease_advances_def)

lemma lease_steps_state:
  assumes "(lease_step le)\<^sup>*\<^sup>* db db'" and "lease_state db ls rs"
  shows "\<exists>ls' new. lease_state db' ls' (rs @ new) \<and>
    (\<forall>t r l. find_lease ls t r = Some l \<longrightarrow> (\<exists>l'. find_lease ls' t r = Some l' \<and> lease_moved l l'))"
  using assms(1)
proof (induction rule: rtranclp_induct)
  case base
  have "lease_state db ls (rs @ [])" using assms(2) by simp
  then show ?case by (metis lease_advances_refl lease_moved_def)
next
  case (step db1 db2)
  then obtain ls1 new1 where 1: "lease_state db1 ls1 (rs @ new1)"
    "\<forall>t r l. find_lease ls t r = Some l \<longrightarrow> (\<exists>l'. find_lease ls1 t r = Some l' \<and> lease_moved l l')"
    by blast
  from lease_step_state [OF step.hyps(2) 1(1)] obtain ls2 new2 where
    2: "lease_state db2 ls2 ((rs @ new1) @ new2)" "leases_advance ls1 ls2" by blast
  then have "lease_state db2 ls2 (rs @ (new1 @ new2))" by simp
  moreover have "\<exists>l'. find_lease ls2 t r = Some l' \<and> lease_moved l l'"
    if "find_lease ls t r = Some l" for t r l
    using that 1(2) 2(2) lease_moved_step unfolding leases_advance_def by blast
  ultimately show ?case by blast
qed

end
