(* ===== verification/Lease_Queries.thy ===== *)
theory Lease_Queries
  imports Lease_Mutations "HOL-Library.List_Lexorder" "HOL-Library.Char_ord"
begin

section \<open>Ordered queries\<close>

text \<open>
  What a collation promises, as a locale: text columns are ordered linearly. Under it the two
  \<open>ORDER BY\<close> queries are determined by the tables, and the cursor pages of the inactive leases
  cut one sorted list. The collation by code points (PostgreSQL's \<open>C\<close>) is an instance.
\<close>

locale collation =
  fixes le :: "string \<Rightarrow> string \<Rightarrow> bool"
  assumes le_total: "le a b \<or> le b a"
    and le_antisym: "le a b \<Longrightarrow> le b a \<Longrightarrow> a = b"
    and le_trans: "le a b \<Longrightarrow> le b c \<Longrightarrow> le a c"
begin

lemma le_refl: "le a a"
  using le_total by blast

lemma key_refl: "key_before le a a"
  by (simp add: key_before_def le_refl)

lemma key_total: "key_before le a b \<or> key_before le b a"
  using le_total by (auto simp: key_before_def)

lemma key_flip: "\<not> key_before le a b \<Longrightarrow> key_before le b a"
  using key_total by blast

lemma key_antisym: "key_before le a b \<Longrightarrow> key_before le b a \<Longrightarrow> a = b"
  using le_antisym by (auto simp: key_before_def prod_eq_iff)

lemma key_trans: "key_before le a b \<Longrightarrow> key_before le b c \<Longrightarrow> key_before le a c"
  using le_trans by (auto simp: key_before_def)

end

definition code_point_le :: "string \<Rightarrow> string \<Rightarrow> bool" where
  "code_point_le a b \<longleftrightarrow> a \<le> b"

interpretation code_points: collation code_point_le
  by unfold_locales (auto simp: code_point_le_def)

subsection \<open>Sorting by a key\<close>

lemma set_insert_by [simp]: "set (insert_by before x xs) = insert x (set xs)"
  by (induction xs) auto

lemma set_order_by [simp]: "set (order_by before xs) = set xs"
  by (induction xs) auto

lemma length_insert_by [simp]: "length (insert_by before x xs) = Suc (length xs)"
  by (induction xs) auto

lemma length_order_by [simp]: "length (order_by before xs) = length xs"
  by (induction xs) auto

lemma insert_by_map:
  "insert_by before (f x) (map f xs) = map f (insert_by (\<lambda>a b. before (f a) (f b)) x xs)"
  by (induction xs) auto

lemma order_by_map: "order_by before (map f xs) = map f (order_by (\<lambda>a b. before (f a) (f b)) xs)"
  by (induction xs) (auto simp: insert_by_map)

lemma distinct_insert_by:
  "x \<notin> set xs \<Longrightarrow> distinct xs \<Longrightarrow> distinct (insert_by before x xs)"
  by (induction xs) auto

lemma distinct_order_by: "distinct xs \<Longrightarrow> distinct (order_by before xs)"
  by (induction xs) (auto intro: distinct_insert_by)

context collation
begin

lemma sorted_insert_by:
  "sorted_wrt (\<lambda>a b. key_before le (k a) (k b)) xs \<Longrightarrow>
     sorted_wrt (\<lambda>a b. key_before le (k a) (k b)) (insert_by (\<lambda>a b. key_before le (k a) (k b)) x xs)"
  by (induction xs) (auto intro: key_trans key_flip)

lemma sorted_order_by:
  "sorted_wrt (\<lambda>a b. key_before le (k a) (k b)) (order_by (\<lambda>a b. key_before le (k a) (k b)) xs)"
  by (induction xs) (auto intro: sorted_insert_by)

text \<open>Filtering commutes with sorting when the keys are pairwise different.\<close>

lemma insert_by_first:
  "(\<And>y. y \<in> set xs \<Longrightarrow> key_before le (k x) (k y)) \<Longrightarrow>
     insert_by (\<lambda>a b. key_before le (k a) (k b)) x xs = x # xs"
  by (cases xs) auto

lemma filter_insert_by:
  "sorted_wrt (\<lambda>a b. key_before le (k a) (k b)) xs \<Longrightarrow>
     filter P (insert_by (\<lambda>a b. key_before le (k a) (k b)) x xs) =
       (if P x then insert_by (\<lambda>a b. key_before le (k a) (k b)) x (filter P xs) else filter P xs)"
proof (induction xs)
  case (Cons y ys)
  show ?case
  proof (cases "key_before le (k x) (k y)")
    case True
    have "key_before le (k x) (k z)" if z: "z \<in> set (filter P (y # ys))" for z
    proof (cases "z = y")
      case False
      with z have "z \<in> set ys" by (auto split: if_splits)
      with Cons.prems have "key_before le (k y) (k z)" by simp
      with True show ?thesis by (rule key_trans)
    qed (simp add: True)
    then have "insert_by (\<lambda>a b. key_before le (k a) (k b)) x (filter P (y # ys)) =
        x # filter P (y # ys)"
      by (rule insert_by_first)
    with True show ?thesis by simp
  next
    case False
    with Cons show ?thesis by auto
  qed
qed simp

lemma filter_order_by:
  "filter P (order_by (\<lambda>a b. key_before le (k a) (k b)) xs) =
     order_by (\<lambda>a b. key_before le (k a) (k b)) (filter P xs)"
  by (induction xs) (simp_all add: filter_insert_by sorted_order_by)

lemma filter_after:
  assumes "sorted_wrt (\<lambda>a b. key_before le (k a) (k b)) xs" and "distinct (map k xs)"
    and "0 < n" and "n \<le> length xs"
  shows "filter (\<lambda>x. key_before le (k (xs ! (n - 1))) (k x) \<and> k x \<noteq> k (xs ! (n - 1))) xs = drop n xs"
    (is "filter ?P xs = _")
proof -
  have before: "\<not> ?P x" if "x \<in> set (take n xs)" for x
  proof -
    from that obtain i where i: "i < n" "x = xs ! i" "i < length xs"
      using assms(4) by (auto simp: in_set_conv_nth)
    show ?thesis
    proof (cases "i = n - 1")
      case False
      then have "key_before le (k x) (k (xs ! (n - 1)))"
        using sorted_wrt_nth_less [OF assms(1), of i "n - 1"] i assms(3,4) by simp
      then show ?thesis using key_antisym by metis
    qed (simp add: i)
  qed
  have after: "?P x" if "x \<in> set (drop n xs)" for x
  proof -
    from that obtain i where i: "i < length xs - n" "x = xs ! (n + i)"
      using assms(4) by (auto simp: in_set_conv_nth)
    have "key_before le (k (xs ! (n - 1))) (k x)"
      using sorted_wrt_nth_less [OF assms(1), of "n - 1" "n + i"] i assms(3,4) by simp
    moreover have "k x \<noteq> k (xs ! (n - 1))"
      using nth_eq_iff_index_eq [OF assms(2), of "n + i" "n - 1"] i assms(3,4) by auto
    ultimately show ?thesis by simp
  qed
  have "filter ?P xs = filter ?P (take n xs) @ filter ?P (drop n xs)"
    by (metis append_take_drop_id filter_append)
  also have "filter ?P (take n xs) = []" using before by (simp add: filter_empty_conv)
  also have "filter ?P (drop n xs) = drop n xs" using after by (simp add: filter_id_conv)
  finally show ?thesis by simp
qed

end

subsection \<open>Inactive leases on records\<close>

definition ended_at :: "worker_lease_record \<Rightarrow> datetime" where
  "ended_at l = (case wl_released_at l of None \<Rightarrow> wl_lease_expires_at l | Some t \<Rightarrow> t)"

definition inactive_of :: "worker_lease_record \<Rightarrow> inactive_running_lease" where
  "inactive_of l =
     \<lparr>in_tenant_id = wl_tenant_id l, in_run_id = wl_run_id l, in_attempt_no = wl_attempt_no l,
      in_lease_version = wl_lease_version l, in_acquired_at = wl_acquired_at l,
      in_heartbeat_at = wl_heartbeat_at l, in_authority_ended_at = ended_at l,
      in_reason = (if wl_released_at l = None then ReasonExpired else ReasonReleased)\<rparr>"

definition run_running :: "lease_db \<Rightarrow> worker_lease_record \<Rightarrow> bool" where
  "run_running db l \<longleftrightarrow>
     list_ex (\<lambda>run. rr_tenant_id run = tenant_id_value (wl_tenant_id l) \<and>
       rr_run_id run = run_id_value (wl_run_id l) \<and> rr_run_status run = ''running'') (db_runs db)"

definition inactive_key :: "worker_lease_record \<Rightarrow> int \<times> string" where
  "inactive_key l = (instant (ended_at l), run_id_value (wl_run_id l))"

text \<open>The specification of the two queries: the inactive leases of a tenant, in order.\<close>

definition inactive_leases ::
    "(string \<Rightarrow> string \<Rightarrow> bool) \<Rightarrow> lease_db \<Rightarrow> worker_lease_record list \<Rightarrow> tenant_id \<Rightarrow> datetime \<Rightarrow>
     worker_lease_record list" where
  "inactive_leases le db ls t as_of =
     order_by (\<lambda>a b. key_before le (inactive_key a) (inactive_key b))
       (filter (\<lambda>l. run_running db l \<and> wl_tenant_id l = t \<and> instant (ended_at l) \<le> instant as_of) ls)"

lemma authority_ended_encode [simp]: "authority_ended_at (encode_worker_lease l) = DvTime (ended_at l)"
  by (cases "wl_released_at l") (simp_all add: authority_ended_at_def ended_at_def)

lemma ended_instant_encode [simp]: "ended_instant (encode_worker_lease l) = Some (instant (ended_at l))"
  by (simp add: ended_instant_def)

lemma row_key_encode [simp]: "row_key (encode_worker_lease l) = inactive_key l"
  by (simp add: row_key_def inactive_key_def)

lemma run_is_running_encode [simp]: "run_is_running db (encode_worker_lease l) = run_running db l"
  by (simp add: run_is_running_def run_running_def list_ex_iff eq_commute)

lemma inactive_rows_stored:
  assumes "stores db ls rs"
  shows "inactive_rows db t as_of =
    map encode_worker_lease
      (filter (\<lambda>l. run_running db l \<and> wl_tenant_id l = t \<and> instant (ended_at l) \<le> instant as_of) ls)"
proof -
  have "db_leases db = map encode_worker_lease ls" using assms by (simp add: stores_def)
  then show ?thesis
    unfolding inactive_rows_def by (auto simp: filter_map comp_def column_is_def intro: filter_cong)
qed

lemma decode_inactive_columns:
  assumes "worker_lease_record_ok l"
  shows "decode_inactive_running (inactive_columns (encode_worker_lease l)) = Inr (inactive_of l)"
proof -
  have post: "inactive_running_lease_post_init (inactive_of l) = Inr (inactive_of l)"
    using assms
    by (auto simp: inactive_running_lease_post_init_def inactive_of_def ended_at_def
        worker_lease_record_ok_def worker_lease_record_post_init_def split: if_splits option.splits)
  have cols: "inactive_columns (encode_worker_lease l) =
      [(''tenant_id'', DvText (tenant_id_value (wl_tenant_id l))),
       (''run_id'', DvText (run_id_value (wl_run_id l))),
       (''attempt_no'', DvInt (attempt_no_value (wl_attempt_no l))),
       (''lease_version'', DvInt (lease_version_value (wl_lease_version l))),
       (''acquired_at'', DvTime (wl_acquired_at l)), (''heartbeat_at'', DvTime (wl_heartbeat_at l)),
       (''authority_ended_at'', DvTime (ended_at l)),
       (''reason'', DvText (if wl_released_at l = None then ''expired'' else ''released''))]"
    unfolding inactive_columns_def authority_ended_encode
    by (cases "wl_released_at l") (simp_all add: select_column_def encode_worker_lease_def)
  show ?thesis
    using assms post unfolding decode_inactive_running_def decode_inactive_running_raw_def cols
    by (cases "wl_released_at l")
      (simp_all add: field_def column_def worker_lease_record_ok_def new_identifier_def
        inactive_of_def new_counter_def counter_ok_def)
qed

subsection \<open>Cursor pages\<close>

definition cursor_at ::
    "tenant_id \<Rightarrow> datetime \<Rightarrow> worker_lease_record \<Rightarrow> inactive_running_cursor" where
  "cursor_at t as_of l =
     \<lparr>cu_tenant_id = t, cu_as_of = as_of, cu_last_authority_ended_at = ended_at l,
      cu_last_run_id = wl_run_id l\<rparr>"

text \<open>The page that cuts \<open>n\<close> leases from a sorted list, with the cursor of its last one.\<close>

definition page_of ::
    "tenant_id \<Rightarrow> datetime \<Rightarrow> nat \<Rightarrow> worker_lease_record list \<Rightarrow> inactive_running_page" where
  "page_of t as_of n rest =
     \<lparr>pg_items = map inactive_of (take n rest),
      pg_next_cursor =
        (if n < length rest then Some (cursor_at t as_of (rest ! (n - 1))) else None)\<rparr>"

lemma ended_at_utc: "worker_lease_record_ok l \<Longrightarrow> is_utc (ended_at l)"
  by (auto simp: worker_lease_record_ok_def worker_lease_record_post_init_def ended_at_def
      split: if_splits option.splits)

lemma cursor_at_valid:
  "worker_lease_record_ok l \<Longrightarrow> is_utc as_of \<Longrightarrow> instant (ended_at l) \<le> instant as_of \<Longrightarrow>
     inactive_running_cursor_post_init (cursor_at t as_of l) = Inr (cursor_at t as_of l)"
  by (simp add: inactive_running_cursor_post_init_def cursor_at_def ended_at_utc require_utc_def)

lemma traverse_inactive:
  assumes "\<And>l. l \<in> set ls \<Longrightarrow> worker_lease_record_ok l"
  shows "traverse (decode_inactive_running \<circ> inactive_columns) (map encode_worker_lease ls) =
    Inr (map inactive_of ls)"
  unfolding traverse_map
  by (rule traverse_all_Inr) (simp add: assms decode_inactive_columns)

lemma inactive_leases_mem:
  assumes "stores db ls rs" and "l \<in> set (inactive_leases le db ls t as_of)"
  shows "worker_lease_record_ok l \<and> wl_tenant_id l = t \<and> instant (ended_at l) \<le> instant as_of"
  using assms by (auto simp: inactive_leases_def stores_def)

lemma inactive_keys_distinct:
  assumes "distinct (map lease_key ls)"
  shows "distinct (map inactive_key (inactive_leases le db ls t as_of))"
proof -
  let ?xs = "filter (\<lambda>l. run_running db l \<and> wl_tenant_id l = t \<and>
      instant (ended_at l) \<le> instant as_of) ls"
  have "distinct ls" using assms by (simp add: distinct_map)
  then have "distinct (inactive_leases le db ls t as_of)"
    unfolding inactive_leases_def by (intro distinct_order_by) simp
  moreover have "inj_on inactive_key (set (inactive_leases le db ls t as_of))"
    using assms by (auto simp: inactive_leases_def inj_on_def inactive_key_def distinct_map lease_key_def)
  ultimately show ?thesis by (simp add: distinct_map)
qed

text \<open>The body of \<open>list_inactive_running\<close> once the rows after the cursor are known.\<close>

lemma list_page:
  assumes st: "stores db ls rs"
    and rest: "set rest \<subseteq> set (inactive_leases le db ls t as_of)"
    and limit: "1 \<le> limit" "limit \<le> 1000" and utc: "is_utc as_of"
    and cursor: "case cursor of None \<Rightarrow> clock = as_of | Some c \<Rightarrow> cu_tenant_id c = t \<and> cu_as_of c = as_of"
    and rows: "order_by (row_before le) (filter (after_cursor le cursor) (inactive_rows db t as_of)) =
      map encode_worker_lease rest"
  shows "list_inactive_running le (Inr ()) db t cursor limit clock False =
    Inr (page_of t as_of (nat limit) rest)"
proof -
  let ?n = "nat limit"
  have n: "1 \<le> ?n" "nat (limit + 1) = Suc ?n" using limit by simp_all
  have ok: "worker_lease_record_ok l \<and> instant (ended_at l) \<le> instant as_of" if "l \<in> set rest" for l
    using inactive_leases_mem [OF st] rest that by blast
  have as_of: "(case cursor of Some c \<Rightarrow> Inr (cu_as_of c) | None \<Rightarrow> database_now clock) = Inr as_of"
    using cursor utc by (cases as_of) (auto split: option.splits)
  have req: "require_inactive_page t cursor limit = Inr ()"
    using cursor limit by (auto simp: require_inactive_page_def split: option.splits)
  have dec: "traverse (decode_inactive_running \<circ> inactive_columns)
      (page_rows le db t cursor as_of (Suc ?n)) = Inr (map inactive_of (take (Suc ?n) rest))"
    unfolding page_rows_def rows take_map
    by (rule traverse_inactive) (use ok in \<open>blast dest: in_set_takeD\<close>)
  have items: "take ?n (map inactive_of (take (Suc ?n) rest)) = map inactive_of (take ?n rest)"
    by (simp add: take_map)
  have len: "limit < int (length (map inactive_of (take (Suc ?n) rest))) \<longleftrightarrow> ?n < length rest"
    using limit by auto
  show ?thesis
  proof (cases "?n < length rest")
    case False
    then have "\<not> limit < int (length rest)" using limit by linarith
    with False show ?thesis
      unfolding list_inactive_running_def req as_of n(2)
      by (simp add: dec page_of_def Let_def)
  next
    case True
    let ?l = "rest ! (?n - 1)"
    have l: "?l \<in> set rest" using True by simp
    have ne: "take ?n rest \<noteq> []" using True n by (cases rest) auto
    have "last (take ?n rest) = ?l"
      using True n by (simp add: last_conv_nth [OF ne] min_def)
    then have last: "last (map inactive_of (take ?n rest)) = inactive_of ?l"
      using ne by (simp add: last_map)
    have "inactive_running_cursor_post_init
        \<lparr>cu_tenant_id = t, cu_as_of = as_of,
         cu_last_authority_ended_at = in_authority_ended_at (inactive_of ?l),
         cu_last_run_id = in_run_id (inactive_of ?l)\<rparr> = Inr (cursor_at t as_of ?l)"
      using cursor_at_valid [of ?l as_of t] ok [OF l] utc by (simp add: cursor_at_def inactive_of_def)
    then show ?thesis
      using True unfolding list_inactive_running_def req as_of n(2)
      by (simp add: dec len items last page_of_def Let_def del: length_map length_take)
  qed
qed

context collation
begin

lemma rows_after_start:
  assumes "stores db ls rs"
  shows "order_by (row_before le) (filter (after_cursor le None) (inactive_rows db t as_of)) =
    map encode_worker_lease (inactive_leases le db ls t as_of)"
  by (simp add: inactive_rows_stored [OF assms] order_by_map row_before_def inactive_leases_def
      after_cursor_def)

lemma rows_after_cursor:
  assumes st: "stores db ls rs" and d: "distinct (map lease_key ls)"
    and n: "0 < n" "n \<le> length (inactive_leases le db ls t as_of)"
  shows "order_by (row_before le)
      (filter (after_cursor le (Some (cursor_at t as_of (inactive_leases le db ls t as_of ! (n - 1)))))
        (inactive_rows db t as_of)) =
    map encode_worker_lease (drop n (inactive_leases le db ls t as_of))"
proof -
  let ?all = "inactive_leases le db ls t as_of"
  let ?P = "\<lambda>x. key_before le (inactive_key (?all ! (n - 1))) (inactive_key x) \<and>
    inactive_key x \<noteq> inactive_key (?all ! (n - 1))"
  let ?xs = "filter (\<lambda>l. run_running db l \<and> wl_tenant_id l = t \<and>
      instant (ended_at l) \<le> instant as_of) ls"
  have after: "after_cursor le (Some (cursor_at t as_of (?all ! (n - 1)))) (encode_worker_lease l) = ?P l"
    for l by (simp add: after_cursor_def cursor_key_def cursor_at_def inactive_key_def)
  have "order_by (row_before le)
      (filter (after_cursor le (Some (cursor_at t as_of (?all ! (n - 1))))) (map encode_worker_lease ?xs)) =
      map encode_worker_lease (order_by (\<lambda>a b. key_before le (inactive_key a) (inactive_key b))
        (filter ?P ?xs))"
    unfolding filter_map comp_def after order_by_map row_before_def row_key_encode ..
  also have "order_by (\<lambda>a b. key_before le (inactive_key a) (inactive_key b)) (filter ?P ?xs) =
      filter ?P ?all"
    unfolding inactive_leases_def by (rule filter_order_by [symmetric])
  also have "\<dots> = drop n ?all"
    by (rule filter_after [OF _ inactive_keys_distinct [OF d] n])
      (simp add: inactive_leases_def sorted_order_by)
  finally show ?thesis unfolding inactive_rows_stored [OF st] .
qed

lemma pages:
  fixes t :: tenant_id
  assumes st: "stores db ls rs" and d: "distinct (map lease_key ls)"
    and "1 \<le> limit" "limit \<le> 1000" "is_utc as_of"
  defines "all \<equiv> inactive_leases le db ls t as_of"
  shows "list_inactive_running le (Inr ()) db t None limit as_of False =
      Inr (page_of t as_of (nat limit) all)"
    and "0 < n \<Longrightarrow> n \<le> length all \<Longrightarrow>
      list_inactive_running le (Inr ()) db t (Some (cursor_at t as_of (all ! (n - 1)))) limit clock
        False = Inr (page_of t as_of (nat limit) (drop n all))"
proof -
  show "list_inactive_running le (Inr ()) db t None limit as_of False =
      Inr (page_of t as_of (nat limit) all)"
    unfolding all_def
    by (rule list_page [OF st _ assms(3-5) _ rows_after_start [OF st]]) simp_all
  assume n: "0 < n" "n \<le> length all"
  show "list_inactive_running le (Inr ()) db t (Some (cursor_at t as_of (all ! (n - 1)))) limit clock
      False = Inr (page_of t as_of (nat limit) (drop n all))"
    unfolding all_def
    by (rule list_page [OF st _ assms(3-5) _ rows_after_cursor [OF st d n(1) n(2) [unfolded all_def]]])
      (auto simp: cursor_at_def dest: in_set_dropD)
qed

end

text \<open>The loop of a client that follows the cursors, with fuel.\<close>

fun follow_pages ::
    "(string \<Rightarrow> string \<Rightarrow> bool) \<Rightarrow> lease_db \<Rightarrow> tenant_id \<Rightarrow> int \<Rightarrow> datetime \<Rightarrow>
     inactive_running_cursor option \<Rightarrow> nat \<Rightarrow> (exn + inactive_running_lease list) option" where
  "follow_pages le db t limit clock cursor 0 = None"
| "follow_pages le db t limit clock cursor (Suc fuel) =
     (case list_inactive_running le (Inr ()) db t cursor limit clock False of
        Inl x \<Rightarrow> Some (Inl x)
      | Inr page \<Rightarrow>
          (case pg_next_cursor page of
             None \<Rightarrow> Some (Inr (pg_items page))
           | Some c \<Rightarrow> map_option (\<lambda>r. result_bind r (\<lambda>items. Inr (pg_items page @ items)))
               (follow_pages le db t limit clock (Some c) fuel)))"

context collation
begin

lemma follow_pages_after:
  fixes t :: tenant_id
  assumes st: "stores db ls rs" and d: "distinct (map lease_key ls)"
    and l: "1 \<le> limit" "limit \<le> 1000" "is_utc as_of"
  defines "all \<equiv> inactive_leases le db ls t as_of"
  assumes "0 < n" "n \<le> length all" "length all - n < fuel"
  shows "follow_pages le db t limit clock (Some (cursor_at t as_of (all ! (n - 1)))) fuel =
    Some (Inr (map inactive_of (drop n all)))"
  using assms(7-9)
proof (induction fuel arbitrary: n)
  case (Suc fuel)
  note page = pages(2) [OF st d l, of n t clock, folded all_def, OF Suc.prems(1,2)]
  let ?k = "nat limit"
  have k: "1 \<le> ?k" using l by simp
  show ?case
  proof (cases "?k < length (drop n all)")
    case False
    then show ?thesis using page by (simp add: page_of_def)
  next
    case True
    have c: "drop n all ! (?k - 1) = all ! (n + ?k - 1)" using True k by simp
    have "follow_pages le db t limit clock (Some (cursor_at t as_of (all ! (n + ?k - 1)))) fuel =
        Some (Inr (map inactive_of (drop (n + ?k) all)))"
      by (rule Suc.IH) (use True k Suc.prems in simp_all)
    moreover have "map inactive_of (take ?k (drop n all)) @ map inactive_of (drop (n + ?k) all) =
        map inactive_of (drop n all)"
      by (metis add.commute append_take_drop_id drop_drop map_append)
    ultimately show ?thesis using page True c by (simp add: page_of_def)
  qed
qed simp

lemma follow_pages_all:
  assumes st: "stores db ls rs" and d: "distinct (map lease_key ls)"
    and l: "1 \<le> limit" "limit \<le> 1000" "is_utc as_of"
    and fuel: "length ls + 1 < fuel"
  shows "follow_pages le db t limit as_of None fuel =
    Some (Inr (map inactive_of (inactive_leases le db ls t as_of)))"
proof -
  define all where "all = inactive_leases le db ls t as_of"
  have len: "length all \<le> length ls" by (simp add: all_def inactive_leases_def)
  obtain f where f: "fuel = Suc f" using fuel by (cases fuel) simp_all
  note page = pages(1) [OF st d l, of t, folded all_def]
  let ?k = "nat limit"
  show ?thesis
  proof (cases "?k < length all")
    case False
    then show ?thesis using page f by (simp add: page_of_def all_def [symmetric])
  next
    case True
    have "follow_pages le db t limit as_of (Some (cursor_at t as_of (all ! (?k - 1)))) f =
        Some (Inr (map inactive_of (drop ?k all)))"
      using True l f fuel len
      unfolding all_def by (intro follow_pages_after [OF st d l]) simp_all
    then show ?thesis
      using page f True
      by (simp add: page_of_def all_def [symmetric] flip: map_append)
  qed
qed

end

end
