(* ===== verification/Lease_Replay.thy ===== *)
theory Lease_Replay
  imports Lease_Queries
begin

section \<open>Grants and replays\<close>

text \<open>
  The grant of a claimed receipt always exists, a stored receipt answers the same claim with the
  same grant, and what a claim that raises has done to the tables.
\<close>

lemma claimed_grant_exists:
  assumes l: "claimed_lease cmd token target = Inr l" and r: "claimed_receipt cmd l token created = Inr r"
    and cmd: "claim_command_ok cmd" and clock: "in_range (wall (ct_now target))"
  shows "\<exists>renew_by. datetime_add (wl_acquired_at l) (duration_seconds (clm_duration cmd) * 1000000 div 3) =
      Inr renew_by \<and>
    grant_from_receipt r b = Inr
      \<lparr>gr_tenant_id = clm_tenant_id cmd, gr_run_id = wl_run_id l, gr_worker_id = clm_worker_id cmd,
       gr_claim_id = clm_claim_id cmd, gr_token = token, gr_attempt_no = wl_attempt_no l,
       gr_lease_version = wl_lease_version l, gr_duration = clm_duration cmd,
       gr_acquired_at = wl_acquired_at l, gr_heartbeat_at = wl_acquired_at l,
       gr_lease_expires_at = wl_lease_expires_at l, gr_renew_by_at = renew_by,
       gr_currently_authoritative = b\<rparr>"
proof -
  note lf = claimed_lease_Inr [OF l] and rf = claimed_receipt_Inr [OF r]
  have sf: "cr_tenant_id r = clm_tenant_id cmd" "cr_claim_id r = clm_claim_id cmd"
    "cr_worker_id r = clm_worker_id cmd" "cr_duration r = clm_duration cmd"
    using stored_intent_fields rf by auto
  let ?d = "duration_seconds (clm_duration cmd)" and ?t = "wl_acquired_at l"
  have utc: "is_utc ?t" "is_utc (wl_lease_expires_at l)"
    using lf by (auto simp: worker_lease_record_post_init_def split: if_splits)
  have bounds: "0 < ?d * 1000000 div 3" "?d * 1000000 div 3 < ?d * 1000000"
    using renew_by_within cmd by (auto simp: claim_command_ok_def)
  have e: "in_range (wall ?t + ?d * 1000000)" "wl_lease_expires_at l = shift_wall ?t (?d * 1000000)"
    using lf by (auto simp: datetime_add_Inr)
  show ?thesis
  proof (cases "in_range (wall ?t + ?d * 1000000 div 3)")
    case True
    then have "datetime_add ?t (?d * 1000000 div 3) = Inr (shift_wall ?t (?d * 1000000 div 3))"
      by (simp add: datetime_add_def)
    then show ?thesis
      using rf sf utc bounds e(2)
      by (auto simp: grant_from_receipt_def renew_by_at_def lease_grant_post_init_def
          require_utc_def)
  next
    case False
    then show ?thesis using bounds e(1) clock lf by (simp add: in_range_def)
  qed
qed

text \<open>Clock readings are datetimes that exist, between the years 1 and 9999.\<close>

definition clocks_exist :: "claim_schedule \<Rightarrow> bool" where
  "clocks_exist sched \<longleftrightarrow> (\<forall>it \<in> set (cs_iterations sched). in_range (wall (it_now it)))"

lemma selection_target:
  assumes "claim_selection le cmd sched now = Some (Inr (Some target, c))"
  shows "target_ok cmd target" and "clocks_exist sched \<Longrightarrow> in_range (wall (ct_now target))"
    and "claim_locked le cmd sched \<Longrightarrow> load_lease_for_update (cs_write_db sched) (clm_tenant_id cmd)
      (ct_run_id target) = Inr (ct_current target)"
  using claim_loop_target [OF assms [unfolded claim_selection_def Let_def]] assms
  by (auto simp: clocks_exist_def claim_locked_def)

text \<open>What a claim answers when it answers, and what it stored.\<close>

definition answers :: "claim_receipt_record \<Rightarrow> lease_claim_outcome \<Rightarrow> bool" where
  "answers r out \<longleftrightarrow>
     (case cr_outcome r of
        StoredNoWork \<Rightarrow> lco_code out = NoWork \<and> lco_grant out = None
      | StoredClaimed \<Rightarrow> lco_code out = Claimed \<and>
          (\<exists>g b. lco_grant out = Some g \<and> grant_from_receipt r b = Inr g))"

lemma outcome_claimed_Inr:
  "outcome_claimed g b = Inr out \<longleftrightarrow> out = \<lparr>lco_code = Claimed, lco_grant = Some g, lco_replayed = b\<rparr>"
  by (auto simp: outcome_claimed_def lease_claim_outcome_post_init_def)

lemma outcome_no_work_Inr:
  "outcome_no_work b = Inr out \<longleftrightarrow> out = \<lparr>lco_code = NoWork, lco_grant = None, lco_replayed = b\<rparr>"
  by (auto simp: outcome_no_work_def lease_claim_outcome_post_init_def)

lemma outcome_from_receipt_replayed:
  "outcome_from_receipt db r now b = Inr out \<Longrightarrow> lco_replayed out = b"
  by (auto simp: outcome_from_receipt_def outcome_claimed_Inr outcome_no_work_Inr result_bind_eq_Inr
      split: if_splits option.splits)

lemma replay_after_race_replayed:
  assumes "replay_after_race cmd race = Inr ex"
  shows "lco_replayed (ce_outcome ex)"
proof -
  obtain receipt now where "(case receipt of
            None \<Rightarrow> Inl (lease_error LeaseDataCorruption)
          | Some r \<Rightarrow>
              result_bind (outcome_from_receipt (rs_authority_db race) r now True) (\<lambda>outcome.
                Inr \<lparr>ce_outcome = outcome, ce_contended = True\<rparr>)) = Inr ex"
    using assms unfolding replay_after_race_def by (auto simp: result_bind_eq_Inr split: if_splits)
  then show ?thesis
    by (cases receipt) (auto simp: result_bind_eq_Inr dest: outcome_from_receipt_replayed)
qed

lemma fresh_claim_answer:
  assumes inv: "lease_state (cs_write_db sched) ls rs" and cmd: "claim_command_ok cmd" "token_ok token"
    and locked: "claim_locked le cmd sched"
    and c: "claim le schema cmd token sched race = Some (db', Inr ex)"
    and fresh: "\<not> lco_replayed (ce_outcome ex)"
  obtains ls' r where "lease_state db' ls' (rs @ [r])" and "leases_advance ls ls'"
    and "stored_intent r = cmd" and "answers r (ce_outcome ex)"
    and "\<exists>now target c. claim_selection le cmd sched now = Some (Inr (target, c)) \<and>
      claim_effect cmd token target ls ls' [r]"
proof -
  obtain u where schema: "schema = Inr u" using c by (cases schema) (simp_all add: claim_def)
  obtain b where b: "claim_body le cmd token sched = Some b"
    using c schema by (auto simp: claim_def claim_transaction_def)
  have "\<exists>phase res. b = Inr (phase, db', res) \<and> res = Inr ex"
  proof (cases b)
    case (Inl f)
    then show ?thesis using c schema b fresh
      by (auto simp: claim_def claim_transaction_def dest: replay_after_race_replayed
          split: claim_failure.splits)
  next
    case (Inr p)
    obtain phase db2 res where p: "p = (phase, db2, res)" by (cases p)
    show ?thesis
    proof (cases "commit_fault (cs_fault sched) phase")
      case (Some f)
      then show ?thesis using c schema b Inr p by (simp add: claim_def claim_transaction_def)
    next
      case None
      then show ?thesis using c schema b Inr p
        by (cases res) (simp_all add: claim_def claim_transaction_def)
    qed
  qed
  then obtain phase where body: "claim_body le cmd token sched = Some (Inr (phase, db', Inr ex))"
    using b by auto
  obtain now replay where arb: "claim_arbitration cmd sched = Inr (now, replay)"
    using body by (cases "claim_arbitration cmd sched") (auto simp: claim_body_def)
  have "replay = None"
  proof (rule ccontr)
    assume "replay \<noteq> None"
    then obtain out where out: "replay = Some out" by auto
    then have "ce_outcome ex = out" using body arb by (auto simp: claim_body_def)
    moreover have "lco_replayed out"
      using arb out by (auto simp: claim_arbitration_def result_bind_eq_Inr
          dest: outcome_from_receipt_replayed split: option.splits)
    ultimately show False using fresh by simp
  qed
  then obtain sel where sel: "claim_selection le cmd sched now = Some sel"
    and w: "result_bind (raised sel) (\<lambda>selection.
             result_bind (claim_writes cmd token sched selection) (\<lambda>(db, result).
               Inr (Commit, db, result))) = Inr (phase, db', Inr ex)"
    using body arb
    by (cases "fault_in LockPhase (cs_fault sched)"; cases "claim_selection le cmd sched now")
      (auto simp: claim_body_def)
  then obtain target c where t: "sel = Inr (target, c)"
    and cw: "claim_writes cmd token sched (target, c) = Inr (db', Inr ex)"
    by (cases sel) (auto simp: result_bind_eq_Inr)
  have st: "stores (cs_write_db sched) ls rs" using inv by (simp add: lease_state_def)
  show ?thesis
  proof (cases target)
    case None
    then have w: "write_no_work cmd (cs_no_work_now sched) (cs_fault sched) (cs_write_db sched) = Inr db'"
      and out: "outcome_no_work False = Inr (ce_outcome ex)"
      using cw by (auto simp: claim_writes_def result_bind_eq_Inr)
    from write_no_work_state [OF inv cmd(1) w] obtain r where
      r: "no_work_receipt cmd (cs_no_work_now sched) = Inr r" and "lease_state db' ls (rs @ [r])" by blast
    moreover have "answers r (ce_outcome ex)"
      using no_work_receipt_Inr [OF r] out by (simp add: answers_def outcome_no_work_Inr)
    moreover have "claim_effect cmd token target ls ls [r]"
      using r None by (auto simp: claim_effect_def)
    ultimately show ?thesis
      using that [of ls r] sel t no_work_receipt_Inr [OF r] leases_advance_refl by blast
  next
    case (Some tg)
    then obtain r g where
      w: "write_claimed cmd token tg (cs_fault sched) (cs_write_db sched) = Inr (db', r)"
      and g: "grant_from_receipt r True = Inr g" and out: "outcome_claimed g False = Inr (ce_outcome ex)"
      using cw by (auto simp: claim_writes_def result_bind_eq_Inr)
    note sel' = sel [unfolded t Some]
    have cur: "find_lease ls (clm_tenant_id cmd) (ct_run_id tg) = ct_current tg"
      using selection_target(3) [OF sel' locked] load_lease_stored [OF st] by simp
    from write_claimed_state [OF inv cmd selection_target(1) [OF sel'] cur w] obtain l where
      l: "claimed_lease cmd token tg = Inr l" and r: "claimed_receipt cmd l token (ct_now tg) = Inr r"
      and s: "lease_state db' (put_or_add (ct_current tg) l ls) (rs @ [r])"
        "leases_advance ls (put_or_add (ct_current tg) l ls)" .
    have "answers r (ce_outcome ex)"
      using claimed_receipt_Inr [OF r] out g by (auto simp: answers_def outcome_claimed_Inr)
    moreover have "claim_effect cmd token target ls (put_or_add (ct_current tg) l ls) [r]"
      using l r Some by (auto simp: claim_effect_def)
    ultimately show ?thesis
      using that [OF s] sel t claimed_receipt_Inr [OF r] by blast
  qed
qed

text \<open>A stored receipt answers its claim: the outcome is the stored one, marked as replayed.\<close>

lemma load_stored_receipt:
  assumes inv: "lease_state db ls rs" and r: "r \<in> set rs" "stored_intent r = cmd"
  shows "load_receipt db cmd = Inr (Some r)"
proof -
  have st: "stores db ls rs" using inv by (simp add: lease_state_def)
  have "distinct (map receipt_key rs)" using inv by (simp add: lease_state_def)
  then have "find_receipt rs (cr_tenant_id r) (cr_claim_id r) = Some r" using r(1)
    by (induction rs) (auto simp: find_receipt_def receipt_key_def rev_image_eqI)
  moreover have "cr_tenant_id r = clm_tenant_id cmd" "cr_claim_id r = clm_claim_id cmd"
    "cr_worker_id r = clm_worker_id cmd" "cr_duration r = clm_duration cmd"
    using stored_intent_fields [OF r(2)] by auto
  moreover have "cr_intent_fingerprint r = claim_intent_fingerprint cmd"
    using inv r by (auto simp: lease_state_def)
  ultimately show ?thesis
    using decode_stored_receipt [OF st r(1)] r(2)
    by (simp add: load_receipt_def receipt_at_stored [OF st])
qed

lemma receipt_is_current_total:
  assumes inv: "lease_state db ls rs"
  shows "\<exists>b. receipt_is_current db r run token now = Inr b"
proof (cases "joined_lease db (cr_tenant_id r) run")
  case (Some p)
  obtain row status where p: "p = (row, status)" by (cases p)
  have st: "stores db ls rs" using inv by (simp add: lease_state_def)
  from Some p obtain l where l: "find_lease ls (cr_tenant_id r) run = Some l" "row = encode_worker_lease l"
    by (auto simp: joined_lease_def lease_at_stored [OF st] split: option.splits)
  have "l \<in> set ls" using find_lease_Some [OF l(1)] by simp
  moreover from this have "length (wl_token_digest l) = 32"
    using st by (auto simp: stores_def worker_lease_record_ok_def worker_lease_record_post_init_def
        split: if_splits)
  ultimately show ?thesis
    using Some p l(2) decode_stored_lease [OF st]
    by (cases "wl_worker_id l \<noteq> cr_worker_id r \<or> wl_claim_id l \<noteq> cr_claim_id r \<or>
        Some (wl_attempt_no l) \<noteq> cr_attempt_no r")
      (auto simp: receipt_is_current_def lease_token_matches_def)
qed (auto simp: receipt_is_current_def)

lemma replay_outcome:
  assumes inv: "lease_state db ls rs" and r: "claim_receipt_record_ok r"
    and ans: "answers r out"
    and total: "\<And>b. cr_outcome r = StoredClaimed \<Longrightarrow> \<exists>g. grant_from_receipt r b = Inr g"
  shows "\<exists>out'. outcome_from_receipt db r now True = Inr out' \<and> lco_replayed out' \<and> answers r out'"
proof (cases "cr_outcome r")
  case StoredNoWork
  then show ?thesis by (simp add: outcome_from_receipt_def outcome_no_work_Inr answers_def)
next
  case StoredClaimed
  obtain run token where rt: "cr_run_id r = Some run" "cr_replay_token r = Some token"
    using r StoredClaimed
    by (auto simp: claim_receipt_record_ok_def claim_receipt_record_post_init_def result_bind_eq_Inr
        claim_result_complete_def split: if_splits)
  obtain b where b: "receipt_is_current db r run token now = Inr b"
    using receipt_is_current_total [OF inv] by blast
  obtain g where "grant_from_receipt r b = Inr g" using total [OF StoredClaimed] by blast
  with b rt StoredClaimed show ?thesis
    by (auto simp: outcome_from_receipt_def answers_def outcome_claimed_def
        lease_claim_outcome_post_init_def)
qed

lemma answers_same_proof:
  assumes "answers r out" and "answers r out'"
  shows "lco_code out' = lco_code out \<and>
    map_option (\<lambda>g. g\<lparr>gr_currently_authoritative := False\<rparr>) (lco_grant out') =
      map_option (\<lambda>g. g\<lparr>gr_currently_authoritative := False\<rparr>) (lco_grant out)"
proof (cases "cr_outcome r")
  case StoredNoWork
  with assms show ?thesis by (simp add: answers_def)
next
  case StoredClaimed
  with assms obtain g b g' b' where
    "lco_grant out = Some g" "grant_from_receipt r b = Inr g" "lco_code out = Claimed"
    "lco_grant out' = Some g'" "grant_from_receipt r b' = Inr g'" "lco_code out' = Claimed"
    by (auto simp: answers_def)
  then show ?thesis
    by (auto simp: grant_from_receipt_def lease_grant_post_init_def result_bind_eq_Inr
        split: option.splits if_splits)
qed

text \<open>Once a claim has written its effect, the result it returns exists.\<close>

lemma claim_result_total:
  assumes cmd: "claim_command_ok cmd" and clocks: "clocks_exist sched"
    and b: "claim_body le cmd token sched = Some (Inr (phase, db, res))"
  shows "\<exists>ex. res = Inr ex"
proof -
  obtain now replay where arb: "claim_arbitration cmd sched = Inr (now, replay)"
    using b by (cases "claim_arbitration cmd sched") (auto simp: claim_body_def)
  show ?thesis
  proof (cases replay)
    case (Some out)
    with b arb show ?thesis by (auto simp: claim_body_def)
  next
    case None
    then obtain target c where sel: "claim_selection le cmd sched now = Some (Inr (target, c))"
      and w: "claim_writes cmd token sched (target, c) = Inr (db, res)"
      using b arb
      by (cases "fault_in LockPhase (cs_fault sched)"; cases "claim_selection le cmd sched now")
        (auto simp: claim_body_def result_bind_eq_Inr)
    show ?thesis
    proof (cases target)
      case None
      with w show ?thesis
        by (auto simp: claim_writes_def result_bind_eq_Inr outcome_no_work_def
            lease_claim_outcome_post_init_def)
    next
      case (Some tg)
      then obtain r where "write_claimed cmd token tg (cs_fault sched) (cs_write_db sched) = Inr (db, r)"
        and res: "res = result_bind (grant_from_receipt r True) (\<lambda>grant.
                result_bind (outcome_claimed grant False) (\<lambda>outcome.
                Inr \<lparr>ce_outcome = outcome, ce_contended = c\<rparr>))"
        using w by (auto simp: claim_writes_def result_bind_eq_Inr)
      then obtain l where "claimed_lease cmd token tg = Inr l"
        "claimed_receipt cmd l token (ct_now tg) = Inr r"
        unfolding write_claimed_def by (auto simp: result_bind_eq_Inr split: if_splits)
      from claimed_grant_exists [OF this cmd selection_target(2) [OF sel [unfolded Some] clocks]]
      obtain g where "grant_from_receipt r True = Inr g" by blast
      then show ?thesis by (simp add: res outcome_claimed_def lease_claim_outcome_post_init_def)
    qed
  qed
qed

end
