(* ===== verification/Lease_Outcomes.thy ===== *)
theory Lease_Outcomes
  imports Lease_Mutations
begin

section \<open>When a renewal or a release is applied\<close>

text \<open>
  \<open>renew\<close> and \<open>release\<close> of \<open>postgresql_worker_lease_repository.py\<close> on a stored lease: the condition under which
  they are applied, stated on the lease, the status of its run and the clock, and when they can raise.
\<close>

definition proof_names_lease :: "lease_authority_proof \<Rightarrow> worker_lease_record \<Rightarrow> bool" where
  "proof_names_lease proof l \<longleftrightarrow>
     wl_worker_id l = pf_worker_id proof \<and> wl_claim_id l = pf_claim_id proof \<and>
     wl_attempt_no l = pf_attempt_no proof \<and> wl_token_digest l = digest_lease_token (pf_token proof)"

text \<open>An active run is guarded by the expiry; the lease of a run that has ended may be cleaned up later.\<close>

definition mutation_allowed ::
    "conditional_command \<Rightarrow> string option \<Rightarrow> datetime \<Rightarrow> worker_lease_record \<Rightarrow> bool" where
  "mutation_allowed cmd status now l \<longleftrightarrow>
     proof_names_lease (command_proof cmd) l \<and> wl_released_at l = None \<and>
     (case cmd of
        RenewCommand c \<Rightarrow> rnw_expected_version c = wl_lease_version l \<and>
          status \<in> {Some ''queued'', Some ''running''} \<and> instant now < instant (wl_lease_expires_at l)
      | ReleaseCommand c \<Rightarrow> rls_expected_version c = wl_lease_version l \<and> status \<noteq> None \<and>
          (status \<in> {Some ''queued'', Some ''running''} \<longrightarrow> instant now < instant (wl_lease_expires_at l)))"

text \<open>The version can be counted on, the clock is not behind the acquisition and the new expiry exists.\<close>

definition mutation_possible :: "conditional_command \<Rightarrow> datetime \<Rightarrow> worker_lease_record \<Rightarrow> bool" where
  "mutation_possible cmd now l \<longleftrightarrow>
     lease_version_value (wl_lease_version l) \<noteq> max_signed_bigint \<and>
     instant (wl_acquired_at l) \<le> instant now \<and>
     (case cmd of
        RenewCommand c \<Rightarrow> in_range (wall now + seconds (duration_seconds (rnw_duration c)))
      | ReleaseCommand c \<Rightarrow> True)"

fun is_renewal :: "conditional_command \<Rightarrow> bool" where
  "is_renewal (RenewCommand c) = True"
| "is_renewal (ReleaseCommand c) = False"

subsection \<open>The authority of a stored lease\<close>

lemma stored_lease_times:
  assumes "worker_lease_record_ok l"
  shows "is_utc (wl_acquired_at l)" "is_utc (wl_heartbeat_at l)" "is_utc (wl_lease_expires_at l)"
    "instant (wl_acquired_at l) \<le> instant (wl_heartbeat_at l)"
    "instant (wl_heartbeat_at l) < instant (wl_lease_expires_at l)"
    "length (wl_token_digest l) = 32" "counter_ok (lease_version_value (wl_lease_version l))"
  using assms
  by (auto simp: worker_lease_record_ok_def worker_lease_record_post_init_def split: if_splits option.splits)

lemma stored_authority:
  assumes "worker_lease_record_ok l"
  shows "\<exists>a. matched_not_current l = Inr a \<and> \<not> au_authoritative a"
    and "\<exists>a. authority_expired (wl_lease_version l) (wl_acquired_at l) (wl_heartbeat_at l) (wl_lease_expires_at l) =
        Inr a \<and> \<not> au_authoritative a"
    and "\<exists>a. authority_current (wl_lease_version l) (wl_acquired_at l) (wl_heartbeat_at l) (wl_lease_expires_at l) =
        Inr a \<and> au_authoritative a"
    and "\<exists>a. authority_not_current = Inr a \<and> \<not> au_authoritative a"
  using stored_lease_times [OF assms]
  by (simp_all add: matched_not_current_def authority_expired_def authority_current_def authority_not_current_def
      lease_authority_post_init_def require_utc_def)

lemma proof_matches_stored:
  assumes "worker_lease_record_ok l" and "wl_tenant_id l = pf_tenant_id proof" and "wl_run_id l = pf_run_id proof"
  shows "proof_matches proof l = Inr (proof_names_lease proof l)"
  using assms stored_lease_times(6) [OF assms(1)]
  by (auto simp: proof_matches_def proof_names_lease_def lease_token_matches_def)

lemma evaluate_stored:
  assumes ok: "worker_lease_record_ok l" and "wl_tenant_id l = pf_tenant_id proof" and "wl_run_id l = pf_run_id proof"
  shows "\<exists>a. evaluate_authority proof (Some l) status now = Inr a \<and>
    (au_authoritative a \<longleftrightarrow> proof_names_lease proof l \<and> wl_released_at l = None \<and> status_active status \<and>
       instant now < instant (wl_lease_expires_at l))"
  using stored_authority [OF ok] by (auto simp: evaluate_authority_def proof_matches_stored [OF assms])

subsection \<open>The branches\<close>

lemma not_applied_Inr: "not_applied (Inr a) = Inr \<lparr>cl_applied = False, cl_authority = a, cl_renew_by_at = None\<rparr>"
  by (simp add: not_applied_def conditional_lease_outcome_post_init_def)

lemma applied_Inr: "applied r t = Inr out \<Longrightarrow> cl_applied out \<and> r = Inr (cl_authority out)"
  by (auto simp: applied_def result_bind_eq_Inr conditional_lease_outcome_post_init_def split: option.splits)

text \<open>The update finds the row of the lease, and no other.\<close>

lemma update_lease_total:
  assumes st: "stores db ls rs" and d: "distinct (map lease_key ls)"
    and l: "find_lease ls (pf_tenant_id proof) (pf_run_id proof) = Some l"
    and vals: "map_of values ''claim_id'' = None"
  shows "\<exists>db'. update_lease db proof (wl_lease_version l) values = Inr db'"
proof -
  let ?m = "lease_version_matches proof (wl_lease_version l)"
  have lk: "lease_key l = (pf_tenant_id proof, pf_run_id proof)" "l \<in> set ls"
    using find_lease_Some [OF l] by (auto simp: lease_key_def)
  have "filter (?m \<circ> encode_worker_lease) ls = filter (\<lambda>k. k = l) ls"
  proof (rule filter_cong [OF HOL.refl])
    fix k assume k: "k \<in> set ls"
    show "(?m \<circ> encode_worker_lease) k = (k = l)"
    proof
      assume "(?m \<circ> encode_worker_lease) k"
      then have "lease_key k = lease_key l"
        by (simp add: lease_version_matches_def column_is_def lease_key_def lk(1) [unfolded lease_key_def])
      with k lk(2) d show "k = l" by (metis distinct_map inj_onD)
    qed (use lk(1) in \<open>simp add: lease_version_matches_def column_is_def lease_key_def\<close>)
  qed
  moreover have "length (filter (\<lambda>k. k = l) ls) = 1"
  proof -
    have "{k. k = l} \<inter> set ls = {l}" using lk(2) by auto
    then show ?thesis using d by (simp add: distinct_length_filter distinct_map)
  qed
  moreover have "db_leases db = map encode_worker_lease ls" using st by (simp add: stores_def)
  ultimately show ?thesis
    using vals by (simp add: update_lease_def update_leases_def Let_def filter_map)
qed

lemma renew_branch_outcome:
  assumes r: "renew_branch c l a now f db = Inr (phase, db', out)"
  shows "cl_applied out \<longleftrightarrow> au_authoritative a \<and> rnw_expected_version c = wl_lease_version l"
    and "cl_applied out \<Longrightarrow> au_authoritative (cl_authority out)"
  using r
  by (auto simp: renew_branch_def result_bind_eq_Inr not_applied_Inr authority_results split: if_splits
      dest!: applied_Inr)

lemma release_branch_outcome:
  assumes r: "release_branch c l s a now f db = Inr (phase, db', out)"
  shows "cl_applied out \<longleftrightarrow> wl_released_at l = None \<and> rls_expected_version c = wl_lease_version l \<and>
      (s \<in> set active_statuses \<longrightarrow> au_authoritative a)"
    and "cl_applied out \<Longrightarrow> \<not> au_authoritative (cl_authority out)"
  using r
  by (auto simp: release_branch_def Let_def result_bind_eq_Inr not_applied_Inr authority_results
      not_applied_def conditional_lease_outcome_post_init_def split: if_splits dest!: applied_Inr)

text \<open>Without a storage fault a branch raises only when its effect is not possible.\<close>

lemma renew_branch_returns:
  assumes ok: "worker_lease_record_ok l" and now: "is_utc now" "in_range (wall now)"
    and d: "lease_duration_ok (rnw_duration c)"
    and u: "\<And>vals. map_of vals ''claim_id'' = None \<Longrightarrow> \<exists>db'. update_lease db (rnw_proof c) (wl_lease_version l) vals = Inr db'"
    and possible: "au_authoritative a \<Longrightarrow> rnw_expected_version c = wl_lease_version l \<Longrightarrow>
      mutation_possible (RenewCommand c) now l"
  shows "\<exists>res. renew_branch c l a now None db = Inr res"
proof (cases "au_authoritative a \<and> rnw_expected_version c = wl_lease_version l")
  case False
  then show ?thesis by (auto simp: renew_branch_def not_applied_Inr)
next
  case True
  let ?d = "duration_seconds (rnw_duration c)"
  from True possible have p: "lease_version_value (wl_lease_version l) \<noteq> max_signed_bigint"
      "instant (wl_acquired_at l) \<le> instant now" "in_range (wall now + seconds ?d)"
    by (simp_all add: mutation_possible_def)
  have pos: "0 < ?d" using d by (simp add: lease_duration_ok_def min_lease_duration_seconds_def)
  have "in_range (wall now + ?d * 1000000 div 3)"
    using p(3) now(2) pos by (auto simp: in_range_def)
  then have renew_by: "renew_by_at now (rnw_duration c) = Inr (shift_wall now (?d * 1000000 div 3))"
    using now(1) by (simp add: renew_by_at_def require_utc_def datetime_add_def)
  have utc: "is_utc (shift_wall now k)" for k using now(1) by (cases now) simp_all
  have current: "\<exists>a'. authority_current v (wl_acquired_at l) now (shift_wall now (seconds ?d)) = Inr a'" for v
    using stored_lease_times(1) [OF ok] now(1) utc p(2) pos
    by (simp add: authority_current_def lease_authority_post_init_def require_utc_def)
  have "counter_next LeaseVersion (lease_version_value (wl_lease_version l)) =
      Inr (LeaseVersion (lease_version_value (wl_lease_version l) + 1))"
    using counter_next_eq [OF stored_lease_times(7) [OF ok]] p(1) by simp
  moreover have "datetime_add now (seconds ?d) = Inr (shift_wall now (seconds ?d))"
    using p(3) by (simp add: datetime_add_def)
  moreover obtain db' where "update_lease db (rnw_proof c) (wl_lease_version l)
      [(''duration_seconds'', DvInt ?d),
       (''lease_version'', DvInt (lease_version_value (LeaseVersion (lease_version_value (wl_lease_version l) + 1)))),
       (''heartbeat_at'', DvTime now), (''lease_expires_at'', DvTime (shift_wall now (seconds ?d)))] = Inr db'"
    using u by fastforce
  moreover obtain a' where
    "authority_current (LeaseVersion (lease_version_value (wl_lease_version l) + 1)) (wl_acquired_at l) now
       (shift_wall now (seconds ?d)) = Inr a'" using current by blast
  ultimately show ?thesis
    using True utc renew_by
    by (simp add: renew_branch_def fault_in_def applied_def conditional_lease_outcome_post_init_def require_utc_def)
qed

lemma release_branch_returns:
  assumes ok: "worker_lease_record_ok l" and now: "is_utc now"
    and u: "\<And>vals. map_of vals ''claim_id'' = None \<Longrightarrow> \<exists>db'. update_lease db (rls_proof c) (wl_lease_version l) vals = Inr db'"
    and possible: "wl_released_at l = None \<Longrightarrow> rls_expected_version c = wl_lease_version l \<Longrightarrow>
      (s \<in> set active_statuses \<longrightarrow> au_authoritative a) \<Longrightarrow> mutation_possible (ReleaseCommand c) now l"
  shows "\<exists>res. release_branch c l s a now None db = Inr res"
proof (cases "wl_released_at l = None \<and> rls_expected_version c = wl_lease_version l \<and>
    (s \<in> set active_statuses \<longrightarrow> au_authoritative a)")
  case False
  then show ?thesis
    using stored_authority(1) [OF ok] by (auto simp: release_branch_def Let_def not_applied_Inr)
next
  case True
  with possible have p: "lease_version_value (wl_lease_version l) \<noteq> max_signed_bigint"
      "instant (wl_acquired_at l) \<le> instant now"
    by (simp_all add: mutation_possible_def)
  let ?v = "LeaseVersion (lease_version_value (wl_lease_version l) + 1)"
  let ?l = "l\<lparr>wl_lease_version := ?v, wl_released_at := Some now\<rparr>"
  have "counter_next LeaseVersion (lease_version_value (wl_lease_version l)) = Inr ?v"
    using counter_next_eq [OF stored_lease_times(7) [OF ok]] p(1) by simp
  moreover have "worker_lease_record_post_init ?l = Inr ?l"
    using stored_lease_times [OF ok] now p(2) by (simp add: worker_lease_record_post_init_def)
  moreover have "\<exists>a'. matched_not_current ?l = Inr a'"
    using stored_lease_times [OF ok]
    by (simp add: matched_not_current_def lease_authority_post_init_def require_utc_def)
  moreover obtain db' where "update_lease db (rls_proof c) (wl_lease_version l)
      [(''lease_version'', DvInt (lease_version_value ?v)), (''released_at'', DvTime now)] = Inr db'"
    using u by fastforce
  ultimately show ?thesis
    using True
    by (auto simp: release_branch_def Let_def fault_in_def applied_def conditional_lease_outcome_post_init_def)
qed

subsection \<open>The whole mutation\<close>

lemma fault_in_None [simp]: "fault_in phase None = Inr ()"
  by (simp add: fault_in_def)

text \<open>What the body does with a stored lease, after the phases before the lock.\<close>

lemma body_stored:
  assumes st: "stores (ms_write_db sched) ls rs" and locked: "mutation_locked cmd sched"
    and l: "find_lease ls (pf_tenant_id (command_proof cmd)) (pf_run_id (command_proof cmd)) = Some l"
    and now: "is_utc (ms_now sched)"
    and before: "fault_in Acquire (ms_fault sched) = Inr ()" "fault_in Begin (ms_fault sched) = Inr ()"
      "fault_in LockPhase (ms_fault sched) = Inr ()"
  shows "case run_status_at (ms_write_db sched) (pf_tenant_id (command_proof cmd)) (pf_run_id (command_proof cmd)) of
      None \<Rightarrow> \<exists>out. conditional_body cmd sched = Inr (LockPhase, ms_write_db sched, out) \<and> \<not> cl_applied out
    | Some s \<Rightarrow> \<exists>a. (au_authoritative a \<longleftrightarrow> proof_names_lease (command_proof cmd) l \<and> wl_released_at l = None \<and>
          status_active (Some s) \<and> instant (ms_now sched) < instant (wl_lease_expires_at l)) \<and>
        conditional_body cmd sched =
          (if proof_names_lease (command_proof cmd) l
           then (case cmd of
               RenewCommand c \<Rightarrow> renew_branch c l a (ms_now sched) (ms_fault sched) (ms_write_db sched)
             | ReleaseCommand c \<Rightarrow> release_branch c l s a (ms_now sched) (ms_fault sched) (ms_write_db sched))
           else Inr (LockPhase, ms_write_db sched,
             \<lparr>cl_applied = False, cl_authority = a, cl_renew_by_at = None\<rparr>))"
proof -
  let ?p = "command_proof cmd" and ?db = "ms_write_db sched"
  have key: "l \<in> set ls" "wl_tenant_id l = pf_tenant_id ?p" "wl_run_id l = pf_run_id ?p"
    using find_lease_Some [OF l] by simp_all
  have ok: "worker_lease_record_ok l" using st key(1) by (simp add: stores_def)
  have status: "run_status_at (ms_status_db sched) (pf_tenant_id ?p) (pf_run_id ?p) =
      run_status_at ?db (pf_tenant_id ?p) (pf_run_id ?p)"
    using locked by (simp add: mutation_locked_def Let_def)
  have clock: "database_now (ms_now sched) = Inr (ms_now sched)" using now by (cases "ms_now sched") simp_all
  show ?thesis
  proof (cases "run_status_at ?db (pf_tenant_id ?p) (pf_run_id ?p)")
    case None
    with status before show ?thesis
      by (simp add: conditional_body_def Let_def not_applied_Inr authority_not_current_def lease_authority_post_init_def)
  next
    case (Some s)
    have "lease_at ?db (pf_tenant_id ?p) (pf_run_id ?p) = Some (encode_worker_lease l)"
      using l by (simp add: lease_at_stored [OF st])
    then have loaded: "load_authority_state (ms_lease_db sched) ?p = Inr (Some l, Some s)"
      using Some locked decode_stored_lease [OF st key(1)]
      by (simp add: load_authority_state_def mutation_locked_def Let_def joined_lease_def)
    from evaluate_stored [OF ok key(2,3)] obtain a where
      a: "evaluate_authority ?p (Some l) (Some s) (ms_now sched) = Inr a"
        "au_authoritative a \<longleftrightarrow> proof_names_lease ?p l \<and> wl_released_at l = None \<and> status_active (Some s) \<and>
          instant (ms_now sched) < instant (wl_lease_expires_at l)" by blast
    have "conditional_body cmd sched =
          (if proof_names_lease ?p l
           then (case cmd of
               RenewCommand c \<Rightarrow> renew_branch c l a (ms_now sched) (ms_fault sched) ?db
             | ReleaseCommand c \<Rightarrow> release_branch c l s a (ms_now sched) (ms_fault sched) ?db)
           else Inr (LockPhase, ?db, \<lparr>cl_applied = False, cl_authority = a, cl_renew_by_at = None\<rparr>))"
      using Some status before loaded clock a(1) proof_matches_stored [OF ok key(2,3)]
      by (simp add: conditional_body_def Let_def not_applied_Inr)
    with Some a(2) show ?thesis by auto
  qed
qed

lemma active_status_iff: "status_active status \<longleftrightarrow> status \<in> {Some ''queued'', Some ''running''}"
  by (auto simp: status_active_def active_statuses_def)

text \<open>Applied exactly when allowed, for every storage fault that lets the mutation return.\<close>

lemma conditional_body_applied:
  assumes st: "stores (ms_write_db sched) ls rs" and locked: "mutation_locked cmd sched"
    and l: "find_lease ls (pf_tenant_id (command_proof cmd)) (pf_run_id (command_proof cmd)) = Some l"
    and now: "is_utc (ms_now sched)" and b: "conditional_body cmd sched = Inr (phase, db', out)"
    and status: "status = run_status_at (ms_write_db sched) (pf_tenant_id (command_proof cmd))
      (pf_run_id (command_proof cmd))"
  shows "(cl_applied out \<longleftrightarrow> mutation_allowed cmd status (ms_now sched) l) \<and>
    (cl_applied out \<longrightarrow> (au_authoritative (cl_authority out) \<longleftrightarrow> is_renewal cmd))"
proof -
  have before: "fault_in Acquire (ms_fault sched) = Inr ()" "fault_in Begin (ms_fault sched) = Inr ()"
      "fault_in LockPhase (ms_fault sched) = Inr ()"
    using b by (auto simp: conditional_body_def Let_def result_bind_eq_Inr)
  note body = body_stored [OF st locked l now before]
  show ?thesis
  proof (cases status)
    case None
    with body b status show ?thesis
      by (cases cmd) (auto simp: mutation_allowed_def)
  next
    case (Some s)
    from body [folded status] Some obtain a where
      a: "au_authoritative a \<longleftrightarrow> proof_names_lease (command_proof cmd) l \<and> wl_released_at l = None \<and>
        status_active (Some s) \<and> instant (ms_now sched) < instant (wl_lease_expires_at l)" and
      run: "conditional_body cmd sched =
          (if proof_names_lease (command_proof cmd) l
           then (case cmd of
               RenewCommand c \<Rightarrow> renew_branch c l a (ms_now sched) (ms_fault sched) (ms_write_db sched)
             | ReleaseCommand c \<Rightarrow> release_branch c l s a (ms_now sched) (ms_fault sched) (ms_write_db sched))
           else Inr (LockPhase, ms_write_db sched,
             \<lparr>cl_applied = False, cl_authority = a, cl_renew_by_at = None\<rparr>))" by auto
    have active: "s \<in> set active_statuses \<longleftrightarrow> status \<in> {Some ''queued'', Some ''running''}"
      using Some by (simp add: active_statuses_def)
    show ?thesis
    proof (cases "proof_names_lease (command_proof cmd) l")
      case False
      with run b show ?thesis by (auto simp: mutation_allowed_def)
    next
      case True
      show ?thesis
      proof (cases cmd)
        case (RenewCommand c)
        with run b True
        have "renew_branch c l a (ms_now sched) (ms_fault sched) (ms_write_db sched) = Inr (phase, db', out)" by simp
        from renew_branch_outcome [OF this] RenewCommand True a Some show ?thesis
          by (auto simp: mutation_allowed_def active_status_iff)
      next
        case (ReleaseCommand c)
        with run b True
        have "release_branch c l s a (ms_now sched) (ms_fault sched) (ms_write_db sched) = Inr (phase, db', out)" by simp
        from release_branch_outcome [OF this] ReleaseCommand True a Some active show ?thesis
          by (auto simp: mutation_allowed_def active_status_iff)
      qed
    qed
  qed
qed

text \<open>Without a fault the mutation returns, unless its effect is not possible.\<close>

lemma conditional_body_returns:
  assumes st: "stores (ms_write_db sched) ls rs" and d: "distinct (map lease_key ls)"
    and ok: "conditional_command_ok cmd" and locked: "mutation_locked cmd sched"
    and l: "find_lease ls (pf_tenant_id (command_proof cmd)) (pf_run_id (command_proof cmd)) = Some l"
    and now: "is_utc (ms_now sched)" "in_range (wall (ms_now sched))" and fault: "ms_fault sched = None"
    and possible: "mutation_allowed cmd (run_status_at (ms_write_db sched) (pf_tenant_id (command_proof cmd))
      (pf_run_id (command_proof cmd))) (ms_now sched) l \<Longrightarrow> mutation_possible cmd (ms_now sched) l"
  shows "\<exists>res. conditional_body cmd sched = Inr res"
proof -
  have lok: "worker_lease_record_ok l" using st find_lease_Some [OF l] by (simp add: stores_def)
  note body = body_stored [OF st locked l now(1), unfolded fault, OF fault_in_None fault_in_None fault_in_None]
  note update = update_lease_total [OF st d l]
  show ?thesis
  proof (cases "run_status_at (ms_write_db sched) (pf_tenant_id (command_proof cmd)) (pf_run_id (command_proof cmd))")
    case None
    with body show ?thesis by auto
  next
    case (Some s)
    from body [unfolded Some option.case] obtain a where
      a: "au_authoritative a \<longleftrightarrow> proof_names_lease (command_proof cmd) l \<and> wl_released_at l = None \<and>
        status_active (Some s) \<and> instant (ms_now sched) < instant (wl_lease_expires_at l)" and
      run: "conditional_body cmd sched =
          (if proof_names_lease (command_proof cmd) l
           then (case cmd of
               RenewCommand c \<Rightarrow> renew_branch c l a (ms_now sched) None (ms_write_db sched)
             | ReleaseCommand c \<Rightarrow> release_branch c l s a (ms_now sched) None (ms_write_db sched))
           else Inr (LockPhase, ms_write_db sched,
             \<lparr>cl_applied = False, cl_authority = a, cl_renew_by_at = None\<rparr>))" by blast
    show ?thesis
    proof (cases "proof_names_lease (command_proof cmd) l")
      case False
      with run show ?thesis by simp
    next
      case True
      show ?thesis
      proof (cases cmd)
        case (RenewCommand c)
        have "\<exists>res. renew_branch c l a (ms_now sched) None (ms_write_db sched) = Inr res"
          by (rule renew_branch_returns [OF lok now])
            (use RenewCommand ok update possible True a Some in
              \<open>auto simp: mutation_allowed_def active_status_iff\<close>)
        with run True RenewCommand show ?thesis by simp
      next
        case (ReleaseCommand c)
        have "\<exists>res. release_branch c l s a (ms_now sched) None (ms_write_db sched) = Inr res"
          by (rule release_branch_returns [OF lok now(1)])
            (use ReleaseCommand update possible True a Some in
              \<open>auto simp: mutation_allowed_def active_status_iff active_statuses_def\<close>)
        with run True ReleaseCommand show ?thesis by simp
      qed
    qed
  qed
qed

end
