(* ===== verification/Lease_Properties.thy ===== *)
theory Lease_Properties
  imports Lease_Replay Lease_Outcomes
begin

section \<open>Properties of the worker lease kernel\<close>

text \<open>
  The properties of the lease store, each with a witness on the sample tables below: one queued
  run, one worker, a claim identifier issued on 2023-11-14 and clocks close to it.
\<close>

subsection \<open>Samples\<close>

definition smp_claim_id :: lease_claim_id where
  "smp_claim_id = LeaseClaimId (Uuid (2055173893345398511269952637118709760))"

definition smp_command :: claim_lease_command where
  "smp_command =
     \<lparr>clm_tenant_id = TenantId ''t1'', clm_worker_id = WorkerId ''w1'', clm_claim_id = smp_claim_id,
      clm_duration = LeaseDurationSeconds 30\<rparr>"

definition smp_token :: lease_token where
  "smp_token = LeaseToken (replicate 32 7)"

definition smp_now :: int where
  "smp_now = 1700000001000000"

definition smp_empty :: lease_db where
  "smp_empty = \<lparr>db_runs = [\<lparr>rr_tenant_id = ''t1'', rr_run_id = ''run-1'', rr_run_status = ''queued'',
      rr_updated_at = Utc 0\<rparr>], db_leases = [], db_receipts = []\<rparr>"

definition smp_iteration :: claim_iteration where
  "smp_iteration =
     \<lparr>it_lease_db = smp_empty, it_now = Utc smp_now, it_skip_db = smp_empty, it_locked = [],
      it_wait_db = smp_empty\<rparr>"

definition smp_schedule :: "lease_db \<Rightarrow> storage_fault option \<Rightarrow> claim_schedule" where
  "smp_schedule db fault =
     \<lparr>cs_request_now = Utc smp_now, cs_receipt_db = db, cs_authority_db = db,
      cs_first = smp_iteration, cs_iterations = [smp_iteration], cs_no_work_now = Utc smp_now,
      cs_write_db = db, cs_fault = fault\<rparr>"

definition smp_race :: race_schedule where
  "smp_race = \<lparr>rs_now = Utc smp_now, rs_receipt_db = smp_empty, rs_authority_db = smp_empty,
     rs_fault = False\<rparr>"

definition smp_lease :: worker_lease_record where
  "smp_lease =
     \<lparr>wl_tenant_id = TenantId ''t1'', wl_run_id = RunId ''run-1'', wl_worker_id = WorkerId ''w1'',
      wl_claim_id = smp_claim_id, wl_token_digest = digest_lease_token smp_token,
      wl_attempt_no = LeaseAttemptNo 1, wl_lease_version = LeaseVersion 1,
      wl_duration = LeaseDurationSeconds 30, wl_acquired_at = Utc smp_now,
      wl_heartbeat_at = Utc smp_now, wl_lease_expires_at = Utc (smp_now + 30000000),
      wl_released_at = None\<rparr>"

definition smp_receipt :: claim_receipt_record where
  "smp_receipt =
     \<lparr>cr_tenant_id = TenantId ''t1'', cr_claim_id = smp_claim_id,
      cr_claim_issued_at = Utc 1700000000000000, cr_replay_expires_at = Utc 1700086400000000,
      cr_worker_id = WorkerId ''w1'', cr_duration = LeaseDurationSeconds 30,
      cr_intent_fingerprint = claim_intent_fingerprint smp_command, cr_outcome = StoredClaimed,
      cr_run_id = Some (RunId ''run-1''), cr_attempt_no = Some (LeaseAttemptNo 1),
      cr_initial_lease_version = Some (LeaseVersion 1), cr_lease_acquired_at = Some (Utc smp_now),
      cr_lease_expires_at = Some (Utc (smp_now + 30000000)), cr_replay_token = Some smp_token,
      cr_created_at = Utc smp_now\<rparr>"

definition smp_claimed :: lease_db where
  "smp_claimed = smp_empty\<lparr>db_leases := [encode_worker_lease smp_lease],
     db_receipts := [encode_claim_receipt smp_receipt]\<rparr>"

definition smp_proof :: lease_authority_proof where
  "smp_proof =
     \<lparr>pf_tenant_id = TenantId ''t1'', pf_run_id = RunId ''run-1'', pf_worker_id = WorkerId ''w1'',
      pf_claim_id = smp_claim_id, pf_attempt_no = LeaseAttemptNo 1, pf_token = smp_token\<rparr>"

lemma smp_issued: "claim_id_issued_at smp_claim_id = Inr (Utc 1700000000000000)"
  by (simp add: claim_id_issued_at_def smp_claim_id_def unsigned_drop_bit_eq drop_bit_eq_div
      in_range_def min_wall_def max_wall_def)

lemma smp_claim_id_ok: "claim_id_ok smp_claim_id"
  by (simp add: claim_id_ok_def smp_claim_id_def new_lease_claim_id_def uuid_version_def
      uuid_rfc_variant_def unsigned_drop_bit_eq drop_bit_eq_div)

lemma smp_command_ok: "claim_command_ok smp_command" "token_ok smp_token"
  by (simp_all add: claim_command_ok_def smp_command_def smp_claim_id_ok token_ok_def smp_token_def
      lease_token_bytes_def lease_duration_ok_def min_lease_duration_seconds_def
      max_lease_duration_seconds_def identifier_char_def char_class_defs)

lemma smp_age: "validate_claim_age smp_claim_id (Utc smp_now) = Inr ()"
  by (simp add: validate_claim_age_def smp_issued smp_now_def datetime_add_def in_range_def
      min_wall_def max_wall_def)

definition smp_target :: claim_target where
  "smp_target = \<lparr>ct_run_id = RunId ''run-1'', ct_current = None, ct_now = Utc smp_now\<rparr>"

lemma smp_claimed_lease: "claimed_lease smp_command smp_token smp_target = Inr smp_lease"
  by (simp add: claimed_lease_def smp_target_def next_attempt_def next_version_def new_counter_def
      max_signed_bigint_def smp_command_def smp_lease_def datetime_add_def in_range_def min_wall_def
      max_wall_def smp_now_def worker_lease_record_post_init_def digest_lease_token_def)

lemma smp_claimed_receipt:
  "claimed_receipt smp_command smp_lease smp_token (Utc smp_now) = Inr smp_receipt"
  unfolding claimed_receipt_def
  by (simp add: smp_command_def smp_issued datetime_add_def in_range_def min_wall_def max_wall_def
      claim_receipt_record_post_init_def smp_lease_def smp_receipt_def smp_now_def
      claim_intent_fingerprint_def claim_result_complete_def)

lemma smp_lease_ok: "worker_lease_record_ok smp_lease"
  by (rule claimed_lease_ok [OF smp_claimed_lease smp_command_ok(1)])
    (simp add: target_ok_def smp_target_def lease_available_def identifier_char_def char_class_defs)

lemma smp_receipt_ok: "claim_receipt_record_ok smp_receipt"
  by (rule receipt_record_ok_claimed [OF smp_claimed_receipt smp_command_ok(1) smp_lease_ok
        smp_command_ok(2)])

lemma smp_state_empty: "lease_state smp_empty [] []"
  by (simp add: lease_state_def stores_def smp_empty_def grants_unique_def)

lemma smp_state_claimed: "lease_state smp_claimed [smp_lease] [smp_receipt]"
proof -
  have "stored_intent smp_receipt = smp_command"
    by (simp add: stored_intent_def smp_receipt_def smp_command_def)
  then have "cr_intent_fingerprint smp_receipt = claim_intent_fingerprint (stored_intent smp_receipt)"
    by (simp add: smp_receipt_def)
  moreover have "receipt_backed [smp_lease] smp_receipt"
    by (simp add: receipt_backed_def smp_receipt_def smp_lease_def find_lease_def lease_key_def)
  moreover have "stores smp_claimed [smp_lease] [smp_receipt]"
    by (simp add: stores_def smp_claimed_def smp_lease_ok smp_receipt_ok)
  ultimately show ?thesis by (simp add: lease_state_def grants_unique_def)
qed

lemma smp_stores_claimed: "stores smp_claimed [smp_lease] [smp_receipt]"
  using smp_state_claimed by (simp add: lease_state_def)

text \<open>The run taken over by a second attempt.\<close>

definition smp_second :: worker_lease_record where
  "smp_second = smp_lease\<lparr>wl_attempt_no := LeaseAttemptNo 2, wl_lease_version := LeaseVersion 2\<rparr>"

definition smp_taken :: lease_db where
  "smp_taken = smp_empty\<lparr>db_leases := [encode_worker_lease smp_second]\<rparr>"

lemma smp_state_taken: "lease_state smp_taken [smp_second] []"
proof -
  have "worker_lease_record_ok smp_second"
    using smp_lease_ok
    by (auto simp: worker_lease_record_ok_def smp_second_def counter_ok_def max_signed_bigint_def
        worker_lease_record_post_init_def split: if_splits option.splits)
  then show ?thesis by (simp add: lease_state_def stores_def smp_taken_def grants_unique_def smp_empty_def)
qed

definition smp_current :: lease_authority where
  "smp_current = \<lparr>au_authoritative = True, au_reason = None, au_lease_version = Some (LeaseVersion 1),
     au_acquired_at = Some (Utc smp_now), au_heartbeat_at = Some (Utc smp_now),
     au_lease_expires_at = Some (Utc (smp_now + 30000000))\<rparr>"

lemma smp_joined:
  "joined_lease smp_claimed (TenantId ''t1'') (RunId ''run-1'') =
     Some (encode_worker_lease smp_lease, ''queued'')"
  "joined_lease smp_taken (TenantId ''t1'') (RunId ''run-1'') =
     Some (encode_worker_lease smp_second, ''queued'')"
  by (simp_all add: joined_lease_def lease_at_def column_is_def smp_claimed_def smp_taken_def
      smp_lease_def smp_second_def run_status_at_def smp_empty_def)

lemma smp_load:
  "load_authority_state smp_claimed smp_proof = Inr (Some smp_lease, Some ''queued'')"
  "load_authority_state smp_taken smp_proof = Inr (Some smp_second, Some ''queued'')"
  using decode_stored_lease [OF smp_stores_claimed] smp_state_taken
    decode_stored_lease [of smp_taken "[smp_second]" "[]"]
  by (simp_all add: load_authority_state_def smp_proof_def smp_joined lease_state_def)

lemma smp_matches: "proof_matches smp_proof smp_lease = Inr True"
  by (simp add: proof_matches_True) (simp add: smp_lease_def smp_proof_def digest_lease_token_def)

lemma smp_evaluate:
  "smp_now \<le> w \<Longrightarrow> w < smp_now + 30000000 \<Longrightarrow>
     evaluate_authority smp_proof (Some smp_lease) (Some ''queued'') (Utc w) = Inr smp_current"
proof -
  assume w: "smp_now \<le> w" "w < smp_now + 30000000"
  have l: "wl_released_at smp_lease = None" "wl_lease_version smp_lease = LeaseVersion 1"
    "wl_acquired_at smp_lease = Utc smp_now" "wl_heartbeat_at smp_lease = Utc smp_now"
    "wl_lease_expires_at smp_lease = Utc (smp_now + 30000000)"
    by (simp_all add: smp_lease_def)
  show ?thesis
    using w by (simp add: evaluate_authority_def smp_matches l status_active_def active_statuses_def
        authority_current_def lease_authority_post_init_def require_utc_def smp_current_def)
qed

lemma smp_authority:
  "get_authority (Inr ()) smp_claimed smp_proof (Utc smp_now) False = Inr smp_current"
  by (simp add: get_authority_def smp_load smp_evaluate)

lemma smp_taken_authority:
  "get_authority (Inr ()) smp_taken smp_proof (Utc smp_now) False = authority_not_current"
proof -
  have "proof_matches smp_proof smp_second = Inr False"
    by (simp add: proof_matches_def smp_second_def smp_lease_def smp_proof_def)
  then show ?thesis by (simp add: get_authority_def smp_load evaluate_authority_def)
qed

lemma authority_not_current_value:
  "\<exists>a. authority_not_current = Inr a"
  by (simp add: authority_not_current_def lease_authority_post_init_def)

lemma smp_selection:
  "claim_selection code_point_le smp_command (smp_schedule db fault) now =
     Some (Inr (Some smp_target, False))"
  by (simp add: claim_selection_def select_next_def select_eligible_run_def smp_schedule_def
      smp_iteration_def smp_empty_def run_row_eligible_def smp_command_def lease_row_open_def
      lease_at_def load_lease_for_update_def new_identifier_def identifier_char_def char_class_defs lease_available_def smp_target_def)

lemma smp_schedule_select:
  "cs_write_db (smp_schedule db fault) = db" "cs_fault (smp_schedule db fault) = fault"
  by (simp_all add: smp_schedule_def)

lemma smp_locked: "claim_locked code_point_le smp_command (smp_schedule smp_empty fault)"
  by (simp add: claim_locked_def smp_selection smp_schedule_select)
    (simp add: smp_target_def load_lease_for_update_def lease_at_def smp_empty_def)

definition smp_grant :: lease_grant where
  "smp_grant =
     \<lparr>gr_tenant_id = TenantId ''t1'', gr_run_id = RunId ''run-1'', gr_worker_id = WorkerId ''w1'',
      gr_claim_id = smp_claim_id, gr_token = smp_token, gr_attempt_no = LeaseAttemptNo 1,
      gr_lease_version = LeaseVersion 1, gr_duration = LeaseDurationSeconds 30,
      gr_acquired_at = Utc smp_now, gr_heartbeat_at = Utc smp_now,
      gr_lease_expires_at = Utc (smp_now + 30000000), gr_renew_by_at = Utc (smp_now + 10000000),
      gr_currently_authoritative = True\<rparr>"

definition smp_execution :: claim_execution where
  "smp_execution =
     \<lparr>ce_outcome = \<lparr>lco_code = Claimed, lco_grant = Some smp_grant, lco_replayed = False\<rparr>,
      ce_contended = False\<rparr>"

lemma smp_write:
  "fault_in WritePhase fault = Inr () \<Longrightarrow>
     write_claimed smp_command smp_token smp_target fault smp_empty = Inr (smp_claimed, smp_receipt)"
proof -
  assume f: "fault_in WritePhase fault = Inr ()"
  have now: "ct_now smp_target = Utc smp_now" "ct_current smp_target = None"
    by (simp_all add: smp_target_def)
  let ?db = "smp_empty\<lparr>db_leases := [encode_worker_lease smp_lease]\<rparr>"
  have "run_exists smp_empty (encode_worker_lease smp_lease)"
    by (simp add: run_exists_def smp_empty_def smp_lease_def)
  then have s: "store_lease smp_empty smp_lease None = Inr ?db"
    by (simp add: store_lease_def insert_lease_def smp_empty_def)
  have "run_exists ?db (encode_claim_receipt smp_receipt)"
    by (simp add: run_exists_def smp_empty_def smp_receipt_def)
  then have "insert_claim_receipt ?db smp_receipt = Inr (True, smp_claimed)"
    by (simp add: insert_claim_receipt_def smp_claimed_def smp_empty_def)
  with s f show ?thesis
    by (simp add: write_claimed_def smp_claimed_lease smp_claimed_receipt now)
qed

lemma smp_arbitration:
  "fault = None \<or> (\<exists>f. fault = Some f \<and> sf_phase f = Commit) \<Longrightarrow>
     claim_arbitration smp_command (smp_schedule smp_empty fault) = Inr (Utc smp_now, None)"
  using smp_age
  by (auto simp: claim_arbitration_def fault_in_def smp_schedule_def load_receipt_def receipt_at_def
      smp_empty_def smp_command_def)

lemma smp_outcome:
  "grant_from_receipt smp_receipt True = Inr smp_grant"
  "outcome_claimed smp_grant False = Inr (ce_outcome smp_execution)"
  by (simp_all add: grant_from_receipt_def smp_receipt_def renew_by_at_def smp_grant_def smp_now_def
      require_utc_def datetime_add_def in_range_def min_wall_def max_wall_def lease_grant_post_init_def
      outcome_claimed_def lease_claim_outcome_post_init_def smp_execution_def)

lemma smp_body:
  assumes "fault = None \<or> (\<exists>f. fault = Some f \<and> sf_phase f = Commit)"
  shows "claim_body code_point_le smp_command smp_token (smp_schedule smp_empty fault) =
    Some (Inr (Commit, smp_claimed, Inr smp_execution))"
proof -
  have f: "fault_in LockPhase fault = Inr ()" "fault_in WritePhase fault = Inr ()"
    using assms by (auto simp: fault_in_def)
  have w: "claim_writes smp_command smp_token (smp_schedule smp_empty fault) (Some smp_target, False) =
      Inr (smp_claimed, Inr smp_execution)"
    using f smp_write smp_outcome
    by (simp add: claim_writes_def smp_schedule_def smp_execution_def)
  have "cs_fault (smp_schedule smp_empty fault) = fault" by (simp add: smp_schedule_def)
  then show ?thesis
    using f w by (simp add: claim_body_def smp_arbitration [OF assms] smp_selection)
qed

lemma smp_claim:
  "claim code_point_le (Inr ()) smp_command smp_token (smp_schedule smp_empty None) smp_race =
     Some (smp_claimed, Inr smp_execution)"
  by (simp add: claim_def claim_transaction_def smp_body commit_fault_def smp_schedule_select)


lemma smp_step: "(lease_step code_point_le)\<^sup>*\<^sup>* smp_empty smp_claimed"
  by (rule r_into_rtranclp, rule step_claim [OF smp_command_ok smp_locked _ smp_claim])
    (simp add: smp_schedule_select)

subsection \<open>Claims\<close>

text \<open>C14: Along every run of the lease operations that starts with empty lease tables, whatever
  other transactions do to the runs, the tables hold well-formed rows, one lease per run, one
  receipt per claim identifier, no claimed receipt ahead of the lease of its run, and each
  attempt number of a run was granted to one claim at most.\<close>

theorem lease_tables_invariant:
  assumes "(lease_step le)\<^sup>*\<^sup>* db0 db" and "db_leases db0 = []" and "db_receipts db0 = []"
  shows "\<exists>ls rs. lease_state db ls rs"
proof -
  have "lease_state db0 [] []"
    using assms(2,3) by (simp add: lease_state_def stores_def grants_unique_def)
  from lease_steps_state [OF assms(1) this] show ?thesis by blast
qed

theorem lease_tables_invariant_witness: "\<exists>ls rs. lease_state smp_claimed ls rs"
  by (rule lease_tables_invariant [OF smp_step]) (simp_all add: smp_empty_def)

text \<open>C15: Fencing: once the lease of a run has passed to a later attempt, or the attempt was
  released, the proof of the earlier attempt is never authoritative again, after any further
  operations and at any clock reading.\<close>

theorem superseded_proof_never_authoritative:
  assumes "lease_state db ls rs"
    and "find_lease ls (pf_tenant_id proof) (pf_run_id proof) = Some l"
    and "attempt_no_value (pf_attempt_no proof) < attempt_no_value (wl_attempt_no l) \<or>
      (pf_attempt_no proof = wl_attempt_no l \<and> wl_released_at l \<noteq> None)"
    and "(lease_step le)\<^sup>*\<^sup>* db db'" and "get_authority schema db' proof clock fault = Inr a"
  shows "\<not> au_authoritative a"
proof
  assume a: "au_authoritative a"
  from lease_steps_state [OF assms(4,1)] assms(2) obtain ls' rs' l' where
    s: "lease_state db' ls' rs'" and
    l': "find_lease ls' (pf_tenant_id proof) (pf_run_id proof) = Some l'" "lease_moved l l'" by metis
  from get_authority_authoritative [OF assms(5) a s] l'(1)
  have "wl_attempt_no l' = pf_attempt_no proof" "wl_released_at l' = None" by auto
  with l'(2) assms(3) show False by (auto simp: lease_moved_def lease_advances_def)
qed

theorem superseded_proof_never_authoritative_witness:
  "\<exists>a. get_authority (Inr ()) smp_taken smp_proof (Utc smp_now) False = Inr a \<and>
     \<not> au_authoritative a"
proof -
  obtain a where a: "get_authority (Inr ()) smp_taken smp_proof (Utc smp_now) False = Inr a"
    using smp_taken_authority authority_not_current_value by auto
  have "find_lease [smp_second] (pf_tenant_id smp_proof) (pf_run_id smp_proof) = Some smp_second"
    "attempt_no_value (pf_attempt_no smp_proof) < attempt_no_value (wl_attempt_no smp_second)"
    by (simp_all add: find_lease_def lease_key_def smp_second_def smp_lease_def smp_proof_def)
  from superseded_proof_never_authoritative [OF smp_state_taken this(1) _ rtranclp.rtrancl_refl a] this(2)
  show ?thesis using a by blast
qed

text \<open>C16: At most one holder: two proofs for the same run that the same tables both report as
  authoritative agree on the worker, the claim, the attempt and the digest of the token.\<close>

theorem one_authoritative_holder:
  assumes "lease_state db ls rs"
    and "get_authority schema db p clock fault = Inr a" and "au_authoritative a"
    and "get_authority schema' db q clock' fault' = Inr b" and "au_authoritative b"
    and "pf_tenant_id p = pf_tenant_id q" and "pf_run_id p = pf_run_id q"
  shows "pf_worker_id p = pf_worker_id q \<and> pf_claim_id p = pf_claim_id q \<and>
    pf_attempt_no p = pf_attempt_no q \<and>
    digest_lease_token (pf_token p) = digest_lease_token (pf_token q)"
  using get_authority_authoritative [OF assms(2,3,1)] get_authority_authoritative [OF assms(4,5,1)]
    assms(6,7) by auto

theorem one_authoritative_holder_witness:
  "pf_attempt_no smp_proof = pf_attempt_no smp_proof \<and> au_authoritative smp_current"
  using one_authoritative_holder [OF smp_state_claimed smp_authority _ smp_authority]
  by (simp add: smp_current_def)

text \<open>C17: A claim gives a run a new owner only when its previous lease was released or had expired
  at the clock reading that becomes the new acquisition time; the new lease is the next attempt
  and version, belongs to the command and lasts exactly the requested duration.\<close>

theorem claim_takes_over_only_free_leases:
  assumes "lease_state (cs_write_db sched) ls rs" and "claim_command_ok cmd" and "token_ok token"
    and "claim_locked le cmd sched"
    and "claim le schema cmd token sched race = Some (db', result)"
    and "load_lease_for_update (cs_write_db sched) t r = Inr before"
    and "load_lease_for_update db' t r = Inr (Some l)" and "before \<noteq> Some l"
  shows "t = clm_tenant_id cmd \<and> wl_worker_id l = clm_worker_id cmd \<and>
    wl_claim_id l = clm_claim_id cmd \<and> wl_token_digest l = digest_lease_token token \<and>
    wl_released_at l = None \<and>
    instant (wl_lease_expires_at l) = instant (wl_acquired_at l) + seconds (duration_seconds (clm_duration cmd)) \<and>
    (case before of
       None \<Rightarrow> attempt_no_value (wl_attempt_no l) = 1 \<and> lease_version_value (wl_lease_version l) = 1
     | Some m \<Rightarrow>
         (wl_released_at m \<noteq> None \<or> instant (wl_lease_expires_at m) \<le> instant (wl_acquired_at l)) \<and>
         attempt_no_value (wl_attempt_no l) = attempt_no_value (wl_attempt_no m) + 1 \<and>
         lease_version_value (wl_lease_version l) = lease_version_value (wl_lease_version m) + 1)"
proof -
  from claim_state [OF assms(1-5)] obtain ls' new where
    s: "lease_state db' ls' (rs @ new)" and
    eff: "(new = [] \<and> ls' = ls \<and> db' = cs_write_db sched) \<or>
      (\<exists>now target c. claim_selection le cmd sched now = Some (Inr (target, c)) \<and>
        claim_effect cmd token target ls ls' new)" by metis
  have b: "find_lease ls t r = before" "find_lease ls' t r = Some l"
    using assms(1,6,7) s load_lease_stored by (auto simp: lease_state_def)
  with eff assms(8) obtain now tg c m where
    sel: "claim_selection le cmd sched now = Some (Inr (Some tg, c))" and
    m: "claimed_lease cmd token tg = Inr m" "ls' = put_or_add (ct_current tg) m ls"
    by (auto simp: claim_effect_def split: option.splits)
  have cur: "find_lease ls (clm_tenant_id cmd) (ct_run_id tg) = ct_current tg"
    using selection_target(3) [OF sel assms(4)] assms(1) load_lease_stored by (auto simp: lease_state_def)
  have av: "lease_available (ct_current tg) (ct_now tg)"
    using selection_target(1) [OF sel] by (simp add: target_ok_def)
  note mf = claimed_lease_Inr [OF m(1)]
  have "lease_key m = (t, r) \<and> l = m"
    using b m(2) assms(8) by (auto simp: put_or_add_def find_lease_append find_lease_put
        split: option.splits if_splits)
  then show ?thesis
    using mf cur b(1) av
    by (auto simp: lease_key_def next_attempt_Inr next_version_Inr lease_available_def
        datetime_add_Inr split: option.splits)
qed

theorem claim_takes_over_only_free_leases_witness:
  "attempt_no_value (wl_attempt_no smp_lease) = 1 \<and> wl_worker_id smp_lease = clm_worker_id smp_command"
proof -
  have "lease_state (cs_write_db (smp_schedule smp_empty None)) [] []"
    by (simp add: smp_schedule_select smp_state_empty)
  moreover have "load_lease_for_update (cs_write_db (smp_schedule smp_empty None)) (TenantId ''t1'')
      (RunId ''run-1'') = Inr None"
    by (simp add: smp_schedule_select load_lease_for_update_def lease_at_def smp_empty_def)
  moreover have "load_lease_for_update smp_claimed (TenantId ''t1'') (RunId ''run-1'') = Inr (Some smp_lease)"
    by (simp add: load_lease_stored [OF smp_stores_claimed] find_lease_def lease_key_def smp_lease_def)
  ultimately show ?thesis
    using claim_takes_over_only_free_leases [OF _ smp_command_ok smp_locked smp_claim] by fastforce
qed

text \<open>C18: A claim that was answered is answered again with the same grant: after any further
  operations on the tables, repeating the command within the replay window returns the same
  outcome, run, attempt, token and expiry, marked as replayed, and leaves the tables as they are.\<close>

theorem claim_replay_returns_same_grant:
  assumes "lease_state (cs_write_db s1) ls rs" and "claim_command_ok cmd" and "token_ok token"
    and "claim_locked le cmd s1" and "clocks_exist s1"
    and "claim le schema cmd token s1 race = Some (db1, Inr ex)"
    and "\<not> lco_replayed (ce_outcome ex)"
    and "(lease_step le)\<^sup>*\<^sup>* db1 db"
    and "cs_receipt_db s2 = db" and "cs_authority_db s2 = db" and "cs_write_db s2 = db"
    and "cs_fault s2 = None" and "cs_request_now s2 = Aware w off"
    and "validate_claim_age (clm_claim_id cmd) (Aware w off) = Inr ()"
  shows "\<exists>ex'. claim le (Inr ()) cmd token' s2 race' = Some (db, Inr ex') \<and>
    lco_replayed (ce_outcome ex') \<and> lco_code (ce_outcome ex') = lco_code (ce_outcome ex) \<and>
    map_option (\<lambda>g. g\<lparr>gr_currently_authoritative := False\<rparr>) (lco_grant (ce_outcome ex')) =
      map_option (\<lambda>g. g\<lparr>gr_currently_authoritative := False\<rparr>) (lco_grant (ce_outcome ex))"
proof -
  from fresh_claim_answer [OF assms(1-4,6,7)] obtain ls1 r where
    s1: "lease_state db1 ls1 (rs @ [r])" and r: "stored_intent r = cmd" "answers r (ce_outcome ex)" and
    sel: "\<exists>now target c. claim_selection le cmd s1 now = Some (Inr (target, c)) \<and>
        claim_effect cmd token target ls ls1 [r]" .
  from lease_steps_state [OF assms(8) s1] obtain ls2 new where
    s2: "lease_state db ls2 ((rs @ [r]) @ new)" by metis
  have grant: "\<exists>g. grant_from_receipt r b = Inr g" if "cr_outcome r = StoredClaimed" for b
    using sel that assms(2,5) claimed_grant_exists
    by (fastforce simp: claim_effect_def dest: no_work_receipt_Inr selection_target(2)
        split: option.splits)
  have rs: "r \<in> set ((rs @ [r]) @ new)" by simp
  then have rok: "claim_receipt_record_ok r" using s2 by (auto simp: lease_state_def stores_def)
  from replay_outcome [OF s2 rok r(2) grant, of "Aware w off"] obtain out where
    out: "outcome_from_receipt db r (Aware w off) True = Inr out" "lco_replayed out" "answers r out"
    by auto
  have "claim_arbitration cmd s2 = Inr (Aware w off, Some out)"
    using assms(9-14) load_stored_receipt [OF s2 rs r(1)] out(1)
    by (simp add: claim_arbitration_def fault_in_def)
  then have "claim le (Inr ()) cmd token' s2 race' =
      Some (db, Inr \<lparr>ce_outcome = out, ce_contended = False\<rparr>)"
    using assms(11,12) by (simp add: claim_def claim_transaction_def claim_body_def commit_fault_def)
  with out(2) answers_same_proof [OF r(2) out(3)] show ?thesis by simp
qed

text \<open>The same claim repeated on the tables it wrote.\<close>

theorem claim_replay_returns_same_grant_witness:
  "\<exists>ex. claim code_point_le (Inr ()) smp_command smp_token (smp_schedule smp_claimed None) smp_race =
     Some (smp_claimed, Inr ex) \<and> lco_replayed (ce_outcome ex) \<and> lco_grant (ce_outcome ex) \<noteq> None"
proof -
  let ?s1 = "smp_schedule smp_empty None" and ?s2 = "smp_schedule smp_claimed None"
  have s1: "lease_state (cs_write_db ?s1) [] []" "clocks_exist ?s1"
    by (simp_all add: smp_schedule_select smp_state_empty clocks_exist_def)
      (simp add: smp_schedule_def smp_iteration_def smp_now_def in_range_def min_wall_def max_wall_def)
  have s2: "cs_receipt_db ?s2 = smp_claimed" "cs_authority_db ?s2 = smp_claimed"
    "cs_write_db ?s2 = smp_claimed" "cs_fault ?s2 = None" "cs_request_now ?s2 = Aware smp_now 0"
    by (simp_all add: smp_schedule_def)
  have age: "validate_claim_age (clm_claim_id smp_command) (Aware smp_now 0) = Inr ()"
    using smp_age by (simp add: smp_command_def)
  have e: "\<not> lco_replayed (ce_outcome smp_execution)" "lco_grant (ce_outcome smp_execution) \<noteq> None"
    by (simp_all add: smp_execution_def)
  from claim_replay_returns_same_grant [OF s1(1) smp_command_ok smp_locked s1(2) smp_claim e(1)
      rtranclp.rtrancl_refl s2 age, of smp_token smp_race] e(2)
  show ?thesis by auto
qed

text \<open>C19: On a stored lease a renewal or a release returns that it was applied exactly when the proof
  names the lease (worker, claim, attempt and token), the lease is not released, the version is the expected one,
  the run exists, and, for a renewal and for the release of an active run, the lease has not expired at the
  clock reading; a renewal also needs the active run. Then the lease advances by one version and is extended
  from that reading or released, and only a renewal leaves authority; otherwise the tables do not change.
  Without a storage fault it returns, unless it is allowed but the version cannot be counted on, the clock is
  behind the acquisition, or the new expiry is past the year 9999.\<close>

theorem mutation_applies_its_effect:
  assumes "lease_state (ms_write_db sched) ls rs" and "conditional_command_ok cmd"
    and "mutation_locked cmd sched" and "is_utc (ms_now sched)" and "in_range (wall (ms_now sched))"
    and "load_lease_for_update (ms_write_db sched) (pf_tenant_id (command_proof cmd))
      (pf_run_id (command_proof cmd)) = Inr (Some l)"
    and "allowed = mutation_allowed cmd (run_status_at (ms_write_db sched) (pf_tenant_id (command_proof cmd))
      (pf_run_id (command_proof cmd))) (ms_now sched) l"
    and "conditional_mutation cmd sched = (db', result)"
  shows "case result of
      Inr out \<Rightarrow> cl_applied out = allowed \<and>
        (if allowed
         then au_authoritative (cl_authority out) = is_renewal cmd \<and>
           (\<exists>l'. mutation_effect cmd (ms_now sched) l l' \<and>
             load_lease_for_update db' (pf_tenant_id (command_proof cmd)) (pf_run_id (command_proof cmd)) =
               Inr (Some l'))
         else db' = ms_write_db sched)
    | Inl x \<Rightarrow> ms_fault sched = None \<longrightarrow>
        allowed \<and> \<not> mutation_possible cmd (ms_now sched) l \<and> db' = ms_write_db sched"
proof -
  have st: "stores (ms_write_db sched) ls rs" and d: "distinct (map lease_key ls)"
    using assms(1) by (simp_all add: lease_state_def)
  have l: "find_lease ls (pf_tenant_id (command_proof cmd)) (pf_run_id (command_proof cmd)) = Some l"
    using assms(6) load_lease_stored [OF st] by simp
  have after: "load_lease_for_update db' (pf_tenant_id (command_proof cmd)) (pf_run_id (command_proof cmd)) =
      Inr (Some l')"
    if "mutation_effect cmd (ms_now sched) l l'" "lease_state db' (put_lease l' ls) rs" for l'
    using l that(2) load_lease_stored [of db' "put_lease l' ls" rs] find_lease_Some [OF l]
      mutation_effect_key [OF that(1)]
    by (simp add: lease_state_def find_lease_put lease_key_def)
  show ?thesis
  proof (cases result)
    case (Inr out)
    then obtain phase db2 where body: "conditional_body cmd sched = Inr (phase, db2, out)"
      using assms(8) by (auto simp: conditional_mutation_def split: sum.splits option.splits if_splits)
    from conditional_body_applied [OF st assms(3) l assms(4) body HOL.refl] assms(7)
    have "cl_applied out = allowed" "allowed \<longrightarrow> au_authoritative (cl_authority out) = is_renewal cmd" by auto
    with Inr conditional_mutation_state [OF assms(1-3,8)] l after show ?thesis by auto
  next
    case (Inl x)
    show ?thesis
    proof (cases "\<exists>res. conditional_body cmd sched = Inr res")
      case True
      then have "ms_fault sched \<noteq> None"
        using Inl assms(8) by (auto simp: conditional_mutation_def commit_fault_def split: option.splits if_splits)
      with Inl show ?thesis by auto
    next
      case False
      then have "db' = ms_write_db sched"
        using assms(8) by (auto simp: conditional_mutation_def split: sum.splits)
      with Inl False conditional_body_returns [OF st d assms(2,3) l assms(4,5)] assms(7) show ?thesis by auto
    qed
  qed
qed

definition smp_renew :: conditional_command where
  "smp_renew = RenewCommand \<lparr>rnw_proof = smp_proof, rnw_expected_version = LeaseVersion 1,
     rnw_duration = LeaseDurationSeconds 20\<rparr>"

definition smp_mutation :: "lease_db \<Rightarrow> mutation_schedule" where
  "smp_mutation db = \<lparr>ms_status_db = db, ms_lease_db = db, ms_now = Utc (smp_now + 1000000),
     ms_write_db = db, ms_fault = None\<rparr>"

lemma smp_mutation_locked: "mutation_locked cmd (smp_mutation db)"
  by (simp add: mutation_locked_def smp_mutation_def)

definition smp_release :: conditional_command where
  "smp_release = ReleaseCommand \<lparr>rls_proof = smp_proof, rls_expected_version = LeaseVersion 1\<rparr>"

definition smp_late :: mutation_schedule where
  "smp_late = (smp_mutation smp_claimed)\<lparr>ms_now := Utc (smp_now + 30000000)\<rparr>"

lemma smp_mutation_allowed:
  "mutation_allowed smp_renew (Some ''queued'') (Utc (smp_now + 1000000)) smp_lease"
  "mutation_possible smp_renew (Utc (smp_now + 1000000)) smp_lease"
  "\<not> mutation_allowed smp_release (Some ''queued'') (Utc (smp_now + 30000000)) smp_lease"
  by (simp_all add: mutation_allowed_def mutation_possible_def proof_names_lease_def smp_renew_def smp_release_def
      smp_proof_def smp_lease_def max_signed_bigint_def in_range_def min_wall_def max_wall_def smp_now_def)

text \<open>The renewal is applied; the release at the moment of expiry is not, although the proof is right.\<close>

theorem mutation_applies_its_effect_witness:
  "(\<exists>db' out. conditional_mutation smp_renew (smp_mutation smp_claimed) = (db', Inr out) \<and> cl_applied out) \<and>
   (\<exists>out. conditional_mutation smp_release smp_late = (smp_claimed, Inr out) \<and> \<not> cl_applied out)"
proof -
  have status: "run_status_at smp_claimed (TenantId ''t1'') (RunId ''run-1'') = Some ''queued''"
    by (simp add: run_status_at_def smp_claimed_def smp_empty_def)
  have key: "pf_tenant_id (command_proof smp_renew) = TenantId ''t1''" "pf_run_id (command_proof smp_renew) = RunId ''run-1''"
    "pf_tenant_id (command_proof smp_release) = TenantId ''t1''" "pf_run_id (command_proof smp_release) = RunId ''run-1''"
    by (simp_all add: smp_renew_def smp_release_def smp_proof_def)
  have load: "load_lease_for_update smp_claimed (TenantId ''t1'') (RunId ''run-1'') = Inr (Some smp_lease)"
    by (simp add: load_lease_stored [OF smp_stores_claimed] find_lease_def lease_key_def) (simp add: smp_lease_def)
  have sched: "ms_write_db (smp_mutation smp_claimed) = smp_claimed" "ms_write_db smp_late = smp_claimed"
    "ms_now (smp_mutation smp_claimed) = Utc (smp_now + 1000000)" "ms_now smp_late = Utc (smp_now + 30000000)"
    "ms_fault (smp_mutation smp_claimed) = None" "ms_fault smp_late = None"
    by (simp_all add: smp_mutation_def smp_late_def)
  have clock: "in_range (smp_now + 1000000)" "in_range (smp_now + 30000000)"
    by (simp_all add: in_range_def min_wall_def max_wall_def smp_now_def)
  have ok: "conditional_command_ok smp_renew" "conditional_command_ok smp_release"
    by (simp_all add: smp_renew_def smp_release_def lease_duration_ok_def min_lease_duration_seconds_def
        max_lease_duration_seconds_def)
  have locked: "mutation_locked smp_release smp_late"
    by (simp add: mutation_locked_def smp_late_def smp_mutation_def)
  obtain db1 res1 where 1: "conditional_mutation smp_renew (smp_mutation smp_claimed) = (db1, res1)" by fastforce
  obtain db2 res2 where 2: "conditional_mutation smp_release smp_late = (db2, res2)" by fastforce
  have "\<exists>out. res1 = Inr out \<and> cl_applied out"
    using mutation_applies_its_effect [OF _ ok(1) smp_mutation_locked _ _ _ HOL.refl 1, of "[smp_lease]" "[smp_receipt]" smp_lease]
      smp_state_claimed smp_mutation_allowed
    by (cases res1) (simp_all add: sched key load status clock)
  moreover have "\<exists>out. res2 = Inr out \<and> \<not> cl_applied out \<and> db2 = smp_claimed"
    using mutation_applies_its_effect [OF _ ok(2) locked _ _ _ HOL.refl 2, of "[smp_lease]" "[smp_receipt]" smp_lease]
      smp_state_claimed smp_mutation_allowed(3)
    by (cases res2) (simp_all add: sched key load status clock)
  ultimately show ?thesis using 1 2 by blast
qed

end
