(* ===== verification/Json_Codec.thy ===== *)
theory Json_Codec
  imports Events
begin

section \<open>The canonical JSON of stored records\<close>

text \<open>
  The generic part of \<open>src/zhiyi/adapters/persistence/postgresql_codecs.py\<close>: integers of any size as
  decimal text in chunks of nine digits, the canonical JSON text of a Python value, and its reader
  (\<open>json.loads\<close> with the code's hooks). Every failure of the reader is a \<open>ValueError\<close>. The
  characters of the model are the code points below 256, so an escape of another code point
  is refused; the interpreter's recursion limit is not modelled.
\<close>

subsection \<open>Integers\<close>

definition codec_base :: nat where
  "codec_base = 1000000000"

definition chunk_digits :: nat where
  "chunk_digits = 9"

text \<open>The loop \<open>remaining, chunk = divmod(remaining, _BASE)\<close>, and the text of a chunk.\<close>

function integer_chunks :: "nat \<Rightarrow> nat list" where
  "integer_chunks n =
     (if n = 0 then [] else n mod codec_base # integer_chunks (n div codec_base))"
  by pat_completeness auto
termination
  by (relation "measure id") (simp_all add: codec_base_def)

declare integer_chunks.simps [simp del]

definition chunk_text :: "nat \<Rightarrow> string" where
  "chunk_text c = replicate (chunk_digits - length (nat_text c)) CHR ''0'' @ nat_text c"

definition encode_canonical_integer :: "int \<Rightarrow> string" where
  "encode_canonical_integer v =
     (if v = 0 then ''0''
      else let chunks = integer_chunks (nat \<bar>v\<bar>) in
        (if v < 0 then ''-'' else '''') @ nat_text (last chunks) @
        concat (map chunk_text (rev (butlast chunks))))"

text \<open>\<open>_INTEGER_PATTERN\<close>: \<open>(?:0|-?[1-9][0-9]*)\<close>, matched in full.\<close>

fun positive_digits :: "string \<Rightarrow> bool" where
  "positive_digits [] = False"
| "positive_digits (c # cs) = (is_digit c \<and> c \<noteq> CHR ''0'' \<and> list_all is_digit cs)"

definition integer_pattern :: "string \<Rightarrow> bool" where
  "integer_pattern s \<longleftrightarrow>
     s = ''0'' \<or> positive_digits (if starts_with ''-'' s then tl s else s)"

text \<open>The loop over the positions; \<open>int\<close> reads at most nine digits at a time.\<close>

function read_chunks_of :: "nat \<Rightarrow> string \<Rightarrow> nat" where
  "read_chunks_of result s =
     (if s = [] then result
      else read_chunks_of (result * 10 ^ length (take chunk_digits s) + text_value (take chunk_digits s))
        (drop chunk_digits s))"
  by pat_completeness auto
termination
  by (relation "measure (length \<circ> snd)") (simp_all add: chunk_digits_def)

declare read_chunks_of.simps [simp del]

definition decode_canonical_integer :: "string \<Rightarrow> exn + int" where
  "decode_canonical_integer s =
     (if \<not> integer_pattern s then Inl ValueError
      else let negative = starts_with ''-'' s;
               digits = (if negative then tl s else s);
               first_size = (if length digits mod chunk_digits = 0 then chunk_digits
                 else length digits mod chunk_digits);
               result = read_chunks_of (text_value (take first_size digits)) (drop first_size digits)
           in Inr (if negative then - int result else int result))"

text \<open>
  The reference: \<open>str(v)\<close> and \<open>int(s)\<close> without a limit on the number of digits.
\<close>

definition integer_text :: "int \<Rightarrow> string" where
  "integer_text v = (if v < 0 then CHR ''-'' # nat_text (nat (- v)) else nat_text (nat v))"

definition integer_value :: "string \<Rightarrow> int" where
  "integer_value s =
     (if starts_with ''-'' s then - int (text_value (tl s)) else int (text_value s))"

lemma nat_text_0 [simp]: "nat_text 0 = ''0''"
  by code_simp

lemma length_nat_digits: "m < 10 ^ k \<Longrightarrow> 0 < k \<Longrightarrow> length (nat_digits m) \<le> k"
proof (induction m arbitrary: k rule: nat_digits.induct)
  case (1 m)
  show ?case
  proof (cases "m < 10")
    case True
    with 1 show ?thesis by (simp add: nat_digits.simps [of m])
  next
    case False
    with "1.prems" obtain l where k: "k = Suc l" and l: "0 < l"
      by (cases k; cases "k - 1") auto
    with "1.prems" have "m div 10 < 10 ^ l" by (simp add: div_less_iff_less_mult mult.commute)
    from "1.IH" [OF False this l] False k show ?thesis by (simp add: nat_digits.simps [of m])
  qed
qed

lemma nat_digits_split:
  assumes "0 < k" and "10 ^ k \<le> n"
  shows "nat_digits n = nat_digits (n div 10 ^ k) @
    replicate (k - length (nat_digits (n mod 10 ^ k))) 0 @ nat_digits (n mod 10 ^ k)"
    (is "_ = ?ds")
proof -
  have len: "length (nat_digits (n mod 10 ^ k)) \<le> k"
    using assms(1) by (intro length_nat_digits) simp_all
  have "digits_value ?ds = n"
    using len by (simp add: digits_value_append power_add [symmetric] div_mult_mod_eq)
  moreover have "0 < n div 10 ^ k" using assms by (simp add: div_greater_zero_iff)
  then have "0 < hd ?ds" by (simp add: hd_nat_digits)
  moreover have "d < 10" if "d \<in> set ?ds" for d
    using that by (auto dest: nat_digits_small)
  ultimately show ?thesis using nat_digits_unique [of ?ds] by simp
qed

lemma chunk_text_eq:
  "0 < n \<Longrightarrow> codec_base \<le> n \<Longrightarrow>
     nat_text n = nat_text (n div codec_base) @ chunk_text (n mod codec_base)"
  using nat_digits_split [of chunk_digits n]
  by (simp add: nat_text_def chunk_text_def chunk_digits_def codec_base_def)

lemma integer_chunks_text:
  "0 < n \<Longrightarrow> integer_chunks n \<noteq> [] \<and>
     nat_text (last (integer_chunks n)) @ concat (map chunk_text (rev (butlast (integer_chunks n)))) =
       nat_text n"
proof (induction n rule: integer_chunks.induct)
  case (1 n)
  show ?case
  proof (cases "n < codec_base")
    case True
    with "1.prems" show ?thesis by (simp add: integer_chunks.simps [of n] integer_chunks.simps [of 0])
  next
    case False
    then have "0 < n div codec_base" by (simp add: div_greater_zero_iff codec_base_def)
    with "1.IH" "1.prems" False chunk_text_eq [of n] show ?thesis
      by (auto simp: integer_chunks.simps [of n])
  qed
qed

theorem encode_canonical_integer_eq: "encode_canonical_integer v = integer_text v"
proof (cases "v = 0")
  case True
  then show ?thesis by (simp add: encode_canonical_integer_def integer_text_def)
next
  case False
  then show ?thesis
    using integer_chunks_text [of "nat \<bar>v\<bar>"]
    by (auto simp: encode_canonical_integer_def integer_text_def Let_def)
qed

lemma text_value_split:
  "text_value s = text_value (take k s) * 10 ^ (length s - k) + text_value (drop k s)"
  using text_value_append [of "take k s" "drop k s"] by simp

lemma read_chunks_of_eq: "read_chunks_of result s = result * 10 ^ length s + text_value s"
proof (induction result s rule: read_chunks_of.induct)
  case (1 result s)
  show ?case
  proof (cases "s = []")
    case False
    note text_value_split [of s chunk_digits]
    moreover have "(10 :: nat) ^ length s = 10 ^ length (take chunk_digits s) * 10 ^ length (drop chunk_digits s)"
      by (metis append_take_drop_id length_append power_add)
    ultimately show ?thesis
      using "1.IH" [OF False] False by (simp add: read_chunks_of.simps [of result s] algebra_simps)
  qed (simp add: read_chunks_of.simps [of result "[]"])
qed

lemma decode_canonical_integer_eq:
  "decode_canonical_integer s = (if integer_pattern s then Inr (integer_value s) else Inl ValueError)"
  unfolding decode_canonical_integer_def Let_def read_chunks_of_eq length_drop
    text_value_split [symmetric] integer_value_def
  by simp

lemma positive_digits_text: "positive_digits s \<Longrightarrow> nat_text (text_value s) = s \<and> 0 < text_value s"
proof -
  assume s: "positive_digits s"
  let ?ds = "map digit_value s"
  obtain c cs where c: "s = c # cs" "is_digit c" "c \<noteq> CHR ''0''" "list_all is_digit cs"
    using s by (cases s) auto
  then have hd: "0 < hd ?ds"
    by (metis digit_char_0 digit_char_value gr0I list.map_sel(1) list.sel(1) list.simps(3))
  have digits: "d < 10" if "d \<in> set ?ds" for d
    using that c by (auto simp: list_all_iff)
  have unique: "nat_digits (digits_value ?ds) = ?ds"
    using c hd digits by (intro nat_digits_unique) simp_all
  have "map digit_char ?ds = s"
    using c by (auto simp: list_all_iff intro!: map_idI)
  then have "nat_text (text_value s) = s" by (simp add: nat_text_def text_value_def unique)
  moreover have "text_value s \<noteq> 0"
  proof
    assume "text_value s = 0"
    with unique have "?ds = [0]" by (simp add: text_value_def nat_digits.simps [of 0])
    with hd show False by simp
  qed
  ultimately show ?thesis by simp
qed

lemma nat_text_positive: "0 < n \<Longrightarrow> positive_digits (nat_text n)"
proof -
  assume n: "0 < n"
  obtain d ds where ds: "nat_digits n = d # ds" by (cases "nat_digits n") simp_all
  have small: "list_all (\<lambda>d. d < 10) (nat_digits n)"
    by (auto simp: list_all_iff dest: nat_digits_small)
  have "0 < d" using hd_nat_digits [OF n] ds by simp
  with small ds show ?thesis
    by (auto simp: nat_text_def digit_char_eq_0 list_all_iff)
qed

lemma digit_not_minus: "is_digit c \<Longrightarrow> c \<noteq> CHR ''-''"
  by (auto simp: char_class_defs)

lemma positive_digits_unsigned: "positive_digits s \<Longrightarrow> \<not> starts_with ''-'' s"
  by (cases s) (auto dest: digit_not_minus)

lemma integer_text_pattern: "integer_pattern (integer_text v) \<and> integer_value (integer_text v) = v"
proof -
  consider "v < 0" | "v = 0" | "0 < v" by linarith
  then show ?thesis
  proof cases
    case 1
    then show ?thesis
      using nat_text_positive [of "nat (- v)"]
      by (simp add: integer_text_def integer_pattern_def integer_value_def)
  next
    case 2
    have "text_value ''0'' = 0" using text_value_zeros [of 1] by simp
    with 2 show ?thesis by (simp add: integer_text_def integer_pattern_def integer_value_def)
  next
    case 3
    then show ?thesis
      using nat_text_positive [of "nat v"] positive_digits_unsigned [of "nat_text (nat v)"]
      by (simp add: integer_text_def integer_pattern_def integer_value_def)
  qed
qed

lemma integer_pattern_text: "integer_pattern s \<Longrightarrow> integer_text (integer_value s) = s"
proof -
  assume s: "integer_pattern s"
  have zero: "text_value ''0'' = 0" using text_value_zeros [of 1] by simp
  have "\<exists>t. s = CHR ''-'' # t" if "starts_with ''-'' s" using that by (cases s) auto
  then consider "s = ''0''" | t where "s = CHR ''-'' # t" "positive_digits t"
    | "positive_digits s" "\<not> starts_with ''-'' s"
    using s unfolding integer_pattern_def by (metis list.sel(3))
  then show ?thesis
  proof cases
    case (2 t)
    with positive_digits_text [of t] show ?thesis by (simp add: integer_text_def integer_value_def)
  next
    case 3
    with positive_digits_text [of s] show ?thesis by (simp add: integer_text_def integer_value_def)
  qed (simp add: integer_text_def integer_value_def zero)
qed

lemma decode_encode_integer [simp]:
  "decode_canonical_integer (encode_canonical_integer v) = Inr v"
  by (simp add: decode_canonical_integer_eq encode_canonical_integer_eq integer_text_pattern)

subsection \<open>Printing\<close>

fun dict_key :: "py_value \<Rightarrow> string" where
  "dict_key (PStr s) = s"
| "dict_key _ = []"

fun is_pstr :: "py_value \<Rightarrow> bool" where
  "is_pstr (PStr s) = True"
| "is_pstr _ = False"

lemma size_py_entry: "kv \<in> set kvs \<Longrightarrow> size (snd kv) < Suc (size_list (size_prod size size) kvs)"
proof -
  assume "kv \<in> set kvs"
  then have "size_prod size size kv \<le> size_list (size_prod size size) kvs"
    by (rule size_list_estimation') simp
  moreover have "size (snd kv) < size_prod size size kv"
    by (simp add: prod.size_gen(1) [of size size "fst kv" "snd kv", simplified])
  ultimately show ?thesis by simp
qed

lemma size_py_item: "v \<in> set vs \<Longrightarrow> size v < Suc (size_list size vs)"
  using size_list_estimation' [of v vs "size v" size] by simp

function (sequential) encode_canonical_json :: "py_value \<Rightarrow> exn + string" where
  "encode_canonical_json PNone = Inr ''null''"
| "encode_canonical_json (PBool b) = Inr (if b then ''true'' else ''false'')"
| "encode_canonical_json (PInt i) = Inr (encode_canonical_integer i)"
| "encode_canonical_json (PStr s) = Inr (plain_string s)"
| "encode_canonical_json (PDict kvs) =
     (if \<not> list_all (\<lambda>kv. is_pstr (fst kv)) kvs then Inl TypeError
      else result_bind
        (traverse (\<lambda>kv. result_bind (encode_canonical_json (snd kv)) (\<lambda>t.
           Inr (plain_string (dict_key (fst kv)) @ '':'' @ t))) (sort_key (dict_key \<circ> fst) kvs))
        (\<lambda>ts. Inr (''{'' @ join '','' ts @ ''}'')))"
| "encode_canonical_json (PList vs) =
     result_bind (traverse encode_canonical_json vs) (\<lambda>ts. Inr (''['' @ join '','' ts @ '']''))"
| "encode_canonical_json (PTuple vs) =
     result_bind (traverse encode_canonical_json vs) (\<lambda>ts. Inr (''['' @ join '','' ts @ '']''))"
| "encode_canonical_json POther = Inl TypeError"
  by pat_completeness auto
termination
  by (relation "measure size") (auto dest: size_py_entry size_py_item)

subsection \<open>Reading\<close>

definition is_json_space :: "char \<Rightarrow> bool" where
  "is_json_space c \<longleftrightarrow> of_char c \<in> {9, 10, 13, 32 :: nat}"

definition skip_space :: "string \<Rightarrow> string" where
  "skip_space s = dropWhile is_json_space s"

definition hex_digit_value :: "char \<Rightarrow> nat option" where
  "hex_digit_value c =
     (if is_digit c then Some (digit_value c)
      else if char_in CHR ''a'' CHR ''f'' c then Some (of_char c - 87)
      else if char_in CHR ''A'' CHR ''F'' c then Some (of_char c - 55)
      else None)"

fun hex_value :: "nat \<Rightarrow> string \<Rightarrow> nat option" where
  "hex_value acc [] = Some acc"
| "hex_value acc (c # cs) = (case hex_digit_value c of
      None \<Rightarrow> None
    | Some d \<Rightarrow> hex_value (16 * acc + d) cs)"

definition escape_table :: "(char \<times> char) list" where
  "escape_table = [(CHR 0x22, CHR 0x22), (CHR 0x5C, CHR 0x5C), (CHR ''/'', CHR ''/''),
     (CHR ''b'', CHR 0x08), (CHR ''f'', CHR 0x0C), (CHR ''n'', CHR 0x0A), (CHR ''r'', CHR 0x0D),
     (CHR ''t'', CHR 0x09)]"

text \<open>One character of a string literal, its terminator excluded: the character and the rest.\<close>

definition scan_char :: "string \<Rightarrow> (char \<times> string) option" where
  "scan_char s = (case s of
      [] \<Rightarrow> None
    | c # rest \<Rightarrow>
        if c = CHR 0x5C then
          (case rest of
             [] \<Rightarrow> None
           | e # after \<Rightarrow>
               if e = CHR ''u'' then
                 (if length after < 4 then None
                  else (case hex_value 0 (take 4 after) of
                      Some n \<Rightarrow> if n < 256 then Some (char_of n, drop 4 after) else None
                    | None \<Rightarrow> None))
               else map_option (\<lambda>d. (d, after)) (map_of escape_table e))
        else if of_char c < (32 :: nat) then None
        else Some (c, rest))"

lemma scan_char_shorter: "scan_char s = Some (c, rest) \<Longrightarrow> length rest < length s"
  by (auto simp: scan_char_def split: list.splits if_splits option.splits)

text \<open>The rest of a string literal after its opening quote.\<close>

function scan_string :: "string \<Rightarrow> (string \<times> string) option" where
  "scan_string s =
     (if s \<noteq> [] \<and> hd s = CHR 0x22 then Some ([], tl s)
      else (case scan_char s of
          None \<Rightarrow> None
        | Some (c, rest) \<Rightarrow> map_option (\<lambda>(cs, after). (c # cs, after)) (scan_string rest)))"
  by pat_completeness auto
termination
  by (relation "measure length") (auto dest: scan_char_shorter)

declare scan_string.simps [simp del]

text \<open>
  An integer literal. A fraction or an exponent after it would make \<open>parse_float\<close> refuse the number;
  without reading them the text is refused as well, since neither can follow a value.
\<close>

definition scan_number :: "string \<Rightarrow> (string \<times> string) option" where
  "scan_number s =
     (let sign = (if starts_with ''-'' s then ''-'' else []); body = drop (length sign) s in
      if body = [] \<or> \<not> is_digit (hd body) then None
      else if hd body = CHR ''0'' then Some (sign @ ''0'', tl body)
      else Some (sign @ takeWhile is_digit body, dropWhile is_digit body))"

definition parse_scalar :: "string \<Rightarrow> (py_value \<times> string) option" where
  "parse_scalar s =
     (if starts_with ''null'' s then Some (PNone, drop 4 s)
      else if starts_with ''true'' s then Some (PBool True, drop 4 s)
      else if starts_with ''false'' s then Some (PBool False, drop 5 s)
      else (case scan_number s of
          None \<Rightarrow> None
        | Some (token, rest) \<Rightarrow>
            (case decode_canonical_integer token of
               Inl _ \<Rightarrow> None
             | Inr i \<Rightarrow> Some (PInt i, rest))))"

text \<open>\<open>_unique_object\<close>\<close>

definition unique_object :: "(string \<times> py_value) list \<Rightarrow> py_value option" where
  "unique_object pairs =
     (if distinct (map fst pairs) then Some (PDict (map (\<lambda>(k, v). (PStr k, v)) pairs)) else None)"

text \<open>
  The scanner, with a bound on its nested calls: twice the length of the text is enough
  (\<open>parse_fuel\<close> below). \<open>parse_items\<close> and \<open>parse_members\<close> read a non-empty array or object after its
  opening bracket.
\<close>

fun parse_value :: "nat \<Rightarrow> string \<Rightarrow> (py_value \<times> string) option"
and parse_items :: "nat \<Rightarrow> string \<Rightarrow> (py_value list \<times> string) option"
and parse_members :: "nat \<Rightarrow> string \<Rightarrow> ((string \<times> py_value) list \<times> string) option" where
  "parse_value 0 s = None"
| "parse_value (Suc n) s = (case s of
      [] \<Rightarrow> None
    | c # rest \<Rightarrow>
        if c = CHR 0x22 then map_option (\<lambda>(t, after). (PStr t, after)) (scan_string rest)
        else if c = CHR ''{'' then
          (let body = skip_space rest in
           if body \<noteq> [] \<and> hd body = CHR ''}'' then Some (PDict [], tl body)
           else (case parse_members n body of
               None \<Rightarrow> None
             | Some (pairs, after) \<Rightarrow> map_option (\<lambda>d. (d, after)) (unique_object pairs)))
        else if c = CHR ''['' then
          (let body = skip_space rest in
           if body \<noteq> [] \<and> hd body = CHR '']'' then Some (PList [], tl body)
           else map_option (\<lambda>(vs, after). (PList vs, after)) (parse_items n body))
        else parse_scalar s)"
| "parse_items 0 s = None"
| "parse_items (Suc n) s = (case parse_value n s of
      None \<Rightarrow> None
    | Some (v, after) \<Rightarrow> (case skip_space after of
          [] \<Rightarrow> None
        | c # rest \<Rightarrow>
            if c = CHR '']'' then Some ([v], rest)
            else if c = CHR '','' then
              map_option (\<lambda>(vs, end). (v # vs, end)) (parse_items n (skip_space rest))
            else None))"
| "parse_members 0 s = None"
| "parse_members (Suc n) s = (case s of
      [] \<Rightarrow> None
    | q # s1 \<Rightarrow>
        if q \<noteq> CHR 0x22 then None
        else (case scan_string s1 of
            None \<Rightarrow> None
          | Some (k, s2) \<Rightarrow> (case skip_space s2 of
                [] \<Rightarrow> None
              | c # s3 \<Rightarrow>
                  if c \<noteq> CHR '':'' then None
                  else (case parse_value n (skip_space s3) of
                      None \<Rightarrow> None
                    | Some (v, after) \<Rightarrow> (case skip_space after of
                          [] \<Rightarrow> None
                        | d # rest \<Rightarrow>
                            if d = CHR ''}'' then Some ([(k, v)], rest)
                            else if d = CHR '','' then
                              map_option (\<lambda>(kvs, end). ((k, v) # kvs, end))
                                (parse_members n (skip_space rest))
                            else None)))))"

declare parse_value.simps [simp del] parse_items.simps [simp del] parse_members.simps [simp del]

definition decode_canonical_json :: "string \<Rightarrow> exn + py_value" where
  "decode_canonical_json s =
     (case parse_value (2 * length s + 2) (skip_space s) of
        None \<Rightarrow> Inl ValueError
      | Some (v, after) \<Rightarrow> if skip_space after = [] then Inr v else Inl ValueError)"

end
