(* ===== verification/Json_Roundtrip.thy ===== *)
theory Json_Roundtrip
  imports Json_Codec
begin

section \<open>Reading back what the JSON codec wrote\<close>

text \<open>
  \<open>json_plain\<close> values are those the codec accepts: text keys, each once per dictionary. Reading the
  text of one gives its \<open>json_normal\<close> form: tuples have become lists, and the entries of a dictionary
  come in the order of their keys. \<open>parse_fuel\<close> shows that the bound of the scanner is never
  the reason for a refusal.
\<close>

function (sequential) json_plain :: "py_value \<Rightarrow> bool" where
  "json_plain (PDict kvs) = (list_all (\<lambda>kv. is_pstr (fst kv)) kvs \<and>
     distinct (map (dict_key \<circ> fst) kvs) \<and> list_all (\<lambda>kv. json_plain (snd kv)) kvs)"
| "json_plain (PList vs) = list_all json_plain vs"
| "json_plain (PTuple vs) = list_all json_plain vs"
| "json_plain POther = False"
| "json_plain _ = True"
  by pat_completeness auto
termination
  by (relation "measure size") (auto dest: size_py_entry size_py_item)

function (sequential) json_normal :: "py_value \<Rightarrow> py_value" where
  "json_normal (PDict kvs) =
     PDict (map (\<lambda>kv. (fst kv, json_normal (snd kv))) (sort_key (dict_key \<circ> fst) kvs))"
| "json_normal (PList vs) = PList (map json_normal vs)"
| "json_normal (PTuple vs) = PList (map json_normal vs)"
| "json_normal v = v"
  by pat_completeness auto
termination
  by (relation "measure size") (auto dest: size_py_entry size_py_item)

subsection \<open>String and integer literals\<close>

lemma hex_digit_back: "d < 16 \<Longrightarrow> hex_digit_value (hex_digit d) = Some d"
proof -
  have "list_all (\<lambda>d. hex_digit_value (hex_digit d) = Some d)
      [0, 1, 2, 3, 4, 5, 6, 7, 8, 9, 10, 11, 12, 13, 14, 15]" by code_simp
  moreover assume "d < 16"
  then have "d \<in> set [0, 1, 2, 3, 4, 5, 6, 7, 8, 9, 10, 11, 12, 13, 14, 15]" by simp arith
  ultimately show ?thesis unfolding list_all_iff by blast
qed

lemma hex4_value: "n < 32 \<Longrightarrow> hex_value 0 (hex4 n) = Some n"
  by (simp add: hex4_def hex_digit_back numeral_3_eq_3)

lemma length_hex4 [simp]: "length (hex4 n) = 4"
  by (simp add: hex4_def)

lemma char_of_nat_eq: "(of_char c :: nat) = n \<Longrightarrow> c = char_of n"
  by (metis char_of_char)

lemma escaped_chars [simp]:
  "char_of (34 :: nat) = CHR 0x22" "char_of (92 :: nat) = CHR 0x5C" "char_of (10 :: nat) = CHR 0x0A"
  "char_of (13 :: nat) = CHR 0x0D" "char_of (9 :: nat) = CHR 0x09" "char_of (12 :: nat) = CHR 0x0C"
  "char_of (8 :: nat) = CHR 0x08"
  by code_simp+

lemma scan_char_special:
  "c \<in> {CHR 0x22, CHR 0x5C, CHR 0x0A, CHR 0x0D, CHR 0x09, CHR 0x0C, CHR 0x08} \<Longrightarrow>
     scan_char (escape_plain c @ s) = Some (c, s)"
  by (elim insertE emptyE; simp add: escape_plain_def scan_char_def escape_table_def)

lemma special_codes:
  "of_char c \<in> {34, 92, 10, 13, 9, 12, 8 :: nat} \<Longrightarrow>
     c \<in> {CHR 0x22, CHR 0x5C, CHR 0x0A, CHR 0x0D, CHR 0x09, CHR 0x0C, CHR 0x08}"
  by (elim insertE emptyE) (drule char_of_nat_eq; simp)+

lemma scan_char_escape: "scan_char (escape_plain c @ s) = Some (c, s)"
proof (cases "of_char c \<in> {34, 92, 10, 13, 9, 12, 8 :: nat}")
  case True
  then show ?thesis by (intro scan_char_special special_codes)
next
  case ordinary: False
  show ?thesis
  proof (cases "of_char c < (32 :: nat)")
    case True
    with ordinary hex4_value [of "of_char c"] show ?thesis
      by (simp add: escape_plain_def scan_char_def Let_def)
  next
    case False
    have "c \<noteq> CHR 0x5C" using ordinary by auto
    with ordinary False show ?thesis by (simp add: escape_plain_def scan_char_def Let_def)
  qed
qed

lemma escape_plain_start: "\<exists>d ds. escape_plain c = d # ds \<and> d \<noteq> CHR 0x22"
proof (cases "of_char c = (34 :: nat)")
  case False
  then have "c \<noteq> CHR 0x22" by auto
  with False show ?thesis by (auto simp: escape_plain_def Let_def)
qed (simp add: escape_plain_def)

lemma scan_string_plain:
  "scan_string (concat (map escape_plain cs) @ CHR 0x22 # s) = Some (cs, s)"
proof (induction cs)
  case Nil
  then show ?case by (simp add: scan_string.simps [of "_ # _"])
next
  case (Cons c cs)
  let ?rest = "concat (map escape_plain cs) @ CHR 0x22 # s"
  obtain d ds where d: "escape_plain c = d # ds" "d \<noteq> CHR 0x22" using escape_plain_start by blast
  have "scan_char (escape_plain c @ ?rest) = Some (c, ?rest)" by (rule scan_char_escape)
  with Cons d show ?case by (simp add: scan_string.simps [of "_ # _"])
qed

definition follows :: "string \<Rightarrow> bool" where
  "follows rest \<longleftrightarrow> rest = [] \<or> \<not> is_digit (hd rest)"

lemma follows_simps [simp]: "follows []" "follows (c # s) = (\<not> is_digit c)"
  by (simp_all add: follows_def)

lemma takeWhile_digits:
  "list_all is_digit ds \<Longrightarrow> follows rest \<Longrightarrow>
     takeWhile is_digit (ds @ rest) = ds \<and> dropWhile is_digit (ds @ rest) = rest"
  by (induction ds) (cases rest; simp)+

lemma scan_number_digits:
  assumes "positive_digits ds" and "follows rest"
  shows "scan_number (ds @ rest) = Some (ds, rest)"
    and "scan_number (CHR ''-'' # ds @ rest) = Some (CHR ''-'' # ds, rest)"
proof -
  obtain c cs where ds: "ds = c # cs" "is_digit c" "c \<noteq> CHR ''0''" "list_all is_digit cs"
    using assms(1) by (cases ds) auto
  with takeWhile_digits [OF ds(4) assms(2)] digit_not_minus [of c]
  show "scan_number (ds @ rest) = Some (ds, rest)"
    and "scan_number (CHR ''-'' # ds @ rest) = Some (CHR ''-'' # ds, rest)"
    by (simp_all add: scan_number_def Let_def)
qed

lemma integer_text_start:
  "\<exists>c cs. integer_text v = c # cs \<and> (is_digit c \<or> c = CHR ''-'')"
  using nat_text_digits [of _ "nat v"] nat_text_not_Nil [of "nat v"]
  by (cases "nat_text (nat v)") (auto simp: integer_text_def)

lemma scan_number_integer: "follows rest \<Longrightarrow> scan_number (integer_text v @ rest) = Some (integer_text v, rest)"
proof -
  assume rest: "follows rest"
  consider "v < 0" | "v = 0" | "0 < v" by linarith
  then show ?thesis
  proof cases
    case 1
    then show ?thesis
      using scan_number_digits(2) [OF nat_text_positive [of "nat (- v)"] rest]
      by (simp add: integer_text_def)
  next
    case 2
    then show ?thesis by (simp add: integer_text_def scan_number_def is_digit_def char_in_def)
  next
    case 3
    then show ?thesis
      using scan_number_digits(1) [OF nat_text_positive [of "nat v"] rest]
      by (simp add: integer_text_def)
  qed
qed

lemma parse_scalar_integer: "follows rest \<Longrightarrow> parse_scalar (integer_text v @ rest) = Some (PInt v, rest)"
proof -
  assume rest: "follows rest"
  obtain c cs where c: "integer_text v = c # cs" "is_digit c \<or> c = CHR ''-''"
    using integer_text_start by blast
  then have "CHR ''n'' \<noteq> c" "CHR ''t'' \<noteq> c" "CHR ''f'' \<noteq> c" by (auto simp: char_class_defs)
  moreover have "decode_canonical_integer (integer_text v) = Inr v"
    using decode_encode_integer [of v] by (simp add: encode_canonical_integer_eq)
  ultimately show ?thesis
    using c scan_number_integer [OF rest, of v] by (simp add: parse_scalar_def)
qed

subsection \<open>Values\<close>

text \<open>A text that starts a value, and the values whose text is read back before any follower.\<close>

definition value_start :: "string \<Rightarrow> bool" where
  "value_start t \<longleftrightarrow> t \<noteq> [] \<and> \<not> is_json_space (hd t) \<and> hd t \<noteq> CHR '']'' \<and> hd t \<noteq> CHR ''}''"

definition reads_back :: "py_value \<Rightarrow> string \<Rightarrow> bool" where
  "reads_back v t \<longleftrightarrow> encode_canonical_json v = Inr t \<and> value_start t \<and>
     (\<forall>n rest. 2 * length t \<le> n \<longrightarrow> follows rest \<longrightarrow>
        parse_value (Suc n) (t @ rest) = Some (json_normal v, rest))"

lemma reads_backD:
  assumes "reads_back v t"
  shows "encode_canonical_json v = Inr t" and "value_start t"
    and "2 * length t \<le> n \<Longrightarrow> follows rest \<Longrightarrow>
      parse_value (Suc n) (t @ rest) = Some (json_normal v, rest)"
  using assms by (simp_all add: reads_back_def)

lemma skip_space_start: "value_start t \<Longrightarrow> skip_space (t @ rest) = t @ rest"
  by (cases t) (simp_all add: value_start_def skip_space_def)

lemma skip_space_char: "\<not> is_json_space c \<Longrightarrow> skip_space (c # s) = c # s"
  by (simp add: skip_space_def)

lemma json_space_chars [simp]:
  "\<not> is_json_space CHR '']''" "\<not> is_json_space CHR ''}''" "\<not> is_json_space CHR '',''"
  "\<not> is_json_space CHR '':''" "\<not> is_json_space CHR 0x22" "\<not> is_json_space CHR ''[''"
  "\<not> is_json_space CHR ''{''"
  by (simp_all add: is_json_space_def)

lemma not_digit_chars [simp]:
  "\<not> is_digit CHR '']''" "\<not> is_digit CHR ''}''" "\<not> is_digit CHR '',''"
  by (simp_all add: char_class_defs)

lemma reads_back_scalars:
  "reads_back PNone ''null''" "reads_back (PBool b) (if b then ''true'' else ''false'')"
  by (auto simp: reads_back_def value_start_def is_json_space_def parse_scalar_def parse_value.simps)

lemma reads_back_int: "reads_back (PInt i) (encode_canonical_integer i)"
proof -
  obtain c cs where c: "integer_text i = c # cs" "is_digit c \<or> c = CHR ''-''"
    using integer_text_start by blast
  then have "\<not> is_json_space c" "c \<notin> {CHR '']'', CHR ''}'', CHR ''['', CHR ''{'', CHR 0x22}"
    by (auto simp: char_class_defs is_json_space_def)
  moreover from this c have "parse_value (Suc n) (integer_text i @ rest) = parse_scalar (integer_text i @ rest)"
    for n rest by (simp add: parse_value.simps)
  ultimately show ?thesis
    using c parse_scalar_integer [of _ i]
    by (simp add: reads_back_def encode_canonical_integer_eq value_start_def)
qed

lemma reads_back_string: "reads_back (PStr s) (plain_string s)"
  using scan_string_plain
  by (simp add: reads_back_def value_start_def plain_string_def parse_value.simps)

lemma traverse_reads_back:
  "(\<And>v. v \<in> set vs \<Longrightarrow> \<exists>t. reads_back v t) \<Longrightarrow>
     \<exists>ts. traverse encode_canonical_json vs = Inr ts \<and> list_all2 reads_back vs ts"
proof (induction vs)
  case (Cons v vs)
  then obtain t ts where "reads_back v t" "traverse encode_canonical_json vs = Inr ts"
    "list_all2 reads_back vs ts" by (metis list.set_intros)
  then show ?case by (intro exI [of _ "t # ts"]) (simp add: reads_backD(1))
qed simp

lemma join_Cons: "ts \<noteq> [] \<Longrightarrow> join sep (t # ts) = t @ sep @ join sep ts"
  by (cases ts) simp_all

lemma parse_items_back:
  "list_all2 reads_back vs ts \<Longrightarrow> vs \<noteq> [] \<Longrightarrow> value_start (join '','' ts) \<and>
     (\<forall>n rest. 2 * length (join '','' ts) < n \<longrightarrow>
        parse_items (Suc n) (join '','' ts @ CHR '']'' # rest) = Some (map json_normal vs, rest))"
proof (induction vs arbitrary: ts)
  case (Cons v vs)
  then obtain t us where ts: "ts = t # us" and t: "reads_back v t" and us: "list_all2 reads_back vs us"
    by (auto simp: list_all2_Cons1)
  show ?case
  proof (cases "vs = []")
    case True
    with us have "us = []" by simp
    moreover have "parse_items (Suc n) (t @ CHR '']'' # rest) = Some ([json_normal v], rest)"
      if "2 * length t < n" for n rest
      using that reads_backD(3) [OF t, of "n - 1" "CHR '']'' # rest"]
      by (simp add: parse_items.simps skip_space_char)
    ultimately show ?thesis using True ts reads_backD(2) [OF t] by simp
  next
    case False
    with us have ne: "us \<noteq> []" by auto
    note IH = Cons.IH [OF us False]
    have "parse_items (Suc n) (t @ CHR '','' # join '','' us @ CHR '']'' # rest) =
        Some (json_normal v # map json_normal vs, rest)"
      if "2 * (length t + 1 + length (join '','' us)) < n" for n rest
    proof -
      from that obtain m where n: "n = Suc m" using less_imp_Suc_add by blast
      have "parse_value n (t @ CHR '','' # join '','' us @ CHR '']'' # rest) =
          Some (json_normal v, CHR '','' # join '','' us @ CHR '']'' # rest)"
        using that n by (simp add: reads_backD(3) [OF t])
      moreover have "parse_items n (join '','' us @ CHR '']'' # rest) = Some (map json_normal vs, rest)"
        using that IH n by simp
      ultimately show ?thesis
        using IH by (simp add: parse_items.simps skip_space_char skip_space_start)
    qed
    then show ?thesis
      using reads_backD(2) [OF t] ne by (auto simp: ts join_Cons value_start_def)
  qed
qed simp

lemma reads_back_list:
  assumes "\<And>v. v \<in> set vs \<Longrightarrow> \<exists>t. reads_back v t"
  shows "\<exists>ts. traverse encode_canonical_json vs = Inr ts \<and>
    value_start (''['' @ join '','' ts @ '']'') \<and>
    (\<forall>n rest. 2 * length (''['' @ join '','' ts @ '']'') \<le> n \<longrightarrow>
       parse_value (Suc n) ((''['' @ join '','' ts @ '']'') @ rest) = Some (PList (map json_normal vs), rest))"
proof -
  obtain ts where ts: "traverse encode_canonical_json vs = Inr ts" "list_all2 reads_back vs ts"
    using traverse_reads_back [OF assms] by blast
  show ?thesis
  proof (cases "vs = []")
    case True
    with ts show ?thesis by (auto simp: value_start_def skip_space_char parse_value.simps)
  next
    case False
    note items = parse_items_back [OF ts(2) False]
    have "parse_value (Suc n) (CHR ''['' # join '','' ts @ CHR '']'' # rest) =
        Some (PList (map json_normal vs), rest)" if "2 * (length (join '','' ts) + 2) \<le> n" for n rest
    proof -
      from that obtain m where "n = Suc m" by (metis add_2_eq_Suc' mult_2 Suc_le_D add_Suc_right)
      with that items have "parse_items n (join '','' ts @ CHR '']'' # rest) = Some (map json_normal vs, rest)"
        by simp
      with items show ?thesis
        using skip_space_start [of "join '','' ts" "CHR '']'' # rest"]
        by (auto simp: parse_value.simps value_start_def hd_append)
    qed
    with ts(1) show ?thesis by (auto simp: value_start_def)
  qed
qed

subsection \<open>Objects\<close>

text \<open>The text of one entry.\<close>

definition entry_text :: "py_value \<times> py_value \<Rightarrow> string \<Rightarrow> string" where
  "entry_text kv t = plain_string (dict_key (fst kv)) @ '':'' @ t"

definition member_reads_back :: "py_value \<times> py_value \<Rightarrow> string \<Rightarrow> bool" where
  "member_reads_back kv m \<longleftrightarrow> (\<exists>t. reads_back (snd kv) t \<and> m = entry_text kv t)"

lemma traverse_members:
  "(\<And>kv. kv \<in> set kvs \<Longrightarrow> \<exists>t. reads_back (snd kv) t) \<Longrightarrow>
     \<exists>ms. traverse (\<lambda>kv. result_bind (encode_canonical_json (snd kv)) (\<lambda>t.
         Inr (plain_string (dict_key (fst kv)) @ '':'' @ t))) kvs = Inr ms \<and>
       list_all2 member_reads_back kvs ms"
proof (induction kvs)
  case (Cons kv kvs)
  obtain t where t: "reads_back (snd kv) t" using Cons.prems [of kv] by auto
  have "\<exists>t. reads_back (snd kv) t" if "kv \<in> set kvs" for kv using Cons.prems [of kv] that by simp
  from Cons.IH [OF this] obtain ms where ms: "traverse (\<lambda>kv. result_bind
      (encode_canonical_json (snd kv)) (\<lambda>t. Inr (plain_string (dict_key (fst kv)) @ '':'' @ t))) kvs = Inr ms"
      "list_all2 member_reads_back kvs ms"
    by blast
  moreover have "result_bind (encode_canonical_json (snd kv)) (\<lambda>t.
      Inr (plain_string (dict_key (fst kv)) @ '':'' @ t)) = Inr (entry_text kv t)"
    by (simp add: reads_backD(1) [OF t] entry_text_def)
  moreover have "member_reads_back kv (entry_text kv t)"
    using t by (auto simp: member_reads_back_def)
  ultimately show ?case by (intro exI [of _ "entry_text kv t # ms"]) simp
qed simp

lemma scan_key: "scan_string (tl (plain_string k @ s)) = Some (k, s)"
  using scan_string_plain [of k s] by (simp add: plain_string_def)

definition normal_member :: "py_value \<times> py_value \<Rightarrow> string \<times> py_value" where
  "normal_member kv = (dict_key (fst kv), json_normal (snd kv))"

text \<open>Reading one entry up to what follows its value.\<close>

lemma parse_member_step:
  assumes "member_reads_back kv m" and "2 * length m \<le> n" and "follows after"
  shows "parse_members (Suc n) (m @ after) = (case skip_space after of
      [] \<Rightarrow> None
    | d # rest \<Rightarrow>
        if d = CHR ''}'' then Some ([normal_member kv], rest)
        else if d = CHR '','' then
          map_option (\<lambda>(kvs, end). (normal_member kv # kvs, end)) (parse_members n (skip_space rest))
        else None)"
proof -
  obtain t where t: "reads_back (snd kv) t" and m: "m = entry_text kv t"
    using assms(1) by (auto simp: member_reads_back_def)
  let ?k = "plain_string (dict_key (fst kv))"
  obtain j where n: "n = Suc j" and j: "2 * length t \<le> j"
    using assms(2) m by (cases n) (simp_all add: entry_text_def plain_string_def)
  have "scan_string (tl (?k @ CHR '':'' # t @ after)) = Some (dict_key (fst kv), CHR '':'' # t @ after)"
    by (rule scan_key)
  moreover have "parse_value n (t @ after) = Some (json_normal (snd kv), after)"
    unfolding n by (rule reads_backD(3) [OF t j assms(3)])
  moreover have "skip_space (t @ after) = t @ after" by (rule skip_space_start [OF reads_backD(2) [OF t]])
  ultimately show ?thesis
    unfolding normal_member_def
    by (simp add: parse_members.simps m entry_text_def plain_string_def skip_space_char)
qed

lemma member_start: "member_reads_back kv m \<Longrightarrow> value_start m"
  by (auto simp: member_reads_back_def entry_text_def plain_string_def value_start_def)

lemma parse_members_back:
  "list_all2 member_reads_back kvs ms \<Longrightarrow> kvs \<noteq> [] \<Longrightarrow> value_start (join '','' ms) \<and>
     (\<forall>n rest. 2 * length (join '','' ms) < n \<longrightarrow>
        parse_members (Suc n) (join '','' ms @ CHR ''}'' # rest) = Some (map normal_member kvs, rest))"
proof (induction kvs arbitrary: ms)
  case (Cons kv kvs)
  then obtain m us where ms: "ms = m # us" and m: "member_reads_back kv m"
    and us: "list_all2 member_reads_back kvs us"
    by (auto simp: list_all2_Cons1)
  show ?case
  proof (cases "kvs = []")
    case True
    with us have "us = []" by simp
    with True ms member_start [OF m] parse_member_step [OF m] show ?thesis
      by (simp add: skip_space_char)
  next
    case False
    with us have ne: "us \<noteq> []" by auto
    note IH = Cons.IH [OF us False]
    have "parse_members (Suc n) (m @ CHR '','' # join '','' us @ CHR ''}'' # rest) =
        Some (normal_member kv # map normal_member kvs, rest)"
      if "2 * (length m + 1 + length (join '','' us)) < n" for n rest
    proof -
      from that obtain j where n: "n = Suc j" using less_imp_Suc_add by blast
      have "parse_members n (join '','' us @ CHR ''}'' # rest) = Some (map normal_member kvs, rest)"
        using that IH n by simp
      moreover have "skip_space (join '','' us @ CHR ''}'' # rest) = join '','' us @ CHR ''}'' # rest"
        using IH by (intro skip_space_start) simp
      ultimately show ?thesis
        using that parse_member_step [OF m, of n "CHR '','' # join '','' us @ CHR ''}'' # rest"]
        by (simp add: skip_space_char)
    qed
    then show ?thesis
      using member_start [OF m] ne by (auto simp: ms join_Cons value_start_def)
  qed
qed simp

lemma unique_object_members:
  assumes "distinct (map (dict_key \<circ> fst) kvs)" and "list_all (\<lambda>kv. is_pstr (fst kv)) kvs"
  shows "unique_object (map normal_member kvs) = Some (PDict (map (\<lambda>kv. (fst kv, json_normal (snd kv))) kvs))"
proof -
  have "PStr (dict_key v) = v" if "is_pstr v" for v using that by (cases v) simp_all
  with assms show ?thesis
    by (auto simp: unique_object_def normal_member_def comp_def list_all_iff)
qed

lemma reads_back_dict:
  assumes "\<And>kv. kv \<in> set kvs \<Longrightarrow> \<exists>t. reads_back (snd kv) t"
    and "distinct (map (dict_key \<circ> fst) kvs)" and "list_all (\<lambda>kv. is_pstr (fst kv)) kvs"
  shows "\<exists>t. reads_back (PDict kvs) t"
proof -
  let ?kvs = "sort_key (dict_key \<circ> fst) kvs"
  obtain ms where ms: "traverse (\<lambda>kv. result_bind (encode_canonical_json (snd kv)) (\<lambda>t.
         Inr (plain_string (dict_key (fst kv)) @ '':'' @ t))) ?kvs = Inr ms"
       "list_all2 member_reads_back ?kvs ms"
    using traverse_members [of ?kvs] assms(1) by auto
  let ?t = "''{'' @ join '','' ms @ ''}''"
  have encode: "encode_canonical_json (PDict kvs) = Inr ?t" using assms(3) ms(1) by simp
  have "distinct (map (dict_key \<circ> fst) ?kvs)"
    using assms(2) by (simp add: distinct_map)
  moreover have "list_all (\<lambda>kv. is_pstr (fst kv)) ?kvs" using assms(3) by (simp add: list_all_iff)
  ultimately have unique: "unique_object (map normal_member ?kvs) = Some (json_normal (PDict kvs))"
    by (simp add: unique_object_members)
  have "parse_value (Suc n) (?t @ rest) = Some (json_normal (PDict kvs), rest)"
    if "2 * length ?t \<le> n" for n rest
  proof (cases "?kvs = []")
    case True
    with ms(2) unique show ?thesis
      by (simp add: parse_value.simps skip_space_char unique_object_def)
  next
    case False
    note members = parse_members_back [OF ms(2) False]
    define m where "m = n - 1"
    with that have "n = Suc m" "2 * length (join '','' ms) < m" by simp_all
    with members have "parse_members n (join '','' ms @ CHR ''}'' # rest) = Some (map normal_member ?kvs, rest)"
      by simp
    with members unique show ?thesis
      using skip_space_start [of "join '','' ms" "CHR ''}'' # rest"]
      by (auto simp: parse_value.simps value_start_def hd_append)
  qed
  with encode have "reads_back (PDict kvs) ?t"
    unfolding reads_back_def by (auto simp: value_start_def)
  then show ?thesis by blast
qed

lemma reads_back_plain: "json_plain v \<Longrightarrow> \<exists>t. reads_back v t"
proof (induction v rule: json_plain.induct)
  case (1 kvs)
  then show ?case by (intro reads_back_dict) (auto simp: list_all_iff)
next
  case (2 vs)
  then have "\<And>v. v \<in> set vs \<Longrightarrow> \<exists>t. reads_back v t" by (auto simp: list_all_iff)
  from reads_back_list [OF this] obtain ts where ts: "traverse encode_canonical_json vs = Inr ts"
    "value_start (''['' @ join '','' ts @ '']'')" and "\<forall>n rest. 2 * length (''['' @ join '','' ts @ '']'') \<le> n \<longrightarrow>
      parse_value (Suc n) ((''['' @ join '','' ts @ '']'') @ rest) = Some (PList (map json_normal vs), rest)"
    by blast
  then have "reads_back (PList vs) (''['' @ join '','' ts @ '']'')" by (simp add: reads_back_def)
  then show ?case by blast
next
  case (3 vs)
  then have "\<And>v. v \<in> set vs \<Longrightarrow> \<exists>t. reads_back v t" by (auto simp: list_all_iff)
  from reads_back_list [OF this] obtain ts where ts: "traverse encode_canonical_json vs = Inr ts"
    "value_start (''['' @ join '','' ts @ '']'')" and "\<forall>n rest. 2 * length (''['' @ join '','' ts @ '']'') \<le> n \<longrightarrow>
      parse_value (Suc n) ((''['' @ join '','' ts @ '']'') @ rest) = Some (PList (map json_normal vs), rest)"
    by blast
  then have "reads_back (PTuple vs) (''['' @ join '','' ts @ '']'')" by (simp add: reads_back_def)
  then show ?case by blast
next
  case "5_1"
  show ?case using reads_back_scalars(1) by blast
next
  case "5_2"
  show ?case using reads_back_scalars(2) by blast
next
  case "5_3"
  show ?case using reads_back_int by blast
next
  case "5_4"
  show ?case using reads_back_string by blast
qed simp

lemma json_roundtrip:
  assumes "json_plain v"
  shows "\<exists>t. encode_canonical_json v = Inr t \<and> decode_canonical_json t = Inr (json_normal v)"
proof -
  obtain t where t: "reads_back v t" using reads_back_plain [OF assms] by blast
  have "parse_value (2 * length t + 2) t = Some (json_normal v, [])"
    using reads_backD(3) [OF t, of "2 * length t + 1" "[]"] by simp
  moreover have "skip_space t = t" using skip_space_start [OF reads_backD(2) [OF t], of "[]"] by simp
  ultimately have "decode_canonical_json t = Inr (json_normal v)"
    by (simp add: decode_canonical_json_def skip_space_def)
  with reads_backD(1) [OF t] show ?thesis by blast
qed

subsection \<open>The bound of the scanner\<close>

lemma skip_space_le: "length (skip_space s) \<le> length s"
  by (simp add: skip_space_def length_dropWhile_le)

lemma scan_string_shorter: "scan_string s = Some (t, rest) \<Longrightarrow> length rest < length s"
proof (induction s arbitrary: t rest rule: scan_string.induct)
  case (1 s)
  show ?case
  proof (cases "s \<noteq> [] \<and> hd s = CHR 0x22")
    case True
    with "1.prems" have "rest = tl s" by (simp add: scan_string.simps [of s])
    with True show ?thesis by (cases s) simp_all
  next
    case False
    with "1.prems" obtain c r cs where r: "scan_char s = Some (c, r)" "scan_string r = Some (cs, rest)"
      by (auto simp: scan_string.simps [of s] split: option.splits)
    from "1.IH" [OF False r(1) refl r(2)] scan_char_shorter [OF r(1)] show ?thesis by simp
  qed
qed

lemma scan_number_shorter: "scan_number s = Some (t, rest) \<Longrightarrow> length rest < length s"
proof -
  assume scan: "scan_number s = Some (t, rest)"
  define body where "body = drop (length (if starts_with ''-'' s then ''-'' else [])) s"
  have "body \<noteq> []" "is_digit (hd body)" "rest = tl body \<or> rest = dropWhile is_digit body"
    using scan by (auto simp: scan_number_def Let_def body_def split: if_splits)
  then have "length rest < length body"
    using length_dropWhile_le [of is_digit "tl body"] by (cases body) auto
  moreover have "length body \<le> length s" by (simp add: body_def)
  ultimately show ?thesis by simp
qed

lemma starts_with_length: "starts_with p s \<Longrightarrow> length p \<le> length s"
  by (induction p s rule: starts_with.induct) simp_all

lemma parse_scalar_shorter: "parse_scalar s = Some (v, rest) \<Longrightarrow> length rest < length s"
  using scan_number_shorter [of s] starts_with_length [of "''null''" s]
    starts_with_length [of "''true''" s] starts_with_length [of "''false''" s]
  by (auto simp: parse_scalar_def split: if_splits option.splits sum.splits)

lemma parse_shorter_all:
  "(\<forall>s v rest. parse_value n s = Some (v, rest) \<longrightarrow> length rest < length s) \<and>
   (\<forall>s vs rest. parse_items n s = Some (vs, rest) \<longrightarrow> length rest < length s) \<and>
   (\<forall>s kvs rest. parse_members n s = Some (kvs, rest) \<longrightarrow> length rest < length s)"
proof (induction n)
  case 0
  show ?case by (simp add: parse_value.simps parse_items.simps parse_members.simps)
next
  case (Suc n)
  have items: "length rest < length s" if "parse_items (Suc n) s = Some (vs, rest)" for s vs rest
  proof -
    from that obtain v after where v: "parse_value n s = Some (v, after)"
      by (auto simp: parse_items.simps split: option.splits)
    with that obtain c more where c: "skip_space after = c # more"
      and "rest = more \<or> (\<exists>vs. parse_items n (skip_space more) = Some (vs, rest))"
      by (auto simp: parse_items.simps split: list.splits if_splits)
    moreover have "length after < length s" using Suc v by blast
    ultimately show ?thesis
      using Suc skip_space_le [of after] skip_space_le [of more] by fastforce
  qed
  have members: "length rest < length s" if "parse_members (Suc n) s = Some (kvs, rest)" for s kvs rest
  proof -
    from that obtain s1 k s2 c s3 v after where s: "s = CHR 0x22 # s1" "scan_string s1 = Some (k, s2)"
      "skip_space s2 = c # s3" "parse_value n (skip_space s3) = Some (v, after)"
      by (auto simp: parse_members.simps split: list.splits option.splits if_splits)
    with that obtain d more where "skip_space after = d # more"
      and "rest = more \<or> (\<exists>kvs. parse_members n (skip_space more) = Some (kvs, rest))"
      by (auto simp: parse_members.simps split: list.splits if_splits)
    moreover have "length after < length (skip_space s3)" using Suc s(4) by blast
    ultimately show ?thesis
      using Suc s scan_string_shorter [OF s(2)] skip_space_le [of s2] skip_space_le [of s3]
        skip_space_le [of after] skip_space_le [of more] by fastforce
  qed
  have "length rest < length s" if parse: "parse_value (Suc n) s = Some (v, rest)" for s v rest
  proof (cases s)
    case Nil
    with parse show ?thesis by (simp add: parse_value.simps)
  next
    case (Cons c more)
    have "length (tl (skip_space more)) \<le> length more"
      using skip_space_le [of more] by simp
    moreover have "length r < length more"
      if "parse_items n (skip_space more) = Some (vs, r) \<or> parse_members n (skip_space more) = Some (kvs, r)"
      for vs kvs r
      using Suc that skip_space_le [of more] by fastforce
    ultimately show ?thesis
      using parse Cons scan_string_shorter [of more] parse_scalar_shorter [of s]
      by (fastforce simp: parse_value.simps Let_def split: if_splits option.splits)
  qed
  with items members show ?case by blast
qed

lemmas parse_shorter = parse_shorter_all [THEN conjunct1, rule_format]
  parse_shorter_all [THEN conjunct2, THEN conjunct1, rule_format]
  parse_shorter_all [THEN conjunct2, THEN conjunct2, rule_format]

text \<open>Any two bounds that exceed twice the length of the text give the same answer.\<close>

lemma parse_fuel_all:
  "(\<forall>s m. 2 * length s < n \<longrightarrow> 2 * length s < m \<longrightarrow> parse_value n s = parse_value m s) \<and>
   (\<forall>s m. 2 * length s + 1 < n \<longrightarrow> 2 * length s + 1 < m \<longrightarrow> parse_items n s = parse_items m s) \<and>
   (\<forall>s m. 2 * length s + 1 < n \<longrightarrow> 2 * length s + 1 < m \<longrightarrow> parse_members n s = parse_members m s)"
proof (induction n)
  case (Suc n)
  then have IH: "2 * length s < n \<Longrightarrow> 2 * length s < m \<Longrightarrow> parse_value n s = parse_value m s"
    "2 * length s + 1 < n \<Longrightarrow> 2 * length s + 1 < m \<Longrightarrow> parse_items n s = parse_items m s"
    "2 * length s + 1 < n \<Longrightarrow> 2 * length s + 1 < m \<Longrightarrow> parse_members n s = parse_members m s" for s m
    by blast+
  have vals: "parse_value (Suc n) s = parse_value (Suc m) s" if "2 * length s < Suc n" "2 * length s < Suc m" for s m
  proof (cases s)
    case (Cons c more)
    have "parse_items n (skip_space more) = parse_items m (skip_space more)"
      "parse_members n (skip_space more) = parse_members m (skip_space more)"
      using that Cons skip_space_le [of more] by (intro IH; simp)+
    then show ?thesis by (simp only: Cons parse_value.simps Let_def list.case)
  qed (simp add: parse_value.simps)
  have items: "parse_items (Suc n) s = parse_items (Suc m) s"
    if "2 * length s + 1 < Suc n" "2 * length s + 1 < Suc m" for s m
  proof -
    have v: "parse_value n s = parse_value m s" using that by (intro IH) simp_all
    show ?thesis
    proof (cases "parse_value m s")
      case None
      with v show ?thesis by (simp add: parse_items.simps)
    next
      case (Some p)
      obtain w after where p: "p = (w, after)" by fastforce
      from parse_shorter(1) [of m s] Some p have after: "length after < length s" by blast
      have "parse_items n (skip_space more) = parse_items m (skip_space more)"
        if "skip_space after = c # more" for c more
        using \<open>2 * length s + 1 < Suc n\<close> \<open>2 * length s + 1 < Suc m\<close> after that
          skip_space_le [of after] skip_space_le [of more]
        by (intro IH) simp_all
      with v Some p show ?thesis by (simp add: parse_items.simps split: list.split)
    qed
  qed
  have members: "parse_members (Suc n) s = parse_members (Suc m) s"
    if bound: "2 * length s + 1 < Suc n" "2 * length s + 1 < Suc m" for s m
  proof (cases s)
    case (Cons q s1)
    have step: "parse_value n (skip_space s3) = parse_value m (skip_space s3) \<and>
        (\<forall>v after d more. parse_value m (skip_space s3) = Some (v, after) \<longrightarrow> skip_space after = d # more \<longrightarrow>
          parse_members n (skip_space more) = parse_members m (skip_space more))"
      if "scan_string s1 = Some (k, s2)" "skip_space s2 = c # s3" for k s2 c s3
    proof -
      have s3: "length s3 + 2 < length s"
        using that Cons scan_string_shorter [of s1] skip_space_le [of s2] by fastforce
      have "parse_value n (skip_space s3) = parse_value m (skip_space s3)"
        using bound s3 skip_space_le [of s3] by (intro IH) simp_all
      moreover have "parse_members n (skip_space more) = parse_members m (skip_space more)"
        if "parse_value m (skip_space s3) = Some (v, after)" "skip_space after = d # more" for v after d more
        using bound s3 parse_shorter(1) [OF that(1)] that(2) skip_space_le [of s3] skip_space_le [of after]
          skip_space_le [of more] by (intro IH) simp_all
      ultimately show ?thesis by blast
    qed
    with Cons show ?thesis
      by (simp add: parse_members.simps split: option.split list.split)
  qed (simp add: parse_members.simps)
  show ?case
  proof (intro conjI allI impI)
    fix s :: string and m :: nat
    assume "2 * length s < Suc n" "2 * length s < m"
    then show "parse_value (Suc n) s = parse_value m s" using vals [of s "m - 1"] by simp
  next
    fix s :: string and m :: nat
    assume "2 * length s + 1 < Suc n" "2 * length s + 1 < m"
    then show "parse_items (Suc n) s = parse_items m s" using items [of s "m - 1"] by simp
  next
    fix s :: string and m :: nat
    assume "2 * length s + 1 < Suc n" "2 * length s + 1 < m"
    then show "parse_members (Suc n) s = parse_members m s" using members [of s "m - 1"] by simp
  qed
qed simp

lemma parse_fuel:
  "2 * length s < n \<Longrightarrow> parse_value n s = parse_value (2 * length s + 1) s"
  using parse_fuel_all [of n, THEN conjunct1, rule_format, of s "2 * length s + 1"]
  by (metis less_add_one)

end
