(* ===== verification/Iso_Timestamps.thy ===== *)
theory Iso_Timestamps
  imports Json_Roundtrip
begin

section \<open>Reading the ISO 8601 text of a timestamp\<close>

text \<open>
  \<open>datetime.fromisoformat\<close> on the layout \<open>YYYY-MM-DDTHH:MM:SS[.f]+HH:MM\<close>, with one to six digits of
  the second: \<open>isoformat\<close> writes all six, PostgreSQL's JSON drops the trailing zeros. The stored records hold
  no other layout. What the method makes of the other layouts of ISO 8601 (week
  dates, basic format, other separators) is a parameter of the decoders. The main fact is that
  reading the text of a timestamp of the years 1 to 9999 gives that timestamp.
\<close>

subsection \<open>The day number of a civil date\<close>

definition leap_year :: "int \<Rightarrow> bool" where
  "leap_year y \<longleftrightarrow> y mod 4 = 0 \<and> (y mod 100 \<noteq> 0 \<or> y mod 400 = 0)"

definition days_in_month :: "int \<Rightarrow> int \<Rightarrow> int" where
  "days_in_month y m =
     (if m = 2 then (if leap_year y then 29 else 28)
      else if m \<in> {4, 6, 9, 11} then 30 else 31)"

definition valid_date :: "int \<Rightarrow> int \<Rightarrow> int \<Rightarrow> bool" where
  "valid_date y m d \<longleftrightarrow>
     1 \<le> y \<and> y \<le> 9999 \<and> 1 \<le> m \<and> m \<le> 12 \<and> 1 \<le> d \<and> d \<le> days_in_month y m"

text \<open>Days since 1970-01-01, in years that start on 1 March.\<close>

definition days_of_civil :: "int \<Rightarrow> int \<Rightarrow> int \<Rightarrow> int" where
  "days_of_civil y m d =
     (let y' = (if m \<le> 2 then y - 1 else y);
          mp = (if m \<le> 2 then m + 9 else m - 3);
          yoe = y' mod 400;
          doy = (153 * mp + 2) div 5 + d - 1
      in y' div 400 * 146097 + (365 * yoe + yoe div 4 - yoe div 100 + doy) - 719468)"

text \<open>The year of the era and the day of the year, from the day of the era.\<close>

definition year_of_era :: "int \<Rightarrow> int" where
  "year_of_era doe = (doe - doe div 1460 + doe div 36524 - doe div 146096) div 365"

definition day_of_year :: "int \<Rightarrow> int" where
  "day_of_year doe =
     (let yoe = year_of_era doe in doe - (365 * yoe + yoe div 4 - yoe div 100))"

lemma year_of_era_split:
  assumes "0 \<le> c" "c \<le> 3" "0 \<le> q" "q \<le> 24" "0 \<le> s" "s \<le> 1460" "q = 24 \<longrightarrow> s < 1460"
  defines "e \<equiv> (24 * c + q + s) div 1460"
  defines "t \<equiv> (s - e) div 365"
  shows "year_of_era (36524 * c + 1461 * q + s) = 100 * c + 4 * q + t"
    and "day_of_year (36524 * c + 1461 * q + s) = s - 365 * t"
    and "0 \<le> t" and "t \<le> 3" and "0 \<le> s - 365 * t" and "s - 365 * t \<le> 365"
    and "s - 365 * t = 365 \<Longrightarrow> t = 3 \<and> s = 1460"
proof -
  have e: "0 \<le> e" "e \<le> 1" "s < 1364 \<longrightarrow> e = 0" "s = 1460 \<longrightarrow> e = 1"
    using assms(1-6) unfolding e_def by linarith+
  let ?doe = "36524 * c + 1461 * q + s"
  have "?doe = 1460 * (25 * c + q) + (24 * c + q + s)" by simp
  then have d1: "?doe div 1460 = 25 * c + q + e" unfolding e_def by linarith
  have d2: "?doe div 36524 = c" using assms(3-7) by linarith
  have d3: "?doe div 146096 = 0" using assms(1-7) by linarith
  have "year_of_era ?doe = (36500 * c + 1460 * q + (s - e)) div 365"
    unfolding year_of_era_def d1 d2 d3 by (simp add: algebra_simps)
  also have "\<dots> = 100 * c + 4 * q + t" unfolding t_def by linarith
  finally show yoe: "year_of_era ?doe = 100 * c + 4 * q + t" .
  show t: "0 \<le> t" "t \<le> 3" unfolding t_def using e assms(5,6) by linarith+
  have "(100 * c + 4 * q + t) div 4 = 25 * c + q" "(100 * c + 4 * q + t) div 100 = c"
    using t assms(3,4) by linarith+
  then show "day_of_year ?doe = s - 365 * t" unfolding day_of_year_def yoe Let_def by simp
  show "0 \<le> s - 365 * t" "s - 365 * t \<le> 365" unfolding t_def using e by linarith+
  show "t = 3 \<and> s = 1460" if "s - 365 * t = 365"
  proof -
    have "s - e \<le> 365 * t + 364" unfolding t_def by linarith
    with that e(1,2) have "e = 1" by linarith
    with e(3) have "1364 \<le> s" by linarith
    with that t(1) have "t = 3" using t(2) by linarith
    with that show ?thesis by simp
  qed
qed

lemma era_cases [consumes 2, case_names split last]:
  assumes "0 \<le> doe" and "doe < (146097 :: int)"
  obtains c q s where "doe = 36524 * c + 1461 * q + s" "0 \<le> c" "c \<le> 3" "0 \<le> q" "q \<le> 24" "0 \<le> s"
      "s \<le> 1460" "q = 24 \<longrightarrow> s < 1460"
  | "doe = 146096"
proof (cases "doe = 146096")
  case False
  let ?r = "doe mod 36524"
  show thesis
  proof (rule that(1))
    show "doe = 36524 * (doe div 36524) + 1461 * (?r div 1461) + ?r mod 1461" by simp
    show "0 \<le> doe div 36524" "doe div 36524 \<le> 3" using assms False by linarith+
    have r: "0 \<le> ?r" "?r < 36524" by simp_all
    then show "0 \<le> ?r div 1461" "?r div 1461 \<le> 24" "0 \<le> ?r mod 1461" "?r mod 1461 \<le> 1460"
      by linarith+
    have "?r = 1461 * (?r div 1461) + ?r mod 1461" by simp
    with r(2) show "?r div 1461 = 24 \<longrightarrow> ?r mod 1461 < 1460" by linarith
  qed
qed (use that in blast)

lemma year_of_era_last: "year_of_era 146096 = 399" "day_of_year 146096 = 365"
  by (simp_all add: year_of_era_def day_of_year_def)

lemma era_bounds:
  assumes "0 \<le> doe" and "doe < 146097"
  shows "0 \<le> year_of_era doe" and "year_of_era doe \<le> 399"
    and "0 \<le> day_of_year doe" and "day_of_year doe \<le> 365"
    and "day_of_year doe = 365 \<Longrightarrow> leap_year (year_of_era doe + 1)"
proof -
  have "0 \<le> year_of_era doe \<and> year_of_era doe \<le> 399 \<and> 0 \<le> day_of_year doe \<and> day_of_year doe \<le> 365 \<and>
    (day_of_year doe = 365 \<longrightarrow> leap_year (year_of_era doe + 1))"
    using assms
  proof (cases doe rule: era_cases)
    case (split c q s)
    note facts = year_of_era_split [OF split(2-8), folded split(1)]
    let ?t = "(s - (24 * c + q + s) div 1460) div 365"
    have "leap_year (year_of_era doe + 1)" if "day_of_year doe = 365"
    proof -
      have "?t = 3" "s = 1460" using facts that by simp_all
      with split(8) have "q \<le> 23" using split(5) by auto
      have "(100 * c + 4 * q + 3 + 1) mod 4 = 0" by presburger
      moreover have "(100 * c + 4 * q + 3 + 1) mod 100 \<noteq> 0" using \<open>q \<le> 23\<close> split(4) by presburger
      ultimately show ?thesis unfolding facts(1) \<open>?t = 3\<close> leap_year_def by blast
    qed
    moreover have "0 \<le> year_of_era doe" "year_of_era doe \<le> 399"
      unfolding facts(1) using facts(3,4) split(2-5) by linarith+
    ultimately show ?thesis using facts(2,5,6) by simp
  next
    case last
    then show ?thesis by (simp add: year_of_era_last leap_year_def)
  qed
  then show "0 \<le> year_of_era doe" "year_of_era doe \<le> 399" "0 \<le> day_of_year doe"
    "day_of_year doe \<le> 365" "day_of_year doe = 365 \<Longrightarrow> leap_year (year_of_era doe + 1)" by simp_all
qed

subsection \<open>Civil dates\<close>

definition month_index :: "int \<Rightarrow> int" where
  "month_index doy = (5 * doy + 2) div 153"

lemma civil_date_eq:
  "civil_date days =
     (let z = days + 719468; doe = z mod 146097; mp = month_index (day_of_year doe);
          m = (if mp < 10 then mp + 3 else mp - 9)
      in (year_of_era doe + z div 146097 * 400 + (if m \<le> 2 then 1 else 0), m,
          day_of_year doe - (153 * mp + 2) div 5 + 1))"
  unfolding civil_date_def year_of_era_def day_of_year_def month_index_def Let_def by (rule refl)

text \<open>Every month and the length it has in a year from March to February.\<close>

lemma month_cases:
  assumes "0 \<le> doy" and "doy \<le> 365"
  defines "mp \<equiv> month_index doy"
  shows "mp \<in> {0, 1, 2, 3, 4, 5, 6, 7, 8, 9, 10, 11}"
    and "153 * mp \<le> 5 * doy + 2" and "5 * doy + 2 < 153 * mp + 153"
proof -
  have "0 \<le> mp" "mp \<le> 11" unfolding mp_def month_index_def using assms(1,2) by linarith+
  then show "mp \<in> {0, 1, 2, 3, 4, 5, 6, 7, 8, 9, 10, 11}"
    unfolding insert_iff empty_iff by presburger
  show "153 * mp \<le> 5 * doy + 2" "5 * doy + 2 < 153 * mp + 153"
    unfolding mp_def month_index_def by linarith+
qed

lemma month_lengths:
  assumes "mp \<in> {0, 1, 2, 3, 4, 5, 6, 7, 8, 9, 10, 11 :: int}"
  defines "m \<equiv> (if mp < 10 then mp + 3 else mp - 9)"
  shows "1 \<le> m \<and> m \<le> 12"
    and "mp \<noteq> 11 \<Longrightarrow> (153 * mp + 155) div 5 - (153 * mp + 2) div 5 = days_in_month y m"
    and "mp = 11 \<longleftrightarrow> m = 2"
  using assms(1) unfolding m_def by (elim insertE emptyE; simp add: days_in_month_def)+

lemma day_in_month:
  assumes "0 \<le> doy" and "doy \<le> 365" and "doy < 365 \<or> leap_year y"
  defines "mp \<equiv> month_index doy"
  defines "m \<equiv> (if mp < 10 then mp + 3 else mp - 9)"
  defines "d \<equiv> doy - (153 * mp + 2) div 5 + 1"
  shows "1 \<le> m" and "m \<le> 12" and "1 \<le> d" and "d \<le> days_in_month y m"
proof -
  note facts = month_cases [OF assms(1,2), folded mp_def]
  note lengths = month_lengths [OF facts(1), folded m_def]
  show "1 \<le> m" "m \<le> 12" using lengths(1) by simp_all
  show "1 \<le> d" unfolding d_def using facts(2) by linarith
  show "d \<le> days_in_month y m"
  proof (cases "mp = 11")
    case True
    with lengths(3) have "m = 2" by simp
    with True assms(2,3) show ?thesis by (auto simp: d_def days_in_month_def)
  next
    case False
    have "d \<le> (153 * mp + 155) div 5 - (153 * mp + 2) div 5" unfolding d_def using facts(3) by linarith
    with lengths(2) [OF False, of y] show ?thesis by simp
  qed
qed

lemma days_of_civil_parts:
  assumes yoe: "0 \<le> yoe" "yoe \<le> 399" and mp: "mp \<in> {0, 1, 2, 3, 4, 5, 6, 7, 8, 9, 10, 11}"
    and m: "m = (if mp < 10 then mp + 3 else mp - 9)"
    and y: "y = yoe + era * 400 + (if m \<le> 2 then 1 else 0)"
  shows "days_of_civil y m d = era * 146097 +
    (365 * yoe + yoe div 4 - yoe div 100 + ((153 * mp + 2) div 5 + d - 1)) - 719468"
proof -
  have "0 \<le> mp" "mp \<le> 11" using mp by auto
  then have mp': "(if m \<le> 2 then m + 9 else m - 3) = mp" unfolding m by (cases "mp < 10") simp_all
  have y': "(if m \<le> 2 then y - 1 else y) = era * 400 + yoe" unfolding y by (cases "m \<le> 2") simp_all
  have "(era * 400 + yoe) mod 400 = yoe" "(era * 400 + yoe) div 400 = era"
    using yoe by simp_all
  then show ?thesis unfolding days_of_civil_def Let_def mp' y' by (simp only:)
qed

lemma leap_year_shift: "leap_year (y + 400 * k) = leap_year y"
proof -
  have "(y + 400 * k) mod 4 = y mod 4" "(y + 400 * k) mod 100 = y mod 100"
    "(y + 400 * k) mod 400 = y mod 400"
    using mod_mult_self2 [of y 4 "100 * k"] mod_mult_self2 [of y 100 "4 * k"] by simp_all
  then show ?thesis unfolding leap_year_def by simp
qed

lemma days_of_civil_date:
  assumes "civil_date days = (y, m, d)"
  shows "days_of_civil y m d = days" and "1 \<le> m" and "m \<le> 12" and "1 \<le> d" and "d \<le> days_in_month y m"
proof -
  define era doe where "era = (days + 719468) div 146097" and "doe = (days + 719468) mod 146097"
  then have z: "days + 719468 = era * 146097 + doe" and doe: "0 \<le> doe" "doe < 146097" by simp_all
  define doy yoe mp where "doy = day_of_year doe" and "yoe = year_of_era doe" and "mp = month_index doy"
  note bounds = era_bounds [OF doe, folded doy_def yoe_def]
  note months = month_cases [OF bounds(3,4), folded mp_def]
  have parts: "m = (if mp < 10 then mp + 3 else mp - 9)"
      "y = yoe + era * 400 + (if m \<le> 2 then 1 else 0)" "d = doy - (153 * mp + 2) div 5 + 1"
    using assms unfolding civil_date_eq Let_def era_def [symmetric] doe_def [symmetric]
      doy_def [symmetric] yoe_def [symmetric] mp_def [symmetric] by auto
  have "leap_year y" if "doy = 365"
  proof -
    have "mp = 11" unfolding mp_def month_index_def that by simp
    with parts(1,2) have "y = yoe + 1 + 400 * era" by simp
    with bounds(5) [OF that] show ?thesis by (simp only: leap_year_shift)
  qed
  with bounds(4) have "doy < 365 \<or> leap_year y" by linarith
  note month = day_in_month [OF bounds(3,4) this, folded mp_def, folded parts(1,3)]
  show "1 \<le> m" "m \<le> 12" "1 \<le> d" "d \<le> days_in_month y m" by (rule month)+
  have "doy = doe - (365 * yoe + yoe div 4 - yoe div 100)"
    unfolding doy_def yoe_def day_of_year_def Let_def by (rule refl)
  with days_of_civil_parts [OF bounds(1,2) months(1) parts(1,2), of d] parts(3) z
  show "days_of_civil y m d = days" by linarith
qed

text \<open>The years 1 to 9999.\<close>

lemma civil_date_year:
  assumes "civil_date days = (y, m, d)" and "- 719162 \<le> days" and "days \<le> 2932896"
  shows "1 \<le> y" and "y \<le> 9999"
proof -
  define era doe where "era = (days + 719468) div 146097" and "doe = (days + 719468) mod 146097"
  then have z: "days + 719468 = era * 146097 + doe" and doe: "0 \<le> doe" "doe < 146097" by simp_all
  define doy yoe mp where "doy = day_of_year doe" and "yoe = year_of_era doe" and "mp = month_index doy"
  note bounds = era_bounds [OF doe, folded doy_def yoe_def]
  note months = month_cases [OF bounds(3,4), folded mp_def]
  have parts: "m = (if mp < 10 then mp + 3 else mp - 9)"
      "y = yoe + era * 400 + (if m \<le> 2 then 1 else 0)"
    using assms(1) unfolding civil_date_eq Let_def era_def [symmetric] doe_def [symmetric]
      doy_def [symmetric] yoe_def [symmetric] mp_def [symmetric] by auto
  have doy: "doy = doe - (365 * yoe + yoe div 4 - yoe div 100)"
    unfolding doy_def yoe_def day_of_year_def Let_def by (rule refl)
  have m: "m \<le> 2 \<longleftrightarrow> 10 \<le> mp" using parts(1) months(1) by (elim insertE emptyE) simp_all
  have era: "0 \<le> era" "era \<le> 24" using z doe assms(2,3) by linarith+
  show "1 \<le> y"
  proof (cases "era = 0 \<and> yoe = 0")
    case True
    with z doy assms(2) have "306 \<le> doy" by simp
    with months(3) have "10 \<le> mp" by linarith
    with m parts(2) True show ?thesis by simp
  next
    case False
    with era(1) bounds(1) show ?thesis unfolding parts(2) by (cases "era = 0") auto
  qed
  show "y \<le> 9999"
  proof (cases "era = 24 \<and> yoe = 399")
    case True
    with z doy assms(3) have "doy \<le> 305" by simp
    with months(2) have "mp < 10" by linarith
    with m parts(2) True show ?thesis by simp
  next
    case False
    with era(2) bounds(2) show ?thesis unfolding parts(2) by (cases "era = 24") auto
  qed
qed

subsection \<open>The reader\<close>

text \<open>\<open>parse_digits\<close>: a fixed number of digits, and a separator.\<close>

definition digits_at :: "nat \<Rightarrow> string \<Rightarrow> (int \<times> string) option" where
  "digits_at n s =
     (if length s < n \<or> \<not> list_all is_digit (take n s) then None
      else Some (int (text_value (take n s)), drop n s))"

definition separator_at :: "char \<Rightarrow> string \<Rightarrow> string option" where
  "separator_at c s = (if s \<noteq> [] \<and> hd s = c then Some (tl s) else None)"

definition fraction_at :: "string \<Rightarrow> (int \<times> string) option" where
  "fraction_at s = (case separator_at CHR ''.'' s of
       None \<Rightarrow> Some (0, s)
     | Some s' \<Rightarrow>
         let ds = takeWhile is_digit s' in
         if ds = [] \<or> 6 < length ds then None
         else Some (int (text_value ds) * 10 ^ (6 - length ds), dropWhile is_digit s'))"

definition read_wall :: "string \<Rightarrow> (int \<times> string) option" where
  "read_wall s0 =
     Option.bind (digits_at 4 s0) (\<lambda>(y, s1).
     Option.bind (separator_at CHR ''-'' s1) (\<lambda>s2.
     Option.bind (digits_at 2 s2) (\<lambda>(m, s3).
     Option.bind (separator_at CHR ''-'' s3) (\<lambda>s4.
     Option.bind (digits_at 2 s4) (\<lambda>(d, s5).
     Option.bind (separator_at CHR ''T'' s5) (\<lambda>s6.
     Option.bind (digits_at 2 s6) (\<lambda>(hh, s7).
     Option.bind (separator_at CHR '':'' s7) (\<lambda>s8.
     Option.bind (digits_at 2 s8) (\<lambda>(mm, s9).
     Option.bind (separator_at CHR '':'' s9) (\<lambda>s10.
     Option.bind (digits_at 2 s10) (\<lambda>(ss, s11).
     Option.bind (fraction_at s11) (\<lambda>(us, s12).
       if valid_date y m d \<and> hh < 24 \<and> mm < 60 \<and> ss < 60
       then Some ((days_of_civil y m d * 86400 + (hh * 3600 + mm * 60 + ss)) * 1000000 + us, s12)
       else None))))))))))))"

definition read_offset :: "int \<Rightarrow> string \<Rightarrow> datetime option" where
  "read_offset w s =
     (if s = [] then Some (Naive w)
      else if hd s \<notin> {CHR ''+'', CHR ''-''} then None
      else
        Option.bind (digits_at 2 (tl s)) (\<lambda>(hh, s1).
        Option.bind (separator_at CHR '':'' s1) (\<lambda>s2.
        Option.bind (digits_at 2 s2) (\<lambda>(mm, s3).
          if s3 = [] \<and> hh * 60 + mm < 1440
          then Some (Aware w ((if hd s = CHR ''-'' then - 1 else 1) * (hh * 60 + mm) * 60000000))
          else None))))"

definition read_isoformat :: "string \<Rightarrow> datetime option" where
  "read_isoformat s = Option.bind (read_wall s) (\<lambda>(w, rest). read_offset w rest)"

text \<open>
  The method itself: a text that \<open>read_isoformat\<close> refuses (another layout, or no date at all) has the result
  \<open>other_layouts s\<close>.
\<close>

definition fromisoformat :: "(string \<Rightarrow> exn + datetime) \<Rightarrow> string \<Rightarrow> exn + datetime" where
  "fromisoformat other_layouts s =
     (case read_isoformat s of Some t \<Rightarrow> Inr t | None \<Rightarrow> other_layouts s)"

subsection \<open>Reading what was written\<close>

lemma length_pad: "0 < k \<Longrightarrow> 0 \<le> i \<Longrightarrow> i < 10 ^ k \<Longrightarrow> length (pad k i) = k"
  using length_nat_digits [of "nat i" k] nat_less_iff [of i "10 ^ k"]
  by (simp add: pad_def Let_def length_nat_text)

lemma pad_digits: "list_all is_digit (pad k i)"
  by (auto simp: pad_def Let_def list_all_iff nat_text_digits) (simp add: char_class_defs)

lemma pad_value: "0 \<le> i \<Longrightarrow> text_value (pad k i) = nat i"
  by (simp add: pad_def Let_def text_value_append)

lemma digits_at_pad:
  "0 < k \<Longrightarrow> 0 \<le> i \<Longrightarrow> i < 10 ^ k \<Longrightarrow> digits_at k (pad k i @ s) = Some (i, s)"
  by (simp add: digits_at_def length_pad pad_digits pad_value)

lemma separator_at_Cons [simp]: "separator_at c (d # s) = (if d = c then Some s else None)"
  by (simp add: separator_at_def)

lemma pad_not: "c \<in> set (pad k i) \<Longrightarrow> is_digit c"
  using pad_digits [of k i] by (simp add: list_all_iff)

lemma sum_of_parts:
  fixes w :: int
  shows "a * 86400000000 + r = w \<Longrightarrow> s * 1000000 + u = r \<Longrightarrow> t = s \<Longrightarrow>
    (a * 86400 + t) * 1000000 + u = w"
  by simp

lemma wall_parts:
  fixes w :: int
  defines "r \<equiv> w mod 86400000000"
  defines "s \<equiv> r div 1000000"
  shows "(w div 86400000000 * 86400 + (s div 3600 * 3600 + s div 60 mod 60 * 60 + s mod 60)) * 1000000 +
      r mod 1000000 = w"
    and "0 \<le> s div 3600" "s div 3600 < 24" "0 \<le> s div 60 mod 60" "s div 60 mod 60 < 60"
    and "0 \<le> s mod 60" "s mod 60 < 60" "0 \<le> r mod 1000000" "r mod 1000000 < 1000000"
proof -
  have r: "0 \<le> r" "r < 86400000000" unfolding r_def by simp_all
  then have s: "0 \<le> s" "s < 86400" unfolding s_def by linarith+
  then show "0 \<le> s div 3600" "s div 3600 < 24" by linarith+
  show "0 \<le> s div 60 mod 60" "s div 60 mod 60 < 60" "0 \<le> s mod 60" "s mod 60 < 60"
    "0 \<le> r mod 1000000" "r mod 1000000 < 1000000" by simp_all
  have "s div 3600 = s div 60 div 60" using zdiv_zmult2_eq [of 60 s 60] by simp
  then have "s div 3600 * 3600 + s div 60 mod 60 * 60 + s mod 60 = s"
    using div_mult_mod_eq [of "s div 60" 60] div_mult_mod_eq [of s 60] by linarith
  then show "(w div 86400000000 * 86400 + (s div 3600 * 3600 + s div 60 mod 60 * 60 + s mod 60)) * 1000000 +
      r mod 1000000 = w"
    by (rule sum_of_parts [rotated 2]) (simp_all only: s_def r_def div_mult_mod_eq)
qed

lemma fraction_at_digits:
  "list_all is_digit ds \<Longrightarrow> ds \<noteq> [] \<Longrightarrow> length ds \<le> 6 \<Longrightarrow> follows s \<Longrightarrow>
     fraction_at (CHR ''.'' # ds @ s) = Some (int (text_value ds) * 10 ^ (6 - length ds), s)"
  using takeWhile_digits [of ds s] by (simp add: fraction_at_def Let_def)

lemma fraction_at_none: "separator_at CHR ''.'' s = None \<Longrightarrow> fraction_at s = Some (0, s)"
  by (simp add: fraction_at_def)

lemma read_wall_fields:
  assumes date: "valid_date y m d" and hh: "0 \<le> hh" "hh < 24" and mm: "0 \<le> mm" "mm < 60"
    and ss: "0 \<le> ss" "ss < 60" and fraction: "fraction_at (fraction @ rest) = Some (us, rest)"
  shows "read_wall (pad 4 y @ ''-'' @ pad 2 m @ ''-'' @ pad 2 d @ ''T'' @ pad 2 hh @ '':'' @ pad 2 mm @
      '':'' @ pad 2 ss @ fraction @ rest) =
    Some ((days_of_civil y m d * 86400 + (hh * 3600 + mm * 60 + ss)) * 1000000 + us, rest)"
proof -
  have "days_in_month y m \<le> 31" by (simp add: days_in_month_def)
  with date have "0 \<le> y" "y < 10 ^ 4" "0 \<le> m" "m < 10 ^ 2" "0 \<le> d" "d < 10 ^ 2"
    by (simp_all add: valid_date_def)
  moreover have "hh < 10 ^ 2" "mm < 10 ^ 2" "ss < 10 ^ 2" using hh mm ss by simp_all
  ultimately show ?thesis
    unfolding read_wall_def
    using date hh mm ss fraction digits_at_pad by simp
qed

text \<open>The text of a wall clock with any rendering of its microseconds.\<close>

definition whole_seconds :: "int \<Rightarrow> string" where
  "whole_seconds w = wall_text (w - w mod 1000000)"

lemma whole_seconds_parts:
  fixes w :: int
  shows "(w - w mod 1000000) div 86400000000 = w div 86400000000"
    and "(w - w mod 1000000) mod 86400000000 div 1000000 = w mod 86400000000 div 1000000"
    and "(w - w mod 1000000) mod 86400000000 mod 1000000 = 0"
    and "w mod 86400000000 mod 1000000 = w mod 1000000"
proof -
  define s where "s = w div 1000000"
  have w: "w - w mod 1000000 = s * 1000000" unfolding s_def by (simp add: minus_mod_eq_div_mult)
  have d: "w div 86400000000 = s div 86400"
    unfolding s_def using zdiv_zmult2_eq [of 86400 w 1000000] by simp
  show "(w - w mod 1000000) div 86400000000 = w div 86400000000"
    unfolding w d using div_mult_mult2 [of 1000000 s 86400] by simp
  have m: "s * 1000000 mod 86400000000 = s mod 86400 * 1000000"
    using mult_mod_right [of 1000000 s 86400] by (simp add: mult.commute)
  have "w mod 86400000000 = s mod 86400 * 1000000 + w mod 1000000"
    unfolding s_def using zmod_zmult2_eq [of 86400 w 1000000] by simp
  then show "(w - w mod 1000000) mod 86400000000 div 1000000 = w mod 86400000000 div 1000000"
    and "w mod 86400000000 mod 1000000 = w mod 1000000"
    unfolding w m by simp_all
  show "(w - w mod 1000000) mod 86400000000 mod 1000000 = 0" unfolding w m by simp
qed

lemma wall_text_split:
  "wall_text w = whole_seconds w @ (if w mod 1000000 \<noteq> 0 then ''.'' @ pad 6 (w mod 1000000) else [])"
  unfolding whole_seconds_def wall_text_def Let_def whole_seconds_parts
  by (cases "civil_date (w div 86400000000)") simp

lemma read_wall_text:
  assumes w: "in_range w" and fraction: "fraction_at (fraction @ rest) = Some (w mod 1000000, rest)"
  shows "read_wall (whole_seconds w @ fraction @ rest) = Some (w, rest)"
proof -
  obtain y m d where date: "civil_date (w div 86400000000) = (y, m, d)" by (cases "civil_date (w div 86400000000)")
  have "- 719162 \<le> w div 86400000000" "w div 86400000000 \<le> 2932896"
    using w unfolding in_range_def min_wall_def max_wall_def by linarith+
  note year = civil_date_year [OF date this] and civil = days_of_civil_date [OF date]
  have "valid_date y m d" unfolding valid_date_def using year civil(2-5) by blast
  note fields = read_wall_fields [OF this wall_parts(2-7) [of w] fraction]
  have "whole_seconds w @ fraction @ rest =
      pad 4 y @ ''-'' @ pad 2 m @ ''-'' @ pad 2 d @ ''T'' @
      pad 2 (w mod 86400000000 div 1000000 div 3600) @ '':'' @
      pad 2 (w mod 86400000000 div 1000000 div 60 mod 60) @ '':'' @
      pad 2 (w mod 86400000000 div 1000000 mod 60) @ fraction @ rest"
    unfolding whole_seconds_def wall_text_def Let_def whole_seconds_parts date by simp
  then have "read_wall (whole_seconds w @ fraction @ rest) =
      Some ((days_of_civil y m d * 86400 + (w mod 86400000000 div 1000000 div 3600 * 3600 +
        w mod 86400000000 div 1000000 div 60 mod 60 * 60 + w mod 86400000000 div 1000000 mod 60)) *
        1000000 + w mod 1000000, rest)"
    by (simp only: fields)
  also have "\<dots> = Some (w, rest)"
    unfolding civil(1) using wall_parts(1) [of w] by (simp only: whole_seconds_parts(4))
  finally show ?thesis .
qed

lemma read_offset_utc: "read_offset w ''+00:00'' = Some (Utc w)"
proof -
  have "digits_at 2 ''00:00'' = Some (0, '':00'')" "digits_at 2 ''00'' = Some (0, [])" by code_simp+
  then show ?thesis by (simp add: read_offset_def)
qed

lemma read_utc_text:
  "in_range w \<Longrightarrow> fraction_at (fraction @ ''+00:00'') = Some (w mod 1000000, ''+00:00'') \<Longrightarrow>
     read_isoformat (whole_seconds w @ fraction @ ''+00:00'') = Some (Utc w)"
  by (simp only: read_isoformat_def read_wall_text bind.simps prod.case read_offset_utc)

lemma offset_text_utc: "offset_text 0 = ''+00:00''"
  by code_simp

lemma not_fraction: "fraction_at ''+00:00'' = Some (0, ''+00:00'')"
  by (simp add: fraction_at_none)

lemma follows_offset: "follows ''+00:00''"
  by (simp add: char_class_defs)

lemma fraction_at_pad:
  "0 \<le> us \<Longrightarrow> us < 1000000 \<Longrightarrow>
     fraction_at ((if us \<noteq> 0 then ''.'' @ pad 6 us else []) @ ''+00:00'') = Some (us, ''+00:00'')"
proof -
  assume us: "0 \<le> us" "us < 1000000"
  then have "length (pad 6 us) = 6" by (simp add: length_pad)
  then have "pad 6 us \<noteq> []" "length (pad 6 us) \<le> 6" by auto
  from fraction_at_digits [OF pad_digits this follows_offset] us show ?thesis
    by (simp add: length_pad pad_value not_fraction)
qed

theorem read_isoformat_utc: "in_range w \<Longrightarrow> read_isoformat (isoformat (Utc w)) = Some (Utc w)"
proof -
  assume w: "in_range w"
  have "0 \<le> w mod 1000000" "w mod 1000000 < 1000000" by simp_all
  then have "fraction_at ((if w mod 1000000 \<noteq> 0 then ''.'' @ pad 6 (w mod 1000000) else []) @ ''+00:00'') =
      Some (w mod 1000000, ''+00:00'')" by (rule fraction_at_pad)
  from read_utc_text [OF w this] show ?thesis
    by (simp only: isoformat.simps wall_text_split [of w] offset_text_utc append_assoc)
qed

lemma fromisoformat_utc [simp]: "in_range w \<Longrightarrow> fromisoformat other (isoformat (Utc w)) = Inr (Utc w)"
  by (simp only: fromisoformat_def read_isoformat_utc option.case)

text \<open>The text has no letter \<open>Z\<close>.\<close>

lemma wall_text_chars: "c \<in> set (wall_text w) \<Longrightarrow> is_digit c \<or> c \<in> {CHR ''-'', CHR ''T'', CHR '':'', CHR ''.''}"
  by (cases "civil_date (w div 86400000000)")
     (auto simp: wall_text_def Let_def split: if_splits dest!: pad_not)

lemma isoformat_no_Z: "CHR ''Z'' \<notin> set (isoformat (Utc w))"
proof -
  have "CHR ''Z'' \<notin> set (offset_text 0)"
    by (auto simp: offset_text_def dest!: pad_not) (simp_all add: char_class_defs)
  then show ?thesis using wall_text_chars [of "CHR ''Z''" w] by (auto simp: char_class_defs)
qed

subsection \<open>PostgreSQL's rendering in JSON\<close>

text \<open>
  A \<open>timestamptz\<close> inside \<open>json_build_object\<close>, in a session whose time zone is UTC: as \<open>isoformat\<close>, with the
  trailing zeros of the fraction dropped.
\<close>

definition drop_zeros :: "string \<Rightarrow> string" where
  "drop_zeros s = rev (dropWhile (\<lambda>c. c = CHR ''0'') (rev s))"

definition json_timestamp :: "datetime \<Rightarrow> string" where
  "json_timestamp t =
     (let us = instant t mod 1000000 in
      whole_seconds (instant t) @ (if us \<noteq> 0 then ''.'' @ drop_zeros (pad 6 us) else []) @ ''+00:00'')"

lemma drop_zeros_split: "\<exists>k. s = drop_zeros s @ replicate k CHR ''0''"
proof -
  let ?zeros = "takeWhile (\<lambda>c. c = CHR ''0'') (rev s)"
  have "?zeros = replicate (length ?zeros) CHR ''0''"
    by (rule replicate_eqI [symmetric, OF refl, THEN sym]) (auto dest: set_takeWhileD)
  moreover have "s = rev (?zeros @ dropWhile (\<lambda>c. c = CHR ''0'') (rev s))" by simp
  ultimately show ?thesis unfolding drop_zeros_def by (metis rev_append rev_replicate)
qed

lemma fraction_at_dropped:
  assumes us: "0 \<le> us" "us < 1000000"
  shows "fraction_at ((if us \<noteq> 0 then ''.'' @ drop_zeros (pad 6 us) else []) @ ''+00:00'') =
    Some (us, ''+00:00'')"
proof (cases "us = 0")
  case False
  obtain k where k: "pad 6 us = drop_zeros (pad 6 us) @ replicate k CHR ''0''"
    using drop_zeros_split by blast
  let ?ds = "drop_zeros (pad 6 us)"
  have len: "length ?ds + k = 6" using arg_cong [OF k, of length] us by (simp add: length_pad)
  have "list_all is_digit (pad 6 us)" by (rule pad_digits)
  then have digits: "list_all is_digit ?ds" by (subst (asm) k) simp
  have val: "nat us = text_value ?ds * 10 ^ k"
    using arg_cong [OF k, of text_value] us by (simp add: pad_value text_value_append)
  with us False have "?ds \<noteq> []" by auto
  then have "fraction_at (CHR ''.'' # ?ds @ ''+00:00'') =
      Some (int (text_value ?ds) * 10 ^ (6 - length ?ds), ''+00:00'')"
    using len digits by (intro fraction_at_digits follows_offset) simp_all
  moreover have "6 - length ?ds = k" using len by simp
  moreover have "int (text_value ?ds) * 10 ^ k = us" using val us by (metis int_nat_eq of_nat_mult of_nat_numeral of_nat_power)
  ultimately show ?thesis using False by simp
qed (simp add: not_fraction)

lemma read_json_timestamp: "in_range w \<Longrightarrow> read_isoformat (json_timestamp (Utc w)) = Some (Utc w)"
proof -
  assume w: "in_range w"
  have "0 \<le> w mod 1000000" "w mod 1000000 < 1000000" by simp_all
  from read_utc_text [OF w fraction_at_dropped [OF this]] show ?thesis
    by (simp only: json_timestamp_def Let_def instant.simps diff_0_right append_assoc)
qed

lemma fromisoformat_json [simp]:
  "in_range w \<Longrightarrow> fromisoformat other (json_timestamp (Utc w)) = Inr (Utc w)"
  by (simp only: fromisoformat_def read_json_timestamp option.case)

lemma json_timestamp_no_Z: "CHR ''Z'' \<notin> set (json_timestamp (Utc w))"
proof -
  have "set (drop_zeros s) \<subseteq> set s" for s by (auto simp: drop_zeros_def dest: set_dropWhileD)
  then have "CHR ''Z'' \<notin> set (drop_zeros (pad 6 us))" for us
    using pad_not [of "CHR ''Z''" 6 us] by (auto simp: char_class_defs)
  moreover have "CHR ''Z'' \<notin> set (whole_seconds w)"
    using wall_text_chars [of "CHR ''Z''"] by (auto simp: whole_seconds_def char_class_defs)
  ultimately show ?thesis by (auto simp: json_timestamp_def Let_def)
qed

end
