(* ===== verification/Run_Records.thy ===== *)
theory Run_Records
  imports Iso_Timestamps Run_Repository Lease_Records
begin

section \<open>Stored runs, events and receipts\<close>

text \<open>
  The records of \<open>src/zhiyi/adapters/persistence/postgresql_codecs.py\<close>: the row a run, an event or a
  receipt is stored as, and the decoders that turn every malformed row into the data-corruption error.
  The snapshot of a run and the payload of an event are canonical JSON text. The exceptions
  inside a decoder are not told apart: all of them end in \<open>corrupt_run\<close>.
\<close>

definition run_record_version :: int where
  "run_record_version = 1"

definition run_fields :: "string list" where
  "run_fields = [''record_format_version'', ''tenant_id'', ''run_id'', ''task_id'', ''agent_id'',
     ''agent_version_id'', ''agent_build_digest'', ''run_status'', ''run_version'',
     ''next_event_sequence'', ''created_at'', ''updated_at'', ''last_observed_at'',
     ''snapshot_format_version'', ''snapshot'']"

definition event_fields :: "string list" where
  "event_fields = [''record_format_version'', ''event_id'', ''tenant_id'', ''run_id'',
     ''sequence_value'', ''event_type'', ''occurred_at'', ''payload_version'', ''payload'']"

definition receipt_fields :: "string list" where
  "receipt_fields = [''record_format_version'', ''tenant_id'', ''command_id'', ''run_id'',
     ''command_type'', ''intent_fingerprint'', ''resulting_status'', ''resulting_version'',
     ''event_id'', ''created_at'']"

text \<open>\<open>except RunRepositoryError: raise\<close>, \<open>except Exception: _corruption(error)\<close>\<close>

fun corrupt_run :: "exn \<Rightarrow> exn" where
  "corrupt_run (RunRepositoryError c) = RunRepositoryError c"
| "corrupt_run x = RunRepositoryError RepoDataCorruption"

definition or_corruption :: "exn + 'a \<Rightarrow> exn + 'a" where
  "or_corruption r = (case r of Inl x \<Rightarrow> Inl (corrupt_run x) | Inr v \<Rightarrow> Inr v)"

subsection \<open>Reading the values of a record\<close>

definition read_utc :: "datetime \<Rightarrow> exn + datetime" where
  "read_utc t = (if is_utc t then Inr t else Inl ValueError)"

text \<open>\<open>_timestamp\<close>, and \<open>_read_timestamp\<close> on a text and on a database value.\<close>

definition timestamp_text :: "datetime \<Rightarrow> exn + string" where
  "timestamp_text t = (if \<not> is_utc t then Inl ValueError else Inr (isoformat t))"

definition replace_Z :: "string \<Rightarrow> string" where
  "replace_Z s = concat (map (\<lambda>c. if c = CHR ''Z'' then ''+00:00'' else [c]) s)"

definition read_timestamp_text :: "(string \<Rightarrow> exn + datetime) \<Rightarrow> string \<Rightarrow> exn + datetime" where
  "read_timestamp_text other s = result_bind (fromisoformat other (replace_Z s)) read_utc"

fun dv_timestamp :: "(string \<Rightarrow> exn + datetime) \<Rightarrow> db_value \<Rightarrow> exn + datetime" where
  "dv_timestamp other (DvTime t) = read_utc t"
| "dv_timestamp other (DvText s) = read_timestamp_text other s"
| "dv_timestamp other _ = Inl ValueError"

text \<open>\<open>raw[name] != RECORD_FORMAT_VERSION\<close>: a Python \<open>True\<close> equals one.\<close>

fun dv_is_one :: "db_value \<Rightarrow> bool" where
  "dv_is_one (DvInt i) = (i = 1)"
| "dv_is_one (DvBool b) = b"
| "dv_is_one _ = False"

fun dv_payload_version :: "db_value \<Rightarrow> exn + int" where
  "dv_payload_version (DvInt i) = Inr i"
| "dv_payload_version (DvBool b) = Inr (if b then 1 else 0)"
| "dv_payload_version _ = Inl ValueError"

fun dv_json :: "db_value \<Rightarrow> exn + py_value" where
  "dv_json (DvText s) = decode_canonical_json s"
| "dv_json _ = Inl TypeError"

definition dv_integer_text :: "db_value \<Rightarrow> exn + int" where
  "dv_integer_text v = result_bind (dv_text v) decode_canonical_integer"

text \<open>\<open>_mapping(record, fields)\<close> on a row.\<close>

definition row_mapping :: "db_row \<Rightarrow> string list \<Rightarrow> exn + unit" where
  "row_mapping row names = require (set (map fst row) = set names) ValueError"

definition row_version :: "db_row \<Rightarrow> string \<Rightarrow> exn + unit" where
  "row_version row name = field row name (\<lambda>v. require (dv_is_one v) ValueError)"

text \<open>The same for the values inside the snapshot.\<close>

fun pv_mapping :: "py_value \<Rightarrow> string list \<Rightarrow> exn + (string \<times> py_value) list" where
  "pv_mapping (PDict kvs) names =
     (if set (map fst kvs) = set (map PStr names)
      then Inr (map (\<lambda>kv. (dict_key (fst kv), snd kv)) kvs) else Inl ValueError)"
| "pv_mapping _ names = Inl ValueError"

definition pick :: "(string \<times> py_value) list \<Rightarrow> string \<Rightarrow> (py_value \<Rightarrow> exn + 'a) \<Rightarrow> exn + 'a" where
  "pick d name f = (case map_of d name of Some v \<Rightarrow> f v | None \<Rightarrow> Inl KeyError)"

fun pv_text :: "py_value \<Rightarrow> exn + string" where
  "pv_text (PStr s) = Inr s"
| "pv_text _ = Inl ValueError"

fun pv_integer :: "py_value \<Rightarrow> exn + int" where
  "pv_integer (PInt i) = Inr i"
| "pv_integer _ = Inl ValueError"

fun pv_strings :: "py_value \<Rightarrow> exn + string list" where
  "pv_strings (PList vs) = traverse pv_text vs"
| "pv_strings _ = Inl ValueError"

fun pv_option :: "(py_value \<Rightarrow> exn + 'a) \<Rightarrow> py_value \<Rightarrow> exn + 'a option" where
  "pv_option f PNone = Inr None"
| "pv_option f v = result_bind (f v) (\<lambda>x. Inr (Some x))"

definition pv_identifier :: "(string \<Rightarrow> 'i) \<Rightarrow> py_value \<Rightarrow> exn + 'i" where
  "pv_identifier cls v = result_bind (pv_text v) (new_identifier cls)"

definition pv_integer_text :: "py_value \<Rightarrow> exn + int" where
  "pv_integer_text v = result_bind (pv_text v) decode_canonical_integer"

definition pv_timestamp :: "(string \<Rightarrow> exn + datetime) \<Rightarrow> py_value \<Rightarrow> exn + datetime" where
  "pv_timestamp other v = result_bind (pv_text v) (read_timestamp_text other)"

text \<open>\<open>_decimal\<close>\<close>

definition decimal_record :: "string \<Rightarrow> exn + decimal" where
  "decimal_record s =
     (if \<not> decimal_pattern s then Inl ValueError
      else result_bind (canonical_decimal (decimal_of_text s)) (\<lambda>canonical.
        if canonical \<noteq> s then Inl ValueError else Inr (decimal_of_text s)))"

definition pv_decimal :: "py_value \<Rightarrow> exn + decimal" where
  "pv_decimal v = result_bind (pv_text v) decimal_record"

text \<open>\<open>E(_string(value))\<close>: the lookup of an enumeration member by its value.\<close>

definition enum_of :: "('e \<Rightarrow> string) \<Rightarrow> 'e list \<Rightarrow> string \<Rightarrow> exn + 'e" where
  "enum_of name members s =
     (case List.find (\<lambda>e. name e = s) members of Some e \<Rightarrow> Inr e | None \<Rightarrow> Inl ValueError)"

definition run_status_of :: "string \<Rightarrow> exn + run_status" where
  "run_status_of = enum_of run_status_value
     [Queued, Running, WaitingApproval, WaitingResolution, Succeeded, Failed, Cancelled, LimitExceeded]"

definition run_event_type_of :: "string \<Rightarrow> exn + run_event_type" where
  "run_event_type_of = enum_of run_event_type_value
     [RunCreated, RunStarted, RunWaitingApproval, RunWaitingResolution, RunResumed, RunBudgetConsumed,
      RunSucceeded, RunFailedEvent, RunCancelledEvent, RunLimitExceeded]"

definition budget_dimension_of :: "string \<Rightarrow> exn + budget_dimension" where
  "budget_dimension_of = enum_of budget_dimension_value
     [DimDeadline, DimSteps, DimModelCalls, DimToolCalls, DimInputTokens, DimOutputTokens,
      DimTotalTokens, DimCost]"

definition error_code_of :: "string \<Rightarrow> exn + run_error_code" where
  "error_code_of = enum_of run_error_code_value all_run_error_codes"

lemma enum_values [simp]:
  shows "run_status_of (run_status_value s) = Inr s"
    and "run_event_type_of (run_event_type_value t) = Inr t"
    and "budget_dimension_of (budget_dimension_value d) = Inr d"
    and "error_code_of (run_error_code_value c) = Inr c"
proof -
  show "run_status_of (run_status_value s) = Inr s"
    by (cases s) (simp_all add: run_status_of_def enum_of_def)
  show "run_event_type_of (run_event_type_value t) = Inr t"
    by (cases t) (simp_all add: run_event_type_of_def enum_of_def)
  show "budget_dimension_of (budget_dimension_value d) = Inr d"
    by (cases d) (simp_all add: budget_dimension_of_def enum_of_def)
  show "error_code_of (run_error_code_value c) = Inr c"
    by (cases c) (simp_all add: error_code_of_def enum_of_def all_run_error_codes_def)
qed

subsection \<open>Encoding a run\<close>

fun optional_value :: "('a \<Rightarrow> py_value) \<Rightarrow> 'a option \<Rightarrow> py_value" where
  "optional_value f None = PNone"
| "optional_value f (Some x) = f x"

abbreviation PCount :: "int \<Rightarrow> py_value" where
  "PCount i \<equiv> PStr (encode_canonical_integer i)"

text \<open>\<open>_counter_fields\<close>, with the text of the cost.\<close>

definition counter_entries :: "budget_snapshot \<Rightarrow> string \<Rightarrow> (string \<times> py_value) list" where
  "counter_entries s cost =
     [(''steps'', PCount (use_steps s)), (''model_calls'', PCount (use_model_calls s)),
      (''tool_calls'', PCount (use_tool_calls s)), (''input_tokens'', PCount (use_input_tokens s)),
      (''output_tokens'', PCount (use_output_tokens s)), (''cost'', PStr cost),
      (''charge_fingerprints'',
        py_dict (map (\<lambda>(i, f). (charge_id_value i, PStr f)) (use_fingerprints s)))]"

definition counter_fields :: "budget_snapshot \<Rightarrow> exn + py_value" where
  "counter_fields s =
     result_bind (canonical_decimal (use_cost s)) (\<lambda>cost. Inr (py_dict (counter_entries s cost)))"

definition agent_value :: "agent_version_ref \<Rightarrow> py_value" where
  "agent_value a = py_dict
     [(''tenant_id'', PStr (tenant_id_value (avr_tenant_id a))),
      (''agent_id'', PStr (agent_id_value (avr_agent_id a))),
      (''version_id'', PStr (agent_version_id_value (avr_version_id a))),
      (''build_digest'', PStr (avr_build_digest a))]"

definition error_value :: "safe_run_error \<Rightarrow> py_value" where
  "error_value e = py_dict
     [(''code'', PStr (run_error_code_value (err_code e))),
      (''correlation_id'', optional_value (PStr \<circ> correlation_id_value) (err_correlation_id e)),
      (''limit_dimension'', optional_value (PStr \<circ> budget_dimension_value) (err_limit_dimension e))]"

definition draft_value :: "run_result_draft \<Rightarrow> py_value" where
  "draft_value d = py_dict
     [(''answer'', optional_value PStr (dr_answer d)),
      (''warning_codes'', PList (map PStr (dr_warning_codes d))),
      (''citation_ids'', PList (map (PStr \<circ> reference_id_value) (dr_citation_ids d))),
      (''artifact_ids'', PList (map (PStr \<circ> reference_id_value) (dr_artifact_ids d))),
      (''approval_ids'', PList (map (PStr \<circ> reference_id_value) (dr_approval_ids d))),
      (''correlation_id'', optional_value (PStr \<circ> correlation_id_value) (dr_correlation_id d))]"

text \<open>\<open>_encode_result\<close>\<close>

definition encode_result :: "run_result option \<Rightarrow> exn + py_value" where
  "encode_result result =
     (case result of
        None \<Rightarrow> Inr PNone
      | Some r \<Rightarrow>
          result_bind (counter_fields (res_usage r)) (\<lambda>usage. Inr (py_dict
            [(''result_version'', PInt (res_version r)),
             (''tenant_id'', PStr (tenant_id_value (res_tenant_id r))),
             (''run_id'', PStr (run_id_value (res_run_id r))),
             (''agent_version'', agent_value (res_agent_version r)),
             (''status'', PStr (run_status_value (res_status r))),
             (''draft'', draft_value (res_draft r)),
             (''usage'', usage),
             (''error'', optional_value error_value (res_error r))])))"

definition budget_entries :: "run_budget \<Rightarrow> string \<Rightarrow> string \<Rightarrow> (string \<times> py_value) list" where
  "budget_entries b deadline cost =
     [(''deadline_at'', PStr deadline), (''max_steps'', PCount (bud_max_steps b)),
      (''max_model_calls'', PCount (bud_max_model_calls b)),
      (''max_tool_calls'', PCount (bud_max_tool_calls b)),
      (''max_input_tokens'', PCount (bud_max_input_tokens b)),
      (''max_output_tokens'', PCount (bud_max_output_tokens b)),
      (''max_total_tokens'', PCount (bud_max_total_tokens b)),
      (''max_cost'', PStr cost), (''currency'', PStr (bud_currency b))]"

definition budget_value :: "run_budget \<Rightarrow> exn + py_value" where
  "budget_value b =
     result_bind (timestamp_text (bud_deadline_at b)) (\<lambda>deadline.
     result_bind (canonical_decimal (bud_max_cost b)) (\<lambda>cost.
       Inr (py_dict (budget_entries b deadline cost))))"

definition snapshot_value :: "run \<Rightarrow> exn + py_value" where
  "snapshot_value r =
     result_bind (budget_value (r_budget r)) (\<lambda>budget.
     result_bind (counter_fields (r_usage r)) (\<lambda>usage.
     result_bind (timestamp_text (r_created_at r)) (\<lambda>created.
     result_bind (timestamp_text (r_updated_at r)) (\<lambda>updated.
     result_bind (timestamp_text (r_last_observed_at r)) (\<lambda>observed.
     result_bind (encode_result (r_result r)) (\<lambda>result.
       Inr (py_dict
         [(''tenant_id'', PStr (tenant_id_value (r_tenant_id r))),
          (''run_id'', PStr (run_id_value (r_run_id r))),
          (''task_id'', PStr (task_id_value (r_task_id r))),
          (''agent_version'', agent_value (r_agent_version r)),
          (''status'', PStr (run_status_value (r_status r))),
          (''version'', PCount (r_version r)),
          (''budget'', budget), (''usage'', usage),
          (''created_at'', PStr created), (''updated_at'', PStr updated),
          (''last_observed_at'', PStr observed),
          (''next_event_sequence'', PCount (r_next_event_sequence r)),
          (''result'', result)])))))))"

definition run_record :: "run \<Rightarrow> string \<Rightarrow> db_row" where
  "run_record r snapshot =
     [(''record_format_version'', DvInt run_record_version),
      (''tenant_id'', DvText (tenant_id_value (r_tenant_id r))),
      (''run_id'', DvText (run_id_value (r_run_id r))),
      (''task_id'', DvText (task_id_value (r_task_id r))),
      (''agent_id'', DvText (agent_id_value (avr_agent_id (r_agent_version r)))),
      (''agent_version_id'', DvText (agent_version_id_value (avr_version_id (r_agent_version r)))),
      (''agent_build_digest'', DvText (avr_build_digest (r_agent_version r))),
      (''run_status'', DvText (run_status_value (r_status r))),
      (''run_version'', DvText (encode_canonical_integer (r_version r))),
      (''next_event_sequence'', DvText (encode_canonical_integer (r_next_event_sequence r))),
      (''created_at'', DvTime (r_created_at r)),
      (''updated_at'', DvTime (r_updated_at r)),
      (''last_observed_at'', DvTime (r_last_observed_at r)),
      (''snapshot_format_version'', DvInt run_record_version),
      (''snapshot'', DvText snapshot)]"

definition encode_run :: "run \<Rightarrow> exn + db_row" where
  "encode_run r =
     result_bind (snapshot_value r) (\<lambda>snapshot.
     result_bind (encode_canonical_json snapshot) (\<lambda>text. Inr (run_record r text)))"

subsection \<open>Decoding a run\<close>

definition decode_agent :: "py_value \<Rightarrow> exn + agent_version_ref" where
  "decode_agent v =
     result_bind (pv_mapping v [''tenant_id'', ''agent_id'', ''version_id'', ''build_digest'']) (\<lambda>agent.
     result_bind (pick agent ''tenant_id'' (pv_identifier TenantId)) (\<lambda>tenant.
     result_bind (pick agent ''agent_id'' (pv_identifier AgentId)) (\<lambda>agent_id.
     result_bind (pick agent ''version_id'' (pv_identifier AgentVersionId)) (\<lambda>version.
     result_bind (pick agent ''build_digest'' pv_text) (\<lambda>digest.
       agent_version_ref_post_init
         \<lparr>avr_tenant_id = tenant, avr_agent_id = agent_id, avr_version_id = version,
          avr_build_digest = digest\<rparr>)))))"

text \<open>
  \<open>ChargeId(key): str(item)\<close>: the text of an item that is no string never starts with \<open>sha256:\<close>, so
  that the snapshot refuses it; here it is refused at once.
\<close>

definition decode_charge :: "py_value \<times> py_value \<Rightarrow> exn + (charge_id \<times> string)" where
  "decode_charge kv =
     result_bind (pv_identifier ChargeId (fst kv)) (\<lambda>i.
     result_bind (pv_text (snd kv)) (\<lambda>fingerprint. Inr (i, fingerprint)))"

fun decode_charges :: "py_value \<Rightarrow> exn + (charge_id \<times> string) list" where
  "decode_charges (PDict kvs) = traverse decode_charge kvs"
| "decode_charges _ = Inl ValueError"

definition usage_names :: "string list" where
  "usage_names = [''steps'', ''model_calls'', ''tool_calls'', ''input_tokens'', ''output_tokens'',
     ''cost'', ''charge_fingerprints'']"

definition decode_usage :: "py_value \<Rightarrow> exn + budget_snapshot" where
  "decode_usage v =
     result_bind (pv_mapping v usage_names) (\<lambda>raw.
     result_bind (pick raw ''steps'' pv_integer_text) (\<lambda>steps.
     result_bind (pick raw ''model_calls'' pv_integer_text) (\<lambda>model_calls.
     result_bind (pick raw ''tool_calls'' pv_integer_text) (\<lambda>tool_calls.
     result_bind (pick raw ''input_tokens'' pv_integer_text) (\<lambda>input_tokens.
     result_bind (pick raw ''output_tokens'' pv_integer_text) (\<lambda>output_tokens.
     result_bind (pick raw ''cost'' pv_decimal) (\<lambda>cost.
     result_bind (pick raw ''charge_fingerprints'' decode_charges) (\<lambda>charges.
       budget_snapshot_post_init
         \<lparr>use_steps = steps, use_model_calls = model_calls, use_tool_calls = tool_calls,
          use_input_tokens = input_tokens, use_output_tokens = output_tokens, use_cost = cost,
          use_fingerprints = charges\<rparr>))))))))"

definition decode_error_value :: "py_value \<Rightarrow> exn + safe_run_error" where
  "decode_error_value v =
     result_bind (pv_mapping v [''code'', ''correlation_id'', ''limit_dimension'']) (\<lambda>raw.
     result_bind (pick raw ''code'' (\<lambda>c. result_bind (pv_text c) error_code_of)) (\<lambda>code.
     result_bind (pick raw ''correlation_id'' (pv_option (pv_identifier CorrelationId))) (\<lambda>correlation.
     result_bind (pick raw ''limit_dimension''
         (pv_option (\<lambda>d. result_bind (pv_text d) budget_dimension_of))) (\<lambda>dimension.
       safe_run_error_post_init
         \<lparr>err_code = code, err_correlation_id = correlation, err_limit_dimension = dimension\<rparr>))))"

text \<open>\<open>tuple(ReferenceId(item) for item in _strings(value))\<close>\<close>

definition pv_references :: "py_value \<Rightarrow> exn + reference_id list" where
  "pv_references v = result_bind (pv_strings v) (traverse (new_identifier ReferenceId))"

definition decode_draft :: "py_value \<Rightarrow> exn + run_result_draft" where
  "decode_draft v =
     result_bind (pv_mapping v [''answer'', ''warning_codes'', ''citation_ids'', ''artifact_ids'',
         ''approval_ids'', ''correlation_id'']) (\<lambda>raw.
     result_bind (pick raw ''answer'' (pv_option pv_text)) (\<lambda>answer.
     result_bind (pick raw ''warning_codes'' pv_strings) (\<lambda>warnings.
     result_bind (pick raw ''citation_ids'' pv_references) (\<lambda>citations.
     result_bind (pick raw ''artifact_ids'' pv_references) (\<lambda>artifacts.
     result_bind (pick raw ''approval_ids'' pv_references) (\<lambda>approvals.
     result_bind (pick raw ''correlation_id'' (pv_option (pv_identifier CorrelationId))) (\<lambda>correlation.
       run_result_draft_post_init
         \<lparr>dr_answer = answer, dr_warning_codes = warnings, dr_citation_ids = citations,
          dr_artifact_ids = artifacts, dr_approval_ids = approvals,
          dr_correlation_id = correlation\<rparr>)))))))"

definition result_names :: "string list" where
  "result_names = [''result_version'', ''tenant_id'', ''run_id'', ''agent_version'', ''status'',
     ''draft'', ''usage'', ''error'']"

text \<open>\<open>_decode_result\<close> of a value that is not \<open>None\<close>.\<close>

definition decode_result_value :: "py_value \<Rightarrow> exn + run_result" where
  "decode_result_value v =
     result_bind (pv_mapping v result_names) (\<lambda>raw.
     result_bind (pick raw ''error'' (pv_option decode_error_value)) (\<lambda>safe_error.
     result_bind (pick raw ''result_version'' pv_integer) (\<lambda>version.
     result_bind (pick raw ''tenant_id'' (pv_identifier TenantId)) (\<lambda>tenant.
     result_bind (pick raw ''run_id'' (pv_identifier RunId)) (\<lambda>run.
     result_bind (pick raw ''agent_version'' decode_agent) (\<lambda>agent.
     result_bind (pick raw ''status'' (\<lambda>s. result_bind (pv_text s) run_status_of)) (\<lambda>status.
     result_bind (pick raw ''draft'' decode_draft) (\<lambda>draft.
     result_bind (pick raw ''usage'' decode_usage) (\<lambda>usage.
       run_result_post_init
         \<lparr>res_version = version, res_tenant_id = tenant, res_run_id = run, res_agent_version = agent,
          res_status = status, res_draft = draft, res_usage = usage, res_error = safe_error\<rparr>)))))))))"

definition budget_names :: "string list" where
  "budget_names = [''deadline_at'', ''max_steps'', ''max_model_calls'', ''max_tool_calls'',
     ''max_input_tokens'', ''max_output_tokens'', ''max_total_tokens'', ''max_cost'', ''currency'']"

definition decode_budget :: "(string \<Rightarrow> exn + datetime) \<Rightarrow> py_value \<Rightarrow> exn + run_budget" where
  "decode_budget other v =
     result_bind (pv_mapping v budget_names) (\<lambda>raw.
     result_bind (pick raw ''deadline_at'' (pv_timestamp other)) (\<lambda>deadline.
     result_bind (pick raw ''max_steps'' pv_integer_text) (\<lambda>steps.
     result_bind (pick raw ''max_model_calls'' pv_integer_text) (\<lambda>model_calls.
     result_bind (pick raw ''max_tool_calls'' pv_integer_text) (\<lambda>tool_calls.
     result_bind (pick raw ''max_input_tokens'' pv_integer_text) (\<lambda>input_tokens.
     result_bind (pick raw ''max_output_tokens'' pv_integer_text) (\<lambda>output_tokens.
     result_bind (pick raw ''max_total_tokens'' pv_integer_text) (\<lambda>total_tokens.
     result_bind (pick raw ''max_cost'' pv_decimal) (\<lambda>cost.
     result_bind (pick raw ''currency'' pv_text) (\<lambda>currency.
       run_budget_post_init
         \<lparr>bud_deadline_at = deadline, bud_max_steps = steps, bud_max_model_calls = model_calls,
          bud_max_tool_calls = tool_calls, bud_max_input_tokens = input_tokens,
          bud_max_output_tokens = output_tokens, bud_max_total_tokens = total_tokens,
          bud_max_cost = cost, bud_currency = currency\<rparr>))))))))))"

definition snapshot_names :: "string list" where
  "snapshot_names = [''tenant_id'', ''run_id'', ''task_id'', ''agent_version'', ''status'',
     ''version'', ''budget'', ''usage'', ''created_at'', ''updated_at'', ''last_observed_at'',
     ''next_event_sequence'', ''result'']"

definition decode_snapshot :: "(string \<Rightarrow> exn + datetime) \<Rightarrow> py_value \<Rightarrow> exn + run" where
  "decode_snapshot other v =
     result_bind (pv_mapping v snapshot_names) (\<lambda>raw.
     result_bind (pick raw ''tenant_id'' (pv_identifier TenantId)) (\<lambda>tenant.
     result_bind (pick raw ''run_id'' (pv_identifier RunId)) (\<lambda>run.
     result_bind (pick raw ''task_id'' (pv_identifier TaskId)) (\<lambda>task.
     result_bind (pick raw ''agent_version'' decode_agent) (\<lambda>agent.
     result_bind (pick raw ''status'' (\<lambda>s. result_bind (pv_text s) run_status_of)) (\<lambda>status.
     result_bind (pick raw ''version'' pv_integer_text) (\<lambda>version.
     result_bind (pick raw ''budget'' (decode_budget other)) (\<lambda>budget.
     result_bind (pick raw ''usage'' decode_usage) (\<lambda>usage.
     result_bind (pick raw ''created_at'' (pv_timestamp other)) (\<lambda>created.
     result_bind (pick raw ''updated_at'' (pv_timestamp other)) (\<lambda>updated.
     result_bind (pick raw ''last_observed_at'' (pv_timestamp other)) (\<lambda>observed.
     result_bind (pick raw ''next_event_sequence'' pv_integer_text) (\<lambda>next_sequence.
     result_bind (pick raw ''result'' (pv_option decode_result_value)) (\<lambda>result.
       run_post_init
         \<lparr>r_tenant_id = tenant, r_run_id = run, r_task_id = task, r_agent_version = agent,
          r_status = status, r_version = version, r_budget = budget, r_usage = usage,
          r_created_at = created, r_updated_at = updated, r_last_observed_at = observed,
          r_next_event_sequence = next_sequence, r_result = result\<rparr>))))))))))))))"

text \<open>The projections: the columns beside the snapshot.\<close>

definition text_projections :: "run \<Rightarrow> (string \<times> string) list" where
  "text_projections r =
     [(''tenant_id'', tenant_id_value (r_tenant_id r)), (''run_id'', run_id_value (r_run_id r)),
      (''task_id'', task_id_value (r_task_id r)),
      (''agent_id'', agent_id_value (avr_agent_id (r_agent_version r))),
      (''agent_version_id'', agent_version_id_value (avr_version_id (r_agent_version r))),
      (''agent_build_digest'', avr_build_digest (r_agent_version r)),
      (''run_status'', run_status_value (r_status r)),
      (''run_version'', encode_canonical_integer (r_version r)),
      (''next_event_sequence'', encode_canonical_integer (r_next_event_sequence r))]"

definition projections_agree :: "(string \<Rightarrow> exn + datetime) \<Rightarrow> db_row \<Rightarrow> run \<Rightarrow> exn + unit" where
  "projections_agree other row r =
     result_bind (field row ''created_at'' (dv_timestamp other)) (\<lambda>created.
     result_bind (field row ''updated_at'' (dv_timestamp other)) (\<lambda>updated.
     result_bind (field row ''last_observed_at'' (dv_timestamp other)) (\<lambda>observed.
       require
         (list_all (\<lambda>(name, text). map_of row name = Some (DvText text)) (text_projections r) \<and>
          instant (r_created_at r) = instant created \<and> instant (r_updated_at r) = instant updated \<and>
          instant (r_last_observed_at r) = instant observed) ValueError)))"

definition decode_run_raw :: "(string \<Rightarrow> exn + datetime) \<Rightarrow> db_row \<Rightarrow> exn + run" where
  "decode_run_raw other row =
     result_bind (row_mapping row run_fields) (\<lambda>_.
     result_bind (row_version row ''record_format_version'') (\<lambda>_.
     result_bind (row_version row ''snapshot_format_version'') (\<lambda>_.
     result_bind (field row ''snapshot'' dv_json) (\<lambda>snapshot.
     result_bind (decode_snapshot other snapshot) (\<lambda>r.
     result_bind (projections_agree other row r) (\<lambda>_. Inr r))))))"

definition decode_run :: "(string \<Rightarrow> exn + datetime) \<Rightarrow> db_row \<Rightarrow> exn + run" where
  "decode_run other row = or_corruption (decode_run_raw other row)"

subsection \<open>Events and receipts\<close>

definition event_record :: "run_event \<Rightarrow> string \<Rightarrow> db_row" where
  "event_record e payload =
     [(''record_format_version'', DvInt run_record_version),
      (''event_id'', DvText (event_id_value (ev_event_id e))),
      (''tenant_id'', DvText (tenant_id_value (ev_tenant_id e))),
      (''run_id'', DvText (run_id_value (ev_run_id e))),
      (''sequence_value'', DvText (encode_canonical_integer (ev_sequence e))),
      (''event_type'', DvText (run_event_type_value (ev_type e))),
      (''occurred_at'', DvTime (ev_occurred_at e)),
      (''payload_version'', DvInt (ev_payload_version e)),
      (''payload'', DvText payload)]"

definition encode_event :: "run_event \<Rightarrow> exn + db_row" where
  "encode_event e =
     result_bind (encode_canonical_json (thaw_event_payload (ev_payload e))) (\<lambda>payload.
       Inr (event_record e payload))"

text \<open>The payload must be an object before the other fields are read.\<close>

fun is_pdict :: "py_value \<Rightarrow> bool" where
  "is_pdict (PDict kvs) = True"
| "is_pdict _ = False"

definition decode_event_raw :: "(string \<Rightarrow> exn + datetime) \<Rightarrow> db_row \<Rightarrow> exn + run_event" where
  "decode_event_raw other row =
     result_bind (row_mapping row event_fields) (\<lambda>_.
     result_bind (row_version row ''record_format_version'') (\<lambda>_.
     result_bind (field row ''payload'' dv_json) (\<lambda>payload.
     result_bind (require (is_pdict payload) ValueError) (\<lambda>_.
     result_bind (field row ''event_id'' (dv_identifier EventId)) (\<lambda>eid.
     result_bind (field row ''tenant_id'' (dv_identifier TenantId)) (\<lambda>tenant.
     result_bind (field row ''run_id'' (dv_identifier RunId)) (\<lambda>run.
     result_bind (field row ''sequence_value'' dv_integer_text) (\<lambda>sequence.
     result_bind (field row ''event_type'' (\<lambda>v. result_bind (dv_text v) run_event_type_of)) (\<lambda>type.
     result_bind (field row ''occurred_at'' (dv_timestamp other)) (\<lambda>occurred.
     result_bind (field row ''payload_version'' dv_payload_version) (\<lambda>version.
       new_run_event eid tenant run sequence type occurred version payload)))))))))))"

definition decode_event :: "(string \<Rightarrow> exn + datetime) \<Rightarrow> db_row \<Rightarrow> exn + run_event" where
  "decode_event other row = or_corruption (decode_event_raw other row)"

definition receipt_record :: "command_receipt \<Rightarrow> db_row" where
  "receipt_record r =
     [(''record_format_version'', DvInt run_record_version),
      (''tenant_id'', DvText (tenant_id_value (rc_tenant_id r))),
      (''command_id'', DvText (command_id_value (rc_command_id r))),
      (''run_id'', DvText (run_id_value (rc_run_id r))),
      (''command_type'', DvText (rc_command_type r)),
      (''intent_fingerprint'', DvText (rc_fingerprint r)),
      (''resulting_status'', DvText (run_status_value (rc_status r))),
      (''resulting_version'', DvText (encode_canonical_integer (rc_version r))),
      (''event_id'', case rc_event_ids r of [] \<Rightarrow> DvNull | e # _ \<Rightarrow> DvText (event_id_value e)),
      (''created_at'', DvTime (rc_created_at r))]"

definition encode_receipt :: "command_receipt \<Rightarrow> exn + db_row" where
  "encode_receipt r =
     (if 1 < length (rc_event_ids r) then Inl ValueError else Inr (receipt_record r))"

definition decode_receipt_raw :: "(string \<Rightarrow> exn + datetime) \<Rightarrow> db_row \<Rightarrow> exn + command_receipt" where
  "decode_receipt_raw other row =
     result_bind (row_mapping row receipt_fields) (\<lambda>_.
     result_bind (row_version row ''record_format_version'') (\<lambda>_.
     result_bind (field row ''tenant_id'' (dv_identifier TenantId)) (\<lambda>tenant.
     result_bind (field row ''command_id'' (dv_identifier CommandId)) (\<lambda>command.
     result_bind (field row ''run_id'' (dv_identifier RunId)) (\<lambda>run.
     result_bind (field row ''command_type'' dv_text) (\<lambda>type.
     result_bind (field row ''intent_fingerprint'' dv_text) (\<lambda>fingerprint.
     result_bind (field row ''resulting_status'' (\<lambda>v. result_bind (dv_text v) run_status_of)) (\<lambda>status.
     result_bind (field row ''resulting_version'' dv_integer_text) (\<lambda>version.
     result_bind (field row ''event_id'' (dv_option (dv_identifier EventId))) (\<lambda>event_id.
     result_bind (field row ''created_at'' (dv_timestamp other)) (\<lambda>created.
       command_receipt_post_init
         \<lparr>rc_tenant_id = tenant, rc_command_id = command, rc_run_id = run, rc_command_type = type,
          rc_fingerprint = fingerprint, rc_status = status, rc_version = version,
          rc_event_ids = (case event_id of None \<Rightarrow> [] | Some e \<Rightarrow> [e]),
          rc_created_at = created\<rparr>)))))))))))"

definition decode_receipt :: "(string \<Rightarrow> exn + datetime) \<Rightarrow> db_row \<Rightarrow> exn + command_receipt" where
  "decode_receipt other row = or_corruption (decode_receipt_raw other row)"

end
