(* ===== verification/Run_Roundtrip.thy ===== *)
theory Run_Roundtrip
  imports Run_Records Run_Lifecycle_Props
begin

section \<open>Reading back stored runs, events and receipts\<close>

text \<open>
  Decoding the row of a run gives the run in its stored form: decimals without trailing zeros, the fingerprints
  of the charges in the order of their identifiers. The stored form is equal to the run as the code
  compares runs (\<open>run_eq\<close>). An event comes back with its payload's keys in order, a receipt as it was.
\<close>

subsection \<open>Dictionaries\<close>

lemma insort_key_map: "insort_key f (g x) (map g xs) = map g (insort_key (f \<circ> g) x xs)"
  by (induction xs) simp_all

lemma sort_key_map: "sort_key f (map g xs) = map g (sort_key (f \<circ> g) xs)"
  by (induction xs) (simp_all add: insort_key_map comp_def)

lemma distinct_map_sort_key [simp]: "distinct (map g (sort_key f xs)) = distinct (map g xs)"
  by (simp add: distinct_map)

lemma map_of_sort_key: "distinct (map fst xs) \<Longrightarrow> map_of (sort_key f xs) = map_of xs"
  by (simp add: map_of_inject_set)

lemma distinct_map_fst_pairs [simp]: "map fst (map (\<lambda>kv. (fst kv, h (snd kv))) xs) = map fst xs"
  by simp

lemma json_plain_dict [simp]:
  "json_plain (py_dict kvs) \<longleftrightarrow> distinct (map fst kvs) \<and> list_all (\<lambda>kv. json_plain (snd kv)) kvs"
  by (simp add: py_dict_def comp_def list_all_iff)

lemma json_normal_dict:
  "json_normal (py_dict kvs) =
     PDict (map (\<lambda>kv. (PStr (fst kv), json_normal (snd kv))) (sort_key fst kvs))"
  by (simp add: py_dict_def sort_key_map comp_def)

lemma map_of_map_snd: "map_of (map (\<lambda>kv. (fst kv, h (snd kv))) xs) k = map_option h (map_of xs k)"
  by (induction xs) simp_all

lemma pv_mapping_normal:
  assumes "distinct (map fst kvs)" and "set (map fst kvs) = set names"
  obtains d where "pv_mapping (json_normal (py_dict kvs)) names = Inr d"
    and "\<And>k. map_of d k = map_option json_normal (map_of kvs k)"
proof
  let ?d = "map (\<lambda>kv. (fst kv, json_normal (snd kv))) (sort_key fst kvs)"
  have "PStr ` fst ` set kvs = PStr ` set names" using assms(2) by simp
  then show "pv_mapping (json_normal (py_dict kvs)) names = Inr ?d"
    by (simp add: json_normal_dict comp_def image_image)
  show "map_of ?d k = map_option json_normal (map_of kvs k)" for k
    by (simp add: map_of_map_snd map_of_sort_key [OF assms(1)])
qed

lemma json_normal_strings [simp]:
  "map json_normal (map PStr zs) = map PStr zs"
  "map (json_normal \<circ> PStr) zs = map PStr zs"
  "map (json_normal \<circ> (PStr \<circ> f)) xs = map (PStr \<circ> f) xs"
  "map json_normal (map (PStr \<circ> f) xs) = map (PStr \<circ> f) xs"
  by simp_all

lemma json_normal_optional [simp]:
  "(\<And>x. json_normal (f x) = f x) \<Longrightarrow> json_normal (optional_value f v) = optional_value f v"
  by (cases v) simp_all

lemma json_plain_optional [simp]:
  "(\<And>x. v = Some x \<Longrightarrow> json_plain (f x)) \<Longrightarrow> json_plain (optional_value f v)"
  by (cases v) simp_all

lemma pv_option_optional:
  "(\<And>x. v = Some x \<Longrightarrow> f x \<noteq> PNone \<and> g (f x) = Inr x) \<Longrightarrow> pv_option g (optional_value f v) = Inr v"
  by (cases v; cases "f (the v)") auto

subsection \<open>Scalars\<close>

lemma pv_integer_text_count [simp]: "pv_integer_text (PCount i) = Inr i"
  by (simp add: pv_integer_text_def)

lemma pv_identifier_text [simp]: "pv_identifier cls (PStr s) = new_identifier cls s"
  by (simp add: pv_identifier_def)

lemma new_identifier_ok: "identifier_pattern s \<Longrightarrow> new_identifier cls s = Inr (cls s)"
  by simp

lemma replace_Z_id: "CHR ''Z'' \<notin> set s \<Longrightarrow> replace_Z s = s"
  by (induction s) (auto simp: replace_Z_def)

definition utc_time :: "datetime \<Rightarrow> bool" where
  "utc_time t \<longleftrightarrow> is_utc t \<and> in_range (wall t)"

lemma utc_time_cases: "utc_time t \<Longrightarrow> \<exists>w. t = Utc w \<and> in_range w"
  by (cases t) (auto simp: utc_time_def)

lemma timestamp_text_utc: "utc_time t \<Longrightarrow> timestamp_text t = Inr (isoformat t)"
  by (simp add: timestamp_text_def utc_time_def)

lemma read_timestamp_text_written:
  assumes "CHR ''Z'' \<notin> set s" and "fromisoformat other s = Inr t" and "is_utc t"
  shows "read_timestamp_text other s = Inr t"
  using assms by (simp add: read_timestamp_text_def replace_Z_id read_utc_def)

lemma read_timestamp_text_iso: "utc_time t \<Longrightarrow> read_timestamp_text other (isoformat t) = Inr t"
proof -
  assume "utc_time t"
  then obtain w where w: "t = Utc w" "in_range w" using utc_time_cases by blast
  show ?thesis
    unfolding w(1)
    by (rule read_timestamp_text_written [OF isoformat_no_Z fromisoformat_utc [OF w(2)]]) simp
qed

lemma pv_timestamp_iso: "utc_time t \<Longrightarrow> pv_timestamp other (PStr (isoformat t)) = Inr t"
  by (simp add: pv_timestamp_def read_timestamp_text_iso)

lemma dv_timestamp_time: "is_utc t \<Longrightarrow> dv_timestamp other (DvTime t) = Inr t"
  by (simp add: read_utc_def)

lemma dv_timestamp_json: "utc_time t \<Longrightarrow> dv_timestamp other (DvText (json_timestamp t)) = Inr t"
proof -
  assume "utc_time t"
  then obtain w where w: "t = Utc w" "in_range w" using utc_time_cases by blast
  show ?thesis
    unfolding w(1) dv_timestamp.simps
    by (rule read_timestamp_text_written [OF json_timestamp_no_Z fromisoformat_json [OF w(2)]]) simp
qed

text \<open>The decimal that the text of another one denotes.\<close>

definition stored_decimal :: "decimal \<Rightarrow> decimal" where
  "stored_decimal d = (case canonical_decimal d of Inr s \<Rightarrow> decimal_of_text s | Inl _ \<Rightarrow> d)"

lemma text_value_last_digit: "is_digit d \<Longrightarrow> d \<noteq> CHR ''0'' \<Longrightarrow> text_value (s @ [d]) \<noteq> 0"
proof -
  assume d: "is_digit d" "d \<noteq> CHR ''0''"
  have "digit_value d \<noteq> 0"
  proof
    assume "digit_value d = 0"
    with digit_char_value [OF d(1)] d(2) show False by simp
  qed
  moreover have "text_value [d] = digit_value d" by (simp add: text_value_def)
  ultimately show ?thesis by (simp add: text_value_append)
qed

lemma decimal_pattern_normal: "decimal_pattern s \<Longrightarrow> dec_normal (decimal_of_text s)"
proof -
  define ip f where "ip = takeWhile (\<lambda>c. c \<noteq> CHR ''.'') s" and "f = tl (dropWhile (\<lambda>c. c \<noteq> CHR ''.'') s)"
  then have eq: "decimal_of_text s = Fin False (text_value (ip @ f)) (- int (length f))"
    by (simp add: decimal_of_text_def Let_def)
  assume "decimal_pattern s"
  then have "dropWhile (\<lambda>c. c \<noteq> CHR ''.'') s = [] \<or> fraction_ok (tl (dropWhile (\<lambda>c. c \<noteq> CHR ''.'') s))"
    unfolding decimal_pattern_def Let_def by blast
  then have "f = [] \<or> fraction_ok f" unfolding f_def by (elim disjE) (simp_all only: list.sel simp_thms)
  then show ?thesis
  proof
    assume "fraction_ok f"
    then have "f \<noteq> []" "list_all is_digit f" "last f \<noteq> CHR ''0''" unfolding fraction_ok_def by blast+
    then have "is_digit (last f)" by (simp add: list_all_iff)
    from text_value_last_digit [OF this \<open>last f \<noteq> _\<close>, of "ip @ butlast f"] \<open>f \<noteq> []\<close>
    have "text_value (ip @ f) \<noteq> 0" by simp
    then show ?thesis unfolding eq by simp
  qed (simp add: eq)
qed

lemma stored_decimal_facts:
  assumes "dec_normal d"
  obtains s where "canonical_decimal d = Inr s" and "decimal_record s = Inr (stored_decimal d)"
    and "dec_normal (stored_decimal d)" and "dec_value (stored_decimal d) = dec_value d"
    and "canonical_decimal (stored_decimal d) = Inr s"
proof -
  obtain s where s: "canonical_decimal d = Inr s" "decimal_pattern s"
      "dec_value (decimal_of_text s) = dec_value d"
    using canonical_decimal_ok [OF assms] by blast
  have normal: "dec_normal (decimal_of_text s)" using s(2) by (rule decimal_pattern_normal)
  have "canonical_decimal (decimal_of_text s) = Inr s"
    using canonical_decimal_eq_iff [OF normal assms] s(1,3) by simp
  then show thesis
    using s normal by (intro that [of s]) (simp_all add: stored_decimal_def decimal_record_def)
qed

subsection \<open>The parts of a snapshot\<close>

lemma pick_Some: "map_of d name = Some v \<Longrightarrow> pick d name f = f v"
  by (simp add: pick_def)

definition stored_usage :: "budget_snapshot \<Rightarrow> budget_snapshot" where
  "stored_usage s = s\<lparr>use_cost := stored_decimal (use_cost s),
     use_fingerprints := sort_key (charge_id_value \<circ> fst) (use_fingerprints s)\<rparr>"

definition stored_budget :: "run_budget \<Rightarrow> run_budget" where
  "stored_budget b = b\<lparr>bud_max_cost := stored_decimal (bud_max_cost b)\<rparr>"

definition stored_result :: "run_result \<Rightarrow> run_result" where
  "stored_result r = r\<lparr>res_usage := stored_usage (res_usage r)\<rparr>"

definition stored_run :: "run \<Rightarrow> run" where
  "stored_run r = r\<lparr>r_budget := stored_budget (r_budget r), r_usage := stored_usage (r_usage r),
     r_result := map_option stored_result (r_result r)\<rparr>"

text \<open>The identifiers of the absorbed charges passed their constructor.\<close>

definition charges_ok :: "budget_snapshot \<Rightarrow> bool" where
  "charges_ok s \<longleftrightarrow> list_all (\<lambda>(i, f). identifier_pattern (charge_id_value i)) (use_fingerprints s)"

lemma stored_usage_ok: "budget_snapshot_ok s \<Longrightarrow> budget_snapshot_ok (stored_usage s)"
  by (auto simp: budget_snapshot_ok_def stored_usage_def list_all_iff
      elim!: stored_decimal_facts)

lemma charge_entries_distinct:
  "distinct (map fst (fps :: (charge_id \<times> string) list)) \<Longrightarrow>
     distinct (map fst (map (\<lambda>(i, f). (charge_id_value i, PStr f)) fps))"
  by (induction fps) (auto simp: image_iff charge_id.expand)

lemma decode_charges_normal:
  assumes "list_all (\<lambda>(i, f). identifier_pattern (charge_id_value i)) fps"
  shows "decode_charges (json_normal (py_dict (map (\<lambda>(i, f). (charge_id_value i, PStr f)) fps))) =
    Inr (sort_key (charge_id_value \<circ> fst) fps)"
proof -
  have entry: "decode_charge (PStr (charge_id_value (fst e)), PStr (snd e)) = Inr e" if "e \<in> set fps" for e
    using assms that by (auto simp: decode_charge_def list_all_iff new_identifier_ok)
  have "sort_key fst (map (\<lambda>(i, f). (charge_id_value i, PStr f)) fps) =
      map (\<lambda>e. (charge_id_value (fst e), PStr (snd e))) (sort_key (charge_id_value \<circ> fst) fps)"
    by (simp add: case_prod_beta' sort_key_map comp_def)
  then have "json_normal (py_dict (map (\<lambda>(i, f). (charge_id_value i, PStr f)) fps)) =
      PDict (map (\<lambda>e. (PStr (charge_id_value (fst e)), PStr (snd e))) (sort_key (charge_id_value \<circ> fst) fps))"
    by (simp add: json_normal_dict)
  then show ?thesis
    using traverse_all_Inr [of "sort_key (charge_id_value \<circ> fst) fps"
        "decode_charge \<circ> (\<lambda>e. (PStr (charge_id_value (fst e)), PStr (snd e)))" id] entry
    by (simp add: traverse_map)
qed

lemma counter_entries_plain:
  "budget_snapshot_ok s \<Longrightarrow> json_plain (py_dict (counter_entries s cost))"
  using charge_entries_distinct [of "use_fingerprints s"]
  by (auto simp: counter_entries_def budget_snapshot_ok_def list_all_iff)

lemma pv_decimal_text: "decimal_record s = Inr d \<Longrightarrow> pv_decimal (PStr s) = Inr d"
  by (simp add: pv_decimal_def)

lemma decode_usage_normal:
  assumes ok: "budget_snapshot_ok s" and ids: "charges_ok s"
    and cost: "decimal_record cost = Inr (stored_decimal (use_cost s))"
  shows "decode_usage (json_normal (py_dict (counter_entries s cost))) = Inr (stored_usage s)"
proof -
  obtain d where d: "pv_mapping (json_normal (py_dict (counter_entries s cost))) usage_names = Inr d"
    and look: "\<And>k. map_of d k = map_option json_normal (map_of (counter_entries s cost) k)"
    by (rule pv_mapping_normal [of "counter_entries s cost" usage_names])
      (auto simp: counter_entries_def usage_names_def)
  have "budget_snapshot_post_init (stored_usage s) = Inr (stored_usage s)"
    using stored_usage_ok [OF ok] by (rule budget_snapshot_post_init_ok)
  then show ?thesis
    using ids unfolding decode_usage_def d result_bind_Inr
    by (cases s) (simp add: pick_def look counter_entries_def pv_decimal_text cost
        decode_charges_normal charges_ok_def stored_usage_def)
qed

lemma counter_fields_back:
  assumes "budget_snapshot_ok s" and "charges_ok s"
  obtains v where "counter_fields s = Inr v" and "json_plain v" and "v \<noteq> PNone"
    and "decode_usage (json_normal v) = Inr (stored_usage s)"
proof -
  have "dec_normal (use_cost s)" using assms(1) by (simp add: budget_snapshot_ok_def)
  then obtain t where t: "canonical_decimal (use_cost s) = Inr t"
      "decimal_record t = Inr (stored_decimal (use_cost s))" using stored_decimal_facts by blast
  show thesis
  proof (rule that [of "py_dict (counter_entries s t)"])
    show "py_dict (counter_entries s t) \<noteq> PNone" by (simp add: py_dict_def)
  qed (use t decode_usage_normal [OF assms t(2)] counter_entries_plain [OF assms(1)]
      in \<open>simp_all add: counter_fields_def\<close>)
qed

lemma decode_agent_normal:
  assumes "agent_version_ref_ok a"
  shows "decode_agent (json_normal (agent_value a)) = Inr a"
proof -
  let ?kvs = "[(''tenant_id'', PStr (tenant_id_value (avr_tenant_id a))),
      (''agent_id'', PStr (agent_id_value (avr_agent_id a))),
      (''version_id'', PStr (agent_version_id_value (avr_version_id a))),
      (''build_digest'', PStr (avr_build_digest a))]"
  obtain d where d: "pv_mapping (json_normal (agent_value a))
        [''tenant_id'', ''agent_id'', ''version_id'', ''build_digest''] = Inr d"
    and look: "\<And>k. map_of d k = map_option json_normal (map_of ?kvs k)"
    unfolding agent_value_def
    by (rule pv_mapping_normal [of ?kvs "[''tenant_id'', ''agent_id'', ''version_id'', ''build_digest'']"]) auto
  have "agent_version_ref_post_init a = Inr a" using assms by (rule agent_version_ref_post_init_ok)
  with assms show ?thesis
    unfolding decode_agent_def d result_bind_Inr
    by (cases a) (simp add: pick_def look agent_version_ref_ok_def new_identifier_ok)
qed

lemma agent_value_plain [simp]: "json_plain (agent_value a)"
  by (simp add: agent_value_def)

lemma budget_back:
  assumes ok: "run_budget_ok b" and t: "utc_time (bud_deadline_at b)"
  obtains v where "budget_value b = Inr v" and "json_plain v"
    and "decode_budget other (json_normal v) = Inr (stored_budget b)"
proof -
  have "dec_normal (bud_max_cost b)" using ok by (simp add: run_budget_ok_def)
  then obtain c where c: "canonical_decimal (bud_max_cost b) = Inr c"
      "decimal_record c = Inr (stored_decimal (bud_max_cost b))"
      "dec_normal (stored_decimal (bud_max_cost b))" using stored_decimal_facts by blast
  let ?kvs = "budget_entries b (isoformat (bud_deadline_at b)) c"
  obtain d where d: "pv_mapping (json_normal (py_dict ?kvs)) budget_names = Inr d"
    and look: "\<And>k. map_of d k = map_option json_normal (map_of ?kvs k)"
    by (rule pv_mapping_normal [of ?kvs budget_names]) (auto simp: budget_entries_def budget_names_def)
  have "run_budget_ok (stored_budget b)"
    using ok c(3) by (simp add: run_budget_ok_def stored_budget_def)
  then have "run_budget_post_init (stored_budget b) = Inr (stored_budget b)"
    by (rule run_budget_post_init_ok)
  then have "decode_budget other (json_normal (py_dict ?kvs)) = Inr (stored_budget b)"
    using t c unfolding decode_budget_def d result_bind_Inr
    by (cases b) (simp add: pick_def look budget_entries_def pv_decimal_text
        pv_timestamp_iso stored_budget_def)
  moreover have "json_plain (py_dict ?kvs)" by (simp add: budget_entries_def)
  ultimately show thesis
    using t c(1) by (intro that [of "py_dict ?kvs"]) (simp_all add: budget_value_def timestamp_text_utc)
qed

subsection \<open>Results\<close>

lemma traverse_texts [simp]: "traverse pv_text (map PStr xs) = Inr xs"
  by (induction xs) simp_all

lemma traverse_references:
  "list_all (\<lambda>i. identifier_pattern (reference_id_value i)) rs \<Longrightarrow>
     traverse (new_identifier ReferenceId) (map reference_id_value rs) = Inr rs"
  by (induction rs) (simp_all add: new_identifier_ok)

lemma pv_references_back:
  "references_ok rs \<Longrightarrow> pv_references (PList (map (PStr \<circ> reference_id_value) rs)) = Inr rs"
  using traverse_texts [of "map reference_id_value rs"]
  by (simp add: pv_references_def references_ok_def traverse_references)

lemma pv_correlation_back:
  "correlation_ok c \<Longrightarrow>
     pv_option (pv_identifier CorrelationId) (optional_value (PStr \<circ> correlation_id_value) c) = Inr c"
  by (cases c) (simp_all add: new_identifier_ok)

lemma pv_dimension_back:
  "pv_option (\<lambda>d. result_bind (pv_text d) budget_dimension_of)
     (optional_value (PStr \<circ> budget_dimension_value) c) = Inr c"
  by (cases c) simp_all

lemma pv_answer_back: "pv_option pv_text (optional_value PStr a) = Inr a"
  by (cases a) simp_all

lemma decode_error_normal:
  assumes "safe_run_error_ok e"
  shows "decode_error_value (json_normal (error_value e)) = Inr e"
proof -
  let ?kvs = "[(''code'', PStr (run_error_code_value (err_code e))),
      (''correlation_id'', optional_value (PStr \<circ> correlation_id_value) (err_correlation_id e)),
      (''limit_dimension'', optional_value (PStr \<circ> budget_dimension_value) (err_limit_dimension e))]"
  obtain d where d: "pv_mapping (json_normal (error_value e))
        [''code'', ''correlation_id'', ''limit_dimension''] = Inr d"
    and look: "\<And>k. map_of d k = map_option json_normal (map_of ?kvs k)"
    unfolding error_value_def
    by (rule pv_mapping_normal [of ?kvs "[''code'', ''correlation_id'', ''limit_dimension'']"]) auto
  have "safe_run_error_post_init e = Inr e" using assms by (rule safe_run_error_post_init_ok)
  with assms show ?thesis
    unfolding decode_error_value_def d result_bind_Inr
    by (cases e) (simp add: pick_def look safe_run_error_ok_def pv_correlation_back pv_dimension_back)
qed

lemma decode_draft_normal:
  assumes "run_result_draft_ok dr"
  shows "decode_draft (json_normal (draft_value dr)) = Inr dr"
proof -
  let ?kvs = "[(''answer'', optional_value PStr (dr_answer dr)),
      (''warning_codes'', PList (map PStr (dr_warning_codes dr))),
      (''citation_ids'', PList (map (PStr \<circ> reference_id_value) (dr_citation_ids dr))),
      (''artifact_ids'', PList (map (PStr \<circ> reference_id_value) (dr_artifact_ids dr))),
      (''approval_ids'', PList (map (PStr \<circ> reference_id_value) (dr_approval_ids dr))),
      (''correlation_id'', optional_value (PStr \<circ> correlation_id_value) (dr_correlation_id dr))]"
  obtain d where d: "pv_mapping (json_normal (draft_value dr)) [''answer'', ''warning_codes'',
        ''citation_ids'', ''artifact_ids'', ''approval_ids'', ''correlation_id''] = Inr d"
    and look: "\<And>k. map_of d k = map_option json_normal (map_of ?kvs k)"
    unfolding draft_value_def
    by (rule pv_mapping_normal [of ?kvs "[''answer'', ''warning_codes'', ''citation_ids'',
        ''artifact_ids'', ''approval_ids'', ''correlation_id'']"]) auto
  have "run_result_draft_post_init dr = Inr dr" using assms by (rule run_result_draft_post_init_ok)
  with assms show ?thesis
    unfolding decode_draft_def d result_bind_Inr
    by (cases dr) (simp add: pick_def look run_result_draft_ok_def pv_correlation_back pv_answer_back
        pv_references_back del: map_map)
qed

lemma values_plain [simp]: "json_plain (draft_value dr)" "json_plain (error_value e)"
  by (simp_all add: draft_value_def error_value_def list_all_iff)

lemma stored_result_ok: "run_result_post_init r = Inr r \<Longrightarrow> run_result_post_init (stored_result r) = Inr (stored_result r)"
  by (auto simp: run_result_post_init_def stored_result_def split: if_splits option.splits)

lemma json_normal_error:
  "pv_option decode_error_value (json_normal (optional_value error_value e)) = Inr e \<longleftrightarrow>
     (\<forall>x. e = Some x \<longrightarrow> decode_error_value (json_normal (error_value x)) = Inr x)"
  by (cases e) (auto simp: error_value_def py_dict_def result_bind_eq_Inr)

lemma result_back:
  assumes ok: "run_result_ok r" and ids: "charges_ok (res_usage r)"
    and tenant: "identifier_pattern (tenant_id_value (res_tenant_id r))"
    and run: "identifier_pattern (run_id_value (res_run_id r))"
    and agent: "agent_version_ref_ok (res_agent_version r)"
  obtains v where "encode_result (Some r) = Inr v" and "json_plain v"
    and "pv_option decode_result_value (json_normal v) = Inr (Some (stored_result r))"
proof -
  have usage: "budget_snapshot_ok (res_usage r)" and draft: "run_result_draft_ok (res_draft r)"
    and err: "case res_error r of None \<Rightarrow> True | Some e \<Rightarrow> safe_run_error_ok e"
    and post: "run_result_post_init r = Inr r"
    using ok by (simp_all add: run_result_ok_def)
  obtain u where u: "counter_fields (res_usage r) = Inr u" "json_plain u"
      "decode_usage (json_normal u) = Inr (stored_usage (res_usage r))"
    using counter_fields_back [OF usage ids] by metis
  let ?kvs = "[(''result_version'', PInt (res_version r)),
             (''tenant_id'', PStr (tenant_id_value (res_tenant_id r))),
             (''run_id'', PStr (run_id_value (res_run_id r))),
             (''agent_version'', agent_value (res_agent_version r)),
             (''status'', PStr (run_status_value (res_status r))),
             (''draft'', draft_value (res_draft r)),
             (''usage'', u),
             (''error'', optional_value error_value (res_error r))]"
  obtain d where d: "pv_mapping (json_normal (py_dict ?kvs)) result_names = Inr d"
    and look: "\<And>k. map_of d k = map_option json_normal (map_of ?kvs k)"
    by (rule pv_mapping_normal [of ?kvs result_names]) (auto simp: result_names_def)
  have "pv_option decode_error_value (json_normal (optional_value error_value (res_error r))) = Inr (res_error r)"
    unfolding json_normal_error using err by (auto intro: decode_error_normal)
  moreover have "run_result_post_init (stored_result r) = Inr (stored_result r)"
    using post by (rule stored_result_ok)
  ultimately have "decode_result_value (json_normal (py_dict ?kvs)) = Inr (stored_result r)"
    unfolding decode_result_value_def d result_bind_Inr
    using u tenant run decode_agent_normal [OF agent] decode_draft_normal [OF draft]
    by (cases r) (simp add: pick_def look new_identifier_ok stored_result_def)
  moreover have "json_normal (py_dict ?kvs) \<noteq> PNone" by (simp add: json_normal_dict)
  ultimately have "pv_option decode_result_value (json_normal (py_dict ?kvs)) = Inr (Some (stored_result r))"
    by (cases "json_normal (py_dict ?kvs)") simp_all
  moreover have "json_plain (py_dict ?kvs)" using u(2) by simp
  ultimately show thesis
    using u(1) by (intro that [of "py_dict ?kvs"]) (simp_all add: encode_result_def)
qed

subsection \<open>Runs\<close>

text \<open>What a run needs besides \<open>run_ok\<close>: each value of it can exist in the program.\<close>

definition run_storable :: "run \<Rightarrow> bool" where
  "run_storable r \<longleftrightarrow>
     run_ok r \<and> charges_ok (r_usage r) \<and>
     list_all utc_time [bud_deadline_at (r_budget r), r_created_at r, r_updated_at r, r_last_observed_at r]"

lemma run_storableD:
  assumes "run_storable r"
  shows "run_ok r" and "charges_ok (r_usage r)" and "utc_time (bud_deadline_at (r_budget r))"
    and "utc_time (r_created_at r)" and "utc_time (r_updated_at r)" and "utc_time (r_last_observed_at r)"
  using assms by (simp_all add: run_storable_def)

lemma optional_result_back:
  assumes "run_storable r"
  obtains v where "encode_result (r_result r) = Inr v" and "json_plain v"
    and "pv_option decode_result_value (json_normal v) = Inr (map_option stored_result (r_result r))"
proof (cases "r_result r")
  case None
  then show thesis by (intro that [of PNone]) (simp_all add: encode_result_def)
next
  case (Some res)
  have ok: "run_ok r" and ids: "charges_ok (r_usage r)" using assms by (simp_all add: run_storable_def)
  then have "run_result_ok res" "res_usage res = r_usage r"
      "identifier_pattern (tenant_id_value (r_tenant_id r))" "identifier_pattern (run_id_value (r_run_id r))"
      "agent_version_ref_ok (r_agent_version r)" and post: "run_post_init r = Inr r"
    using Some by (simp_all add: run_ok_def)
  moreover have "res_tenant_id res = r_tenant_id r" "res_run_id res = r_run_id r"
      "res_agent_version res = r_agent_version r"
    using post Some by (auto simp: run_post_init_def split: if_splits)
  ultimately show thesis
    using result_back [of res] ids Some that by (metis option.map(2))
qed

lemma stored_decimal_eq: "dec_normal d \<Longrightarrow> dec_eq (stored_decimal d) d"
proof -
  assume d: "dec_normal d"
  have finite: "dec_normal x \<Longrightarrow> is_finite x" for x by (cases x) simp_all
  from d obtain s where "dec_normal (stored_decimal d)" "dec_value (stored_decimal d) = dec_value d"
    using stored_decimal_facts by blast
  with d finite show ?thesis by (simp add: dec_eq_value)
qed

lemma dec_eq_stored: "dec_normal d \<Longrightarrow> dec_normal e \<Longrightarrow> dec_eq e (stored_decimal d) = dec_eq e d"
proof -
  assume d: "dec_normal d" and e: "dec_normal e"
  have finite: "dec_normal x \<Longrightarrow> is_finite x" for x by (cases x) simp_all
  from d obtain s where "dec_normal (stored_decimal d)" "dec_value (stored_decimal d) = dec_value d"
    using stored_decimal_facts by blast
  with d e finite show ?thesis by (simp add: dec_eq_value)
qed

lemma budget_snapshot_eq_stored:
  assumes "budget_snapshot_ok s" and "budget_snapshot_ok t"
  shows "budget_snapshot_eq t (stored_usage s) = budget_snapshot_eq t s"
  using assms dec_eq_stored [of "use_cost s" "use_cost t"]
  by (simp add: budget_snapshot_eq_def stored_usage_def budget_snapshot_ok_def dict_eq_def)

lemma stored_usage_eq: "budget_snapshot_ok s \<Longrightarrow> budget_snapshot_eq (stored_usage s) s"
  by (simp add: budget_snapshot_eq_def stored_usage_def budget_snapshot_ok_def dict_eq_def
      stored_decimal_eq)

lemma stored_run_eq: "run_ok r \<Longrightarrow> run_eq (stored_run r) r"
  by (auto simp: run_eq_def stored_run_def run_ok_def run_budget_eq_def stored_budget_def
      run_budget_ok_def stored_decimal_eq stored_usage_eq run_result_option_eq_def
      run_result_eq_def stored_result_def run_result_ok_def split: option.splits)

lemma run_eq_stored:
  assumes "run_ok r" and "run_ok u"
  shows "run_eq u (stored_run r) = run_eq u r"
proof -
  have "run_budget_eq (r_budget u) (stored_budget (r_budget r)) = run_budget_eq (r_budget u) (r_budget r)"
    using assms dec_eq_stored [of "bud_max_cost (r_budget r)" "bud_max_cost (r_budget u)"]
    by (simp add: run_budget_eq_def stored_budget_def run_ok_def run_budget_ok_def)
  moreover have "budget_snapshot_eq (r_usage u) (stored_usage (r_usage r)) =
      budget_snapshot_eq (r_usage u) (r_usage r)"
    using assms by (intro budget_snapshot_eq_stored) (simp_all add: run_ok_def)
  moreover have "run_result_option_eq (r_result u) (map_option stored_result (r_result r)) =
      run_result_option_eq (r_result u) (r_result r)"
    using assms
    by (auto simp: run_result_option_eq_def run_result_eq_def stored_result_def run_ok_def
        run_result_ok_def budget_snapshot_eq_stored split: option.splits)
  ultimately show ?thesis by (simp add: run_eq_def stored_run_def)
qed

lemma stored_run_post_init:
  assumes "run_ok r"
  shows "run_post_init (stored_run r) = Inr (stored_run r)"
proof -
  have "budget_snapshot_eq (stored_usage (r_usage r)) (stored_usage (r_usage r))" by simp
  moreover have "res_usage res = r_usage r" if "r_result r = Some res" for res
    using assms that by (simp add: run_ok_def)
  moreover have "run_post_init r = Inr r" using assms by (simp add: run_ok_def)
  ultimately show ?thesis
    by (cases "r_result r")
      (auto simp: run_post_init_def stored_run_def stored_budget_def stored_result_def split: if_splits)
qed

lemma snapshot_back:
  assumes r: "run_storable r"
  obtains v where "snapshot_value r = Inr v" and "json_plain v"
    and "decode_snapshot other (json_normal v) = Inr (stored_run r)"
proof -
  note s = run_storableD [OF r]
  have parts: "run_budget_ok (r_budget r)" "budget_snapshot_ok (r_usage r)"
      "identifier_pattern (tenant_id_value (r_tenant_id r))" "identifier_pattern (run_id_value (r_run_id r))"
      "identifier_pattern (task_id_value (r_task_id r))" "agent_version_ref_ok (r_agent_version r)"
    using s(1) by (simp_all add: run_ok_def)
  obtain b where b: "budget_value (r_budget r) = Inr b" "json_plain b"
      "decode_budget other (json_normal b) = Inr (stored_budget (r_budget r))"
    using budget_back [OF parts(1) s(3)] by blast
  obtain u where u: "counter_fields (r_usage r) = Inr u" "json_plain u"
      "decode_usage (json_normal u) = Inr (stored_usage (r_usage r))"
    using counter_fields_back [OF parts(2) s(2)] by blast
  obtain res where res: "encode_result (r_result r) = Inr res" "json_plain res"
      "pv_option decode_result_value (json_normal res) = Inr (map_option stored_result (r_result r))"
    using optional_result_back [OF r] by blast
  let ?kvs = "[(''tenant_id'', PStr (tenant_id_value (r_tenant_id r))),
          (''run_id'', PStr (run_id_value (r_run_id r))),
          (''task_id'', PStr (task_id_value (r_task_id r))),
          (''agent_version'', agent_value (r_agent_version r)),
          (''status'', PStr (run_status_value (r_status r))),
          (''version'', PCount (r_version r)),
          (''budget'', b), (''usage'', u),
          (''created_at'', PStr (isoformat (r_created_at r))),
          (''updated_at'', PStr (isoformat (r_updated_at r))),
          (''last_observed_at'', PStr (isoformat (r_last_observed_at r))),
          (''next_event_sequence'', PCount (r_next_event_sequence r)),
          (''result'', res)]"
  obtain d where d: "pv_mapping (json_normal (py_dict ?kvs)) snapshot_names = Inr d"
    and look: "\<And>k. map_of d k = map_option json_normal (map_of ?kvs k)"
    by (rule pv_mapping_normal [of ?kvs snapshot_names]) (auto simp: snapshot_names_def)
  have "decode_snapshot other (json_normal (py_dict ?kvs)) = run_post_init (stored_run r)"
    unfolding decode_snapshot_def d result_bind_Inr
    using b(3) u(3) res(3) parts decode_agent_normal [OF parts(6)]
      pv_timestamp_iso [OF s(4)] pv_timestamp_iso [OF s(5)] pv_timestamp_iso [OF s(6)]
    by (cases r) (simp add: pick_def look new_identifier_ok stored_run_def del: isoformat.simps)
  moreover have "json_plain (py_dict ?kvs)" using b(2) u(2) res(2) by simp
  moreover have "snapshot_value r = Inr (py_dict ?kvs)"
    unfolding snapshot_value_def b(1) u(1) res(1) result_bind_Inr timestamp_text_utc [OF s(4)]
      timestamp_text_utc [OF s(5)] timestamp_text_utc [OF s(6)] ..
  ultimately show thesis
    using stored_run_post_init [OF s(1)] by (intro that [of "py_dict ?kvs"]) simp_all
qed

text \<open>The row of a run, and reading it back.\<close>

lemma encode_run_row:
  assumes "run_storable r"
  obtains t v where "encode_run r = Inr (run_record r t)" and "decode_canonical_json t = Inr (json_normal v)"
    and "decode_snapshot other (json_normal v) = Inr (stored_run r)" and "snapshot_value r = Inr v"
    and "encode_canonical_json v = Inr t"
proof -
  obtain v where v: "snapshot_value r = Inr v" "json_plain v"
      "decode_snapshot other (json_normal v) = Inr (stored_run r)"
    using snapshot_back [OF assms] by blast
  then obtain t where "encode_canonical_json v = Inr t" "decode_canonical_json t = Inr (json_normal v)"
    using json_roundtrip by blast
  with v show thesis by (intro that [of t v]) (simp_all add: encode_run_def)
qed

lemma stored_run_fields [simp]:
  "r_tenant_id (stored_run r) = r_tenant_id r" "r_run_id (stored_run r) = r_run_id r"
  "r_task_id (stored_run r) = r_task_id r" "r_agent_version (stored_run r) = r_agent_version r"
  "r_status (stored_run r) = r_status r" "r_version (stored_run r) = r_version r"
  "r_created_at (stored_run r) = r_created_at r" "r_updated_at (stored_run r) = r_updated_at r"
  "r_last_observed_at (stored_run r) = r_last_observed_at r"
  "r_next_event_sequence (stored_run r) = r_next_event_sequence r"
  by (simp_all add: stored_run_def)

lemma decode_run_record:
  assumes r: "run_storable r" and t: "decode_canonical_json t = Inr (json_normal v)"
    and v: "decode_snapshot other (json_normal v) = Inr (stored_run r)"
  shows "decode_run other (run_record r t) = Inr (stored_run r)"
proof -
  have "is_utc (r_created_at r)" "is_utc (r_updated_at r)" "is_utc (r_last_observed_at r)"
    using run_storableD(4-6) [OF r] by (simp_all add: utc_time_def)
  then have "projections_agree other (run_record r t) (stored_run r) = Inr ()"
    by (simp add: projections_agree_def run_record_def field_def column_def read_utc_def
        text_projections_def)
  moreover have "row_mapping (run_record r t) run_fields = Inr ()"
    by (simp add: row_mapping_def run_record_def run_fields_def insert_commute)
  moreover have "row_version (run_record r t) ''record_format_version'' = Inr ()"
      "row_version (run_record r t) ''snapshot_format_version'' = Inr ()"
    by (simp_all add: row_version_def run_record_def field_def column_def run_record_version_def)
  moreover have "field (run_record r t) ''snapshot'' dv_json = Inr (json_normal v)"
    using t by (simp add: field_def column_def run_record_def)
  ultimately have "decode_run_raw other (run_record r t) = Inr (stored_run r)"
    using v by (simp add: decode_run_raw_def)
  then show ?thesis by (simp add: decode_run_def or_corruption_def)
qed

lemma decode_encode_run:
  assumes "run_storable r"
  shows "\<exists>row. encode_run r = Inr row \<and> decode_run other row = Inr (stored_run r)"
  using encode_run_row [OF assms, of other] decode_run_record [OF assms] by metis

text \<open>The text of a stored run depends only on what the code compares: equal runs have one row.\<close>

lemma traverse_cong_map: "(\<And>x. x \<in> set xs \<Longrightarrow> f (g x) = f x) \<Longrightarrow> traverse f (map g xs) = traverse f xs"
  by (simp add: traverse_map) (rule traverse_cong; simp)

lemma sort_key_sorted: "sort_key f (sort_key f xs) = sort_key f xs"
  by (rule sort_key_id_if_sorted) simp

lemma encode_json_normal: "json_plain v \<Longrightarrow> encode_canonical_json (json_normal v) = encode_canonical_json v"
proof (induction v rule: json_normal.induct)
  case (1 kvs)
  let ?g = "\<lambda>kv. (fst kv, json_normal (snd kv))"
  let ?f = "\<lambda>kv. result_bind (encode_canonical_json (snd kv)) (\<lambda>t. Inr (plain_string (dict_key (fst kv)) @ '':'' @ t))"
  have "traverse ?f (map ?g (sort_key (dict_key \<circ> fst) kvs)) = traverse ?f (sort_key (dict_key \<circ> fst) kvs)"
    using 1 by (intro traverse_cong_map) (simp add: list_all_iff)
  moreover have "sort_key (dict_key \<circ> fst) (map ?g (sort_key (dict_key \<circ> fst) kvs)) =
      map ?g (sort_key (dict_key \<circ> fst) kvs)"
    by (simp add: sort_key_map comp_def sort_key_sorted [unfolded comp_def])
  ultimately show ?case using 1(2) by (simp add: list_all_iff)
next
  case (2 vs)
  then have "traverse encode_canonical_json (map json_normal vs) = traverse encode_canonical_json vs"
    by (intro traverse_cong_map) (simp add: list_all_iff)
  then show ?case by simp
next
  case (3 vs)
  then have "traverse encode_canonical_json (map json_normal vs) = traverse encode_canonical_json vs"
    by (intro traverse_cong_map) (simp add: list_all_iff)
  then show ?case by simp
qed simp_all

definition same_normal :: "string \<times> py_value \<Rightarrow> string \<times> py_value \<Rightarrow> bool" where
  "same_normal a b \<longleftrightarrow> fst a = fst b \<and> json_normal (snd a) = json_normal (snd b)"

lemma json_normal_dict_cong:
  assumes "list_all2 same_normal xs ys"
  shows "json_normal (py_dict xs) = json_normal (py_dict ys)"
proof -
  let ?g = "\<lambda>kv. (PStr (fst kv), json_normal (snd kv))"
  have "map ?g xs = map ?g ys" using assms by (induction rule: list_all2_induct) (simp_all add: same_normal_def)
  moreover have "map ?g (sort_key fst zs) = sort_key (dict_key \<circ> fst) (map ?g zs)" for zs
    by (simp add: sort_key_map comp_def)
  ultimately show ?thesis by (simp add: json_normal_dict)
qed

lemma sort_key_fst_eq:
  fixes xs ys :: "(string \<times> 'a) list"
  assumes "distinct (map fst xs)" and "distinct (map fst ys)" and "set xs = set ys"
  shows "sort_key fst xs = sort_key fst ys"
proof (rule map_sorted_distinct_set_unique)
  show "inj_on fst (set (sort_key fst xs) \<union> set (sort_key fst ys))"
    using assms by (simp add: distinct_map)
qed (use assms in simp_all)

lemma canonical_decimal_cong:
  assumes "dec_normal a" and "dec_normal b" and "dec_eq a b"
  shows "canonical_decimal a = canonical_decimal b"
proof -
  have finite: "dec_normal x \<Longrightarrow> is_finite x" for x by (cases x) simp_all
  with assms canonical_decimal_eq_iff [OF assms(1,2)] show ?thesis by (simp add: dec_eq_value)
qed

lemma counter_fields_cong:
  assumes s: "budget_snapshot_ok s" and t: "budget_snapshot_ok t" and eq: "budget_snapshot_eq s t"
    and v: "counter_fields s = Inr v" and w: "counter_fields t = Inr w"
  shows "json_normal v = json_normal w"
proof -
  let ?entries = "map (\<lambda>(i, f). (charge_id_value i, PStr f))"
  have "set (?entries (use_fingerprints s)) = set (?entries (use_fingerprints t))"
    using eq by (simp add: budget_snapshot_eq_def dict_eq_def)
  then have "sort_key fst (?entries (use_fingerprints s)) = sort_key fst (?entries (use_fingerprints t))"
    using s t charge_entries_distinct [of "use_fingerprints s"] charge_entries_distinct [of "use_fingerprints t"]
    by (intro sort_key_fst_eq) (simp_all add: budget_snapshot_ok_def)
  then have "json_normal (py_dict (?entries (use_fingerprints s))) = json_normal (py_dict (?entries (use_fingerprints t)))"
    by (simp add: json_normal_dict)
  moreover have "canonical_decimal (use_cost s) = canonical_decimal (use_cost t)"
    using s t eq by (intro canonical_decimal_cong) (simp_all add: budget_snapshot_ok_def budget_snapshot_eq_def)
  ultimately show ?thesis
    using v w eq
    by (auto simp: counter_fields_def result_bind_eq_Inr counter_entries_def budget_snapshot_eq_def
        same_normal_def intro!: json_normal_dict_cong)
qed

lemma budget_value_cong:
  assumes "run_budget_ok a" and "run_budget_ok b" and "run_budget_eq a b"
  shows "budget_value a = budget_value b"
proof -
  have "canonical_decimal (bud_max_cost a) = canonical_decimal (bud_max_cost b)"
    using assms by (intro canonical_decimal_cong) (simp_all add: run_budget_ok_def run_budget_eq_def)
  with assms(3) show ?thesis by (simp add: budget_value_def budget_entries_def run_budget_eq_def)
qed

lemma encode_result_cong:
  assumes "run_storable r" and "run_storable u" and eq: "run_result_option_eq (r_result r) (r_result u)"
    and v: "encode_result (r_result r) = Inr v" and w: "encode_result (r_result u) = Inr w"
  shows "json_normal v = json_normal w"
proof (cases "r_result r")
  case None
  with eq v w show ?thesis by (auto simp: run_result_option_eq_def encode_result_def)
next
  case (Some a)
  with eq obtain b where b: "r_result u = Some b" and ab: "run_result_eq a b"
    by (cases "r_result u") (auto simp: run_result_option_eq_def)
  from v Some obtain x where x: "counter_fields (res_usage a) = Inr x"
    by (auto simp: encode_result_def result_bind_eq_Inr)
  from w b obtain y where y: "counter_fields (res_usage b) = Inr y"
    by (auto simp: encode_result_def result_bind_eq_Inr)
  have "budget_snapshot_ok (res_usage a)" "budget_snapshot_ok (res_usage b)"
    using run_storableD(1) [OF assms(1)] run_storableD(1) [OF assms(2)] Some b
    by (simp_all add: run_ok_def run_result_ok_def)
  from counter_fields_cong [OF this _ x y] ab have "json_normal x = json_normal y"
    by (simp add: run_result_eq_def)
  with v w Some b x y ab show ?thesis
    by (auto simp: encode_result_def run_result_eq_def same_normal_def intro!: json_normal_dict_cong)
qed

lemma snapshot_value_cong:
  assumes r: "run_storable r" and u: "run_storable u" and eq: "run_eq r u"
    and v: "snapshot_value r = Inr v" and w: "snapshot_value u = Inr w"
  shows "json_normal v = json_normal w"
proof -
  have ok: "run_ok r" "run_ok u" using r u by (simp_all add: run_storable_def)
  have "budget_value (r_budget r) = budget_value (r_budget u)"
    using ok eq by (intro budget_value_cong) (simp_all add: run_ok_def run_eq_def)
  moreover have "json_normal x = json_normal y"
    if "counter_fields (r_usage r) = Inr x" "counter_fields (r_usage u) = Inr y" for x y
    using ok eq that by (intro counter_fields_cong) (simp_all add: run_ok_def run_eq_def)
  moreover have "json_normal x = json_normal y"
    if "encode_result (r_result r) = Inr x" "encode_result (r_result u) = Inr y" for x y
    using eq that by (intro encode_result_cong [OF r u]) (simp_all add: run_eq_def)
  ultimately show ?thesis
    using v w eq
    by (auto simp: snapshot_value_def result_bind_eq_Inr run_eq_def same_normal_def
        intro!: json_normal_dict_cong)
qed

lemma encode_run_cong:
  assumes r: "run_storable r" and u: "run_storable u" and eq: "run_eq r u"
  shows "encode_run r = encode_run u"
proof -
  obtain t v where t: "encode_run r = Inr (run_record r t)" "snapshot_value r = Inr v"
      "encode_canonical_json v = Inr t" using encode_run_row [OF r] by metis
  obtain t' v' where t': "encode_run u = Inr (run_record u t')" "snapshot_value u = Inr v'"
      "encode_canonical_json v' = Inr t'" using encode_run_row [OF u] by metis
  have "json_plain v" "json_plain v'"
    using snapshot_back [OF r] snapshot_back [OF u] t(2) t'(2) by (metis sum.inject(2))+
  moreover have "json_normal v = json_normal v'" using snapshot_value_cong [OF r u eq t(2) t'(2)] .
  ultimately have "t = t'" using t(3) t'(3) by (metis encode_json_normal sum.inject(2))
  moreover have "run_record r t = run_record u t" using eq by (simp add: run_record_def run_eq_def)
  ultimately show ?thesis using t(1) t'(1) by simp
qed

subsection \<open>Events\<close>

text \<open>A payload in the order of its keys, at every level.\<close>

fun frozen_normal :: "frozen \<Rightarrow> frozen" where
  "frozen_normal (FTuple fs) = FTuple (map frozen_normal fs)"
| "frozen_normal (FMap kvs) = FMap (sort_key fst (map (\<lambda>kv. (fst kv, frozen_normal (snd kv))) kvs))"
| "frozen_normal f = f"

definition payload_normal :: "payload \<Rightarrow> payload" where
  "payload_normal p = sort_key fst (map (\<lambda>kv. (fst kv, frozen_normal (snd kv))) p)"

definition stored_event :: "run_event \<Rightarrow> run_event" where
  "stored_event e = e\<lparr>ev_payload := payload_normal (ev_payload e)\<rparr>"

lemma json_normal_thaw: "json_normal (thaw f) = thaw (frozen_normal f)"
proof (induction f)
  case (FMap kvs)
  have "map (\<lambda>kv. (PStr (fst kv), json_normal (thaw (snd kv)))) (sort_key fst kvs) =
      map (\<lambda>kv. (PStr (fst kv), thaw (frozen_normal (snd kv)))) (sort_key fst kvs)"
    using FMap by (intro map_cong) (auto simp: prod_set_defs)
  then show ?case by (simp add: sort_key_map comp_def)
qed simp_all

lemma json_plain_thaw: "frozen_ok f \<Longrightarrow> json_plain (thaw f)"
proof (induction f)
  case (FTuple fs)
  then show ?case by (auto simp: list_all_iff)
next
  case (FMap kvs)
  then show ?case by (auto simp: list_all_iff comp_def prod_set_defs)
qed simp_all

lemma frozen_normal_ok: "frozen_ok f \<Longrightarrow> frozen_ok (frozen_normal f)"
proof (induction f)
  case (FTuple fs)
  then show ?case by (auto simp: list_all_iff)
next
  case (FMap kvs)
  then show ?case by (auto simp: list_all_iff comp_def prod_set_defs)
qed simp_all

lemma payload_normal_thaw: "json_normal (thaw_event_payload p) = thaw_event_payload (payload_normal p)"
  using json_normal_thaw [of "FMap p"] by (simp add: thaw_event_payload_def payload_normal_def)

lemma payload_normal_ok: "payload_ok p \<Longrightarrow> payload_ok (payload_normal p)"
  using frozen_normal_ok [of "FMap p"] by (simp add: payload_ok_def payload_normal_def)

lemma map_of_payload_normal:
  "distinct (map fst p) \<Longrightarrow> map_of (payload_normal p) k = map_option frozen_normal (map_of p k)"
  by (simp add: payload_normal_def map_of_sort_key comp_def map_of_map_snd)

lemma keys_payload_normal [simp]: "fst ` set (payload_normal p) = fst ` set p"
  by (simp add: payload_normal_def image_image)

text \<open>The schema looks at a payload through its keys, so that the order does not matter.\<close>

lemma frozen_normal_leaves [simp]:
  "frozen_normal v = FStr s \<longleftrightarrow> v = FStr s"
  "positive_int (frozen_normal v) = positive_int v"
  "counter_int (frozen_normal v) = counter_int v"
  "equals_one (frozen_normal v) = equals_one v"
  "validate_identifier_field (frozen_normal v) = validate_identifier_field v"
  by (cases v; simp)+

lemma hashable_normal [simp]: "hashable (frozen_normal v) = hashable v"
  by (induction v) (auto simp: list_all_iff)

lemma member_of_normal [simp]: "member_of (frozen_normal v) names = member_of v names"
proof -
  have "frozen_normal v \<in> set (map FStr names) \<longleftrightarrow> v \<in> set (map FStr names)"
    by (cases v) auto
  then show ?thesis by (simp add: member_of_def)
qed

lemma usage_parts_normal:
  "tokens_consistent (map_option frozen_normal a) (map_option frozen_normal b) (map_option frozen_normal c) =
     tokens_consistent a b c"
  "canonical_cost (map_option frozen_normal a) = canonical_cost a"
proof -
  show "canonical_cost (map_option frozen_normal a) = canonical_cost a"
    by (cases a; cases "the a") simp_all
  show "tokens_consistent (map_option frozen_normal a) (map_option frozen_normal b)
      (map_option frozen_normal c) = tokens_consistent a b c"
  proof (cases "\<exists>i j k. a = Some (FInt i) \<and> b = Some (FInt j) \<and> c = Some (FInt k)")
    case False
    have none: "\<not> tokens_consistent x y z"
      if "\<not> (\<exists>i j k. x = Some (FInt i) \<and> y = Some (FInt j) \<and> z = Some (FInt k))" for x y z
      using that by (cases "(x, y, z)" rule: tokens_consistent.cases) auto
    have "\<not> (\<exists>i j k. map_option frozen_normal a = Some (FInt i) \<and> map_option frozen_normal b = Some (FInt j) \<and>
        map_option frozen_normal c = Some (FInt k))"
    proof -
      have "frozen_normal v = FInt i \<longleftrightarrow> v = FInt i" for v i by (cases v) simp_all
      with False show ?thesis by auto
    qed
    with none False show ?thesis by blast
  qed auto
qed

lemma validate_usage_normal: "frozen_ok v \<Longrightarrow> validate_usage (frozen_normal v) = validate_usage v"
proof (cases v)
  case (FMap kvs)
  moreover assume "frozen_ok v"
  ultimately have "distinct (map fst kvs)" by simp
  then have look: "map_of (sort_key fst (map (\<lambda>kv. (fst kv, frozen_normal (snd kv))) kvs)) k =
      map_option frozen_normal (map_of kvs k)" for k
    using map_of_payload_normal [of kvs k] by (simp add: payload_normal_def)
  have counters: "(case map_option frozen_normal x of None \<Rightarrow> False | Some v \<Rightarrow> counter_int v) =
      (case x of None \<Rightarrow> False | Some v \<Rightarrow> counter_int v)" for x by (cases x) simp_all
  show ?thesis
    unfolding FMap frozen_normal.simps validate_usage.simps look counters usage_parts_normal
    by (simp add: image_image)
qed simp_all

lemma item_payload_normal:
  "distinct (map fst p) \<Longrightarrow>
     result_bind (item (payload_normal p) n) f = result_bind (item p n) (\<lambda>v. f (frozen_normal v))"
  by (cases "map_of p n") (simp_all add: item_def map_of_payload_normal)

lemma when_present_payload_normal:
  "distinct (map fst p) \<Longrightarrow> when_present (payload_normal p) n f = when_present p n (\<lambda>v. f (frozen_normal v))"
  by (cases "map_of p n") (simp_all add: when_present_def map_of_payload_normal)

lemma item_usage_normal:
  "payload_ok p \<Longrightarrow> result_bind (item p n) (\<lambda>v. validate_usage (frozen_normal v)) =
     result_bind (item p n) validate_usage"
  by (cases "map_of p n")
     (auto simp: item_def payload_ok_def list_all_iff validate_usage_normal dest!: map_of_SomeD)

lemma validate_payload_normal:
  assumes "payload_ok p"
  shows "validate_payload_schema t (payload_normal p) = validate_payload_schema t p"
proof -
  have d: "distinct (map fst p)" using assms by (simp add: payload_ok_def)
  show ?thesis
    unfolding validate_payload_schema_def item_payload_normal [OF d] when_present_payload_normal [OF d]
      item_usage_normal [OF assms]
    by (cases "expected_previous_status t"; cases "expected_error_value t"; simp)
qed

lemma stored_event_ok: "run_event_ok e \<Longrightarrow> run_event_ok (stored_event e)"
  by (auto simp: run_event_ok_def stored_event_def validate_payload_normal payload_normal_ok)

lemma stored_event_fields [simp]:
  "ev_event_id (stored_event e) = ev_event_id e" "ev_tenant_id (stored_event e) = ev_tenant_id e"
  "ev_run_id (stored_event e) = ev_run_id e" "ev_sequence (stored_event e) = ev_sequence e"
  "ev_type (stored_event e) = ev_type e" "ev_occurred_at (stored_event e) = ev_occurred_at e"
  "ev_payload_version (stored_event e) = ev_payload_version e"
  by (simp_all add: stored_event_def)

text \<open>The identifiers and the time of an event exist in the program.\<close>

definition event_storable :: "run_event \<Rightarrow> bool" where
  "event_storable e \<longleftrightarrow>
     run_event_ok e \<and> utc_time (ev_occurred_at e) \<and> identifier_pattern (event_id_value (ev_event_id e)) \<and>
     identifier_pattern (tenant_id_value (ev_tenant_id e)) \<and> identifier_pattern (run_id_value (ev_run_id e))"

lemma encode_event_row:
  assumes "event_storable e"
  obtains t where "encode_event e = Inr (event_record e t)"
    and "decode_canonical_json t = Inr (thaw_event_payload (payload_normal (ev_payload e)))"
proof -
  have "payload_ok (ev_payload e)" using assms by (simp add: event_storable_def run_event_ok_def)
  then have "json_plain (thaw_event_payload (ev_payload e))"
    using json_plain_thaw [of "FMap (ev_payload e)"] by (simp add: payload_ok_def thaw_event_payload_def)
  from json_roundtrip [OF this] show thesis
    using that by (auto simp: payload_normal_thaw encode_event_def)
qed

text \<open>Reading the row back, its time given by the driver or as the text of PostgreSQL's JSON.\<close>

definition with_time :: "db_row \<Rightarrow> db_value \<Rightarrow> db_row" where
  "with_time row v = map (\<lambda>c. if fst c = ''occurred_at'' then (''occurred_at'', v) else c) row"

lemma decode_event_record:
  assumes e: "event_storable e"
    and t: "decode_canonical_json t = Inr (thaw_event_payload (payload_normal (ev_payload e)))"
    and v: "dv_timestamp other v = Inr (ev_occurred_at e)"
  shows "decode_event other (with_time (event_record e t) v) = Inr (stored_event e)"
proof -
  have ok: "run_event_ok (stored_event e)" using e stored_event_ok by (simp add: event_storable_def)
  have "row_mapping (with_time (event_record e t) v) event_fields = Inr ()"
    by (simp add: row_mapping_def with_time_def event_record_def event_fields_def insert_commute)
  moreover have "row_version (with_time (event_record e t) v) ''record_format_version'' = Inr ()"
    by (simp add: row_version_def with_time_def event_record_def field_def column_def run_record_version_def)
  moreover have "is_pdict (thaw_event_payload p)" for p by (simp add: thaw_event_payload_def)
  ultimately have "decode_event_raw other (with_time (event_record e t) v) = Inr (stored_event e)"
    using e t v run_event_rebuild [OF ok]
    by (simp add: decode_event_raw_def with_time_def event_record_def field_def column_def
        event_storable_def new_identifier_ok dv_integer_text_def)
      (simp add: stored_event_def)
  then show ?thesis by (simp add: decode_event_def or_corruption_def)
qed

lemma with_time_same: "with_time (event_record e t) (DvTime (ev_occurred_at e)) = event_record e t"
  by (simp add: with_time_def event_record_def)

lemma decode_encode_event:
  assumes "event_storable e"
  shows "\<exists>row. encode_event e = Inr row \<and> decode_event other row = Inr (stored_event e)"
proof -
  obtain t where t: "encode_event e = Inr (event_record e t)"
      "decode_canonical_json t = Inr (thaw_event_payload (payload_normal (ev_payload e)))"
    using encode_event_row [OF assms] by blast
  have "dv_timestamp other (DvTime (ev_occurred_at e)) = Inr (ev_occurred_at e)"
    using assms by (simp add: event_storable_def utc_time_def read_utc_def)
  from decode_event_record [OF assms t(2) this] t(1) show ?thesis by (simp add: with_time_same)
qed

subsection \<open>Receipts\<close>

definition receipt_storable :: "command_receipt \<Rightarrow> bool" where
  "receipt_storable r \<longleftrightarrow>
     command_receipt_post_init r = Inr r \<and> length (rc_event_ids r) \<le> 1 \<and>
     identifier_pattern (tenant_id_value (rc_tenant_id r)) \<and>
     identifier_pattern (command_id_value (rc_command_id r)) \<and>
     identifier_pattern (run_id_value (rc_run_id r)) \<and>
     list_all (\<lambda>e. identifier_pattern (event_id_value e)) (rc_event_ids r)"

lemma decode_receipt_record:
  assumes "receipt_storable r"
  shows "decode_receipt other (receipt_record r) = Inr r"
proof -
  have mapping: "row_mapping (receipt_record r) receipt_fields = Inr ()"
    by (simp add: row_mapping_def receipt_record_def receipt_fields_def insert_commute)
  have version: "row_version (receipt_record r) ''record_format_version'' = Inr ()"
    by (simp add: row_version_def receipt_record_def field_def column_def run_record_version_def)
  have post: "command_receipt_post_init r = Inr r" using assms by (simp add: receipt_storable_def)
  then have time: "is_utc (rc_created_at r)"
    by (auto simp: command_receipt_post_init_def split: if_splits)
  consider "rc_event_ids r = []" | e where "rc_event_ids r = [e]"
    using assms by (cases "rc_event_ids r"; cases "tl (rc_event_ids r)") (auto simp: receipt_storable_def)
  then obtain ids where ids: "dv_option (dv_identifier EventId)
        (case rc_event_ids r of [] \<Rightarrow> DvNull | e # _ \<Rightarrow> DvText (event_id_value e)) = Inr ids"
      "(case ids of None \<Rightarrow> [] | Some e \<Rightarrow> [e]) = rc_event_ids r"
    using assms by cases (auto simp: receipt_storable_def new_identifier_ok)
  have "decode_receipt_raw other (receipt_record r) = command_receipt_post_init
      \<lparr>rc_tenant_id = rc_tenant_id r, rc_command_id = rc_command_id r, rc_run_id = rc_run_id r,
       rc_command_type = rc_command_type r, rc_fingerprint = rc_fingerprint r, rc_status = rc_status r,
       rc_version = rc_version r, rc_event_ids = rc_event_ids r, rc_created_at = rc_created_at r\<rparr>"
    unfolding decode_receipt_raw_def mapping version result_bind_Inr
    using assms time ids
    by (simp add: receipt_record_def field_def column_def receipt_storable_def
        new_identifier_ok dv_integer_text_def read_utc_def)
  with post show ?thesis by (cases r) (simp add: decode_receipt_def or_corruption_def)
qed

lemma decode_encode_receipt:
  "receipt_storable r \<Longrightarrow> encode_receipt r = Inr (receipt_record r) \<and> decode_receipt other (receipt_record r) = Inr r"
  using decode_receipt_record by (simp add: encode_receipt_def receipt_storable_def)

subsection \<open>Failures\<close>

lemma or_corruption_error: "or_corruption r = Inl x \<Longrightarrow> (\<exists>c. x = RunRepositoryError c)"
  by (cases r; cases "projl r") (auto simp: or_corruption_def)

end
