(* ===== verification/Pg_Run_Repository.thy ===== *)
theory Pg_Run_Repository
  imports Run_Roundtrip Lease_Authority Memory_Repository
begin

section \<open>The PostgreSQL run repository\<close>

text \<open>
  \<open>src/zhiyi/adapters/persistence/postgresql_run_repository.py\<close>. A statement is the function on the tables
  of \<open>postgresql_schema.py\<close> that its text denotes; the constraints a write can hit (the primary keys, the
  unique sequence of a run's events, the foreign keys) are checked by the writes. A transaction runs at READ
  COMMITTED: what its statements see, its clock reading and a storage fault are a \<open>commit_schedule\<close>. The
  session's time zone is UTC. \<open>other\<close> is \<open>datetime.fromisoformat\<close> on layouts that are never written.
\<close>

subsection \<open>Tables\<close>

record run_tables =
  tb_runs :: "db_row list"
  tb_events :: "db_row list"
  tb_receipts :: "db_row list"
  tb_leases :: "db_row list"

abbreviation domain_error :: "run_error_code \<Rightarrow> exn" where
  "domain_error code \<equiv> RunLifecycleError code"

abbreviation repository_error :: "run_repository_error_code \<Rightarrow> exn" where
  "repository_error code \<equiv> RunRepositoryError code"

definition run_columns :: "string list" where
  "run_columns = filter (\<lambda>c. c \<noteq> ''record_format_version'') run_fields"

text \<open>\<open>_run_select\<close> adds the literal version; the event and receipt tables have theirs as a column.\<close>

definition select_run :: "db_row \<Rightarrow> db_row" where
  "select_run row = (''record_format_version'', DvInt run_record_version) # map (select_column row) run_columns"

definition run_row_is :: "tenant_id \<Rightarrow> run_id \<Rightarrow> db_row \<Rightarrow> bool" where
  "run_row_is t r row \<longleftrightarrow> column_is row ''tenant_id'' (DvText (tenant_id_value t)) \<and>
     column_is row ''run_id'' (DvText (run_id_value r))"

definition run_row_at :: "run_tables \<Rightarrow> tenant_id \<Rightarrow> run_id \<Rightarrow> db_row option" where
  "run_row_at db t r = List.find (run_row_is t r) (tb_runs db)"

definition receipt_row_at :: "run_tables \<Rightarrow> tenant_id \<Rightarrow> command_id \<Rightarrow> db_row option" where
  "receipt_row_at db t k =
     List.find (\<lambda>row. column_is row ''tenant_id'' (DvText (tenant_id_value t)) \<and>
       column_is row ''command_id'' (DvText (command_id_value k))) (tb_receipts db)"

definition event_row_at :: "run_tables \<Rightarrow> event_id \<Rightarrow> tenant_id \<Rightarrow> run_id \<Rightarrow> db_row option" where
  "event_row_at db e t r =
     List.find (\<lambda>row. column_is row ''event_id'' (DvText (event_id_value e)) \<and> run_row_is t r row)
       (tb_events db)"

subsection \<open>Loading\<close>

definition decode_selected :: "(string \<Rightarrow> exn + datetime) \<Rightarrow> db_row option \<Rightarrow> exn + run option" where
  "decode_selected other found =
     (case found of
        None \<Rightarrow> Inr None
      | Some row \<Rightarrow> result_bind (decode_run other (select_run row)) (\<lambda>r. Inr (Some r)))"

text \<open>A query that fails (\<open>DBAPIError\<close>, \<open>SQLAlchemyError\<close>) is \<open>STORAGE_UNAVAILABLE\<close>.\<close>

definition storage_available :: "bool \<Rightarrow> exn + unit" where
  "storage_available fault = require (\<not> fault) (repository_error RepoStorageUnavailable)"

definition pgr_load ::
    "(string \<Rightarrow> exn + datetime) \<Rightarrow> exn + unit \<Rightarrow> bool \<Rightarrow> run_tables \<Rightarrow> tenant_id \<Rightarrow> run_id \<Rightarrow>
     exn + run option" where
  "pgr_load other schema fault db t r =
     result_bind schema (\<lambda>_.
     result_bind (storage_available fault) (\<lambda>_. decode_selected other (run_row_at db t r)))"

subsection \<open>The page of events\<close>

text \<open>
  \<open>sequence_digits\<close> is the computed column \<open>char_length(sequence_value)\<close>; the texts compare in the collation
  \<open>le\<close> of the column.
\<close>

fun dv_string :: "db_value option \<Rightarrow> string" where
  "dv_string (Some (DvText s)) = s"
| "dv_string _ = []"

definition sequence_text :: "db_row \<Rightarrow> string" where
  "sequence_text row = dv_string (map_of row ''sequence_value'')"

definition sequence_key :: "db_row \<Rightarrow> int \<times> string" where
  "sequence_key row = (int (length (sequence_text row)), sequence_text row)"

definition key_after :: "(string \<Rightarrow> string \<Rightarrow> bool) \<Rightarrow> int \<times> string \<Rightarrow> int \<times> string \<Rightarrow> bool" where
  "key_after le a b \<longleftrightarrow> fst b < fst a \<or> (fst b = fst a \<and> \<not> le (snd a) (snd b))"

fun json_time :: "db_value \<Rightarrow> db_value" where
  "json_time (DvTime t) = DvText (json_timestamp t)"
| "json_time v = v"

text \<open>\<open>json_build_object\<close>, as the driver decodes it.\<close>

definition page_record :: "db_row \<Rightarrow> db_row" where
  "page_record row =
     with_time (map (select_column row) event_fields)
       (json_time (snd (select_column row ''occurred_at'')))"

definition event_page ::
    "(string \<Rightarrow> string \<Rightarrow> bool) \<Rightarrow> run_tables \<Rightarrow> tenant_id \<Rightarrow> run_id \<Rightarrow> int \<Rightarrow> int \<Rightarrow> db_row list" where
  "event_page le db t r after limit =
     (let cursor = encode_canonical_integer after in
      map page_record (take (nat limit)
        (order_by (\<lambda>a b. key_before le (sequence_key a) (sequence_key b))
          (filter (\<lambda>row. run_row_is t r row \<and>
            key_after le (sequence_key row) (int (length cursor), cursor)) (tb_events db)))))"

definition pgr_list_events ::
    "(string \<Rightarrow> exn + datetime) \<Rightarrow> (string \<Rightarrow> string \<Rightarrow> bool) \<Rightarrow> exn + unit \<Rightarrow> bool \<Rightarrow> run_tables \<Rightarrow>
     tenant_id \<Rightarrow> run_id \<Rightarrow> int \<Rightarrow> int \<Rightarrow> exn + run_event list" where
  "pgr_list_events other le schema fault db t r after limit =
     (if after < 0 then Inl ValueError
      else if \<not> (1 \<le> limit \<and> limit \<le> 1000) then Inl ValueError
      else
        result_bind schema (\<lambda>_.
        result_bind (storage_available fault) (\<lambda>_.
          let page = event_page le db t r after limit in
          if page = [] \<and> run_row_at db t r = None then Inl (domain_error RunNotFound)
          else traverse (decode_event other) page)))"

subsection \<open>Commands\<close>

definition command_event_type :: "string \<Rightarrow> run_event_type option" where
  "command_event_type = map_of
     [(''create_run'', RunCreated), (''start_run'', RunStarted),
      (''wait_for_approval'', RunWaitingApproval), (''wait_for_resolution'', RunWaitingResolution),
      (''resume_run'', RunResumed), (''consume_budget'', RunBudgetConsumed),
      (''succeed_run'', RunSucceeded), (''fail_run'', RunFailedEvent),
      (''cancel_run'', RunCancelledEvent), (''enforce_deadline'', RunLimitExceeded)]"

fun equals_int :: "frozen option \<Rightarrow> int \<Rightarrow> bool" where
  "equals_int (Some (FInt i)) v = (i = v)"
| "equals_int (Some (FBool b)) v = ((if b then 1 else 0) = v)"
| "equals_int _ v = False"

definition validate_replay_event :: "command_receipt \<Rightarrow> run_event \<Rightarrow> exn + unit" where
  "validate_replay_event rc e =
     require (command_event_type (rc_command_type rc) = Some (ev_type e) \<and>
       ev_sequence e = rc_version rc \<and>
       map_of (ev_payload e) ''status'' = Some (FStr (run_status_value (rc_status rc))) \<and>
       equals_int (map_of (ev_payload e) ''run_version'') (rc_version rc))
       (repository_error RepoDataCorruption)"

definition replay_events ::
    "(string \<Rightarrow> exn + datetime) \<Rightarrow> run_tables \<Rightarrow> command_receipt \<Rightarrow> exn + run_event list" where
  "replay_events other db rc =
     (case rc_event_ids rc of
        [] \<Rightarrow> Inr []
      | eid # _ \<Rightarrow>
          (case event_row_at db eid (rc_tenant_id rc) (rc_run_id rc) of
             None \<Rightarrow> Inl (repository_error RepoDataCorruption)
           | Some row \<Rightarrow>
               result_bind (decode_event other row) (\<lambda>e.
               result_bind (validate_replay_event rc e) (\<lambda>_. Inr [e]))))"

text \<open>\<open>_find_command\<close>\<close>

definition find_run_command ::
    "(string \<Rightarrow> exn + datetime) \<Rightarrow> run_tables \<Rightarrow> tenant_id \<Rightarrow> command_id \<Rightarrow> string \<Rightarrow>
     exn + commit_outcome option" where
  "find_run_command other db t k fingerprint =
     (case receipt_row_at db t k of
        None \<Rightarrow> Inr None
      | Some row \<Rightarrow>
          result_bind (decode_receipt other row) (\<lambda>rc.
            if rc_fingerprint rc \<noteq> fingerprint then Inl (domain_error RunIdempotencyConflict)
            else result_bind (replay_events other db rc) (\<lambda>events.
              result_bind (new_commit_outcome rc events True) (\<lambda>oc. Inr (Some oc)))))"

definition pgr_find_command ::
    "(string \<Rightarrow> exn + datetime) \<Rightarrow> exn + unit \<Rightarrow> bool \<Rightarrow> run_tables \<Rightarrow> tenant_id \<Rightarrow> command_id \<Rightarrow> string \<Rightarrow>
     exn + commit_outcome option" where
  "pgr_find_command other schema fault db t k fingerprint =
     (if \<not> fingerprint_pattern fingerprint then Inl ValueError
      else result_bind schema (\<lambda>_.
        result_bind (storage_available fault) (\<lambda>_. find_run_command other db t k fingerprint)))"

subsection \<open>Writes\<close>

datatype write_failure =
    Refused exn
  | ConstraintViolated string
  | DriverError db_error

text \<open>\<open>_insert_receipt\<close>: \<open>ON CONFLICT (tenant_id, command_id) DO NOTHING ... RETURNING\<close>\<close>

definition same_command :: "db_row \<Rightarrow> db_row \<Rightarrow> bool" where
  "same_command a b \<longleftrightarrow> map_of a ''tenant_id'' = map_of b ''tenant_id'' \<and>
     map_of a ''command_id'' = map_of b ''command_id''"

definition insert_receipt :: "run_tables \<Rightarrow> db_row \<Rightarrow> bool \<times> run_tables" where
  "insert_receipt db row =
     (if list_ex (same_command row) (tb_receipts db) then (False, db)
      else (True, db\<lparr>tb_receipts := tb_receipts db @ [row]\<rparr>))"

definition same_run :: "db_row \<Rightarrow> db_row \<Rightarrow> bool" where
  "same_run a b \<longleftrightarrow> map_of a ''tenant_id'' = map_of b ''tenant_id'' \<and>
     map_of a ''run_id'' = map_of b ''run_id''"

definition without :: "string list \<Rightarrow> db_row \<Rightarrow> db_row" where
  "without names row = filter (\<lambda>c. fst c \<notin> set names) row"

text \<open>\<open>_insert_run\<close> and \<open>_update_run\<close>\<close>

definition insert_run :: "run_tables \<Rightarrow> db_row \<Rightarrow> write_failure + run_tables" where
  "insert_run db encoded =
     (if list_ex (same_run encoded) (tb_runs db) then Inl (ConstraintViolated ''pk_runs'')
      else Inr (db\<lparr>tb_runs := tb_runs db @ [without [''record_format_version''] encoded]\<rparr>))"

definition update_run :: "run_tables \<Rightarrow> run \<Rightarrow> db_row \<Rightarrow> write_failure + run_tables" where
  "update_run db r encoded =
     (let matches = run_row_is (r_tenant_id r) (r_run_id r);
          new_values = without [''record_format_version'', ''tenant_id'', ''run_id''] encoded in
      if length (filter matches (tb_runs db)) \<noteq> 1
      then Inl (Refused (repository_error RepoDataCorruption))
      else Inr (db\<lparr>tb_runs :=
        map (\<lambda>row. if matches row then dict_update row new_values else row) (tb_runs db)\<rparr>))"

text \<open>\<open>_insert_event\<close>\<close>

definition same_event :: "db_row \<Rightarrow> db_row \<Rightarrow> bool" where
  "same_event a b \<longleftrightarrow> map_of a ''event_id'' = map_of b ''event_id''"

definition same_sequence :: "db_row \<Rightarrow> db_row \<Rightarrow> bool" where
  "same_sequence a b \<longleftrightarrow> same_run a b \<and> map_of a ''sequence_value'' = map_of b ''sequence_value''"

definition insert_event :: "run_tables \<Rightarrow> db_row \<Rightarrow> write_failure + run_tables" where
  "insert_event db row =
     (if list_ex (same_event row) (tb_events db) then Inl (ConstraintViolated ''pk_run_events'')
      else if list_ex (same_sequence row) (tb_events db)
      then Inl (ConstraintViolated ''uq_run_events_tenant_run_sequence'')
      else if \<not> list_ex (same_run row) (tb_runs db)
      then Inl (ConstraintViolated ''fk_run_events_tenant_run_runs'')
      else Inr (db\<lparr>tb_events := tb_events db @ [row]\<rparr>))"

fun insert_events :: "run_tables \<Rightarrow> db_row list \<Rightarrow> write_failure + run_tables" where
  "insert_events db [] = Inr db"
| "insert_events db (row # rows) = result_bind (insert_event db row) (\<lambda>db'. insert_events db' rows)"

text \<open>The deferred foreign keys of the new receipt, checked at the commit.\<close>

definition receipt_references_ok :: "run_tables \<Rightarrow> db_row \<Rightarrow> bool" where
  "receipt_references_ok db row \<longleftrightarrow>
     list_ex (same_run row) (tb_runs db) \<and>
     (map_of row ''event_id'' = Some DvNull \<or>
      list_ex (\<lambda>e. same_event row e \<and> same_run row e) (tb_events db))"

definition check_references :: "run_tables \<Rightarrow> db_row \<Rightarrow> write_failure + run_tables" where
  "check_references db row =
     (if receipt_references_ok db row then Inr db
      else Inl (ConstraintViolated ''fk_run_command_receipts''))"

subsection \<open>The transaction of a commit\<close>

record encoded_candidate =
  en_run :: db_row
  en_receipt :: db_row
  en_events :: "db_row list"

definition encode_commit_candidate ::
    "run \<Rightarrow> command_receipt \<Rightarrow> run_event list \<Rightarrow> exn + encoded_candidate" where
  "encode_commit_candidate u rc es =
     result_bind (encode_run u) (\<lambda>run_row.
     result_bind (encode_receipt rc) (\<lambda>receipt_row.
     result_bind (traverse encode_event es) (\<lambda>event_rows.
       Inr \<lparr>en_run = run_row, en_receipt = receipt_row, en_events = event_rows\<rparr>)))"

definition validate_commit_input ::
    "int \<Rightarrow> run_event list \<Rightarrow> command_receipt \<Rightarrow> exn + unit" where
  "validate_commit_input v es rc =
     (if v < 0 then Inl ValueError
      else if 1 < length es \<or> 1 < length (rc_event_ids rc) then Inl (domain_error RunInvariantViolation)
      else Inr ())"

text \<open>
  The committed tables as the statements of a transaction see them: when the insertion of the receipt
  (and the replay) is decided, when the row of the run is locked, when the lease of the run is
  locked, and when the writes take effect.
\<close>

record commit_schedule =
  cm_receipt_db :: run_tables
  cm_lock_db :: run_tables
  cm_lease_db :: run_tables
  cm_now :: datetime
  cm_write_db :: run_tables
  cm_fault :: "storage_fault option"

definition fault_at :: "transaction_phase \<Rightarrow> storage_fault option \<Rightarrow> write_failure + unit" where
  "fault_at phase fault =
     (case fault of
        Some f \<Rightarrow> if sf_phase f = phase then Inl (DriverError (sf_error f)) else Inr ()
      | None \<Rightarrow> Inr ())"

definition refuse :: "exn + 'a \<Rightarrow> write_failure + 'a" where
  "refuse r = (case r of Inl x \<Rightarrow> Inl (Refused x) | Inr v \<Rightarrow> Inr v)"

text \<open>The shared arbitration: \<open>None\<close> when this transaction inserted the receipt, else the replay.\<close>

definition commit_arbitration ::
    "(string \<Rightarrow> exn + datetime) \<Rightarrow> commit_schedule \<Rightarrow> command_receipt \<Rightarrow> db_row \<Rightarrow>
     write_failure + commit_outcome option" where
  "commit_arbitration other sched rc receipt_row =
     result_bind (fault_at Acquire (cm_fault sched)) (\<lambda>_.
     result_bind (fault_at Begin (cm_fault sched)) (\<lambda>_.
     result_bind (fault_at Arbitration (cm_fault sched)) (\<lambda>_.
     result_bind (refuse (snd (arbitrate_complete_receipt
         (\<lambda>db. case insert_receipt db receipt_row of (inserted, db') \<Rightarrow> (db', Inr inserted))
         (\<lambda>db. (db, find_run_command other db (rc_tenant_id rc) (rc_command_id rc) (rc_fingerprint rc)))
         (cm_receipt_db sched)))) (\<lambda>arbitration.
       if arb_inserted arbitration then Inr None
       else (case arb_replay arbitration of
           None \<Rightarrow> Inl (Refused (repository_error RepoDataCorruption))
         | Some oc \<Rightarrow> Inr (Some oc))))))"

text \<open>The writes of an accepted candidate, and the constraints of the commit.\<close>

definition commit_writes ::
    "commit_schedule \<Rightarrow> run option \<Rightarrow> run \<Rightarrow> run_event list \<Rightarrow> encoded_candidate \<Rightarrow>
     write_failure + run_tables" where
  "commit_writes sched current u es encoded =
     result_bind (fault_at WritePhase (cm_fault sched)) (\<lambda>_.
     let db0 = snd (insert_receipt (cm_write_db sched) (en_receipt encoded)) in
     result_bind
       (if current = None then insert_run db0 (en_run encoded)
        else if es \<noteq> [] then update_run db0 u (en_run encoded) else Inr db0) (\<lambda>db1.
     result_bind (insert_events db1 (en_events encoded)) (\<lambda>db2.
       check_references db2 (en_receipt encoded))))"

definition structural_create :: "int \<Rightarrow> run \<Rightarrow> run_event list \<Rightarrow> bool" where
  "structural_create v u es \<longleftrightarrow> v = 0 \<and> r_version u = 1 \<and> length es = 1"

definition locked_current ::
    "(string \<Rightarrow> exn + datetime) \<Rightarrow> commit_schedule \<Rightarrow> run \<Rightarrow> write_failure + run option" where
  "locked_current other sched u =
     result_bind (fault_at LockPhase (cm_fault sched)) (\<lambda>_.
       refuse (decode_selected other (run_row_at (cm_lock_db sched) (r_tenant_id u) (r_run_id u))))"

text \<open>The phase of the final commit, the tables it leaves and the outcome.\<close>

definition commit_body ::
    "(string \<Rightarrow> exn + datetime) \<Rightarrow> commit_schedule \<Rightarrow> int \<Rightarrow> run \<Rightarrow> run_event list \<Rightarrow> command_receipt \<Rightarrow>
     encoded_candidate \<Rightarrow> write_failure + (transaction_phase \<times> run_tables \<times> commit_outcome)" where
  "commit_body other sched v u es rc encoded =
     result_bind (commit_arbitration other sched rc (en_receipt encoded)) (\<lambda>replay.
       case replay of
         Some oc \<Rightarrow> Inr (Arbitration, cm_write_db sched, oc)
       | None \<Rightarrow>
           result_bind
             (if structural_create v u es then Inr None else locked_current other sched u) (\<lambda>current.
           result_bind
             (refuse (require ((case current of None \<Rightarrow> 0 | Some c \<Rightarrow> r_version c) = v)
               (domain_error RunVersionConflict))) (\<lambda>_.
           result_bind (refuse (validate_commit_candidate v current u es rc {})) (\<lambda>_.
           result_bind (commit_writes sched current u es encoded) (\<lambda>db.
           result_bind (refuse (new_commit_outcome rc es False)) (\<lambda>oc.
             Inr (Commit, db, oc)))))))"

text \<open>The \<open>except\<close> clauses. \<open>pk_runs\<close> is the race of two creations.\<close>

fun run_storage_error :: "storage_failure_disposition \<Rightarrow> exn" where
  "run_storage_error DispositionUnknown = repository_error RepoCommitOutcomeUnknown"
| "run_storage_error DispositionUnavailable = repository_error RepoStorageUnavailable"

definition storage_exn :: "storage_fault option \<Rightarrow> db_error \<Rightarrow> exn" where
  "storage_exn fault e =
     (case fault of
        Some f \<Rightarrow> run_storage_error (classify_storage_failure e (sf_phase f) (sf_rollback f))
      | None \<Rightarrow> run_storage_error (classify_storage_failure e Complete False))"

fun commit_failure :: "storage_fault option \<Rightarrow> write_failure \<Rightarrow> exn" where
  "commit_failure fault (Refused x) = x"
| "commit_failure fault (ConstraintViolated name) =
     domain_error (if name = ''pk_runs'' then RunVersionConflict else RunInvariantViolation)"
| "commit_failure fault (DriverError e) = storage_exn fault e"

text \<open>
  A fault of the commit itself: the server may have applied the writes although the call failed. A replay
  commits while the phase is still the arbitration's.
\<close>

definition finish_commit ::
    "(storage_fault option \<Rightarrow> write_failure \<Rightarrow> exn) \<Rightarrow> run_tables \<Rightarrow> storage_fault option \<Rightarrow>
     write_failure + (transaction_phase \<times> run_tables \<times> commit_outcome) \<Rightarrow>
     run_tables \<times> (exn + commit_outcome)" where
  "finish_commit failure before fault body =
     (case body of
        Inl f \<Rightarrow> (before, Inl (failure fault f))
      | Inr (phase, db, oc) \<Rightarrow>
          (case fault of
             Some f \<Rightarrow>
               if sf_phase f = Commit \<and> phase = Commit
               then (if sf_applied f then db else before, Inl (failure fault (DriverError (sf_error f))))
               else (db, Inr oc)
           | None \<Rightarrow> (db, Inr oc)))"

definition pgr_commit ::
    "(string \<Rightarrow> exn + datetime) \<Rightarrow> exn + unit \<Rightarrow> commit_schedule \<Rightarrow> int \<Rightarrow> run \<Rightarrow> run_event list \<Rightarrow>
     command_receipt \<Rightarrow> run_tables \<times> (exn + commit_outcome)" where
  "pgr_commit other schema sched v u es rc =
     (case result_bind (validate_commit_input v es rc) (\<lambda>_.
            result_bind (encode_commit_candidate u rc es) (\<lambda>encoded.
            result_bind schema (\<lambda>_. Inr encoded))) of
        Inl x \<Rightarrow> (cm_write_db sched, Inl x)
      | Inr encoded \<Rightarrow>
          finish_commit commit_failure (cm_write_db sched) (cm_fault sched)
            (commit_body other sched v u es rc encoded))"

subsection \<open>Commits under a lease\<close>

text \<open>The tables as the lease repository sees them; its own receipts are not read here.\<close>

fun dv_datetime :: "db_value option \<Rightarrow> datetime" where
  "dv_datetime (Some (DvTime t)) = t"
| "dv_datetime _ = Naive 0"

definition run_row_view :: "db_row \<Rightarrow> run_row" where
  "run_row_view row =
     \<lparr>rr_tenant_id = dv_string (map_of row ''tenant_id''), rr_run_id = dv_string (map_of row ''run_id''),
      rr_run_status = dv_string (map_of row ''run_status''),
      rr_updated_at = dv_datetime (map_of row ''updated_at'')\<rparr>"

definition lease_view :: "run_tables \<Rightarrow> lease_db" where
  "lease_view db = \<lparr>db_runs = map run_row_view (tb_runs db), db_leases = tb_leases db, db_receipts = []\<rparr>"

text \<open>\<open>_load_guarded_lease\<close> and \<open>_database_now\<close>\<close>

definition load_guarded_lease ::
    "run_tables \<Rightarrow> lease_authority_proof \<Rightarrow> exn + worker_lease_record option" where
  "load_guarded_lease db proof =
     load_lease_for_update (lease_view db) (pf_tenant_id proof) (pf_run_id proof)"

fun commit_now :: "datetime \<Rightarrow> exn + datetime" where
  "commit_now (Naive w) = Inl (repository_error RepoDataCorruption)"
| "commit_now (Aware w off) = Inr (Aware w off)"

text \<open>\<open>_validate_current_lease\<close>\<close>

definition validate_current_lease ::
    "lease_authority_proof \<Rightarrow> worker_lease_record option \<Rightarrow> string \<Rightarrow> datetime \<Rightarrow> exn + unit" where
  "validate_current_lease proof current status now =
     (case current of
        None \<Rightarrow> Inl (lease_error LeaseNotCurrent)
      | Some lease \<Rightarrow>
          if wl_tenant_id lease \<noteq> pf_tenant_id proof \<or> wl_run_id lease \<noteq> pf_run_id proof \<or>
             wl_worker_id lease \<noteq> pf_worker_id proof \<or> wl_claim_id lease \<noteq> pf_claim_id proof \<or>
             wl_attempt_no lease \<noteq> pf_attempt_no proof
          then Inl (lease_error LeaseNotCurrent)
          else result_bind (lease_token_matches (pf_token proof) (wl_token_digest lease)) (\<lambda>matches.
            if \<not> matches \<or> wl_released_at lease \<noteq> None \<or> status \<notin> set active_statuses
            then Inl (lease_error LeaseNotCurrent)
            else if instant (wl_lease_expires_at lease) \<le> instant now
            then Inl (lease_error LeaseExpired)
            else Inr ()))"

definition guarded_current ::
    "(string \<Rightarrow> exn + datetime) \<Rightarrow> commit_schedule \<Rightarrow> lease_authority_proof \<Rightarrow> run \<Rightarrow> exn + run" where
  "guarded_current other sched proof u =
     result_bind (decode_selected other (run_row_at (cm_lock_db sched) (r_tenant_id u) (r_run_id u)))
       (\<lambda>found. case found of
          None \<Rightarrow> Inl (lease_error LeaseNotCurrent)
        | Some current \<Rightarrow>
            result_bind (load_guarded_lease (cm_lease_db sched) proof) (\<lambda>lease.
            result_bind (commit_now (cm_now sched)) (\<lambda>now.
            result_bind (validate_current_lease proof lease (run_status_value (r_status current)) now)
              (\<lambda>_. Inr current))))"

definition guarded_body ::
    "(string \<Rightarrow> exn + datetime) \<Rightarrow> commit_schedule \<Rightarrow> lease_authority_proof \<Rightarrow> int \<Rightarrow> run \<Rightarrow> run_event list \<Rightarrow>
     command_receipt \<Rightarrow> encoded_candidate \<Rightarrow>
     write_failure + (transaction_phase \<times> run_tables \<times> commit_outcome)" where
  "guarded_body other sched proof v u es rc encoded =
     result_bind (commit_arbitration other sched rc (en_receipt encoded)) (\<lambda>replay.
       case replay of
         Some oc \<Rightarrow> Inr (Arbitration, cm_write_db sched, oc)
       | None \<Rightarrow>
           result_bind (fault_at LockPhase (cm_fault sched)) (\<lambda>_.
           result_bind (refuse (guarded_current other sched proof u)) (\<lambda>current.
           result_bind (refuse (require (r_version current = v) (domain_error RunVersionConflict))) (\<lambda>_.
           result_bind (refuse (validate_commit_candidate v (Some current) u es rc {})) (\<lambda>_.
           result_bind (commit_writes sched (Some current) u es encoded) (\<lambda>db.
           result_bind (refuse (new_commit_outcome rc es False)) (\<lambda>oc.
             Inr (Commit, db, oc))))))))"

text \<open>Here every violated constraint is an invariant violation: there is no creation to race with.\<close>

fun guarded_failure :: "storage_fault option \<Rightarrow> write_failure \<Rightarrow> exn" where
  "guarded_failure fault (Refused x) = x"
| "guarded_failure fault (ConstraintViolated name) = domain_error RunInvariantViolation"
| "guarded_failure fault (DriverError e) = storage_exn fault e"

definition proof_names_run :: "lease_authority_proof \<Rightarrow> run \<Rightarrow> command_receipt \<Rightarrow> bool" where
  "proof_names_run proof u rc \<longleftrightarrow>
     pf_tenant_id proof = r_tenant_id u \<and> pf_run_id proof = r_run_id u \<and>
     rc_tenant_id rc = pf_tenant_id proof \<and> rc_run_id rc = pf_run_id proof"

text \<open>\<open>commit_with_lease\<close>; the two schema checks have one verdict.\<close>

definition pgr_commit_with_lease ::
    "(string \<Rightarrow> exn + datetime) \<Rightarrow> exn + unit \<Rightarrow> commit_schedule \<Rightarrow> lease_authority_proof \<Rightarrow> int \<Rightarrow> run \<Rightarrow>
     run_event list \<Rightarrow> command_receipt \<Rightarrow> run_tables \<times> (exn + commit_outcome)" where
  "pgr_commit_with_lease other schema sched proof v u es rc =
     (case result_bind (validate_commit_input v es rc) (\<lambda>_.
            result_bind (require (proof_names_run proof u rc) (lease_error LeaseInvalidInput)) (\<lambda>_.
            result_bind (encode_commit_candidate u rc es) (\<lambda>encoded.
            result_bind schema (\<lambda>_. Inr encoded)))) of
        Inl x \<Rightarrow> (cm_write_db sched, Inl x)
      | Inr encoded \<Rightarrow>
          finish_commit guarded_failure (cm_write_db sched) (cm_fault sched)
            (guarded_body other sched proof v u es rc encoded))"

text \<open>
  \<open>_observe_guarded_commit\<close>: the three public error classes are observed, another exception (a
  \<open>ValueError\<close> of the argument checks) passes unobserved.
\<close>

fun public_code :: "exn \<Rightarrow> string option" where
  "public_code (RunLifecycleError c) = Some (run_error_code_value c)"
| "public_code (RunRepositoryError c) = Some (run_repository_error_code_value c)"
| "public_code (WorkerLeaseError c) = Some (worker_lease_error_code_value c)"
| "public_code _ = None"

definition guarded_observation ::
    "lease_authority_proof \<Rightarrow> lease_transaction_phase \<Rightarrow> string \<Rightarrow> bool \<Rightarrow> exn + lease_observation" where
  "guarded_observation proof phase code replayed = lease_observation_post_init
     \<lparr>ob_operation = OpCommitWithLease, ob_phase = phase, ob_outcome_code = code,
      ob_correlation_id = None, ob_tenant_id = Some (pf_tenant_id proof),
      ob_run_id = Some (pf_run_id proof), ob_worker_id = Some (pf_worker_id proof),
      ob_claim_id = Some (pf_claim_id proof), ob_duration_bucket = None, ob_replayed = replayed,
      ob_empty = False, ob_contended = False\<rparr>"

definition observe_guarded_commit ::
    "lease_authority_proof \<Rightarrow> exn + commit_outcome \<Rightarrow> (exn + lease_observation) option" where
  "observe_guarded_commit proof result =
     (case result of
        Inr oc \<Rightarrow> Some (guarded_observation proof ObsComplete
          (if oc_replayed oc then ''replayed'' else ''committed'') (oc_replayed oc))
      | Inl x \<Rightarrow> map_option (\<lambda>code. guarded_observation proof
          (if code = ''commit_outcome_unknown'' then ObsCommit else ObsComplete) code False)
          (public_code x))"

end
