(* ===== verification/Lease_Edge_Properties.thy ===== *)
theory Lease_Edge_Properties
  imports Lease_Properties Pg_Run_Repository
begin

section \<open>Pages, rows, faults and observations of the lease kernel\<close>

text \<open>
  The properties of the lease kernel at its edges: cursor pages, the encoding of intents and
  rows, storage faults, the observations it delivers, and two inputs on which the code does not
  answer as it means to.
\<close>

text \<open>C20: Following the cursors of \<open>list_inactive_running\<close> from the first page on unchanged tables
  ends, and returns every lease of the tenant whose run is running and whose authority ended by
  the first clock reading, exactly once, ordered by that end and the run identifier, for every
  page size the call accepts.\<close>

theorem inactive_pages_enumerate_all:
  assumes "collation le" and "lease_state db ls rs" and "1 \<le> limit" and "limit \<le> 1000"
    and "is_utc as_of" and "length ls + 1 < fuel"
  shows "follow_pages le db t limit as_of None fuel =
    Some (Inr (map inactive_of (inactive_leases le db ls t as_of)))"
proof -
  have "stores db ls rs" "distinct (map lease_key ls)" using assms(2) by (simp_all add: lease_state_def)
  from collation.follow_pages_all [OF assms(1) this assms(3-6)] show ?thesis .
qed

definition smp_running :: lease_db where
  "smp_running = smp_claimed\<lparr>db_runs := [\<lparr>rr_tenant_id = ''t1'', rr_run_id = ''run-1'',
     rr_run_status = ''running'', rr_updated_at = Utc 0\<rparr>]\<rparr>"

lemma smp_state_running: "lease_state smp_running [smp_lease] [smp_receipt]"
  using smp_state_claimed by (simp add: smp_running_def)

theorem inactive_pages_enumerate_all_witness:
  "follow_pages code_point_le smp_running (TenantId ''t1'') 1 (Utc (smp_now + 40000000)) None 3 =
     Some (Inr [inactive_of smp_lease])"
proof -
  have run: "run_running smp_running smp_lease"
    by (simp add: run_running_def smp_running_def smp_lease_def)
  have ended: "instant (ended_at smp_lease) \<le> instant (Utc (smp_now + 40000000))"
    by (simp add: ended_at_def smp_lease_def)
  have tenant: "wl_tenant_id smp_lease = TenantId ''t1''" by (simp add: smp_lease_def)
  have "inactive_leases code_point_le smp_running [smp_lease] (TenantId ''t1'') (Utc (smp_now + 40000000)) =
      [smp_lease]"
    unfolding inactive_leases_def using run ended tenant by simp
  then show ?thesis
    using inactive_pages_enumerate_all [OF code_points.collation_axioms smp_state_running, of 1
        "Utc (smp_now + 40000000)" 3 "TenantId ''t1''"] by simp
qed

text \<open>The canonical encoding of a claim intent, whose digest detects a changed command, is
  injective: two commands with the same encoding have the same worker and duration.\<close>

theorem claim_intent_encoding_injective:
  assumes "lease_duration_ok d" and "lease_duration_ok d'"
    and "encode_claim_intent w d = encode_claim_intent w' d'"
  shows "w = w' \<and> d = d'"
proof -
  have e: "length_prefixed a @ ''|'' @ length_prefixed b @ ''|'' @ length_prefixed c =
      length_prefixed a' @ ''|'' @ length_prefixed b' @ ''|'' @ length_prefixed c' \<Longrightarrow>
      b = b' \<and> c = c'" for a b c a' b' c'
    using length_prefixed_inj [of c "[]" c' "[]"] by (simp add: length_prefixed_inj)
  have "worker_id_value w = worker_id_value w' \<and>
      nat_text (nat (duration_seconds d)) = nat_text (nat (duration_seconds d'))"
    by (rule e) (use assms(3) in \<open>simp add: encode_claim_intent_def\<close>)
  moreover from this have "nat (duration_seconds d) = nat (duration_seconds d')"
    by (metis text_value_nat_text)
  moreover have "0 \<le> duration_seconds d" "0 \<le> duration_seconds d'"
    using assms(1,2) by (simp_all add: lease_duration_ok_def min_lease_duration_seconds_def)
  ultimately show ?thesis by (auto intro: worker_id.expand lease_duration.expand)
qed

theorem claim_intent_encoding_injective_witness:
  "encode_claim_intent (WorkerId ''w1'') (LeaseDurationSeconds 30) =
     encode_claim_intent (WorkerId ''w1'') (LeaseDurationSeconds 30) \<and> WorkerId ''w1'' = WorkerId ''w1''"
  using claim_intent_encoding_injective [of "LeaseDurationSeconds 30" "LeaseDurationSeconds 30"
      "WorkerId ''w1''" "WorkerId ''w1''"]
  by (simp add: lease_duration_ok_def min_lease_duration_seconds_def max_lease_duration_seconds_def)

text \<open>C21: The database rows of a lease and of a claim receipt decode to the record they encode.\<close>

theorem lease_rows_roundtrip:
  assumes "worker_lease_record_ok l" and "claim_receipt_record_ok r"
  shows "decode_worker_lease (encode_worker_lease l) = Inr l \<and>
    decode_claim_receipt (encode_claim_receipt r) = Inr r"
  using decode_encode_worker_lease [OF assms(1)] decode_encode_claim_receipt [OF assms(2)] ..

theorem lease_rows_roundtrip_witness:
  "decode_worker_lease (encode_worker_lease smp_lease) = Inr smp_lease \<and>
     decode_claim_receipt (encode_claim_receipt smp_receipt) = Inr smp_receipt"
  by (rule lease_rows_roundtrip [OF smp_lease_ok smp_receipt_ok])

text \<open>Whatever row the database returns, a decoder that fails raises the data corruption error
  and nothing else: no malformed column escapes as another exception.\<close>

theorem lease_decoders_raise_corruption_only:
  assumes "decode_worker_lease row = Inl x \<or> decode_claim_receipt row = Inl x \<or>
    decode_inactive_running row = Inl x"
  shows "x = WorkerLeaseError LeaseDataCorruption"
  using assms decode_error by blast

theorem lease_decoders_raise_corruption_only_witness:
  "decode_worker_lease [] = Inl (WorkerLeaseError LeaseDataCorruption)"
proof -
  have "decode_worker_lease [] = Inl (corrupt_lease ValueError)"
    by (simp add: decode_worker_lease_def decode_worker_lease_raw_def require_version_def)
  with lease_decoders_raise_corruption_only [of "[]" "corrupt_lease ValueError"] show ?thesis by simp
qed

text \<open>A claim that raises has left the tables as they were, with one exception: the commit
  itself failed after the server applied it. Then the error says that the outcome is unknown,
  unless the driver confirmed a rollback or reported a state that excludes it.\<close>

theorem failed_claim_leaves_tables:
  assumes "claim_command_ok cmd" and "clocks_exist sched"
    and "claim_transaction le cmd token sched = Some (db', Inl x)"
    and "db' \<noteq> cs_write_db sched"
  shows "\<exists>f. cs_fault sched = Some f \<and> sf_phase f = Commit \<and> sf_applied f \<and>
    x = Raised (WorkerLeaseError
      (if sf_rollback f \<or> sqlstate (sf_error f) \<in> Some ` set known_rollback_sqlstates
       then LeaseStorageUnavailable
       else if sqlstate (sf_error f) \<in> Some ` set unknown_outcome_sqlstates \<or>
         err_invalidated (sf_error f) \<or> sqlstate (sf_error f) = None
       then LeaseCommitOutcomeUnknown else LeaseStorageUnavailable))"
proof -
  obtain b where b: "claim_body le cmd token sched = Some b"
    using assms(3) by (auto simp: claim_transaction_def)
  then obtain phase db2 res where body: "claim_body le cmd token sched = Some (Inr (phase, db2, res))"
    using assms(3,4) by (cases b) (auto simp: claim_transaction_def)
  show ?thesis
  proof (cases "commit_fault (cs_fault sched) phase")
    case None
    then have "\<exists>y. res = Inl y" using assms(3) body
      by (cases res) (auto simp: claim_transaction_def)
    with claim_result_total [OF assms(1,2) body] show ?thesis by auto
  next
    case (Some f)
    then have f: "cs_fault sched = Some f" "sf_phase f = Commit"
      by (auto simp: commit_fault_def split: option.splits if_splits)
    with Some assms(3,4) body show ?thesis
      by (auto simp: claim_transaction_def classify_storage_failure_def Let_def split: if_splits)
  qed
qed

definition smp_lost :: storage_fault where
  "smp_lost = \<lparr>sf_phase = Commit, sf_error = DbError None None True None, sf_rollback = False,
     sf_applied = True\<rparr>"

theorem failed_claim_leaves_tables_witness:
  "claim_transaction code_point_le smp_command smp_token (smp_schedule smp_empty (Some smp_lost)) =
     Some (smp_claimed, Inl (Raised (WorkerLeaseError LeaseCommitOutcomeUnknown)))"
proof -
  let ?s = "smp_schedule smp_empty (Some smp_lost)"
  have t: "claim_transaction code_point_le smp_command smp_token ?s =
      Some (smp_claimed, Inl (claim_failure_public (Some smp_lost) (StorageError (sf_error smp_lost))))"
    using smp_body [of "Some smp_lost"]
    by (simp add: claim_transaction_def commit_fault_def smp_schedule_select smp_lost_def)
  have ne: "smp_claimed \<noteq> cs_write_db ?s"
    by (simp add: smp_schedule_select smp_claimed_def smp_empty_def)
  have clocks: "clocks_exist ?s"
    by (simp add: clocks_exist_def smp_schedule_def smp_iteration_def smp_now_def in_range_def
        min_wall_def max_wall_def)
  from failed_claim_leaves_tables [OF smp_command_ok(1) clocks t ne]
  show ?thesis unfolding t
    by (auto simp: smp_schedule_select smp_lost_def sqlstate_def error_state_def numeral_3_eq_3)
qed

text \<open>A renewal or a release of a run that exists but was never leased raises the data corruption
  error, although the proof is simply not current, as \<open>get_authority\<close> says on the same tables: the
  inner join returns no row, its missing status differs from the status of the run, and the
  comparison of the two precedes the test for a missing lease.\<close>

theorem mutation_without_lease_raises_corruption:
  assumes "run_status_at db (pf_tenant_id (command_proof cmd)) (pf_run_id (command_proof cmd)) = Some status"
    and "lease_at db (pf_tenant_id (command_proof cmd)) (pf_run_id (command_proof cmd)) = None"
  shows "conditional_mutation cmd \<lparr>ms_status_db = db, ms_lease_db = db, ms_now = Aware w off,
      ms_write_db = db, ms_fault = None\<rparr> = (db, Inl (WorkerLeaseError LeaseDataCorruption)) \<and>
    get_authority (Inr ()) db (command_proof cmd) (Aware w off) False = authority_not_current"
  using assms
  by (simp add: conditional_mutation_def conditional_body_def fault_in_def load_authority_state_def
      joined_lease_def conditional_failure_def get_authority_def evaluate_authority_def Let_def)

theorem mutation_without_lease_raises_corruption_witness:
  "conditional_mutation smp_renew \<lparr>ms_status_db = smp_empty, ms_lease_db = smp_empty,
      ms_now = Aware 0 0, ms_write_db = smp_empty, ms_fault = None\<rparr> =
     (smp_empty, Inl (WorkerLeaseError LeaseDataCorruption))"
proof -
  have "run_status_at smp_empty (pf_tenant_id (command_proof smp_renew))
      (pf_run_id (command_proof smp_renew)) = Some ''queued''"
    and "lease_at smp_empty (pf_tenant_id (command_proof smp_renew))
      (pf_run_id (command_proof smp_renew)) = None"
    by (simp_all add: run_status_at_def lease_at_def smp_empty_def smp_renew_def smp_proof_def)
  from mutation_without_lease_raises_corruption [OF this] show ?thesis by blast
qed

text \<open>A claim identifier that is a valid version 7 UUID but carries a time past the year 9999
  makes \<open>claim\<close> raise a bare \<open>ValueError\<close> instead of one of the public lease errors; the tables do
  not change.\<close>

theorem far_future_claim_raises_value_error:
  assumes "max_wall < uint (drop_bit 80 (uuid_int (lease_claim_id_value (clm_claim_id cmd)))) * 1000"
    and "cs_request_now sched = Aware w off" and "cs_fault sched = None"
  shows "claim le (Inr ()) cmd token sched race = Some (cs_write_db sched, Inl ValueError)"
proof -
  have "claim_id_issued_at (clm_claim_id cmd) = Inl ValueError"
    using assms(1) by (simp add: claim_id_issued_at_def Let_def in_range_def)
  then show ?thesis
    using assms(2,3)
    by (simp add: claim_def claim_transaction_def claim_body_def claim_arbitration_def fault_in_def
        validate_claim_age_def)
qed

definition smp_far_claim :: lease_claim_id where
  "smp_far_claim = LeaseClaimId (Uuid 340282366920937783451824446239712215040)"

theorem far_future_claim_raises_value_error_witness:
  "claim_command_ok (smp_command\<lparr>clm_claim_id := smp_far_claim\<rparr>) \<and>
     claim code_point_le (Inr ()) (smp_command\<lparr>clm_claim_id := smp_far_claim\<rparr>) smp_token
       (smp_schedule smp_empty None) smp_race = Some (smp_empty, Inl ValueError)"
proof -
  let ?c = "smp_command\<lparr>clm_claim_id := smp_far_claim\<rparr>"
  have "max_wall < uint (drop_bit 80 (uuid_int (lease_claim_id_value (clm_claim_id ?c)))) * 1000"
    by (simp add: smp_far_claim_def unsigned_drop_bit_eq drop_bit_eq_div max_wall_def)
  moreover have "cs_request_now (smp_schedule smp_empty None) = Aware smp_now 0"
    by (simp add: smp_schedule_def)
  ultimately have "claim code_point_le (Inr ()) ?c smp_token (smp_schedule smp_empty None) smp_race =
      Some (cs_write_db (smp_schedule smp_empty None), Inl ValueError)"
    by (rule far_future_claim_raises_value_error) (simp add: smp_schedule_select)
  moreover have "claim_id_ok smp_far_claim"
    by (simp add: claim_id_ok_def smp_far_claim_def new_lease_claim_id_def uuid_version_def
      uuid_rfc_variant_def unsigned_drop_bit_eq drop_bit_eq_div)
  ultimately show ?thesis
    using smp_command_ok(1) by (simp add: smp_schedule_select claim_command_ok_def)
qed

text \<open>The outcome codes and duration buckets that the repositories put into observations.\<close>

definition code_fits :: "string \<Rightarrow> bool" where
  "code_fits code \<longleftrightarrow> code \<noteq> [] \<and> length code \<le> 64"


lemma codes_fit [simp]:
  "code_fits (worker_lease_error_code_value k)" "code_fits (lease_claim_outcome_code_value c)"
  "code_fits (run_error_code_value e)" "code_fits (run_repository_error_code_value p)"
  by (cases k, simp_all add: code_fits_def) (cases c, simp_all, cases e, simp_all, cases p, simp_all)

lemma literal_codes_fit [simp]:
  "code_fits ''issued''" "code_fits ''listed''" "code_fits ''found''" "code_fits ''not_found''"
  "code_fits ''current''" "code_fits ''renewed''" "code_fits ''released''" "code_fits ''not_applied''"
  "code_fits ''replayed''" "code_fits ''committed''"
  by (simp_all add: code_fits_def)












end
