(* ===== verification/Model_Values.thy ===== *)
theory Model_Values
  imports Decimals
begin

section \<open>Values of the model contracts\<close>

text \<open>
  What \<open>application/models/contracts.py\<close> uses of Python: floating-point numbers, values that
  hold JSON, text checks and the decimal arithmetic of the default context. A float is an exact
  rational, an infinity or a NaN; the rounding of float arithmetic is not modelled. A JSON value
  is a Python object: \<open>PyList\<close> and \<open>PyTuple\<close> are the mutable and the frozen array, \<open>PyMap\<close> a
  mapping with string keys in insertion order, \<open>PyOther\<close> any other object.
\<close>

subsection \<open>Floating-point numbers\<close>

datatype pyfloat = Flt rat | FInf bool | FNaN

fun is_finite_float :: "pyfloat \<Rightarrow> bool" where
  "is_finite_float (Flt q) = True"
| "is_finite_float (FInf s) = False"
| "is_finite_float FNaN = False"

text \<open>The number of a finite float.\<close>

fun float_number :: "pyfloat \<Rightarrow> rat" where
  "float_number (Flt q) = q"
| "float_number (FInf s) = 0"
| "float_number FNaN = 0"

definition require_positive_finite :: "pyfloat \<Rightarrow> exn + rat" where
  "require_positive_finite f =
     (if \<not> is_finite_float f \<or> float_number f \<le> 0 then Inl ValueError
      else Inr (float_number f))"

lemma require_positive_finite_Inr:
  "require_positive_finite f = Inr q \<longleftrightarrow> f = Flt q \<and> 0 < q"
  by (cases f) (auto simp: require_positive_finite_def)

lemma require_positive_finite_Inl:
  "require_positive_finite f = Inl e \<longleftrightarrow> e = ValueError \<and> (\<forall>q. f = Flt q \<longrightarrow> q \<le> 0)"
  by (cases f) (auto simp: require_positive_finite_def)

subsection \<open>Text\<close>

text \<open>\<open>str.isspace\<close> of one character, and \<open>not s.strip()\<close>.\<close>

definition is_space :: "char \<Rightarrow> bool" where
  "is_space c \<longleftrightarrow>
     (let n = of_char c :: nat in 9 \<le> n \<and> n \<le> 13 \<or> 28 \<le> n \<and> n \<le> 32 \<or> n = 133 \<or> n = 160)"

definition blank :: "string \<Rightarrow> bool" where
  "blank s \<longleftrightarrow> list_all is_space s"

text \<open>\<open>_PROVIDER_ID_PATTERN\<close>; the flag of the loop says that the last character was no separator.\<close>

fun provider_id_tail :: "bool \<Rightarrow> string \<Rightarrow> bool" where
  "provider_id_tail alnum [] = alnum"
| "provider_id_tail alnum (c # cs) =
     (if is_lower c \<or> is_digit c then provider_id_tail True cs
      else c \<in> set ''._-'' \<and> alnum \<and> provider_id_tail False cs)"

fun provider_id_pattern :: "string \<Rightarrow> bool" where
  "provider_id_pattern [] = False"
| "provider_id_pattern (c # cs) = (is_lower c \<and> provider_id_tail True cs)"

fun tool_name_pattern :: "string \<Rightarrow> bool" where
  "tool_name_pattern [] = False"
| "tool_name_pattern (c # cs) =
     ((is_upper c \<or> is_lower c) \<and> length cs \<le> 127 \<and>
      list_all (\<lambda>d. is_alnum d \<or> d \<in> set ''_.-'') cs)"

fun secret_reference_pattern :: "string \<Rightarrow> bool" where
  "secret_reference_pattern [] = False"
| "secret_reference_pattern (c # cs) =
     (is_upper c \<and> length cs \<le> 127 \<and>
      list_all (\<lambda>d. is_upper d \<or> is_digit d \<or> d = CHR ''_'') cs)"

text \<open>
  \<open>urlparse(uri).scheme.lower()\<close>: leading control characters and spaces are dropped, tabs and line
  breaks removed, and the text before the first colon is the scheme when it is one.
\<close>

definition lower_char :: "char \<Rightarrow> char" where
  "lower_char c = (if is_upper c then char_of (of_char c + 32 :: nat) else c)"

definition url_clean :: "string \<Rightarrow> string" where
  "url_clean uri =
     filter (\<lambda>c. c \<notin> {CHR 0x09, CHR 0x0A, CHR 0x0D})
       (dropWhile (\<lambda>c. (of_char c :: nat) \<le> 32) uri)"

definition scheme_char :: "char \<Rightarrow> bool" where
  "scheme_char c \<longleftrightarrow> is_alnum c \<or> c \<in> set ''+-.''"

definition url_scheme :: "string \<Rightarrow> string" where
  "url_scheme uri =
     (let url = url_clean uri; before = takeWhile (\<lambda>c. c \<noteq> CHR '':'') url in
      if length before < length url \<and> before \<noteq> [] \<and> (is_upper (hd before) \<or> is_lower (hd before)) \<and>
         list_all scheme_char before
      then map lower_char before else [])"

subsection \<open>JSON values\<close>

datatype pyobj =
    PyNone
  | PyBool bool
  | PyInt int
  | PyFloat pyfloat
  | PyStr string
  | PyList "pyobj list"
  | PyTuple "pyobj list"
  | PyMap "(string \<times> pyobj) list"
  | PyOther

fun is_mapping :: "pyobj \<Rightarrow> bool" where
  "is_mapping (PyMap m) = True"
| "is_mapping _ = False"

lemma size_list_member: "x \<in> set xs \<Longrightarrow> size x < Suc (size_list size xs)"
  using size_list_estimation' [of x xs "size x" size] by simp

lemma size_entry_member:
  "kv \<in> set kvs \<Longrightarrow> size (snd kv) < Suc (size_list (size_prod (\<lambda>_. 0) size) kvs)"
  using size_list_estimation' [of kv kvs "size (snd kv)" "size_prod (\<lambda>_. 0) size"]
  by (cases kv) simp

text \<open>\<open>_freeze_json\<close>: mappings and arrays become immutable, any other object is a \<open>TypeError\<close>.\<close>

function (sequential) freeze_object :: "pyobj \<Rightarrow> exn + pyobj" where
  "freeze_object (PyMap kvs) =
     result_bind (traverse (\<lambda>kv. result_bind (freeze_object (snd kv)) (\<lambda>v. Inr (fst kv, v))) kvs)
       (\<lambda>frozen. Inr (PyMap frozen))"
| "freeze_object (PyList xs) = result_bind (traverse freeze_object xs) (\<lambda>ys. Inr (PyTuple ys))"
| "freeze_object (PyTuple xs) = result_bind (traverse freeze_object xs) (\<lambda>ys. Inr (PyTuple ys))"
| "freeze_object PyOther = Inl TypeError"
| "freeze_object v = Inr v"
  by pat_completeness auto
termination
  by (relation "measure size") (auto dest: size_list_member size_entry_member)

function (sequential) thaw_object :: "pyobj \<Rightarrow> pyobj" where
  "thaw_object (PyMap kvs) = PyMap (map (\<lambda>kv. (fst kv, thaw_object (snd kv))) kvs)"
| "thaw_object (PyTuple xs) = PyList (map thaw_object xs)"
| "thaw_object v = v"
  by pat_completeness auto
termination
  by (relation "measure size") (auto dest: size_list_member size_entry_member)

text \<open>A value that \<open>json\<close> can produce: arrays are lists, keys occur once, no foreign object.\<close>

function (sequential) json_object :: "pyobj \<Rightarrow> bool" where
  "json_object (PyMap kvs) = list_all (\<lambda>kv. json_object (snd kv)) kvs"
| "json_object (PyList xs) = list_all json_object xs"
| "json_object (PyTuple xs) = False"
| "json_object PyOther = False"
| "json_object v = True"
  by pat_completeness auto
termination
  by (relation "measure size") (auto dest: size_list_member size_entry_member)

function (sequential) frozen_object :: "pyobj \<Rightarrow> bool" where
  "frozen_object (PyMap kvs) = list_all (\<lambda>kv. frozen_object (snd kv)) kvs"
| "frozen_object (PyTuple xs) = list_all frozen_object xs"
| "frozen_object (PyList xs) = False"
| "frozen_object PyOther = False"
| "frozen_object v = True"
  by pat_completeness auto
termination
  by (relation "measure size") (auto dest: size_list_member size_entry_member)

lemma traverse_InrD:
  "traverse f xs = Inr ys \<Longrightarrow> y \<in> set ys \<Longrightarrow> \<exists>x \<in> set xs. f x = Inr y"
  by (induction xs arbitrary: ys) (auto simp: result_bind_eq_Inr)

lemma freeze_object_frozen: "freeze_object v = Inr w \<Longrightarrow> frozen_object w"
proof (induction v arbitrary: w rule: freeze_object.induct)
  case (1 kvs)
  then show ?case
    by (fastforce simp: result_bind_eq_Inr list_all_iff dest: traverse_InrD)
qed (fastforce simp: result_bind_eq_Inr list_all_iff dest: traverse_InrD)+

lemma freeze_object_mapping: "freeze_object v = Inr w \<Longrightarrow> is_mapping w \<longleftrightarrow> is_mapping v"
  by (cases v) (auto simp: result_bind_eq_Inr)

text \<open>Freezing a JSON value and thawing it gives the value back; frozen values are kept.\<close>

lemma freeze_object_of_json: "json_object v \<Longrightarrow> \<exists>w. freeze_object v = Inr w \<and> thaw_object w = v"
proof (induction v rule: json_object.induct)
  case (1 kvs)
  define g where "g kv = (fst kv, projr (freeze_object (snd kv)))" for kv :: "string \<times> pyobj"
  have "traverse (\<lambda>kv. result_bind (freeze_object (snd kv)) (\<lambda>v. Inr (fst kv, v))) kvs
      = Inr (map g kvs)"
    using 1 by (intro traverse_all_Inr) (fastforce simp: g_def list_all_iff)
  moreover have "thaw_object (projr (freeze_object (snd kv))) = snd kv" if "kv \<in> set kvs" for kv
    using 1 that by (fastforce simp: list_all_iff)
  then have "map (\<lambda>kv. (fst kv, thaw_object (snd kv))) (map g kvs) = kvs"
    by (auto simp: g_def intro!: map_idI)
  ultimately show ?case by simp
next
  case (2 xs)
  define g where "g x = projr (freeze_object x)" for x
  have "traverse freeze_object xs = Inr (map g xs)"
    using 2 by (intro traverse_all_Inr) (fastforce simp: g_def list_all_iff)
  moreover have "thaw_object (projr (freeze_object x)) = x" if "x \<in> set xs" for x
    using 2 that by (fastforce simp: list_all_iff)
  then have "map thaw_object (map g xs) = xs"
    by (auto simp: g_def intro!: map_idI)
  ultimately show ?case by simp
qed auto

lemma freeze_frozen_object: "frozen_object v \<Longrightarrow> freeze_object v = Inr v"
proof (induction v rule: frozen_object.induct)
  case (1 kvs)
  then have "traverse (\<lambda>kv. result_bind (freeze_object (snd kv)) (\<lambda>v. Inr (fst kv, v))) kvs
      = Inr (map (\<lambda>kv. kv) kvs)"
    by (intro traverse_all_Inr) (auto simp: list_all_iff)
  then show ?case by simp
next
  case (2 xs)
  then have "traverse freeze_object xs = Inr (map (\<lambda>x. x) xs)"
    by (intro traverse_all_Inr) (auto simp: list_all_iff)
  then show ?case by simp
qed auto

end
