(* ===== verification/Model_Contracts.thy ===== *)
theory Model_Contracts
  imports Model_Values
begin

section \<open>Provider-neutral model contracts\<close>

text \<open>
  \<open>application/models/contracts.py\<close> and the ports \<open>secret_provider.py\<close>, \<open>token_estimator.py\<close> and
  \<open>model_provider.py\<close>: the enumerations, one record per dataclass, and each \<open>__post_init__\<close> as a
  function that accepts or rejects the fields. A constructor whose argument is a float takes a
  \<open>pyfloat\<close> and stores the number.
\<close>

subsection \<open>Enumerations\<close>

datatype input_modality = Text_Input | Image_Input | Document_Input

fun input_modality_value :: "input_modality \<Rightarrow> string" where
  "input_modality_value Text_Input = ''text''"
| "input_modality_value Image_Input = ''image''"
| "input_modality_value Document_Input = ''document''"

datatype model_capability = Text_Capability | Tool_Calling | Structured_Output

fun model_capability_value :: "model_capability \<Rightarrow> string" where
  "model_capability_value Text_Capability = ''text''"
| "model_capability_value Tool_Calling = ''tool_calling''"
| "model_capability_value Structured_Output = ''structured_output''"

datatype message_role = System_Role | User_Role | Assistant_Role | Tool_Role

fun message_role_value :: "message_role \<Rightarrow> string" where
  "message_role_value System_Role = ''system''"
| "message_role_value User_Role = ''user''"
| "message_role_value Assistant_Role = ''assistant''"
| "message_role_value Tool_Role = ''tool''"

datatype finish_reason =
    Finish_Stop | Finish_Tool_Calls | Finish_Length | Finish_Content_Filter | Finish_Cancelled
  | Finish_Unknown

fun finish_reason_value :: "finish_reason \<Rightarrow> string" where
  "finish_reason_value Finish_Stop = ''stop''"
| "finish_reason_value Finish_Tool_Calls = ''tool_calls''"
| "finish_reason_value Finish_Length = ''length''"
| "finish_reason_value Finish_Content_Filter = ''content_filter''"
| "finish_reason_value Finish_Cancelled = ''cancelled''"
| "finish_reason_value Finish_Unknown = ''unknown''"

datatype model_error_code =
    Invalid_Request | Capability_Mismatch | Authentication | Permission | Content_Policy
  | Rate_Limited | Timeout | Circuit_Open | Unavailable | Malformed_Response
  | Structured_Output_Invalid | Call_Cancelled | Unknown_Error

fun model_error_code_value :: "model_error_code \<Rightarrow> string" where
  "model_error_code_value Invalid_Request = ''invalid_request''"
| "model_error_code_value Capability_Mismatch = ''capability_mismatch''"
| "model_error_code_value Authentication = ''authentication''"
| "model_error_code_value Permission = ''permission''"
| "model_error_code_value Content_Policy = ''content_policy''"
| "model_error_code_value Rate_Limited = ''rate_limited''"
| "model_error_code_value Timeout = ''timeout''"
| "model_error_code_value Circuit_Open = ''circuit_open''"
| "model_error_code_value Unavailable = ''unavailable''"
| "model_error_code_value Malformed_Response = ''malformed_response''"
| "model_error_code_value Structured_Output_Invalid = ''structured_output_invalid''"
| "model_error_code_value Call_Cancelled = ''cancelled''"
| "model_error_code_value Unknown_Error = ''unknown''"

datatype chunk_kind = Text_Delta | Tool_Call_Delta | Usage_Chunk | Terminal_Chunk | Error_Chunk

datatype attempt_outcome = Attempt_Succeeded | Attempt_Failed | Attempt_Cancelled

subsection \<open>Identifiers and secrets\<close>

datatype provider_id = ProviderId (provider_id_value: string)

definition new_provider_id :: "string \<Rightarrow> exn + provider_id" where
  "new_provider_id s = (if provider_id_pattern s then Inr (ProviderId s) else Inl ValueError)"

datatype secret_reference = SecretReference (secret_name: string)

definition new_secret_reference :: "string \<Rightarrow> exn + secret_reference" where
  "new_secret_reference s =
     (if secret_reference_pattern s then Inr (SecretReference s) else Inl ValueError)"

datatype secret_value = SecretValue (reveal: string)

definition new_secret_value :: "string \<Rightarrow> exn + secret_value" where
  "new_secret_value s = (if s = [] then Inl ValueError else Inr (SecretValue s))"

definition secret_value_str :: "secret_value \<Rightarrow> string" where
  "secret_value_str s = ''********''"

definition secret_value_repr :: "secret_value \<Rightarrow> string" where
  "secret_value_repr s = ''SecretValue(********)''"

text \<open>\<open>EnvironmentSecretProvider\<close>: allowlisted names only; \<open>None\<close> is \<open>SecretResolutionError\<close>.\<close>

definition new_environment_secrets :: "secret_reference list \<Rightarrow> exn + string set" where
  "new_environment_secrets refs =
     (if refs = [] then Inl ValueError else Inr (set (map secret_name refs)))"

definition environment_resolve ::
    "string set \<Rightarrow> (string \<times> string) list \<Rightarrow> secret_reference \<Rightarrow> secret_value option" where
  "environment_resolve allowed environment reference =
     (if secret_name reference \<notin> allowed then None
      else (case map_of environment (secret_name reference) of
          None \<Rightarrow> None
        | Some v \<Rightarrow> if blank v then None else Some (SecretValue v)))"

text \<open>Resolution never constructs an invalid secret, and never reads a name off the list.\<close>

lemma environment_resolve_Some:
  assumes "environment_resolve allowed environment r = Some s"
  shows "secret_name r \<in> allowed" and "map_of environment (secret_name r) = Some (reveal s)"
    and "new_secret_value (reveal s) = Inr s"
  using assms by (auto simp: environment_resolve_def new_secret_value_def blank_def
      split: if_splits option.splits)

subsection \<open>Schemas\<close>

text \<open>\<open>mapping.get(name)\<close>, and the parts of \<open>_validate_json_schema\<close> that do not recurse.\<close>

definition get_field :: "(string \<times> pyobj) list \<Rightarrow> string \<Rightarrow> pyobj" where
  "get_field m name = (case map_of m name of None \<Rightarrow> PyNone | Some v \<Rightarrow> v)"

fun is_text :: "pyobj \<Rightarrow> bool" where
  "is_text (PyStr s) = True"
| "is_text _ = False"

fun is_bool :: "pyobj \<Rightarrow> bool" where
  "is_bool (PyBool b) = True"
| "is_bool _ = False"

fun is_name :: "pyobj \<Rightarrow> bool" where
  "is_name (PyStr s) = (s \<noteq> [])"
| "is_name _ = False"

fun schema_type_ok :: "pyobj \<Rightarrow> bool" where
  "schema_type_ok PyNone = True"
| "schema_type_ok (PyStr s) = True"
| "schema_type_ok (PyTuple ts) = (ts \<noteq> [] \<and> list_all is_text ts)"
| "schema_type_ok _ = False"

fun declares :: "pyobj \<Rightarrow> pyobj \<Rightarrow> bool" where
  "declares (PyMap props) (PyStr name) = (map_of props name \<noteq> None)"
| "declares _ _ = False"

fun schema_required_ok :: "pyobj \<Rightarrow> pyobj \<Rightarrow> bool" where
  "schema_required_ok props PyNone = True"
| "schema_required_ok props (PyTuple names) =
     (list_all is_name names \<and> distinct names \<and> is_mapping props \<and> list_all (declares props) names)"
| "schema_required_ok props _ = False"

lemma size_pair_member:
  "(k, v) \<in> set kvs \<Longrightarrow> size v < Suc (size_list (size_prod (\<lambda>_. 0) size) kvs)"
  using size_entry_member [of "(k, v)" kvs] by simp

lemma get_field_size: "size (get_field m name) < Suc (size_list (size_prod (\<lambda>_. 0) size) m)"
proof (cases "map_of m name")
  case (Some v)
  then have "(name, v) \<in> set m" by (rule map_of_SomeD)
  then have "size (snd (name, v)) < Suc (size_list (size_prod (\<lambda>_. 0) size) m)"
    by (rule size_entry_member)
  with Some show ?thesis by (simp add: get_field_def)
qed (simp add: get_field_def)

lemma get_field_map_size:
  "get_field m name = PyMap p \<Longrightarrow>
     size_list (size_prod (\<lambda>_. 0) size) p < size_list (size_prod (\<lambda>_. 0) size) m"
  using get_field_size [of m name] by simp

lemma get_field_entry_size:
  "get_field m name = PyMap p \<Longrightarrow> (k, v) \<in> set p \<Longrightarrow>
     size v < Suc (size_list (size_prod (\<lambda>_. 0) size) m)"
  using get_field_map_size [of m name p] size_pair_member [of k v p] by linarith

function validate_json_schema :: "bool \<Rightarrow> pyobj \<Rightarrow> exn + unit" where
  "validate_json_schema object_root schema = (case schema of
      PyMap m \<Rightarrow>
        result_bind (require (\<not> object_root \<or> get_field m ''type'' = PyStr ''object'') ValueError)
          (\<lambda>_. result_bind (require (schema_type_ok (get_field m ''type'')) ValueError)
          (\<lambda>_. result_bind (case get_field m ''properties'' of
              PyNone \<Rightarrow> Inr ()
            | PyMap props \<Rightarrow>
                result_bind (traverse (\<lambda>kv.
                    result_bind (require (fst kv \<noteq> []) ValueError)
                      (\<lambda>_. if is_bool (snd kv) then Inr ()
                            else validate_json_schema False (snd kv))) props)
                  (\<lambda>_. Inr ())
            | _ \<Rightarrow> Inl ValueError)
          (\<lambda>_. result_bind (require (schema_required_ok (get_field m ''properties'')
                  (get_field m ''required'')) ValueError)
          (\<lambda>_. result_bind (case get_field m ''additionalProperties'' of
              PyNone \<Rightarrow> Inr ()
            | PyBool b \<Rightarrow> Inr ()
            | PyMap sub \<Rightarrow> validate_json_schema False (PyMap sub)
            | _ \<Rightarrow> Inl ValueError)
          (\<lambda>_. (case get_field m ''items'' of
              PyNone \<Rightarrow> Inr ()
            | PyBool b \<Rightarrow> Inr ()
            | PyMap sub \<Rightarrow> validate_json_schema False (PyMap sub)
            | _ \<Rightarrow> Inl ValueError))))))
    | _ \<Rightarrow> Inl ValueError)"
  by pat_completeness auto
termination
  by (relation "measure (\<lambda>(r, s). size s)")
    (auto dest: get_field_map_size get_field_entry_size)

declare validate_json_schema.simps [simp del]

subsection \<open>Messages and tools\<close>

datatype content_part =
    TextPart string
  | ImagePart (part_uri: string) (part_media_type: string)
  | DocumentPart (part_uri: string) (part_media_type: string) (part_title: "string option")

fun is_text_part :: "content_part \<Rightarrow> bool" where
  "is_text_part (TextPart t) = True"
| "is_text_part _ = False"

fun content_part_post_init :: "content_part \<Rightarrow> exn + unit" where
  "content_part_post_init (TextPart t) = require (t \<noteq> []) ValueError"
| "content_part_post_init (ImagePart uri media) =
     result_bind (require (url_scheme uri \<in> {''https'', ''data''}) ValueError) (\<lambda>_.
       require (starts_with ''image/'' media) ValueError)"
| "content_part_post_init (DocumentPart uri media title) =
     result_bind (require (url_scheme uri \<in> {''https'', ''data''}) ValueError) (\<lambda>_.
       require (media \<noteq> []) ValueError)"

record message =
  msg_role :: message_role
  msg_content :: "content_part list"
  msg_tool_call_id :: "string option"
  msg_name :: "string option"

definition present :: "string option \<Rightarrow> bool" where
  "present s \<longleftrightarrow> s \<noteq> None \<and> s \<noteq> Some []"

definition message_post_init :: "message \<Rightarrow> exn + unit" where
  "message_post_init m =
     result_bind (require (msg_content m \<noteq> []) ValueError) (\<lambda>_.
     result_bind (require (msg_role m = Tool_Role \<longrightarrow> present (msg_tool_call_id m)) ValueError) (\<lambda>_.
     result_bind (require (msg_role m \<noteq> Tool_Role \<longrightarrow> msg_tool_call_id m = None) ValueError) (\<lambda>_.
       require (msg_role m \<in> {System_Role, Tool_Role} \<longrightarrow>
                list_all is_text_part (msg_content m)) ValueError)))"

record tool_definition =
  tool_name :: string
  tool_description :: string
  tool_input_schema :: pyobj
  tool_strict :: bool

definition object_schema :: "pyobj \<Rightarrow> bool" where
  "object_schema s \<longleftrightarrow>
     (case s of PyMap m \<Rightarrow> get_field m ''type'' = PyStr ''object'' | _ \<Rightarrow> False)"

definition new_tool_definition :: "tool_definition \<Rightarrow> exn + tool_definition" where
  "new_tool_definition t =
     result_bind (require (tool_name_pattern (tool_name t)) ValueError) (\<lambda>_.
     result_bind (require (\<not> blank (tool_description t)) ValueError) (\<lambda>_.
     result_bind (freeze_object (tool_input_schema t)) (\<lambda>frozen.
     result_bind (require (object_schema frozen) ValueError) (\<lambda>_.
     result_bind (validate_json_schema True frozen) (\<lambda>_.
       Inr (t\<lparr>tool_input_schema := frozen\<rparr>))))))"

record tool_call =
  call_id :: string
  call_name :: string
  call_arguments :: pyobj

definition new_tool_call :: "tool_call \<Rightarrow> exn + tool_call" where
  "new_tool_call c =
     result_bind (require (call_id c \<noteq> []) ValueError) (\<lambda>_.
     result_bind (require (tool_name_pattern (call_name c)) ValueError) (\<lambda>_.
     result_bind (freeze_object (call_arguments c)) (\<lambda>frozen.
     result_bind (require (is_mapping frozen) ValueError) (\<lambda>_.
       Inr (c\<lparr>call_arguments := frozen\<rparr>)))))"

record tool_call_delta =
  delta_index :: int
  delta_id :: "string option"
  delta_name :: "string option"
  delta_fragment :: string

definition tool_call_delta_post_init :: "tool_call_delta \<Rightarrow> exn + unit" where
  "tool_call_delta_post_init d = require (0 \<le> delta_index d) ValueError"

text \<open>
  A \<open>StructuredOutputContract\<close> is code of the caller: its name, its schema and its \<open>validate\<close>,
  which returns a value or raises (\<open>None\<close>).
\<close>

record structured_contract =
  so_name :: string
  so_schema :: pyobj
  so_validate :: "pyobj \<Rightarrow> pyobj option"

subsection \<open>Targets and routes\<close>

record capability_profile =
  cap_tool_calling :: bool
  cap_structured_output :: bool
  cap_modalities :: "input_modality set"
  cap_bounds :: "(input_modality \<times> int) list"
  cap_max_context :: int
  cap_max_output :: int
  cap_usage_available :: bool

definition bound_of :: "(input_modality \<times> int) list \<Rightarrow> input_modality \<Rightarrow> int" where
  "bound_of bounds m = (case map_of bounds m of None \<Rightarrow> 0 | Some v \<Rightarrow> v)"

definition capability_profile_post_init :: "capability_profile \<Rightarrow> exn + unit" where
  "capability_profile_post_init c =
     result_bind (require (Text_Input \<in> cap_modalities c) ValueError) (\<lambda>_.
     result_bind (require (0 < cap_max_context c \<and> 0 < cap_max_output c) ValueError) (\<lambda>_.
     result_bind (require (cap_max_output c \<le> cap_max_context c) ValueError) (\<lambda>_.
     result_bind (require (\<forall>m \<in> cap_modalities c - {Text_Input}. 0 < bound_of (cap_bounds c) m)
       ValueError) (\<lambda>_.
       require (list_all (\<lambda>(m, v). m \<in> cap_modalities c \<and> 0 < v) (cap_bounds c)) ValueError))))"

fun supports :: "capability_profile \<Rightarrow> model_capability \<Rightarrow> bool" where
  "supports c Text_Capability = True"
| "supports c Tool_Calling = cap_tool_calling c"
| "supports c Structured_Output = cap_structured_output c"

record 'f model_limits =
  attempt_timeout_seconds :: 'f
  stream_first_byte_timeout_seconds :: 'f
  stream_idle_timeout_seconds :: 'f
  max_retries :: int
  retry_base_delay_seconds :: 'f
  retry_max_delay_seconds :: 'f
  rate_limit_per_second :: "'f option"
  rate_limit_burst :: int
  circuit_failure_threshold :: int
  circuit_recovery_seconds :: 'f

definition new_model_limits :: "pyfloat model_limits \<Rightarrow> exn + rat model_limits" where
  "new_model_limits l =
     result_bind (require_positive_finite (attempt_timeout_seconds l)) (\<lambda>attempt.
     result_bind (require_positive_finite (stream_first_byte_timeout_seconds l)) (\<lambda>first.
     result_bind (require_positive_finite (stream_idle_timeout_seconds l)) (\<lambda>idle.
     result_bind (require_positive_finite (retry_base_delay_seconds l)) (\<lambda>base.
     result_bind (require_positive_finite (retry_max_delay_seconds l)) (\<lambda>maximum.
     result_bind (require_positive_finite (circuit_recovery_seconds l)) (\<lambda>recovery.
     result_bind (require (0 \<le> max_retries l) ValueError) (\<lambda>_.
     result_bind (require (base \<le> maximum) ValueError) (\<lambda>_.
     result_bind (case rate_limit_per_second l of None \<Rightarrow> Inr None
       | Some r \<Rightarrow> result_bind (require_positive_finite r) (\<lambda>q. Inr (Some q))) (\<lambda>rate.
     result_bind (require (0 < rate_limit_burst l) ValueError) (\<lambda>_.
     result_bind (require (0 < circuit_failure_threshold l) ValueError) (\<lambda>_.
       Inr \<lparr>attempt_timeout_seconds = attempt, stream_first_byte_timeout_seconds = first,
            stream_idle_timeout_seconds = idle, max_retries = max_retries l,
            retry_base_delay_seconds = base, retry_max_delay_seconds = maximum,
            rate_limit_per_second = rate, rate_limit_burst = rate_limit_burst l,
            circuit_failure_threshold = circuit_failure_threshold l,
            circuit_recovery_seconds = recovery\<rparr>)))))))))))"

record model_target =
  target_provider :: provider_id
  target_model_id :: string
  target_credential :: "secret_reference option"
  target_capabilities :: capability_profile
  target_limits :: "rat model_limits"

type_synonym target_id = "provider_id \<times> string"

definition model_target_post_init :: "model_target \<Rightarrow> exn + unit" where
  "model_target_post_init t = require (\<not> blank (target_model_id t)) ValueError"

definition target_key :: "model_target \<Rightarrow> target_id" where
  "target_key t = (target_provider t, target_model_id t)"

record model_route =
  route_primary :: model_target
  route_fallbacks :: "model_target list"
  route_total_timeout :: rat

definition route_targets :: "model_route \<Rightarrow> model_target list" where
  "route_targets r = route_primary r # route_fallbacks r"

definition new_model_route ::
    "model_target \<Rightarrow> model_target list \<Rightarrow> pyfloat \<Rightarrow> exn + model_route" where
  "new_model_route primary fallbacks timeout =
     result_bind (require_positive_finite timeout) (\<lambda>seconds.
     result_bind (require (distinct (map target_key (primary # fallbacks))) ValueError) (\<lambda>_.
       Inr \<lparr>route_primary = primary, route_fallbacks = fallbacks,
            route_total_timeout = seconds\<rparr>))"

subsection \<open>Requests\<close>

record model_request =
  req_id :: string
  req_messages :: "message list"
  req_max_output_tokens :: int
  req_capabilities :: "model_capability set"
  req_tools :: "tool_definition list"
  req_structured :: "structured_contract option"
  req_temperature :: "pyfloat option"
  req_stop :: "string list"

fun substantial_part :: "content_part \<Rightarrow> bool" where
  "substantial_part (TextPart t) = (\<not> blank t)"
| "substantial_part _ = True"

definition temperature_ok :: "pyfloat option \<Rightarrow> bool" where
  "temperature_ok t = (case t of None \<Rightarrow> True
     | Some f \<Rightarrow> is_finite_float f \<and> 0 \<le> float_number f \<and> float_number f \<le> 2)"

definition structured_contract_ok :: "structured_contract \<Rightarrow> exn + unit" where
  "structured_contract_ok c = (case freeze_object (so_schema c) of
      Inl e \<Rightarrow> Inl ValueError
    | Inr schema \<Rightarrow>
        result_bind (require (tool_name_pattern (so_name c)) ValueError) (\<lambda>_.
          (case validate_json_schema True schema of
             Inl e \<Rightarrow> Inl ValueError | Inr u \<Rightarrow> Inr ())))"

definition required_capabilities :: "model_request \<Rightarrow> model_capability set" where
  "required_capabilities r =
     req_capabilities r \<union> (if req_tools r \<noteq> [] then {Tool_Calling} else {}) \<union>
     (if req_structured r \<noteq> None then {Structured_Output} else {})"

definition new_model_request :: "model_request \<Rightarrow> exn + model_request" where
  "new_model_request r =
     result_bind (require (\<not> blank (req_id r)) ValueError) (\<lambda>_.
     result_bind (require (req_messages r \<noteq> []) ValueError) (\<lambda>_.
     result_bind (require (list_ex (\<lambda>m. list_ex substantial_part (msg_content m)) (req_messages r))
       ValueError) (\<lambda>_.
     result_bind (require (0 < req_max_output_tokens r) ValueError) (\<lambda>_.
     result_bind (require (temperature_ok (req_temperature r)) ValueError) (\<lambda>_.
     result_bind (require (distinct (map tool_name (req_tools r))) ValueError) (\<lambda>_.
     result_bind (require ([] \<notin> set (req_stop r) \<and> distinct (req_stop r)) ValueError) (\<lambda>_.
     result_bind (require (req_tools r = [] \<or> req_structured r = None) ValueError) (\<lambda>_.
     result_bind (case req_structured r of None \<Rightarrow> Inr () | Some c \<Rightarrow> structured_contract_ok c) (\<lambda>_.
       Inr (r\<lparr>req_capabilities := required_capabilities r\<rparr>))))))))))"

fun part_modality :: "content_part \<Rightarrow> input_modality" where
  "part_modality (TextPart t) = Text_Input"
| "part_modality (ImagePart uri media) = Image_Input"
| "part_modality (DocumentPart uri media title) = Document_Input"

definition input_modalities :: "model_request \<Rightarrow> input_modality set" where
  "input_modalities r =
     insert Text_Input (set (concat (map (\<lambda>m. map part_modality (msg_content m)) (req_messages r))))"

subsection \<open>Decimal arithmetic of the default context\<close>

text \<open>
  \<open>a + b\<close> of two decimals that are no NaN: the exact sum, rounded half-even to 28 digits, within
  exponents of at most 999999. Overflow raises \<open>decimal.Overflow\<close>, as does the sum of opposite
  infinities with \<open>InvalidOperation\<close>.
\<close>

definition round_half_even :: "nat \<Rightarrow> nat \<Rightarrow> nat" where
  "round_half_even c k =
     (let q = c div 10 ^ k; r = c mod 10 ^ k in
      if 10 ^ k < 2 * r \<or> (2 * r = 10 ^ k \<and> odd q) then q + 1 else q)"

definition decimal_prec :: nat where
  "decimal_prec = 28"

definition decimal_etiny :: int where
  "decimal_etiny = - 1000026"

definition decimal_etop :: int where
  "decimal_etop = 999972"

definition decimal_emax :: int where
  "decimal_emax = 999999"

definition decimal_fix :: "bool \<Rightarrow> nat \<Rightarrow> int \<Rightarrow> exn + decimal" where
  "decimal_fix s c e =
     (if c = 0 then Inr (Fin s 0 (min (max e decimal_etiny) decimal_emax))
      else let low = int (length (nat_digits c)) + e - int decimal_prec in
        if decimal_etop < low then Inl ArithmeticError
        else let low = max low decimal_etiny in
          if low \<le> e then Inr (Fin s c e)
          else let q = round_half_even c (nat (low - e)) in
            if decimal_prec < length (nat_digits q)
            then (if decimal_etop < low + 1 then Inl ArithmeticError
                  else Inr (Fin s (q div 10) (low + 1)))
            else Inr (Fin s q low))"

fun decimal_add :: "decimal \<Rightarrow> decimal \<Rightarrow> exn + decimal" where
  "decimal_add (Fin s1 c1 e1) (Fin s2 c2 e2) =
     (let m = min e1 e2; total = aligned (Fin s1 c1 e1) m + aligned (Fin s2 c2 e2) m in
      decimal_fix (total < 0 \<or> (total = 0 \<and> s1 \<and> s2)) (nat \<bar>total\<bar>) m)"
| "decimal_add (Infinite s) (Infinite t) =
     (if s = t then Inr (Infinite s) else Inl ArithmeticError)"
| "decimal_add NaN _ = Inr NaN"
| "decimal_add _ NaN = Inr NaN"
| "decimal_add (Infinite s) _ = Inr (Infinite s)"
| "decimal_add _ (Infinite s) = Inr (Infinite s)"

text \<open>\<open>sum(values, Decimal())\<close>\<close>

fun decimal_sum :: "decimal \<Rightarrow> decimal list \<Rightarrow> exn + decimal" where
  "decimal_sum acc [] = Inr acc"
| "decimal_sum acc (d # ds) = result_bind (decimal_add acc d) (\<lambda>a. decimal_sum a ds)"

subsection \<open>Usage\<close>

record model_usage =
  us_input :: "int option"
  us_output :: "int option"
  us_total :: "int option"
  us_input_details :: "(string \<times> int) list"
  us_output_details :: "(string \<times> int) list"
  us_amount :: "decimal option"
  us_currency :: "string option"
  us_incomplete :: bool

definition non_negative :: "int option \<Rightarrow> bool" where
  "non_negative v = (case v of None \<Rightarrow> True | Some n \<Rightarrow> 0 \<le> n)"

definition or_zero :: "int option \<Rightarrow> int" where
  "or_zero v = (case v of None \<Rightarrow> 0 | Some n \<Rightarrow> n)"

definition amount_ok :: "decimal option \<Rightarrow> exn + unit" where
  "amount_ok a = (case a of
      None \<Rightarrow> Inr ()
    | Some NaN \<Rightarrow> Inl ArithmeticError
    | Some d \<Rightarrow> require (\<not> is_negative d) ValueError)"

definition model_usage_post_init :: "model_usage \<Rightarrow> exn + unit" where
  "model_usage_post_init u =
     result_bind (require (non_negative (us_input u) \<and> non_negative (us_output u) \<and>
       non_negative (us_total u)) ValueError) (\<lambda>_.
     result_bind (require (us_incomplete u \<or> (case us_total u of None \<Rightarrow> True
       | Some t \<Rightarrow> or_zero (us_input u) + or_zero (us_output u) \<le> t)) ValueError) (\<lambda>_.
     result_bind (require ((us_amount u = None) = (us_currency u = None)) ValueError) (\<lambda>_.
       amount_ok (us_amount u))))"

definition empty_usage :: model_usage where
  "empty_usage = \<lparr>us_input = None, us_output = None, us_total = None, us_input_details = [],
     us_output_details = [], us_amount = None, us_currency = None, us_incomplete = False\<rparr>"

definition known :: "'a option list \<Rightarrow> 'a list" where
  "known vs = map the (filter (\<lambda>v. v \<noteq> None) vs)"

definition aggregate_optional :: "int option list \<Rightarrow> int option \<times> bool" where
  "aggregate_optional vs =
     (if known vs = [] then None else Some (sum_list (known vs)),
      length (known vs) \<noteq> length vs)"

definition aggregate_usage :: "model_usage list \<Rightarrow> exn + model_usage" where
  "aggregate_usage usages =
     (let checked = (\<lambda>u. result_bind (model_usage_post_init u) (\<lambda>_. Inr u)) in
      if usages = [] then checked (empty_usage\<lparr>us_incomplete := True\<rparr>)
      else
        let (inp, inp_incomplete) = aggregate_optional (map us_input usages);
            (out, out_incomplete) = aggregate_optional (map us_output usages);
            (total, total_incomplete) = aggregate_optional (map us_total usages);
            amounts = map us_amount usages;
            currencies = dedup (known (map us_currency usages));
            amount_incomplete = list_ex (\<lambda>a. a = None) amounts \<or> length currencies \<noteq> 1
        in result_bind (if amount_incomplete then Inr None
             else result_bind (decimal_sum dec_zero (known amounts)) (\<lambda>d. Inr (Some d)))
           (\<lambda>amount. checked (empty_usage\<lparr>
              us_input := inp, us_output := out, us_total := total, us_amount := amount,
              us_currency := (if amount_incomplete then None else Some (hd currencies)),
              us_incomplete := list_ex us_incomplete usages \<or> inp_incomplete \<or> out_incomplete \<or>
                total_incomplete \<or> amount_incomplete\<rparr>)))"

subsection \<open>Attempts, errors, responses and chunks\<close>

record attempt_record =
  at_no :: int
  at_provider :: provider_id
  at_model_id :: string
  at_started_at :: datetime
  at_duration_ms :: rat
  at_outcome :: attempt_outcome
  at_error_code :: "model_error_code option"
  at_provider_request_id :: "string option"
  at_usage :: "model_usage option"
  at_fallback_reason :: "model_error_code option"

fun is_aware :: "datetime \<Rightarrow> bool" where
  "is_aware (Naive w) = False"
| "is_aware (Aware w off) = True"

definition attempt_record_post_init :: "attempt_record \<Rightarrow> exn + unit" where
  "attempt_record_post_init a =
     result_bind (require (0 < at_no a \<and> 0 \<le> at_duration_ms a) ValueError) (\<lambda>_.
     result_bind (require (is_aware (at_started_at a)) ValueError) (\<lambda>_.
     result_bind (require (at_outcome a = Attempt_Failed \<longrightarrow> at_error_code a \<noteq> None) ValueError) (\<lambda>_.
     result_bind (require (at_outcome a = Attempt_Cancelled \<longrightarrow>
       at_error_code a = Some Call_Cancelled) ValueError) (\<lambda>_.
       require (at_outcome a = Attempt_Succeeded \<longrightarrow> at_error_code a = None) ValueError))))"

definition retryable_codes :: "model_error_code set" where
  "retryable_codes = {Rate_Limited, Timeout, Unavailable}"

definition fallback_codes :: "model_error_code set" where
  "fallback_codes = insert Circuit_Open retryable_codes"

record model_error =
  me_code :: model_error_code
  me_message :: string
  me_request_id :: string
  me_correlation_id :: "string option"
  me_provider_request_id :: "string option"
  me_retryable :: bool
  me_fallback_allowed :: bool
  me_usage :: "model_usage option"
  me_attempts :: "attempt_record list"

text \<open>The constructor with the arguments of the gateway; adapters may also pass the two flags.\<close>

definition new_model_error :: "model_error_code \<Rightarrow> string \<Rightarrow> string \<Rightarrow> model_error" where
  "new_model_error code message request_id =
     \<lparr>me_code = code, me_message = message, me_request_id = request_id,
      me_correlation_id = None, me_provider_request_id = None,
      me_retryable = (code \<in> retryable_codes), me_fallback_allowed = (code \<in> fallback_codes),
      me_usage = None, me_attempts = []\<rparr>"

definition model_error_str :: "model_error \<Rightarrow> string" where
  "model_error_str e =
     model_error_code_value (me_code e) @ '': '' @ me_message e @ '' [request_id='' @
     me_request_id e @ '']''"

definition with_attempts :: "model_error \<Rightarrow> attempt_record list \<Rightarrow> model_error" where
  "with_attempts e attempts = e\<lparr>me_attempts := attempts\<rparr>"

text \<open>A structured output is any Python value; \<open>PyNone\<close> says that there is none.\<close>

record provider_response =
  pr_content :: "string list"
  pr_finish_reason :: finish_reason
  pr_usage :: "model_usage option"
  pr_provider_request_id :: "string option"
  pr_tool_calls :: "tool_call list"
  pr_structured :: pyobj

record provider_chunk =
  pc_text_delta :: "string option"
  pc_tool_call_delta :: "tool_call_delta option"
  pc_usage :: "model_usage option"
  pc_finish_reason :: "finish_reason option"
  pc_provider_request_id :: "string option"
  pc_structured :: pyobj

record model_response =
  rsp_request_id :: string
  rsp_provider :: provider_id
  rsp_model_id :: string
  rsp_content :: "string list"
  rsp_finish_reason :: finish_reason
  rsp_usage :: "model_usage option"
  rsp_total_usage :: model_usage
  rsp_attempts :: "attempt_record list"
  rsp_provider_request_id :: "string option"
  rsp_tool_calls :: "tool_call list"
  rsp_structured :: pyobj

definition model_response_post_init :: "model_response \<Rightarrow> exn + unit" where
  "model_response_post_init r =
     result_bind (require (rsp_attempts r \<noteq> []) ValueError) (\<lambda>_.
     result_bind (require (at_outcome (last (rsp_attempts r)) = Attempt_Succeeded) ValueError) (\<lambda>_.
     result_bind (require (at_provider (last (rsp_attempts r)) = rsp_provider r \<and>
       at_model_id (last (rsp_attempts r)) = rsp_model_id r) ValueError) (\<lambda>_.
     result_bind (require (rsp_content r \<noteq> [] \<or> rsp_tool_calls r \<noteq> [] \<or> rsp_structured r \<noteq> PyNone)
       ValueError) (\<lambda>_.
     result_bind (require (rsp_tool_calls r \<noteq> [] \<longrightarrow> rsp_finish_reason r = Finish_Tool_Calls)
       ValueError) (\<lambda>_.
     result_bind (require (rsp_finish_reason r = Finish_Tool_Calls \<longrightarrow> rsp_tool_calls r \<noteq> [])
       ValueError) (\<lambda>_.
       require (rsp_tool_calls r \<noteq> [] \<longrightarrow> rsp_structured r = PyNone) ValueError))))))"

record model_chunk =
  ck_sequence :: int
  ck_kind :: chunk_kind
  ck_text_delta :: "string option"
  ck_tool_call_delta :: "tool_call_delta option"
  ck_usage :: "model_usage option"
  ck_terminal :: "model_response option"
  ck_error :: "model_error option"

definition payload_present :: "model_chunk \<Rightarrow> chunk_kind \<Rightarrow> bool" where
  "payload_present c k = (case k of
      Text_Delta \<Rightarrow> ck_text_delta c \<noteq> None
    | Tool_Call_Delta \<Rightarrow> ck_tool_call_delta c \<noteq> None
    | Usage_Chunk \<Rightarrow> ck_usage c \<noteq> None
    | Terminal_Chunk \<Rightarrow> ck_terminal c \<noteq> None
    | Error_Chunk \<Rightarrow> ck_error c \<noteq> None)"

definition model_chunk_post_init :: "model_chunk \<Rightarrow> exn + unit" where
  "model_chunk_post_init c =
     result_bind (require (0 \<le> ck_sequence c) ValueError) (\<lambda>_.
     result_bind (require (length (filter (payload_present c)
       [Text_Delta, Tool_Call_Delta, Usage_Chunk, Terminal_Chunk, Error_Chunk]) = 1) ValueError) (\<lambda>_.
       require (payload_present c (ck_kind c)) ValueError))"

end
