(* ===== verification/Circuit_Breaker.thy ===== *)
theory Circuit_Breaker
  imports Model_Contracts
begin

section \<open>The circuit breaker of a model target\<close>

text \<open>
  \<open>application/services/circuit_breaker.py\<close>. Each method runs under the breaker's lock without
  awaiting inside it, so a method is one step; \<open>now\<close> is the reading of the injected clock.
  \<open>breaker_reach\<close> is the system of one breaker with any number of concurrent calls: a call is
  admitted by \<open>before_call\<close> and later reports its outcome once.
\<close>

datatype circuit_state = Circuit_Closed | Circuit_Opened | Circuit_Half_Open

fun circuit_state_value :: "circuit_state \<Rightarrow> string" where
  "circuit_state_value Circuit_Closed = ''closed''"
| "circuit_state_value Circuit_Opened = ''open''"
| "circuit_state_value Circuit_Half_Open = ''half_open''"

definition transient_codes :: "model_error_code set" where
  "transient_codes = {Rate_Limited, Timeout, Unavailable}"

record circuit_breaker =
  cb_threshold :: int
  cb_recovery_seconds :: rat
  cb_state :: circuit_state
  cb_failures :: int
  cb_opened_at :: "rat option"
  cb_probe_active :: bool

definition new_circuit_breaker :: "int \<Rightarrow> rat \<Rightarrow> exn + circuit_breaker" where
  "new_circuit_breaker threshold recovery =
     (if threshold \<le> 0 then Inl ValueError
      else if recovery \<le> 0 then Inl ValueError
      else Inr \<lparr>cb_threshold = threshold, cb_recovery_seconds = recovery,
        cb_state = Circuit_Closed, cb_failures = 0, cb_opened_at = None, cb_probe_active = False\<rparr>)"

definition circuit_open :: "rat \<Rightarrow> circuit_breaker \<Rightarrow> circuit_breaker" where
  "circuit_open now b =
     b\<lparr>cb_state := Circuit_Opened, cb_opened_at := Some now, cb_probe_active := False\<rparr>"

definition circuit_close :: "circuit_breaker \<Rightarrow> circuit_breaker" where
  "circuit_close b =
     b\<lparr>cb_state := Circuit_Closed, cb_failures := 0, cb_opened_at := None,
       cb_probe_active := False\<rparr>"

definition open_error :: "string \<Rightarrow> model_error" where
  "open_error request_id =
     new_model_error Circuit_Open ''Model target circuit is open'' request_id"

definition before_call ::
    "rat \<Rightarrow> string \<Rightarrow> circuit_breaker \<Rightarrow> (model_error + unit) \<times> circuit_breaker" where
  "before_call now request_id b =
     (let recovered = (case cb_opened_at b of None \<Rightarrow> False
            | Some t \<Rightarrow> cb_recovery_seconds b \<le> now - t)
      in if cb_state b = Circuit_Opened \<and> \<not> recovered then (Inl (open_error request_id), b)
      else let b = (if cb_state b = Circuit_Opened
            then b\<lparr>cb_state := Circuit_Half_Open, cb_probe_active := False\<rparr> else b)
        in if cb_state b = Circuit_Half_Open
           then (if cb_probe_active b then (Inl (open_error request_id), b)
                 else (Inr (), b\<lparr>cb_probe_active := True\<rparr>))
           else (Inr (), b))"

definition record_success :: "circuit_breaker \<Rightarrow> circuit_breaker" where
  "record_success b = circuit_close b"

definition record_failure :: "rat \<Rightarrow> model_error_code \<Rightarrow> circuit_breaker \<Rightarrow> circuit_breaker" where
  "record_failure now code b =
     (if code \<notin> transient_codes
      then (if cb_state b = Circuit_Half_Open then circuit_close b else b)
      else if cb_state b = Circuit_Half_Open then circuit_open now b
      else let b = b\<lparr>cb_failures := cb_failures b + 1\<rparr> in
        if cb_threshold b \<le> cb_failures b then circuit_open now b else b)"

definition record_cancelled :: "circuit_breaker \<Rightarrow> circuit_breaker" where
  "record_cancelled b =
     (if cb_state b = Circuit_Half_Open then b\<lparr>cb_probe_active := False\<rparr> else b)"

subsection \<open>Well-formed breakers\<close>

definition breaker_ok :: "circuit_breaker \<Rightarrow> bool" where
  "breaker_ok b \<longleftrightarrow>
     0 < cb_threshold b \<and> 0 < cb_recovery_seconds b \<and> 0 \<le> cb_failures b \<and>
     (case cb_state b of
        Circuit_Closed \<Rightarrow> cb_failures b < cb_threshold b \<and> cb_opened_at b = None \<and> \<not> cb_probe_active b
      | Circuit_Opened \<Rightarrow> cb_threshold b \<le> cb_failures b \<and> cb_opened_at b \<noteq> None \<and> \<not> cb_probe_active b
      | Circuit_Half_Open \<Rightarrow> cb_threshold b \<le> cb_failures b \<and> cb_opened_at b \<noteq> None)"

named_theorems breaker_defs \<open>the operations of the breaker\<close>

declare new_circuit_breaker_def [breaker_defs] circuit_open_def [breaker_defs]
  circuit_close_def [breaker_defs] before_call_def [breaker_defs] record_success_def [breaker_defs]
  record_failure_def [breaker_defs] record_cancelled_def [breaker_defs]

lemma breaker_ok_new: "new_circuit_breaker n r = Inr b \<Longrightarrow> breaker_ok b"
  by (auto simp: breaker_defs breaker_ok_def split: if_splits)

lemma breaker_ok_before_call: "breaker_ok b \<Longrightarrow> breaker_ok (snd (before_call now rid b))"
  by (auto simp: breaker_defs breaker_ok_def Let_def split: circuit_state.splits)

lemma breaker_ok_record:
  assumes "breaker_ok b"
  shows "breaker_ok (record_success b)" and "breaker_ok (record_failure now code b)"
    and "breaker_ok (record_cancelled b)"
  using assms by (auto simp: breaker_defs breaker_ok_def Let_def split: circuit_state.splits)

lemmas breaker_ok_intros = breaker_ok_new breaker_ok_before_call breaker_ok_record

text \<open>What \<open>before_call\<close> answers.\<close>

lemma before_call_closed: "cb_state b = Circuit_Closed \<Longrightarrow> before_call now rid b = (Inr (), b)"
  by (simp add: before_call_def)

lemma before_call_cooling:
  assumes "cb_state b = Circuit_Opened" and "cb_opened_at b = Some t"
    and "now - t < cb_recovery_seconds b"
  shows "before_call now rid b = (Inl (open_error rid), b)"
  using assms by (simp add: before_call_def)

lemma before_call_admits:
  "fst (before_call now rid b) = Inr () \<Longrightarrow>
     cb_state b = Circuit_Closed \<and> snd (before_call now rid b) = b \<or>
     cb_state b \<noteq> Circuit_Closed \<and> cb_state (snd (before_call now rid b)) = Circuit_Half_Open \<and>
     cb_probe_active (snd (before_call now rid b)) \<and>
     (cb_state b = Circuit_Half_Open \<longrightarrow> \<not> cb_probe_active b)"
  by (cases "cb_state b") (auto simp: before_call_def Let_def split: if_splits)

lemma before_call_rejects:
  "fst (before_call now rid b) = Inl e \<Longrightarrow> snd (before_call now rid b) = b \<and> e = open_error rid"
  by (auto simp: before_call_def Let_def split: if_splits)

subsection \<open>The contract of a breaker\<close>

text \<open>
  What a caller observes, as an automaton with four modes: it admits calls and has counted some
  transient failures, it cools down since a moment, a probe is in flight, or a probe is due.
\<close>

datatype call_outcome = Outcome_Success | Outcome_Failure model_error_code | Outcome_Cancelled

fun report :: "rat \<Rightarrow> call_outcome \<Rightarrow> circuit_breaker \<Rightarrow> circuit_breaker" where
  "report now Outcome_Success b = record_success b"
| "report now (Outcome_Failure code) b = record_failure now code b"
| "report now Outcome_Cancelled b = record_cancelled b"

datatype circuit_mode = Admitting int | Cooling rat | Probing | Probe_Due

fun mode_admits :: "rat \<Rightarrow> rat \<Rightarrow> circuit_mode \<Rightarrow> bool" where
  "mode_admits r now (Admitting k) = True"
| "mode_admits r now (Cooling t) = (r \<le> now - t)"
| "mode_admits r now Probing = False"
| "mode_admits r now Probe_Due = True"

text \<open>An admission to a circuit that does not admit every call is the probe.\<close>

fun mode_asked :: "rat \<Rightarrow> rat \<Rightarrow> circuit_mode \<Rightarrow> circuit_mode" where
  "mode_asked r now (Admitting k) = Admitting k"
| "mode_asked r now m = (if mode_admits r now m then Probing else m)"

fun mode_reported :: "int \<Rightarrow> rat \<Rightarrow> call_outcome \<Rightarrow> circuit_mode \<Rightarrow> circuit_mode" where
  "mode_reported n now Outcome_Success m = Admitting 0"
| "mode_reported n now Outcome_Cancelled m = (if m = Probing then Probe_Due else m)"
| "mode_reported n now (Outcome_Failure code) m =
     (if code \<in> transient_codes
      then (case m of Admitting k \<Rightarrow> if k + 1 < n then Admitting (k + 1) else Cooling now | _ \<Rightarrow> Cooling now)
      else if m = Probing \<or> m = Probe_Due then Admitting 0 else m)"

text \<open>Any sequence of admissions and reports, with the answers to the admissions.\<close>

datatype breaker_event = Asked rat string | Reported rat call_outcome

fun breaker_run :: "breaker_event list \<Rightarrow> circuit_breaker \<Rightarrow> (model_error + unit) list \<times> circuit_breaker" where
  "breaker_run [] b = ([], b)"
| "breaker_run (Asked now rid # es) b =
     (let run = breaker_run es (snd (before_call now rid b)) in (fst (before_call now rid b) # fst run, snd run))"
| "breaker_run (Reported now o' # es) b = breaker_run es (report now o' b)"

fun mode_run :: "int \<Rightarrow> rat \<Rightarrow> breaker_event list \<Rightarrow> circuit_mode \<Rightarrow> (model_error + unit) list \<times> circuit_mode" where
  "mode_run n r [] m = ([], m)"
| "mode_run n r (Asked now rid # es) m =
     ((if mode_admits r now m then Inr () else Inl (open_error rid)) # fst (mode_run n r es (mode_asked r now m)),
      snd (mode_run n r es (mode_asked r now m)))"
| "mode_run n r (Reported now o' # es) m = mode_run n r es (mode_reported n now o' m)"

subsection \<open>The breaker meets its contract\<close>

definition mode_of :: "circuit_breaker \<Rightarrow> circuit_mode" where
  "mode_of b =
     (case cb_state b of
        Circuit_Closed \<Rightarrow> Admitting (cb_failures b)
      | Circuit_Opened \<Rightarrow> Cooling (the (cb_opened_at b))
      | Circuit_Half_Open \<Rightarrow> if cb_probe_active b then Probing else Probe_Due)"

lemma report_ok: "breaker_ok b \<Longrightarrow> breaker_ok (report now o' b)"
  by (cases o') (simp_all add: breaker_ok_record)

lemma report_settings [simp]:
  "cb_threshold (report now o' b) = cb_threshold b"
  "cb_recovery_seconds (report now o' b) = cb_recovery_seconds b"
  by (cases o'; simp add: breaker_defs Let_def)+

lemma before_call_settings [simp]:
  "cb_threshold (snd (before_call now rid b)) = cb_threshold b"
  "cb_recovery_seconds (snd (before_call now rid b)) = cb_recovery_seconds b"
  by (simp_all add: before_call_def Let_def)

lemma mode_of_new: "new_circuit_breaker n r = Inr b \<Longrightarrow> mode_of b = Admitting 0"
  by (auto simp: new_circuit_breaker_def mode_of_def split: if_splits)

lemma mode_of_before_call:
  assumes "breaker_ok b"
  shows "fst (before_call now rid b) =
      (if mode_admits (cb_recovery_seconds b) now (mode_of b) then Inr () else Inl (open_error rid))"
    and "mode_of (snd (before_call now rid b)) = mode_asked (cb_recovery_seconds b) now (mode_of b)"
  using assms
  by (auto simp: breaker_ok_def before_call_def mode_of_def Let_def split: circuit_state.splits)

lemma mode_of_report:
  assumes "breaker_ok b"
  shows "mode_of (report now o' b) = mode_reported (cb_threshold b) now o' (mode_of b)"
  using assms
  by (cases o') (auto simp: breaker_ok_def mode_of_def breaker_defs Let_def split: circuit_state.splits)

lemma breaker_run_mode:
  "breaker_ok b \<Longrightarrow>
     fst (breaker_run es b) = fst (mode_run (cb_threshold b) (cb_recovery_seconds b) es (mode_of b)) \<and>
     mode_of (snd (breaker_run es b)) =
       snd (mode_run (cb_threshold b) (cb_recovery_seconds b) es (mode_of b))"
proof (induction es arbitrary: b)
  case (Cons e es)
  show ?case
  proof (cases e)
    case (Asked now rid)
    with Cons.IH [OF breaker_ok_before_call [OF Cons.prems, of now rid]] mode_of_before_call [OF Cons.prems, of now rid]
    show ?thesis by (simp add: Let_def)
  next
    case (Reported now o')
    with Cons.IH [OF report_ok [OF Cons.prems, of now o']] mode_of_report [OF Cons.prems, of now o']
    show ?thesis by simp
  qed
qed simp

subsection \<open>Consecutive transient failures\<close>

text \<open>The reports of a history, the newest first, each with its time.\<close>

fun reports_before :: "(rat \<times> call_outcome) list \<Rightarrow> breaker_event list \<Rightarrow> (rat \<times> call_outcome) list" where
  "reports_before older [] = older"
| "reports_before older (Asked now rid # es) = reports_before older es"
| "reports_before older (Reported now o' # es) = reports_before ((now, o') # older) es"

fun transient_failures :: "(rat \<times> call_outcome) list \<Rightarrow> int" where
  "transient_failures [] = 0"
| "transient_failures ((t, Outcome_Success) # older) = 0"
| "transient_failures ((t, Outcome_Failure code) # older) =
     (if code \<in> transient_codes then 1 else 0) + transient_failures older"
| "transient_failures ((t, Outcome_Cancelled) # older) = transient_failures older"

fun last_transient :: "(rat \<times> call_outcome) list \<Rightarrow> rat option" where
  "last_transient [] = None"
| "last_transient ((t, Outcome_Success) # older) = None"
| "last_transient ((t, Outcome_Failure code) # older) =
     (if code \<in> transient_codes then Some t else last_transient older)"
| "last_transient ((t, Outcome_Cancelled) # older) = last_transient older"

text \<open>Transient failures with nothing but cancellations between them.\<close>

fun transient_streak :: "(rat \<times> call_outcome) list \<Rightarrow> int" where
  "transient_streak [] = 0"
| "transient_streak ((t, Outcome_Success) # older) = 0"
| "transient_streak ((t, Outcome_Failure code) # older) =
     (if code \<in> transient_codes then 1 + transient_streak older else 0)"
| "transient_streak ((t, Outcome_Cancelled) # older) = transient_streak older"

fun mode_tracks :: "int \<Rightarrow> (rat \<times> call_outcome) list \<Rightarrow> circuit_mode \<Rightarrow> bool" where
  "mode_tracks n older (Admitting k) \<longleftrightarrow>
     0 \<le> k \<and> k < n \<and> transient_streak older \<le> k \<and> k \<le> transient_failures older"
| "mode_tracks n older (Cooling t) \<longleftrightarrow> n \<le> transient_failures older \<and> last_transient older = Some t"
| "mode_tracks n older m \<longleftrightarrow> n \<le> transient_failures older"

lemma mode_tracks_asked: "mode_tracks n older m \<Longrightarrow> mode_tracks n older (mode_asked r now m)"
  by (cases m) simp_all

lemma mode_tracks_reported:
  "0 < n \<Longrightarrow> mode_tracks n older m \<Longrightarrow> mode_tracks n ((now, o') # older) (mode_reported n now o' m)"
  by (cases o'; cases m) auto

lemma mode_run_tracks:
  "0 < n \<Longrightarrow> mode_tracks n older m \<Longrightarrow> mode_tracks n (reports_before older es) (snd (mode_run n r es m))"
proof (induction n r es m arbitrary: older rule: mode_run.induct)
  case (2 n r now rid es m)
  then show ?case by (simp add: mode_tracks_asked)
next
  case (3 n r now o' es m)
  then show ?case by (simp add: mode_tracks_reported)
qed simp

subsection \<open>Concurrent calls\<close>

text \<open>
  A call in flight carries the number it was given and whether it was admitted as a probe. In the
  \<open>orderly\<close> system a call that was admitted while the circuit was closed reports while it is
  closed: no call outlives the closed phase that admitted it.
\<close>

record breaker_system =
  bs_breaker :: circuit_breaker
  bs_calls :: "(nat \<times> bool) list"
  bs_next :: nat

definition admit_call :: "rat \<Rightarrow> string \<Rightarrow> breaker_system \<Rightarrow> breaker_system" where
  "admit_call now rid s =
     (case before_call now rid (bs_breaker s) of
        (Inl e, b) \<Rightarrow> s\<lparr>bs_breaker := b\<rparr>
      | (Inr _, b) \<Rightarrow> s\<lparr>bs_breaker := b,
          bs_calls := bs_calls s @ [(bs_next s, cb_state b = Circuit_Half_Open)],
          bs_next := bs_next s + 1\<rparr>)"

definition finish_call :: "rat \<Rightarrow> nat \<times> bool \<Rightarrow> call_outcome \<Rightarrow> breaker_system \<Rightarrow> breaker_system" where
  "finish_call now c o' s =
     s\<lparr>bs_breaker := report now o' (bs_breaker s), bs_calls := remove1 c (bs_calls s)\<rparr>"

inductive breaker_reach :: "bool \<Rightarrow> breaker_system \<Rightarrow> bool" for orderly where
  start: "new_circuit_breaker n r = Inr b \<Longrightarrow>
    breaker_reach orderly \<lparr>bs_breaker = b, bs_calls = [], bs_next = 0\<rparr>"
| admit: "breaker_reach orderly s \<Longrightarrow> breaker_reach orderly (admit_call now rid s)"
| finish: "breaker_reach orderly s \<Longrightarrow> c \<in> set (bs_calls s) \<Longrightarrow>
    (orderly \<longrightarrow> \<not> snd c \<longrightarrow> cb_state (bs_breaker s) = Circuit_Closed) \<Longrightarrow>
    breaker_reach orderly (finish_call now c o' s)"

definition probes :: "breaker_system \<Rightarrow> nat" where
  "probes s = length (filter snd (bs_calls s))"

lemma breaker_reach_ok: "breaker_reach orderly s \<Longrightarrow> breaker_ok (bs_breaker s)"
proof (induction rule: breaker_reach.induct)
  case (admit s now rid)
  then show ?case
    using breaker_ok_before_call [of "bs_breaker s" now rid]
    by (auto simp: admit_call_def split: prod.splits sum.splits)
qed (auto simp: finish_call_def intro: breaker_ok_new report_ok)

text \<open>In the orderly system the probe flag counts the probes in flight.\<close>

definition probes_counted :: "breaker_system \<Rightarrow> bool" where
  "probes_counted s \<longleftrightarrow>
     probes s = (if cb_state (bs_breaker s) = Circuit_Half_Open \<and> cb_probe_active (bs_breaker s)
       then 1 else 0)"

lemma probes_remove1:
  "c \<in> set (bs_calls s) \<Longrightarrow> probes (finish_call now c o' s) = probes s - (if snd c then 1 else 0)"
proof -
  assume c: "c \<in> set (bs_calls s)"
  have "filter snd (remove1 c (bs_calls s)) = (if snd c then remove1 c (filter snd (bs_calls s))
      else filter snd (bs_calls s))"
    by (simp add: filter_remove1 remove1_idem)
  then show ?thesis using c by (simp add: probes_def finish_call_def length_remove1)
qed

lemma probes_counted_finish:
  assumes "probes_counted s" and "breaker_ok (bs_breaker s)" and c: "c \<in> set (bs_calls s)"
    and "\<not> snd c \<longrightarrow> cb_state (bs_breaker s) = Circuit_Closed"
  shows "probes_counted (finish_call now c o' s)"
proof (cases "snd c")
  case True
  with c have "0 < probes s" by (auto simp: probes_def filter_empty_conv)
  with assms(1) have half: "cb_state (bs_breaker s) = Circuit_Half_Open" and one: "probes s = 1"
    by (auto simp: probes_counted_def split: if_splits)
  have "probes (finish_call now c o' s) = 0" using probes_remove1 [OF c] True one by simp
  moreover have "\<not> (cb_state (report now o' (bs_breaker s)) = Circuit_Half_Open \<and>
      cb_probe_active (report now o' (bs_breaker s)))"
    using half by (cases o') (auto simp: breaker_defs)
  ultimately show ?thesis by (simp add: probes_counted_def finish_call_def)
next
  case False
  with assms have closed: "cb_state (bs_breaker s) = Circuit_Closed" by simp
  then have "cb_state (report now o' (bs_breaker s)) \<noteq> Circuit_Half_Open"
    by (cases o') (auto simp: breaker_defs Let_def)
  moreover have "probes (finish_call now c o' s) = 0"
    using probes_remove1 [OF c] assms(1) closed by (simp add: probes_counted_def)
  ultimately show ?thesis by (simp add: probes_counted_def finish_call_def)
qed

lemma probes_counted_admit:
  assumes "probes_counted s"
  shows "probes_counted (admit_call now rid s)"
proof (cases "fst (before_call now rid (bs_breaker s))")
  case (Inl e)
  with before_call_rejects [OF Inl] have "before_call now rid (bs_breaker s) = (Inl e, bs_breaker s)"
    by (simp add: prod_eq_iff)
  with assms show ?thesis by (simp add: admit_call_def probes_counted_def probes_def)
next
  case (Inr u)
  then have admitted: "fst (before_call now rid (bs_breaker s)) = Inr ()" by simp
  show ?thesis
    using before_call_admits [OF admitted] admitted assms
    by (cases "before_call now rid (bs_breaker s)")
      (auto simp: admit_call_def probes_counted_def probes_def split: if_splits)
qed

lemma orderly_probes_counted: "breaker_reach True s \<Longrightarrow> probes_counted s"
proof (induction rule: breaker_reach.induct)
  case (start n r b)
  then show ?case by (auto simp: probes_counted_def probes_def new_circuit_breaker_def split: if_splits)
next
  case (admit s now rid)
  then show ?case by (simp add: probes_counted_admit)
next
  case (finish s c now o')
  then show ?case by (intro probes_counted_finish) (auto intro: breaker_reach_ok)
qed

end
