(* ===== verification/Rate_Limiter.thy ===== *)
theory Rate_Limiter
  imports Model_Contracts
begin

section \<open>The token bucket of a model target\<close>

text \<open>
  \<open>application/services/rate_limiter.py\<close>. \<open>acquire\<close> takes the clock readings of its loop: one when
  the call starts and one after each sleep that completes. When they run out the call is asleep
  (\<open>Waiting\<close>), which is where a timeout or a cancellation ends it; the bucket is then the one it
  leaves. A call without a reading ends while it waits for the lock. The lock makes calls follow one
  another.
\<close>

record token_bucket =
  tb_rate :: rat
  tb_capacity :: rat
  tb_tokens :: rat
  tb_updated_at :: rat

definition new_token_bucket :: "pyfloat \<Rightarrow> int \<Rightarrow> rat \<Rightarrow> exn + token_bucket" where
  "new_token_bucket rate burst now =
     result_bind (require_positive_finite rate) (\<lambda>r.
     result_bind (require (0 < burst) ValueError) (\<lambda>_.
       Inr \<lparr>tb_rate = r, tb_capacity = of_int burst, tb_tokens = of_int burst,
            tb_updated_at = now\<rparr>))"

definition refill :: "rat \<Rightarrow> token_bucket \<Rightarrow> token_bucket" where
  "refill now b =
     (let elapsed = max 0 (now - tb_updated_at b) in
      b\<lparr>tb_tokens := min (tb_capacity b) (tb_tokens b + elapsed * tb_rate b),
        tb_updated_at := now\<rparr>)"

definition token_slack :: rat where
  "token_slack = 1 / 10 ^ 12"

datatype acquisition = Acquired token_bucket "rat list" | Waiting token_bucket "rat list"

fun slept :: "rat \<Rightarrow> acquisition \<Rightarrow> acquisition" where
  "slept d (Acquired b ds) = Acquired b (d # ds)"
| "slept d (Waiting b ds) = Waiting b (d # ds)"

fun acquire :: "rat list \<Rightarrow> token_bucket \<Rightarrow> acquisition" where
  "acquire [] b = Waiting b []"
| "acquire (now # later) b =
     (let b = refill now b in
      if 1 - token_slack \<le> tb_tokens b
      then Acquired (b\<lparr>tb_tokens := max 0 (tb_tokens b - 1)\<rparr>) []
      else slept ((1 - tb_tokens b) / tb_rate b) (acquire later b))"

fun bucket_after :: "acquisition \<Rightarrow> token_bucket" where
  "bucket_after (Acquired b ds) = b"
| "bucket_after (Waiting b ds) = b"

fun delays :: "acquisition \<Rightarrow> rat list" where
  "delays (Acquired b ds) = ds"
| "delays (Waiting b ds) = ds"

fun granted :: "acquisition \<Rightarrow> bool" where
  "granted (Acquired b ds) = True"
| "granted (Waiting b ds) = False"

lemma slept_simps [simp]:
  "bucket_after (slept d a) = bucket_after a" "delays (slept d a) = d # delays a"
  "granted (slept d a) = granted a"
  by (cases a; simp)+

subsection \<open>The level of the bucket\<close>

definition bucket_ok :: "token_bucket \<Rightarrow> bool" where
  "bucket_ok b \<longleftrightarrow>
     0 < tb_rate b \<and> 1 \<le> tb_capacity b \<and> 0 \<le> tb_tokens b \<and> tb_tokens b \<le> tb_capacity b"

lemma bucket_ok_new: "new_token_bucket rate burst now = Inr b \<Longrightarrow> bucket_ok b"
  by (auto simp: new_token_bucket_def result_bind_eq_Inr require_positive_finite_Inr bucket_ok_def)

lemma refill_simps [simp]:
  "tb_rate (refill now b) = tb_rate b" "tb_capacity (refill now b) = tb_capacity b"
  "tb_updated_at (refill now b) = now"
  by (simp_all add: refill_def Let_def)

lemma bucket_ok_refill: "bucket_ok b \<Longrightarrow> bucket_ok (refill now b)"
  by (auto simp: bucket_ok_def refill_def Let_def)

lemma refill_tokens_le:
  "bucket_ok b \<Longrightarrow> tb_updated_at b \<le> now \<Longrightarrow>
     tb_tokens (refill now b) \<le> tb_tokens b + tb_rate b * (now - tb_updated_at b)"
  by (simp add: refill_def Let_def mult.commute)

lemma refill_tokens_ge: "bucket_ok b \<Longrightarrow> tb_tokens b \<le> tb_tokens (refill now b)"
  by (simp add: refill_def Let_def bucket_ok_def)

lemma slack_bounds: "0 < token_slack" "token_slack < 1"
  by (simp_all add: token_slack_def)

lemma bucket_ok_take:
  assumes "bucket_ok b" and "1 - token_slack \<le> tb_tokens b"
  shows "bucket_ok (b\<lparr>tb_tokens := max 0 (tb_tokens b - 1)\<rparr>)"
  using assms by (auto simp: bucket_ok_def)

lemma acquire_ok: "bucket_ok b \<Longrightarrow> bucket_ok (bucket_after (acquire ts b))"
proof (induction ts b rule: acquire.induct)
  case (2 now later b)
  then show ?case
    using bucket_ok_take [OF bucket_ok_refill [OF 2(2)], of now]
    by (simp add: Let_def bucket_ok_refill)
qed simp

lemma acquire_rate [simp]: "tb_rate (bucket_after (acquire ts b)) = tb_rate b"
  by (induction ts b rule: acquire.induct) (simp_all add: Let_def)

text \<open>A token that is granted was in the bucket or flowed into it; a cancelled wait takes none.\<close>

definition token_cost :: "acquisition \<Rightarrow> rat" where
  "token_cost a = (if granted a then 1 - token_slack else 0)"

lemma acquire_clock:
  "sorted (tb_updated_at b # ts @ us) \<Longrightarrow>
     tb_updated_at b \<le> tb_updated_at (bucket_after (acquire ts b)) \<and>
     sorted (tb_updated_at (bucket_after (acquire ts b)) # us)"
proof (induction ts b rule: acquire.induct)
  case (2 now later b)
  show ?case
  proof (cases "1 - token_slack \<le> tb_tokens (refill now b)")
    case True
    with 2(2) show ?thesis by (simp add: Let_def sorted_append)
  next
    case False
    have "sorted (tb_updated_at (refill now b) # later @ us)" using 2(2) by simp
    from 2(1) [OF refl False this] 2(2) False show ?thesis by (auto simp: Let_def)
  qed
qed simp

lemma acquire_reading:
  "tb_updated_at (bucket_after (acquire ts b)) \<in> insert (tb_updated_at b) (set ts)"
  by (induction ts b rule: acquire.induct) (auto simp: Let_def)

lemma acquire_granted_append: "granted (acquire ts b) \<Longrightarrow> acquire (ts @ us) b = acquire ts b"
  by (induction ts b rule: acquire.induct) (auto simp: Let_def)

lemma acquire_balance:
  "bucket_ok b \<Longrightarrow> sorted (tb_updated_at b # ts) \<Longrightarrow>
     tb_tokens (bucket_after (acquire ts b)) + token_cost (acquire ts b)
     \<le> tb_tokens b + tb_rate b * (tb_updated_at (bucket_after (acquire ts b)) - tb_updated_at b)"
proof (induction ts b rule: acquire.induct)
  case (2 now later b)
  let ?b = "refill now b"
  have level: "tb_tokens ?b \<le> tb_tokens b + tb_rate b * (now - tb_updated_at b)"
    using 2(2,3) by (simp add: refill_tokens_le)
  show ?case
  proof (cases "1 - token_slack \<le> tb_tokens ?b")
    case True
    then have "max 0 (tb_tokens ?b - 1) + (1 - token_slack) \<le> tb_tokens ?b"
      using slack_bounds by simp
    with True level show ?thesis by (simp add: token_cost_def Let_def)
  next
    case False
    have ok: "bucket_ok ?b" and later: "sorted (tb_updated_at ?b # later)"
      using 2(2,3) by (simp_all add: bucket_ok_refill)
    from 2(1) [OF refl False ok later] False level show ?thesis
      by (simp add: token_cost_def Let_def algebra_simps)
  qed
qed (simp add: token_cost_def)

text \<open>Calls in the order in which the lock serves them, each with its clock readings.\<close>

fun serve :: "rat list list \<Rightarrow> token_bucket \<Rightarrow> nat \<times> token_bucket" where
  "serve [] b = (0, b)"
| "serve (ts # rest) b =
     (let a = acquire ts b; (n, b') = serve rest (bucket_after a)
      in (if granted a then n + 1 else n, b'))"

lemma serve_ok: "bucket_ok b \<Longrightarrow> bucket_ok (snd (serve rs b))"
  by (induction rs arbitrary: b) (simp_all add: acquire_ok Let_def case_prod_beta)

text \<open>When each token was granted: at the last look at the bucket.\<close>

fun grant_times :: "rat list list \<Rightarrow> token_bucket \<Rightarrow> rat list" where
  "grant_times [] b = []"
| "grant_times (ts # rest) b =
     (let a = acquire ts b; later = grant_times rest (bucket_after a)
      in if granted a then tb_updated_at (bucket_after a) # later else later)"

lemma grant_times_serve: "length (grant_times rs b) = fst (serve rs b)"
  by (induction rs arbitrary: b) (simp_all add: Let_def case_prod_beta)

lemma grant_times_after:
  "sorted (tb_updated_at b # concat rs) \<Longrightarrow> g \<in> set (grant_times rs b) \<Longrightarrow> tb_updated_at b \<le> g"
proof (induction rs arbitrary: b)
  case (Cons ts rs)
  let ?b = "bucket_after (acquire ts b)"
  have "tb_updated_at b \<le> tb_updated_at ?b \<and> sorted (tb_updated_at ?b # concat rs)"
    using Cons.prems(1) by (intro acquire_clock) simp
  with Cons show ?case by (fastforce simp: Let_def split: if_splits)
qed simp

text \<open>A token and what stays in the bucket were in it together.\<close>

lemma acquire_level: "bucket_ok b \<Longrightarrow> tb_tokens (bucket_after (acquire ts b)) + token_cost (acquire ts b) \<le> tb_capacity b"
proof (induction ts b rule: acquire.induct)
  case (1 b)
  then show ?case by (simp add: token_cost_def bucket_ok_def)
next
  case (2 now later b)
  have ok: "bucket_ok (refill now b)" using 2(2) by (rule bucket_ok_refill)
  show ?case
  proof (cases "1 - token_slack \<le> tb_tokens (refill now b)")
    case True
    then have "max 0 (tb_tokens (refill now b) - 1) + (1 - token_slack) \<le> tb_tokens (refill now b)"
      using slack_bounds by simp
    with True ok show ?thesis by (simp add: token_cost_def Let_def bucket_ok_def)
  next
    case False
    from 2(1) [OF refl False ok] False show ?thesis by (simp add: token_cost_def Let_def)
  qed
qed

lemma acquire_capacity [simp]: "tb_capacity (bucket_after (acquire ts b)) = tb_capacity b"
  by (induction ts b rule: acquire.induct) (simp_all add: Let_def)

text \<open>The grants up to \<open>t\<close> pay from what the bucket holds and what flows in by then.\<close>

lemma grants_until:
  "bucket_ok b \<Longrightarrow> sorted (tb_updated_at b # concat rs) \<Longrightarrow> tb_updated_at b \<le> t \<Longrightarrow>
     of_nat (length (filter (\<lambda>g. g \<le> t) (grant_times rs b))) * (1 - token_slack)
     \<le> tb_tokens b + tb_rate b * (t - tb_updated_at b)"
proof (induction rs arbitrary: b)
  case Nil
  then show ?case by (simp add: bucket_ok_def)
next
  case (Cons ts rs)
  let ?a = "acquire ts b"
  let ?b = "bucket_after ?a"
  have clock: "sorted (tb_updated_at b # ts)" "sorted (tb_updated_at ?b # concat rs)"
    using Cons.prems acquire_clock [of b ts "concat rs"] by (simp_all add: sorted_append)
  note step = acquire_balance [OF Cons.prems(1) clock(1)]
  show ?case
  proof (cases "tb_updated_at ?b \<le> t")
    case True
    with Cons.IH [OF acquire_ok [OF Cons.prems(1)] clock(2)] step show ?thesis
      by (cases "granted ?a") (simp_all add: Let_def token_cost_def algebra_simps)
  next
    case False
    then have "filter (\<lambda>g. g \<le> t) (grant_times (ts # rs) b) = []"
      using grant_times_after [OF clock(2)] by (force simp: Let_def filter_empty_conv)
    moreover have "0 \<le> tb_tokens b + tb_rate b * (t - tb_updated_at b)"
      using Cons.prems(1,3) by (simp add: bucket_ok_def)
    ultimately show ?thesis by simp
  qed
qed

text \<open>Before the span began the bucket held at most its capacity.\<close>

lemma grants_in_span:
  "bucket_ok b \<Longrightarrow> sorted (tb_updated_at b # concat rs) \<Longrightarrow> s \<le> t \<Longrightarrow>
     of_nat (length (filter (\<lambda>g. s \<le> g \<and> g \<le> t) (grant_times rs b))) * (1 - token_slack)
     \<le> tb_capacity b + tb_rate b * (t - s)"
proof (induction rs arbitrary: b)
  case Nil
  then show ?case by (simp add: bucket_ok_def)
next
  case (Cons ts rs)
  let ?a = "acquire ts b"
  let ?b = "bucket_after ?a"
  have ok: "bucket_ok ?b" using Cons.prems(1) by (rule acquire_ok)
  have clock: "sorted (tb_updated_at b # ts)" "sorted (tb_updated_at ?b # concat rs)"
    using Cons.prems acquire_clock [of b ts "concat rs"] by (simp_all add: sorted_append)
  show ?case
  proof (cases "s \<le> tb_updated_at ?b")
    case False
    with Cons.IH [OF ok clock(2) Cons.prems(3)] show ?thesis by (simp add: Let_def)
  next
    case late: True
    show ?thesis
    proof (cases "tb_updated_at ?b \<le> t")
      case True
      have "tb_tokens ?b + token_cost ?a \<le> tb_capacity b"
        by (rule acquire_level [OF Cons.prems(1)])
      moreover note grants_until [OF ok clock(2) True]
      moreover have "tb_rate b * (t - tb_updated_at ?b) \<le> tb_rate b * (t - s)"
        using late Cons.prems(1) by (intro mult_left_mono) (simp_all add: bucket_ok_def)
      moreover have "filter (\<lambda>g. s \<le> g \<and> g \<le> t) (grant_times rs ?b) =
          filter (\<lambda>g. g \<le> t) (grant_times rs ?b)"
        using late grant_times_after [OF clock(2)] by (intro filter_cong) force+
      ultimately show ?thesis
        using late True by (cases "granted ?a") (simp_all add: Let_def token_cost_def algebra_simps)
    next
      case False
      then have "filter (\<lambda>g. s \<le> g \<and> g \<le> t) (grant_times (ts # rs) b) = []"
        using grant_times_after [OF clock(2)] by (force simp: Let_def filter_empty_conv)
      moreover have "0 \<le> tb_capacity b + tb_rate b * (t - s)"
        using Cons.prems(1,3) by (simp add: bucket_ok_def)
      ultimately show ?thesis by simp
    qed
  qed
qed

text \<open>With a sleep that lasts at least as long as requested, the second look at the bucket succeeds.\<close>

lemma acquire_after_sleep:
  assumes "bucket_ok b" and "\<not> granted (acquire [t] b)"
    and "t + hd (delays (acquire [t] b)) \<le> t'"
  shows "granted (acquire [t, t'] b)" and "delays (acquire [t, t'] b) = delays (acquire [t] b)"
proof -
  let ?b = "refill t b"
  have ok: "bucket_ok ?b" using assms(1) by (rule bucket_ok_refill)
  have short: "\<not> 1 - token_slack \<le> tb_tokens ?b"
    using assms(2) by (auto simp: Let_def split: if_splits)
  then have "(1 - tb_tokens ?b) / tb_rate b \<le> t' - t" using assms(3) by (simp add: Let_def)
  moreover have rate: "0 < tb_rate b" using assms(1) by (simp add: bucket_ok_def)
  ultimately have "1 - tb_tokens ?b \<le> (t' - t) * tb_rate b" by (simp add: pos_divide_le_eq)
  moreover have "(t' - t) * tb_rate b \<le> max 0 (t' - t) * tb_rate b"
    using rate by (intro mult_right_mono) simp_all
  ultimately have "1 \<le> tb_tokens ?b + max 0 (t' - t) * tb_rate b" by linarith
  moreover have "1 \<le> tb_capacity b" using assms(1) by (simp add: bucket_ok_def)
  ultimately have "1 \<le> tb_tokens (refill t' ?b)"
    by (simp add: refill_def [of t'] Let_def)
  with slack_bounds have "1 - token_slack \<le> tb_tokens (refill t' ?b)" by simp
  with short show "granted (acquire [t, t'] b)"
    and "delays (acquire [t, t'] b) = delays (acquire [t] b)"
    by (simp_all add: Let_def)
qed

end
