(* ===== verification/Model_Gateway.thy ===== *)
theory Model_Gateway
  imports Circuit_Breaker Rate_Limiter
begin

section \<open>The model gateway\<close>

text \<open>
  \<open>application/services/model_gateway.py\<close>. A call of the gateway is a function on \<open>call_state\<close>, which
  holds the gateway's shared dictionaries, the local variables of the call, the chunks yielded so
  far and a trace of the visible effects. What the call observes of its environment is the record
  \<open>world\<close>, indexed by the number of observations made before (\<open>cs_tick\<close>): clock readings, timestamps,
  random numbers, and for every await its outcome. An await may also end in a timeout of its
  \<open>asyncio.timeout\<close> block or in the cancellation of the task, and while a call awaits, other calls
  of the same gateway change the shared dictionaries (\<open>w_others\<close>).
\<close>

subsection \<open>The environment and the state of a call\<close>

text \<open>The exceptions that can pass through the body of an attempt.\<close>

datatype raised =
    Raised_Cancelled
  | Raised_Exit
  | Raised_Timeout
  | Raised_Model model_error
  | Raised_Exception

datatype resolution = Resolved secret_value | Resolution_Failed | Resolution_Raises raised

text \<open>\<open>json.loads\<close>: a value, \<open>JSONDecodeError\<close>, or another exception.\<close>

datatype loads_result = Loaded pyobj | Decode_Error | Loads_Raises

record gateway_config =
  gc_providers :: "provider_id list"
  gc_has_secrets :: bool
  gc_has_sink :: bool
  gc_estimate :: "model_target \<Rightarrow> model_request \<Rightarrow> exn + int"
  gc_loads :: "string \<Rightarrow> loads_result"

record gateway_shared =
  gs_limiters :: "target_id \<Rightarrow> token_bucket option"
  gs_breakers :: "target_id \<Rightarrow> circuit_breaker option"

text \<open>
  \<open>w_waits n\<close> is how often a rate-limit wait looks at the bucket (never, if it ends before it holds the
  lock), and what ends the wait if no look finds a token;
  \<open>w_stream n\<close> the chunks that a provider stream delivers and how it ends then (\<open>None\<close> is
  \<open>StopAsyncIteration\<close>); \<open>w_close n\<close> what the iterator's \<open>aclose\<close> raises; \<open>w_closes_at\<close> the yield at which the consumer of a stream closes it.
\<close>

record world =
  w_clock :: "nat \<Rightarrow> rat"
  w_utc :: "nat \<Rightarrow> int"
  w_random :: "nat \<Rightarrow> rat"
  w_waits :: "nat \<Rightarrow> nat \<times> raised"
  w_resolve :: "nat \<Rightarrow> resolution"
  w_complete :: "nat \<Rightarrow> raised + provider_response"
  w_stream :: "nat \<Rightarrow> provider_chunk list \<times> raised option"
  w_close :: "nat \<Rightarrow> raised option"
  w_sleep :: "nat \<Rightarrow> raised option"
  w_others :: "nat \<Rightarrow> gateway_shared \<Rightarrow> gateway_shared"
  w_closes_at :: "int option"

datatype effect =
    Slept rat
  | Provider_Called target_id
  | Provider_Awaited rat rat
  | Yielded chunk_kind
  | Attempt_Emitted attempt_record

record tool_buffer =
  buf_call_id :: "string option"
  buf_name :: "string option"
  buf_fragments :: "string list"

text \<open>
  \<open>Provider_Awaited now timeout\<close> is an await of the provider that begins at clock reading \<open>now\<close> in a
  timeout block. The fields from \<open>cs_admitted\<close> on are reset when an attempt starts; a call of
  \<open>complete\<close> uses the first three of them, for the response it received.
\<close>

record call_state =
  cs_tick :: nat
  cs_shared :: gateway_shared
  cs_effects :: "effect list"
  cs_attempts :: "attempt_record list"
  cs_fallback_reason :: "model_error_code option"
  cs_chunks :: "model_chunk list"
  cs_sequence :: int
  cs_visible :: bool
  cs_admitted :: bool
  cs_usage :: "model_usage option"
  cs_provider_request_id :: "string option"
  cs_fragments :: "string list"
  cs_finish_reason :: finish_reason
  cs_structured :: pyobj
  cs_buffers :: "(int \<times> tool_buffer) list"

type_synonym 'a io = "call_state \<Rightarrow> (raised + 'a) \<times> call_state"

definition io_return :: "'a \<Rightarrow> 'a io" where
  "io_return x s = (Inr x, s)"

definition io_raise :: "raised \<Rightarrow> 'a io" where
  "io_raise e s = (Inl e, s)"

definition io_bind :: "'a io \<Rightarrow> ('a \<Rightarrow> 'b io) \<Rightarrow> 'b io" where
  "io_bind m f s = (case m s of (Inl e, s') \<Rightarrow> (Inl e, s') | (Inr x, s') \<Rightarrow> f x s')"

definition io_modify :: "(call_state \<Rightarrow> call_state) \<Rightarrow> unit io" where
  "io_modify f s = (Inr (), f s)"

definition io_get :: "(call_state \<Rightarrow> 'a) \<Rightarrow> 'a io" where
  "io_get f s = (Inr (f s), s)"

definition io_when :: "bool \<Rightarrow> raised \<Rightarrow> unit io" where
  "io_when b e s = (if b then Inl e else Inr (), s)"

text \<open>An observation of the environment, and an await, during which other calls may run.\<close>

definition observe :: "(nat \<Rightarrow> 'a) \<Rightarrow> 'a io" where
  "observe f s = (Inr (f (cs_tick s)), s\<lparr>cs_tick := cs_tick s + 1\<rparr>)"

definition awaiting :: "world \<Rightarrow> (nat \<Rightarrow> 'a) \<Rightarrow> 'a io" where
  "awaiting w f s = (Inr (f (cs_tick s)),
     s\<lparr>cs_tick := cs_tick s + 1, cs_shared := w_others w (cs_tick s) (cs_shared s)\<rparr>)"

definition lift_result :: "raised + 'a \<Rightarrow> 'a io" where
  "lift_result r s = (r, s)"

definition io_log :: "effect list \<Rightarrow> unit io" where
  "io_log es s = (Inr (), s\<lparr>cs_effects := cs_effects s @ es\<rparr>)"

lemmas io_defs = io_log_def io_return_def io_raise_def io_bind_def io_modify_def io_get_def io_when_def
  observe_def awaiting_def lift_result_def

subsection \<open>Preflight\<close>

definition gateway_post_init :: "provider_id list \<Rightarrow> exn + unit" where
  "gateway_post_init providers =
     result_bind (require (providers \<noteq> []) ValueError) (\<lambda>_.
       require (distinct providers) ValueError)"

definition invalid_provider :: "string \<Rightarrow> model_error" where
  "invalid_provider rid = new_model_error Invalid_Request ''Model provider is not registered'' rid"

definition find_provider :: "gateway_config \<Rightarrow> model_target \<Rightarrow> string \<Rightarrow> raised + unit" where
  "find_provider cfg t rid =
     (if target_provider t \<in> set (gc_providers cfg) then Inr ()
      else Inl (Raised_Model (invalid_provider rid)))"

definition mismatch :: "string \<Rightarrow> string \<Rightarrow> raised" where
  "mismatch message rid = Raised_Model (new_model_error Capability_Mismatch message rid)"

definition preflight_target ::
    "gateway_config \<Rightarrow> model_target \<Rightarrow> model_request \<Rightarrow> raised + unit" where
  "preflight_target cfg t r =
     result_bind (find_provider cfg t (req_id r)) (\<lambda>_.
     result_bind (require
         ((\<forall>c \<in> req_capabilities r. supports (target_capabilities t) c) \<and>
          input_modalities r \<subseteq> cap_modalities (target_capabilities t))
         (mismatch ''Model capabilities do not satisfy the request'' (req_id r))) (\<lambda>_.
     result_bind (require (req_max_output_tokens r \<le> cap_max_output (target_capabilities t))
         (mismatch ''Requested output exceeds the model limit'' (req_id r))) (\<lambda>_.
     case gc_estimate cfg t r of
       Inl e \<Rightarrow> Inl Raised_Exception
     | Inr bound \<Rightarrow>
         require (bound + req_max_output_tokens r \<le> cap_max_context (target_capabilities t))
           (mismatch ''Estimated input and output exceed the model context limit'' (req_id r)))))"

definition preflight_route ::
    "gateway_config \<Rightarrow> model_route \<Rightarrow> model_request \<Rightarrow> raised + unit" where
  "preflight_route cfg route r =
     result_bind (traverse (\<lambda>t. preflight_target cfg t r) (route_targets route)) (\<lambda>_. Inr ())"

subsection \<open>Admission, credentials, backoff\<close>

definition timeout_error :: "string \<Rightarrow> string \<Rightarrow> raised" where
  "timeout_error message rid = Raised_Model (new_model_error Timeout message rid)"

definition remaining :: "world \<Rightarrow> rat \<Rightarrow> string \<Rightarrow> rat io" where
  "remaining w deadline rid =
     io_bind (observe (w_clock w)) (\<lambda>now.
       if deadline - now \<le> 0
       then io_raise (timeout_error ''Model call exceeded its total deadline'' rid)
       else io_return (deadline - now))"

definition set_limiter :: "target_id \<Rightarrow> token_bucket \<Rightarrow> call_state \<Rightarrow> call_state" where
  "set_limiter k b s = s\<lparr>cs_shared := (cs_shared s)\<lparr>gs_limiters := (gs_limiters (cs_shared s))(k \<mapsto> b)\<rparr>\<rparr>"

definition set_breaker :: "target_id \<Rightarrow> circuit_breaker \<Rightarrow> call_state \<Rightarrow> call_state" where
  "set_breaker k b s = s\<lparr>cs_shared := (cs_shared s)\<lparr>gs_breakers := (gs_breakers (cs_shared s))(k \<mapsto> b)\<rparr>\<rparr>"

text \<open>\<open>_rate_limiter\<close> and \<open>_circuit_breaker\<close>: looked up by the target's key, created when absent.\<close>

definition rate_limiter :: "world \<Rightarrow> model_target \<Rightarrow> token_bucket option io" where
  "rate_limiter w t =
     (case rate_limit_per_second (target_limits t) of
        None \<Rightarrow> io_return None
      | Some rate \<Rightarrow>
          io_bind (io_get (\<lambda>s. gs_limiters (cs_shared s) (target_key t))) (\<lambda>found. case found of
              Some b \<Rightarrow> io_return (Some b)
            | None \<Rightarrow> io_bind (observe (w_clock w)) (\<lambda>now.
                case new_token_bucket (Flt rate) (rate_limit_burst (target_limits t)) now of
                  Inl e \<Rightarrow> io_raise Raised_Exception
                | Inr b \<Rightarrow> io_bind (io_modify (set_limiter (target_key t) b))
                    (\<lambda>_. io_return (Some b)))))"

definition circuit_breaker_for :: "model_target \<Rightarrow> circuit_breaker io" where
  "circuit_breaker_for t =
     io_bind (io_get (\<lambda>s. gs_breakers (cs_shared s) (target_key t))) (\<lambda>found. case found of
         Some b \<Rightarrow> io_return b
       | None \<Rightarrow>
           (case new_circuit_breaker (circuit_failure_threshold (target_limits t))
                   (circuit_recovery_seconds (target_limits t)) of
              Inl e \<Rightarrow> io_raise Raised_Exception
            | Inr b \<Rightarrow> io_bind (io_modify (set_breaker (target_key t) b)) (\<lambda>_. io_return b)))"

text \<open>The bucket at the time the lock is obtained, with one clock reading per look at it.\<close>

definition acquire_token :: "world \<Rightarrow> model_target \<Rightarrow> token_bucket \<Rightarrow> unit io" where
  "acquire_token w t found =
     io_bind (awaiting w (w_waits w)) (\<lambda>(looks, ending).
     io_bind (io_get cs_tick) (\<lambda>n.
     io_bind (io_get (\<lambda>s. gs_limiters (cs_shared s) (target_key t))) (\<lambda>current.
     let outcome = acquire (map (w_clock w) [n..<n + looks])
           (case current of None \<Rightarrow> found | Some b \<Rightarrow> b) in
     io_bind (io_modify (\<lambda>s. set_limiter (target_key t) (bucket_after outcome)
         (s\<lparr>cs_tick := n + looks\<rparr>))) (\<lambda>_.
     io_bind (io_log (map Slept (delays outcome))) (\<lambda>_.
       if granted outcome then io_return () else io_raise ending)))))"

definition expired_as :: "raised \<Rightarrow> unit io \<Rightarrow> unit io" where
  "expired_as error m s =
     (case m s of (Inl Raised_Timeout, s') \<Rightarrow> (Inl error, s') | other \<Rightarrow> other)"

definition admit :: "world \<Rightarrow> model_target \<Rightarrow> string \<Rightarrow> rat \<Rightarrow> unit io" where
  "admit w t rid deadline =
     io_bind (rate_limiter w t) (\<lambda>limiter.
     io_bind (case limiter of
         None \<Rightarrow> io_return ()
       | Some b \<Rightarrow> expired_as (timeout_error ''Rate-limit wait exceeded the total deadline'' rid)
           (io_bind (remaining w deadline rid) (\<lambda>_. acquire_token w t b))) (\<lambda>_.
     io_bind (circuit_breaker_for t) (\<lambda>b.
     io_bind (observe (w_clock w)) (\<lambda>now.
     io_bind (io_modify (set_breaker (target_key t) (snd (before_call now rid b)))) (\<lambda>_.
       case fst (before_call now rid b) of
         Inl e \<Rightarrow> io_raise (Raised_Model e)
       | Inr _ \<Rightarrow> io_modify (\<lambda>s. s\<lparr>cs_admitted := True\<rparr>))))))"

definition authentication_error :: "string \<Rightarrow> string \<Rightarrow> raised" where
  "authentication_error message rid = Raised_Model (new_model_error Authentication message rid)"

definition credential ::
    "gateway_config \<Rightarrow> world \<Rightarrow> model_target \<Rightarrow> string \<Rightarrow> rat \<Rightarrow> secret_value option io" where
  "credential cfg w t rid deadline =
     (case target_credential t of
        None \<Rightarrow> io_return None
      | Some reference \<Rightarrow>
          if \<not> gc_has_secrets cfg
          then io_raise (authentication_error ''Secret provider is not configured'' rid)
          else io_bind (remaining w deadline rid) (\<lambda>_.
            io_bind (awaiting w (w_resolve w)) (\<lambda>r. case r of
                Resolved secret \<Rightarrow> io_return (Some secret)
              | Resolution_Failed \<Rightarrow>
                  io_raise (authentication_error ''Model credential is unavailable'' rid)
              | Resolution_Raises Raised_Timeout \<Rightarrow>
                  io_raise (timeout_error ''Secret resolution exceeded the total deadline'' rid)
              | Resolution_Raises e \<Rightarrow> io_raise e)))"

definition backoff_delay :: "rat model_limits \<Rightarrow> nat \<Rightarrow> rat \<Rightarrow> rat" where
  "backoff_delay l retry_index sample =
     min (retry_max_delay_seconds l) (retry_base_delay_seconds l * 2 ^ min retry_index 30) *
     (1 / 2 + min 1 (max 0 sample))"

definition backoff ::
    "world \<Rightarrow> model_target \<Rightarrow> nat \<Rightarrow> string \<Rightarrow> rat \<Rightarrow> unit io" where
  "backoff w t retry_index rid deadline =
     io_bind (observe (w_random w)) (\<lambda>sample.
       expired_as (timeout_error ''Retry backoff exceeded the total deadline'' rid)
         (io_bind (remaining w deadline rid) (\<lambda>_.
            io_bind (io_log [Slept (backoff_delay (target_limits t) retry_index sample)]) (\<lambda>_.
            io_bind (awaiting w (w_sleep w)) (\<lambda>r. case r of
                None \<Rightarrow> io_return () | Some e \<Rightarrow> io_raise e)))))"

subsection \<open>Attempts and responses\<close>

definition make_attempt ::
    "world \<Rightarrow> model_target \<Rightarrow> int \<Rightarrow> rat \<Rightarrow> attempt_outcome \<Rightarrow> model_error_code option \<Rightarrow>
     string option \<Rightarrow> model_usage option \<Rightarrow> attempt_record io" where
  "make_attempt w t started_at started outcome code request_id usage =
     io_bind (observe (w_clock w)) (\<lambda>now.
     io_bind (io_get cs_attempts) (\<lambda>attempts.
     io_bind (io_get cs_fallback_reason) (\<lambda>reason.
       io_return \<lparr>at_no = int (length attempts) + 1, at_provider = target_provider t,
         at_model_id = target_model_id t, at_started_at = Utc started_at,
         at_duration_ms = max 0 ((now - started) * 1000), at_outcome = outcome,
         at_error_code = code, at_provider_request_id = request_id, at_usage = usage,
         at_fallback_reason = reason\<rparr>)))"

definition emit_attempt :: "gateway_config \<Rightarrow> attempt_record \<Rightarrow> unit io" where
  "emit_attempt cfg a = (if gc_has_sink cfg then io_log [Attempt_Emitted a] else io_return ())"

definition malformed :: "string \<Rightarrow> string \<Rightarrow> model_error" where
  "malformed message rid = new_model_error Malformed_Response message rid"

fun tool_calls_ok :: "string set \<Rightarrow> string set \<Rightarrow> tool_call list \<Rightarrow> bool" where
  "tool_calls_ok allowed ids [] = True"
| "tool_calls_ok allowed ids (c # cs) =
     (call_name c \<in> allowed \<and> call_id c \<notin> ids \<and> tool_calls_ok allowed (insert (call_id c) ids) cs)"

definition validate_tool_calls :: "provider_response \<Rightarrow> model_request \<Rightarrow> raised + unit" where
  "validate_tool_calls p r =
     require (tool_calls_ok (set (map tool_name (req_tools r))) {} (pr_tool_calls p))
       (Raised_Model (malformed ''Provider returned an unknown or duplicate tool call'' (req_id r)))"

definition invalid_structured :: "string \<Rightarrow> string \<Rightarrow> raised" where
  "invalid_structured message rid = Raised_Model (new_model_error Structured_Output_Invalid message rid)"

definition structured_result :: "model_request \<Rightarrow> pyobj \<Rightarrow> raised + pyobj" where
  "structured_result r v = (case req_structured r of
      Some contract \<Rightarrow>
        if v = PyNone
        then Inl (invalid_structured ''Provider returned no structured output'' (req_id r))
        else (case so_validate contract v of
            None \<Rightarrow> Inl (invalid_structured
              ''Structured output did not satisfy the platform contract'' (req_id r))
          | Some checked \<Rightarrow> Inr checked)
    | None \<Rightarrow>
        if v \<noteq> PyNone
        then Inl (Raised_Model (malformed ''Provider returned unexpected structured output'' (req_id r)))
        else Inr PyNone)"

definition assemble_response ::
    "model_request \<Rightarrow> model_target \<Rightarrow> pyobj \<Rightarrow> provider_response \<Rightarrow> attempt_record list \<Rightarrow>
     exn + model_response" where
  "assemble_response r t structured p attempts =
     result_bind (aggregate_usage (known (map at_usage attempts))) (\<lambda>usage.
       let rsp = \<lparr>rsp_request_id = req_id r, rsp_provider = target_provider t,
           rsp_model_id = target_model_id t, rsp_content = pr_content p,
           rsp_finish_reason = pr_finish_reason p, rsp_usage = pr_usage p,
           rsp_total_usage = usage, rsp_attempts = attempts,
           rsp_provider_request_id = pr_provider_request_id p,
           rsp_tool_calls = pr_tool_calls p, rsp_structured = structured\<rparr>
       in result_bind (model_response_post_init rsp) (\<lambda>_. Inr rsp))"

definition build_response ::
    "model_request \<Rightarrow> model_target \<Rightarrow> provider_response \<Rightarrow> attempt_record list \<Rightarrow>
     raised + model_response" where
  "build_response r t p attempts =
     result_bind (structured_result r (pr_structured p)) (\<lambda>structured.
     result_bind (require (structured = PyNone \<or> pr_tool_calls p = [])
       (Raised_Model (malformed ''Provider mixed tool calls and structured output'' (req_id r)))) (\<lambda>_.
     result_bind (validate_tool_calls p r) (\<lambda>_.
     case assemble_response r t structured p attempts of
       Inr rsp \<Rightarrow> Inr rsp
     | Inl e \<Rightarrow> Inl (if e \<in> {TypeError, ValueError}
         then Raised_Model (malformed ''Provider response violated the platform contract'' (req_id r))
         else Raised_Exception))))"

text \<open>The end of an attempt's \<open>try\<close> block: the record of its success and the response.\<close>

definition conclude ::
    "world \<Rightarrow> model_target \<Rightarrow> model_request \<Rightarrow> int \<Rightarrow> rat \<Rightarrow> provider_response \<Rightarrow>
     (attempt_record \<times> model_response) io" where
  "conclude w t r started_at started p =
     io_bind (make_attempt w t started_at started Attempt_Succeeded None
         (pr_provider_request_id p) (pr_usage p)) (\<lambda>succeeded.
     io_bind (io_get cs_attempts) (\<lambda>attempts.
     io_bind (lift_result (build_response r t p (attempts @ [succeeded]))) (\<lambda>rsp.
       io_return (succeeded, rsp))))"

definition complete_body ::
    "gateway_config \<Rightarrow> world \<Rightarrow> rat \<Rightarrow> model_request \<Rightarrow> model_target \<Rightarrow> int \<Rightarrow> rat \<Rightarrow>
     (attempt_record \<times> model_response) io" where
  "complete_body cfg w deadline r t started_at started =
     io_bind (admit w t (req_id r) deadline) (\<lambda>_.
     io_bind (credential cfg w t (req_id r) deadline) (\<lambda>secret.
     io_bind (remaining w deadline (req_id r)) (\<lambda>left.
     io_bind (io_log [Provider_Called (target_key t),
       Provider_Awaited (deadline - left) (min (attempt_timeout_seconds (target_limits t)) left)]) (\<lambda>_.
     io_bind (awaiting w (w_complete w)) (\<lambda>result.
     io_bind (lift_result result) (\<lambda>p.
     io_bind (io_modify (\<lambda>s. s\<lparr>cs_usage := pr_usage p,
         cs_provider_request_id := pr_provider_request_id p\<rparr>)) (\<lambda>_.
       conclude w t r started_at started p)))))))"

subsection \<open>Streams\<close>

definition fragments_error :: "string \<Rightarrow> model_error" where
  "fragments_error rid = malformed ''Provider returned malformed tool call fragments'' rid"

definition merge_text :: "string option \<Rightarrow> string option \<Rightarrow> string option option" where
  "merge_text old new = (case new of
      None \<Rightarrow> Some old
    | Some n \<Rightarrow> if old \<noteq> None \<and> old \<noteq> Some n then None else Some (Some n))"

definition buffer_append :: "string \<Rightarrow> tool_call_delta \<Rightarrow> tool_buffer \<Rightarrow> raised + tool_buffer" where
  "buffer_append rid d b = (case merge_text (buf_call_id b) (delta_id d) of
      None \<Rightarrow> Inl (Raised_Model (fragments_error rid))
    | Some cid \<Rightarrow> (case merge_text (buf_name b) (delta_name d) of
          None \<Rightarrow> Inl (Raised_Model (fragments_error rid))
        | Some name \<Rightarrow> Inr \<lparr>buf_call_id = cid, buf_name = name,
            buf_fragments = buf_fragments b @ [delta_fragment d]\<rparr>))"

definition buffer_build :: "gateway_config \<Rightarrow> string \<Rightarrow> tool_buffer \<Rightarrow> raised + tool_call" where
  "buffer_build cfg rid b = (case (buf_call_id b, buf_name b) of
      (Some cid, Some name) \<Rightarrow>
        (case gc_loads cfg (concat (buf_fragments b)) of
           Decode_Error \<Rightarrow> Inl (Raised_Model (fragments_error rid))
         | Loads_Raises \<Rightarrow> Inl Raised_Exception
         | Loaded arguments \<Rightarrow>
             if \<not> is_mapping arguments then Inl (Raised_Model (fragments_error rid))
             else (case new_tool_call \<lparr>call_id = cid, call_name = name, call_arguments = arguments\<rparr> of
                 Inr c \<Rightarrow> Inr c
               | Inl e \<Rightarrow> Inl (if e \<in> {TypeError, ValueError}
                   then Raised_Model (fragments_error rid) else Raised_Exception)))
    | _ \<Rightarrow> Inl (Raised_Model (fragments_error rid)))"

definition empty_buffer :: tool_buffer where
  "empty_buffer = \<lparr>buf_call_id = None, buf_name = None, buf_fragments = []\<rparr>"

text \<open>
  \<open>yield\<close>: the consumer gets the chunk and may then close the generator. (The increment of \<open>sequence\<close>
  that follows a \<open>yield\<close> is made at once: a closed generator does not read it again.)
\<close>

definition empty_chunk :: model_chunk where
  "empty_chunk = \<lparr>ck_sequence = 0, ck_kind = Text_Delta, ck_text_delta = None,
     ck_tool_call_delta = None, ck_usage = None, ck_terminal = None, ck_error = None\<rparr>"

definition yield_chunk :: "world \<Rightarrow> model_chunk \<Rightarrow> unit io" where
  "yield_chunk w c =
     io_bind (io_get cs_sequence) (\<lambda>n.
     io_bind (io_modify (\<lambda>s. s\<lparr>cs_chunks := cs_chunks s @ [c\<lparr>ck_sequence := n\<rparr>],
         cs_sequence := n + 1\<rparr>)) (\<lambda>_.
     io_bind (io_log [Yielded (ck_kind c)]) (\<lambda>_.
     io_bind (awaiting w (\<lambda>_. ())) (\<lambda>_.
       io_when (w_closes_at w = Some n) Raised_Exit))))"

definition yield_text :: "world \<Rightarrow> provider_chunk \<Rightarrow> unit io" where
  "yield_text w c = (case pc_text_delta c of
      Some (x # xs) \<Rightarrow>
        io_bind (io_modify (\<lambda>s. s\<lparr>cs_visible := True, cs_fragments := cs_fragments s @ [x # xs]\<rparr>))
          (\<lambda>_. yield_chunk w (empty_chunk\<lparr>ck_kind := Text_Delta, ck_text_delta := Some (x # xs)\<rparr>))
    | _ \<Rightarrow> io_return ())"

definition yield_tool_delta :: "world \<Rightarrow> string \<Rightarrow> provider_chunk \<Rightarrow> unit io" where
  "yield_tool_delta w rid c = (case pc_tool_call_delta c of
      None \<Rightarrow> io_return ()
    | Some d \<Rightarrow>
        io_bind (io_modify (\<lambda>s. s\<lparr>cs_visible := True\<rparr>)) (\<lambda>_.
        io_bind (io_get cs_buffers) (\<lambda>bs.
        io_bind (lift_result (buffer_append rid d
          (case map_of bs (delta_index d) of None \<Rightarrow> empty_buffer | Some b \<Rightarrow> b))) (\<lambda>b.
        io_bind (io_modify (\<lambda>s. s\<lparr>cs_buffers := dict_set (delta_index d) b bs\<rparr>)) (\<lambda>_.
          yield_chunk w (empty_chunk\<lparr>ck_kind := Tool_Call_Delta, ck_tool_call_delta := Some d\<rparr>))))))"

definition yield_usage :: "world \<Rightarrow> provider_chunk \<Rightarrow> unit io" where
  "yield_usage w c = (case pc_usage c of
      None \<Rightarrow> io_return ()
    | Some u \<Rightarrow>
        io_bind (io_modify (\<lambda>s. s\<lparr>cs_usage := Some u\<rparr>)) (\<lambda>_.
          yield_chunk w (empty_chunk\<lparr>ck_kind := Usage_Chunk, ck_usage := Some u\<rparr>)))"

definition collect_rest :: "string \<Rightarrow> provider_chunk \<Rightarrow> unit io" where
  "collect_rest rid c =
     io_bind (io_modify (\<lambda>s. s\<lparr>
         cs_finish_reason := (case pc_finish_reason c of None \<Rightarrow> cs_finish_reason s | Some f \<Rightarrow> f),
         cs_provider_request_id := (case pc_provider_request_id c of
           None \<Rightarrow> cs_provider_request_id s | Some i \<Rightarrow> Some i)\<rparr>)) (\<lambda>_.
     io_bind (io_get cs_structured) (\<lambda>v.
     io_bind (io_when (pc_structured c \<noteq> PyNone \<and> v \<noteq> PyNone)
         (Raised_Model (malformed ''Provider returned duplicate structured output'' rid))) (\<lambda>_.
       io_modify (\<lambda>s. if pc_structured c = PyNone then s else s\<lparr>cs_structured := pc_structured c\<rparr>))))"

definition handle_chunk :: "world \<Rightarrow> string \<Rightarrow> provider_chunk \<Rightarrow> unit io" where
  "handle_chunk w rid c =
     io_bind (yield_text w c) (\<lambda>_.
     io_bind (yield_tool_delta w rid c) (\<lambda>_.
     io_bind (yield_usage w c) (\<lambda>_.
       collect_rest rid c)))"

definition await_chunk :: "world \<Rightarrow> rat \<Rightarrow> string \<Rightarrow> model_target \<Rightarrow> bool \<Rightarrow> unit io" where
  "await_chunk w deadline rid t first =
     io_bind (remaining w deadline rid) (\<lambda>left.
     io_bind (io_log [Provider_Awaited (deadline - left)
       (min (if first then stream_first_byte_timeout_seconds (target_limits t)
             else stream_idle_timeout_seconds (target_limits t)) left)]) (\<lambda>_.
       awaiting w (\<lambda>_. ())))"

fun read_chunks ::
    "world \<Rightarrow> rat \<Rightarrow> string \<Rightarrow> model_target \<Rightarrow> bool \<Rightarrow> provider_chunk list \<Rightarrow> raised option \<Rightarrow> unit io" where
  "read_chunks w deadline rid t first [] ending =
     io_bind (await_chunk w deadline rid t first) (\<lambda>_.
       case ending of None \<Rightarrow> io_return () | Some e \<Rightarrow> io_raise e)"
| "read_chunks w deadline rid t first (c # cs) ending =
     io_bind (await_chunk w deadline rid t first) (\<lambda>_.
     io_bind (handle_chunk w rid c) (\<lambda>_.
       read_chunks w deadline rid t False cs ending))"

text \<open>\<open>try ... finally: await close()\<close>: an exception of \<open>aclose\<close> replaces what the block raised.\<close>

definition closing :: "world \<Rightarrow> unit io \<Rightarrow> unit io" where
  "closing w m s = (case m s of (result, s1) \<Rightarrow>
     io_bind (awaiting w (w_close w)) (\<lambda>x.
       case x of Some e \<Rightarrow> io_raise e | None \<Rightarrow> lift_result result) s1)"

text \<open>The buffers in the order of their indices, built into tool calls.\<close>

definition streamed_response :: "gateway_config \<Rightarrow> string \<Rightarrow> call_state \<Rightarrow> raised + provider_response" where
  "streamed_response cfg rid s =
     result_bind (traverse (\<lambda>(i, b). buffer_build cfg rid b) (sort_key fst (cs_buffers s))) (\<lambda>calls.
       Inr \<lparr>pr_content = (if cs_fragments s = [] then [] else [concat (cs_fragments s)]),
            pr_finish_reason = cs_finish_reason s, pr_usage = cs_usage s,
            pr_provider_request_id = cs_provider_request_id s, pr_tool_calls = calls,
            pr_structured = cs_structured s\<rparr>)"

definition stream_body ::
    "gateway_config \<Rightarrow> world \<Rightarrow> rat \<Rightarrow> model_request \<Rightarrow> model_target \<Rightarrow> int \<Rightarrow> rat \<Rightarrow>
     (attempt_record \<times> model_response) io" where
  "stream_body cfg w deadline r t started_at started =
     io_bind (admit w t (req_id r) deadline) (\<lambda>_.
     io_bind (credential cfg w t (req_id r) deadline) (\<lambda>secret.
     io_bind (io_log [Provider_Called (target_key t)]) (\<lambda>_.
     io_bind (observe (w_stream w)) (\<lambda>(chunks, ending).
     io_bind (closing w (read_chunks w deadline (req_id r) t True chunks ending)) (\<lambda>_.
     io_bind (io_get (streamed_response cfg (req_id r))) (\<lambda>built.
     io_bind (lift_result built) (\<lambda>p.
       conclude w t r started_at started p)))))))"

subsection \<open>Attempts, retries and fallback\<close>

text \<open>
  \<open>complete\<close> and \<open>stream\<close> share the structure of their loops. A loop of \<open>complete\<close> never has a visible
  chunk, and it returns the response that \<open>stream\<close> yields as its terminal chunk.
\<close>

datatype attempt_end =
    Answered model_response
  | Attempt_Error model_error
  | Interrupted raised

definition update_breaker ::
    "target_id \<Rightarrow> (circuit_breaker \<Rightarrow> circuit_breaker) \<Rightarrow> call_state \<Rightarrow> call_state" where
  "update_breaker k f s = (case gs_breakers (cs_shared s) k of
      None \<Rightarrow> s
    | Some b \<Rightarrow> set_breaker k (f b) s)"

definition fresh_attempt :: "call_state \<Rightarrow> call_state" where
  "fresh_attempt s = s\<lparr>cs_admitted := False, cs_usage := None, cs_provider_request_id := None,
     cs_fragments := [], cs_finish_reason := Finish_Unknown, cs_structured := PyNone,
     cs_buffers := []\<rparr>"

text \<open>The statements after a failed \<open>try\<close> block.\<close>

definition attempt_failed ::
    "gateway_config \<Rightarrow> world \<Rightarrow> model_target \<Rightarrow> int \<Rightarrow> rat \<Rightarrow> model_error \<Rightarrow> unit io" where
  "attempt_failed cfg w t started_at started e =
     io_bind (observe (w_clock w)) (\<lambda>now.
     io_bind (io_modify (\<lambda>s. if cs_admitted s
         then update_breaker (target_key t) (record_failure now (me_code e)) s else s)) (\<lambda>_.
     io_bind (io_get cs_usage) (\<lambda>usage.
     io_bind (make_attempt w t started_at started Attempt_Failed (Some (me_code e))
         (me_provider_request_id e) (case me_usage e of None \<Rightarrow> usage | Some u \<Rightarrow> Some u)) (\<lambda>failed.
     io_bind (io_modify (\<lambda>s. s\<lparr>cs_attempts := cs_attempts s @ [failed]\<rparr>)) (\<lambda>_.
       emit_attempt cfg failed)))))"

text \<open>\<open>except CancelledError\<close> (in \<open>stream\<close> also \<open>GeneratorExit\<close>).\<close>

definition attempt_cancelled ::
    "gateway_config \<Rightarrow> world \<Rightarrow> model_target \<Rightarrow> int \<Rightarrow> rat \<Rightarrow> unit io" where
  "attempt_cancelled cfg w t started_at started =
     io_bind (io_modify (\<lambda>s. if cs_admitted s
         then update_breaker (target_key t) record_cancelled s else s)) (\<lambda>_.
     io_bind (io_get cs_usage) (\<lambda>usage.
     io_bind (io_get cs_provider_request_id) (\<lambda>request_id.
     io_bind (make_attempt w t started_at started Attempt_Cancelled (Some Call_Cancelled)
         request_id usage) (\<lambda>cancelled.
       emit_attempt cfg cancelled))))"

definition unknown_error :: "string \<Rightarrow> model_error" where
  "unknown_error rid = new_model_error Unknown_Error ''Model provider failed unexpectedly'' rid"

fun caught_error :: "string \<Rightarrow> string \<Rightarrow> raised \<Rightarrow> model_error option" where
  "caught_error message rid Raised_Cancelled = None"
| "caught_error message rid Raised_Exit = None"
| "caught_error message rid Raised_Timeout = Some (new_model_error Timeout message rid)"
| "caught_error message rid (Raised_Model e) = Some e"
| "caught_error message rid Raised_Exception = Some (unknown_error rid)"

type_synonym attempt_body = "model_target \<Rightarrow> int \<Rightarrow> rat \<Rightarrow> (attempt_record \<times> model_response) io"

definition run_attempt ::
    "gateway_config \<Rightarrow> world \<Rightarrow> string \<Rightarrow> string \<Rightarrow> attempt_body \<Rightarrow> model_target \<Rightarrow> call_state \<Rightarrow>
     attempt_end \<times> call_state" where
  "run_attempt cfg w message rid body t s0 =
     (let s = fresh_attempt s0;
          started_at = w_utc w (cs_tick s);
          started = w_clock w (cs_tick s + 1)
      in case body t started_at started (s\<lparr>cs_tick := cs_tick s + 2\<rparr>) of
          (Inr (succeeded, rsp), s1) \<Rightarrow>
            (Answered rsp, snd (emit_attempt cfg succeeded
               (update_breaker (target_key t) record_success s1)))
        | (Inl x, s1) \<Rightarrow>
            (case caught_error message rid x of
               None \<Rightarrow> (Interrupted x, snd (attempt_cancelled cfg w t started_at started s1))
             | Some e \<Rightarrow> (Attempt_Error e, snd (attempt_failed cfg w t started_at started e s1))))"

datatype loop_end =
    Loop_Answered model_response
  | Loop_Raised raised
  | Loop_Stopped
  | Loop_Exhausted model_error

text \<open>
  \<open>for retry_index in range(max_retries + 1)\<close>, with the number of iterations left. \<open>Loop_Stopped\<close> is
  the return after the error chunk of a stream that is already visible.
\<close>

fun attempt_loop ::
    "gateway_config \<Rightarrow> world \<Rightarrow> string \<Rightarrow> string \<Rightarrow> rat \<Rightarrow> attempt_body \<Rightarrow> model_target \<Rightarrow>
     nat \<Rightarrow> nat \<Rightarrow> call_state \<Rightarrow> loop_end \<times> call_state" where
  "attempt_loop cfg w message rid deadline body t 0 retry_index s = (Loop_Raised Raised_Exception, s)"
| "attempt_loop cfg w message rid deadline body t (Suc left) retry_index s =
     (case run_attempt cfg w message rid body t s of
        (Answered rsp, s1) \<Rightarrow> (Loop_Answered rsp, s1)
      | (Interrupted x, s1) \<Rightarrow> (Loop_Raised x, s1)
      | (Attempt_Error e, s1) \<Rightarrow>
          if cs_visible s1
          then (case yield_chunk w (empty_chunk\<lparr>ck_kind := Error_Chunk,
                    ck_error := Some (with_attempts e (cs_attempts s1))\<rparr>) s1 of
              (Inl x, s2) \<Rightarrow> (Loop_Raised x, s2)
            | (Inr _, s2) \<Rightarrow> (Loop_Stopped, s2))
          else if me_retryable e \<and> int retry_index < max_retries (target_limits t)
          then (case backoff w t retry_index rid deadline s1 of
              (Inl (Raised_Model d), s2) \<Rightarrow>
                (Loop_Raised (Raised_Model (with_attempts d (cs_attempts s2))), s2)
            | (Inl x, s2) \<Rightarrow> (Loop_Raised x, s2)
            | (Inr _, s2) \<Rightarrow>
                attempt_loop cfg w message rid deadline body t left (Suc retry_index) s2)
          else (Loop_Exhausted e, s1))"

datatype call_end =
    Call_Answered model_response
  | Call_Stopped
  | Call_Raised raised

fun target_loop ::
    "gateway_config \<Rightarrow> world \<Rightarrow> string \<Rightarrow> string \<Rightarrow> rat \<Rightarrow> attempt_body \<Rightarrow>
     model_target list \<Rightarrow> model_error option \<Rightarrow> call_state \<Rightarrow> call_end \<times> call_state" where
  "target_loop cfg w message rid deadline body [] last_error s =
     (Call_Raised (case last_error of
         None \<Rightarrow> Raised_Exception
       | Some e \<Rightarrow> Raised_Model (with_attempts e (cs_attempts s))), s)"
| "target_loop cfg w message rid deadline body (t # ts) last_error s =
     (case find_provider cfg t rid of
        Inl x \<Rightarrow> (Call_Raised x, s)
      | Inr _ \<Rightarrow>
          (case attempt_loop cfg w message rid deadline body t
                  (nat (max_retries (target_limits t) + 1)) 0 s of
             (Loop_Answered rsp, s1) \<Rightarrow> (Call_Answered rsp, s1)
           | (Loop_Raised x, s1) \<Rightarrow> (Call_Raised x, s1)
           | (Loop_Stopped, s1) \<Rightarrow> (Call_Stopped, s1)
           | (Loop_Exhausted e, s1) \<Rightarrow>
               if \<not> me_fallback_allowed e
               then (Call_Raised (Raised_Model (with_attempts e (cs_attempts s1))), s1)
               else target_loop cfg w message rid deadline body ts (Some e)
                      (s1\<lparr>cs_fallback_reason := Some (me_code e)\<rparr>)))"

definition call_start :: "gateway_shared \<Rightarrow> call_state" where
  "call_start shared = \<lparr>cs_tick = 0, cs_shared = shared, cs_effects = [], cs_attempts = [],
     cs_fallback_reason = None, cs_chunks = [], cs_sequence = 0, cs_visible = False,
     cs_admitted = False, cs_usage = None, cs_provider_request_id = None, cs_fragments = [],
     cs_finish_reason = Finish_Unknown, cs_structured = PyNone, cs_buffers = []\<rparr>"

definition call_deadline :: "world \<Rightarrow> model_route \<Rightarrow> rat" where
  "call_deadline w route = w_clock w 0 + route_total_timeout route"

definition complete ::
    "gateway_config \<Rightarrow> world \<Rightarrow> model_route \<Rightarrow> model_request \<Rightarrow> gateway_shared \<Rightarrow>
     call_end \<times> call_state" where
  "complete cfg w route r shared =
     (let deadline = call_deadline w route;
          s = (call_start shared)\<lparr>cs_tick := 1\<rparr>
      in case preflight_route cfg route r of
          Inl x \<Rightarrow> (Call_Raised x, s)
        | Inr _ \<Rightarrow> target_loop cfg w ''Model provider attempt timed out'' (req_id r) deadline
            (complete_body cfg w deadline r) (route_targets route) None s)"

definition stream ::
    "gateway_config \<Rightarrow> world \<Rightarrow> model_route \<Rightarrow> model_request \<Rightarrow> gateway_shared \<Rightarrow>
     call_end \<times> call_state" where
  "stream cfg w route r shared =
     (let deadline = call_deadline w route;
          s = (call_start shared)\<lparr>cs_tick := 1\<rparr>
      in case preflight_route cfg route r of
          Inl x \<Rightarrow> (Call_Raised x, s)
        | Inr _ \<Rightarrow>
            (case target_loop cfg w ''Model stream timed out'' (req_id r) deadline
                    (stream_body cfg w deadline r) (route_targets route) None s of
               (Call_Answered rsp, s1) \<Rightarrow>
                 (case yield_chunk w (empty_chunk\<lparr>ck_kind := Terminal_Chunk,
                         ck_terminal := Some rsp\<rparr>) s1 of
                    (Inl x, s2) \<Rightarrow> (Call_Raised x, s2)
                  | (Inr _, s2) \<Rightarrow> (Call_Answered rsp, s2))
             | other \<Rightarrow> other))"

end
