(* ===== verification/Gateway_Steps.thy ===== *)
theory Gateway_Steps
  imports Model_Gateway
begin

section \<open>What the steps of a gateway call preserve\<close>

text \<open>
  \<open>keeps R m\<close>: the computation \<open>m\<close> relates its initial to its final state by \<open>R\<close>. The locales state
  what a relation must satisfy for the primitive steps of a call (\<open>call_steps\<close>), for admission
  (\<open>admit_law\<close>), for the body of a completion (\<open>body_law\<close>)
        and of a stream (\<open>stream_law\<close>), and derive
  it for the composed steps. \<open>Gateway_Laws\<close> interprets them.
\<close>

definition keeps :: "(call_state \<Rightarrow> call_state \<Rightarrow> bool) \<Rightarrow> 'a io \<Rightarrow> bool" where
  "keeps R m \<longleftrightarrow> (\<forall>s. R s (snd (m s)))"

lemma keepsD: "keeps R m \<Longrightarrow> m s = (x, s') \<Longrightarrow> R s s'"
  by (metis keeps_def snd_conv)

definition visible_kind :: "chunk_kind \<Rightarrow> bool" where
  "visible_kind k \<longleftrightarrow> k = Text_Delta \<or> k = Tool_Call_Delta"

definition body_kind :: "chunk_kind \<Rightarrow> bool" where
  "body_kind k \<longleftrightarrow> visible_kind k \<or> k = Usage_Chunk"

text \<open>A chunk whose constructor accepts it under any sequence number.\<close>

definition payload_ok :: "model_chunk \<Rightarrow> bool" where
  "payload_ok c \<longleftrightarrow> model_chunk_post_init (c\<lparr>ck_sequence := 0\<rparr>) = Inr ()"

lemma payload_ok_chunks [simp]:
  "payload_ok (empty_chunk\<lparr>ck_kind := Text_Delta, ck_text_delta := Some t\<rparr>)"
  "payload_ok (empty_chunk\<lparr>ck_kind := Tool_Call_Delta, ck_tool_call_delta := Some d\<rparr>)"
  "payload_ok (empty_chunk\<lparr>ck_kind := Usage_Chunk, ck_usage := Some u\<rparr>)"
  "payload_ok (empty_chunk\<lparr>ck_kind := Terminal_Chunk, ck_terminal := Some r\<rparr>)"
  "payload_ok (empty_chunk\<lparr>ck_kind := Error_Chunk, ck_error := Some e\<rparr>)"
  by (simp_all add: payload_ok_def model_chunk_post_init_def payload_present_def empty_chunk_def)

lemma remaining_positive: "remaining w deadline rid s = (Inr left, s') \<Longrightarrow> 0 < left"
  by (auto simp: remaining_def io_defs split: if_splits)

locale call_steps =
  fixes w :: world and deadline :: rat
        and R :: "call_state \<Rightarrow> call_state \<Rightarrow> bool"
  assumes refl: "R s s"
    and trans: "R s t \<Longrightarrow> R t u \<Longrightarrow> R s u"
    and tick: "R s (s\<lparr>cs_tick := n\<rparr>)"
    and others: "R s (s\<lparr>cs_tick := n, cs_shared := w_others w m (cs_shared s)\<rparr>)"
begin

lemma keeps_bind: "keeps R m \<Longrightarrow> (\<And>x. keeps R (f x)) \<Longrightarrow> keeps R (io_bind m f)"
  unfolding keeps_def io_bind_def
  by (auto split: prod.splits sum.splits) (metis snd_conv trans)+

lemma keeps_pure: "keeps R (io_return x)" "keeps R (io_raise e)" "keeps R (io_get g)"
    "keeps R (io_when b e)" "keeps R (lift_result r)"
  by (simp_all add: keeps_def io_defs refl)

lemma keeps_observe: "keeps R (observe f)" "keeps R (awaiting w f)"
  by (simp_all add: keeps_def io_defs tick others)

lemma keeps_expired_as: "keeps R m \<Longrightarrow> keeps R (expired_as e m)"
  unfolding keeps_def expired_as_def
  by (auto split: prod.splits sum.splits raised.splits) (metis snd_conv)+

lemma keeps_if: "keeps R m \<Longrightarrow> keeps R m' \<Longrightarrow> keeps R (if b then m else m')"
  by simp

lemma keeps_remaining: "keeps R (remaining w deadline rid)"
  unfolding remaining_def by (intro keeps_bind keeps_observe keeps_if keeps_pure)

lemma keeps_make_attempt: "keeps R (make_attempt w t started_at started outcome code rid usage)"
  unfolding make_attempt_def by (intro keeps_bind keeps_observe keeps_pure)

lemma keeps_conclude: "keeps R (conclude w t r started_at started p)"
  unfolding conclude_def by (intro keeps_bind keeps_make_attempt keeps_pure)

lemma keeps_credential: "keeps R (credential cfg w t rid deadline)"
  unfolding credential_def
  by (cases "target_credential t")
    (auto intro!: keeps_bind keeps_observe keeps_pure keeps_remaining
      split: resolution.splits raised.splits)

lemma keeps_awaited:
  "(\<And>left s s'. remaining w deadline rid s = (Inr left, s') \<Longrightarrow> R s' (snd (f left s'))) \<Longrightarrow>
     keeps R (io_bind (remaining w deadline rid) f)"
  unfolding keeps_def io_bind_def
  using keepsD [OF keeps_remaining]
  by (auto split: prod.splits sum.splits) (metis snd_conv trans)+

end

subsection \<open>Admission\<close>

locale admit_law = call_steps +
  assumes limiter: "R s (set_limiter k b s)"
    and breaker: "R s (set_breaker k c s)"
    and slept: "R s (s\<lparr>cs_effects := cs_effects s @ map Slept ds\<rparr>)"
    and admitted: "R s (s\<lparr>cs_admitted := True\<rparr>)"
begin

lemma keeps_rate_limiter: "keeps R (rate_limiter w t)"
  unfolding rate_limiter_def
  by (auto intro!: keeps_bind keeps_observe keeps_pure
      simp: keeps_def [of _ "io_modify _"] io_modify_def limiter split: option.split sum.split)

lemma keeps_acquire_token: "keeps R (acquire_token w t b)"
proof -
  have stored: "keeps R (io_modify (\<lambda>s. set_limiter k c (s\<lparr>cs_tick := n\<rparr>)))" for k c n
    using trans [OF tick limiter] by (simp add: keeps_def io_modify_def)
  show ?thesis
    unfolding acquire_token_def Let_def
    by (auto intro!: keeps_bind keeps_observe keeps_pure stored
        simp: keeps_def [of _ "io_log _"] io_log_def slept)
qed

lemma keeps_circuit_breaker_for: "keeps R (circuit_breaker_for t)"
  unfolding circuit_breaker_for_def
  by (auto intro!: keeps_bind keeps_pure
      simp: keeps_def [of _ "io_modify _"] io_modify_def breaker split: option.split sum.split)

lemma keeps_backoff: "keeps R (backoff w t i rid deadline)"
  using slept [of _ "[_]"]
  unfolding backoff_def
  by (auto intro!: keeps_bind keeps_observe keeps_expired_as keeps_remaining keeps_pure
      simp: keeps_def [of _ "io_log _"] io_log_def split: option.split)

lemma keeps_admit_steps: "keeps R (admit w t rid deadline)"
  unfolding admit_def
  by (auto intro!: keeps_bind keeps_pure keeps_observe keeps_rate_limiter keeps_acquire_token
      keeps_circuit_breaker_for keeps_expired_as keeps_remaining
      simp: keeps_def [of _ "io_modify _"] io_modify_def breaker admitted
      split: option.split sum.split)

end

subsection \<open>The body of a completion\<close>

locale body_law = call_steps +
  assumes admission: "R s (snd (admit w target rid deadline s))"
    and awaited: "now < deadline \<Longrightarrow> now + x \<le> deadline \<Longrightarrow>
      R s (s\<lparr>cs_effects := cs_effects s @ [Provider_Awaited now x]\<rparr>)"
    and locals: "R s (s\<lparr>cs_usage := usage, cs_provider_request_id := request_id,
      cs_fragments := fragments, cs_finish_reason := finish, cs_structured := structured,
      cs_buffers := buffers\<rparr>)"
begin

lemma keeps_admit: "keeps R (admit w t rid deadline)"
  by (simp add: keeps_def admission)

lemma keeps_update:
  "keeps R (io_modify (\<lambda>s. s\<lparr>cs_usage := f1 s, cs_provider_request_id := f2 s\<rparr>))"
  "keeps R (io_modify (\<lambda>s. s\<lparr>cs_usage := f1 s\<rparr>))"
  "keeps R (io_modify (\<lambda>s. s\<lparr>cs_buffers := f3 s\<rparr>))"
  "keeps R (io_modify (\<lambda>s. s\<lparr>cs_finish_reason := f4 s, cs_provider_request_id := f2 s\<rparr>))"
  "keeps R (io_modify (\<lambda>s. if g s then s else s\<lparr>cs_structured := f5 s\<rparr>))"
proof -
  have 1: "R s (s\<lparr>cs_usage := u, cs_provider_request_id := i\<rparr>)" for s u i
    using locals [where s = s and usage = u and request_id = i
        and fragments = "cs_fragments s" and finish = "cs_finish_reason s"
        and structured = "cs_structured s" and buffers = "cs_buffers s"]
    by (cases s) simp
  have 2: "R s (s\<lparr>cs_usage := u\<rparr>)" for s u
    using 1 [where s = s and u = u and i = "cs_provider_request_id s"] by (cases s) simp
  have 3: "R s (s\<lparr>cs_buffers := b\<rparr>)" for s b
    using locals [where s = s and usage = "cs_usage s"
        and request_id = "cs_provider_request_id s" and fragments = "cs_fragments s"
        and finish = "cs_finish_reason s" and structured = "cs_structured s"
        and buffers = b] by (cases s) simp
  have 4: "R s (s\<lparr>cs_finish_reason := f, cs_provider_request_id := i\<rparr>)" for s f i
    using locals [where s = s and usage = "cs_usage s" and request_id = i
        and fragments = "cs_fragments s" and finish = f and structured = "cs_structured s"
        and buffers = "cs_buffers s"]
    by (cases s) simp
  have 5: "R s (s\<lparr>cs_structured := v\<rparr>)" for s v
    using locals [where s = s and usage = "cs_usage s"
        and request_id = "cs_provider_request_id s" and fragments = "cs_fragments s"
        and finish = "cs_finish_reason s" and structured = v
        and buffers = "cs_buffers s"] by (cases s) simp
  from 1 2 3 4 5 refl show
    "keeps R (io_modify (\<lambda>s. s\<lparr>cs_usage := f1 s, cs_provider_request_id := f2 s\<rparr>))"
    "keeps R (io_modify (\<lambda>s. s\<lparr>cs_usage := f1 s\<rparr>))"
    "keeps R (io_modify (\<lambda>s. s\<lparr>cs_buffers := f3 s\<rparr>))"
    "keeps R (io_modify (\<lambda>s. s\<lparr>cs_finish_reason := f4 s, cs_provider_request_id := f2 s\<rparr>))"
    "keeps R (io_modify (\<lambda>s. if g s then s else s\<lparr>cs_structured := f5 s\<rparr>))"
    by (simp_all add: keeps_def io_modify_def)
qed

lemma log_awaited:
  "0 < left \<Longrightarrow> R s (snd (io_log [Provider_Awaited (deadline - left) (min x left)] s))"
  by (simp add: io_log_def awaited)

lemma keeps_complete_body:
  assumes called: "\<And>s. R s (s\<lparr>cs_effects := cs_effects s @ [Provider_Called (target_key t)]\<rparr>)"
  shows "keeps R (complete_body cfg w deadline r t started_at started)"
  unfolding complete_body_def
proof (rule keeps_bind, rule keeps_admit, rule keeps_bind, rule keeps_credential, rule keeps_awaited)
  fix left s s'
  assume "remaining w deadline (req_id r) s = (Inr left, s')"
  then have left: "0 < left" by (rule remaining_positive)
  have "R s (snd (io_log [Provider_Called (target_key t), Provider_Awaited (deadline - left) (min x left)] s))"
    for s x
    using trans [OF called awaited, of "deadline - left" "min x left" s] left by (simp add: io_log_def)
  then have log: "keeps R (io_log [Provider_Called (target_key t), Provider_Awaited (deadline - left) (min x left)])"
    for x
    by (simp add: keeps_def)
  let ?rest = "\<lambda>_::unit. io_bind (awaiting w (w_complete w)) (\<lambda>result.
     io_bind (lift_result result) (\<lambda>p.
     io_bind (io_modify (\<lambda>s. s\<lparr>cs_usage := pr_usage p,
         cs_provider_request_id := pr_provider_request_id p\<rparr>)) (\<lambda>_.
       conclude w t r started_at started p)))"
  have "keeps R (?rest u)" for u
    by (intro keeps_bind keeps_observe keeps_pure keeps_update keeps_conclude)
  with log show "R s' (snd (io_bind (io_log [Provider_Called (target_key t),
       Provider_Awaited (deadline - left) (min (attempt_timeout_seconds (target_limits t)) left)]) ?rest s'))"
    using keeps_bind [of "io_log [Provider_Called (target_key t), Provider_Awaited (deadline - left)
      (min (attempt_timeout_seconds (target_limits t)) left)]" ?rest]
    by (simp add: keeps_def)
qed

end

subsection \<open>The body of a stream\<close>

text \<open>The text
        and tool-call deltas are yielded after the flag \<open>visible\<close> is set.\<close>

locale stream_law = body_law +
  assumes visible: "R s (s\<lparr>cs_visible := True, cs_fragments := texts\<rparr>)"
    and yields: "body_kind (ck_kind c) \<Longrightarrow> payload_ok c \<Longrightarrow>
      (visible_kind (ck_kind c) \<Longrightarrow> cs_visible s) \<Longrightarrow> R s (snd (yield_chunk w c s))"
begin

lemma visible_only: "R s (s\<lparr>cs_visible := True\<rparr>)"
  using visible [where s = s and texts = "cs_fragments s"] by (cases s) simp

lemma keeps_yield_text: "keeps R (yield_text w c)"
proof -
  have "R s (snd (yield_chunk w (empty_chunk\<lparr>ck_kind := Text_Delta, ck_text_delta := Some t\<rparr>)
      (s\<lparr>cs_visible := True, cs_fragments := f\<rparr>)))" for s t f
    by (rule trans [OF visible yields]) (simp_all add: body_kind_def visible_kind_def)
  then show ?thesis
    by (auto simp: keeps_def yield_text_def io_bind_def io_modify_def io_return_def refl
        split: option.split list.split)
qed

lemma keeps_yield_tool_delta: "keeps R (yield_tool_delta w rid c)"
proof -
  let ?c = "\<lambda>d. empty_chunk\<lparr>ck_kind := Tool_Call_Delta, ck_tool_call_delta := Some d\<rparr>"
  have buffers: "R s (s\<lparr>cs_buffers := b\<rparr>)" for s b
    using keeps_update(3) [of "\<lambda>_. b"] by (simp add: keeps_def io_modify_def)
  have "R s (snd (yield_chunk w (?c d) (s\<lparr>cs_visible := True, cs_buffers := b\<rparr>)))" for s d b
  proof (rule trans [OF visible_only])
    have "R (s\<lparr>cs_visible := True, cs_buffers := b\<rparr>)
        (snd (yield_chunk w (?c d) (s\<lparr>cs_visible := True, cs_buffers := b\<rparr>)))"
      by (rule yields) (simp_all add: body_kind_def visible_kind_def)
    with buffers [of "s\<lparr>cs_visible := True\<rparr>" b]
    show "R (s\<lparr>cs_visible := True\<rparr>)
        (snd (yield_chunk w (?c d) (s\<lparr>cs_visible := True, cs_buffers := b\<rparr>)))"
      by (rule trans)
  qed
  then show ?thesis
    by (auto simp: keeps_def yield_tool_delta_def io_bind_def io_modify_def io_return_def io_get_def
        lift_result_def refl visible_only split: option.split sum.split)
qed

lemma keeps_yield_usage: "keeps R (yield_usage w c)"
proof -
  have "keeps R (yield_chunk w (empty_chunk\<lparr>ck_kind := Usage_Chunk, ck_usage := Some u\<rparr>))" for u
    by (auto simp: keeps_def body_kind_def visible_kind_def intro!: yields)
  then show ?thesis
    by (auto simp: yield_usage_def intro!: keeps_bind keeps_update keeps_pure split: option.split)
qed

lemma keeps_handle_chunk: "keeps R (handle_chunk w rid c)"
  unfolding handle_chunk_def collect_rest_def
  by (intro keeps_bind keeps_yield_text keeps_yield_tool_delta keeps_yield_usage keeps_update
      keeps_pure)

lemma keeps_await_chunk: "keeps R (await_chunk w deadline rid t first)"
  unfolding await_chunk_def
proof (rule keeps_awaited)
  fix left s s'
  assume "remaining w deadline rid s = (Inr left, s')"
  then have "0 < left" by (rule remaining_positive)
  then have "keeps R (io_bind (io_log [Provider_Awaited (deadline - left) (min x left)])
      (\<lambda>_. awaiting w (\<lambda>_. ())))" for x
    using log_awaited by (intro keeps_bind keeps_observe) (simp add: keeps_def)
  then show "R s' (snd (io_bind (io_log [Provider_Awaited (deadline - left)
      (min (if first then stream_first_byte_timeout_seconds (target_limits t)
        else stream_idle_timeout_seconds (target_limits t)) left)]) (\<lambda>_. awaiting w (\<lambda>_. ())) s'))"
    by (simp add: keeps_def)
qed

lemma keeps_read_chunks: "keeps R (read_chunks w deadline rid t first cs ending)"
  by (induction cs arbitrary: first)
    (auto intro!: keeps_bind keeps_await_chunk keeps_handle_chunk keeps_pure split: option.split)

lemma keeps_closing:
  assumes "keeps R m"
  shows "keeps R (closing w m)"
  unfolding keeps_def
proof
  fix s
  obtain result s1 where m: "m s = (result, s1)" by fastforce
  let ?close = "\<lambda>x. case x of Some e \<Rightarrow> io_raise e | None \<Rightarrow> lift_result result"
  have "keeps R (io_bind (awaiting w (w_close w)) ?close)"
    by (intro keeps_bind keeps_observe) (simp add: keeps_pure split: option.split)
  with keepsD [OF assms m] m show "R s (snd (closing w m s))"
    by (auto simp: closing_def keeps_def intro: trans)
qed

lemma keeps_stream_body:
  assumes called: "\<And>s. R s (s\<lparr>cs_effects := cs_effects s @ [Provider_Called (target_key t)]\<rparr>)"
  shows "keeps R (stream_body cfg w deadline r t started_at started)"
proof -
  have "keeps R (io_log [Provider_Called (target_key t)])" using called by (simp add: keeps_def io_log_def)
  then show ?thesis
    unfolding stream_body_def
    by (auto intro!: keeps_bind keeps_admit keeps_credential keeps_observe keeps_closing
        keeps_read_chunks keeps_pure keeps_conclude)
qed

end

end
