(* ===== verification/Gateway_Laws.thy ===== *)
theory Gateway_Laws
  imports Gateway_Steps
begin

section \<open>Relations between the states of a gateway call\<close>

text \<open>
  The relations that the steps of a call satisfy, each an interpretation of a locale of
  \<open>Gateway_Steps\<close>: the attempts made so far are a frame of an attempt's body, effects are only
  appended, awaits of the provider lie before the deadline, chunks are numbered from zero, nothing
  visible is hidden again, and the shared dictionaries stay well-formed.
\<close>

lemma yield_chunk_state:
  "snd (yield_chunk w c s) = s\<lparr>cs_chunks := cs_chunks s @ [c\<lparr>ck_sequence := cs_sequence s\<rparr>],
     cs_sequence := cs_sequence s + 1, cs_effects := cs_effects s @ [Yielded (ck_kind c)],
     cs_tick := cs_tick s + 1, cs_shared := w_others w (cs_tick s) (cs_shared s)\<rparr>"
  by (simp add: yield_chunk_def io_defs)

lemma yield_chunk_result:
  "fst (yield_chunk w c s) = (if w_closes_at w = Some (cs_sequence s) then Inl Raised_Exit else Inr ())"
  by (simp add: yield_chunk_def io_defs)

subsection \<open>Admission touches the shared state, the trace and the admission flag\<close>

definition admit_rel :: "call_state \<Rightarrow> call_state \<Rightarrow> bool" where
  "admit_rel s s' \<longleftrightarrow>
     (\<exists>n g es a. s' = s\<lparr>cs_tick := n, cs_shared := g, cs_effects := cs_effects s @ es,
        cs_admitted := a\<rparr> \<and> (\<forall>e \<in> set es. \<exists>d. e = Slept d))"

lemma admit_relI:
  "s' = s\<lparr>cs_tick := n, cs_shared := g, cs_effects := cs_effects s @ es, cs_admitted := a\<rparr> \<Longrightarrow>
     (\<And>e. e \<in> set es \<Longrightarrow> \<exists>d. e = Slept d) \<Longrightarrow> admit_rel s s'"
  unfolding admit_rel_def by blast

interpretation admits: admit_law w deadline admit_rel for w deadline
proof unfold_locales
  fix s t u :: call_state
  assume st: "admit_rel s t" and tu: "admit_rel t u"
  from st obtain n g es a where 1: "\<forall>e \<in> set es. \<exists>d. e = Slept d"
    "t = s\<lparr>cs_tick := n, cs_shared := g, cs_effects := cs_effects s @ es, cs_admitted := a\<rparr>"
    unfolding admit_rel_def by blast
  from tu obtain n' g' es' a' where 2: "\<forall>e \<in> set es'. \<exists>d. e = Slept d"
    "u = t\<lparr>cs_tick := n', cs_shared := g', cs_effects := cs_effects t @ es', cs_admitted := a'\<rparr>"
    unfolding admit_rel_def by blast
  show "admit_rel s u"
    by (rule admit_relI [where s' = u and s = s and n = n' and g = g' and es = "es @ es'"
        and a = a']) (use 1 2 in auto)
next
  fix s :: call_state and n
  show "admit_rel s (s\<lparr>cs_tick := n\<rparr>)"
    by (rule admit_relI [where s = s and n = n and g = "cs_shared s" and es = "[]"
        and a = "cs_admitted s"]) (cases s; simp)+
next
  fix s :: call_state and n m
  show "admit_rel s (s\<lparr>cs_tick := n, cs_shared := w_others w m (cs_shared s)\<rparr>)"
    by (rule admit_relI [where s = s and n = n and g = "w_others w m (cs_shared s)"
        and es = "[]" and a = "cs_admitted s"]) (cases s; simp)+
next
  fix s :: call_state and ds
  show "admit_rel s (s\<lparr>cs_effects := cs_effects s @ map Slept ds\<rparr>)"
    by (rule admit_relI [where s = s and n = "cs_tick s" and g = "cs_shared s"
        and es = "map Slept ds" and a = "cs_admitted s"])
      (cases s; auto)+
next
  fix s :: call_state
  show "admit_rel s s"
    by (rule admit_relI [where s = s and n = "cs_tick s" and g = "cs_shared s" and es = "[]"
        and a = "cs_admitted s"]) (cases s; simp)+
  show "admit_rel s (s\<lparr>cs_admitted := True\<rparr>)"
    by (rule admit_relI [where s = s and n = "cs_tick s" and g = "cs_shared s" and es = "[]"
        and a = True]) (cases s; simp)+
next
  fix s :: call_state and k b
  show "admit_rel s (set_limiter k b s)"
    by (rule admit_relI [where s = s and n = "cs_tick s"
        and g = "cs_shared (set_limiter k b s)" and es = "[]" and a = "cs_admitted s"])
      (cases s; simp add: set_limiter_def)+
next
  fix s :: call_state and k c
  show "admit_rel s (set_breaker k c s)"
    by (rule admit_relI [where s = s and n = "cs_tick s"
        and g = "cs_shared (set_breaker k c s)" and es = "[]" and a = "cs_admitted s"])
      (cases s; simp add: set_breaker_def)+
qed

lemma admit_result: "admit_rel s (snd (admit w t rid deadline s))"
  using admits.keeps_admit_steps [where w = w and deadline = deadline and t = t and rid = rid]
  by (simp add: keeps_def)

lemma backoff_result: "admit_rel s (snd (backoff w t i rid deadline s))"
  using admits.keeps_backoff [where w = w and deadline = deadline and t = t and rid = rid
        and i = i]
  by (simp add: keeps_def)

subsection \<open>The frame of an attempt\<close>

definition same_frame :: "call_state \<Rightarrow> call_state \<Rightarrow> bool" where
  "same_frame s s' \<longleftrightarrow>
     cs_attempts s' = cs_attempts s \<and> cs_fallback_reason s' = cs_fallback_reason s"

interpretation frame: stream_law w deadline same_frame for w deadline
proof unfold_locales
  fix s :: call_state and t rid
  show "same_frame s (snd (admit w t rid deadline s))"
    using admit_result [of s w t rid deadline] by (auto simp: admit_rel_def same_frame_def)
qed (auto simp: same_frame_def yield_chunk_state)

text \<open>A completion yields nothing.\<close>

definition silent :: "call_state \<Rightarrow> call_state \<Rightarrow> bool" where
  "silent s s' \<longleftrightarrow> cs_chunks s' = cs_chunks s \<and> cs_sequence s' = cs_sequence s \<and>
     cs_visible s' = cs_visible s"

interpretation silence: body_law w deadline silent for w deadline
proof unfold_locales
  fix s :: call_state and t rid
  show "silent s (snd (admit w t rid deadline s))"
    using admit_result [of s w t rid deadline] by (auto simp: admit_rel_def silent_def)
qed (auto simp: silent_def)

subsection \<open>Effects\<close>

definition logs :: "(effect \<Rightarrow> bool) \<Rightarrow> call_state \<Rightarrow> call_state \<Rightarrow> bool" where
  "logs P s s' \<longleftrightarrow> (\<exists>es. cs_effects s' = cs_effects s @ es \<and> (\<forall>e \<in> set es. P e))"

lemma logsI: "cs_effects s' = cs_effects s @ es \<Longrightarrow> (\<And>e. e \<in> set es \<Longrightarrow> P e) \<Longrightarrow> logs P s s'"
  unfolding logs_def by blast

lemma logs_refl [simp]: "cs_effects s' = cs_effects s \<Longrightarrow> logs P s s'"
  by (rule logsI [of _ _ "[]"]) simp_all

lemma logs_trans: "logs P s t \<Longrightarrow> logs P t u \<Longrightarrow> logs P s u"
  unfolding logs_def by force

lemma logs_admit:
  assumes "\<And>d. P (Slept d)"
  shows "logs P s (snd (admit w t rid deadline s))"
proof -
  from admit_result [of s w t rid deadline] obtain n g es a where
    "snd (admit w t rid deadline s)
      = s\<lparr>cs_tick := n, cs_shared := g, cs_effects := cs_effects s @ es, cs_admitted := a\<rparr>"
    and "\<forall>e \<in> set es. \<exists>d. e = Slept d"
    unfolding admit_rel_def by blast
  with assms show ?thesis by (intro logsI [of _ _ es]) auto
qed

lemma logs_yield: "P (Yielded (ck_kind c)) \<Longrightarrow> logs P s (snd (yield_chunk w c s))"
  by (rule logsI [of _ _ "[Yielded (ck_kind c)]"]) (simp_all add: yield_chunk_state)

lemma logs_one: "P e \<Longrightarrow> logs P s (s\<lparr>cs_effects := cs_effects s @ [e]\<rparr>)"
  by (rule logsI [of _ _ "[e]"]) simp_all

text \<open>An await of the provider begins before the deadline and cannot last beyond it.\<close>

fun in_time :: "rat \<Rightarrow> effect \<Rightarrow> bool" where
  "in_time deadline (Provider_Awaited now x) = (now < deadline \<and> now + x \<le> deadline)"
| "in_time deadline _ = True"

interpretation timely: stream_law w deadline "logs (in_time deadline)" for w deadline
  by unfold_locales (auto simp: logs_one intro: logs_trans logs_admit logs_yield)

text \<open>Effects other than the start of a provider call and the record of an attempt.\<close>

fun quiet_effect :: "effect \<Rightarrow> bool" where
  "quiet_effect (Provider_Called k) = False"
| "quiet_effect (Attempt_Emitted a) = False"
| "quiet_effect _ = True"

interpretation quiet: stream_law w deadline "logs quiet_effect" for w deadline
  by unfold_locales (auto simp: logs_one intro: logs_trans logs_admit logs_yield)

text \<open>Effects of an attempt before the provider is called: nothing is yielded either.\<close>

fun waiting_effect :: "effect \<Rightarrow> bool" where
  "waiting_effect (Slept d) = True"
| "waiting_effect (Provider_Awaited now x) = True"
| "waiting_effect _ = False"

interpretation waits: body_law w deadline "logs waiting_effect" for w deadline
  by unfold_locales (auto simp: logs_one intro: logs_trans logs_admit)

subsection \<open>Chunks\<close>

definition numbered :: "call_state \<Rightarrow> bool" where
  "numbered s \<longleftrightarrow> cs_sequence s = int (length (cs_chunks s)) \<and>
     map ck_sequence (cs_chunks s) = map int [0..<length (cs_chunks s)]"

lemma numbered_yield: "numbered s \<Longrightarrow> numbered (snd (yield_chunk w c s))"
  by (simp add: numbered_def yield_chunk_state)

definition numbers :: "call_state \<Rightarrow> call_state \<Rightarrow> bool" where
  "numbers s s' \<longleftrightarrow> (numbered s \<longrightarrow> numbered s')"

interpretation numbering: stream_law w deadline numbers for w deadline
proof unfold_locales
  fix s :: call_state and t rid
  show "numbers s (snd (admit w t rid deadline s))"
    using admit_result [of s w t rid deadline]
    by (auto simp: admit_rel_def numbers_def numbered_def)
qed (auto simp: numbers_def numbered_yield, auto simp: numbered_def)

definition body_chunk :: "model_chunk \<Rightarrow> bool" where
  "body_chunk c \<longleftrightarrow> body_kind (ck_kind c) \<and> payload_ok c"

definition adds_chunks :: "call_state \<Rightarrow> call_state \<Rightarrow> bool" where
  "adds_chunks s s' \<longleftrightarrow> (\<exists>cs. cs_chunks s' = cs_chunks s @ cs \<and> (\<forall>c \<in> set cs. body_chunk c))"

lemma adds_chunks_refl: "cs_chunks s' = cs_chunks s \<Longrightarrow> adds_chunks s s'"
  by (auto simp: adds_chunks_def)

lemma payload_ok_sequence [simp]: "payload_ok (c\<lparr>ck_sequence := n\<rparr>) = payload_ok c"
  by (simp add: payload_ok_def)

interpretation chunks: stream_law w deadline adds_chunks for w deadline
proof unfold_locales
  fix s t u :: call_state
  assume "adds_chunks s t" and "adds_chunks t u"
  then show "adds_chunks s u" unfolding adds_chunks_def by force
next
  fix s :: call_state and t rid
  show "adds_chunks s (snd (admit w t rid deadline s))"
    using admit_result [of s w t rid deadline]
    by (auto simp: admit_rel_def adds_chunks_refl)
qed (auto simp: adds_chunks_refl adds_chunks_def yield_chunk_state body_chunk_def)

subsection \<open>Visibility\<close>

fun visible_effect :: "effect \<Rightarrow> bool" where
  "visible_effect (Yielded k) = visible_kind k"
| "visible_effect _ = False"

definition shown :: "call_state \<Rightarrow> bool" where
  "shown s \<longleftrightarrow> cs_visible s \<or> (\<forall>e \<in> set (cs_effects s). \<not> visible_effect e)"

definition shows_visible :: "call_state \<Rightarrow> call_state \<Rightarrow> bool" where
  "shows_visible s s' \<longleftrightarrow> (cs_visible s \<longrightarrow> cs_visible s') \<and> (shown s \<longrightarrow> shown s')"

interpretation visibility: stream_law w deadline shows_visible for w deadline
proof unfold_locales
  fix s :: call_state and t rid
  show "shows_visible s (snd (admit w t rid deadline s))"
    using admit_result [of s w t rid deadline]
    by (fastforce simp: admit_rel_def shows_visible_def shown_def)
qed (auto simp: shows_visible_def shown_def yield_chunk_state)

subsection \<open>The trace of an attempt\<close>

text \<open>At most one provider call, of the attempt's target, with only waiting before it.\<close>

definition body_trace :: "target_id \<Rightarrow> call_state \<Rightarrow> call_state \<Rightarrow> bool" where
  "body_trace k s s' \<longleftrightarrow>
     (\<exists>before after. cs_effects s' = cs_effects s @ before @ after \<and>
        (\<forall>e \<in> set before. waiting_effect e) \<and>
        (after = [] \<or> hd after = Provider_Called k \<and> (\<forall>e \<in> set (tl after). quiet_effect e)))"

lemma body_trace_before: "logs waiting_effect s s' \<Longrightarrow> body_trace k s s'"
  unfolding logs_def body_trace_def by (metis append_Nil2)

lemma body_trace_wait:
  assumes "logs waiting_effect s t" and "body_trace k t u"
  shows "body_trace k s u"
proof -
  from assms(1) obtain es where 1: "cs_effects t = cs_effects s @ es" "\<forall>e \<in> set es. waiting_effect e"
    unfolding logs_def by blast
  from assms(2) obtain before after where 2: "cs_effects u = cs_effects t @ before @ after"
    "\<forall>e \<in> set before. waiting_effect e"
    "after = [] \<or> hd after = Provider_Called k \<and> (\<forall>e \<in> set (tl after). quiet_effect e)"
    unfolding body_trace_def by blast
  show ?thesis
    unfolding body_trace_def
    by (rule exI [of _ "es @ before"], rule exI [of _ after]) (use 1 2 in auto)
qed

lemma body_trace_bind:
  assumes m: "keeps (logs waiting_effect) m" and f: "\<And>x. keeps (body_trace k) (f x)"
  shows "keeps (body_trace k) (io_bind m f)"
proof -
  have "body_trace k s (snd (io_bind m f s))" for s
  proof (cases "m s")
    case (Pair r t)
    with m have "logs waiting_effect s t" by (metis keepsD)
    with f Pair show ?thesis
      by (cases r) (auto simp: io_bind_def keeps_def intro: body_trace_before body_trace_wait)
  qed
  then show ?thesis by (simp add: keeps_def)
qed

lemma body_trace_call:
  assumes "keeps (logs quiet_effect) (f ())" and "\<forall>e \<in> set es. quiet_effect e"
  shows "keeps (body_trace k) (io_bind (io_log (Provider_Called k # es)) f)"
proof -
  have "body_trace k s (snd (f () (s\<lparr>cs_effects := cs_effects s @ Provider_Called k # es\<rparr>)))" for s
  proof -
    let ?s = "s\<lparr>cs_effects := cs_effects s @ Provider_Called k # es\<rparr>"
    from assms(1) obtain qs where "cs_effects (snd (f () ?s)) = cs_effects ?s @ qs"
      and "\<forall>e \<in> set qs. quiet_effect e"
      unfolding keeps_def logs_def by blast
    with assms(2) show ?thesis
      unfolding body_trace_def
      by (intro exI [of _ "[]"] exI [of _ "Provider_Called k # es @ qs"]) auto
  qed
  then show ?thesis by (simp add: keeps_def io_bind_def io_log_def)
qed

lemma complete_body_trace: "keeps (body_trace (target_key t)) (complete_body cfg w deadline r t a b)"
  unfolding complete_body_def
  by (intro body_trace_bind body_trace_call waits.keeps_admit waits.keeps_credential
      waits.keeps_remaining quiet.keeps_bind quiet.keeps_observe quiet.keeps_pure
      quiet.keeps_update quiet.keeps_conclude) simp

lemma stream_body_trace: "keeps (body_trace (target_key t)) (stream_body cfg w deadline r t a b)"
proof -
  let ?rest = "\<lambda>_. io_bind (observe (w_stream w)) (\<lambda>(chunks, ending).
     io_bind (closing w (read_chunks w deadline (req_id r) t True chunks ending)) (\<lambda>_.
     io_bind (io_get (streamed_response cfg (req_id r))) (\<lambda>built.
     io_bind (lift_result built) (\<lambda>p. conclude w t r a b p))))"
  have "keeps (logs quiet_effect) (?rest u)" for u
    by (auto intro!: quiet.keeps_bind quiet.keeps_observe quiet.keeps_closing
        quiet.keeps_read_chunks quiet.keeps_pure quiet.keeps_conclude)
  then show ?thesis
    unfolding stream_body_def
    by (intro body_trace_bind waits.keeps_admit waits.keeps_credential body_trace_call) simp_all
qed

text \<open>What a body returns: the record of a success, and a response that ends with it.\<close>

definition usage_totalled :: "model_response \<Rightarrow> bool" where
  "usage_totalled rsp \<longleftrightarrow>
     aggregate_usage (known (map at_usage (rsp_attempts rsp))) = Inr (rsp_total_usage rsp)"

definition concluded :: "model_target \<Rightarrow> call_state \<Rightarrow> attempt_record \<Rightarrow> model_response \<Rightarrow> bool" where
  "concluded t s a rsp \<longleftrightarrow>
     at_no a = int (length (cs_attempts s)) + 1 \<and> (at_provider a, at_model_id a) = target_key t \<and>
     at_outcome a = Attempt_Succeeded \<and> attempt_record_post_init a = Inr () \<and>
     at_fallback_reason a = cs_fallback_reason s \<and>
     rsp_attempts rsp = cs_attempts s @ [a] \<and> model_response_post_init rsp = Inr () \<and>
     usage_totalled rsp"

definition returns :: "'a io \<Rightarrow> (call_state \<Rightarrow> 'a \<Rightarrow> bool) \<Rightarrow> bool" where
  "returns m Q \<longleftrightarrow> (\<forall>s x s'. m s = (Inr x, s') \<longrightarrow> Q s' x)"

lemma returns_bind: "(\<And>x. returns (f x) Q) \<Longrightarrow> returns (io_bind m f) Q"
  unfolding returns_def io_bind_def by (auto split: prod.splits sum.splits)

lemma assemble_response_Inr:
  assumes "assemble_response r t v p as = Inr rsp"
  shows "rsp_attempts rsp = as" and "model_response_post_init rsp = Inr ()"
    and "usage_totalled rsp"
    and "rsp_tool_calls rsp = pr_tool_calls p" and "rsp_structured rsp = v"
    and "rsp_request_id rsp = req_id r"
  using assms
  by (auto simp: assemble_response_def result_bind_eq_Inr Let_def usage_totalled_def)

lemma build_response_Inr:
  "build_response r t p as = Inr rsp \<Longrightarrow>
     \<exists>v. structured_result r (pr_structured p) = Inr v \<and> (v = PyNone \<or> pr_tool_calls p = []) \<and>
       validate_tool_calls p r = Inr () \<and> assemble_response r t v p as = Inr rsp"
  unfolding build_response_def result_bind_eq_Inr
  by (elim exE conjE) (auto split: sum.splits)

lemma returns_conclude:
  "returns (conclude w t r started_at started p) (\<lambda>s (a, rsp). concluded t s a rsp)"
proof -
  have "concluded t s a rsp"
    if "conclude w t r started_at started p s0 = (Inr (a, rsp), s)" for s0 s a rsp
    using that
    by (auto simp: conclude_def make_attempt_def io_defs concluded_def target_key_def
        attempt_record_post_init_def dest!: build_response_Inr dest: assemble_response_Inr
        split: sum.splits)
  then show ?thesis by (auto simp: returns_def)
qed

lemma returns_complete_body:
  "returns (complete_body cfg w deadline r t started_at started) (\<lambda>s (a, rsp). concluded t s a rsp)"
  unfolding complete_body_def by (intro returns_bind returns_conclude)

lemma returns_stream_body:
  "returns (stream_body cfg w deadline r t started_at started) (\<lambda>s (a, rsp). concluded t s a rsp)"
  unfolding stream_body_def by (auto intro!: returns_bind returns_conclude)

end
