(* ===== verification/Gateway_Attempts.thy ===== *)
theory Gateway_Attempts
  imports Gateway_Laws "HOL-Library.Sublist"
begin

section \<open>Attempts, retries and fallback of a gateway call\<close>

text \<open>
  The history of the attempts of a call, for \<open>complete\<close> and \<open>stream\<close> alike. The locale
  \<open>attempt_contract\<close> states what the loops need of the body of an attempt, its interpretations are
  the two bodies, and the lemmas follow the loops from one attempt to the end of the call.
\<close>

subsection \<open>Errors with the standard flags\<close>

text \<open>
  A model error whose flags are those of its code, which is how every error of the code is
  constructed; \<open>world_standard\<close> says it of the errors that come from outside.
\<close>

definition standard_error :: "model_error \<Rightarrow> bool" where
  "standard_error e \<longleftrightarrow> me_retryable e = (me_code e \<in> retryable_codes) \<and>
     me_fallback_allowed e = (me_code e \<in> fallback_codes)"

lemma standard_new_model_error [simp]: "standard_error (new_model_error c m r)"
  by (simp add: standard_error_def new_model_error_def)

definition standard_raised :: "raised \<Rightarrow> bool" where
  "standard_raised x \<longleftrightarrow> (\<forall>e. x = Raised_Model e \<longrightarrow> standard_error e)"

lemma standard_raised_simps [simp]:
  "standard_raised Raised_Cancelled" "standard_raised Raised_Exit" "standard_raised Raised_Timeout"
  "standard_raised Raised_Exception" "standard_raised (Raised_Model e) = standard_error e"
  by (simp_all add: standard_raised_def)

lemma standard_raised_errors [simp]:
  "standard_raised (timeout_error m r)" "standard_raised (authentication_error m r)"
  "standard_raised (invalid_structured m r)"
  by (simp_all add: timeout_error_def authentication_error_def invalid_structured_def)

definition world_standard :: "world \<Rightarrow> bool" where
  "world_standard w \<longleftrightarrow>
     (\<forall>n. standard_raised (snd (w_waits w n))) \<and>
     (\<forall>n x. w_resolve w n = Resolution_Raises x \<longrightarrow> standard_raised x) \<and>
     (\<forall>n x. w_complete w n = Inl x \<longrightarrow> standard_raised x) \<and>
     (\<forall>n x. snd (w_stream w n) = Some x \<longrightarrow> standard_raised x) \<and>
     (\<forall>n x. w_close w n = Some x \<longrightarrow> standard_raised x)"

definition raises_standard :: "'a io \<Rightarrow> bool" where
  "raises_standard m \<longleftrightarrow> (\<forall>s x s'. m s = (Inl x, s') \<longrightarrow> standard_raised x)"

lemma raises_bind:
  "raises_standard m \<Longrightarrow> (\<And>x. raises_standard (f x)) \<Longrightarrow> raises_standard (io_bind m f)"
  unfolding raises_standard_def io_bind_def by (auto split: prod.splits sum.splits)

lemma raises_pure:
  "raises_standard (io_return x)" "raises_standard (io_get g)" "raises_standard (io_modify h)"
  "raises_standard (io_log es)" "raises_standard (observe o1)" "raises_standard (awaiting w o2)"
  "standard_raised e \<Longrightarrow> raises_standard (io_raise e)"
  "standard_raised e \<Longrightarrow> raises_standard (io_when b e)"
  by (auto simp: raises_standard_def io_defs split: if_splits)

lemma raises_lift: "(\<And>x. r = Inl x \<Longrightarrow> standard_raised x) \<Longrightarrow> raises_standard (lift_result r)"
  by (simp add: raises_standard_def lift_result_def)

lemma raises_expired_as:
  "raises_standard m \<Longrightarrow> standard_raised e \<Longrightarrow> raises_standard (expired_as e m)"
  unfolding raises_standard_def expired_as_def
  by (auto split: prod.splits sum.splits raised.splits) (metis standard_raised_simps(5))

lemma raises_observed:
  "(\<And>n. raises_standard (f (o1 n))) \<Longrightarrow> raises_standard (io_bind (observe o1) f)"
  "(\<And>n. raises_standard (f (o1 n))) \<Longrightarrow> raises_standard (io_bind (awaiting w o1) f)"
  by (auto simp: raises_standard_def io_bind_def observe_def awaiting_def)

lemma raises_remaining: "raises_standard (remaining w deadline rid)"
  unfolding remaining_def
  by (intro raises_bind raises_pure) (simp add: raises_pure)

lemma raises_make_attempt: "raises_standard (make_attempt w t a b oc code rid usage)"
  unfolding make_attempt_def by (intro raises_bind raises_pure)

lemma raises_admit:
  assumes "world_standard w"
  shows "raises_standard (admit w t rid deadline)"
proof -
  have "raises_standard (rate_limiter w t)"
    unfolding rate_limiter_def
    by (auto intro!: raises_bind raises_pure split: option.split sum.split)
  moreover have "raises_standard (acquire_token w t b)" for b
    using assms unfolding acquire_token_def Let_def
    by (intro raises_observed) (auto intro!: raises_bind raises_pure simp: world_standard_def
        split: prod.split, metis snd_conv)
  moreover have "raises_standard (circuit_breaker_for t)"
    unfolding circuit_breaker_for_def
    by (auto intro!: raises_bind raises_pure split: option.split sum.split)
  ultimately show ?thesis
    unfolding admit_def
    by (auto intro!: raises_bind raises_pure raises_expired_as raises_remaining
        dest!: before_call_rejects simp: open_error_def split: option.split sum.split)
qed

lemma raises_credential:
  assumes "world_standard w"
  shows "raises_standard (credential cfg w t rid deadline)"
proof (cases "target_credential t")
  case (Some reference)
  have "raises_standard (case w_resolve w n of
      Resolved secret \<Rightarrow> io_return (Some secret)
    | Resolution_Failed \<Rightarrow> io_raise (authentication_error ''Model credential is unavailable'' rid)
    | Resolution_Raises Raised_Timeout \<Rightarrow>
        io_raise (timeout_error ''Secret resolution exceeded the total deadline'' rid)
    | Resolution_Raises e \<Rightarrow> io_raise e)" for n
    using assms
    by (auto intro!: raises_pure simp: world_standard_def
        split: resolution.split raised.split)
  with Some show ?thesis
    by (auto simp: credential_def
        intro!: raises_bind [OF raises_remaining] raises_observed raises_pure)
qed (simp add: credential_def raises_pure)

lemma structured_result_standard: "structured_result r v = Inl x \<Longrightarrow> standard_raised x"
  by (auto simp: structured_result_def malformed_def
      split: option.splits if_splits)

lemma build_response_standard: "build_response r t p as = Inl x \<Longrightarrow> standard_raised x"
  unfolding build_response_def result_bind_eq_Inl
  by (elim disjE exE conjE)
    (auto simp: validate_tool_calls_def malformed_def dest: structured_result_standard
      split: sum.splits if_splits)

lemma raises_conclude: "raises_standard (conclude w t r a b p)"
  unfolding conclude_def
  by (intro raises_bind raises_make_attempt raises_pure raises_lift)
    (rule build_response_standard)

lemma raises_complete_body:
  assumes "world_standard w"
  shows "raises_standard (complete_body cfg w deadline r t a b)"
  unfolding complete_body_def
  using assms
  by (intro raises_bind [OF raises_admit] raises_bind [OF raises_credential]
      raises_bind [OF raises_remaining] raises_bind [OF raises_pure(4)] raises_observed
      raises_bind [OF raises_lift] raises_bind [OF raises_pure(3)] raises_conclude)
    (auto simp: world_standard_def)

lemma raises_yield_chunk: "raises_standard (yield_chunk w c)"
  unfolding yield_chunk_def by (intro raises_bind raises_pure) simp

lemma buffer_append_standard: "buffer_append rid d b = Inl x \<Longrightarrow> standard_raised x"
  by (auto simp: buffer_append_def fragments_error_def malformed_def split: option.splits)

lemma buffer_build_standard: "buffer_build cfg rid b = Inl x \<Longrightarrow> standard_raised x"
  by (auto simp: buffer_build_def fragments_error_def malformed_def
      split: option.splits loads_result.splits if_splits sum.splits)

lemma traverse_InlD: "traverse f xs = Inl e \<Longrightarrow> \<exists>x \<in> set xs. f x = Inl e"
  by (induction xs) (auto simp: result_bind_eq_Inl)

lemma streamed_response_standard: "streamed_response cfg rid s = Inl x \<Longrightarrow> standard_raised x"
  by (auto simp: streamed_response_def result_bind_eq_Inl dest!: traverse_InlD
      dest: buffer_build_standard)

lemma raises_handle_chunk: "raises_standard (handle_chunk w rid c)"
  unfolding handle_chunk_def yield_text_def yield_tool_delta_def yield_usage_def collect_rest_def
  by (auto intro!: raises_bind raises_pure raises_yield_chunk raises_lift
      simp: malformed_def dest: buffer_append_standard split: option.split list.split)

lemma raises_read_chunks:
  "(\<And>x. ending = Some x \<Longrightarrow> standard_raised x) \<Longrightarrow>
     raises_standard (read_chunks w deadline rid t first cs ending)"
  by (induction cs arbitrary: first)
    (auto simp: await_chunk_def intro!: raises_bind raises_remaining raises_pure raises_handle_chunk
      split: option.split)

lemma raises_closing:
  assumes "raises_standard m" and "\<And>n x. w_close w n = Some x \<Longrightarrow> standard_raised x"
  shows "raises_standard (closing w m)"
  using assms
  by (auto simp: raises_standard_def closing_def io_defs split: prod.splits sum.splits option.splits)

lemma raises_stream_body:
  assumes "world_standard w"
  shows "raises_standard (stream_body cfg w deadline r t a b)"
proof -
  have "raises_standard (case w_stream w n of (chunks, ending) \<Rightarrow>
      io_bind (closing w (read_chunks w deadline (req_id r) t True chunks ending)) (\<lambda>_.
      io_bind (io_get (streamed_response cfg (req_id r))) (\<lambda>built.
      io_bind (lift_result built) (\<lambda>p. conclude w t r a b p))))" for n
  proof -
    have "raises_standard (io_bind (io_get (streamed_response cfg (req_id r))) (\<lambda>built.
        io_bind (lift_result built) (\<lambda>p. conclude w t r a b p)))"
      using raises_conclude streamed_response_standard
      unfolding raises_standard_def io_bind_def io_get_def lift_result_def
      by (auto split: sum.splits prod.splits)
    with assms show ?thesis
      by (cases "w_stream w n")
        (auto intro!: raises_bind raises_closing raises_read_chunks simp: world_standard_def, metis snd_conv)
  qed
  with assms show ?thesis
    unfolding stream_body_def
    by (intro raises_bind [OF raises_admit] raises_bind [OF raises_credential]
        raises_bind [OF raises_pure(4)] raises_observed) auto
qed

end
