(* ===== verification/Gateway_Loops.thy ===== *)
theory Gateway_Loops
  imports Gateway_Attempts
begin

section \<open>The loops of a gateway call\<close>

text \<open>
  \<open>history\<close> is what the attempts of a call look like: numbered from one, each with a valid record,
  all but the last failed, and each one either a retry of its predecessor's target after a
  retryable error or the first attempt on the next target of the route after an error that allows
  fallback. \<open>call_ok\<close> adds what the trace and the chunks of the call look like then.
\<close>

definition attempt_key :: "attempt_record \<Rightarrow> target_id" where
  "attempt_key a = (at_provider a, at_model_id a)"

definition adjacent :: "'a list \<Rightarrow> 'a \<Rightarrow> 'a \<Rightarrow> bool" where
  "adjacent ks x y \<longleftrightarrow> (x, y) \<in> set (zip ks (tl ks))"

lemma adjacent_append: "adjacent (xs @ [x, y] @ ys) x y"
proof (induction xs)
  case (Cons a xs)
  then show ?case by (cases xs) (auto simp: adjacent_def)
qed (simp add: adjacent_def)

definition code_in :: "model_error_code set \<Rightarrow> attempt_record \<Rightarrow> bool" where
  "code_in codes a \<longleftrightarrow> (\<exists>c \<in> codes. at_error_code a = Some c)"

definition continues :: "target_id list \<Rightarrow> attempt_record \<Rightarrow> attempt_record \<Rightarrow> bool" where
  "continues ks a b \<longleftrightarrow>
     attempt_key b = attempt_key a \<and> code_in retryable_codes a \<and>
       at_fallback_reason b = at_fallback_reason a \<or>
     adjacent ks (attempt_key a) (attempt_key b) \<and> code_in fallback_codes a \<and>
       at_fallback_reason b = at_error_code a"

definition history :: "target_id list \<Rightarrow> attempt_record list \<Rightarrow> bool" where
  "history ks as \<longleftrightarrow>
     map at_no as = map int [1..<length as + 1] \<and>
     (\<forall>a \<in> set as. attempt_record_post_init a = Inr ()) \<and>
     (\<forall>a \<in> set (butlast as). at_outcome a = Attempt_Failed) \<and>
     (as \<noteq> [] \<longrightarrow> attempt_key (hd as) = hd ks \<and> at_fallback_reason (hd as) = None) \<and>
     successively (continues ks) as"

text \<open>The target and the fallback reason of a next attempt fit the attempts made so far.\<close>

definition next_fits :: "target_id list \<Rightarrow> attempt_record list \<Rightarrow> target_id \<Rightarrow>
    model_error_code option \<Rightarrow> bool" where
  "next_fits ks as k reason \<longleftrightarrow>
     (if as = [] then k = hd ks \<and> reason = None
      else k = attempt_key (last as) \<and> code_in retryable_codes (last as) \<and>
             reason = at_fallback_reason (last as) \<or>
           adjacent ks (attempt_key (last as)) k \<and> code_in fallback_codes (last as) \<and>
             reason = at_error_code (last as))"

lemma history_Nil [simp]: "history ks []"
  by (simp add: history_def)

lemma history_snoc:
  assumes "history ks as" and "\<forall>a \<in> set as. at_outcome a = Attempt_Failed"
    and "next_fits ks as (attempt_key a) (at_fallback_reason a)"
    and "at_no a = int (length as) + 1" and "attempt_record_post_init a = Inr ()"
  shows "history ks (as @ [a])"
  using assms
  by (cases "as = []")
    (auto simp: history_def next_fits_def continues_def successively_append_iff)

subsection \<open>The trace\<close>

fun is_call :: "effect \<Rightarrow> bool" where
  "is_call (Provider_Called k) = True"
| "is_call _ = False"

fun called_key :: "effect \<Rightarrow> target_id option" where
  "called_key (Provider_Called k) = Some k"
| "called_key _ = None"

fun emitted_attempt :: "effect \<Rightarrow> attempt_record option" where
  "emitted_attempt (Attempt_Emitted a) = Some a"
| "emitted_attempt _ = None"

definition called_keys :: "effect list \<Rightarrow> target_id list" where
  "called_keys es = List.map_filter called_key es"

definition emitted_attempts :: "effect list \<Rightarrow> attempt_record list" where
  "emitted_attempts es = List.map_filter emitted_attempt es"

text \<open>No provider call follows a visible chunk.\<close>

fun settled :: "effect list \<Rightarrow> bool" where
  "settled [] = True"
| "settled (e # es) = ((visible_effect e \<longrightarrow> (\<forall>f \<in> set es. \<not> is_call f)) \<and> settled es)"

lemma settled_append:
  "settled (xs @ ys) \<longleftrightarrow> settled xs \<and> settled ys \<and>
     ((\<exists>e \<in> set xs. visible_effect e) \<longrightarrow> (\<forall>f \<in> set ys. \<not> is_call f))"
  by (induction xs) auto

lemma settled_no_calls: "\<forall>e \<in> set es. \<not> is_call e \<Longrightarrow> settled es"
  by (induction es) auto

lemma map_filter_append [simp]:
  "List.map_filter f (xs @ ys) = List.map_filter f xs @ List.map_filter f ys"
  by (simp add: List.map_filter_def)

lemma called_keys_append [simp]: "called_keys (xs @ ys) = called_keys xs @ called_keys ys"
  by (simp add: called_keys_def)

lemma emitted_attempts_append [simp]:
  "emitted_attempts (xs @ ys) = emitted_attempts xs @ emitted_attempts ys"
  by (simp add: emitted_attempts_def)

lemma map_filter_None: "(\<And>x. x \<in> set xs \<Longrightarrow> f x = None) \<Longrightarrow> List.map_filter f xs = []"
  by (induction xs) (auto simp: List.map_filter_simps)

lemma quiet_effect_keys: "quiet_effect e \<Longrightarrow> called_key e = None \<and> emitted_attempt e = None \<and> \<not> is_call e"
  by (cases e) simp_all

lemma waiting_effect_keys: "waiting_effect e \<Longrightarrow> quiet_effect e \<and> \<not> visible_effect e"
  by (cases e) simp_all

lemma quiet_keys:
  assumes "\<forall>e \<in> set es. quiet_effect e"
  shows "called_keys es = []" and "emitted_attempts es = []"
  using assms by (auto simp: called_keys_def emitted_attempts_def quiet_effect_keys
      intro!: map_filter_None)

text \<open>What the trace of an attempt adds.\<close>

lemma body_trace_keys:
  assumes "body_trace k s s'"
  shows "\<exists>es. cs_effects s' = cs_effects s @ es \<and> emitted_attempts es = [] \<and>
    (called_keys es = [] \<or> called_keys es = [k]) \<and>
    (settled (cs_effects s) \<longrightarrow> (\<forall>e \<in> set (cs_effects s). \<not> visible_effect e) \<longrightarrow>
      settled (cs_effects s'))"
proof -
  from assms obtain before after where
    es: "cs_effects s' = cs_effects s @ before @ after"
    and before: "\<forall>e \<in> set before. waiting_effect e"
    and after: "after = [] \<or> hd after = Provider_Called k \<and> (\<forall>e \<in> set (tl after). quiet_effect e)"
    unfolding body_trace_def by blast
  have b: "\<forall>e \<in> set before. quiet_effect e" "\<forall>e \<in> set before. \<not> visible_effect e"
    "\<forall>e \<in> set before. \<not> is_call e"
    using before by (auto dest: waiting_effect_keys quiet_effect_keys)
  show ?thesis
  proof (cases after)
    case Nil
    with es b quiet_keys [OF b(1)] show ?thesis
      by (auto simp: settled_append settled_no_calls)
  next
    case (Cons e qs)
    with after have e: "e = Provider_Called k" and qs: "\<forall>e \<in> set qs. quiet_effect e" by auto
    then have "settled after" using Cons by (auto intro!: settled_no_calls dest: quiet_effect_keys)
    with es b Cons e quiet_keys [OF b(1)] quiet_keys [OF qs] show ?thesis
      by (auto simp: settled_append settled_no_calls called_keys_def emitted_attempts_def
          List.map_filter_simps)
  qed
qed

subsection \<open>One attempt\<close>

definition call_ok :: "gateway_config \<Rightarrow> rat \<Rightarrow> target_id list \<Rightarrow> attempt_record list \<Rightarrow>
    call_state \<Rightarrow> bool" where
  "call_ok cfg deadline ks as s \<longleftrightarrow>
     history ks as \<and> numbered s \<and> shown s \<and> settled (cs_effects s) \<and>
     (\<forall>e \<in> set (cs_effects s). in_time deadline e) \<and>
     emitted_attempts (cs_effects s) = (if gc_has_sink cfg then as else []) \<and>
     subseq (called_keys (cs_effects s)) (map attempt_key as)"

definition body_only :: "call_state \<Rightarrow> bool" where
  "body_only s \<longleftrightarrow> (\<forall>c \<in> set (cs_chunks s). body_chunk c)"

definition sink_log :: "gateway_config \<Rightarrow> attempt_record \<Rightarrow> effect list" where
  "sink_log cfg a = (if gc_has_sink cfg then [Attempt_Emitted a] else [])"

lemma sink_log_simps [simp]:
  "emitted_attempts (sink_log cfg a) = (if gc_has_sink cfg then [a] else [])"
  "called_keys (sink_log cfg a) = []" "settled (sink_log cfg a)"
  "e \<in> set (sink_log cfg a) \<Longrightarrow> in_time d e \<and> \<not> is_call e \<and> \<not> visible_effect e"
  by (auto simp: sink_log_def emitted_attempts_def called_keys_def List.map_filter_simps
      split: if_splits)

lemma call_ok_finish:
  assumes ok: "call_ok cfg deadline ks as s" and hidden: "\<not> cs_visible s"
    and rels: "numbers s s1" "shows_visible s s1" "logs (in_time deadline) s s1" "body_trace k s s1"
    and a: "attempt_key a = k" "history ks (as @ [a])"
    and s2: "cs_chunks s2 = cs_chunks s1" "cs_sequence s2 = cs_sequence s1"
      "cs_visible s2 = cs_visible s1" "cs_effects s2 = cs_effects s1 @ sink_log cfg a"
  shows "call_ok cfg deadline ks (as @ [a]) s2"
proof -
  have none: "\<forall>e \<in> set (cs_effects s). \<not> visible_effect e"
    using ok hidden by (auto simp: call_ok_def shown_def)
  from body_trace_keys [OF rels(4)] obtain es where
    es: "cs_effects s1 = cs_effects s @ es" "emitted_attempts es = []"
      "called_keys es = [] \<or> called_keys es = [k]"
    and settled: "settled (cs_effects s1)"
    using ok none by (auto simp: call_ok_def)
  have "numbered s2" using ok rels(1) s2 by (simp add: call_ok_def numbers_def numbered_def)
  moreover have "shown s2"
    using ok rels(2) s2 by (auto simp: call_ok_def shows_visible_def shown_def)
  moreover have "settled (cs_effects s2)" using settled s2 by (auto simp: settled_append)
  moreover have "\<forall>e \<in> set (cs_effects s2). in_time deadline e"
    using ok rels(3) s2 by (auto simp: call_ok_def logs_def)
  moreover have "emitted_attempts (cs_effects s2) = (if gc_has_sink cfg then as @ [a] else [])"
    using ok es s2 by (simp add: call_ok_def)
  moreover have "subseq (called_keys (cs_effects s2)) (map attempt_key (as @ [a]))"
  proof -
    have "subseq (called_keys es) [attempt_key a]" using es a by auto
    then have "subseq (called_keys (cs_effects s) @ called_keys es) (map attempt_key as @ [attempt_key a])"
      using ok by (intro list_emb_append_mono) (simp_all add: call_ok_def)
    then show ?thesis using es s2 by simp
  qed
  ultimately show ?thesis using a by (simp add: call_ok_def)
qed

lemma set_breaker_simps [simp]:
  "cs_attempts (set_breaker k b s) = cs_attempts s" "cs_effects (set_breaker k b s) = cs_effects s"
  "cs_chunks (set_breaker k b s) = cs_chunks s" "cs_sequence (set_breaker k b s) = cs_sequence s"
  "cs_visible (set_breaker k b s) = cs_visible s" "cs_tick (set_breaker k b s) = cs_tick s"
  "cs_fallback_reason (set_breaker k b s) = cs_fallback_reason s"
  "cs_usage (set_breaker k b s) = cs_usage s"
  "cs_provider_request_id (set_breaker k b s) = cs_provider_request_id s"
  by (simp_all add: set_breaker_def)

lemma update_breaker_simps [simp]:
  "cs_attempts (update_breaker k f s) = cs_attempts s" "cs_effects (update_breaker k f s) = cs_effects s"
  "cs_chunks (update_breaker k f s) = cs_chunks s" "cs_sequence (update_breaker k f s) = cs_sequence s"
  "cs_visible (update_breaker k f s) = cs_visible s" "cs_tick (update_breaker k f s) = cs_tick s"
  "cs_fallback_reason (update_breaker k f s) = cs_fallback_reason s"
  "cs_usage (update_breaker k f s) = cs_usage s"
  "cs_provider_request_id (update_breaker k f s) = cs_provider_request_id s"
  by (simp_all add: update_breaker_def split: option.split)

text \<open>The record of an attempt that fits the state \<open>s\<close> it was made in.\<close>

definition fits :: "model_target \<Rightarrow> call_state \<Rightarrow> attempt_record \<Rightarrow> bool" where
  "fits t s a \<longleftrightarrow> at_no a = int (length (cs_attempts s)) + 1 \<and> attempt_key a = target_key t \<and>
     attempt_record_post_init a = Inr () \<and> at_fallback_reason a = cs_fallback_reason s"

lemma emit_attempt_state:
  "snd (emit_attempt cfg a s) = s\<lparr>cs_effects := cs_effects s @ sink_log cfg a\<rparr>"
  by (simp add: emit_attempt_def io_defs sink_log_def)

lemma attempt_failed_state:
  "\<exists>a. fits t s a \<and> at_outcome a = Attempt_Failed \<and> at_error_code a = Some (me_code e) \<and>
     cs_attempts (snd (attempt_failed cfg w t b c e s)) = cs_attempts s @ [a] \<and>
     cs_effects (snd (attempt_failed cfg w t b c e s)) = cs_effects s @ sink_log cfg a \<and>
     cs_chunks (snd (attempt_failed cfg w t b c e s)) = cs_chunks s \<and>
     cs_sequence (snd (attempt_failed cfg w t b c e s)) = cs_sequence s \<and>
     cs_visible (snd (attempt_failed cfg w t b c e s)) = cs_visible s \<and>
     cs_fallback_reason (snd (attempt_failed cfg w t b c e s)) = cs_fallback_reason s"
  by (auto simp: attempt_failed_def make_attempt_def io_defs emit_attempt_def sink_log_def fits_def
      attempt_key_def target_key_def attempt_record_post_init_def)

lemma make_attempt_cancelled:
  "\<exists>a. make_attempt w t b c Attempt_Cancelled (Some Call_Cancelled) rid usage s
      = (Inr a, s\<lparr>cs_tick := cs_tick s + 1\<rparr>) \<and>
     fits t s a \<and> at_outcome a = Attempt_Cancelled"
  by (simp add: make_attempt_def io_defs fits_def attempt_key_def target_key_def
      attempt_record_post_init_def)

lemma attempt_cancelled_state:
  "\<exists>a. fits t s a \<and> at_outcome a = Attempt_Cancelled \<and>
     cs_attempts (snd (attempt_cancelled cfg w t b c s)) = cs_attempts s \<and>
     cs_effects (snd (attempt_cancelled cfg w t b c s)) = cs_effects s @ sink_log cfg a \<and>
     cs_chunks (snd (attempt_cancelled cfg w t b c s)) = cs_chunks s \<and>
     cs_sequence (snd (attempt_cancelled cfg w t b c s)) = cs_sequence s \<and>
     cs_visible (snd (attempt_cancelled cfg w t b c s)) = cs_visible s \<and>
     cs_fallback_reason (snd (attempt_cancelled cfg w t b c s)) = cs_fallback_reason s"
proof -
  let ?s = "if cs_admitted s then update_breaker (target_key t) record_cancelled s else s"
  obtain a where a: "make_attempt w t b c Attempt_Cancelled (Some Call_Cancelled)
      (cs_provider_request_id ?s) (cs_usage ?s) ?s = (Inr a, ?s\<lparr>cs_tick := cs_tick ?s + 1\<rparr>)"
    "fits t ?s a" "at_outcome a = Attempt_Cancelled"
    using make_attempt_cancelled by blast
  then have "snd (attempt_cancelled cfg w t b c s)
      = (?s\<lparr>cs_tick := cs_tick ?s + 1\<rparr>)\<lparr>cs_effects := cs_effects ?s @ sink_log cfg a\<rparr>"
    by (simp add: attempt_cancelled_def io_bind_def io_modify_def io_get_def emit_attempt_state)
  moreover from a(2) have "fits t s a" by (simp add: fits_def split: if_splits)
  ultimately show ?thesis using a(3) by (intro exI [of _ a]) simp
qed

lemma fresh_attempt_simps [simp]:
  "cs_attempts (fresh_attempt s) = cs_attempts s" "cs_effects (fresh_attempt s) = cs_effects s"
  "cs_chunks (fresh_attempt s) = cs_chunks s" "cs_sequence (fresh_attempt s) = cs_sequence s"
  "cs_visible (fresh_attempt s) = cs_visible s" "cs_tick (fresh_attempt s) = cs_tick s"
  "cs_fallback_reason (fresh_attempt s) = cs_fallback_reason s"
  by (simp_all add: fresh_attempt_def)

definition attempt_ended :: "attempt_end \<Rightarrow> attempt_record list \<Rightarrow> attempt_record \<Rightarrow> call_state \<Rightarrow> bool" where
  "attempt_ended r as a s = (case r of
      Answered rsp \<Rightarrow> cs_attempts s = as \<and> at_outcome a = Attempt_Succeeded \<and>
        rsp_attempts rsp = as @ [a] \<and> model_response_post_init rsp = Inr () \<and>
        usage_totalled rsp
    | Attempt_Error e \<Rightarrow> cs_attempts s = as @ [a] \<and> at_outcome a = Attempt_Failed \<and>
        at_error_code a = Some (me_code e) \<and> standard_error e
    | Interrupted x \<Rightarrow> cs_attempts s = as \<and> at_outcome a = Attempt_Cancelled \<and>
        (x = Raised_Cancelled \<or> x = Raised_Exit))"

text \<open>What the loops need of a state in which the next attempt on \<open>t\<close> may start.\<close>

definition may_start :: "gateway_config \<Rightarrow> rat \<Rightarrow> target_id list \<Rightarrow> model_target \<Rightarrow> call_state \<Rightarrow> bool" where
  "may_start cfg deadline ks t s \<longleftrightarrow>
     call_ok cfg deadline ks (cs_attempts s) s \<and> body_only s \<and> \<not> cs_visible s \<and>
     (\<forall>a \<in> set (cs_attempts s). at_outcome a = Attempt_Failed) \<and>
     next_fits ks (cs_attempts s) (target_key t) (cs_fallback_reason s)"

lemma history_fits:
  "may_start cfg deadline ks t s \<Longrightarrow> fits t s a \<Longrightarrow> history ks (cs_attempts s @ [a])"
  by (rule history_snoc) (auto simp: may_start_def call_ok_def fits_def)

lemma caught_error_standard:
  "caught_error message rid x = Some e \<Longrightarrow> standard_raised x \<Longrightarrow> standard_error e"
  by (cases x) (auto simp: unknown_error_def)

lemma caught_error_None: "caught_error message rid x = None \<longleftrightarrow> x = Raised_Cancelled \<or> x = Raised_Exit"
  by (cases x) auto

lemma admit_rel_fields:
  assumes "admit_rel s s'"
  shows "cs_attempts s' = cs_attempts s" and "cs_fallback_reason s' = cs_fallback_reason s"
    and "cs_chunks s' = cs_chunks s" and "cs_visible s' = cs_visible s"
    and "cs_sequence s' = cs_sequence s"
    and "\<exists>es. cs_effects s' = cs_effects s @ es \<and> (\<forall>e \<in> set es. \<exists>d. e = Slept d)"
  using assms by (auto simp: admit_rel_def)

lemma call_ok_admit:
  assumes "call_ok cfg deadline ks as s" and "admit_rel s s'"
  shows "call_ok cfg deadline ks as s'"
proof -
  from admit_rel_fields(6) [OF assms(2)] obtain es where
    es: "cs_effects s' = cs_effects s @ es" "\<forall>e \<in> set es. \<exists>d. e = Slept d" by blast
  then have quiet: "\<forall>e \<in> set es. quiet_effect e" by auto
  have "settled es" and "\<forall>e \<in> set es. \<not> is_call e \<and> \<not> visible_effect e \<and> in_time deadline e"
    using es by (auto intro!: settled_no_calls)
  with es quiet_keys [OF quiet] assms(1) admit_rel_fields(1-5) [OF assms(2)] show ?thesis
    by (auto simp: call_ok_def numbered_def shown_def settled_append)
qed

lemma call_ok_yield:
  assumes "call_ok cfg deadline ks as s" and "\<not> visible_kind (ck_kind c)"
  shows "call_ok cfg deadline ks as (snd (yield_chunk w c s))"
  using assms numbered_yield [of s w c]
  by (auto simp: call_ok_def shown_def settled_append yield_chunk_state emitted_attempts_def
      called_keys_def List.map_filter_simps)

text \<open>How a call on one target ends, and how the whole call ends.\<close>

definition error_ended :: "attempt_record list \<Rightarrow> call_state \<Rightarrow> bool" where
  "error_ended as s \<longleftrightarrow> (\<exists>cs c e. cs_chunks s = cs @ [c] \<and> (\<forall>d \<in> set cs. body_chunk d) \<and>
     ck_kind c = Error_Chunk \<and> ck_error c = Some e \<and> me_attempts e = as \<and> payload_ok c)"

definition answered :: "model_response \<Rightarrow> attempt_record list \<Rightarrow> call_state \<Rightarrow> bool" where
  "answered rsp as s \<longleftrightarrow> body_only s \<and> as \<noteq> [] \<and> cs_attempts s = butlast as \<and>
     at_outcome (last as) = Attempt_Succeeded \<and> rsp_attempts rsp = as \<and>
     model_response_post_init rsp = Inr () \<and>
     usage_totalled rsp"

definition all_failed :: "attempt_record list \<Rightarrow> bool" where
  "all_failed as \<longleftrightarrow> (\<forall>a \<in> set as. at_outcome a = Attempt_Failed)"

definition raised_ended :: "raised \<Rightarrow> attempt_record list \<Rightarrow> call_state \<Rightarrow> bool" where
  "raised_ended x as s \<longleftrightarrow>
     (\<forall>e. x = Raised_Model e \<longrightarrow> me_attempts e = as \<and> cs_attempts s = as) \<and>
     all_failed (cs_attempts s) \<and>
     (x = Raised_Cancelled \<or> x = Raised_Exit \<or> \<not> cs_visible s) \<and>
     (body_only s \<or> x = Raised_Exit \<and> error_ended as s)"

definition loop_ended :: "model_target \<Rightarrow> loop_end \<Rightarrow> attempt_record list \<Rightarrow> call_state \<Rightarrow> bool" where
  "loop_ended t r as s = (case r of
      Loop_Answered rsp \<Rightarrow> answered rsp as s
    | Loop_Raised x \<Rightarrow> raised_ended x as s
    | Loop_Stopped \<Rightarrow> cs_attempts s = as \<and> all_failed as \<and> error_ended as s
    | Loop_Exhausted e \<Rightarrow> cs_attempts s = as \<and> as \<noteq> [] \<and> all_failed as \<and> body_only s \<and>
        \<not> cs_visible s \<and> attempt_key (last as) = target_key t \<and>
        at_error_code (last as) = Some (me_code e) \<and> standard_error e)"

definition retry_budget :: "model_target list \<Rightarrow> nat" where
  "retry_budget ts = sum_list (map (\<lambda>t. nat (max_retries (target_limits t) + 1)) ts)"

definition call_ended :: "call_end \<Rightarrow> attempt_record list \<Rightarrow> call_state \<Rightarrow> bool" where
  "call_ended r as s = (case r of
      Call_Answered rsp \<Rightarrow> answered rsp as s
    | Call_Raised x \<Rightarrow> raised_ended x as s
    | Call_Stopped \<Rightarrow> cs_attempts s = as \<and> all_failed as \<and> error_ended as s)"

text \<open>The state between two targets: those of \<open>before\<close> have been tried.\<close>

definition between :: "gateway_config \<Rightarrow> rat \<Rightarrow> target_id list \<Rightarrow> model_target list \<Rightarrow>
    model_error option \<Rightarrow> call_state \<Rightarrow> bool" where
  "between cfg deadline ks before last_error s \<longleftrightarrow>
     call_ok cfg deadline ks (cs_attempts s) s \<and> body_only s \<and> \<not> cs_visible s \<and>
     all_failed (cs_attempts s) \<and>
     (if before = [] then cs_attempts s = [] \<and> cs_fallback_reason s = None
      else cs_attempts s \<noteq> [] \<and> attempt_key (last (cs_attempts s)) = target_key (last before) \<and>
        code_in fallback_codes (last (cs_attempts s)) \<and>
        cs_fallback_reason s = at_error_code (last (cs_attempts s)) \<and> last_error \<noteq> None)"

lemma between_may_start:
  assumes "between cfg deadline (map target_key (before @ t # ts)) before err s"
  shows "may_start cfg deadline (map target_key (before @ t # ts)) t s"
proof -
  have "next_fits (map target_key (before @ t # ts)) (cs_attempts s) (target_key t)
      (cs_fallback_reason s)"
  proof (cases before rule: rev_cases)
    case (snoc bs b)
    have "adjacent (map target_key (before @ t # ts)) (target_key b) (target_key t)"
      using adjacent_append [of "map target_key bs" "target_key b" "target_key t" "map target_key ts"]
        snoc by simp
    with assms snoc show ?thesis by (simp add: between_def next_fits_def)
  qed (use assms in \<open>simp add: between_def next_fits_def\<close>)
  with assms show ?thesis by (simp add: between_def may_start_def all_failed_def)
qed

locale attempt_contract =
  fixes cfg :: gateway_config and w :: world and deadline :: rat and body :: attempt_body
  assumes frame: "keeps same_frame (body t b c)"
    and timely: "keeps (logs (in_time deadline)) (body t b c)"
    and numbering: "keeps numbers (body t b c)"
    and chunks: "keeps adds_chunks (body t b c)"
    and visibility: "keeps shows_visible (body t b c)"
    and trace: "keeps (body_trace (target_key t)) (body t b c)"
    and answers: "returns (body t b c) (\<lambda>s (a, rsp). concluded t s a rsp)"
    and standard: "world_standard w \<Longrightarrow> raises_standard (body t b c)"
begin

lemma attempt_step:
  assumes w: "world_standard w" and start: "may_start cfg deadline ks t s"
    and run: "run_attempt cfg w message rid body t s = (r, s')"
  shows "\<exists>a. call_ok cfg deadline ks (cs_attempts s @ [a]) s' \<and> body_only s' \<and>
    cs_fallback_reason s' = cs_fallback_reason s \<and> fits t s a \<and>
    attempt_ended r (cs_attempts s) a s'"
proof -
  define s0 where "s0 = (fresh_attempt s)\<lparr>cs_tick := cs_tick s + 2\<rparr>"
  define b where "b = w_utc w (cs_tick s)"
  define c where "c = w_clock w (cs_tick s + 1)"
  have s0: "cs_attempts s0 = cs_attempts s" "cs_effects s0 = cs_effects s" "cs_chunks s0 = cs_chunks s"
    "cs_sequence s0 = cs_sequence s" "cs_visible s0 = cs_visible s"
    "cs_fallback_reason s0 = cs_fallback_reason s"
    by (simp_all add: s0_def)
  have ok: "call_ok cfg deadline ks (cs_attempts s) s0" and hidden: "\<not> cs_visible s0"
    and only: "body_only s0"
    using start s0 by (auto simp: may_start_def call_ok_def numbered_def shown_def body_only_def)
  obtain x s1 where body: "body t b c s0 = (x, s1)" by (cases "body t b c s0")
  note rels = keepsD [OF numbering body] keepsD [OF visibility body] keepsD [OF timely body]
    keepsD [OF trace body]
  have s1: "cs_attempts s1 = cs_attempts s" "cs_fallback_reason s1 = cs_fallback_reason s"
    using keepsD [OF frame body] s0 by (simp_all add: same_frame_def)
  have only1: "body_only s1"
    using keepsD [OF chunks body] only by (auto simp: adds_chunks_def body_only_def)
  have fin: "call_ok cfg deadline ks (cs_attempts s @ [a]) s2 \<and> body_only s2"
    if "fits t s a" and "cs_chunks s2 = cs_chunks s1" "cs_sequence s2 = cs_sequence s1"
      "cs_visible s2 = cs_visible s1" "cs_effects s2 = cs_effects s1 @ sink_log cfg a" for a s2
    using call_ok_finish [OF ok hidden rels _ history_fits [OF start that(1)], of s2] that only1
    by (simp add: fits_def body_only_def)
  have run_def: "run_attempt cfg w message rid body t s = (case (x, s1) of
      (Inr (a, rsp), s1) \<Rightarrow> (Answered rsp, snd (emit_attempt cfg a
        (update_breaker (target_key t) record_success s1)))
    | (Inl x, s1) \<Rightarrow> (case caught_error message rid x of
        None \<Rightarrow> (Interrupted x, snd (attempt_cancelled cfg w t b c s1))
      | Some e \<Rightarrow> (Attempt_Error e, snd (attempt_failed cfg w t b c e s1))))"
    using body by (simp add: run_attempt_def Let_def s0_def b_def c_def
      cong: sum.case_cong option.case_cong)
  show ?thesis
  proof (cases x)
    case (Inr result)
    obtain a rsp where result: "result = (a, rsp)" by (cases result)
    have conc: "concluded t s1 a rsp" using answers body Inr result by (auto simp: returns_def)
    have fit: "fits t s a"
      using conc s1 by (simp add: concluded_def fits_def attempt_key_def target_key_def)
    have r: "r = Answered rsp" and s': "s' = snd (emit_attempt cfg a
        (update_breaker (target_key t) record_success s1))"
      using run run_def Inr result by simp_all
    have "attempt_ended r (cs_attempts s) a s'"
      using conc s1 r s' by (simp add: attempt_ended_def concluded_def emit_attempt_state)
    with fit fin [OF fit, of s'] s1 s' show ?thesis
      by (intro exI [of _ a]) (simp add: emit_attempt_state)
  next
    case (Inl y)
    have std: "standard_raised y" using standard [OF w, of t b c] body Inl
      unfolding raises_standard_def by blast
    show ?thesis
    proof (cases "caught_error message rid y")
      case None
      obtain a where a: "fits t s1 a" "at_outcome a = Attempt_Cancelled"
        "cs_attempts (snd (attempt_cancelled cfg w t b c s1)) = cs_attempts s1"
        "cs_effects (snd (attempt_cancelled cfg w t b c s1)) = cs_effects s1 @ sink_log cfg a"
        "cs_chunks (snd (attempt_cancelled cfg w t b c s1)) = cs_chunks s1"
        "cs_sequence (snd (attempt_cancelled cfg w t b c s1)) = cs_sequence s1"
        "cs_visible (snd (attempt_cancelled cfg w t b c s1)) = cs_visible s1"
        "cs_fallback_reason (snd (attempt_cancelled cfg w t b c s1)) = cs_fallback_reason s1"
        using attempt_cancelled_state [of t s1 cfg w b c] by blast
      have r: "r = Interrupted y" and s': "s' = snd (attempt_cancelled cfg w t b c s1)"
        using run run_def Inl None by simp_all
      have fit: "fits t s a" using a(1) s1 by (simp add: fits_def)
      have "attempt_ended r (cs_attempts s) a s'"
        using a s1 r s' None caught_error_None [of message rid y] by (simp add: attempt_ended_def)
      with fit fin [OF fit, of s'] a s1 s' show ?thesis by (intro exI [of _ a]) simp
    next
      case (Some e)
      obtain a where a: "fits t s1 a" "at_outcome a = Attempt_Failed" "at_error_code a = Some (me_code e)"
        "cs_attempts (snd (attempt_failed cfg w t b c e s1)) = cs_attempts s1 @ [a]"
        "cs_effects (snd (attempt_failed cfg w t b c e s1)) = cs_effects s1 @ sink_log cfg a"
        "cs_chunks (snd (attempt_failed cfg w t b c e s1)) = cs_chunks s1"
        "cs_sequence (snd (attempt_failed cfg w t b c e s1)) = cs_sequence s1"
        "cs_visible (snd (attempt_failed cfg w t b c e s1)) = cs_visible s1"
        "cs_fallback_reason (snd (attempt_failed cfg w t b c e s1)) = cs_fallback_reason s1"
        using attempt_failed_state [of t s1 e cfg w b c] by blast
      have r: "r = Attempt_Error e" and s': "s' = snd (attempt_failed cfg w t b c e s1)"
        using run run_def Inl Some by simp_all
      have fit: "fits t s a" using a(1) s1 by (simp add: fits_def)
      have "attempt_ended r (cs_attempts s) a s'"
        using a s1 r s' caught_error_standard [OF Some std] by (simp add: attempt_ended_def)
      with fit fin [OF fit, of s'] a s1 s' show ?thesis by (intro exI [of _ a]) simp
    qed
  qed
qed

lemma attempt_loop_ok:
  assumes w: "world_standard w"
  shows "may_start cfg deadline ks t s \<Longrightarrow>
    attempt_loop cfg w message rid deadline body t left i s = (r, s') \<Longrightarrow>
    int left = max_retries (target_limits t) - int i + 1 \<Longrightarrow>
    int i \<le> max_retries (target_limits t) \<Longrightarrow>
    \<exists>as. length as \<le> length (cs_attempts s) + left \<and> call_ok cfg deadline ks as s' \<and>
      loop_ended t r as s' \<and> cs_fallback_reason s' = cs_fallback_reason s"
proof (induction left arbitrary: i s)
  case (Suc left)
  obtain end1 s1 where run: "run_attempt cfg w message rid body t s = (end1, s1)"
    by (cases "run_attempt cfg w message rid body t s")
  from attempt_step [OF w Suc.prems(1) run] obtain a where
    ok: "call_ok cfg deadline ks (cs_attempts s @ [a]) s1" and only: "body_only s1"
    and reason: "cs_fallback_reason s1 = cs_fallback_reason s" and fit: "fits t s a"
    and ended: "attempt_ended end1 (cs_attempts s) a s1" by blast
  let ?as = "cs_attempts s @ [a]"
  have failed: "\<forall>a \<in> set (cs_attempts s). at_outcome a = Attempt_Failed"
    and all: "all_failed (cs_attempts s)"
    using Suc.prems(1) by (simp_all add: may_start_def all_failed_def)
  show ?case
  proof (cases end1)
    case (Answered rsp)
    then have "r = Loop_Answered rsp" "s' = s1" using Suc.prems(2) run by auto
    with ok only reason ended Answered show ?thesis
      by (intro exI [of _ ?as]) (simp add: loop_ended_def answered_def attempt_ended_def)
  next
    case (Interrupted x)
    then have "r = Loop_Raised x" "s' = s1" using Suc.prems(2) run by auto
    with ok only reason ended Interrupted all show ?thesis
      by (intro exI [of _ ?as]) (auto simp: loop_ended_def raised_ended_def attempt_ended_def)
  next
    case (Attempt_Error e)
    have as: "cs_attempts s1 = ?as" and all1: "all_failed ?as" and a: "at_outcome a = Attempt_Failed"
      "at_error_code a = Some (me_code e)" and std: "standard_error e"
      using ended Attempt_Error failed by (simp_all add: attempt_ended_def all_failed_def)
    show ?thesis
    proof (cases "cs_visible s1")
      case True
      let ?c = "empty_chunk\<lparr>ck_kind := Error_Chunk, ck_error := Some (with_attempts e (cs_attempts s1))\<rparr>"
      obtain y s2 where yield: "yield_chunk w ?c s1 = (y, s2)" by (cases "yield_chunk w ?c s1")
      have s2: "s2 = snd (yield_chunk w ?c s1)" using yield by simp
      have ended2: "error_ended ?as s2"
        using only as by (auto simp: s2 yield_chunk_state error_ended_def body_only_def with_attempts_def)
      have y: "y = (if w_closes_at w = Some (cs_sequence s1) then Inl Raised_Exit else Inr ())"
        using yield_chunk_result [of w ?c s1] yield by simp
      have "s' = s2 \<and> (r = Loop_Raised Raised_Exit \<or> r = Loop_Stopped)"
        using Suc.prems(2) run Attempt_Error True yield y by (simp split: if_splits)
      moreover have "call_ok cfg deadline ks ?as s2"
        unfolding s2 by (rule call_ok_yield [OF ok]) (simp add: visible_kind_def)
      moreover have "cs_attempts s2 = ?as" "cs_fallback_reason s2 = cs_fallback_reason s"
        using as reason by (simp_all add: s2 yield_chunk_state)
      ultimately show ?thesis using ended2 all1
        by (intro exI [of _ ?as]) (auto simp: loop_ended_def raised_ended_def)
    next
      case hidden: False
      show ?thesis
      proof (cases "me_retryable e \<and> int i < max_retries (target_limits t)")
        case False
        then have "r = Loop_Exhausted e" "s' = s1"
          using Suc.prems(2) run Attempt_Error hidden by auto
        with ok only reason as a std failed fit hidden show ?thesis
          by (intro exI [of _ ?as]) (simp add: loop_ended_def all_failed_def fits_def)
      next
        case True
        obtain y s2 where waited: "backoff w t i rid deadline s1 = (y, s2)"
          by (cases "backoff w t i rid deadline s1")
        have rel: "admit_rel s1 s2" using backoff_result [of s1 w t i rid deadline] waited by simp
        note fields = admit_rel_fields [OF rel]
        have ok2: "call_ok cfg deadline ks ?as s2" by (rule call_ok_admit [OF ok rel])
        have only2: "body_only s2" using only fields by (simp add: body_only_def)
        show ?thesis
        proof (cases y)
          case (Inl x)
          have "s' = s2 \<and> r = Loop_Raised (case x of
              Raised_Model d \<Rightarrow> Raised_Model (with_attempts d (cs_attempts s2)) | _ \<Rightarrow> x)"
            using Suc.prems(2) run Attempt_Error hidden True waited Inl by (cases x) auto
          with ok2 only2 fields as all1 reason hidden show ?thesis
            by (intro exI [of _ ?as])
              (cases x; simp add: loop_ended_def raised_ended_def with_attempts_def)
        next
          case (Inr u)
          have retry: "next_fits ks (cs_attempts s2) (target_key t) (cs_fallback_reason s2)"
            using fields as a fit reason True std
            by (simp add: next_fits_def fits_def code_in_def standard_error_def)
          have "may_start cfg deadline ks t s2"
            using ok2 only2 fields as failed a hidden retry by (auto simp: may_start_def)
          moreover have "attempt_loop cfg w message rid deadline body t left (Suc i) s2 = (r, s')"
            using Suc.prems(2) run Attempt_Error hidden True waited Inr by simp
          ultimately obtain as where "length as \<le> length (cs_attempts s2) + left"
            "call_ok cfg deadline ks as s'" "loop_ended t r as s'"
            "cs_fallback_reason s' = cs_fallback_reason s2"
            using Suc.IH [of s2 "Suc i"] Suc.prems(3) True by auto
          then show ?thesis using fields as reason by (intro exI [of _ as]) simp
        qed
      qed
    qed
  qed
qed simp

lemma target_loop_ok:
  assumes w: "world_standard w"
  shows "between cfg deadline (map target_key (before @ ts)) before err s \<Longrightarrow>
    target_loop cfg w message rid deadline body ts err s = (r, s') \<Longrightarrow>
    (\<forall>t \<in> set ts. 0 \<le> max_retries (target_limits t) \<and> target_provider t \<in> set (gc_providers cfg)) \<Longrightarrow>
    before @ ts \<noteq> [] \<Longrightarrow>
    \<exists>as. length as \<le> length (cs_attempts s) + retry_budget ts \<and>
      call_ok cfg deadline (map target_key (before @ ts)) as s' \<and> call_ended r as s'"
proof (induction ts arbitrary: before err s)
  case Nil
  then show ?case
    by (intro exI [of _ "cs_attempts s"])
      (auto simp: between_def call_ended_def raised_ended_def with_attempts_def)
next
  case (Cons t ts)
  let ?n = "nat (max_retries (target_limits t) + 1)"
  let ?ks = "map target_key (before @ t # ts)"
  have provider: "find_provider cfg t rid = Inr ()" and retries: "0 \<le> max_retries (target_limits t)"
    using Cons.prems(3) by (simp_all add: find_provider_def)
  obtain end1 s1 where loop: "attempt_loop cfg w message rid deadline body t ?n 0 s = (end1, s1)"
    by (cases "attempt_loop cfg w message rid deadline body t ?n 0 s")
  from attempt_loop_ok [OF w between_may_start [OF Cons.prems(1)] loop] retries obtain as where
    len: "length as \<le> length (cs_attempts s) + ?n" and ok: "call_ok cfg deadline ?ks as s1"
    and ended: "loop_ended t end1 as s1" by auto
  have here: "length as \<le> length (cs_attempts s) + retry_budget (t # ts)"
    using len by (simp add: retry_budget_def)
  show ?case
  proof (cases end1)
    case (Loop_Answered rsp)
    with Cons.prems(2) provider loop ok ended here show ?thesis
      by (intro exI [of _ as]) (auto simp: call_ended_def loop_ended_def)
  next
    case (Loop_Raised x)
    with Cons.prems(2) provider loop ok ended here show ?thesis
      by (intro exI [of _ as]) (auto simp: call_ended_def loop_ended_def)
  next
    case Loop_Stopped
    with Cons.prems(2) provider loop ok ended here show ?thesis
      by (intro exI [of _ as]) (auto simp: call_ended_def loop_ended_def)
  next
    case (Loop_Exhausted e)
    note exhausted = ended [unfolded loop_ended_def Loop_Exhausted loop_end.case]
    show ?thesis
    proof (cases "me_fallback_allowed e")
      case False
      with Cons.prems(2) provider loop ok exhausted here Loop_Exhausted show ?thesis
        by (intro exI [of _ as])
          (auto simp: call_ended_def raised_ended_def with_attempts_def)
    next
      case True
      let ?s = "s1\<lparr>cs_fallback_reason := Some (me_code e)\<rparr>"
      have continue: "target_loop cfg w message rid deadline body ts (Some e) ?s = (r, s')"
        using Cons.prems(2) provider loop Loop_Exhausted True by simp
      have "between cfg deadline (map target_key ((before @ [t]) @ ts)) (before @ [t]) (Some e) ?s"
        using ok exhausted True
        by (auto simp: between_def call_ok_def numbered_def shown_def body_only_def code_in_def
            standard_error_def)
      from Cons.IH [OF this continue] Cons.prems(3) obtain bs where
        "length bs \<le> length (cs_attempts ?s) + retry_budget ts"
        "call_ok cfg deadline ?ks bs s'" "call_ended r bs s'" by auto
      with len exhausted show ?thesis
        by (intro exI [of _ bs]) (simp add: retry_budget_def)
    qed
  qed
qed

end

end
