(* ===== verification/Gateway_Calls.thy ===== *)
theory Gateway_Calls
  imports Gateway_Loops
begin

section \<open>Whole calls of the gateway\<close>

text \<open>
  The bodies of \<open>complete\<close> and \<open>stream\<close> fulfil the contract of the loops, and so every call ends as
  \<open>call_ended\<close> says. A completion yields nothing.
\<close>

interpretation completing: attempt_contract cfg w deadline "complete_body cfg w deadline r"
  for cfg w deadline r
proof unfold_locales
  fix t b c
  let ?body = "complete_body cfg w deadline r t b c"
  show "keeps same_frame ?body" by (rule frame.keeps_complete_body) (simp add: same_frame_def)
  show "keeps (logs (in_time deadline)) ?body" by (rule timely.keeps_complete_body) (simp add: logs_one)
  show "keeps numbers ?body" by (rule numbering.keeps_complete_body) (simp add: numbers_def numbered_def)
  show "keeps adds_chunks ?body" by (rule chunks.keeps_complete_body) (simp add: adds_chunks_refl)
  show "keeps shows_visible ?body"
    by (rule visibility.keeps_complete_body) (auto simp: shows_visible_def shown_def)
  show "keeps (body_trace (target_key t)) ?body" by (rule complete_body_trace)
  show "returns ?body (\<lambda>s (a, rsp). concluded t s a rsp)" by (rule returns_complete_body)
  show "world_standard w \<Longrightarrow> raises_standard ?body" by (rule raises_complete_body)
qed

interpretation streaming: attempt_contract cfg w deadline "stream_body cfg w deadline r"
  for cfg w deadline r
proof unfold_locales
  fix t b c
  let ?body = "stream_body cfg w deadline r t b c"
  show "keeps same_frame ?body" by (rule frame.keeps_stream_body) (simp add: same_frame_def)
  show "keeps (logs (in_time deadline)) ?body" by (rule timely.keeps_stream_body) (simp add: logs_one)
  show "keeps numbers ?body" by (rule numbering.keeps_stream_body) (simp add: numbers_def numbered_def)
  show "keeps adds_chunks ?body" by (rule chunks.keeps_stream_body) (simp add: adds_chunks_refl)
  show "keeps shows_visible ?body"
    by (rule visibility.keeps_stream_body) (auto simp: shows_visible_def shown_def)
  show "keeps (body_trace (target_key t)) ?body" by (rule stream_body_trace)
  show "returns ?body (\<lambda>s (a, rsp). concluded t s a rsp)" by (rule returns_stream_body)
  show "world_standard w \<Longrightarrow> raises_standard ?body" by (rule raises_stream_body)
qed

subsection \<open>Preflight\<close>

lemma traverse_Inr_all: "traverse f xs = Inr ys \<Longrightarrow> x \<in> set xs \<Longrightarrow> \<exists>y. f x = Inr y"
  by (induction xs arbitrary: ys) (auto simp: result_bind_eq_Inr)

lemma preflight_route_all:
  "preflight_route cfg route r = Inr () \<Longrightarrow> t \<in> set (route_targets route) \<Longrightarrow>
     preflight_target cfg t r = Inr ()"
  by (auto simp: preflight_route_def result_bind_eq_Inr dest: traverse_Inr_all)

lemma preflight_target_provider:
  "preflight_target cfg t r = Inr () \<Longrightarrow> target_provider t \<in> set (gc_providers cfg)"
  by (auto simp: preflight_target_def result_bind_eq_Inr find_provider_def split: if_splits)

lemma preflight_target_fits:
  assumes "preflight_target cfg t r = Inr ()"
  shows "target_provider t \<in> set (gc_providers cfg) \<and>
    (\<forall>c \<in> req_capabilities r. supports (target_capabilities t) c) \<and>
    input_modalities r \<subseteq> cap_modalities (target_capabilities t) \<and>
    req_max_output_tokens r \<le> cap_max_output (target_capabilities t) \<and>
    (\<exists>n. gc_estimate cfg t r = Inr n \<and>
      n + req_max_output_tokens r \<le> cap_max_context (target_capabilities t))"
  using assms preflight_target_provider [OF assms]
  by (cases "gc_estimate cfg t r") (auto simp: preflight_target_def result_bind_eq_Inr)

text \<open>Attempts are made on targets of the route, and so are provider calls.\<close>

lemma adjacent_member: "adjacent ks x y \<Longrightarrow> y \<in> set ks"
  unfolding adjacent_def by (cases ks) (auto dest: set_zip_rightD)

lemma successively_members:
  "successively (continues ks) as \<Longrightarrow> as \<noteq> [] \<Longrightarrow> attempt_key (hd as) \<in> set ks \<Longrightarrow>
     a \<in> set as \<Longrightarrow> attempt_key a \<in> set ks"
proof (induction as)
  case (Cons b as)
  show ?case
  proof (cases as)
    case (Cons c cs)
    with Cons.prems have link: "continues ks b c" and rest: "successively (continues ks) as" by auto
    from link Cons.prems(3) have "attempt_key c \<in> set ks"
      by (auto simp: continues_def dest: adjacent_member)
    with Cons Cons.IH [OF rest] Cons.prems show ?thesis by auto
  qed (use Cons.prems in auto)
qed simp

lemma call_ok_called:
  assumes ok: "call_ok cfg deadline (map target_key (t # ts)) as s" and "Provider_Called k \<in> set (cs_effects s)"
  shows "k \<in> set (map target_key (t # ts))"
proof -
  let ?ks = "map target_key (t # ts)"
  have "k \<in> set (called_keys (cs_effects s))"
    using assms(2) by (force simp: called_keys_def List.map_filter_def)
  then have "k \<in> set (map attempt_key as)"
    using ok list_emb_set [of "(=)" "called_keys (cs_effects s)" "map attempt_key as" k]
    by (auto simp: call_ok_def)
  then obtain a where a: "a \<in> set as" "attempt_key a = k" by auto
  then have "as \<noteq> []" by auto
  with ok have "successively (continues ?ks) as" "attempt_key (hd as) = target_key t"
    by (simp_all add: call_ok_def history_def)
  with successively_members [of ?ks as a] a \<open>as \<noteq> []\<close> show ?thesis by simp
qed

text \<open>The targets of a route that passed their constructors.\<close>

definition route_ok :: "model_route \<Rightarrow> bool" where
  "route_ok route \<longleftrightarrow> (\<forall>t \<in> set (route_targets route). 0 \<le> max_retries (target_limits t))"

definition route_keys :: "model_route \<Rightarrow> target_id list" where
  "route_keys route = map target_key (route_targets route)"

lemma route_keys_Cons:
  "route_keys route = map target_key (route_primary route # route_fallbacks route)"
  by (simp add: route_keys_def route_targets_def)

lemma start_between:
  "between cfg deadline (map target_key ([] @ route_targets route)) [] None
     ((call_start shared)\<lparr>cs_tick := 1\<rparr>)"
  by (simp add: between_def call_ok_def call_start_def numbered_def shown_def body_only_def
      all_failed_def emitted_attempts_def called_keys_def List.map_filter_simps)

lemma route_targets_not_Nil [simp]: "route_targets route \<noteq> []"
  by (simp add: route_targets_def)

lemma targets_known:
  assumes "preflight_route cfg route r = Inr ()" and "route_ok route"
  shows "\<forall>t \<in> set (route_targets route). 0 \<le> max_retries (target_limits t) \<and>
    target_provider t \<in> set (gc_providers cfg)"
  using assms(2) preflight_target_provider [OF preflight_route_all [OF assms(1)]]
  by (auto simp: route_ok_def)

subsection \<open>Completions\<close>

lemma complete_ended:
  assumes "world_standard w" and "route_ok route" and "preflight_route cfg route r = Inr ()"
    and "complete cfg w route r shared = (res, s)"
  shows "\<exists>as. length as \<le> retry_budget (route_targets route) \<and>
    call_ok cfg (call_deadline w route) (route_keys route) as s \<and> call_ended res as s"
proof -
  have "target_loop cfg w ''Model provider attempt timed out'' (req_id r) (call_deadline w route)
      (complete_body cfg w (call_deadline w route) r) (route_targets route) None
      ((call_start shared)\<lparr>cs_tick := 1\<rparr>) = (res, s)"
    using assms(3,4) by (simp add: complete_def Let_def)
  from completing.target_loop_ok [OF assms(1) start_between this targets_known [OF assms(3,2)]]
  show ?thesis by (auto simp: route_keys_def call_start_def)
qed

lemma silent_fields:
  "silent s s' \<Longrightarrow> cs_chunks s' = cs_chunks s \<and> cs_visible s' = cs_visible s"
  by (simp add: silent_def)

lemma silent_admit: "admit_rel s s' \<Longrightarrow> silent s s'"
  by (auto simp: silent_def admit_rel_def)

lemma complete_body_silent: "keeps silent (complete_body cfg w deadline r t b c)"
  by (rule silence.keeps_complete_body) (simp add: silent_def)

lemma run_attempt_silent:
  assumes "run_attempt cfg w message rid (complete_body cfg w deadline r) t s = (res, s')"
  shows "silent s s'"
proof -
  let ?s = "(fresh_attempt s)\<lparr>cs_tick := cs_tick s + 2\<rparr>"
  let ?b = "w_utc w (cs_tick s)" and ?c = "w_clock w (cs_tick s + 1)"
  obtain x s1 where body: "complete_body cfg w deadline r t ?b ?c ?s = (x, s1)"
    by (cases "complete_body cfg w deadline r t ?b ?c ?s")
  have "silent s s1"
    using keepsD [OF complete_body_silent body] by (simp add: silent_def)
  moreover have "silent s1 s'"
    using assms body attempt_failed_state [of t s1 _ cfg w ?b ?c]
      attempt_cancelled_state [of t s1 cfg w ?b ?c]
    by (auto simp: run_attempt_def Let_def silent_def emit_attempt_state
        split: sum.splits option.splits prod.splits)
  ultimately show ?thesis by (simp add: silent_def)
qed

lemma attempt_loop_silent:
  "\<not> cs_visible s \<Longrightarrow>
     attempt_loop cfg w message rid deadline (complete_body cfg w deadline r) t left i s = (res, s') \<Longrightarrow>
     silent s s' \<and> res \<noteq> Loop_Stopped"
proof (induction left arbitrary: i s)
  case (Suc left)
  obtain end1 s1 where run: "run_attempt cfg w message rid (complete_body cfg w deadline r) t s = (end1, s1)"
    by (cases "run_attempt cfg w message rid (complete_body cfg w deadline r) t s")
  have silent1: "silent s s1" by (rule run_attempt_silent [OF run])
  show ?case
  proof (cases end1)
    case (Attempt_Error e)
    obtain y s2 where waited: "backoff w t i rid deadline s1 = (y, s2)"
      by (cases "backoff w t i rid deadline s1")
    have silent2: "silent s1 s2"
      using backoff_result [of s1 w t i rid deadline] waited by (simp add: silent_admit)
    show ?thesis
    proof (cases "me_retryable e \<and> int i < max_retries (target_limits t) \<and> y = Inr ()")
      case True
      with Suc.prems run Attempt_Error waited silent1 have
        "attempt_loop cfg w message rid deadline (complete_body cfg w deadline r) t left (Suc i) s2
          = (res, s')"
        by (simp add: silent_def)
      from Suc.IH [OF _ this] silent1 silent2 Suc.prems(1) show ?thesis by (simp add: silent_def)
    next
      case False
      with Suc.prems run Attempt_Error waited silent1 silent2 show ?thesis
        by (cases y; auto simp: silent_def split: if_splits raised.splits)
    qed
  qed (use Suc.prems run silent1 in auto)
qed (auto simp: silent_def)

lemma target_loop_silent:
  "\<not> cs_visible s \<Longrightarrow>
     target_loop cfg w message rid deadline (complete_body cfg w deadline r) ts err s = (res, s') \<Longrightarrow>
     silent s s' \<and> res \<noteq> Call_Stopped"
proof (induction ts arbitrary: err s)
  case (Cons t ts)
  let ?n = "nat (max_retries (target_limits t) + 1)"
  obtain end1 s1 where loop: "attempt_loop cfg w message rid deadline (complete_body cfg w deadline r)
      t ?n 0 s = (end1, s1)"
    by (cases "attempt_loop cfg w message rid deadline (complete_body cfg w deadline r) t ?n 0 s")
  have silent1: "silent s s1" and not_stopped: "end1 \<noteq> Loop_Stopped"
    using attempt_loop_silent [OF Cons.prems(1) loop] by simp_all
  show ?case
  proof (cases "find_provider cfg t rid")
    case (Inl x)
    with Cons.prems show ?thesis by (auto simp: silent_def)
  next
    case (Inr u)
    show ?thesis
    proof (cases "\<exists>e. end1 = Loop_Exhausted e \<and> me_fallback_allowed e")
      case True
      then obtain e where "end1 = Loop_Exhausted e" "me_fallback_allowed e" by blast
      with Cons.prems(2) Inr loop have
        "target_loop cfg w message rid deadline (complete_body cfg w deadline r) ts (Some e)
          (s1\<lparr>cs_fallback_reason := Some (me_code e)\<rparr>) = (res, s')" by simp
      from Cons.IH [OF _ this] silent1 Cons.prems(1) show ?thesis by (simp add: silent_def)
    next
      case False
      with Cons.prems(2) Inr loop silent1 not_stopped show ?thesis
        by (cases end1) (auto simp: silent_def)
    qed
  qed
qed (auto simp: silent_def)

lemma complete_silent:
  assumes "complete cfg w route r shared = (res, s)"
  shows "cs_chunks s = [] \<and> res \<noteq> Call_Stopped"
proof (cases "preflight_route cfg route r")
  case (Inl x)
  with assms show ?thesis by (auto simp: complete_def Let_def call_start_def)
next
  case (Inr u)
  with assms have "target_loop cfg w ''Model provider attempt timed out'' (req_id r)
      (call_deadline w route) (complete_body cfg w (call_deadline w route) r) (route_targets route)
      None ((call_start shared)\<lparr>cs_tick := 1\<rparr>) = (res, s)"
    by (simp add: complete_def Let_def)
  from target_loop_silent [OF _ this] show ?thesis by (simp add: silent_def call_start_def)
qed

subsection \<open>Streams\<close>

text \<open>A stream that ends with a response has yielded it in its last chunk.\<close>

definition terminal_ended :: "model_response \<Rightarrow> call_state \<Rightarrow> bool" where
  "terminal_ended rsp s \<longleftrightarrow> (\<exists>cs c. cs_chunks s = cs @ [c] \<and> (\<forall>d \<in> set cs. body_chunk d) \<and>
     ck_kind c = Terminal_Chunk \<and> ck_terminal c = Some rsp \<and> payload_ok c)"

definition response_ok :: "model_response \<Rightarrow> attempt_record list \<Rightarrow> call_state \<Rightarrow> bool" where
  "response_ok rsp as s \<longleftrightarrow> as \<noteq> [] \<and> cs_attempts s = butlast as \<and>
     at_outcome (last as) = Attempt_Succeeded \<and> rsp_attempts rsp = as \<and>
     model_response_post_init rsp = Inr () \<and> usage_totalled rsp"

definition stream_ended :: "call_end \<Rightarrow> attempt_record list \<Rightarrow> call_state \<Rightarrow> bool" where
  "stream_ended r as s = (case r of
      Call_Answered rsp \<Rightarrow> response_ok rsp as s \<and> terminal_ended rsp s
    | Call_Stopped \<Rightarrow> cs_attempts s = as \<and> all_failed as \<and> error_ended as s
    | Call_Raised x \<Rightarrow>
        (\<forall>e. x = Raised_Model e \<longrightarrow> me_attempts e = as \<and> cs_attempts s = as \<and> all_failed as) \<and>
        (x = Raised_Cancelled \<or> x = Raised_Exit \<or> \<not> cs_visible s) \<and>
        (body_only s \<or> x = Raised_Exit \<and>
          (error_ended as s \<or> (\<exists>rsp. terminal_ended rsp s \<and> response_ok rsp as s))))"

lemma stream_ended_all:
  assumes "world_standard w" and "route_ok route" and "preflight_route cfg route r = Inr ()"
    and "stream cfg w route r shared = (res, s)"
  shows "\<exists>as. length as \<le> retry_budget (route_targets route) \<and>
    call_ok cfg (call_deadline w route) (route_keys route) as s \<and> stream_ended res as s"
proof -
  let ?s0 = "(call_start shared)\<lparr>cs_tick := 1\<rparr>"
  let ?loop = "target_loop cfg w ''Model stream timed out'' (req_id r) (call_deadline w route)
      (stream_body cfg w (call_deadline w route) r) (route_targets route) None ?s0"
  obtain res1 s1 where loop: "?loop = (res1, s1)" by (cases ?loop)
  from streaming.target_loop_ok [OF assms(1) start_between loop targets_known [OF assms(3,2)]]
  obtain as where len: "length as \<le> retry_budget (route_targets route)"
    and ok: "call_ok cfg (call_deadline w route) (route_keys route) as s1"
    and ended: "call_ended res1 as s1"
    by (auto simp: route_keys_def call_start_def)
  show ?thesis
  proof (cases res1)
    case (Call_Answered rsp)
    let ?c = "empty_chunk\<lparr>ck_kind := Terminal_Chunk, ck_terminal := Some rsp\<rparr>"
    obtain y s2 where yield: "yield_chunk w ?c s1 = (y, s2)" by (cases "yield_chunk w ?c s1")
    have s2: "s2 = snd (yield_chunk w ?c s1)" using yield by simp
    have y: "y = Inl Raised_Exit \<or> y = Inr ()"
      using yield_chunk_result [of w ?c s1] yield by (simp split: if_splits)
    have "s = s2" and res: "res = (case y of Inl x \<Rightarrow> Call_Raised x | Inr _ \<Rightarrow> Call_Answered rsp)"
      using assms(3,4) loop Call_Answered yield by (auto simp: stream_def Let_def split: sum.splits)
    moreover have "call_ok cfg (call_deadline w route) (route_keys route) as s2"
      unfolding s2 by (rule call_ok_yield [OF ok]) (simp add: visible_kind_def)
    moreover have "response_ok rsp as s2"
      using ended Call_Answered
      by (simp add: call_ended_def answered_def response_ok_def s2 yield_chunk_state)
    moreover have "terminal_ended rsp s2"
      using ended Call_Answered
      by (auto simp: call_ended_def answered_def body_only_def terminal_ended_def s2 yield_chunk_state)
    ultimately show ?thesis using len y
      by (intro exI [of _ as]) (auto simp: stream_ended_def)
  next
    case Call_Stopped
    with assms(3,4) loop ok len ended show ?thesis
      by (intro exI [of _ as]) (auto simp: stream_def Let_def call_ended_def stream_ended_def)
  next
    case (Call_Raised x)
    with assms(3,4) loop ok len ended show ?thesis
      by (intro exI [of _ as])
        (auto simp: stream_def Let_def call_ended_def stream_ended_def raised_ended_def)
  qed
qed

end
