(* ===== verification/Gateway_Shared.thy ===== *)
theory Gateway_Shared
  imports Gateway_Calls
begin

section \<open>The shared state of the gateway\<close>

text \<open>
  The dictionaries of rate limiters and circuit breakers, which concurrent calls share: every call
  keeps every bucket within its capacity and every breaker well-formed, if the other calls do.
\<close>

definition shared_ok :: "gateway_shared \<Rightarrow> bool" where
  "shared_ok g \<longleftrightarrow>
     (\<forall>k b. gs_limiters g k = Some b \<longrightarrow> bucket_ok b) \<and>
     (\<forall>k b. gs_breakers g k = Some b \<longrightarrow> breaker_ok b)"

definition others_ok :: "world \<Rightarrow> bool" where
  "others_ok w \<longleftrightarrow> (\<forall>n g. shared_ok g \<longrightarrow> shared_ok (w_others w n g))"

definition keeps_shared :: "world \<Rightarrow> call_state \<Rightarrow> call_state \<Rightarrow> bool" where
  "keeps_shared w s s' \<longleftrightarrow> (others_ok w \<longrightarrow> shared_ok (cs_shared s) \<longrightarrow> shared_ok (cs_shared s'))"

text \<open>\<open>secures w m Q\<close>: the computation keeps the shared state well-formed and returns a value in \<open>Q\<close>.\<close>

definition secures :: "world \<Rightarrow> 'a io \<Rightarrow> ('a \<Rightarrow> bool) \<Rightarrow> bool" where
  "secures w m Q \<longleftrightarrow> (\<forall>s. others_ok w \<longrightarrow> shared_ok (cs_shared s) \<longrightarrow>
     shared_ok (cs_shared (snd (m s))) \<and> (\<forall>x. fst (m s) = Inr x \<longrightarrow> Q x))"

lemma secures_bind:
  assumes "secures w m Q" and "\<And>x. Q x \<Longrightarrow> secures w (f x) P"
  shows "secures w (io_bind m f) P"
  unfolding secures_def
proof (intro allI impI)
  fix s :: call_state
  assume "others_ok w" and "shared_ok (cs_shared s)"
  with assms show "shared_ok (cs_shared (snd (io_bind m f s))) \<and>
      (\<forall>x. fst (io_bind m f s) = Inr x \<longrightarrow> P x)"
    unfolding secures_def io_bind_def by (cases "m s"; cases "fst (m s)") fastforce+
qed

lemma secures_pure:
  "Q x \<Longrightarrow> secures w (io_return x) Q" "secures w (io_raise e) Q" "secures w (observe f) (\<lambda>_. True)"
  "secures w (awaiting w f) (\<lambda>_. True)" "secures w (io_log es) (\<lambda>_. True)"
  "secures w (io_modify (\<lambda>s. s\<lparr>cs_admitted := a\<rparr>)) (\<lambda>_. True)"
  "secures w (io_get cs_tick) (\<lambda>_. True)"
  by (simp_all add: secures_def io_defs others_ok_def)

lemma secures_weaken: "secures w m Q \<Longrightarrow> (\<And>x. Q x \<Longrightarrow> P x) \<Longrightarrow> secures w m P"
  by (simp add: secures_def)

lemma secures_get:
  "secures w (io_get (\<lambda>s. gs_limiters (cs_shared s) k)) (\<lambda>f. \<forall>b. f = Some b \<longrightarrow> bucket_ok b)"
  "secures w (io_get (\<lambda>s. gs_breakers (cs_shared s) k)) (\<lambda>f. \<forall>b. f = Some b \<longrightarrow> breaker_ok b)"
  by (cases k; auto simp: secures_def io_defs shared_ok_def)+

lemma secures_set:
  "bucket_ok b \<Longrightarrow> secures w (io_modify (set_limiter k b)) (\<lambda>_. True)"
  "bucket_ok b \<Longrightarrow> secures w (io_modify (\<lambda>s. set_limiter k b (s\<lparr>cs_tick := n\<rparr>))) (\<lambda>_. True)"
  "breaker_ok c \<Longrightarrow> secures w (io_modify (set_breaker k c)) (\<lambda>_. True)"
  by (auto simp: secures_def io_defs shared_ok_def set_limiter_def set_breaker_def)

lemma secures_remaining: "secures w (remaining w deadline rid) (\<lambda>_. True)"
  by (auto simp: remaining_def secures_def io_defs)

lemma secures_expired_as: "secures w m (\<lambda>_. True) \<Longrightarrow> secures w (expired_as e m) (\<lambda>_. True)"
  by (auto simp: secures_def expired_as_def split: prod.splits sum.splits raised.splits)

lemma secures_rate_limiter:
  "secures w (rate_limiter w t) (\<lambda>f. \<forall>b. f = Some b \<longrightarrow> bucket_ok b)"
proof (cases "rate_limit_per_second (target_limits t)")
  case (Some rate)
  have "secures w (case found of
        Some b \<Rightarrow> io_return (Some b)
      | None \<Rightarrow> io_bind (observe (w_clock w)) (\<lambda>now.
          case new_token_bucket (Flt rate) (rate_limit_burst (target_limits t)) now of
            Inl e \<Rightarrow> io_raise Raised_Exception
          | Inr b \<Rightarrow> io_bind (io_modify (set_limiter (target_key t) b)) (\<lambda>_. io_return (Some b))))
      (\<lambda>f. \<forall>b. f = Some b \<longrightarrow> bucket_ok b)" if "\<forall>b. found = Some b \<longrightarrow> bucket_ok b" for found
    using that
    by (auto intro!: secures_bind [OF secures_pure(3)] secures_pure secures_bind [OF secures_set(1)]
        dest: bucket_ok_new split: option.split sum.split)
  with Some show ?thesis
    by (auto simp: rate_limiter_def intro!: secures_bind [OF secures_get(1)])
qed (simp add: rate_limiter_def secures_pure)

lemma secures_acquire_token:
  "bucket_ok b \<Longrightarrow> secures w (acquire_token w t b) (\<lambda>_. True)"
  unfolding acquire_token_def Let_def
  by (auto intro!: secures_bind [OF secures_pure(4)] secures_bind [OF secures_pure(7)]
      secures_bind [OF secures_get(1)] secures_bind [OF secures_set(2)] secures_bind [OF secures_pure(5)]
      secures_pure acquire_ok split: option.split)

lemma secures_circuit_breaker_for: "secures w (circuit_breaker_for t) breaker_ok"
proof -
  have "secures w (case found of
        Some b \<Rightarrow> io_return b
      | None \<Rightarrow> (case new_circuit_breaker (circuit_failure_threshold (target_limits t))
            (circuit_recovery_seconds (target_limits t)) of
          Inl e \<Rightarrow> io_raise Raised_Exception
        | Inr b \<Rightarrow> io_bind (io_modify (set_breaker (target_key t) b)) (\<lambda>_. io_return b))) breaker_ok"
    if "\<forall>b. found = Some b \<longrightarrow> breaker_ok b" for found
    using that
    by (auto intro!: secures_pure secures_bind [OF secures_set(3)] dest: breaker_ok_new
        split: option.split sum.split)
  then show ?thesis
    unfolding circuit_breaker_for_def by (auto intro!: secures_bind [OF secures_get(2)])
qed

lemma secures_admit: "secures w (admit w t rid deadline) (\<lambda>_. True)"
proof -
  have wait: "secures w (case limiter of None \<Rightarrow> io_return ()
      | Some b \<Rightarrow> expired_as e (io_bind (remaining w deadline rid) (\<lambda>_. acquire_token w t b)))
      (\<lambda>_. True)" if "\<forall>b. limiter = Some b \<longrightarrow> bucket_ok b" for limiter e
    using that
    by (auto intro!: secures_pure secures_expired_as secures_bind [OF secures_remaining]
        secures_acquire_token split: option.split)
  have enter: "secures w (io_bind (io_modify (set_breaker k (snd (before_call now rid b)))) (\<lambda>_.
      case fst (before_call now rid b) of
        Inl e \<Rightarrow> io_raise (Raised_Model e)
      | Inr _ \<Rightarrow> io_modify (\<lambda>s. s\<lparr>cs_admitted := True\<rparr>))) (\<lambda>_. True)"
    if "breaker_ok b" for b now k
    using that
    by (auto intro!: secures_bind [OF secures_set(3)] secures_pure breaker_ok_before_call
        split: sum.split)
  show ?thesis
    unfolding admit_def
    by (rule secures_bind [OF secures_rate_limiter], rule secures_bind [OF wait], assumption,
        rule secures_bind [OF secures_circuit_breaker_for], rule secures_bind [OF secures_pure(3)],
        rule enter)
qed

lemma keeps_shared_secures: "secures w m Q \<Longrightarrow> keeps_shared w s (snd (m s))"
  by (simp add: secures_def keeps_shared_def)

interpretation sharing: stream_law w deadline "keeps_shared w" for w deadline
  by unfold_locales
    (auto simp: keeps_shared_def others_ok_def yield_chunk_state
      intro: keeps_shared_secures [OF secures_admit, unfolded keeps_shared_def others_ok_def, rule_format])

subsection \<open>Whole calls\<close>

lemmas shared_refl = sharing.refl
lemmas shared_trans = sharing.trans

lemma shared_same: "cs_shared s' = cs_shared s \<Longrightarrow> keeps_shared w s s'"
  by (simp add: keeps_shared_def)

lemma shared_update_breaker:
  "(\<And>b. breaker_ok b \<Longrightarrow> breaker_ok (f b)) \<Longrightarrow> keeps_shared w s (update_breaker k f s)"
  by (auto simp: keeps_shared_def update_breaker_def set_breaker_def shared_ok_def split: option.split)

lemma secures_record:
  assumes "\<And>b. breaker_ok b \<Longrightarrow> breaker_ok (f b)"
  shows "secures w (io_modify (\<lambda>s. if cs_admitted s then update_breaker k f s else s)) (\<lambda>_. True)"
  using shared_update_breaker [OF assms]
  by (simp add: secures_def io_modify_def keeps_shared_def)

lemma secures_attempt_steps:
  "secures w (io_get g) (\<lambda>_. True)" "secures w (io_modify (\<lambda>s. s\<lparr>cs_attempts := h s\<rparr>)) (\<lambda>_. True)"
  "secures w (emit_attempt cfg a) (\<lambda>_. True)"
  by (simp_all add: secures_def io_defs emit_attempt_def)

lemma secures_make_attempt: "secures w (make_attempt w t b c oc code rid usage) (\<lambda>_. True)"
  by (simp add: secures_def make_attempt_def io_defs)

lemma attempt_failed_shared: "keeps_shared w s (snd (attempt_failed cfg w t b c e s))"
  unfolding attempt_failed_def
  by (rule keeps_shared_secures, rule secures_bind [OF secures_pure(3)],
      rule secures_bind [OF secures_record], erule breaker_ok_record,
      rule secures_bind [OF secures_attempt_steps(1)], rule secures_bind [OF secures_make_attempt],
      rule secures_bind [OF secures_attempt_steps(2)], rule secures_attempt_steps(3))

lemma attempt_cancelled_shared: "keeps_shared w s (snd (attempt_cancelled cfg w t b c s))"
  unfolding attempt_cancelled_def
  by (rule keeps_shared_secures, rule secures_bind [OF secures_record], erule breaker_ok_record,
      rule secures_bind [OF secures_attempt_steps(1)], rule secures_bind [OF secures_attempt_steps(1)],
      rule secures_bind [OF secures_make_attempt], rule secures_attempt_steps(3))

lemma backoff_shared: "keeps_shared w s (snd (backoff w t i rid deadline s))"
proof -
  have "secures w (backoff w t i rid deadline) (\<lambda>_. True)"
    unfolding backoff_def
    by (auto intro!: secures_bind [OF secures_pure(3)] secures_expired_as
        secures_bind [OF secures_remaining] secures_bind [OF secures_pure(5)]
        secures_bind [OF secures_pure(4)] secures_pure split: option.split)
  then show ?thesis by (rule keeps_shared_secures)
qed

lemma yield_shared: "keeps_shared w s (snd (yield_chunk w c s))"
  by (simp add: keeps_shared_def others_ok_def yield_chunk_state)

lemma run_attempt_shared:
  assumes body: "\<And>t b c. keeps (keeps_shared w) (body t b c)"
  shows "keeps_shared w s (snd (run_attempt cfg w message rid body t s))"
proof -
  let ?s = "(fresh_attempt s)\<lparr>cs_tick := cs_tick s + 2\<rparr>"
  let ?b = "w_utc w (cs_tick s)" and ?c = "w_clock w (cs_tick s + 1)"
  obtain x s1 where run: "body t ?b ?c ?s = (x, s1)" by (cases "body t ?b ?c ?s")
  have "keeps_shared w s ?s" by (rule shared_same) (simp add: fresh_attempt_def)
  from shared_trans [OF this keepsD [OF body run]] have 1: "keeps_shared w s s1" .
  have 2: "keeps_shared w s1 (snd (emit_attempt cfg a (update_breaker (target_key t) record_success s1)))"
    for a
    using shared_update_breaker [of record_success w s1 "target_key t"]
    by (simp add: emit_attempt_state keeps_shared_def breaker_ok_record)
  show ?thesis
  proof (cases x)
    case (Inr y)
    obtain a rsp where "y = (a, rsp)" by (cases y)
    with run Inr shared_trans [OF 1 2] show ?thesis by (simp add: run_attempt_def Let_def)
  next
    case (Inl y)
    with run shared_trans [OF 1 attempt_failed_shared] shared_trans [OF 1 attempt_cancelled_shared]
    show ?thesis by (cases "caught_error message rid y") (simp_all add: run_attempt_def Let_def)
  qed
qed

lemma attempt_loop_shared:
  assumes body: "\<And>t b c. keeps (keeps_shared w) (body t b c)"
  shows "keeps_shared w s (snd (attempt_loop cfg w message rid deadline body t left i s))"
proof (induction left arbitrary: i s)
  case (Suc left)
  obtain end1 s1 where run: "run_attempt cfg w message rid body t s = (end1, s1)"
    by (cases "run_attempt cfg w message rid body t s")
  have "keeps_shared w s (snd (run_attempt cfg w message rid body t s))"
    by (rule run_attempt_shared) (rule body)
  with run have 1: "keeps_shared w s s1" by simp
  show ?case
  proof (cases end1)
    case (Attempt_Error e)
    let ?c = "empty_chunk\<lparr>ck_kind := Error_Chunk, ck_error := Some (with_attempts e (cs_attempts s1))\<rparr>"
    have 2: "keeps_shared w s (snd (yield_chunk w ?c s1))" by (rule shared_trans [OF 1 yield_shared])
    obtain y s2 where yield: "yield_chunk w ?c s1 = (y, s2)" by (cases "yield_chunk w ?c s1")
    obtain z s3 where waited: "backoff w t i rid deadline s1 = (z, s3)"
      by (cases "backoff w t i rid deadline s1")
    have "keeps_shared w s (snd (backoff w t i rid deadline s1))"
      by (rule shared_trans [OF 1 backoff_shared])
    with waited have 3: "keeps_shared w s s3" by simp
    have 4: "keeps_shared w s (snd (attempt_loop cfg w message rid deadline body t left (Suc i) s3))"
      by (rule shared_trans [OF 3 Suc.IH])
    show ?thesis
    proof (cases "cs_visible s1")
      case True
      with Attempt_Error run yield 2 show ?thesis by (cases y) simp_all
    next
      case hidden: False
      show ?thesis
      proof (cases "me_retryable e \<and> int i < max_retries (target_limits t)")
        case True
        with Attempt_Error run hidden waited 3 4 show ?thesis
          by (cases z) (simp_all split: raised.split)
      next
        case False
        with Attempt_Error run hidden 1 show ?thesis by auto
      qed
    qed
  qed (use run 1 in auto)
qed (simp add: shared_refl)

lemma target_loop_shared:
  assumes body: "\<And>t b c. keeps (keeps_shared w) (body t b c)"
  shows "keeps_shared w s (snd (target_loop cfg w message rid deadline body ts err s))"
proof (induction ts arbitrary: err s)
  case (Cons t ts)
  let ?n = "nat (max_retries (target_limits t) + 1)"
  obtain end1 s1 where loop: "attempt_loop cfg w message rid deadline body t ?n 0 s = (end1, s1)"
    by (cases "attempt_loop cfg w message rid deadline body t ?n 0 s")
  have "keeps_shared w s (snd (attempt_loop cfg w message rid deadline body t ?n 0 s))"
    by (rule attempt_loop_shared) (rule body)
  with loop have 1: "keeps_shared w s s1" by simp
  have 2: "keeps_shared w s (snd (target_loop cfg w message rid deadline body ts e
      (s1\<lparr>cs_fallback_reason := x\<rparr>)))" for e x
    by (rule shared_trans [OF 1 shared_trans [OF shared_same Cons.IH]]) simp
  show ?case
  proof (cases "find_provider cfg t rid")
    case (Inl x)
    then show ?thesis by (simp add: shared_refl)
  next
    case (Inr u)
    show ?thesis
    proof (cases end1)
      case (Loop_Exhausted e)
      with loop 1 2 [of "Some e" "Some (me_code e)"] Inr show ?thesis
        by (cases "me_fallback_allowed e") simp_all
    qed (use loop 1 Inr in simp_all)
  qed
qed (simp add: shared_refl)

lemma complete_body_shared: "keeps (keeps_shared w) (complete_body cfg w deadline r t b c)"
  by (rule sharing.keeps_complete_body) (rule shared_same, simp)

lemma stream_body_shared: "keeps (keeps_shared w) (stream_body cfg w deadline r t b c)"
  by (rule sharing.keeps_stream_body) (rule shared_same, simp)

lemma complete_shared:
  assumes "others_ok w" and "shared_ok shared"
  shows "shared_ok (cs_shared (snd (complete cfg w route r shared)))"
proof -
  have "keeps_shared w ((call_start shared)\<lparr>cs_tick := 1\<rparr>)
      (snd (target_loop cfg w message rid deadline (complete_body cfg w d r) ts err
        ((call_start shared)\<lparr>cs_tick := 1\<rparr>)))" for message rid deadline d ts err
    by (rule target_loop_shared) (rule complete_body_shared)
  with assms show ?thesis
    by (simp add: complete_def Let_def call_start_def keeps_shared_def split: sum.split)
qed

lemma stream_shared:
  assumes "others_ok w" and "shared_ok shared"
  shows "shared_ok (cs_shared (snd (stream cfg w route r shared)))"
proof (cases "preflight_route cfg route r")
  case (Inr u)
  let ?loop = "target_loop cfg w ''Model stream timed out'' (req_id r) (call_deadline w route)
      (stream_body cfg w (call_deadline w route) r) (route_targets route) None
      ((call_start shared)\<lparr>cs_tick := 1\<rparr>)"
  obtain res s1 where loop: "?loop = (res, s1)" by (cases ?loop)
  have "keeps_shared w ((call_start shared)\<lparr>cs_tick := 1\<rparr>) (snd ?loop)"
    by (rule target_loop_shared) (rule stream_body_shared)
  with loop assms have 1: "shared_ok (cs_shared s1)"
    by (simp add: keeps_shared_def call_start_def)
  then have 2: "shared_ok (cs_shared (snd (yield_chunk w c s1)))" for c
    using yield_shared [of w s1 c] assms by (simp add: keeps_shared_def)
  show ?thesis
  proof (cases res)
    case (Call_Answered rsp)
    then show ?thesis
      using loop Inr 2 [of "empty_chunk\<lparr>ck_kind := Terminal_Chunk, ck_terminal := Some rsp\<rparr>"]
      by (auto simp: stream_def Let_def split: prod.split sum.split)
  qed (use loop Inr 1 in \<open>simp_all add: stream_def Let_def\<close>)
qed (use assms in \<open>simp add: stream_def Let_def call_start_def\<close>)

end
