(* ===== verification/Token_Estimator.thy ===== *)
theory Token_Estimator
  imports Model_Contracts Json_Text
begin

section \<open>The conservative token estimator\<close>

text \<open>
  \<open>adapters/models/token_estimator.py\<close> and \<open>TokenEstimate\<close> of the port. The estimate counts UTF-8
  bytes of all texts, of the canonical JSON of the schemas, and a fixed overhead per part.
  \<open>repr\<close> is Python's \<open>float.__repr__\<close> on finite floats. The characters of the model are the code
  points below 256.
\<close>

definition utf8_length :: "string \<Rightarrow> int" where
  "utf8_length s = sum_list (map (\<lambda>c. if (of_char c :: nat) < 128 then 1 else 2) s)"

lemma utf8_length_nonneg [simp]: "0 \<le> utf8_length s"
  by (auto simp: utf8_length_def intro!: sum_list_nonneg)

fun float_text :: "(rat \<Rightarrow> string) \<Rightarrow> pyfloat \<Rightarrow> string" where
  "float_text repr (Flt q) = repr q"
| "float_text repr (FInf s) = (if s then ''-Infinity'' else ''Infinity'')"
| "float_text repr FNaN = ''NaN''"

text \<open>\<open>json.dumps(thaw_json(v), ensure_ascii=False, separators=(",", ":"), sort_keys=True)\<close>\<close>

function (sequential) object_text :: "(rat \<Rightarrow> string) \<Rightarrow> pyobj \<Rightarrow> exn + string" where
  "object_text repr PyNone = Inr ''null''"
| "object_text repr (PyBool b) = Inr (if b then ''true'' else ''false'')"
| "object_text repr (PyInt i) = py_str_int i"
| "object_text repr (PyFloat f) = Inr (float_text repr f)"
| "object_text repr (PyStr s) = Inr (plain_string s)"
| "object_text repr (PyList xs) =
     result_bind (traverse (object_text repr) xs) (\<lambda>ts. Inr (''['' @ join '','' ts @ '']''))"
| "object_text repr (PyTuple xs) =
     result_bind (traverse (object_text repr) xs) (\<lambda>ts. Inr (''['' @ join '','' ts @ '']''))"
| "object_text repr (PyMap kvs) =
     result_bind (traverse (\<lambda>kv. result_bind (object_text repr (snd kv)) (\<lambda>t.
          Inr (plain_string (fst kv) @ '':'' @ t))) (sort_key fst kvs))
       (\<lambda>ts. Inr (''{'' @ join '','' ts @ ''}''))"
| "object_text repr PyOther = Inl TypeError"
  by pat_completeness auto
termination
  by (relation "measure (size \<circ> snd)") (auto dest: size_list_member size_pair_member)

definition json_bytes :: "(rat \<Rightarrow> string) \<Rightarrow> pyobj \<Rightarrow> exn + int" where
  "json_bytes repr v = result_bind (object_text repr v) (\<lambda>t. Inr (utf8_length t))"

subsection \<open>The estimate\<close>

record token_estimate =
  te_upper_bound :: int
  te_method :: string

definition token_estimate_post_init :: "token_estimate \<Rightarrow> exn + token_estimate" where
  "token_estimate_post_init e =
     result_bind (require (0 \<le> te_upper_bound e) ValueError) (\<lambda>_.
     result_bind (require (te_method e \<noteq> []) ValueError) (\<lambda>_. Inr e))"

definition message_protocol_bytes :: int where
  "message_protocol_bytes = 32"

definition content_protocol_bytes :: int where
  "content_protocol_bytes = 16"

definition tool_protocol_bytes :: int where
  "tool_protocol_bytes = 64"

definition structured_protocol_bytes :: int where
  "structured_protocol_bytes = 64"

definition modality_cost :: "model_target \<Rightarrow> input_modality \<Rightarrow> exn + int" where
  "modality_cost t m = (case map_of (cap_bounds (target_capabilities t)) m of
      None \<Rightarrow> Inl KeyError | Some n \<Rightarrow> Inr n)"

fun part_cost :: "model_target \<Rightarrow> content_part \<Rightarrow> exn + int" where
  "part_cost t (TextPart s) = Inr (content_protocol_bytes + utf8_length s)"
| "part_cost t (ImagePart uri media) =
     result_bind (modality_cost t Image_Input) (\<lambda>n. Inr (content_protocol_bytes + n))"
| "part_cost t (DocumentPart uri media title) =
     result_bind (modality_cost t Document_Input) (\<lambda>n. Inr (content_protocol_bytes + n))"

definition or_empty :: "string option \<Rightarrow> string" where
  "or_empty s = (case s of None \<Rightarrow> [] | Some t \<Rightarrow> t)"

definition message_cost :: "model_target \<Rightarrow> message \<Rightarrow> exn + int" where
  "message_cost t m =
     result_bind (traverse (part_cost t) (msg_content m)) (\<lambda>costs.
       Inr (message_protocol_bytes + utf8_length (message_role_value (msg_role m)) +
            utf8_length (or_empty (msg_name m)) + utf8_length (or_empty (msg_tool_call_id m)) +
            sum_list costs))"

definition tool_cost :: "(rat \<Rightarrow> string) \<Rightarrow> tool_definition \<Rightarrow> exn + int" where
  "tool_cost repr d =
     result_bind (json_bytes repr (tool_input_schema d)) (\<lambda>n.
       Inr (tool_protocol_bytes + utf8_length (tool_name d) + utf8_length (tool_description d) + n))"

definition structured_cost :: "(rat \<Rightarrow> string) \<Rightarrow> structured_contract option \<Rightarrow> exn + int" where
  "structured_cost repr c = (case c of
      None \<Rightarrow> Inr 0
    | Some s \<Rightarrow> result_bind (json_bytes repr (so_schema s)) (\<lambda>n.
        Inr (structured_protocol_bytes + utf8_length (so_name s) + n)))"

definition estimate_tokens ::
    "(rat \<Rightarrow> string) \<Rightarrow> model_target \<Rightarrow> model_request \<Rightarrow> exn + token_estimate" where
  "estimate_tokens repr t r =
     result_bind (traverse (message_cost t) (req_messages r)) (\<lambda>ms.
     result_bind (traverse (tool_cost repr) (req_tools r)) (\<lambda>ts.
     result_bind (structured_cost repr (req_structured r)) (\<lambda>s.
       token_estimate_post_init
         \<lparr>te_upper_bound = sum_list ms + sum_list ts + s, te_method = ''utf8-bytes-v1''\<rparr>)))"

subsection \<open>The estimate is an upper bound\<close>

text \<open>
  A way to count the tokens of a request: a text has at most one token per byte, and an image or a
  document no more than the bound that the target declares.
\<close>

fun part_tokens :: "(string \<Rightarrow> int) \<Rightarrow> (content_part \<Rightarrow> int) \<Rightarrow> content_part \<Rightarrow> int" where
  "part_tokens text media (TextPart s) = text s"
| "part_tokens text media p = media p"

definition request_tokens :: "(string \<Rightarrow> int) \<Rightarrow> (content_part \<Rightarrow> int) \<Rightarrow> model_request \<Rightarrow> int" where
  "request_tokens text media r =
     sum_list (map (\<lambda>m. text (or_empty (msg_name m)) +
        sum_list (map (part_tokens text media) (msg_content m))) (req_messages r)) +
     sum_list (map (\<lambda>d. text (tool_name d) + text (tool_description d)) (req_tools r))"

definition media_bounded :: "model_target \<Rightarrow> (content_part \<Rightarrow> int) \<Rightarrow> bool" where
  "media_bounded t media \<longleftrightarrow> (\<forall>p n. modality_cost t (part_modality p) = Inr n \<longrightarrow> media p \<le> n)"

lemma media_boundedD:
  "media_bounded t media \<Longrightarrow> modality_cost t (part_modality p) = Inr n \<Longrightarrow> media p \<le> n"
  by (simp add: media_bounded_def)

lemma part_cost_bound:
  assumes "\<And>s. text s \<le> utf8_length s" and "media_bounded t media" and "part_cost t p = Inr c"
  shows "part_tokens text media p \<le> c"
proof (cases p)
  case (TextPart s)
  with assms(1) [of s] assms(3) show ?thesis by (simp add: content_protocol_bytes_def)
next
  case (ImagePart uri m)
  with assms(3) obtain n where "modality_cost t Image_Input = Inr n" "c = content_protocol_bytes + n"
    by (auto simp: result_bind_eq_Inr)
  with media_boundedD [OF assms(2), of p n] ImagePart show ?thesis
    by (simp add: content_protocol_bytes_def)
next
  case (DocumentPart uri m title)
  with assms(3) obtain n where "modality_cost t Document_Input = Inr n" "c = content_protocol_bytes + n"
    by (auto simp: result_bind_eq_Inr)
  with media_boundedD [OF assms(2), of p n] DocumentPart show ?thesis
    by (simp add: content_protocol_bytes_def)
qed

lemma traverse_sum_bound:
  "traverse f xs = Inr cs \<Longrightarrow> (\<And>x c. x \<in> set xs \<Longrightarrow> f x = Inr c \<Longrightarrow> g x \<le> c) \<Longrightarrow>
     sum_list (map g xs) \<le> sum_list (cs :: int list)"
  by (induction xs arbitrary: cs) (fastforce simp: result_bind_eq_Inr intro: add_mono)+

lemma message_cost_bound:
  assumes "\<And>s. text s \<le> utf8_length s" and "media_bounded t media" and "message_cost t m = Inr c"
  shows "text (or_empty (msg_name m)) + sum_list (map (part_tokens text media) (msg_content m)) \<le> c"
proof -
  from assms(3) obtain costs where costs: "traverse (part_cost t) (msg_content m) = Inr costs"
    and c: "c = message_protocol_bytes + utf8_length (message_role_value (msg_role m)) +
      utf8_length (or_empty (msg_name m)) + utf8_length (or_empty (msg_tool_call_id m)) +
      sum_list costs"
    by (auto simp: message_cost_def result_bind_eq_Inr)
  have "sum_list (map (part_tokens text media) (msg_content m)) \<le> sum_list costs"
    by (rule traverse_sum_bound [OF costs]) (rule part_cost_bound [OF assms(1,2)])
  then show ?thesis
    using assms(1) [of "or_empty (msg_name m)"] utf8_length_nonneg [of "message_role_value (msg_role m)"]
      utf8_length_nonneg [of "or_empty (msg_tool_call_id m)"]
    unfolding c message_protocol_bytes_def by linarith
qed

lemma json_bytes_nonneg: "json_bytes repr v = Inr n \<Longrightarrow> 0 \<le> n"
  by (auto simp: json_bytes_def result_bind_eq_Inr)

lemma tool_cost_bound:
  assumes "\<And>s. text s \<le> utf8_length s" and "tool_cost repr d = Inr c"
  shows "text (tool_name d) + text (tool_description d) \<le> c"
  using assms(2) assms(1) [of "tool_name d"] assms(1) [of "tool_description d"]
  by (auto simp: tool_cost_def result_bind_eq_Inr tool_protocol_bytes_def dest: json_bytes_nonneg)

lemma structured_cost_nonneg: "structured_cost repr c = Inr n \<Longrightarrow> 0 \<le> n"
  by (auto simp: structured_cost_def result_bind_eq_Inr structured_protocol_bytes_def
      dest!: json_bytes_nonneg split: option.splits)

lemma estimate_tokens_bound:
  assumes "\<And>s. text s \<le> utf8_length s" and "media_bounded t media"
    and "estimate_tokens repr t r = Inr e"
  shows "request_tokens text media r \<le> te_upper_bound e"
proof -
  from assms(3) obtain ms ts s where ms: "traverse (message_cost t) (req_messages r) = Inr ms"
    and ts: "traverse (tool_cost repr) (req_tools r) = Inr ts"
    and s: "structured_cost repr (req_structured r) = Inr s"
    and e: "te_upper_bound e = sum_list ms + sum_list ts + s"
    by (auto simp: estimate_tokens_def token_estimate_post_init_def result_bind_eq_Inr)
  have "sum_list (map (\<lambda>m. text (or_empty (msg_name m)) +
      sum_list (map (part_tokens text media) (msg_content m))) (req_messages r)) \<le> sum_list ms"
    by (rule traverse_sum_bound [OF ms]) (rule message_cost_bound [OF assms(1,2)])
  moreover have "sum_list (map (\<lambda>d. text (tool_name d) + text (tool_description d)) (req_tools r))
      \<le> sum_list ts"
    by (rule traverse_sum_bound [OF ts]) (rule tool_cost_bound [OF assms(1)])
  ultimately show ?thesis
    using structured_cost_nonneg [OF s] by (simp add: request_tokens_def e)
qed

text \<open>A capability profile that passed its constructor has a bound for every modality it accepts.\<close>

lemma modality_cost_defined:
  assumes "capability_profile_post_init (target_capabilities t) = Inr ()"
    and "m \<in> cap_modalities (target_capabilities t)" and "m \<noteq> Text_Input"
  shows "\<exists>n. modality_cost t m = Inr n \<and> 0 < n"
  using assms
  by (auto simp: capability_profile_post_init_def result_bind_eq_Inr modality_cost_def bound_of_def
      split: option.splits)

lemma part_cost_defined:
  assumes "capability_profile_post_init (target_capabilities t) = Inr ()"
    and "part_modality p \<in> cap_modalities (target_capabilities t)"
  shows "\<exists>c. part_cost t p = Inr c"
  using assms modality_cost_defined [of t Image_Input] modality_cost_defined [of t Document_Input]
  by (cases p) auto

lemma messages_cost_defined:
  assumes "capability_profile_post_init (target_capabilities t) = Inr ()"
    and "input_modalities r \<subseteq> cap_modalities (target_capabilities t)"
  shows "\<exists>ms. traverse (message_cost t) (req_messages r) = Inr ms"
proof (rule traverse_total)
  fix m
  assume m: "m \<in> set (req_messages r)"
  have "\<exists>cs. traverse (part_cost t) (msg_content m) = Inr cs"
  proof (rule traverse_total)
    fix p
    assume "p \<in> set (msg_content m)"
    with m assms(2) have "part_modality p \<in> cap_modalities (target_capabilities t)"
      by (auto simp: input_modalities_def)
    with assms(1) show "\<exists>c. part_cost t p = Inr c" by (rule part_cost_defined)
  qed
  then show "\<exists>c. message_cost t m = Inr c" by (auto simp: message_cost_def)
qed

end
