(* ===== verification/Gateway_Samples.thy ===== *)
theory Gateway_Samples
  imports Gateway_Shared Token_Estimator
begin

section \<open>Sample calls of the gateway\<close>

text \<open>
  One route with a primary target and a fallback, one request, and environments in which a call
  retries and succeeds, or streams and breaks off, for the witnesses of the properties. The clock
  advances by a hundredth of a second per observation.
\<close>

definition gw_limits :: "rat model_limits" where
  "gw_limits = \<lparr>attempt_timeout_seconds = 30, stream_first_byte_timeout_seconds = 15,
     stream_idle_timeout_seconds = 30, max_retries = 1, retry_base_delay_seconds = 1 / 4,
     retry_max_delay_seconds = 2, rate_limit_per_second = None, rate_limit_burst = 1,
     circuit_failure_threshold = 5, circuit_recovery_seconds = 30\<rparr>"

definition gw_capabilities :: capability_profile where
  "gw_capabilities = \<lparr>cap_tool_calling = False, cap_structured_output = False,
     cap_modalities = {Text_Input}, cap_bounds = [], cap_max_context = 8192,
     cap_max_output = 1024, cap_usage_available = True\<rparr>"

definition gw_target :: "string \<Rightarrow> model_target" where
  "gw_target name = \<lparr>target_provider = ProviderId ''fake'', target_model_id = name,
     target_credential = None, target_capabilities = gw_capabilities, target_limits = gw_limits\<rparr>"

definition gw_route :: model_route where
  "gw_route = \<lparr>route_primary = gw_target ''one'', route_fallbacks = [gw_target ''two''],
     route_total_timeout = 60\<rparr>"

definition gw_message :: message where
  "gw_message = \<lparr>msg_role = User_Role, msg_content = [TextPart ''hi''], msg_tool_call_id = None,
     msg_name = None\<rparr>"

definition gw_request :: model_request where
  "gw_request = \<lparr>req_id = ''r1'', req_messages = [gw_message], req_max_output_tokens = 100,
     req_capabilities = {}, req_tools = [], req_structured = None, req_temperature = None,
     req_stop = []\<rparr>"

definition gw_estimate :: "model_target \<Rightarrow> model_request \<Rightarrow> exn + int" where
  "gw_estimate t r = result_bind (estimate_tokens (\<lambda>_. []) t r) (\<lambda>e. Inr (te_upper_bound e))"

definition gw_config :: gateway_config where
  "gw_config = \<lparr>gc_providers = [ProviderId ''fake''], gc_has_secrets = False, gc_has_sink = True,
     gc_estimate = gw_estimate, gc_loads = (\<lambda>_. Decode_Error)\<rparr>"

definition gw_shared :: gateway_shared where
  "gw_shared = \<lparr>gs_limiters = (\<lambda>_. None), gs_breakers = (\<lambda>_. None)\<rparr>"

definition gw_unavailable :: raised where
  "gw_unavailable = Raised_Model (new_model_error Unavailable ''down'' ''r1'')"

definition gw_reply :: provider_response where
  "gw_reply = \<lparr>pr_content = [''ok''], pr_finish_reason = Finish_Stop, pr_usage = None,
     pr_provider_request_id = None, pr_tool_calls = [], pr_structured = PyNone\<rparr>"

definition gw_chunk :: "string \<Rightarrow> provider_chunk" where
  "gw_chunk t = \<lparr>pc_text_delta = Some t, pc_tool_call_delta = None, pc_usage = None,
     pc_finish_reason = None, pc_provider_request_id = None, pc_structured = PyNone\<rparr>"

text \<open>The first provider call fails, the second one answers; a stream breaks after one delta.\<close>

definition gw_world :: world where
  "gw_world = \<lparr>w_clock = (\<lambda>n. of_nat n / 100), w_utc = (\<lambda>n. 0), w_random = (\<lambda>n. 1 / 2),
     w_waits = (\<lambda>n. (1, Raised_Timeout)), w_resolve = (\<lambda>n. Resolution_Failed),
     w_complete = (\<lambda>n. if n < 10 then Inl gw_unavailable else Inr gw_reply),
     w_stream = (\<lambda>n. if n < 10 then ([], Some gw_unavailable)
       else ([gw_chunk ''he'', gw_chunk ''llo''], Some Raised_Timeout)),
     w_close = (\<lambda>n. None), w_sleep = (\<lambda>n. None), w_others = (\<lambda>n g. g), w_closes_at = None\<rparr>"

lemma gw_world_standard: "world_standard gw_world"
  by (simp add: world_standard_def gw_world_def gw_unavailable_def)

lemma gw_route_ok: "route_ok gw_route"
  by (simp add: route_ok_def gw_route_def route_targets_def gw_target_def gw_limits_def)

end
