(* ===== verification/Model_Usage.thy ===== *)
theory Model_Usage
  imports Model_Contracts
begin

section \<open>Aggregated usage\<close>

text \<open>
  \<open>ModelUsage.aggregate\<close>: sums of what is known, marked incomplete when something is unknown. The
  result always passes the constructor; only the decimal sum of the amounts can overflow.
\<close>

definition usage_ok :: "model_usage \<Rightarrow> bool" where
  "usage_ok u \<longleftrightarrow> model_usage_post_init u = Inr ()"

lemma amount_ok_iff:
  "amount_ok a = Inr () \<longleftrightarrow> (\<forall>d. a = Some d \<longrightarrow> d \<noteq> NaN \<and> \<not> is_negative d)"
  by (cases a; cases "the a") (auto simp: amount_ok_def)

lemma usage_ok_iff:
  "usage_ok u \<longleftrightarrow> non_negative (us_input u) \<and> non_negative (us_output u) \<and> non_negative (us_total u) \<and>
     (us_incomplete u \<or> (\<forall>t. us_total u = Some t \<longrightarrow> or_zero (us_input u) + or_zero (us_output u) \<le> t)) \<and>
     (us_amount u = None) = (us_currency u = None) \<and>
     (\<forall>d. us_amount u = Some d \<longrightarrow> d \<noteq> NaN \<and> \<not> is_negative d)"
  unfolding usage_ok_def model_usage_post_init_def
  by (auto simp: result_bind_eq_Inr amount_ok_iff split: option.splits)

subsection \<open>Known values\<close>

lemma known_simps [simp]: "known [] = []" "known (None # vs) = known vs" "known (Some v # vs) = v # known vs"
  by (simp_all add: known_def)

lemma length_known: "length (known vs) \<le> length vs"
  by (simp add: known_def)

lemma length_known_eq: "length (known vs) = length vs \<longleftrightarrow> None \<notin> set vs"
proof (induction vs)
  case (Cons v vs)
  then show ?case using length_known [of vs] by (cases v) auto
qed simp

lemma set_known: "set (known vs) = {v. Some v \<in> set vs}"
  by (induction vs) (auto simp: known_def)

lemma sum_known: "sum_list (known vs) = sum_list (map or_zero vs)"
proof (induction vs)
  case (Cons v vs)
  then show ?case by (cases v) (simp_all add: or_zero_def)
qed simp

lemma sum_list_nonneg_known:
  "(\<And>v. v \<in> set vs \<Longrightarrow> non_negative v) \<Longrightarrow> 0 \<le> sum_list (known (vs :: int option list))"
proof (induction vs)
  case (Cons v vs)
  then have "0 \<le> sum_list (known vs)" and "non_negative v" by simp_all
  then show ?case by (cases v) (simp_all add: non_negative_def)
qed simp

subsection \<open>Sums of amounts\<close>

definition amount :: "decimal \<Rightarrow> bool" where
  "amount d \<longleftrightarrow> d \<noteq> NaN \<and> \<not> is_negative d"

lemma decimal_fix_amount: "decimal_fix s c e = Inr d \<Longrightarrow> \<not> s \<or> c = 0 \<Longrightarrow> amount d"
  by (auto simp: decimal_fix_def amount_def Let_def split: if_splits)

lemma decimal_fix_error: "decimal_fix s c e = Inl x \<Longrightarrow> x = ArithmeticError"
  by (auto simp: decimal_fix_def Let_def split: if_splits)

lemma aligned_amount: "amount (Fin s c e) \<Longrightarrow> 0 \<le> aligned (Fin s c e) m"
  by (auto simp: amount_def)

lemma decimal_add_amount:
  assumes "amount a" and "amount b"
  shows "(\<exists>d. decimal_add a b = Inr d \<and> amount d) \<or> decimal_add a b = Inl ArithmeticError"
proof -
  have "(\<exists>d. decimal_fix s c e = Inr d \<and> amount d) \<or> decimal_fix s c e = Inl ArithmeticError"
    if "\<not> s \<or> c = 0" for s c e
    using that decimal_fix_amount [of s c e] decimal_fix_error [of s c e]
    by (cases "decimal_fix s c e") auto
  note fixed = this
  show ?thesis
  proof (cases a)
    case a: (Fin s1 c1 e1)
    show ?thesis
    proof (cases b)
      case b: (Fin s2 c2 e2)
      let ?m = "min e1 e2"
      have "0 \<le> aligned (Fin s1 c1 e1) ?m + aligned (Fin s2 c2 e2) ?m"
        using assms a b aligned_amount by (simp only: add_nonneg_nonneg)
      with a b show ?thesis by (auto simp only: decimal_add.simps Let_def intro!: fixed)
    qed (use assms a in \<open>auto simp: amount_def\<close>)
  next
    case (Infinite s)
    with assms show ?thesis by (cases b) (auto simp: amount_def)
  qed (use assms in \<open>auto simp: amount_def\<close>)
qed

lemma decimal_sum_amount:
  "amount acc \<Longrightarrow> (\<And>d. d \<in> set ds \<Longrightarrow> amount d) \<Longrightarrow>
     (\<exists>d. decimal_sum acc ds = Inr d \<and> amount d) \<or> decimal_sum acc ds = Inl ArithmeticError"
proof (induction ds arbitrary: acc)
  case (Cons d ds)
  then consider x where "decimal_add acc d = Inr x" "amount x" | "decimal_add acc d = Inl ArithmeticError"
    using decimal_add_amount [of acc d] by fastforce
  then show ?case by cases (use Cons in simp_all)
qed simp

subsection \<open>The aggregate\<close>

definition amounts_known :: "model_usage list \<Rightarrow> bool" where
  "amounts_known us \<longleftrightarrow> None \<notin> set (map us_amount us) \<and>
     length (dedup (known (map us_currency us))) = 1"

definition aggregate_complete :: "model_usage list \<Rightarrow> bool" where
  "aggregate_complete us \<longleftrightarrow> (\<forall>u \<in> set us. \<not> us_incomplete u \<and> us_input u \<noteq> None \<and>
     us_output u \<noteq> None \<and> us_total u \<noteq> None) \<and> amounts_known us"

definition sum_of_known :: "int option list \<Rightarrow> int option" where
  "sum_of_known vs = (if known vs = [] then None else Some (sum_list (known vs)))"

lemma aggregate_optional_eq:
  "aggregate_optional vs = (sum_of_known vs, None \<in> set vs)"
  by (simp add: aggregate_optional_def sum_of_known_def length_known_eq)

definition aggregated :: "model_usage list \<Rightarrow> decimal option \<Rightarrow> model_usage" where
  "aggregated us amt = empty_usage\<lparr>us_input := sum_of_known (map us_input us),
     us_output := sum_of_known (map us_output us), us_total := sum_of_known (map us_total us),
     us_amount := amt,
     us_currency := (if amounts_known us then Some (hd (dedup (known (map us_currency us)))) else None),
     us_incomplete := \<not> aggregate_complete us\<rparr>"

lemma list_ex_None: "list_ex (\<lambda>a. a = None) vs \<longleftrightarrow> None \<in> set vs"
  by (auto simp: list_ex_iff)

lemma aggregate_usage_eq:
  assumes "us \<noteq> []"
  shows "aggregate_usage us =
    result_bind (if amounts_known us
        then result_bind (decimal_sum dec_zero (known (map us_amount us))) (\<lambda>d. Inr (Some d))
        else Inr None)
      (\<lambda>amt. result_bind (model_usage_post_init (aggregated us amt)) (\<lambda>_. Inr (aggregated us amt)))"
proof -
  have 1: "(list_ex (\<lambda>a. a = None) (map us_amount us) \<or> length (dedup (known (map us_currency us))) \<noteq> 1)
      = (\<not> amounts_known us)"
    by (simp add: amounts_known_def list_ex_None)
  have 2: "(list_ex us_incomplete us \<or> None \<in> set (map us_input us) \<or> None \<in> set (map us_output us) \<or>
      None \<in> set (map us_total us) \<or> \<not> amounts_known us) = (\<not> aggregate_complete us)"
    by (force simp: aggregate_complete_def list_ex_iff)
  show ?thesis
    using assms
    by (simp only: aggregate_usage_def Let_def aggregate_optional_eq prod.case 1 2 aggregated_def
        if_False if_not_P [OF assms]) (simp add: aggregated_def)
qed

lemma sum_of_known_nonneg:
  "(\<And>v. v \<in> set vs \<Longrightarrow> non_negative v) \<Longrightarrow> non_negative (sum_of_known vs)"
  using sum_list_nonneg_known [of vs] by (simp add: sum_of_known_def non_negative_def)

lemma or_zero_sum_of_known: "or_zero (sum_of_known vs) = sum_list (map or_zero vs)"
  using sum_known [of vs] by (auto simp: sum_of_known_def or_zero_def)

lemma aggregated_ok:
  assumes ok: "\<And>u. u \<in> set us \<Longrightarrow> usage_ok u"
    and amt: "(amt \<noteq> None) = amounts_known us" "\<And>d. amt = Some d \<Longrightarrow> amount d"
  shows "model_usage_post_init (aggregated us amt) = Inr ()"
proof -
  have "sum_list (map (or_zero \<circ> us_input) us) + sum_list (map (or_zero \<circ> us_output) us)
      \<le> sum_list (map (or_zero \<circ> us_total) us)" if "aggregate_complete us"
  proof -
    have "or_zero (us_input u) + or_zero (us_output u) \<le> or_zero (us_total u)" if "u \<in> set us" for u
      using ok [OF that] \<open>aggregate_complete us\<close> that
      by (cases "us_total u") (auto simp: usage_ok_iff aggregate_complete_def or_zero_def)
    then show ?thesis
      using sum_list_mono [of us "\<lambda>u. or_zero (us_input u) + or_zero (us_output u)"
          "\<lambda>u. or_zero (us_total u)"]
      by (simp add: sum_list_addf comp_def)
  qed
  then have sums: "or_zero (sum_of_known (map us_input us)) + or_zero (sum_of_known (map us_output us)) \<le> t"
    if "aggregate_complete us" and "sum_of_known (map us_total us) = Some t" for t
    using that or_zero_sum_of_known [of "map us_total us"]
    by (simp add: or_zero_sum_of_known comp_def) (simp add: or_zero_def)
  have "non_negative (sum_of_known (map us_input us))" "non_negative (sum_of_known (map us_output us))"
    "non_negative (sum_of_known (map us_total us))"
    using ok by (auto simp: usage_ok_iff intro!: sum_of_known_nonneg)
  with amt sums have "usage_ok (aggregated us amt)"
    unfolding usage_ok_iff aggregated_def empty_usage_def
    by (auto simp: amount_def)
  then show ?thesis by (simp add: usage_ok_def)
qed

lemma sum_of_known_all:
  "None \<notin> set vs \<Longrightarrow> vs \<noteq> [] \<Longrightarrow> sum_of_known vs = Some (sum_list (map the vs))"
proof -
  assume all: "None \<notin> set vs" and ne: "vs \<noteq> []"
  then have "filter (\<lambda>v. v \<noteq> None) vs = vs" by (intro filter_True) (metis)
  then have "known vs = map the vs" by (simp add: known_def)
  with ne show ?thesis by (simp add: sum_of_known_def)
qed

lemma aggregated_complete:
  assumes "aggregate_complete us" and "us \<noteq> []"
  shows "us_input (aggregated us amt) = Some (sum_list (map (the \<circ> us_input) us))"
    and "us_output (aggregated us amt) = Some (sum_list (map (the \<circ> us_output) us))"
    and "us_total (aggregated us amt) = Some (sum_list (map (the \<circ> us_total) us))"
    and "us_incomplete (aggregated us amt) = False"
proof -
  have "None \<notin> set (map us_input us)" "None \<notin> set (map us_output us)" "None \<notin> set (map us_total us)"
    using assms(1) by (force simp: aggregate_complete_def)+
  from this [THEN sum_of_known_all] assms show
    "us_input (aggregated us amt) = Some (sum_list (map (the \<circ> us_input) us))"
    "us_output (aggregated us amt) = Some (sum_list (map (the \<circ> us_output) us))"
    "us_total (aggregated us amt) = Some (sum_list (map (the \<circ> us_total) us))"
    "us_incomplete (aggregated us amt) = False"
    by (simp_all add: aggregated_def)
qed

lemma known_amounts:
  assumes "\<forall>u \<in> set us. usage_ok u" and "d \<in> set (known (map us_amount us))"
  shows "amount d"
proof -
  from assms(2) obtain u where "u \<in> set us" "us_amount u = Some d"
    by (force simp: set_known)
  with assms(1) show ?thesis by (auto simp: usage_ok_iff amount_def)
qed

text \<open>
  The aggregate of usages. For valid usages the aggregate is the usage of the sums of the known
  counts, with the sum of the amounts when every amount is known in one currency. It always passes
  its constructor, it is incomplete exactly when some count is unknown, some usage is incomplete or
  the amounts cannot be added, and it is complete only with the exact sums. The only error is an
  overflow of the decimal sum.
\<close>

theorem aggregate_usage_sums:
  assumes "us \<noteq> []" and ok: "\<forall>u \<in> set us. usage_ok u"
  shows "(aggregate_usage us =
      (if amounts_known us
       then result_bind (decimal_sum dec_zero (known (map us_amount us))) (\<lambda>d. Inr (aggregated us (Some d)))
       else Inr (aggregated us None)))
    \<and> (\<forall>u. aggregate_usage us = Inr u \<longrightarrow> usage_ok u \<and>
        (us_incomplete u \<longleftrightarrow> \<not> aggregate_complete us) \<and>
        (aggregate_complete us \<longrightarrow> us_input u = Some (sum_list (map (the \<circ> us_input) us)) \<and>
          us_output u = Some (sum_list (map (the \<circ> us_output) us)) \<and>
          us_total u = Some (sum_list (map (the \<circ> us_total) us)) \<and>
          decimal_sum dec_zero (known (map us_amount us)) = Inr (the (us_amount u))))
    \<and> (\<forall>e. aggregate_usage us = Inl e \<longrightarrow> e = ArithmeticError)"
proof -
  have zero: "amount dec_zero" by (simp add: amount_def dec_zero_def)
  have sum: "(\<exists>d. decimal_sum dec_zero (known (map us_amount us)) = Inr d \<and> amount d) \<or>
      decimal_sum dec_zero (known (map us_amount us)) = Inl ArithmeticError"
    by (rule decimal_sum_amount [OF zero]) (rule known_amounts [OF ok])
  have valid: "model_usage_post_init (aggregated us amt) = Inr ()"
    if "(amt \<noteq> None) = amounts_known us" and "\<And>d. amt = Some d \<Longrightarrow> amount d" for amt
    using aggregated_ok [OF _ that] ok by simp
  have eq: "aggregate_usage us =
      (if amounts_known us
       then result_bind (decimal_sum dec_zero (known (map us_amount us))) (\<lambda>d. Inr (aggregated us (Some d)))
       else Inr (aggregated us None))"
    using sum valid [of None] valid [of "Some d" for d]
    by (auto simp: aggregate_usage_eq [OF assms(1)])
  have known: "aggregate_complete us \<Longrightarrow> amounts_known us" by (simp add: aggregate_complete_def)
  have result: "usage_ok u \<and> (us_incomplete u \<longleftrightarrow> \<not> aggregate_complete us)"
    if "u = aggregated us amt" and "(amt \<noteq> None) = amounts_known us" and "\<And>d. amt = Some d \<Longrightarrow> amount d"
    for u amt
    using valid [OF that(2,3)] that(1) by (simp add: usage_ok_def aggregated_def)
  show ?thesis
  proof (cases "amounts_known us")
    case False
    with known have "\<not> aggregate_complete us" by blast
    with False eq result [OF refl, of None] show ?thesis by simp
  next
    case True
    from sum show ?thesis
    proof (elim disjE exE conjE)
      fix d
      assume d: "decimal_sum dec_zero (known (map us_amount us)) = Inr d" "amount d"
      have "us_amount (aggregated us (Some d)) = Some d" by (simp add: aggregated_def)
      with True eq d result [OF refl, of "Some d"] aggregated_complete [OF _ assms(1)]
      show ?thesis by simp
    next
      assume "decimal_sum dec_zero (known (map us_amount us)) = Inl ArithmeticError"
      with True eq show ?thesis by simp
    qed
  qed
qed

definition usage_sample :: "int \<Rightarrow> int \<Rightarrow> decimal option \<Rightarrow> model_usage" where
  "usage_sample i out amt = empty_usage\<lparr>us_input := Some i, us_output := Some out,
     us_total := Some (i + out), us_amount := amt, us_currency := map_option (\<lambda>_. ''USD'') amt\<rparr>"

theorem aggregate_usage_sums_witness:
  "let us = [usage_sample 3 4 (Some (Fin False 25 (-2))), usage_sample 10 1 (Some (Fin False 5 (-1)))] in
   (\<forall>u \<in> set us. usage_ok u) \<and> aggregate_complete us \<and>
   (\<exists>u. aggregate_usage us = Inr u \<and> us_total u = Some 18 \<and> us_amount u = Some (Fin False 75 (-2)))"
proof -
  let ?us = "[usage_sample 3 4 (Some (Fin False 25 (-2))), usage_sample 10 1 (Some (Fin False 5 (-1)))]"
  have ok: "\<forall>u \<in> set ?us. usage_ok u" by code_simp
  have complete: "aggregate_complete ?us" by code_simp
  have "map_option us_amount (case aggregate_usage ?us of Inr u \<Rightarrow> Some u | Inl _ \<Rightarrow> None)
      = Some (Some (Fin False 75 (-2)))" by code_simp
  then obtain u where u: "aggregate_usage ?us = Inr u" "us_amount u = Some (Fin False 75 (-2))"
    by (auto split: sum.splits)
  from aggregate_usage_sums [of ?us] ok complete u(1) have "us_total u = Some 18"
    by (simp add: usage_sample_def)
  with ok complete u show ?thesis by auto
qed

end
