(* ===== verification/Gateway_Properties.thy ===== *)
theory Gateway_Properties
  imports Gateway_Samples Model_Usage
begin

section \<open>Properties of the model gateway\<close>

text \<open>
  What a caller of the gateway can rely on, for any environment (clock, provider, secrets, other
  calls) and any interleaving with calls that share its limiters and breakers.
\<close>

subsection \<open>Calls\<close>

text \<open>
  C23: The attempts of a completion. However \<open>complete\<close> ends, there is a history of its attempts:
  numbered from one, at most \<open>max_retries + 1\<close> per target of the route, each one but the first a
  retry of the same target after a retryable error, or the first attempt on the next target after
  an error that allows fallback, with that error as its fallback reason. The sink got exactly this
  history, the provider was called at most once per attempt and on the attempt's target. A response
  carries the history with a success at its end and the aggregate of its usages, a model error
  carries it with failures only, and no chunk is yielded.
\<close>

theorem complete_attempt_history:
  assumes "world_standard w" and "route_ok route" and "preflight_route cfg route r = Inr ()"
    and "complete cfg w route r shared = (res, s)"
  shows "\<exists>as. history (route_keys route) as \<and> length as \<le> retry_budget (route_targets route) \<and>
    emitted_attempts (cs_effects s) = (if gc_has_sink cfg then as else []) \<and>
    subseq (called_keys (cs_effects s)) (map attempt_key as) \<and> cs_chunks s = [] \<and>
    (case res of
       Call_Answered rsp \<Rightarrow> rsp_attempts rsp = as \<and> as \<noteq> [] \<and> at_outcome (last as) = Attempt_Succeeded \<and>
         model_response_post_init rsp = Inr () \<and>
         aggregate_usage (known (map at_usage as)) = Inr (rsp_total_usage rsp)
     | Call_Raised x \<Rightarrow> (\<forall>e. x = Raised_Model e \<longrightarrow> me_attempts e = as \<and> all_failed as)
     | Call_Stopped \<Rightarrow> False)"
proof -
  from complete_ended [OF assms] obtain as where
    "length as \<le> retry_budget (route_targets route)"
    "call_ok cfg (call_deadline w route) (route_keys route) as s" and ended: "call_ended res as s"
    by blast
  moreover have "cs_chunks s = []" and "res \<noteq> Call_Stopped"
    using complete_silent [OF assms(4)] by simp_all
  moreover from this ended have "case res of
       Call_Answered rsp \<Rightarrow> rsp_attempts rsp = as \<and> as \<noteq> [] \<and> at_outcome (last as) = Attempt_Succeeded \<and>
         model_response_post_init rsp = Inr () \<and>
         aggregate_usage (known (map at_usage as)) = Inr (rsp_total_usage rsp)
     | Call_Raised x \<Rightarrow> (\<forall>e. x = Raised_Model e \<longrightarrow> me_attempts e = as \<and> all_failed as)
     | Call_Stopped \<Rightarrow> False"
    by (cases res) (auto simp: call_ended_def answered_def raised_ended_def usage_totalled_def)
  ultimately show ?thesis unfolding call_ok_def by (intro exI [of _ as]) blast
qed

theorem complete_attempt_history_witness:
  "\<exists>as. history (route_keys gw_route) as \<and> length as \<le> 4 \<and>
     emitted_attempts (cs_effects (snd (complete gw_config gw_world gw_route gw_request gw_shared))) = as \<and>
     map at_no as = [1, 2]"
proof -
  let ?c = "complete gw_config gw_world gw_route gw_request gw_shared"
  have "preflight_route gw_config gw_route gw_request = Inr ()" by code_simp
  from complete_attempt_history [OF gw_world_standard gw_route_ok this prod.collapse [symmetric]]
  obtain as where as: "history (route_keys gw_route) as"
    "length as \<le> retry_budget (route_targets gw_route)"
    "emitted_attempts (cs_effects (snd ?c)) = (if gc_has_sink gw_config then as else [])" by blast
  have "gc_has_sink gw_config" "retry_budget (route_targets gw_route) = 4" by code_simp+
  moreover have "map at_no (emitted_attempts (cs_effects (snd ?c))) = [1, 2]" by code_simp
  ultimately show ?thesis using as by (intro exI [of _ as]) simp
qed

text \<open>
  C24: The chunk protocol of a stream. The chunks are numbered from zero without gaps and each
  passes its constructor. A stream that ends with a response has yielded one terminal chunk, the
  last one, that carries it; a stream that stops has yielded one error chunk, the last one, that
  carries the failed attempts; a stream that raises a model error has yielded neither, and no
  visible chunk. After a visible chunk (a text or tool-call delta) no provider is called again.
\<close>

theorem stream_chunk_protocol:
  assumes "world_standard w" and "route_ok route" and "preflight_route cfg route r = Inr ()"
    and "stream cfg w route r shared = (res, s)"
  shows "map ck_sequence (cs_chunks s) = map int [0..<length (cs_chunks s)] \<and>
    (\<forall>c \<in> set (cs_chunks s). payload_ok c) \<and> settled (cs_effects s) \<and>
    (case res of
       Call_Answered rsp \<Rightarrow> \<exists>cs c. cs_chunks s = cs @ [c] \<and> list_all (body_kind \<circ> ck_kind) cs \<and>
         ck_kind c = Terminal_Chunk \<and> ck_terminal c = Some rsp
     | Call_Stopped \<Rightarrow> \<exists>cs c e. cs_chunks s = cs @ [c] \<and> list_all (body_kind \<circ> ck_kind) cs \<and>
         ck_kind c = Error_Chunk \<and> ck_error c = Some e \<and> me_attempts e = cs_attempts s
     | Call_Raised x \<Rightarrow> (\<forall>e. x = Raised_Model e \<longrightarrow> list_all (body_kind \<circ> ck_kind) (cs_chunks s) \<and>
         (\<forall>f \<in> set (cs_effects s). \<not> visible_effect f)))"
proof -
  from stream_ended_all [OF assms] obtain as where
    ok: "call_ok cfg (call_deadline w route) (route_keys route) as s" and ended: "stream_ended res as s"
    by blast
  have numbers: "map ck_sequence (cs_chunks s) = map int [0..<length (cs_chunks s)]"
    and settled: "settled (cs_effects s)" and shown: "shown s"
    using ok by (simp_all add: call_ok_def numbered_def)
  have payload: "\<forall>c \<in> set (cs_chunks s). payload_ok c"
    using ended
    by (cases res)
      (auto simp: stream_ended_def terminal_ended_def error_ended_def body_only_def body_chunk_def)
  have "case res of
       Call_Answered rsp \<Rightarrow> \<exists>cs c. cs_chunks s = cs @ [c] \<and> list_all (body_kind \<circ> ck_kind) cs \<and>
         ck_kind c = Terminal_Chunk \<and> ck_terminal c = Some rsp
     | Call_Stopped \<Rightarrow> \<exists>cs c e. cs_chunks s = cs @ [c] \<and> list_all (body_kind \<circ> ck_kind) cs \<and>
         ck_kind c = Error_Chunk \<and> ck_error c = Some e \<and> me_attempts e = cs_attempts s
     | Call_Raised x \<Rightarrow> (\<forall>e. x = Raised_Model e \<longrightarrow> list_all (body_kind \<circ> ck_kind) (cs_chunks s) \<and>
         (\<forall>f \<in> set (cs_effects s). \<not> visible_effect f))"
  proof (cases res)
    case (Call_Answered rsp)
    with ended show ?thesis
      by (auto simp: stream_ended_def terminal_ended_def body_chunk_def list_all_iff)
  next
    case Call_Stopped
    with ended show ?thesis
      by (auto simp: stream_ended_def error_ended_def body_chunk_def list_all_iff)
  next
    case (Call_Raised x)
    with ended shown show ?thesis
      by (auto simp: stream_ended_def body_only_def body_chunk_def list_all_iff shown_def)
  qed
  with numbers payload settled show ?thesis by blast
qed

theorem stream_chunk_protocol_witness:
  "map ck_kind (cs_chunks (snd (stream gw_config gw_world gw_route gw_request gw_shared)))
     = [Text_Delta, Text_Delta, Error_Chunk] \<and>
   map ck_sequence (cs_chunks (snd (stream gw_config gw_world gw_route gw_request gw_shared)))
     = map int [0..<3] \<and>
   settled (cs_effects (snd (stream gw_config gw_world gw_route gw_request gw_shared)))"
proof -
  let ?c = "stream gw_config gw_world gw_route gw_request gw_shared"
  have "preflight_route gw_config gw_route gw_request = Inr ()" by code_simp
  note property = stream_chunk_protocol [OF gw_world_standard gw_route_ok this prod.collapse [symmetric]]
  have "map ck_kind (cs_chunks (snd ?c)) = [Text_Delta, Text_Delta, Error_Chunk]" by code_simp
  moreover from this have "length (cs_chunks (snd ?c)) = 3"
    by (metis length_map list.size(3,4) numeral_3_eq_3 One_nat_def add_Suc_shift add.right_neutral)
  ultimately show ?thesis using property by simp
qed

text \<open>
  C25: The deadline. Every wait for a provider's response or for the next chunk of its stream begins before the
  deadline of the call (the clock at its start plus the route's total timeout), and the timeout it
  runs under ends by the deadline, whatever the timeouts of the target.
\<close>

theorem provider_awaits_within_deadline:
  assumes "world_standard w" and "route_ok route"
    and "Provider_Awaited now timeout \<in> set (cs_effects (snd (complete cfg w route r shared))) \<union>
      set (cs_effects (snd (stream cfg w route r shared)))"
  shows "now < call_deadline w route \<and> now + timeout \<le> call_deadline w route"
proof (cases "preflight_route cfg route r")
  case (Inl x)
  with assms(3) show ?thesis by (simp add: complete_def stream_def Let_def call_start_def)
next
  case (Inr u)
  then have pre: "preflight_route cfg route r = Inr ()" by simp
  from complete_ended [OF assms(1,2) pre prod.collapse [symmetric]]
    stream_ended_all [OF assms(1,2) pre prod.collapse [symmetric]]
  have "\<forall>e \<in> set (cs_effects (snd (complete cfg w route r shared))) \<union>
      set (cs_effects (snd (stream cfg w route r shared))). in_time (call_deadline w route) e"
    by (auto simp: call_ok_def)
  from bspec [OF this assms(3)] show ?thesis by simp
qed

theorem provider_awaits_within_deadline_witness:
  "Provider_Awaited (1 / 25) 30 \<in> set (cs_effects (snd (complete gw_config gw_world gw_route gw_request gw_shared)))
   \<and> (1 / 25 :: rat) + 30 \<le> call_deadline gw_world gw_route"
proof -
  have e: "Provider_Awaited (1 / 25) 30
      \<in> set (cs_effects (snd (complete gw_config gw_world gw_route gw_request gw_shared)))"
    by code_simp
  with provider_awaits_within_deadline [OF gw_world_standard gw_route_ok, of "1 / 25" 30 gw_config
      gw_request gw_shared] show ?thesis by simp
qed

text \<open>
  C26: Only admissible requests reach a provider. With the conservative estimator, a provider is
  called only for a target of the route whose provider is registered, whose capabilities and
  modalities cover the request, and whose context holds the request's tokens plus its requested
  output, for every way of counting tokens that gives a text at most one token per byte and a
  medium no more than the target's bound. When the preflight of any target fails, the call raises
  its error with no effect, no attempt and no change of the shared state.
\<close>

theorem provider_calls_admissible:
  assumes "world_standard w" and "route_ok route"
    and estimator: "\<And>t. gc_estimate cfg t r = result_bind (estimate_tokens repr t r) (\<lambda>e. Inr (te_upper_bound e))"
    and "\<And>s. text s \<le> utf8_length s" and "\<And>t. t \<in> set (route_targets route) \<Longrightarrow> media_bounded t media"
  shows "(Provider_Called k \<in> set (cs_effects (snd (complete cfg w route r shared))) \<union>
        set (cs_effects (snd (stream cfg w route r shared))) \<longrightarrow>
      (\<exists>t \<in> set (route_targets route). target_key t = k \<and> target_provider t \<in> set (gc_providers cfg) \<and>
        (\<forall>c \<in> req_capabilities r. supports (target_capabilities t) c) \<and>
        input_modalities r \<subseteq> cap_modalities (target_capabilities t) \<and>
        req_max_output_tokens r \<le> cap_max_output (target_capabilities t) \<and>
        request_tokens text media r + req_max_output_tokens r \<le> cap_max_context (target_capabilities t)))
    \<and> (\<forall>x. preflight_route cfg route r = Inl x \<longrightarrow>
        complete cfg w route r shared = (Call_Raised x, (call_start shared)\<lparr>cs_tick := 1\<rparr>) \<and>
        stream cfg w route r shared = (Call_Raised x, (call_start shared)\<lparr>cs_tick := 1\<rparr>))"
proof (cases "preflight_route cfg route r")
  case (Inl x)
  then show ?thesis by (simp add: complete_def stream_def Let_def call_start_def)
next
  case (Inr u)
  then have pre: "preflight_route cfg route r = Inr ()" by simp
  have "\<exists>t \<in> set (route_targets route). target_key t = k \<and> preflight_target cfg t r = Inr ()"
    if "Provider_Called k \<in> set (cs_effects (snd (complete cfg w route r shared))) \<union>
        set (cs_effects (snd (stream cfg w route r shared)))"
  proof -
    from complete_ended [OF assms(1,2) pre prod.collapse [symmetric]]
      stream_ended_all [OF assms(1,2) pre prod.collapse [symmetric]] that
    obtain as s where "call_ok cfg (call_deadline w route) (route_keys route) as s"
      and "Provider_Called k \<in> set (cs_effects s)" by blast
    then have "k \<in> set (route_keys route)" unfolding route_keys_Cons by (rule call_ok_called)
    then show ?thesis using preflight_route_all [OF pre] by (auto simp: route_keys_def)
  qed
  moreover have "target_provider t \<in> set (gc_providers cfg) \<and>
      (\<forall>c \<in> req_capabilities r. supports (target_capabilities t) c) \<and>
      input_modalities r \<subseteq> cap_modalities (target_capabilities t) \<and>
      req_max_output_tokens r \<le> cap_max_output (target_capabilities t) \<and>
      request_tokens text media r + req_max_output_tokens r \<le> cap_max_context (target_capabilities t)"
    if "t \<in> set (route_targets route)" and "preflight_target cfg t r = Inr ()" for t
  proof -
    from preflight_target_fits [OF that(2)] estimator [of t] obtain e where
      "estimate_tokens repr t r = Inr e"
      and "te_upper_bound e + req_max_output_tokens r \<le> cap_max_context (target_capabilities t)"
      by (auto simp: result_bind_eq_Inr)
    with estimate_tokens_bound [OF assms(4) assms(5) [OF that(1)] this(1)]
      preflight_target_fits [OF that(2)] show ?thesis by linarith
  qed
  ultimately show ?thesis using pre by (intro conjI) auto
qed

theorem provider_calls_admissible_witness:
  "Provider_Called (target_key (gw_target ''one''))
     \<in> set (cs_effects (snd (complete gw_config gw_world gw_route gw_request gw_shared))) \<and>
   (\<exists>t \<in> set (route_targets gw_route). target_key t = target_key (gw_target ''one'') \<and>
      request_tokens utf8_length (\<lambda>_. 0) gw_request + 100 \<le> cap_max_context (target_capabilities t))"
proof -
  have estimator: "gc_estimate gw_config t gw_request
      = result_bind (estimate_tokens (\<lambda>_. []) t gw_request) (\<lambda>e. Inr (te_upper_bound e))" for t
    by (simp add: gw_config_def gw_estimate_def)
  have media: "media_bounded t (\<lambda>_. 0)" if "t \<in> set (route_targets gw_route)" for t
    using that
    by (auto simp: media_bounded_def modality_cost_def gw_route_def route_targets_def gw_target_def
        gw_capabilities_def)
  have called: "Provider_Called (target_key (gw_target ''one''))
      \<in> set (cs_effects (snd (complete gw_config gw_world gw_route gw_request gw_shared)))"
    by code_simp
  with provider_calls_admissible [OF gw_world_standard gw_route_ok estimator order.refl media,
      of "target_key (gw_target ''one'')" gw_shared]
  show ?thesis by (auto simp: gw_request_def)
qed

text \<open>
  The shared state. If the rate limiters and circuit breakers of the gateway are well-formed
  (levels between zero and the capacity, the failure count below the threshold exactly while the
  circuit is closed) and other calls keep them so, then a completion and a stream keep them so.
\<close>

theorem gateway_shared_state_invariant:
  assumes "others_ok w" and "shared_ok shared"
  shows "shared_ok (cs_shared (snd (complete cfg w route r shared))) \<and>
    shared_ok (cs_shared (snd (stream cfg w route r shared)))"
  using complete_shared [OF assms] stream_shared [OF assms] by blast

theorem gateway_shared_state_invariant_witness:
  "shared_ok gw_shared \<and>
   shared_ok (cs_shared (snd (complete gw_config gw_world gw_route gw_request gw_shared))) \<and>
   map_option cb_failures (gs_breakers (cs_shared (snd (complete gw_config gw_world gw_route
     gw_request gw_shared))) (target_key (gw_target ''one''))) = Some 0"
proof -
  have ok: "others_ok gw_world" "shared_ok gw_shared"
    by (simp_all add: others_ok_def gw_world_def shared_ok_def gw_shared_def)
  have "map_option cb_failures (gs_breakers (cs_shared (snd (complete gw_config gw_world gw_route
     gw_request gw_shared))) (target_key (gw_target ''one''))) = Some 0"
    by code_simp
  with gateway_shared_state_invariant [OF ok] ok show ?thesis by blast
qed

end
