(* ===== verification/Limits_Properties.thy ===== *)
theory Limits_Properties
  imports Circuit_Breaker Rate_Limiter
begin

section \<open>Properties of the circuit breaker and of the rate limiter\<close>

text \<open>
  The two objects that calls to one model target share. The gateway uses them through the laws of
  \<open>Gateway_Shared\<close>; here is what each of them promises by itself.
\<close>

text \<open>The history of a breaker with threshold one that is asked again after five seconds.\<close>

definition opened_sample :: "breaker_system" where
  "opened_sample =
     (case new_circuit_breaker 1 5 of
        Inl e \<Rightarrow> undefined
      | Inr b \<Rightarrow> admit_call 5 ''r'' (finish_call 0 (1, False) (Outcome_Failure Unavailable)
          (admit_call 0 ''q'' (admit_call 0 ''p'' \<lparr>bs_breaker = b, bs_calls = [], bs_next = 0\<rparr>))))"

lemma opened_sample_reach: "breaker_reach True opened_sample"
proof -
  have "bs_calls (admit_call 0 ''q'' (admit_call 0 ''p'' \<lparr>bs_breaker = \<lparr>cb_threshold = 1,
      cb_recovery_seconds = 5, cb_state = Circuit_Closed, cb_failures = 0, cb_opened_at = None,
      cb_probe_active = False\<rparr>, bs_calls = [], bs_next = 0\<rparr>)) = [(0, False), (1, False)]"
    by (simp add: admit_call_def before_call_def)
  then show ?thesis unfolding opened_sample_def
    by (simp add: new_circuit_breaker_def)
      (intro breaker_reach.intros breaker_reach.start [of 1 5],
       simp_all add: new_circuit_breaker_def admit_call_def before_call_def)
qed

text \<open>
  Calls that were admitted by the closed circuit may report late: the cancellation of call 0, which the closed circuit
  had admitted, clears the flag of the probe 2, and a second probe is admitted beside it.
\<close>

lemma stale_cancellation_admits_second_probe:
  "\<exists>s. breaker_reach False s \<and> probes s = 2"
proof -
  have reach: "breaker_reach False opened_sample"
    using opened_sample_reach
    by (induction rule: breaker_reach.induct) (auto intro: breaker_reach.intros)
  let ?s = "admit_call 6 ''s'' (finish_call 6 (0, False) Outcome_Cancelled opened_sample)"
  have "(0, False) \<in> set (bs_calls opened_sample)" "probes ?s = 2" by code_simp+
  with reach show ?thesis by (intro exI [of _ ?s]) (auto intro: breaker_reach.intros)
qed

text \<open>
  C27: The circuit follows the transient failures. For every sequence of admissions and reports, in
  whatever order concurrent calls make them, a new breaker answers as the automaton of its contract and
  is in the mode of that automaton: a closed circuit admits every call and counts transient failures up
  to the threshold; an open one rejects calls until the recovery time has passed since the last transient
  failure and then admits one probe; a transient failure opens the circuit anew, a success or another error
  of the probe closes it, a cancellation makes the next call the probe. So a circuit that is not closed has
  seen at least as many transient failures since the last success as its threshold, cools down from the last
  of them, and is not closed when that many came in a row.
\<close>

theorem circuit_follows_transient_failures:
  assumes "new_circuit_breaker n r = Inr new"
  shows "fst (breaker_run es new) = fst (mode_run n r es (Admitting 0)) \<and>
    mode_of (snd (breaker_run es new)) = snd (mode_run n r es (Admitting 0)) \<and>
    (case mode_of (snd (breaker_run es new)) of
       Admitting k \<Rightarrow> k < n \<and> transient_streak (reports_before [] es) < n
     | Cooling t \<Rightarrow> n \<le> transient_failures (reports_before [] es) \<and> last_transient (reports_before [] es) = Some t
     | _ \<Rightarrow> n \<le> transient_failures (reports_before [] es))"
proof -
  have new: "0 < n" "cb_threshold new = n" "cb_recovery_seconds new = r"
    using assms by (auto simp: new_circuit_breaker_def split: if_splits)
  have "mode_tracks n (reports_before [] es) (snd (mode_run n r es (Admitting 0)))"
    using new(1) by (intro mode_run_tracks) simp_all
  with breaker_run_mode [OF breaker_ok_new [OF assms], of es] new mode_of_new [OF assms] show ?thesis
    by (cases "snd (mode_run n r es (Admitting 0))") simp_all
qed

text \<open>Two failures open the circuit; a probe is cancelled, the next one ends with an error that is not
  transient and closes it.\<close>

theorem circuit_follows_transient_failures_witness:
  "\<exists>new. new_circuit_breaker 2 5 = Inr new \<and>
     fst (breaker_run [Reported 0 (Outcome_Failure Timeout), Asked 1 ''a'',
       Reported 2 (Outcome_Failure Unavailable), Asked 6 ''b'', Asked 7 ''c'', Asked 8 ''d'',
       Reported 8 Outcome_Cancelled, Asked 9 ''e'', Reported 10 (Outcome_Failure Malformed_Response),
       Asked 11 ''f''] new) =
     [Inr (), Inl (open_error ''b''), Inr (), Inl (open_error ''d''), Inr (), Inr ()]"
proof -
  obtain new where new: "new_circuit_breaker 2 5 = Inr new" by (simp add: new_circuit_breaker_def)
  from circuit_follows_transient_failures [OF this, of "[Reported 0 (Outcome_Failure Timeout), Asked 1 ''a'',
       Reported 2 (Outcome_Failure Unavailable), Asked 6 ''b'', Asked 7 ''c'', Asked 8 ''d'',
       Reported 8 Outcome_Cancelled, Asked 9 ''e'', Reported 10 (Outcome_Failure Malformed_Response),
       Asked 11 ''f'']"]
  have "fst (breaker_run [Reported 0 (Outcome_Failure Timeout), Asked 1 ''a'',
       Reported 2 (Outcome_Failure Unavailable), Asked 6 ''b'', Asked 7 ''c'', Asked 8 ''d'',
       Reported 8 Outcome_Cancelled, Asked 9 ''e'', Reported 10 (Outcome_Failure Malformed_Response),
       Asked 11 ''f''] new) =
     [Inr (), Inl (open_error ''b''), Inr (), Inl (open_error ''d''), Inr (), Inr ()]"
    by (simp add: transient_codes_def)
  with new show ?thesis by blast
qed

text \<open>
  C28: One recovery probe. Any number of concurrent calls may ask one breaker for admission and
  report later, in any order. As long as a call that was admitted by the closed circuit does not
  report after the circuit has opened, at most one probe is in flight. Without that condition there
  may be two.
\<close>

theorem at_most_one_probe:
  assumes "breaker_reach True s"
  shows "probes s \<le> 1 \<and> breaker_ok (bs_breaker s) \<and> (\<exists>s'. breaker_reach False s' \<and> probes s' = 2)"
  using orderly_probes_counted [OF assms] breaker_reach_ok [OF assms]
    stale_cancellation_admits_second_probe
  by (simp add: probes_counted_def split: if_splits)

theorem at_most_one_probe_witness:
  "breaker_reach True opened_sample \<and> bs_calls opened_sample = [(0, False), (2, True)] \<and>
   probes opened_sample \<le> 1"
proof -
  have "bs_calls opened_sample = [(0, False), (2, True)]" by code_simp
  with at_most_one_probe [OF opened_sample_reach] opened_sample_reach show ?thesis by blast
qed

text \<open>
  C29: The rate. In every span of time, from the creation of a bucket or later, the calls that are granted a
  token are at most the capacity of the bucket plus the rate times the length of the span (up to the
  tolerance of the comparison), however long the calls wait, whichever of them give up, and whatever
  happened before the span.
\<close>

theorem grants_bounded_by_rate:
  assumes "new_token_bucket rate burst start = Inr b" and "rate = Flt q"
    and "sorted (start # concat rs)" and "s \<le> t"
  shows "of_nat (length (filter (\<lambda>g. s \<le> g \<and> g \<le> t) (grant_times rs b))) * (1 - token_slack)
      \<le> of_int burst + q * (t - s) \<and>
    length (grant_times rs b) = fst (serve rs b) \<and> bucket_ok (snd (serve rs b))"
proof -
  have ok: "bucket_ok b" using assms(1) by (rule bucket_ok_new)
  have b: "tb_rate b = q" "tb_capacity b = of_int burst" "tb_updated_at b = start"
    using assms(1,2) by (auto simp: new_token_bucket_def result_bind_eq_Inr require_positive_finite_Inr)
  show ?thesis
    using grants_in_span [OF ok _ assms(4), of rs] serve_ok [OF ok] grant_times_serve [of rs b] assms(3) b
    by simp
qed

text \<open>Three grants in one second at two per second: the bucket was full when the second began.\<close>

theorem grants_bounded_by_rate_witness:
  "\<exists>b. new_token_bucket (Flt 2) 1 0 = Inr b \<and>
     grant_times [[0], [0, 1 / 2], [9], [9], [9, 19 / 2], [10]] b = [0, 1 / 2, 9, 19 / 2, 10] \<and>
     of_nat 3 * (1 - token_slack) \<le> of_int 1 + 2 * (10 - 9)"
proof -
  let ?b = "\<lparr>tb_rate = 2, tb_capacity = 1, tb_tokens = 1, tb_updated_at = 0\<rparr>"
  let ?rs = "[[0], [0, 1 / 2], [9], [9], [9, 19 / 2], [10]] :: rat list list"
  have b: "new_token_bucket (Flt 2) 1 0 = Inr ?b"
    by (simp add: new_token_bucket_def require_positive_finite_def require_def)
  have grants: "grant_times ?rs ?b = [0, 1 / 2, 9, 19 / 2, 10]" by code_simp
  from grants_bounded_by_rate [OF b refl, of ?rs 9 10]
  have "of_nat 3 * (1 - token_slack) \<le> of_int 1 + 2 * (10 - 9)"
    unfolding grants by (simp add: numeral_3_eq_3)
  with b grants show ?thesis by (intro exI [of _ ?b]) blast
qed

text \<open>
  A token is granted after one sleep. A call that finds too few tokens sleeps for the time the
  missing part takes to flow in; if the sleep lasts at least that long, the next look at the bucket
  grants the token. A call that finds a token does not sleep.
\<close>

theorem acquire_returns_after_one_sleep:
  assumes "bucket_ok b" and "t + sum_list (delays (acquire [t] b)) \<le> t'"
  shows "granted (acquire (t # t' # later) b) \<and> length (delays (acquire (t # t' # later) b)) \<le> 1 \<and>
    (1 \<le> tb_tokens b \<longrightarrow> delays (acquire (t # t' # later) b) = [])"
proof (cases "granted (acquire [t] b)")
  case True
  from acquire_granted_append [OF this, of "t' # later"] True show ?thesis
    by (simp add: Let_def split: if_splits)
next
  case False
  have "delays (acquire [t] b) = [hd (delays (acquire [t] b))]"
    using False by (auto simp: Let_def split: if_splits)
  with assms(2) have "t + hd (delays (acquire [t] b)) \<le> t'" by (metis add.right_neutral sum_list.Cons sum_list.Nil)
  note granted = acquire_after_sleep [OF assms(1) False this]
  moreover have "acquire (t # t' # later) b = acquire [t, t'] b"
    using acquire_granted_append [OF granted(1), of later] by simp
  moreover have "\<not> 1 \<le> tb_tokens b"
    using False refill_tokens_ge [OF assms(1), of t] slack_bounds
    by (auto simp: Let_def split: if_splits)
  moreover have "length (delays (acquire [t] b)) \<le> 1" by (auto simp: Let_def)
  ultimately show ?thesis by simp
qed

theorem acquire_returns_after_one_sleep_witness:
  "\<exists>b. new_token_bucket (Flt 2) 1 0 = Inr b \<and> delays (acquire [0] (bucket_after (acquire [0] b))) = [1 / 2] \<and>
     granted (acquire [0, 1 / 2, 7] (bucket_after (acquire [0] b)))"
proof -
  let ?b = "\<lparr>tb_rate = 2, tb_capacity = 1, tb_tokens = 1, tb_updated_at = 0\<rparr>"
  let ?e = "bucket_after (acquire [0] ?b)"
  have b: "new_token_bucket (Flt 2) 1 0 = Inr ?b"
    by (simp add: new_token_bucket_def require_positive_finite_def require_def)
  have d: "delays (acquire [0] ?e) = [1 / 2]" by code_simp
  have "bucket_ok ?e" using acquire_ok [OF bucket_ok_new [OF b]] .
  from acquire_returns_after_one_sleep [OF this, of 0 "1 / 2" "[7]"] d
  have "granted (acquire [0, 1 / 2, 7] ?e)" by simp
  with b d show ?thesis by blast
qed

end
