(* ===== verification/Pg_Run_Simulation.thy ===== *)
theory Pg_Run_Simulation
  imports Pg_Run_Repository Lease_Queries
begin

section \<open>The tables as the in-memory repository\<close>

text \<open>
  \<open>tables_match db m\<close>: the tables of PostgreSQL hold the encodings of what the in-memory repository holds.
  The queries then answer as the in-memory ones do (up to the stored forms of \<open>Run_Roundtrip\<close>), and a
  commit keeps the relation.
\<close>

subsection \<open>Rows\<close>

definition run_row :: "run \<Rightarrow> db_row" where
  "run_row c = (case encode_run c of Inr row \<Rightarrow> without [''record_format_version''] row | Inl _ \<Rightarrow> [])"

definition event_row :: "run_event \<Rightarrow> db_row" where
  "event_row e = (case encode_event e of Inr row \<Rightarrow> row | Inl _ \<Rightarrow> [])"

lemma identifier_values_inj [simp]:
  "tenant_id_value a = tenant_id_value b \<longleftrightarrow> a = b" "run_id_value c = run_id_value d \<longleftrightarrow> c = d"
  "command_id_value e = command_id_value f \<longleftrightarrow> e = f" "event_id_value g = event_id_value h \<longleftrightarrow> g = h"
  by (auto intro: tenant_id.expand run_id.expand command_id.expand event_id.expand)

lemma run_row_columns:
  assumes "run_storable c"
  obtains t where "encode_run c = Inr (run_record c t)" and "run_row c = tl (run_record c t)"
    and "select_run (run_row c) = run_record c t" and "decode_run other (run_record c t) = Inr (stored_run c)"
proof -
  obtain t v where t: "encode_run c = Inr (run_record c t)" "decode_canonical_json t = Inr (json_normal v)"
      "decode_snapshot other (json_normal v) = Inr (stored_run c)"
    using encode_run_row [OF assms, of other] by metis
  have row: "run_row c = tl (run_record c t)"
    by (simp add: run_row_def t(1) without_def run_record_def)
  moreover have "select_run (tl (run_record c t)) = run_record c t"
    by (simp add: select_run_def run_columns_def run_fields_def select_column_def run_record_def)
  ultimately show thesis using t(1) decode_run_record [OF assms t(2,3)] that by simp
qed

lemma run_row_keys:
  assumes "run_storable c"
  shows "map_of (run_row c) ''tenant_id'' = Some (DvText (tenant_id_value (r_tenant_id c)))"
    and "map_of (run_row c) ''run_id'' = Some (DvText (run_id_value (r_run_id c)))"
    and "map_of (run_row c) ''run_status'' = Some (DvText (run_status_value (r_status c)))"
proof -
  obtain t where "run_row c = tl (run_record c t)" using run_row_columns [OF assms] by metis
  then show "map_of (run_row c) ''tenant_id'' = Some (DvText (tenant_id_value (r_tenant_id c)))"
    "map_of (run_row c) ''run_id'' = Some (DvText (run_id_value (r_run_id c)))"
    "map_of (run_row c) ''run_status'' = Some (DvText (run_status_value (r_status c)))"
    by (simp_all add: run_record_def)
qed

lemma run_row_is_row:
  "run_storable c \<Longrightarrow> run_row_is t r (run_row c) \<longleftrightarrow> r_tenant_id c = t \<and> r_run_id c = r"
  by (simp add: run_row_is_def column_is_def run_row_keys)

lemma decode_run_row: "run_storable c \<Longrightarrow> decode_run other (select_run (run_row c)) = Inr (stored_run c)"
  by (metis run_row_columns)

lemma event_row_columns:
  assumes "event_storable e"
  obtains t where "encode_event e = Inr (event_record e t)" and "event_row e = event_record e t"
    and "decode_canonical_json t = Inr (thaw_event_payload (payload_normal (ev_payload e)))"
  using encode_event_row [OF assms] that by (metis event_row_def old.sum.simps(6))

lemma event_row_keys:
  assumes "event_storable e"
  shows "map_of (event_row e) ''event_id'' = Some (DvText (event_id_value (ev_event_id e)))"
    and "map_of (event_row e) ''tenant_id'' = Some (DvText (tenant_id_value (ev_tenant_id e)))"
    and "map_of (event_row e) ''run_id'' = Some (DvText (run_id_value (ev_run_id e)))"
    and "map_of (event_row e) ''sequence_value'' = Some (DvText (encode_canonical_integer (ev_sequence e)))"
proof -
  obtain t where "event_row e = event_record e t" using event_row_columns [OF assms] by metis
  then show "map_of (event_row e) ''event_id'' = Some (DvText (event_id_value (ev_event_id e)))"
    "map_of (event_row e) ''tenant_id'' = Some (DvText (tenant_id_value (ev_tenant_id e)))"
    "map_of (event_row e) ''run_id'' = Some (DvText (run_id_value (ev_run_id e)))"
    "map_of (event_row e) ''sequence_value'' = Some (DvText (encode_canonical_integer (ev_sequence e)))"
    by (simp_all add: event_record_def)
qed

lemma event_row_is_row:
  "event_storable e \<Longrightarrow> run_row_is t r (event_row e) \<longleftrightarrow> ev_tenant_id e = t \<and> ev_run_id e = r"
  by (simp add: run_row_is_def column_is_def event_row_keys)

lemma decode_event_row: "event_storable e \<Longrightarrow> decode_event other (event_row e) = Inr (stored_event e)"
  by (metis decode_encode_event event_row_def old.sum.simps(6))

lemma receipt_record_keys:
  "map_of (receipt_record rc) ''tenant_id'' = Some (DvText (tenant_id_value (rc_tenant_id rc)))"
  "map_of (receipt_record rc) ''command_id'' = Some (DvText (command_id_value (rc_command_id rc)))"
  "map_of (receipt_record rc) ''run_id'' = Some (DvText (run_id_value (rc_run_id rc)))"
  "map_of (receipt_record rc) ''event_id'' =
     Some (case rc_event_ids rc of [] \<Rightarrow> DvNull | e # _ \<Rightarrow> DvText (event_id_value e))"
  by (simp_all add: receipt_record_def)

subsection \<open>The relation\<close>

definition events_of :: "memory_repository \<Rightarrow> run_event set" where
  "events_of m = {e. \<exists>key es. mem_events m key = Some es \<and> e \<in> set es}"

definition memory_storable :: "memory_repository \<Rightarrow> bool" where
  "memory_storable m \<longleftrightarrow>
     mem_ok m \<and> (\<forall>key c. mem_runs m key = Some c \<longrightarrow> run_storable c) \<and>
     (\<forall>e \<in> events_of m. event_storable e) \<and>
     (\<forall>key oc. mem_commands m key = Some oc \<longrightarrow> receipt_storable (oc_receipt oc)) \<and>
     mem_event_ids m = ev_event_id ` events_of m"

definition tables_match :: "run_tables \<Rightarrow> memory_repository \<Rightarrow> bool" where
  "tables_match db m \<longleftrightarrow>
     memory_storable m \<and>
     (\<forall>t r. filter (run_row_is t r) (tb_runs db) =
        (case mem_runs m (t, r) of None \<Rightarrow> [] | Some c \<Rightarrow> [run_row c])) \<and>
     (\<forall>t k. receipt_row_at db t k =
        map_option (\<lambda>oc. receipt_record (oc_receipt oc)) (mem_commands m (t, k))) \<and>
     distinct (tb_events db) \<and> set (tb_events db) = event_row ` events_of m"

lemma memory_storableD:
  assumes "memory_storable m"
  shows "mem_ok m" and "mem_runs m key = Some c \<Longrightarrow> run_storable c"
    and "e \<in> events_of m \<Longrightarrow> event_storable e"
    and "mem_commands m ckey = Some oc \<Longrightarrow> receipt_storable (oc_receipt oc)"
    and "mem_event_ids m = ev_event_id ` events_of m"
proof -
  from assms have *: "mem_ok m" "\<forall>key c. mem_runs m key = Some c \<longrightarrow> run_storable c"
      "\<forall>e \<in> events_of m. event_storable e"
      "\<forall>key oc. mem_commands m key = Some oc \<longrightarrow> receipt_storable (oc_receipt oc)"
      "mem_event_ids m = ev_event_id ` events_of m"
    unfolding memory_storable_def by auto
  show "mem_ok m" "mem_event_ids m = ev_event_id ` events_of m" by (rule *)+
  show "run_storable c" if "mem_runs m key = Some c" using *(2) that by blast
  show "event_storable e" if "e \<in> events_of m" using *(3) that by blast
  show "receipt_storable (oc_receipt oc)" if "mem_commands m ckey = Some oc" using *(4) that by blast
qed

lemma tables_matchD:
  assumes "tables_match db m"
  shows "memory_storable m"
    and "filter (run_row_is t r) (tb_runs db) = (case mem_runs m (t, r) of None \<Rightarrow> [] | Some c \<Rightarrow> [run_row c])"
    and "receipt_row_at db t k = map_option (\<lambda>oc. receipt_record (oc_receipt oc)) (mem_commands m (t, k))"
    and "distinct (tb_events db)" and "set (tb_events db) = event_row ` events_of m"
  using assms unfolding tables_match_def by (simp_all only: simp_thms)

lemmas tables_match_mem = memory_storableD [OF tables_matchD(1)]

lemma find_filter: "List.find P xs = (case filter P xs of [] \<Rightarrow> None | x # _ \<Rightarrow> Some x)"
  by (induction xs) auto

lemma run_row_at_match: "tables_match db m \<Longrightarrow> run_row_at db t r = map_option run_row (mem_runs m (t, r))"
  using tables_matchD(2) [of db m t r]
  by (cases "mem_runs m (t, r)") (simp_all add: run_row_at_def find_filter)

lemma empty_tables_match: "tables_match \<lparr>tb_runs = [], tb_events = [], tb_receipts = [], tb_leases = ls\<rparr> mem_init"
  by (auto simp: tables_match_def memory_storable_def mem_init_ok events_of_def receipt_row_at_def)
     (simp_all add: mem_init_def)

lemma log_of_run:
  assumes "mem_ok m" and "mem_events m key = Some es"
  obtains c where "mem_runs m key = Some c" and "log_ok c es" and "distinct (map ev_event_id es)"
    and "(r_tenant_id c, r_run_id c) = key"
proof (cases "mem_runs m key")
  case None
  with mem_okD(1) [OF assms(1), of key] assms(2) show thesis by (simp add: stored_ok_def)
next
  case (Some c)
  from stored_okD [OF mem_okD(1) [OF assms(1)] Some] assms(2) Some that show thesis by auto
qed

lemma log_keys:
  assumes "mem_ok m" and "mem_events m key = Some es" and "e \<in> set es"
  shows "(ev_tenant_id e, ev_run_id e) = key"
proof -
  obtain c where "log_ok c es" "(r_tenant_id c, r_run_id c) = key" using log_of_run [OF assms(1,2)] by blast
  with assms(3) show ?thesis by (simp add: log_ok_def)
qed

lemma events_of_log:
  assumes "mem_ok m" and "mem_events m (t, r) = Some es"
  shows "e \<in> set es \<longleftrightarrow> e \<in> events_of m \<and> ev_tenant_id e = t \<and> ev_run_id e = r"
proof
  assume "e \<in> set es"
  with assms log_keys [OF assms(1,2)] show "e \<in> events_of m \<and> ev_tenant_id e = t \<and> ev_run_id e = r"
    by (auto simp: events_of_def)
next
  assume e: "e \<in> events_of m \<and> ev_tenant_id e = t \<and> ev_run_id e = r"
  then obtain key es' where "mem_events m key = Some es'" "e \<in> set es'" by (auto simp: events_of_def)
  with log_keys [OF assms(1) this] e assms(2) show "e \<in> set es" by simp
qed

lemma event_ids_unique:
  assumes ok: "mem_ok m" and "e \<in> events_of m" and "e' \<in> events_of m" and id: "ev_event_id e = ev_event_id e'"
  shows "e = e'"
proof -
  obtain k es k' es' where es: "mem_events m k = Some es" "e \<in> set es" "mem_events m k' = Some es'" "e' \<in> set es'"
    using assms(2,3) unfolding events_of_def by blast
  have "ids_unshared m" using ok by (rule mem_okD)
  then have "k = k'" unfolding ids_unshared_def using es id by blast
  moreover obtain c where "distinct (map ev_event_id es)" using log_of_run [OF ok es(1)] by metis
  ultimately show ?thesis using es id by (auto simp: distinct_map inj_on_def)
qed

lemma event_row_at_match:
  assumes m: "tables_match db m" and e: "e \<in> events_of m"
  shows "event_row_at db (ev_event_id e) (ev_tenant_id e) (ev_run_id e) = Some (event_row e)"
proof -
  define P where "P = (\<lambda>row. column_is row ''event_id'' (DvText (event_id_value (ev_event_id e))) \<and>
      run_row_is (ev_tenant_id e) (ev_run_id e) row)"
  have storable: "event_storable e'" if "e' \<in> events_of m" for e' using tables_match_mem(3) [OF m that] .
  have self: "P (event_row e)" unfolding P_def using storable [OF e] by (simp add: column_is_def event_row_keys event_row_is_row)
  have same: "row = event_row e" if "row \<in> set (tb_events db)" "P row" for row
  proof -
    from that(1) tables_matchD(5) [OF m] obtain e' where e': "row = event_row e'" "e' \<in> events_of m" by blast
    with that(2) storable [OF e'(2)] have "ev_event_id e' = ev_event_id e"
      by (simp add: P_def column_is_def event_row_keys)
    with event_ids_unique [OF tables_match_mem(1) [OF m] e'(2) e] e'(1) show ?thesis by simp
  qed
  have "event_row e \<in> set (tb_events db)" using e tables_matchD(5) [OF m] by blast
  with self obtain row where row: "List.find P (tb_events db) = Some row"
    by (cases "List.find P (tb_events db)") (auto simp: find_None_iff)
  then have "row \<in> set (tb_events db)" "P row" by (auto simp: find_Some_iff)
  from same [OF this] row show ?thesis by (simp add: event_row_at_def P_def)
qed

subsection \<open>Queries\<close>

lemma decode_selected_match:
  "tables_match db m \<Longrightarrow>
     decode_selected other (run_row_at db t r) = Inr (map_option stored_run (mem_runs m (t, r)))"
  by (cases "mem_runs m (t, r)")
     (simp_all add: decode_selected_def run_row_at_match decode_run_row tables_match_mem(2))

lemma pgr_load_match:
  "tables_match db m \<Longrightarrow> pgr_load other (Inr ()) False db t r = Inr (map_option stored_run (mem_load m t r))"
  by (simp add: pgr_load_def storage_available_def decode_selected_match mem_load_def)

definition stored_outcome :: "commit_outcome \<Rightarrow> commit_outcome" where
  "stored_outcome oc = oc\<lparr>oc_events := map stored_event (oc_events oc), oc_replayed := True\<rparr>"

text \<open>The recorded event is the one that the type of the command announces.\<close>

definition replayable :: "commit_outcome \<Rightarrow> bool" where
  "replayable oc \<longleftrightarrow> list_all (\<lambda>e. validate_replay_event (oc_receipt oc) e = Inr ()) (oc_events oc)"

lemma equals_int_normal [simp]: "equals_int (map_option frozen_normal v) i = equals_int v i"
  by (cases v; cases "the v") simp_all

lemma validate_replay_stored:
  assumes "run_event_ok e"
  shows "validate_replay_event rc (stored_event e) = validate_replay_event rc e"
proof -
  have "distinct (map fst (ev_payload e))" using assms by (simp add: run_event_ok_def payload_ok_def)
  then have "map_of (ev_payload (stored_event e)) k = map_option frozen_normal (map_of (ev_payload e) k)" for k
    by (simp add: stored_event_def map_of_payload_normal)
  moreover have "map_option frozen_normal v = Some (FStr x) \<longleftrightarrow> v = Some (FStr x)" for v x
    by (cases v) simp_all
  ultimately show ?thesis by (simp add: validate_replay_event_def)
qed

lemma command_match:
  assumes m: "tables_match db m" and oc: "mem_commands m (t, k) = Some oc"
  shows "rc_tenant_id (oc_receipt oc) = t" and "rc_command_id (oc_receipt oc) = k"
    and "rc_event_ids (oc_receipt oc) = map ev_event_id (oc_events oc)"
    and "receipt_storable (oc_receipt oc)" and "oc_replayed oc = False"
    and "e \<in> set (oc_events oc) \<Longrightarrow> e \<in> events_of m \<and> ev_tenant_id e = t \<and> ev_run_id e = rc_run_id (oc_receipt oc)"
proof -
  have ok: "mem_ok m" using m by (rule tables_match_mem)
  then have "command_ok m (t, k)" by (rule mem_okD)
  then have c: "\<not> oc_replayed oc" "(rc_tenant_id (oc_receipt oc), rc_command_id (oc_receipt oc)) = (t, k)"
      "rc_event_ids (oc_receipt oc) = map ev_event_id (oc_events oc)"
      "\<exists>es. mem_events m (rc_tenant_id (oc_receipt oc), rc_run_id (oc_receipt oc)) = Some es \<and>
        set (oc_events oc) \<subseteq> set es"
    using oc by (auto simp: command_ok_def Let_def)
  then show "rc_tenant_id (oc_receipt oc) = t" "rc_command_id (oc_receipt oc) = k"
    "rc_event_ids (oc_receipt oc) = map ev_event_id (oc_events oc)" "oc_replayed oc = False" by simp_all
  show "receipt_storable (oc_receipt oc)" using tables_match_mem(4) [OF m oc] .
  show "e \<in> events_of m \<and> ev_tenant_id e = t \<and> ev_run_id e = rc_run_id (oc_receipt oc)"
    if "e \<in> set (oc_events oc)"
    using c(2,4) that events_of_log [OF ok, of t "rc_run_id (oc_receipt oc)"] by auto
qed

lemma replay_events_match:
  assumes m: "tables_match db m" and oc: "mem_commands m (t, k) = Some oc"
  shows "replay_events other db (oc_receipt oc) =
    (if replayable oc then Inr (map stored_event (oc_events oc)) else Inl (repository_error RepoDataCorruption))"
proof -
  note c = command_match [OF m oc]
  have "length (oc_events oc) \<le> 1" using c(3,4) by (simp add: receipt_storable_def)
  then consider "oc_events oc = []" | e where "oc_events oc = [e]"
    by (cases "oc_events oc"; cases "tl (oc_events oc)") auto
  then show ?thesis
  proof cases
    case 1
    then show ?thesis using c(3) by (simp add: replay_events_def replayable_def)
  next
    case (2 e)
    then have e: "e \<in> events_of m" "ev_tenant_id e = t" "ev_run_id e = rc_run_id (oc_receipt oc)" using c(6) by auto
    from tables_match_mem(3) [OF m e(1)] have storable: "event_storable e" .
    then have "run_event_ok e" by (simp add: event_storable_def)
    have "validate_replay_event (oc_receipt oc) e = Inr () \<or>
        validate_replay_event (oc_receipt oc) e = Inl (repository_error RepoDataCorruption)"
      by (auto simp: validate_replay_event_def require_def)
    with event_row_at_match [OF m e(1)] e 2 c(1,3) decode_event_row [OF storable] \<open>run_event_ok e\<close>
    show ?thesis by (auto simp: replay_events_def replayable_def validate_replay_stored)
  qed
qed

lemma find_run_command_match:
  assumes m: "tables_match db m"
  shows "find_run_command other db t k f =
    (case mem_commands m (t, k) of
       None \<Rightarrow> Inr None
     | Some oc \<Rightarrow>
         if rc_fingerprint (oc_receipt oc) \<noteq> f then Inl (domain_error RunIdempotencyConflict)
         else if replayable oc then Inr (Some (stored_outcome oc))
         else Inl (repository_error RepoDataCorruption))"
proof (cases "mem_commands m (t, k)")
  case None
  then show ?thesis using tables_matchD(3) [OF m] by (simp add: find_run_command_def)
next
  case (Some oc)
  note c = command_match [OF m Some]
  have "decode_receipt other (receipt_record (oc_receipt oc)) = Inr (oc_receipt oc)"
    using c(4) by (rule decode_receipt_record)
  moreover have "new_commit_outcome (oc_receipt oc) (map stored_event (oc_events oc)) True = Inr (stored_outcome oc)"
    using c(3) by (cases oc) (simp add: new_commit_outcome_def stored_outcome_def comp_def)
  ultimately show ?thesis
    using Some tables_matchD(3) [OF m] replay_events_match [OF m Some, of other]
    by (simp add: find_run_command_def)
qed

subsection \<open>What a commit writes\<close>

lemma same_command_receipt:
  "same_command (receipt_record rc) row \<longleftrightarrow>
     column_is row ''tenant_id'' (DvText (tenant_id_value (rc_tenant_id rc))) \<and>
     column_is row ''command_id'' (DvText (command_id_value (rc_command_id rc)))"
  by (auto simp: same_command_def column_is_def receipt_record_keys)

lemma insert_receipt_match:
  assumes "tables_match db m"
  shows "fst (insert_receipt db (receipt_record rc)) \<longleftrightarrow> mem_commands m (rc_tenant_id rc, rc_command_id rc) = None"
proof -
  have "(\<forall>row \<in> set (tb_receipts db). \<not> same_command (receipt_record rc) row) \<longleftrightarrow>
      receipt_row_at db (rc_tenant_id rc) (rc_command_id rc) = None"
    unfolding receipt_row_at_def find_None_iff same_command_receipt by auto
  then show ?thesis
    using tables_matchD(3) [OF assms] by (auto simp: insert_receipt_def list_ex_iff)
qed

lemma same_run_row:
  "map_of row ''tenant_id'' = Some (DvText (tenant_id_value t)) \<Longrightarrow>
     map_of row ''run_id'' = Some (DvText (run_id_value r)) \<Longrightarrow> same_run row row' = run_row_is t r row'"
  by (auto simp: same_run_def run_row_is_def column_is_def)

lemma run_known:
  assumes "tables_match db m"
  shows "list_ex (run_row_is t r) (tb_runs db) \<longleftrightarrow> mem_runs m (t, r) \<noteq> None"
proof -
  have "list_ex (run_row_is t r) (tb_runs db) \<longleftrightarrow> filter (run_row_is t r) (tb_runs db) \<noteq> []"
    by (auto simp: list_ex_iff filter_empty_conv)
  then show ?thesis by (simp add: tables_matchD(2) [OF assms] split: option.splits)
qed

lemma same_run_record [simp]: "same_run (run_record u t) row = run_row_is (r_tenant_id u) (r_run_id u) row"
  by (rule same_run_row) (simp_all add: run_record_def)

lemma event_known:
  assumes m: "tables_match db m" and e: "event_storable e"
  shows "list_ex (same_event (event_row e)) (tb_events db) \<longleftrightarrow> ev_event_id e \<in> mem_event_ids m"
proof -
  have "same_event (event_row e) (event_row e') \<longleftrightarrow> ev_event_id e = ev_event_id e'" if "e' \<in> events_of m" for e'
    using tables_match_mem(3) [OF m that] e by (simp add: same_event_def event_row_keys)
  then show ?thesis
    unfolding list_ex_iff tables_matchD(5) [OF m] tables_match_mem(5) [OF m] by auto
qed

text \<open>The next sequence is not taken.\<close>

lemma sequence_fresh:
  assumes m: "tables_match db m" and e: "event_storable e"
    and new: "case mem_runs m (ev_tenant_id e, ev_run_id e) of None \<Rightarrow> True
      | Some c \<Rightarrow> ev_sequence e = r_next_event_sequence c"
  shows "\<not> list_ex (same_sequence (event_row e)) (tb_events db)"
proof
  assume "list_ex (same_sequence (event_row e)) (tb_events db)"
  then obtain row where row: "row \<in> set (tb_events db)" "same_sequence (event_row e) row"
    unfolding list_ex_iff by blast
  from row(1) obtain e' where e': "row = event_row e'" "e' \<in> events_of m"
    unfolding tables_matchD(5) [OF m] by blast
  then obtain key es where es: "mem_events m key = Some es" "e' \<in> set es" unfolding events_of_def by blast
  have ok: "mem_ok m" using m by (rule tables_match_mem)
  have s': "event_storable e'" using tables_match_mem(3) [OF m e'(2)] .
  with row(2) e e'(1) have same: "ev_tenant_id e = ev_tenant_id e'" "ev_run_id e = ev_run_id e'"
      "integer_text (ev_sequence e) = integer_text (ev_sequence e')"
    by (simp_all add: same_sequence_def same_run_def event_row_keys encode_canonical_integer_eq)
  then have seq: "ev_sequence e = ev_sequence e'" by (metis integer_text_pattern)
  obtain c where c: "mem_runs m key = Some c" "log_ok c es" "(r_tenant_id c, r_run_id c) = key"
    using log_of_run [OF ok es(1)] by metis
  have "key = (ev_tenant_id e, ev_run_id e)" using log_keys [OF ok es] same by simp
  with c new have "ev_sequence e = r_next_event_sequence c" by simp
  moreover have "r_next_event_sequence c = r_version c + 1" using c(2) by (simp add: log_ok_def run_okD(5))
  moreover have "ev_sequence e' \<in> set (map ev_sequence es)" using es(2) by simp
  then have "ev_sequence e' \<in> set [1..r_version c]" using c(2) unfolding log_ok_def by metis
  ultimately show False using seq by simp
qed

end
