(* ===== verification/Pg_Commit_Simulation.thy ===== *)
theory Pg_Commit_Simulation
  imports Pg_Run_Simulation
begin

section \<open>A commit simulates the in-memory commit\<close>

text \<open>
  A transaction that runs alone and without a fault answers as the in-memory commit does, and leaves tables that
  match what the in-memory repository then holds.
\<close>

subsection \<open>The encoded candidate\<close>

lemma traverse_events:
  "list_all event_storable es \<Longrightarrow> traverse encode_event es = Inr (map event_row es)"
proof (induction es)
  case (Cons e es)
  then obtain t where "encode_event e = Inr (event_record e t)" "event_row e = event_record e t"
    using event_row_columns [of e] by (metis list.pred_inject(2))
  with Cons show ?case by simp
qed simp

lemma storable_encoded:
  assumes "run_storable u" and "list_all event_storable es" and "receipt_storable rc"
  obtains t where "encode_run u = Inr (run_record u t)" and "run_row u = tl (run_record u t)"
    and "encode_commit_candidate u rc es =
      Inr \<lparr>en_run = run_record u t, en_receipt = receipt_record rc, en_events = map event_row es\<rparr>"
proof -
  obtain t where t: "encode_run u = Inr (run_record u t)" "run_row u = tl (run_record u t)"
    using run_row_columns [OF assms(1)] by metis
  moreover have "encode_receipt rc = Inr (receipt_record rc)"
    using assms(3) by (simp add: encode_receipt_def receipt_storable_def)
  ultimately show thesis
    using that traverse_events [OF assms(2)] by (simp add: encode_commit_candidate_def)
qed

subsection \<open>Writing the run\<close>

definition runs_match :: "db_row list \<Rightarrow> (run_key \<rightharpoonup> run) \<Rightarrow> bool" where
  "runs_match rows current \<longleftrightarrow>
     (\<forall>t r. filter (run_row_is t r) rows = (case current (t, r) of None \<Rightarrow> [] | Some c \<Rightarrow> [run_row c]))"

lemma tables_runs: "tables_match db m \<Longrightarrow> runs_match (tb_runs db) (mem_runs m)"
  by (simp add: runs_match_def tables_matchD(2))

lemma runs_match_filter:
  "runs_match rows current \<Longrightarrow>
     filter (run_row_is t r) rows = (case current (t, r) of None \<Rightarrow> [] | Some c \<Rightarrow> [run_row c])"
  by (simp add: runs_match_def)

lemma without_version: "without [''record_format_version''] (run_record u t) = tl (run_record u t)"
  by (simp add: without_def run_record_def)

lemma insert_run_match:
  assumes m: "runs_match (tb_runs db) current" and u: "run_storable u" "run_row u = tl (run_record u t)"
    and new: "current (r_tenant_id u, r_run_id u) = None"
  shows "insert_run db (run_record u t) = Inr (db\<lparr>tb_runs := tb_runs db @ [run_row u]\<rparr>)"
    and "runs_match (tb_runs db @ [run_row u]) (current((r_tenant_id u, r_run_id u) \<mapsto> u))"
proof -
  have "filter (run_row_is (r_tenant_id u) (r_run_id u)) (tb_runs db) = []"
    using runs_match_filter [OF m] new by simp
  then have "\<not> list_ex (run_row_is (r_tenant_id u) (r_run_id u)) (tb_runs db)"
    by (auto simp: list_ex_iff filter_empty_conv)
  then show "insert_run db (run_record u t) = Inr (db\<lparr>tb_runs := tb_runs db @ [run_row u]\<rparr>)"
    by (simp add: insert_run_def without_version u(2) list_ex_iff)
  show "runs_match (tb_runs db @ [run_row u]) (current((r_tenant_id u, r_run_id u) \<mapsto> u))"
    unfolding runs_match_def
  proof (intro allI)
    fix t' r'
    show "filter (run_row_is t' r') (tb_runs db @ [run_row u]) =
        (case (current((r_tenant_id u, r_run_id u) \<mapsto> u)) (t', r') of None \<Rightarrow> [] | Some c \<Rightarrow> [run_row c])"
      using runs_match_filter [OF m, of t' r'] new u(1) by (auto simp: run_row_is_row)
  qed
qed

lemma insert_run_known:
  assumes m: "runs_match (tb_runs db) current" and "current (r_tenant_id u, r_run_id u) = Some c"
  shows "insert_run db (run_record u t) = Inl (ConstraintViolated ''pk_runs'')"
proof -
  have "filter (run_row_is (r_tenant_id u) (r_run_id u)) (tb_runs db) \<noteq> []"
    using runs_match_filter [OF m] assms(2) by simp
  then show ?thesis by (auto simp: insert_run_def list_ex_iff filter_empty_conv)
qed

text \<open>The update leaves the key columns alone and replaces all others.\<close>

lemma map_of_dict_update_other: "k \<notin> fst ` set es \<Longrightarrow> map_of (dict_update d es) k = map_of d k"
  by (induction d es rule: dict_update.induct) auto

lemma update_row_key:
  "run_row_is t r (dict_update row (without [''record_format_version'', ''tenant_id'', ''run_id''] new)) =
     run_row_is t r row"
proof -
  have "k \<notin> fst ` set (without [''record_format_version'', ''tenant_id'', ''run_id''] new)"
    if "k \<in> {''tenant_id'', ''run_id''}" for k
    using that by (auto simp: without_def)
  then show ?thesis by (simp add: run_row_is_def column_is_def map_of_dict_update_other)
qed

lemma update_row_value:
  assumes "r_tenant_id u = r_tenant_id c" and "r_run_id u = r_run_id c"
  shows "dict_update (tl (run_record c s))
      (without [''record_format_version'', ''tenant_id'', ''run_id''] (run_record u t)) = tl (run_record u t)"
  using assms by (simp add: run_record_def without_def)

lemma filter_map_same:
  "(\<And>x. P (f x) = P x) \<Longrightarrow> filter P (map f xs) = map f (filter P xs)"
  by (simp add: filter_map comp_def)

lemma update_run_match:
  assumes m: "runs_match (tb_runs db) current" and u: "run_storable u" "run_row u = tl (run_record u t)"
    and known: "current (r_tenant_id u, r_run_id u) = Some c" "run_storable c"
      "r_tenant_id c = r_tenant_id u" "r_run_id c = r_run_id u"
  shows "\<exists>rows. update_run db u (run_record u t) = Inr (db\<lparr>tb_runs := rows\<rparr>) \<and>
    runs_match rows (current((r_tenant_id u, r_run_id u) \<mapsto> u))"
proof -
  let ?new = "without [''record_format_version'', ''tenant_id'', ''run_id''] (run_record u t)"
  let ?mine = "run_row_is (r_tenant_id u) (r_run_id u)"
  define f where "f = (\<lambda>row. if ?mine row then dict_update row ?new else row)"
  obtain s where s: "run_row c = tl (run_record c s)" using run_row_columns [OF known(2)] by metis
  have "filter ?mine (tb_runs db) = [run_row c]" using runs_match_filter [OF m] known(1) by simp
  then have "update_run db u (run_record u t) = Inr (db\<lparr>tb_runs := map f (tb_runs db)\<rparr>)"
    by (simp add: update_run_def f_def Let_def)
  moreover have "runs_match (map f (tb_runs db)) (current((r_tenant_id u, r_run_id u) \<mapsto> u))"
    unfolding runs_match_def
  proof (intro allI)
    fix t' r'
    have "run_row_is t' r' (f row) = run_row_is t' r' row" for row by (simp add: f_def update_row_key)
    then have "filter (run_row_is t' r') (map f (tb_runs db)) = map f (filter (run_row_is t' r') (tb_runs db))"
      by (rule filter_map_same)
    also have "\<dots> = (case current (t', r') of None \<Rightarrow> [] | Some c \<Rightarrow> [f (run_row c)])"
      using runs_match_filter [OF m, of t' r'] by (simp split: option.splits)
    finally have rows: "filter (run_row_is t' r') (map f (tb_runs db)) =
        (case current (t', r') of None \<Rightarrow> [] | Some c \<Rightarrow> [f (run_row c)])" .
    show "filter (run_row_is t' r') (map f (tb_runs db)) =
        (case (current((r_tenant_id u, r_run_id u) \<mapsto> u)) (t', r') of None \<Rightarrow> [] | Some c \<Rightarrow> [run_row c])"
    proof (cases "(t', r') = (r_tenant_id u, r_run_id u)")
      case True
      have "dict_update (run_row c) ?new = run_row u"
        unfolding s u(2) using known(3,4) by (intro update_row_value) simp_all
      then have "f (run_row c) = run_row u" using known(2-4) by (simp add: f_def run_row_is_row)
      with True rows known(1) show ?thesis by simp
    next
      case False
      have "f (run_row c') = run_row c'" if "current (t', r') = Some c'" for c'
      proof -
        have "run_row c' \<in> set (filter (run_row_is t' r') (tb_runs db))"
          using runs_match_filter [OF m, of t' r'] that by simp
        then have "run_row_is t' r' (run_row c')" by simp
        with False have "\<not> ?mine (run_row c')" by (auto simp: run_row_is_def column_is_def)
        then show ?thesis by (simp add: f_def)
      qed
      with False rows show ?thesis by (auto split: option.splits)
    qed
  qed
  ultimately show ?thesis by blast
qed

subsection \<open>Writing the receipt and the event\<close>

lemma find_append: "List.find P (xs @ ys) = (case List.find P xs of None \<Rightarrow> List.find P ys | Some x \<Rightarrow> Some x)"
  by (induction xs) auto

lemma insert_receipt_fresh:
  assumes "tables_match db m" and "mem_commands m (rc_tenant_id rc, rc_command_id rc) = None"
  shows "insert_receipt db (receipt_record rc) =
    (True, db\<lparr>tb_receipts := tb_receipts db @ [receipt_record rc]\<rparr>)"
  using insert_receipt_match [OF assms(1), of rc] assms(2) by (auto simp: insert_receipt_def split: if_splits)

lemma insert_receipt_known:
  assumes "tables_match db m" and "mem_commands m (rc_tenant_id rc, rc_command_id rc) = Some oc"
  shows "insert_receipt db (receipt_record rc) = (False, db)"
  using insert_receipt_match [OF assms(1), of rc] assms(2) by (auto simp: insert_receipt_def split: if_splits)

lemma receipts_after:
  assumes "tb_receipts db' = tb_receipts db @ [receipt_record rc]"
    and "receipt_row_at db (rc_tenant_id rc) (rc_command_id rc) = None"
  shows "receipt_row_at db' t k =
    (if (t, k) = (rc_tenant_id rc, rc_command_id rc) then Some (receipt_record rc) else receipt_row_at db t k)"
  using assms(2) by (auto simp: receipt_row_at_def assms(1) find_append column_is_def receipt_record_keys split: option.splits)

lemma runs_match_known:
  assumes "runs_match rows current"
  shows "list_ex (run_row_is t r) rows \<longleftrightarrow> current (t, r) \<noteq> None"
proof -
  have "list_ex (run_row_is t r) rows \<longleftrightarrow> filter (run_row_is t r) rows \<noteq> []"
    by (auto simp: list_ex_iff filter_empty_conv)
  then show ?thesis by (simp add: runs_match_filter [OF assms] split: option.splits)
qed

lemma insert_event_match:
  assumes m: "tables_match db m" and e: "event_storable e"
    and new: "case mem_runs m (ev_tenant_id e, ev_run_id e) of None \<Rightarrow> True
      | Some c \<Rightarrow> ev_sequence e = r_next_event_sequence c"
    and db1: "tb_events db1 = tb_events db" "runs_match (tb_runs db1) current"
    and run: "current (ev_tenant_id e, ev_run_id e) \<noteq> None"
  shows "insert_event db1 (event_row e) =
    (if ev_event_id e \<in> mem_event_ids m then Inl (ConstraintViolated ''pk_run_events'')
     else Inr (db1\<lparr>tb_events := tb_events db1 @ [event_row e]\<rparr>))"
proof -
  have "same_run (event_row e) = run_row_is (ev_tenant_id e) (ev_run_id e)"
    using event_row_keys(2,3) [OF e] by (intro ext same_run_row)
  then have "list_ex (same_run (event_row e)) (tb_runs db1)" using runs_match_known [OF db1(2)] run by simp
  then show ?thesis
    unfolding insert_event_def db1(1) using event_known [OF m e] sequence_fresh [OF m e new] by simp
qed

subsection \<open>The state after the commit\<close>

lemma events_of_logs: "events_of m = (\<Union>key. set (old_log m key))"
  by (auto simp: events_of_def old_log_def split: option.splits) metis+

lemma old_log_published:
  "old_log (mem_published m u es rc oc) key =
     (if key = (r_tenant_id u, r_run_id u) then old_log m key @ es else old_log m key)"
  by (auto simp: old_log_def)

lemma events_of_published:
  "events_of (mem_published m u es rc oc) = events_of m \<union> set es"
  by (auto simp: events_of_logs old_log_published split: if_splits)

lemma published_storable:
  assumes m: "memory_storable m" and u: "run_storable u" and es: "list_all event_storable es"
    and rc: "receipt_storable rc" and commit: "mem_commit None m v u es rc = (Inr oc, m')"
    and new: "m' = mem_published m u es rc oc" "oc_receipt oc = rc"
  shows "memory_storable m'"
proof -
  have "run_ok u" using u by (rule run_storableD)
  moreover have "list_all run_event_ok es" using es by (auto simp: list_all_iff event_storable_def)
  moreover have "command_receipt_post_init rc = Inr rc" using rc by (simp add: receipt_storable_def)
  ultimately have "mem_ok m'" using mem_commit_ok [OF memory_storableD(1) [OF m]] commit by blast
  moreover have "run_storable c" if "mem_runs m' key = Some c" for key c
    using that u memory_storableD(2) [OF m] by (auto simp: new(1) split: if_splits)
  moreover have "event_storable e" if "e \<in> events_of m'" for e
    using that es memory_storableD(3) [OF m] by (auto simp: new(1) events_of_published list_all_iff)
  moreover have "receipt_storable (oc_receipt oc')" if "mem_commands m' key = Some oc'" for key oc'
    using that rc new(2) memory_storableD(4) [OF m] by (auto simp: new(1) split: if_splits)
  moreover have "mem_event_ids m' = ev_event_id ` events_of m'"
    using memory_storableD(5) [OF m] by (simp add: new(1) events_of_published image_Un)
  ultimately show ?thesis unfolding memory_storable_def by blast
qed

lemma tables_after:
  assumes m: "tables_match db m" and m': "memory_storable m'" "m' = mem_published m u es rc oc"
    and oc: "oc_receipt oc = rc" and fresh: "mem_commands m (rc_tenant_id rc, rc_command_id rc) = None"
    and runs: "runs_match (tb_runs db') ((mem_runs m)((r_tenant_id u, r_run_id u) \<mapsto> u))"
    and events: "tb_events db' = tb_events db @ map event_row es"
    and es: "distinct (map event_row es)" "set (map event_row es) \<inter> set (tb_events db) = {}"
    and receipts: "tb_receipts db' = tb_receipts db @ [receipt_record rc]"
  shows "tables_match db' m'"
proof -
  have "receipt_row_at db (rc_tenant_id rc) (rc_command_id rc) = None"
    using tables_matchD(3) [OF m] fresh by simp
  from receipts_after [OF receipts this]
  have "receipt_row_at db' t k = map_option (\<lambda>oc. receipt_record (oc_receipt oc)) (mem_commands m' (t, k))" for t k
    using tables_matchD(3) [OF m] oc by (simp add: m'(2))
  moreover have "filter (run_row_is t r) (tb_runs db') =
      (case mem_runs m' (t, r) of None \<Rightarrow> [] | Some c \<Rightarrow> [run_row c])" for t r
    using runs_match_filter [OF runs, of t r] by (simp add: m'(2))
  moreover have "distinct (tb_events db')" using tables_matchD(4) [OF m] es by (auto simp: events)
  moreover have "set (tb_events db') = event_row ` events_of m'"
    using tables_matchD(5) [OF m] by (simp add: events m'(2) events_of_published image_Un)
  ultimately show ?thesis using m'(1) unfolding tables_match_def by blast
qed

subsection \<open>The writes of an accepted candidate\<close>

lemma run_written:
  assumes m: "tables_match db m" and db0: "tb_runs db0 = tb_runs db"
    and u: "run_storable u" "run_row u = tl (run_record u t)"
    and cand: "candidate_ok v (mem_runs m (r_tenant_id u, r_run_id u)) u es rc {}"
    and current: "current = None \<longleftrightarrow> mem_runs m (r_tenant_id u, r_run_id u) = None"
  shows "\<exists>rows.
    (if current = None then insert_run db0 (run_record u t)
     else if es \<noteq> [] then update_run db0 u (run_record u t) else Inr db0) = Inr (db0\<lparr>tb_runs := rows\<rparr>) \<and>
    runs_match rows ((mem_runs m)((r_tenant_id u, r_run_id u) \<mapsto> u))"
proof (cases "mem_runs m (r_tenant_id u, r_run_id u)")
  case None
  have "runs_match (tb_runs db0) (mem_runs m)" using tables_runs [OF m] db0 by simp
  from insert_run_match [OF this u None] None current show ?thesis by auto
next
  case (Some c)
  have runs: "runs_match (tb_runs db0) (mem_runs m)" using tables_runs [OF m] db0 by simp
  have c: "run_storable c" using tables_match_mem(2) [OF m Some] .
  have key: "r_tenant_id c = r_tenant_id u" "r_run_id c = r_run_id u"
    using mem_okD(1) [OF tables_match_mem(1) [OF m], of "(r_tenant_id u, r_run_id u)"] Some
    by (auto simp: stored_ok_def)
  show ?thesis
  proof (cases "es = []")
    case False
    with update_run_match [OF runs u Some c key] Some current show ?thesis by auto
  next
    case True
    with cand Some have "run_eq u c" by (simp add: candidate_ok_def)
    then have "run_row u = run_row c" unfolding run_row_def using encode_run_cong [OF u(1) c] by simp
    then have "runs_match (tb_runs db0) ((mem_runs m)((r_tenant_id u, r_run_id u) \<mapsto> u))"
      unfolding runs_match_def using runs_match_filter [OF runs] Some by auto
    then show ?thesis using True Some current by (intro exI [of _ "tb_runs db0"]) auto
  qed
qed

definition occupied :: "memory_repository \<Rightarrow> run_event list \<Rightarrow> bool" where
  "occupied m es \<longleftrightarrow> set (map ev_event_id es) \<inter> mem_event_ids m \<noteq> {}"

lemma candidate_occupied:
  "candidate_ok v current u es rc (mem_event_ids m) \<longleftrightarrow> candidate_ok v current u es rc {} \<and> \<not> occupied m es"
  by (cases current) (auto simp: candidate_ok_def occupied_def)

lemma candidate_event:
  assumes "candidate_ok v current u es rc {}"
  obtains "es = []" "current \<noteq> None"
  | e where "es = [e]" "ev_tenant_id e = r_tenant_id u" "ev_run_id e = r_run_id u"
    "case current of None \<Rightarrow> True | Some c \<Rightarrow> ev_sequence e = r_next_event_sequence c"
  using assms by (cases current) (auto simp: candidate_ok_def)

lemma events_written:
  assumes m: "tables_match db m" and es: "list_all event_storable es"
    and cand: "candidate_ok v (mem_runs m (r_tenant_id u, r_run_id u)) u es rc {}"
    and db1: "tb_events db1 = tb_events db"
      "runs_match (tb_runs db1) ((mem_runs m)((r_tenant_id u, r_run_id u) \<mapsto> u))"
  shows "insert_events db1 (map event_row es) =
    (if occupied m es then Inl (ConstraintViolated ''pk_run_events'')
     else Inr (db1\<lparr>tb_events := tb_events db1 @ map event_row es\<rparr>))"
  using cand
proof (cases rule: candidate_event)
  case 1
  then show ?thesis by (simp add: occupied_def)
next
  case (2 e)
  then have "event_storable e" using es by simp
  from insert_event_match [OF m this _ db1] 2 show ?thesis by (auto simp: occupied_def)
qed

lemma receipt_references_match:
  assumes cand: "candidate_ok v current u es rc {}" and es: "list_all event_storable es"
    and runs: "runs_match (tb_runs db) (runs'((r_tenant_id u, r_run_id u) \<mapsto> u))"
    and events: "set (map event_row es) \<subseteq> set (tb_events db)"
  shows "receipt_references_ok db (receipt_record rc)"
proof -
  from cand have rc: "rc_tenant_id rc = r_tenant_id u" "rc_run_id rc = r_run_id u"
      "rc_event_ids rc = map ev_event_id es" by (simp_all add: candidate_ok_def)
  have mine: "same_run (receipt_record rc) = run_row_is (r_tenant_id u) (r_run_id u)"
    using receipt_record_keys(1,3) [of rc] rc by (intro ext same_run_row) simp_all
  have "list_ex (same_run (receipt_record rc)) (tb_runs db)"
    using runs_match_known [OF runs] by (simp add: mine)
  moreover have "map_of (receipt_record rc) ''event_id'' = Some DvNull \<or>
      list_ex (\<lambda>e. same_event (receipt_record rc) e \<and> same_run (receipt_record rc) e) (tb_events db)"
    using cand
  proof (cases rule: candidate_event)
    case 1
    then show ?thesis using rc(3) by (simp add: receipt_record_keys)
  next
    case (2 e)
    then have e: "event_storable e" using es by simp
    have "same_event (receipt_record rc) (event_row e)"
      using rc(3) 2(1) by (simp add: same_event_def receipt_record_keys event_row_keys(1) [OF e])
    moreover have "same_run (receipt_record rc) (event_row e)"
      using 2 by (simp add: mine event_row_is_row [OF e])
    moreover have "event_row e \<in> set (tb_events db)" using events 2(1) by simp
    ultimately show ?thesis unfolding list_ex_iff by blast
  qed
  ultimately show ?thesis by (simp add: receipt_references_ok_def)
qed

lemma written_rows_fresh:
  assumes m: "tables_match db m" and es: "list_all event_storable es" and cand: "candidate_ok v current u es rc {}"
    and free: "\<not> occupied m es"
  shows "distinct (map event_row es)" and "set (map event_row es) \<inter> set (tb_events db) = {}"
proof -
  show "distinct (map event_row es)" using cand by (cases rule: candidate_event) simp_all
  have "event_row e \<noteq> event_row e'" if "e \<in> set es" "e' \<in> events_of m" for e e'
  proof
    assume "event_row e = event_row e'"
    then have "map_of (event_row e) ''event_id'' = map_of (event_row e') ''event_id''" by simp
    moreover have "event_storable e" "event_storable e'"
      using es that tables_match_mem(3) [OF m] by (auto simp: list_all_iff)
    ultimately have "ev_event_id e = ev_event_id e'" by (simp add: event_row_keys(1))
    with that free tables_match_mem(5) [OF m] show False by (auto simp: occupied_def)
  qed
  then show "set (map event_row es) \<inter> set (tb_events db) = {}"
    unfolding tables_matchD(5) [OF m] by auto
qed

lemma commit_writes_match:
  assumes m: "tables_match db m" and u: "run_storable u" "run_row u = tl (run_record u t)"
    and es: "list_all event_storable es"
    and cand: "candidate_ok v (mem_runs m (r_tenant_id u, r_run_id u)) u es rc {}"
    and fresh: "mem_commands m (rc_tenant_id rc, rc_command_id rc) = None"
    and sched: "cm_write_db sched = db" "cm_fault sched = None"
    and current: "current = None \<longleftrightarrow> mem_runs m (r_tenant_id u, r_run_id u) = None"
    and stored: "\<not> occupied m es \<Longrightarrow> memory_storable (mem_published m u es rc oc)" and oc: "oc_receipt oc = rc"
  shows "\<exists>db'.
    commit_writes sched current u es
      \<lparr>en_run = run_record u t, en_receipt = receipt_record rc, en_events = map event_row es\<rparr> =
      (if occupied m es then Inl (ConstraintViolated ''pk_run_events'') else Inr db') \<and>
    (\<not> occupied m es \<longrightarrow> tables_match db' (mem_published m u es rc oc))"
proof -
  define db0 where "db0 = db\<lparr>tb_receipts := tb_receipts db @ [receipt_record rc]\<rparr>"
  have db0: "insert_receipt db (receipt_record rc) = (True, db0)" "tb_runs db0 = tb_runs db"
    unfolding db0_def using insert_receipt_fresh [OF m fresh] by simp_all
  obtain rows where rows: "(if current = None then insert_run db0 (run_record u t)
      else if es \<noteq> [] then update_run db0 u (run_record u t) else Inr db0) = Inr (db0\<lparr>tb_runs := rows\<rparr>)"
      "runs_match rows ((mem_runs m)((r_tenant_id u, r_run_id u) \<mapsto> u))"
    using run_written [OF m db0(2) u cand current] by blast
  define db1 where "db1 = db0\<lparr>tb_runs := rows\<rparr>"
  define db' where "db' = db1\<lparr>tb_events := tb_events db1 @ map event_row es\<rparr>"
  have db1: "tb_events db1 = tb_events db" "tb_runs db1 = rows" by (simp_all add: db1_def db0_def)
  have db': "tb_events db' = tb_events db @ map event_row es" "tb_runs db' = rows"
      "tb_receipts db' = tb_receipts db @ [receipt_record rc]"
    by (simp_all add: db'_def db1_def db0_def)
  have "insert_events db1 (map event_row es) =
      (if occupied m es then Inl (ConstraintViolated ''pk_run_events'') else Inr db')"
    unfolding db'_def using db1 rows(2) by (intro events_written [OF m es cand]) simp_all
  moreover have "receipt_references_ok db' (receipt_record rc)"
    using rows(2) by (intro receipt_references_match [OF cand es]) (simp_all add: db'(1,2))
  ultimately have "commit_writes sched current u es
      \<lparr>en_run = run_record u t, en_receipt = receipt_record rc, en_events = map event_row es\<rparr> =
      (if occupied m es then Inl (ConstraintViolated ''pk_run_events'') else Inr db')"
    unfolding commit_writes_def Let_def
    by (simp only: sched fault_at_def option.case result_bind_Inr encoded_candidate.simps db0(1) snd_conv
        rows(1) [folded db1_def] check_references_def if_distrib [where f = "\<lambda>r. result_bind r _"]
        result_bind_Inl if_True)
  moreover have "tables_match db' (mem_published m u es rc oc)" if free: "\<not> occupied m es"
    using tables_after [OF m stored [OF free] HOL.refl oc fresh _ db'(1) written_rows_fresh [OF m es cand free] db'(3)]
      rows(2) db'(2) by simp
  ultimately show ?thesis by blast
qed

subsection \<open>The commit\<close>

text \<open>The schedule of a transaction that runs alone.\<close>

definition alone :: "run_tables \<Rightarrow> datetime \<Rightarrow> commit_schedule" where
  "alone db now =
     \<lparr>cm_receipt_db = db, cm_lock_db = db, cm_lease_db = db, cm_now = now, cm_write_db = db, cm_fault = None\<rparr>"

lemma alone_simps [simp]:
  "cm_receipt_db (alone db now) = db" "cm_lock_db (alone db now) = db" "cm_lease_db (alone db now) = db"
  "cm_now (alone db now) = now" "cm_write_db (alone db now) = db" "cm_fault (alone db now) = None"
  by (simp_all add: alone_def)

lemma fault_at_None [simp]: "fault_at phase None = Inr ()"
  by (simp add: fault_at_def)

lemma refuse_simps [simp]: "refuse (Inr v) = Inr v" "refuse (Inl x) = Inl (Refused x)"
  by (simp_all add: refuse_def)

lemma arbitration_new:
  assumes "tables_match db m" and "mem_commands m (rc_tenant_id rc, rc_command_id rc) = None"
  shows "commit_arbitration other (alone db now) rc (receipt_record rc) = Inr None"
  using insert_receipt_fresh [OF assms] by (simp add: commit_arbitration_def arbitrate_complete_receipt_def)

lemma arbitration_known:
  assumes "tables_match db m" and "mem_commands m (rc_tenant_id rc, rc_command_id rc) = Some oc"
  shows "commit_arbitration other (alone db now) rc (receipt_record rc) =
    (if rc_fingerprint (oc_receipt oc) \<noteq> rc_fingerprint rc
     then Inl (Refused (domain_error RunIdempotencyConflict))
     else if replayable oc then Inr (Some (stored_outcome oc))
     else Inl (Refused (repository_error RepoDataCorruption)))"
  using insert_receipt_known [OF assms] find_run_command_match [OF assms(1)] assms(2)
  by (simp add: commit_arbitration_def arbitrate_complete_receipt_def)

lemma candidate_stored:
  assumes "run_storable u" and "\<And>c. current = Some c \<Longrightarrow> run_storable c"
  shows "candidate_ok v (map_option stored_run current) u es rc ids = candidate_ok v current u es rc ids"
proof (cases current)
  case (Some c)
  with assms have "run_eq u (stored_run c) = run_eq u c" by (intro run_eq_stored run_storableD(1)) simp_all
  with Some show ?thesis by (simp add: candidate_ok_def)
qed simp

lemma validate_match:
  assumes "run_storable u" and "\<And>c. current = Some c \<Longrightarrow> run_storable c"
  shows "validate_commit_candidate v (map_option stored_run current) u es rc {} =
    (if candidate_ok v current u es rc {} then Inr () else Inl invariant_violation)"
  using validate_commit_candidate_iff [of v "map_option stored_run current" u es rc "{}"]
    validate_commit_candidate_Inl [of v "map_option stored_run current" u es rc "{}"] candidate_stored [OF assms]
  by (cases "validate_commit_candidate v (map_option stored_run current) u es rc {}") auto

lemma mem_commit_fresh:
  assumes "0 \<le> v" and "mem_commands m (rc_tenant_id rc, rc_command_id rc) = None"
  shows "mem_commit None m v u es rc =
    (let current = mem_runs m (r_tenant_id u, r_run_id u);
         oc = \<lparr>oc_receipt = rc, oc_events = es, oc_replayed = False\<rparr> in
     if \<not> at_version current v then (Inl (domain_error RunVersionConflict), m)
     else if candidate_ok v current u es rc {} \<and> \<not> occupied m es then (Inr oc, mem_published m u es rc oc)
     else (Inl invariant_violation, m))"
proof -
  let ?current = "mem_runs m (r_tenant_id u, r_run_id u)"
  let ?check = "validate_commit_candidate v ?current u es rc (mem_event_ids m)"
  have version: "v = (case ?current of None \<Rightarrow> 0 | Some c \<Rightarrow> r_version c) \<longleftrightarrow> at_version ?current v"
    by (auto simp: at_version_def split: option.splits)
  have check: "?check = (if candidate_ok v ?current u es rc {} \<and> \<not> occupied m es then Inr () else Inl invariant_violation)"
    using validate_commit_candidate_iff [of v ?current u es rc "mem_event_ids m"]
      validate_commit_candidate_Inl [of v ?current u es rc "mem_event_ids m"] candidate_occupied [of v ?current u es rc m]
    by (cases ?check) auto
  have "new_commit_outcome rc es False = Inr \<lparr>oc_receipt = rc, oc_events = es, oc_replayed = False\<rparr>"
    if "candidate_ok v ?current u es rc {}"
    using that by (simp add: candidate_ok_def new_commit_outcome_def)
  with assms show ?thesis unfolding mem_commit_def Let_def check version by auto
qed

text \<open>
  What the transaction decides before its writes: the creation does not look at the stored run, so that a
  refused creation of an existing run reports the broken candidate where the in-memory repository
  reports the version. \<open>orderly\<close> excludes that case.
\<close>

definition orderly :: "memory_repository \<Rightarrow> int \<Rightarrow> run \<Rightarrow> run_event list \<Rightarrow> command_receipt \<Rightarrow> bool" where
  "orderly m v u es rc \<longleftrightarrow>
     (structural_create v u es \<and> mem_runs m (r_tenant_id u, r_run_id u) \<noteq> None \<longrightarrow>
        candidate_ok v None u es rc {})"

definition commit_result :: "commit_outcome \<Rightarrow> commit_outcome" where
  "commit_result oc = (if oc_replayed oc then stored_outcome oc else oc)"

lemma locked_current_match:
  "tables_match db m \<Longrightarrow>
     locked_current other (alone db now) u = Inr (map_option stored_run (mem_runs m (r_tenant_id u, r_run_id u)))"
  by (simp add: locked_current_def decode_selected_match)

lemma stored_at_version:
  "at_version (map_option stored_run current) v = at_version current v"
  by (simp add: at_version_def split: option.splits)

lemma current_version_at:
  "(case current of None \<Rightarrow> 0 | Some c \<Rightarrow> r_version c) = v \<longleftrightarrow> at_version current v"
  by (auto simp: at_version_def split: option.splits)

lemma candidate_creates:
  "candidate_ok v None u es rc ids \<Longrightarrow> structural_create v u es"
  by (auto simp: candidate_ok_def structural_create_def)

lemma commit_body_new:
  assumes m: "tables_match db m" and u: "run_storable u" "run_row u = tl (run_record u t)"
    and es: "list_all event_storable es" and rc: "receipt_storable rc"
    and fresh: "mem_commands m (rc_tenant_id rc, rc_command_id rc) = None" and v: "0 \<le> v"
    and order: "orderly m v u es rc" and commit: "mem_commit None m v u es rc = (res, m')"
  shows "\<exists>db'. finish_commit commit_failure db None (commit_body other (alone db now) v u es rc
      \<lparr>en_run = run_record u t, en_receipt = receipt_record rc, en_events = map event_row es\<rparr>) = (db', res) \<and>
    tables_match db' m'"
proof -
  let ?current = "mem_runs m (r_tenant_id u, r_run_id u)"
  let ?encoded = "\<lparr>en_run = run_record u t, en_receipt = receipt_record rc, en_events = map event_row es\<rparr>"
  let ?oc = "\<lparr>oc_receipt = rc, oc_events = es, oc_replayed = False\<rparr>"
  define seen where "seen = (if structural_create v u es then None else ?current)"
  note arb = arbitration_new [OF m fresh, of other now]
  have storable: "run_storable c" if "?current = Some c" for c using tables_match_mem(2) [OF m that] .
  have read: "(if structural_create v u es then Inr None else locked_current other (alone db now) u) =
      Inr (map_option stored_run seen)"
    using locked_current_match [OF m] by (simp add: seen_def)
  have check: "validate_commit_candidate v (map_option stored_run seen) u es rc {} =
      (if candidate_ok v seen u es rc {} then Inr () else Inl invariant_violation)"
    using storable by (intro validate_match [OF u(1)]) (simp add: seen_def split: if_splits)
  have body: "commit_body other (alone db now) v u es rc ?encoded =
      (if \<not> at_version seen v then Inl (Refused (domain_error RunVersionConflict))
       else if \<not> candidate_ok v seen u es rc {} then Inl (Refused invariant_violation)
       else result_bind (commit_writes (alone db now) (map_option stored_run seen) u es ?encoded)
         (\<lambda>db'. Inr (Commit, db', ?oc)))"
  proof -
    have "new_commit_outcome rc es False = Inr ?oc" if "candidate_ok v seen u es rc {}"
      using that by (simp add: candidate_ok_def new_commit_outcome_def)
    then show ?thesis
      unfolding commit_body_def encoded_candidate.simps arb result_bind_Inr option.case read check
        current_version_at stored_at_version
      by (simp add: require_def)
  qed
  have mem: "mem_commit None m v u es rc =
      (if \<not> at_version ?current v then (Inl (domain_error RunVersionConflict), m)
       else if candidate_ok v ?current u es rc {} \<and> \<not> occupied m es then (Inr ?oc, mem_published m u es rc ?oc)
       else (Inl invariant_violation, m))"
    using mem_commit_fresh [OF v fresh] by (simp add: Let_def)
  have invariant: "invariant_violation = domain_error RunInvariantViolation" by (simp add: invariant_violation_def)
  show ?thesis
  proof (cases "seen = ?current")
    case same: True
    show ?thesis
    proof (cases "at_version ?current v \<and> candidate_ok v ?current u es rc {}")
      case False
      then show ?thesis using commit m by (auto simp: body mem same finish_commit_def)
    next
      case True
      have "memory_storable (mem_published m u es rc ?oc)" if "\<not> occupied m es"
      proof -
        have "mem_commit None m v u es rc = (Inr ?oc, mem_published m u es rc ?oc)" using True that mem by simp
        from published_storable [OF tables_matchD(1) [OF m] u(1) es rc this] show ?thesis by simp
      qed
      then obtain db' where "commit_writes (alone db now) (map_option stored_run seen) u es ?encoded =
          (if occupied m es then Inl (ConstraintViolated ''pk_run_events'') else Inr db')"
          "\<not> occupied m es \<longrightarrow> tables_match db' (mem_published m u es rc ?oc)"
        using commit_writes_match [OF m u es conjunct2 [OF True] fresh, of "alone db now"
            "map_option stored_run seen" ?oc] by (auto simp: same)
      with True commit m invariant show ?thesis
        by (cases "occupied m es") (auto simp: body mem same finish_commit_def)
    qed
  next
    case False
    then have create: "structural_create v u es" "seen = None" by (simp_all add: seen_def split: if_splits)
    with False obtain c where c: "?current = Some c" by (cases ?current) simp_all
    have "candidate_ok v seen u es rc {}" using order create c by (simp add: orderly_def)
    moreover have "v = 0" using create(1) by (simp add: structural_create_def)
    moreover have "1 \<le> r_version c" using run_okD(1) [OF run_storableD(1) [OF storable [OF c]]] .
    moreover have "commit_writes (alone db now) None u es ?encoded = Inl (ConstraintViolated ''pk_runs'')"
    proof -
      have "runs_match (tb_runs (db\<lparr>tb_receipts := tb_receipts db @ [receipt_record rc]\<rparr>)) (mem_runs m)"
        using tables_runs [OF m] by simp
      from insert_run_known [OF this c] insert_receipt_fresh [OF m fresh] show ?thesis
        by (simp add: commit_writes_def Let_def)
    qed
    ultimately have "commit_body other (alone db now) v u es rc ?encoded = Inl (ConstraintViolated ''pk_runs'')"
        and "mem_commit None m v u es rc = (Inl (domain_error RunVersionConflict), m)"
      unfolding body mem using c create(2) by (simp_all add: at_version_def)
    with commit m show ?thesis by (auto simp: finish_commit_def)
  qed
qed

theorem pgr_commit_match:
  assumes m: "tables_match db m" and u: "run_storable u"
    and es: "list_all event_storable es" "length es \<le> 1" and rc: "receipt_storable rc"
    and order: "orderly m v u es rc"
    and replay: "\<And>oc. mem_commands m (rc_tenant_id rc, rc_command_id rc) = Some oc \<Longrightarrow> replayable oc"
    and commit: "mem_commit None m v u es rc = (res, m')"
  shows "\<exists>db'. pgr_commit other (Inr ()) (alone db now) v u es rc = (db', map_sum id commit_result res) \<and>
    tables_match db' m'"
proof (cases "v < 0")
  case True
  with commit m show ?thesis by (auto simp: mem_commit_def pgr_commit_def validate_commit_input_def)
next
  case False
  then have v: "0 \<le> v" by simp
  have "length (rc_event_ids rc) \<le> 1" using rc by (simp add: receipt_storable_def)
  with False es(2) have input: "validate_commit_input v es rc = Inr ()" by (simp add: validate_commit_input_def)
  obtain t where t: "run_row u = tl (run_record u t)"
      "encode_commit_candidate u rc es =
        Inr \<lparr>en_run = run_record u t, en_receipt = receipt_record rc, en_events = map event_row es\<rparr>"
    using storable_encoded [OF u es(1) rc] by metis
  have run: "pgr_commit other (Inr ()) (alone db now) v u es rc =
      finish_commit commit_failure db None (commit_body other (alone db now) v u es rc
        \<lparr>en_run = run_record u t, en_receipt = receipt_record rc, en_events = map event_row es\<rparr>)"
    by (simp add: pgr_commit_def input t(2))
  show ?thesis
  proof (cases "mem_commands m (rc_tenant_id rc, rc_command_id rc)")
    case None
    from commit_body_new [OF m u t(1) es(1) rc None v order commit, of other now] obtain db' where
      db': "finish_commit commit_failure db None (commit_body other (alone db now) v u es rc
        \<lparr>en_run = run_record u t, en_receipt = receipt_record rc, en_events = map event_row es\<rparr>) = (db', res)"
        "tables_match db' m'" by blast
    have "map_sum id commit_result res = res"
      using commit mem_commit_fresh [OF v None, of u es]
      by (auto simp: Let_def commit_result_def split: if_splits)
    with db' run show ?thesis by auto
  next
    case (Some oc)
    note c = command_match [OF m Some]
    have "mem_commit None m v u es rc =
        (if rc_fingerprint (oc_receipt oc) \<noteq> rc_fingerprint rc then Inl (domain_error RunIdempotencyConflict)
         else Inr (oc\<lparr>oc_replayed := True\<rparr>), m)"
      using False Some c(3) by (cases oc) (simp add: mem_commit_def new_commit_outcome_def)
    moreover have "commit_result (oc\<lparr>oc_replayed := True\<rparr>) = stored_outcome oc"
      by (cases oc) (simp add: commit_result_def stored_outcome_def)
    ultimately show ?thesis
      using commit m arbitration_known [OF m Some, of other now] replay [OF Some]
      unfolding run by (auto simp: commit_body_def finish_commit_def)
  qed
qed

end
