(* ===== verification/Pg_Commit_Laws.thy ===== *)
theory Pg_Commit_Laws
  imports Pg_Commit_Simulation Lease_Mutations Run_History
begin

section \<open>Laws of the transactions\<close>

text \<open>
  Transactions that overlap (the locks make their statements agree), commits under a lease, commits that fail,
  and the replay of what the operations of a run emit.
\<close>

subsection \<open>Overlapping transactions\<close>

text \<open>
  What the locks of PostgreSQL give: an inserted receipt keeps others from inserting it, a stored receipt
  and its event stay, and a locked row of a run or lease does not change before the writes.
\<close>

definition locks_held ::
    "(string \<Rightarrow> exn + datetime) \<Rightarrow> commit_schedule \<Rightarrow> run \<Rightarrow> command_receipt \<Rightarrow> bool" where
  "locks_held other sched u rc \<longleftrightarrow>
     (let seen = cm_receipt_db sched; final = cm_write_db sched in
      receipt_row_at seen (rc_tenant_id rc) (rc_command_id rc) =
        receipt_row_at final (rc_tenant_id rc) (rc_command_id rc) \<and>
      (\<forall>row stored e. receipt_row_at seen (rc_tenant_id rc) (rc_command_id rc) = Some row \<longrightarrow>
         decode_receipt other row = Inr stored \<longrightarrow> e \<in> set (rc_event_ids stored) \<longrightarrow>
         event_row_at seen e (rc_tenant_id stored) (rc_run_id stored) =
           event_row_at final e (rc_tenant_id stored) (rc_run_id stored)) \<and>
      run_row_at (cm_lock_db sched) (r_tenant_id u) (r_run_id u) =
        run_row_at final (r_tenant_id u) (r_run_id u))"

definition at_the_writes :: "commit_schedule \<Rightarrow> commit_schedule" where
  "at_the_writes sched = sched
     \<lparr>cm_receipt_db := cm_write_db sched, cm_lock_db := cm_write_db sched, cm_lease_db := cm_write_db sched\<rparr>"

lemma at_the_writes_simps [simp]:
  "cm_receipt_db (at_the_writes sched) = cm_write_db sched"
  "cm_lock_db (at_the_writes sched) = cm_write_db sched"
  "cm_lease_db (at_the_writes sched) = cm_write_db sched"
  "cm_now (at_the_writes sched) = cm_now sched" "cm_write_db (at_the_writes sched) = cm_write_db sched"
  "cm_fault (at_the_writes sched) = cm_fault sched"
  by (simp_all add: at_the_writes_def)

lemma replay_events_same:
  assumes "\<And>e. e \<in> set (rc_event_ids rc) \<Longrightarrow>
    event_row_at a e (rc_tenant_id rc) (rc_run_id rc) = event_row_at b e (rc_tenant_id rc) (rc_run_id rc)"
  shows "replay_events other a rc = replay_events other b rc"
  using assms by (cases "rc_event_ids rc") (simp_all add: replay_events_def)

lemma find_run_command_same:
  assumes "receipt_row_at a t k = receipt_row_at b t k"
    and "\<And>row stored e. receipt_row_at a t k = Some row \<Longrightarrow> decode_receipt other row = Inr stored \<Longrightarrow>
      e \<in> set (rc_event_ids stored) \<Longrightarrow>
      event_row_at a e (rc_tenant_id stored) (rc_run_id stored) =
        event_row_at b e (rc_tenant_id stored) (rc_run_id stored)"
  shows "find_run_command other a t k f = find_run_command other b t k f"
proof (cases "receipt_row_at a t k")
  case None
  with assms(1) show ?thesis by (simp add: find_run_command_def)
next
  case (Some row)
  show ?thesis
  proof (cases "decode_receipt other row")
    case (Inl x)
    with Some assms(1) show ?thesis by (simp add: find_run_command_def)
  next
    case (Inr stored)
    have "replay_events other a stored = replay_events other b stored"
      using assms(2) [OF Some Inr] by (rule replay_events_same)
    with Some Inr assms(1) show ?thesis by (simp add: find_run_command_def)
  qed
qed

lemma insert_receipt_fst:
  "fst (insert_receipt db (receipt_record rc)) \<longleftrightarrow>
     receipt_row_at db (rc_tenant_id rc) (rc_command_id rc) = None"
  unfolding receipt_row_at_def find_None_iff
  by (auto simp: insert_receipt_def list_ex_iff same_command_receipt)

lemma arbitration_eq:
  "snd (arbitrate_complete_receipt
      (\<lambda>db. case insert_receipt db (receipt_record rc) of (inserted, db') \<Rightarrow> (db', Inr inserted))
      (\<lambda>db. (db, find_run_command other db (rc_tenant_id rc) (rc_command_id rc) (rc_fingerprint rc))) db) =
    (if receipt_row_at db (rc_tenant_id rc) (rc_command_id rc) = None
     then Inr \<lparr>arb_inserted = True, arb_replay = None\<rparr>
     else result_bind (find_run_command other db (rc_tenant_id rc) (rc_command_id rc) (rc_fingerprint rc))
       (\<lambda>replay. Inr \<lparr>arb_inserted = False, arb_replay = replay\<rparr>))"
proof (cases "receipt_row_at db (rc_tenant_id rc) (rc_command_id rc)")
  case None
  then have "fst (insert_receipt db (receipt_record rc))" by (simp add: insert_receipt_fst)
  then obtain db' where "insert_receipt db (receipt_record rc) = (True, db')"
    by (cases "insert_receipt db (receipt_record rc)") auto
  with None show ?thesis by (simp add: arbitrate_complete_receipt_def)
next
  case (Some row)
  then have "\<not> fst (insert_receipt db (receipt_record rc))" by (simp add: insert_receipt_fst)
  then have "insert_receipt db (receipt_record rc) = (False, db)" by (simp add: insert_receipt_def split: if_splits)
  with Some show ?thesis
    by (cases "find_run_command other db (rc_tenant_id rc) (rc_command_id rc) (rc_fingerprint rc)")
       (simp_all add: arbitrate_complete_receipt_def)
qed

lemma arbitration_at_writes:
  assumes "locks_held other sched u rc"
  shows "commit_arbitration other sched rc (receipt_record rc) =
    commit_arbitration other (at_the_writes sched) rc (receipt_record rc)"
proof -
  have same: "receipt_row_at (cm_receipt_db sched) (rc_tenant_id rc) (rc_command_id rc) =
      receipt_row_at (cm_write_db sched) (rc_tenant_id rc) (rc_command_id rc)"
    using assms by (simp add: locks_held_def Let_def)
  moreover have "find_run_command other (cm_receipt_db sched) (rc_tenant_id rc) (rc_command_id rc) f =
      find_run_command other (cm_write_db sched) (rc_tenant_id rc) (rc_command_id rc) f" for f
    using assms by (intro find_run_command_same) (auto simp: locks_held_def Let_def)
  ultimately show ?thesis by (simp add: commit_arbitration_def arbitration_eq)
qed

lemma encode_receipt_record: "encode_receipt rc = Inr row \<Longrightarrow> row = receipt_record rc"
  by (simp add: encode_receipt_def split: if_splits)

lemma encode_candidate_receipt:
  "encode_commit_candidate u rc es = Inr encoded \<Longrightarrow> en_receipt encoded = receipt_record rc"
  by (auto simp: encode_commit_candidate_def result_bind_eq_Inr dest: encode_receipt_record)

lemma commit_body_at_writes:
  assumes "locks_held other sched u rc" and "en_receipt encoded = receipt_record rc"
  shows "commit_body other sched v u es rc encoded = commit_body other (at_the_writes sched) v u es rc encoded"
proof -
  have "locked_current other sched u = locked_current other (at_the_writes sched) u"
    using assms(1) by (simp add: locked_current_def locks_held_def Let_def)
  moreover have "commit_writes sched current u es encoded = commit_writes (at_the_writes sched) current u es encoded"
    for current by (simp add: commit_writes_def)
  ultimately show ?thesis
    unfolding commit_body_def assms(2) arbitration_at_writes [OF assms(1)] by simp
qed

lemma pgr_commit_at_writes:
  assumes "locks_held other sched u rc"
  shows "pgr_commit other schema sched v u es rc = pgr_commit other schema (at_the_writes sched) v u es rc"
proof -
  have "commit_body other sched v u es rc encoded = commit_body other (at_the_writes sched) v u es rc encoded"
    if "encode_commit_candidate u rc es = Inr encoded" for encoded
    using assms encode_candidate_receipt [OF that] by (rule commit_body_at_writes)
  then show ?thesis
    by (cases "encode_commit_candidate u rc es"; cases "validate_commit_input v es rc"; cases schema)
       (simp_all add: pgr_commit_def)
qed

lemma alone_schedule:
  "cm_fault sched = None \<Longrightarrow> at_the_writes sched = alone (cm_write_db sched) (cm_now sched)"
  by (cases sched) (simp add: at_the_writes_def alone_def)

subsection \<open>Commits under a lease\<close>

text \<open>The guard of a commit decides as the lease repository does, and raises the reason that it reports.\<close>

lemma active_status: "status_active (Some status) \<longleftrightarrow> status \<in> set active_statuses"
  by (auto simp: status_active_def)

lemma guard_agrees:
  assumes lease: "\<And>l. current = Some l \<Longrightarrow> worker_lease_record_post_init l = Inr l"
  shows "validate_current_lease proof current status now =
    result_bind (evaluate_authority proof current (Some status) now) (\<lambda>a.
      if au_authoritative a then Inr () else Inl (WorkerLeaseError (the (au_reason a))))"
proof (cases current)
  case None
  then show ?thesis
    by (simp add: validate_current_lease_def evaluate_authority_def authority_not_current_def
        lease_authority_post_init_def)
next
  case (Some l)
  have times: "is_utc (wl_acquired_at l)" "is_utc (wl_heartbeat_at l)" "is_utc (wl_lease_expires_at l)"
      "instant (wl_acquired_at l) \<le> instant (wl_heartbeat_at l)"
      "instant (wl_heartbeat_at l) \<le> instant (wl_lease_expires_at l)" "length (wl_token_digest l) = 32"
    using lease [OF Some] by (auto simp: worker_lease_record_post_init_def split: if_splits option.splits)
  then have results: "matched_not_current l = Inr
        \<lparr>au_authoritative = False, au_reason = Some LeaseNotCurrent,
         au_lease_version = Some (wl_lease_version l), au_acquired_at = Some (wl_acquired_at l),
         au_heartbeat_at = Some (wl_heartbeat_at l), au_lease_expires_at = Some (wl_lease_expires_at l)\<rparr>"
      "authority_expired v (wl_acquired_at l) (wl_heartbeat_at l) (wl_lease_expires_at l) = Inr
        \<lparr>au_authoritative = False, au_reason = Some LeaseExpired, au_lease_version = Some v,
         au_acquired_at = Some (wl_acquired_at l), au_heartbeat_at = Some (wl_heartbeat_at l),
         au_lease_expires_at = Some (wl_lease_expires_at l)\<rparr>"
      "authority_current v (wl_acquired_at l) (wl_heartbeat_at l) (wl_lease_expires_at l) = Inr
        \<lparr>au_authoritative = True, au_reason = None, au_lease_version = Some v,
         au_acquired_at = Some (wl_acquired_at l), au_heartbeat_at = Some (wl_heartbeat_at l),
         au_lease_expires_at = Some (wl_lease_expires_at l)\<rparr>" for v
    by (simp_all add: matched_not_current_def authority_expired_def authority_current_def
        lease_authority_post_init_def require_utc_def)
  have absent: "authority_not_current = Inr
        \<lparr>au_authoritative = False, au_reason = Some LeaseNotCurrent, au_lease_version = None,
         au_acquired_at = None, au_heartbeat_at = None, au_lease_expires_at = None\<rparr>"
    by (simp add: authority_not_current_def lease_authority_post_init_def)
  have matches: "lease_token_matches (pf_token proof) (wl_token_digest l) =
      Inr (digest_lease_token (pf_token proof) = wl_token_digest l)"
    using times(6) by (auto simp: lease_token_matches_def)
  show ?thesis
    unfolding Some validate_current_lease_def evaluate_authority_def proof_matches_def option.case matches
    by (simp add: results absent active_status)
qed

lemma load_guarded_lease_valid:
  assumes "load_guarded_lease db proof = Inr (Some l)"
  shows "worker_lease_record_post_init l = Inr l"
proof -
  from assms obtain row where "decode_worker_lease row = Inr l"
    by (auto simp: load_guarded_lease_def load_lease_for_update_def result_bind_eq_Inr split: option.splits)
  then have "decode_worker_lease_raw row = Inr l" by (auto simp: decode_worker_lease_def split: sum.splits)
  then show ?thesis
    by (auto simp: decode_worker_lease_raw_def result_bind_eq_Inr worker_lease_record_post_init_def
        split: if_splits option.splits)
qed

lemma guarded_current_Inr:
  assumes "guarded_current other sched proof u = Inr c"
  obtains lease a where "load_guarded_lease (cm_lease_db sched) proof = Inr (Some lease)"
    and "evaluate_authority proof (Some lease) (Some (run_status_value (r_status c))) (cm_now sched) = Inr a"
    and "au_authoritative a"
    and "decode_selected other (run_row_at (cm_lock_db sched) (r_tenant_id u) (r_run_id u)) = Inr (Some c)"
proof -
  from assms obtain lease now where c:
      "decode_selected other (run_row_at (cm_lock_db sched) (r_tenant_id u) (r_run_id u)) = Inr (Some c)"
      "load_guarded_lease (cm_lease_db sched) proof = Inr lease" "commit_now (cm_now sched) = Inr now"
      "validate_current_lease proof lease (run_status_value (r_status c)) now = Inr ()"
    by (auto simp: guarded_current_def result_bind_eq_Inr split: option.splits)
  have "now = cm_now sched" using c(3) by (cases "cm_now sched") simp_all
  moreover obtain l where l: "lease = Some l" using c(4) by (cases lease) (simp_all add: validate_current_lease_def)
  moreover have "worker_lease_record_post_init l = Inr l" using load_guarded_lease_valid c(2) l by blast
  ultimately have "result_bind (evaluate_authority proof (Some l) (Some (run_status_value (r_status c))) (cm_now sched))
      (\<lambda>a. if au_authoritative a then Inr () else Inl (WorkerLeaseError (the (au_reason a)))) = Inr ()"
    using guard_agrees [of "Some l" "proof" "run_status_value (r_status c)" now] c(4) by simp
  then show thesis using that c(1,2) l by (auto simp: result_bind_eq_Inr split: if_splits)
qed

text \<open>The same on the tables: the lease view shows the status of the stored run.\<close>

lemma view_status:
  assumes "tenant_id_value t \<noteq> []" and "run_id_value r \<noteq> []"
  shows "run_status_at (lease_view db) t r =
    map_option (\<lambda>row. dv_string (map_of row ''run_status'')) (run_row_at db t r)"
proof -
  have texts: "dv_string v = s \<longleftrightarrow> v = Some (DvText s)" if "s \<noteq> []" for v s
    using that by (cases v rule: dv_string.cases) auto
  have "List.find (\<lambda>row. rr_tenant_id row = tenant_id_value t \<and> rr_run_id row = run_id_value r)
      (map run_row_view rows) = map_option run_row_view (List.find (run_row_is t r) rows)" for rows
    by (induction rows)
       (simp_all add: run_row_is_def column_is_def run_row_view_def texts [OF assms(1)] texts [OF assms(2)])
  then show ?thesis
    by (cases "run_row_at db t r") (simp_all add: run_status_at_def lease_view_def run_row_at_def run_row_view_def)
qed

lemma guard_as_get_authority:
  assumes m: "tables_match db m" and c: "mem_runs m (pf_tenant_id proof, pf_run_id proof) = Some c"
    and now: "now = Aware w off"
  shows "result_bind (load_guarded_lease db proof) (\<lambda>lease.
      validate_current_lease proof lease (run_status_value (r_status c)) now) =
    result_bind (get_authority (Inr ()) (lease_view db) proof now False) (\<lambda>a.
      if au_authoritative a then Inr () else Inl (WorkerLeaseError (the (au_reason a))))"
proof -
  let ?t = "pf_tenant_id proof" and ?r = "pf_run_id proof"
  have run: "run_storable c" using tables_match_mem(2) [OF m c] .
  have "r_tenant_id c = ?t" "r_run_id c = ?r"
    using mem_okD(1) [OF tables_match_mem(1) [OF m], of "(?t, ?r)"] c by (auto simp: stored_ok_def)
  then have "tenant_id_value ?t \<noteq> []" "run_id_value ?r \<noteq> []"
    using run_storableD(1) [OF run] identifier_pattern_length by (fastforce simp: run_ok_def)+
  from view_status [OF this, of db] have status:
      "run_status_at (lease_view db) ?t ?r = Some (run_status_value (r_status c))"
    using run_row_at_match [OF m] c run_row_keys(3) [OF run] by simp
  show ?thesis
  proof (cases "lease_at (lease_view db) ?t ?r")
    case None
    then show ?thesis
      by (simp add: load_guarded_lease_def load_lease_for_update_def get_authority_def load_authority_state_def
          joined_lease_def now validate_current_lease_def evaluate_authority_def authority_not_current_def
          lease_authority_post_init_def)
  next
    case (Some row)
    show ?thesis
    proof (cases "decode_worker_lease row")
      case (Inl x)
      with Some status show ?thesis
        by (simp add: load_guarded_lease_def load_lease_for_update_def get_authority_def load_authority_state_def
            joined_lease_def now)
    next
      case (Inr l)
      with Some have "load_guarded_lease db proof = Inr (Some l)"
        by (simp add: load_guarded_lease_def load_lease_for_update_def)
      with guard_agrees [of "Some l" "proof" "run_status_value (r_status c)" now] load_guarded_lease_valid
        Some Inr status show ?thesis
        by (simp add: get_authority_def load_authority_state_def joined_lease_def now)
    qed
  qed
qed

text \<open>With its guard satisfied a commit is the plain commit.\<close>

lemma commit_body_locked:
  assumes "\<not> structural_create v u es"
    and "decode_selected other (run_row_at (cm_lock_db sched) (r_tenant_id u) (r_run_id u)) = Inr (Some c)"
    and "guarded_current other sched proof u = Inr c"
  shows "guarded_body other sched proof v u es rc encoded = commit_body other sched v u es rc encoded"
proof -
  have "locked_current other sched u = result_bind (fault_at LockPhase (cm_fault sched)) (\<lambda>_. Inr (Some c))"
    using assms(2) by (simp add: locked_current_def)
  then show ?thesis
    unfolding guarded_body_def commit_body_def using assms(1,3)
    by (cases "fault_at LockPhase (cm_fault sched)") (simp_all cong: option.case_cong)
qed

lemma insert_event_constraint:
  "insert_event db row = Inl (ConstraintViolated n) \<Longrightarrow> n \<noteq> ''pk_runs''"
  by (auto simp: insert_event_def split: if_splits)

lemma insert_events_constraint:
  "insert_events db rows = Inl (ConstraintViolated n) \<Longrightarrow> n \<noteq> ''pk_runs''"
  by (induction db rows rule: insert_events.induct)
     (auto simp: result_bind_eq_Inl dest: insert_event_constraint)

lemma update_writes_constraint:
  assumes "commit_writes sched (Some c) u es encoded = Inl (ConstraintViolated n)"
  shows "n \<noteq> ''pk_runs''"
  using assms
  by (auto simp: commit_writes_def Let_def result_bind_eq_Inl update_run_def check_references_def fault_at_def
      dest: insert_events_constraint split: if_splits option.splits)

lemma refuse_Inr_iff: "refuse r = Inr v \<longleftrightarrow> r = Inr v"
  by (cases r) simp_all

lemma refuse_Inl_iff: "refuse r = Inl f \<longleftrightarrow> (\<exists>x. r = Inl x \<and> f = Refused x)"
  by (cases r) auto

lemma fault_at_constraint [simp]: "fault_at phase fault \<noteq> Inl (ConstraintViolated n)"
  by (simp add: fault_at_def split: option.splits)

lemma arbitration_constraint: "commit_arbitration other sched rc row \<noteq> Inl (ConstraintViolated n)"
  by (auto simp: commit_arbitration_def result_bind_eq_Inl refuse_Inl_iff split: option.splits if_splits)

lemma guarded_body_constraint:
  "guarded_body other sched proof v u es rc encoded = Inl (ConstraintViolated n) \<Longrightarrow> n \<noteq> ''pk_runs''"
  by (auto simp: guarded_body_def result_bind_eq_Inl arbitration_constraint refuse_Inl_iff
      dest: update_writes_constraint split: option.splits)

lemma finish_commit_cong:
  assumes "\<And>f. body = Inl f \<Longrightarrow> failure fault f = failure' fault f"
    and "\<And>e. failure fault (DriverError e) = failure' fault (DriverError e)"
  shows "finish_commit failure db fault body = finish_commit failure' db fault body"
  using assms by (auto simp: finish_commit_def split: sum.splits option.splits)

lemma guarded_commit_eq:
  assumes "proof_names_run proof u rc" and "\<not> structural_create v u es"
    and "guarded_current other sched proof u = Inr c"
  shows "pgr_commit_with_lease other schema sched proof v u es rc = pgr_commit other schema sched v u es rc"
proof -
  have "decode_selected other (run_row_at (cm_lock_db sched) (r_tenant_id u) (r_run_id u)) = Inr (Some c)"
    using assms(3) by (rule guarded_current_Inr)
  note body = commit_body_locked [OF assms(2) this assms(3)]
  have "finish_commit guarded_failure (cm_write_db sched) (cm_fault sched)
      (guarded_body other sched proof v u es rc encoded) =
    finish_commit commit_failure (cm_write_db sched) (cm_fault sched)
      (guarded_body other sched proof v u es rc encoded)" for encoded
  proof (rule finish_commit_cong)
    fix f
    assume "guarded_body other sched proof v u es rc encoded = Inl f"
    then show "guarded_failure (cm_fault sched) f = commit_failure (cm_fault sched) f"
      using guarded_body_constraint by (cases f) auto
  qed simp
  then show ?thesis
    unfolding pgr_commit_with_lease_def pgr_commit_def using assms(1)
    by (cases "validate_commit_input v es rc"; cases "encode_commit_candidate u rc es"; cases schema)
       (simp_all add: require_def body)
qed

lemma find_run_command_replayed:
  "find_run_command other db t k f = Inr (Some oc) \<Longrightarrow> oc_replayed oc"
  by (auto simp: find_run_command_def result_bind_eq_Inr new_commit_outcome_def
      split: option.splits if_splits)

lemma arbitration_replayed:
  assumes "commit_arbitration other sched rc (receipt_record rc) = Inr (Some oc)"
  shows "oc_replayed oc"
proof -
  from assms have "find_run_command other (cm_receipt_db sched) (rc_tenant_id rc) (rc_command_id rc)
      (rc_fingerprint rc) = Inr (Some oc)"
    by (auto simp: commit_arbitration_def result_bind_eq_Inr refuse_Inr_iff arbitration_eq
        split: option.splits if_splits)
  then show ?thesis by (rule find_run_command_replayed)
qed

text \<open>The outcome of a body that got to its commit.\<close>

lemma commit_body_phase:
  assumes "commit_body other sched v u es rc encoded = Inr (phase, db, oc)" and "en_receipt encoded = receipt_record rc"
  shows "phase = (if oc_replayed oc then Arbitration else Commit)"
  using assms
proof -
  from assms(1) obtain replay where a: "commit_arbitration other sched rc (receipt_record rc) = Inr replay"
    by (auto simp: commit_body_def result_bind_eq_Inr assms(2))
  show ?thesis
  proof (cases replay)
    case None
    with a assms show ?thesis
      by (auto simp: commit_body_def result_bind_eq_Inr refuse_Inr_iff new_commit_outcome_def split: if_splits)
  next
    case (Some oc')
    with a have "oc_replayed oc'" using arbitration_replayed by blast
    with a assms Some show ?thesis by (simp add: commit_body_def)
  qed
qed

lemma finish_commit_Inr:
  "finish_commit failure before fault body = (db, Inr oc) \<Longrightarrow> \<exists>phase. body = Inr (phase, db, oc)"
  by (auto simp: finish_commit_def split: sum.splits option.splits if_splits)

lemma guarded_success:
  assumes "pgr_commit_with_lease other schema sched proof v u es rc = (db', Inr oc)" and "\<not> oc_replayed oc"
  obtains c where "guarded_current other sched proof u = Inr c" and "r_version c = v"
    and "candidate_ok v (Some c) u es rc {}" and "proof_names_run proof u rc"
proof -
  from assms(1) obtain encoded phase where e: "encode_commit_candidate u rc es = Inr encoded"
      "proof_names_run proof u rc" "guarded_body other sched proof v u es rc encoded = Inr (phase, db', oc)"
    by (auto simp: pgr_commit_with_lease_def result_bind_eq_Inr require_def dest!: finish_commit_Inr
        split: sum.splits if_splits)
  from encode_candidate_receipt [OF e(1)] e(3) assms(2) obtain c where
      "guarded_current other sched proof u = Inr c" "r_version c = v"
      "validate_commit_candidate v (Some c) u es rc {} = Inr ()"
    by (auto simp: guarded_body_def result_bind_eq_Inr refuse_Inr_iff require_def
        dest: arbitration_replayed split: option.splits if_splits)
  then show thesis using that e(2) by (simp add: validate_commit_candidate_iff)
qed

subsection \<open>A lost acknowledgement\<close>

definition losing :: "storage_fault \<Rightarrow> commit_schedule \<Rightarrow> commit_schedule" where
  "losing f sched = sched\<lparr>cm_fault := Some f\<rparr>"

lemma losing_simps [simp]:
  "cm_receipt_db (losing f sched) = cm_receipt_db sched" "cm_lock_db (losing f sched) = cm_lock_db sched"
  "cm_write_db (losing f sched) = cm_write_db sched" "cm_fault (losing f sched) = Some f"
  by (simp_all add: losing_def)

lemma losing_body:
  assumes "sf_phase f = Commit"
  shows "commit_body other (losing f (alone db now)) v u es rc encoded =
    commit_body other (alone db now) v u es rc encoded"
proof -
  have fault: "fault_at phase (Some f) = Inr ()" if "phase \<noteq> Commit" for phase
    using that assms by (auto simp: fault_at_def)
  have arbitration: "commit_arbitration other (losing f (alone db now)) rc row =
      commit_arbitration other (alone db now) rc row" for row
    by (simp add: commit_arbitration_def fault)
  have locked: "locked_current other (losing f (alone db now)) u = locked_current other (alone db now) u"
    by (simp add: locked_current_def fault)
  have writes: "commit_writes (losing f (alone db now)) current u es encoded =
      commit_writes (alone db now) current u es encoded" for current
    by (simp add: commit_writes_def fault)
  show ?thesis
    unfolding commit_body_def arbitration locked writes losing_simps ..
qed

text \<open>The server applied the commit, the client saw an error: the tables are those of the commit.\<close>

lemma lost_commit:
  assumes f: "sf_phase f = Commit" "sf_applied f"
    and ok: "pgr_commit other schema (alone db now) v u es rc = (db', Inr oc)" and new: "\<not> oc_replayed oc"
  shows "pgr_commit other schema (losing f (alone db now)) v u es rc = (db', Inl (storage_exn (Some f) (sf_error f)))"
proof -
  from ok obtain encoded phase where e: "validate_commit_input v es rc = Inr ()"
      "encode_commit_candidate u rc es = Inr encoded" "schema = Inr ()"
      "commit_body other (alone db now) v u es rc encoded = Inr (phase, db', oc)"
    by (auto simp: pgr_commit_def result_bind_eq_Inr dest!: finish_commit_Inr split: sum.splits)
  have "phase = Commit"
    using commit_body_phase [OF e(4) encode_candidate_receipt [OF e(2)]] new by simp
  then show ?thesis
    using e f by (simp add: pgr_commit_def finish_commit_def losing_body [OF f(1)])
qed

text \<open>The retry of a recorded command, with any candidate.\<close>

lemma pgr_commit_known:
  assumes m: "tables_match db m" and u: "run_storable u" and es: "list_all event_storable es" "length es \<le> 1"
    and rc: "receipt_storable rc" and v: "0 \<le> v"
    and oc: "mem_commands m (rc_tenant_id rc, rc_command_id rc) = Some oc" "replayable oc"
      "rc_fingerprint (oc_receipt oc) = rc_fingerprint rc"
  shows "pgr_commit other (Inr ()) (alone db now) v u es rc = (db, Inr (stored_outcome oc))"
proof -
  have "length (rc_event_ids rc) \<le> 1" using rc by (simp add: receipt_storable_def)
  with v es(2) have input: "validate_commit_input v es rc = Inr ()" by (simp add: validate_commit_input_def)
  obtain t where "encode_commit_candidate u rc es =
      Inr \<lparr>en_run = run_record u t, en_receipt = receipt_record rc, en_events = map event_row es\<rparr>"
    using storable_encoded [OF u es(1) rc] by metis
  then show ?thesis
    using arbitration_known [OF m oc(1), of other now] oc(2,3)
    by (simp add: pgr_commit_def input commit_body_def finish_commit_def)
qed

lemma fresh_commit_recorded:
  assumes "mem_commit None m v u es rc = (Inr oc, m')" and "\<not> oc_replayed oc"
  shows "mem_commands m' (rc_tenant_id rc, rc_command_id rc) = Some oc \<and> oc_receipt oc = rc \<and> 0 \<le> v"
  using assms(1)
proof (cases rule: mem_commit_cases)
  case unchanged
  then have False using assms(2) by (auto simp: new_commit_outcome_def split: if_splits)
  then show ?thesis ..
next
  case (published oc')
  then show ?thesis by simp
qed

subsection \<open>Attempts that storage failures end\<close>

text \<open>A storage failure ends a body where it strikes, or the body does not meet it.\<close>

lemma fault_at_Some: "fault_at phase (Some f) = (if sf_phase f = phase then Inl (DriverError (sf_error f)) else Inr ())"
  by (simp add: fault_at_def)

definition stops :: "db_error \<Rightarrow> write_failure + 'a \<Rightarrow> write_failure + 'a \<Rightarrow> bool" where
  "stops e a' a \<longleftrightarrow> a' = Inl (DriverError e) \<or> a' = a"

lemma stops_refl: "stops e a a"
  by (simp add: stops_def)

lemma stops_bind:
  assumes "stops e a' a" and "\<And>v. stops e (g v) (h v)"
  shows "stops e (result_bind a' g) (result_bind a h)"
  using assms(1) assms(2) [of "projr a"] by (cases a) (auto simp: stops_def)

lemma stops_option: "stops e a' a \<Longrightarrow> stops e (case_option a' h r) (case_option a h r)"
  by (cases r) (simp_all add: stops_refl)

lemma stops_fault: "stops (sf_error f) (fault_at phase (Some f)) (fault_at phase None)"
  by (simp add: stops_def fault_at_Some)

lemma faulty_body:
  "stops (sf_error f) (commit_body other (losing f (alone db now)) v u es rc encoded)
     (commit_body other (alone db now) v u es rc encoded)"
proof -
  let ?s = "alone db now" and ?s' = "losing f (alone db now)" and ?e = "sf_error f"
  have arbitration: "stops ?e (commit_arbitration other ?s' rc row) (commit_arbitration other ?s rc row)" for row
    unfolding commit_arbitration_def losing_simps alone_simps by (intro stops_bind stops_fault stops_refl)
  have locked: "stops ?e (locked_current other ?s' u) (locked_current other ?s u)"
    unfolding locked_current_def losing_simps alone_simps by (intro stops_bind stops_fault stops_refl)
  have seen: "stops ?e (if structural_create v u es then Inr None else locked_current other ?s' u)
      (if structural_create v u es then Inr None else locked_current other ?s u)"
    using locked by (simp add: stops_refl)
  have writes: "stops ?e (commit_writes ?s' current u es encoded) (commit_writes ?s current u es encoded)" for current
    unfolding commit_writes_def losing_simps alone_simps by (intro stops_bind stops_fault stops_refl)
  show ?thesis
    unfolding commit_body_def losing_simps
    by (intro stops_bind stops_option stops_refl arbitration seen writes)
qed

lemma commit_attempt:
  assumes ok: "pgr_commit other schema (alone db now) v u es rc = (db1, Inr oc)"
  obtains (failed) "pgr_commit other schema (losing f (alone db now)) v u es rc =
      (db, Inl (storage_exn (Some f) (sf_error f)))"
  | (lost) "sf_phase f = Commit" "sf_applied f" "pgr_commit other schema (losing f (alone db now)) v u es rc =
      (db1, Inl (storage_exn (Some f) (sf_error f)))"
  | (acknowledged) "pgr_commit other schema (losing f (alone db now)) v u es rc = (db1, Inr oc)"
proof -
  from ok obtain encoded phase where e: "validate_commit_input v es rc = Inr ()"
      "encode_commit_candidate u rc es = Inr encoded" "schema = Inr ()"
      "commit_body other (alone db now) v u es rc encoded = Inr (phase, db1, oc)"
    by (auto simp: pgr_commit_def result_bind_eq_Inr dest!: finish_commit_Inr split: sum.splits)
  then have eq: "pgr_commit other schema (losing f (alone db now)) v u es rc =
      finish_commit commit_failure db (Some f) (commit_body other (losing f (alone db now)) v u es rc encoded)"
    by (simp add: pgr_commit_def)
  from faulty_body [of f other db now v u es rc encoded] e(4)
  consider "commit_body other (losing f (alone db now)) v u es rc encoded = Inl (DriverError (sf_error f))"
    | "commit_body other (losing f (alone db now)) v u es rc encoded = Inr (phase, db1, oc)"
    by (auto simp: stops_def)
  then show thesis
  proof cases
    case 1
    with eq failed show thesis by (simp add: finish_commit_def)
  next
    case 2
    with eq that show thesis by (auto simp: finish_commit_def split: if_splits)
  qed
qed

text \<open>
  What a server says of a commit it applied: it confirms no rollback, and it sends no error of its own but the
  two SQLSTATEs that leave the outcome open.
\<close>

definition server_reports :: "storage_fault \<Rightarrow> bool" where
  "server_reports f \<longleftrightarrow> (sf_phase f = Commit \<and> sf_applied f \<longrightarrow>
     \<not> sf_rollback f \<and> sqlstate (sf_error f) \<in> {None, Some ''08007'', Some ''40003''})"

lemma storage_exn_either:
  "storage_exn (Some f) e \<in> {repository_error RepoStorageUnavailable, repository_error RepoCommitOutcomeUnknown}"
  by (cases "classify_storage_failure e (sf_phase f) (sf_rollback f)") (simp_all add: storage_exn_def)

lemma lost_reported_unknown:
  "server_reports f \<Longrightarrow> sf_phase f = Commit \<Longrightarrow> sf_applied f \<Longrightarrow>
     storage_exn (Some f) (sf_error f) = repository_error RepoCommitOutcomeUnknown"
  by (auto simp: server_reports_def storage_exn_def classify_storage_failure_def Let_def
      known_rollback_sqlstates_def unknown_outcome_sqlstates_def)

record commit_request =
  rq_version :: int
  rq_run :: run
  rq_events :: "run_event list"
  rq_receipt :: command_receipt
  rq_now :: datetime

text \<open>One command attempted again and again, each attempt with the storage failure given.\<close>

fun commit_attempts ::
    "(string \<Rightarrow> exn + datetime) \<Rightarrow> run_tables \<Rightarrow> commit_request \<Rightarrow> storage_fault list \<Rightarrow>
     (exn + commit_outcome) list \<times> run_tables" where
  "commit_attempts other db q [] = ([], db)"
| "commit_attempts other db q (f # fs) =
     (case pgr_commit other (Inr ()) (losing f (alone db (rq_now q))) (rq_version q) (rq_run q) (rq_events q)
        (rq_receipt q) of
        (db', res) \<Rightarrow> (case commit_attempts other db' q fs of (rest, db'') \<Rightarrow> (res # rest, db'')))"

abbreviation storage_answers :: "(exn + commit_outcome) set" where
  "storage_answers \<equiv>
     {Inl (repository_error RepoStorageUnavailable), Inl (repository_error RepoCommitOutcomeUnknown)}"

text \<open>Once the command is recorded, every attempt leaves the tables alone.\<close>

lemma attempts_recorded:
  assumes "pgr_commit other (Inr ()) (alone db (rq_now q)) (rq_version q) (rq_run q) (rq_events q) (rq_receipt q) =
      (db, Inr oc)"
  shows "snd (commit_attempts other db q fs) = db \<and>
    set (fst (commit_attempts other db q fs)) \<subseteq> insert (Inr oc) storage_answers"
proof (induction fs)
  case (Cons f fs)
  from assms show ?case
    by (cases rule: commit_attempt [of _ _ _ _ _ _ _ _ _ _ f])
       (use Cons storage_exn_either [of f "sf_error f"] in \<open>auto simp: split_beta\<close>)
qed simp

lemma attempts_new:
  assumes new: "pgr_commit other (Inr ()) (alone db (rq_now q)) (rq_version q) (rq_run q) (rq_events q)
      (rq_receipt q) = (db1, Inr oc)"
    and known: "pgr_commit other (Inr ()) (alone db1 (rq_now q)) (rq_version q) (rq_run q) (rq_events q)
      (rq_receipt q) = (db1, Inr oc')"
    and distinct: "oc' \<noteq> oc" and reports: "\<forall>f\<in>set fs. server_reports f"
    and run: "commit_attempts other db q fs = (answers, db')"
  shows "db' = db \<and> set answers \<subseteq> storage_answers \<or>
    db' = db1 \<and> set answers \<subseteq> {Inr oc, Inr oc'} \<union> storage_answers \<and>
    count_list answers (Inr oc) \<le> 1 \<and>
    (Inr oc \<in> set answers \<or> Inl (repository_error RepoCommitOutcomeUnknown) \<in> set answers)"
  using reports run
proof (induction fs arbitrary: answers)
  case (Cons f fs)
  obtain rest where rest: "commit_attempts other db1 q fs = (rest, db1)"
      "set rest \<subseteq> insert (Inr oc') storage_answers"
    using attempts_recorded [OF known, of fs] by (cases "commit_attempts other db1 q fs") auto
  then have old: "Inr oc \<notin> set rest" using distinct by auto
  from new show ?case
  proof (cases rule: commit_attempt [of _ _ _ _ _ _ _ _ _ _ f])
    case failed
    then obtain as where as: "commit_attempts other db q fs = (as, db')"
        "answers = Inl (storage_exn (Some f) (sf_error f)) # as"
      using Cons.prems(2) by (auto split: prod.splits)
    with Cons.IH [of as] Cons.prems(1) storage_exn_either [of f "sf_error f"] show ?thesis by auto
  next
    case lost
    then have "answers = Inl (repository_error RepoCommitOutcomeUnknown) # rest" "db' = db1"
      using Cons.prems rest(1) lost_reported_unknown by auto
    with rest(2) old show ?thesis by (auto simp: count_list_0_iff)
  next
    case acknowledged
    then have "answers = Inr oc # rest" "db' = db1" using Cons.prems rest(1) by auto
    with rest(2) old show ?thesis by (auto simp: count_list_0_iff)
  qed
qed simp

subsection \<open>What a replay accepts\<close>

definition receipt_for :: "run_operation \<Rightarrow> run_mutation \<Rightarrow> command_receipt \<Rightarrow> bool" where
  "receipt_for op m rc \<longleftrightarrow>
     rc_command_type rc = command_type op \<and> rc_status rc = r_status (mut_run m) \<and>
     rc_version rc = r_version (mut_run m)"

definition is_consume :: "run_operation \<Rightarrow> bool" where
  "is_consume op \<longleftrightarrow> (\<exists>c. op = OpConsumeBudget c)"

lemma operate_event_type:
  assumes r: "run_ok r" and ts: "is_utc ts" and op: "operation_ok op"
    and m: "run_operate r op ts eid = Inr m" and e: "mut_events m = [e]"
  shows "command_event_type (command_type op) = Some (ev_type e) \<or>
    is_consume op \<and> ev_type e = RunLimitExceeded"
proof -
  have en: "enabled op (r_status r)" using operate_disabled [OF r op] m by fastforce
  then show ?thesis
    using m e r ts op
    by (cases op) (auto simp: run_start_advance run_wait_for_approval_advance
      run_wait_for_resolution_advance run_resume_advance run_succeed_advance run_fail_eq
      run_cancel_advance run_enforce_deadline_eq run_consume_budget_eq command_event_type_def is_consume_def
      transition_event_def limit_advance_def usage_advance_def split: if_splits sum.splits option.splits)
qed

lemma operate_replay:
  assumes r: "run_ok r" and op: "operation_ok op" and m: "run_operate r op ts eid = Inr m"
    and e: "mut_events m = [e]" and rc: "receipt_for op m rc"
  shows "validate_replay_event rc e =
    (if is_consume op \<and> ev_type e = RunLimitExceeded then Inl (repository_error RepoDataCorruption) else Inr ())"
proof -
  have ts: "is_utc ts" using operate_utc [OF r op m] e by fastforce
  have en: "enabled op (r_status r)" using operate_disabled [OF r op] m by fastforce
  have "ev_sequence e = r_version (mut_run m) \<and>
      map_of (ev_payload e) ''status'' = Some (FStr (run_status_value (r_status (mut_run m)))) \<and>
      map_of (ev_payload e) ''run_version'' = Some (FInt (r_version (mut_run m)))"
    using operate_transition [OF r ts op en m] e run_okD(5) [OF r]
    by (cases rule: transition.cases) (auto simp: transition_event_def)
  moreover have "command_event_type (command_type op) = Some (ev_type e) \<longleftrightarrow>
      \<not> (is_consume op \<and> ev_type e = RunLimitExceeded)"
    using operate_event_type [OF r ts op m e] by (auto simp: is_consume_def command_event_type_def)
  ultimately show ?thesis
    using rc by (auto simp: validate_replay_event_def require_def receipt_for_def)
qed

subsection \<open>Sessions\<close>

text \<open>Commits one after the other, on the tables and on the in-memory repository.\<close>

fun pg_session ::
    "(string \<Rightarrow> exn + datetime) \<Rightarrow> run_tables \<Rightarrow> commit_request list \<Rightarrow> (exn + commit_outcome) list \<times> run_tables" where
  "pg_session other db [] = ([], db)"
| "pg_session other db (q # qs) =
     (case pgr_commit other (Inr ()) (alone db (rq_now q)) (rq_version q) (rq_run q) (rq_events q) (rq_receipt q) of
        (db', res) \<Rightarrow> (case pg_session other db' qs of (rest, db'') \<Rightarrow> (res # rest, db'')))"

fun mem_session ::
    "memory_repository \<Rightarrow> commit_request list \<Rightarrow> (exn + commit_outcome) list \<times> memory_repository" where
  "mem_session m [] = ([], m)"
| "mem_session m (q # qs) =
     (case mem_commit None m (rq_version q) (rq_run q) (rq_events q) (rq_receipt q) of
        (res, m') \<Rightarrow> (case mem_session m' qs of (rest, m'') \<Rightarrow> (res # rest, m'')))"

text \<open>Requests with storable values that neither race a creation with a broken candidate nor repeat an
  unreplayable command.\<close>

definition request_ok :: "memory_repository \<Rightarrow> commit_request \<Rightarrow> bool" where
  "request_ok m q \<longleftrightarrow>
     run_storable (rq_run q) \<and> list_all event_storable (rq_events q) \<and> length (rq_events q) \<le> 1 \<and>
     receipt_storable (rq_receipt q) \<and> orderly m (rq_version q) (rq_run q) (rq_events q) (rq_receipt q) \<and>
     (\<forall>oc. mem_commands m (rc_tenant_id (rq_receipt q), rc_command_id (rq_receipt q)) = Some oc \<longrightarrow> replayable oc)"

fun requests_ok :: "memory_repository \<Rightarrow> commit_request list \<Rightarrow> bool" where
  "requests_ok m [] = True"
| "requests_ok m (q # qs) =
     (request_ok m q \<and>
      requests_ok (snd (mem_commit None m (rq_version q) (rq_run q) (rq_events q) (rq_receipt q))) qs)"

lemma session_match:
  "tables_match db m \<Longrightarrow> requests_ok m qs \<Longrightarrow>
     fst (pg_session other db qs) = map (map_sum id commit_result) (fst (mem_session m qs)) \<and>
     tables_match (snd (pg_session other db qs)) (snd (mem_session m qs))"
proof (induction qs arbitrary: db m)
  case (Cons q qs)
  obtain res m' where mem: "mem_commit None m (rq_version q) (rq_run q) (rq_events q) (rq_receipt q) = (res, m')"
    by fastforce
  from Cons.prems(2) have "request_ok m q" "requests_ok m' qs" using mem by simp_all
  then obtain db' where "pgr_commit other (Inr ()) (alone db (rq_now q)) (rq_version q) (rq_run q) (rq_events q)
        (rq_receipt q) = (db', map_sum id commit_result res)" "tables_match db' m'"
    using pgr_commit_match [OF Cons.prems(1) _ _ _ _ _ _ mem] unfolding request_ok_def by blast
  with Cons.IH [OF this(2) \<open>requests_ok m' qs\<close>] mem show ?case by (simp add: split_beta id_def)
qed simp

end
