(* ===== verification/Pg_Event_Pages.thy ===== *)
theory Pg_Event_Pages
  imports Pg_Run_Simulation
begin

section \<open>Pages of events\<close>

text \<open>
  The cursor query compares sequences as pairs of a number of digits and a text. The locale
  \<open>digit_collation\<close> extends \<open>collation\<close> by what the query needs: texts of digits of one length are in the order
  of their numbers. Then a page is the next segment of the run's log.
\<close>

locale digit_collation = collation le for le :: "string \<Rightarrow> string \<Rightarrow> bool" +
  assumes digits_order: "length a = length b \<Longrightarrow> list_all is_digit a \<Longrightarrow> list_all is_digit b \<Longrightarrow>
    le a b \<longleftrightarrow> text_value a \<le> text_value b"

subsection \<open>Sequences as texts\<close>

definition integer_key :: "int \<Rightarrow> int \<times> string" where
  "integer_key i = (int (length (integer_text i)), integer_text i)"

lemma nat_text_length_mono:
  assumes "m \<le> n"
  shows "length (nat_text m) \<le> length (nat_text n)"
proof -
  have "n < 10 ^ length (nat_text n)"
    using digits_value_less [of "nat_digits n"] text_value_nat_text [of n]
    by (auto simp: text_value_def nat_text_def comp_def dest: nat_digits_small)
  with assms have "m < 10 ^ length (nat_text n)" by simp
  then show ?thesis using length_nat_digits [of m "length (nat_text n)"] by (simp add: length_nat_text)
qed

lemma natural_text: "0 \<le> i \<Longrightarrow> integer_text i = nat_text (nat i)"
  by (simp add: integer_text_def)

lemma integer_key_inj:
  assumes "integer_key i = integer_key j"
  shows "i = j"
proof -
  from assms have "integer_text i = integer_text j" by (simp add: integer_key_def)
  then show ?thesis by (metis integer_text_pattern)
qed

context digit_collation
begin

lemma integer_key_before:
  assumes "0 \<le> i" and "i \<le> j"
  shows "key_before le (integer_key i) (integer_key j)"
proof -
  have texts: "integer_text i = nat_text (nat i)" "integer_text j = nat_text (nat j)"
    using assms natural_text by simp_all
  have "length (integer_text i) \<le> length (integer_text j)"
    using assms nat_text_length_mono texts by simp
  moreover have "le (integer_text i) (integer_text j)" if "length (integer_text i) = length (integer_text j)"
  proof -
    have "list_all is_digit (nat_text n)" for n by (auto simp: list_all_iff nat_text_digits)
    with that texts have "le (integer_text i) (integer_text j) \<longleftrightarrow>
        text_value (nat_text (nat i)) \<le> text_value (nat_text (nat j))"
      using digits_order [of "integer_text i" "integer_text j"] by simp
    with assms show ?thesis by simp
  qed
  ultimately show ?thesis by (auto simp: key_before_def integer_key_def)
qed

lemma integer_key_order:
  assumes "0 \<le> i" and "0 \<le> j"
  shows "key_before le (integer_key i) (integer_key j) \<longleftrightarrow> i \<le> j"
proof
  assume before: "key_before le (integer_key i) (integer_key j)"
  show "i \<le> j"
  proof (rule ccontr)
    assume "\<not> i \<le> j"
    with assms have "key_before le (integer_key j) (integer_key i)" by (intro integer_key_before) simp_all
    with before have "integer_key i = integer_key j" by (rule key_antisym)
    with \<open>\<not> i \<le> j\<close> integer_key_inj show False by auto
  qed
qed (rule integer_key_before [OF assms(1)])

lemma key_after_before: "key_after le a b \<longleftrightarrow> \<not> key_before le a b"
  by (auto simp: key_after_def key_before_def)

end

lemma sorted_wrt_unique:
  assumes "\<And>x y. x \<in> set xs \<Longrightarrow> y \<in> set xs \<Longrightarrow> R x y \<Longrightarrow> R y x \<Longrightarrow> x = y"
    and "sorted_wrt R xs" and "sorted_wrt R ys" and "distinct xs" and "distinct ys" and "set xs = set ys"
  shows "xs = ys"
  using assms
proof (induction xs arbitrary: ys)
  case (Cons x xs)
  then obtain y ys' where ys: "ys = y # ys'" by (cases ys) auto
  have "x = y"
  proof (rule ccontr)
    assume ne: "x \<noteq> y"
    then have "y \<in> set xs" "x \<in> set ys'" using Cons.prems(6) ys by auto
    with Cons.prems(2,3) ys have "R x y" "R y x" by auto
    with Cons.prems(1) [of x y] \<open>y \<in> set xs\<close> ne show False by simp
  qed
  moreover have "set xs = set ys'" using Cons.prems(4-6) ys calculation by auto
  then have "xs = ys'" using Cons.IH [of ys'] Cons.prems ys by auto
  ultimately show ?case using ys by simp
qed simp

subsection \<open>Rows of the page\<close>

lemma sequence_key_row:
  "event_storable e \<Longrightarrow> sequence_key (event_row e) = integer_key (ev_sequence e)"
  by (simp add: sequence_key_def sequence_text_def event_row_keys integer_key_def encode_canonical_integer_eq)

definition sequence_before :: "(string \<Rightarrow> string \<Rightarrow> bool) \<Rightarrow> db_row \<Rightarrow> db_row \<Rightarrow> bool" where
  "sequence_before le a b = key_before le (sequence_key a) (sequence_key b)"

lemma decode_page_row:
  assumes "event_storable e"
  shows "decode_event other (page_record (event_row e)) = Inr (stored_event e)"
proof -
  obtain t where t: "event_row e = event_record e t"
      "decode_canonical_json t = Inr (thaw_event_payload (payload_normal (ev_payload e)))"
    using event_row_columns [OF assms] by metis
  have "map (select_column (event_record e t)) event_fields = event_record e t"
    by (simp add: event_record_def event_fields_def select_column_def)
  moreover have "snd (select_column (event_record e t) ''occurred_at'') = DvTime (ev_occurred_at e)"
    by (simp add: event_record_def select_column_def)
  ultimately have "page_record (event_row e) =
      with_time (event_record e t) (DvText (json_timestamp (ev_occurred_at e)))"
    by (simp add: page_record_def t(1))
  moreover have "dv_timestamp other (DvText (json_timestamp (ev_occurred_at e))) = Inr (ev_occurred_at e)"
    using assms by (intro dv_timestamp_json) (simp add: event_storable_def)
  ultimately show ?thesis using decode_event_record [OF assms t(2)] by simp
qed

lemma run_log_facts:
  assumes m: "tables_match db m" and es: "mem_events m (t, r) = Some es"
  shows "e \<in> set es \<Longrightarrow> event_storable e" and "sorted_wrt (\<lambda>a b. ev_sequence a \<le> ev_sequence b) es"
    and "distinct (map event_row es)" and "e \<in> set es \<Longrightarrow> 1 \<le> ev_sequence e"
proof -
  have ok: "mem_ok m" using m by (rule tables_match_mem)
  have storable: "event_storable e" if "e \<in> set es" for e
    using that events_of_log [OF ok es] tables_match_mem(3) [OF m] by blast
  then show "e \<in> set es \<Longrightarrow> event_storable e" .
  obtain c where c: "log_ok c es" "distinct (map ev_event_id es)" using log_of_run [OF ok es] by metis
  then have seq: "map ev_sequence es = [1..r_version c]" by (simp add: log_ok_def)
  have "sorted (map ev_sequence es)" unfolding seq by simp
  then show "sorted_wrt (\<lambda>a b. ev_sequence a \<le> ev_sequence b) es" by (simp add: sorted_map)
  have "inj_on event_row (set es)"
  proof (rule inj_onI)
    fix a b assume ab: "a \<in> set es" "b \<in> set es" "event_row a = event_row b"
    have "ev_event_id a = ev_event_id b"
      using event_row_keys(1) [OF storable [OF ab(1)]] event_row_keys(1) [OF storable [OF ab(2)]] ab(3) by simp
    with ab c(2) show "a = b" by (auto simp: distinct_map inj_on_def)
  qed
  moreover have "distinct es" using c(2) by (simp add: distinct_map)
  ultimately show "distinct (map event_row es)" by (simp add: distinct_map)
  show "1 \<le> ev_sequence e" if "e \<in> set es"
  proof -
    have "ev_sequence e \<in> set (map ev_sequence es)" using that by simp
    then show ?thesis unfolding seq by simp
  qed
qed

context digit_collation
begin

lemma page_rows_log:
  assumes m: "tables_match db m" and es: "mem_events m (t, r) = Some es" and after: "0 \<le> after"
  shows "order_by (sequence_before le) (filter (\<lambda>row. run_row_is t r row \<and>
      key_after le (sequence_key row) (integer_key after)) (tb_events db)) =
    map event_row (filter (\<lambda>e. after < ev_sequence e) es)" (is "order_by (sequence_before le) ?rows = ?page")
proof -
  have ok: "mem_ok m" using m by (rule tables_match_mem)
  note log = run_log_facts [OF m es]
  have later: "key_after le (sequence_key (event_row e)) (integer_key after) \<longleftrightarrow> after < ev_sequence e"
    if "e \<in> events_of m" "ev_tenant_id e = t" "ev_run_id e = r" for e
  proof -
    have "e \<in> set es" using that events_of_log [OF ok es] by simp
    then have "1 \<le> ev_sequence e" "event_storable e" by (rule log(4), rule log(1))
    then show ?thesis
      using integer_key_order [OF _ after, of "ev_sequence e"] by (simp add: key_after_before sequence_key_row not_le)
  qed
  have rows: "set ?rows = set ?page"
  proof -
    have mine: "run_row_is t r (event_row e) \<longleftrightarrow> ev_tenant_id e = t \<and> ev_run_id e = r" if "e \<in> events_of m" for e
      using tables_match_mem(3) [OF m that] by (rule event_row_is_row)
    have "row \<in> set ?rows \<longleftrightarrow> (\<exists>e \<in> events_of m. row = event_row e \<and> ev_tenant_id e = t \<and> ev_run_id e = r \<and>
        after < ev_sequence e)" for row
      unfolding set_filter tables_matchD(5) [OF m] using mine later by blast
    moreover have "row \<in> set ?page \<longleftrightarrow> (\<exists>e \<in> events_of m. row = event_row e \<and> ev_tenant_id e = t \<and>
        ev_run_id e = r \<and> after < ev_sequence e)" for row
      unfolding set_map set_filter using events_of_log [OF ok es] by blast
    ultimately show ?thesis by blast
  qed
  have pairs: "sequence_before le (event_row a) (event_row b) \<longleftrightarrow> ev_sequence a \<le> ev_sequence b"
    if "a \<in> set es" "b \<in> set es" for a b
  proof -
    have "event_storable a" "event_storable b" "1 \<le> ev_sequence a" "1 \<le> ev_sequence b"
      using that by (auto intro: log(1) log(4))
    then show ?thesis by (simp add: sequence_before_def sequence_key_row integer_key_order)
  qed
  have sorted: "sorted_wrt (sequence_before le) ?page"
    unfolding sorted_wrt_map
    by (rule sorted_wrt_mono_rel [OF _ sorted_wrt_filter [OF log(2)]]) (simp add: pairs)
  have "inj_on event_row (set es)" "distinct es" using log(3) by (simp_all add: distinct_map)
  then have distinct: "distinct ?page" by (auto simp: distinct_map intro: inj_on_subset)
  have sequences: "inj_on ev_sequence (set es)"
  proof -
    obtain c where "log_ok c es" using log_of_run [OF ok es] by metis
    then have "map ev_sequence es = [1..r_version c]" by (simp add: log_ok_def)
    then have "distinct (map ev_sequence es)" by simp
    then show ?thesis by (simp add: distinct_map)
  qed
  have antisym: "x = y" if "x \<in> set ?page" "y \<in> set ?page" "sequence_before le x y" "sequence_before le y x" for x y
  proof -
    from that(1,2) obtain a b where ab: "x = event_row a" "y = event_row b" "a \<in> set es" "b \<in> set es" by auto
    then have "ev_sequence a \<le> ev_sequence b" "ev_sequence b \<le> ev_sequence a" using pairs that(3,4) by simp_all
    then have "ev_sequence a = ev_sequence b" by (rule order_antisym)
    with ab sequences show ?thesis by (simp add: inj_on_eq_iff)
  qed
  show ?thesis
  proof (rule sorted_wrt_unique [where R = "sequence_before le"])
    show "sorted_wrt (sequence_before le) (order_by (sequence_before le) ?rows)"
      unfolding sequence_before_def by (rule sorted_order_by)
    show "distinct (order_by (sequence_before le) ?rows)"
      using tables_matchD(4) [OF m] by (intro distinct_order_by distinct_filter)
    show "set (order_by (sequence_before le) ?rows) = set ?page" unfolding set_order_by by (rule rows)
    show "x = y" if "x \<in> set (order_by (sequence_before le) ?rows)" "y \<in> set (order_by (sequence_before le) ?rows)"
      "sequence_before le x y" "sequence_before le y x" for x y
      using that unfolding set_order_by rows by (rule antisym)
  qed (rule sorted distinct)+
qed

end

lemma page_rows_unknown:
  assumes m: "tables_match db m" and none: "mem_events m (t, r) = None"
  shows "filter (run_row_is t r) (tb_events db) = []"
proof -
  have "\<not> run_row_is t r row" if row: "row \<in> set (tb_events db)" for row
  proof
    assume mine: "run_row_is t r row"
    from row obtain e where e: "row = event_row e" "e \<in> events_of m" unfolding tables_matchD(5) [OF m] by blast
    then obtain key es where es: "mem_events m key = Some es" "e \<in> set es" unfolding events_of_def by blast
    have "ev_tenant_id e = t \<and> ev_run_id e = r"
      using mine event_row_is_row [OF tables_match_mem(3) [OF m e(2)]] e(1) by simp
    with log_keys [OF tables_match_mem(1) [OF m] es] es(1) none show False by simp
  qed
  then show ?thesis by (simp add: filter_empty_conv)
qed

lemma runs_and_logs:
  assumes "tables_match db m"
  shows "mem_runs m (t, r) = None \<longleftrightarrow> mem_events m (t, r) = None"
  using mem_okD(1) [OF tables_match_mem(1) [OF assms], of "(t, r)"]
  by (auto simp: stored_ok_def split: option.splits)

lemma traverse_page:
  "list_all event_storable es \<Longrightarrow>
     traverse (decode_event other) (map (page_record \<circ> event_row) es) = Inr (map stored_event es)"
  by (induction es) (simp_all add: decode_page_row)

lemma event_page_match:
  assumes le: "digit_collation le" and m: "tables_match db m" and after: "0 \<le> after"
  shows "event_page le db t r after limit =
    (case mem_events m (t, r) of
       None \<Rightarrow> []
     | Some es \<Rightarrow> map (page_record \<circ> event_row) (take (nat limit) (filter (\<lambda>e. after < ev_sequence e) es)))"
proof -
  have cursor: "(int (length (encode_canonical_integer after)), encode_canonical_integer after) = integer_key after"
    by (simp add: integer_key_def encode_canonical_integer_eq)
  have page: "event_page le db t r after limit =
      map page_record (take (nat limit) (order_by (sequence_before le) (filter (\<lambda>row. run_row_is t r row \<and>
        key_after le (sequence_key row) (integer_key after)) (tb_events db))))"
    unfolding event_page_def Let_def cursor sequence_before_def ..
  show ?thesis
  proof (cases "mem_events m (t, r)")
    case None
    have "filter (\<lambda>row. run_row_is t r row \<and> key_after le (sequence_key row) (integer_key after)) (tb_events db) = []"
      using page_rows_unknown [OF m None] by (auto simp: filter_empty_conv)
    with page None show ?thesis by simp
  next
    case (Some es)
    with page digit_collation.page_rows_log [OF le m Some after] show ?thesis by (simp add: take_map)
  qed
qed

lemma pgr_list_events_match:
  assumes le: "digit_collation le" and m: "tables_match db m"
  shows "pgr_list_events other le (Inr ()) False db t r after limit =
    map_sum id (map stored_event) (mem_list_events m t r after limit)"
proof (cases "0 \<le> after \<and> 1 \<le> limit \<and> limit \<le> 1000")
  case False
  then show ?thesis by (auto simp: pgr_list_events_def mem_list_events_def)
next
  case True
  note page = event_page_match [OF le m, of after t r limit]
  show ?thesis
  proof (cases "mem_events m (t, r)")
    case None
    moreover have "run_row_at db t r = None" using None runs_and_logs [OF m] run_row_at_match [OF m] by simp
    ultimately show ?thesis
      using True page by (simp add: pgr_list_events_def mem_list_events_def storage_available_def Let_def)
  next
    case (Some es)
    then have "run_row_at db t r \<noteq> None" using runs_and_logs [OF m, of t r] run_row_at_match [OF m] by simp
    moreover have "list_all event_storable (take (nat limit) (filter (\<lambda>e. after < ev_sequence e) es))"
      using run_log_facts(1) [OF m Some] by (auto simp: list_all_iff dest: in_set_takeD)
    ultimately show ?thesis
      using True page Some traverse_page
      by (simp add: pgr_list_events_def mem_list_events_def storage_available_def Let_def)
  qed
qed

subsection \<open>The order by code points\<close>

lemma digit_order:
  assumes "is_digit c" and "is_digit d"
  shows "c < d \<longleftrightarrow> digit_value c < digit_value d" and "c = d \<longleftrightarrow> digit_value c = digit_value d"
    and "digit_value c < 10"
proof -
  have range: "48 \<le> (of_char c :: nat) \<and> (of_char c :: nat) \<le> 57" if "is_digit c" for c
    using that by (simp add: is_digit_def char_in_def)
  show "c < d \<longleftrightarrow> digit_value c < digit_value d" "digit_value c < 10"
    using range [OF assms(1)] range [OF assms(2)] by (auto simp: less_char_def digit_value_def)
  show "c = d \<longleftrightarrow> digit_value c = digit_value d" by (metis digit_char_value assms)
qed

lemma text_value_Cons: "text_value (c # s) = digit_value c * 10 ^ length s + text_value s"
  by (simp add: text_value_def digits_value_Cons)

lemma text_value_less: "list_all is_digit s \<Longrightarrow> text_value s < 10 ^ length s"
proof -
  assume "list_all is_digit s"
  then have "d < 10" if "d \<in> set (map digit_value s)" for d using that by (auto simp: list_all_iff)
  then have "digits_value (map digit_value s) < 10 ^ length (map digit_value s)" by (rule digits_value_less)
  then show ?thesis by (simp add: text_value_def)
qed

lemma leading_digit:
  fixes a b c d n :: nat
  assumes "a < n" and "b < n"
  shows "c * n + a \<le> d * n + b \<longleftrightarrow> c < d \<or> c = d \<and> a \<le> b"
proof (cases c d rule: linorder_cases)
  case less
  then have "(c + 1) * n \<le> d * n" by (intro mult_right_mono) simp_all
  with assms less show ?thesis by simp
next
  case greater
  then have "(d + 1) * n \<le> c * n" by (intro mult_right_mono) simp_all
  with assms greater show ?thesis by simp
qed simp

lemma code_point_digits:
  assumes "length a = length b" and "list_all is_digit a" and "list_all is_digit b"
  shows "code_point_le a b \<longleftrightarrow> text_value a \<le> text_value b"
  using assms
proof (induction a b rule: list_induct2)
  case (Cons x xs y ys)
  have "text_value (x # xs) \<le> text_value (y # ys) \<longleftrightarrow>
      digit_value x < digit_value y \<or> digit_value x = digit_value y \<and> text_value xs \<le> text_value ys"
    using leading_digit [of "text_value xs" "10 ^ length xs" "text_value ys"] text_value_less [of xs]
      text_value_less [of ys] Cons.hyps Cons.prems by (simp add: text_value_Cons)
  with Cons digit_order(1,2) [of x y] show ?case by (simp add: code_point_le_def)
qed (simp add: code_point_le_def)

interpretation code_point_digits: digit_collation code_point_le
  by unfold_locales (rule code_point_digits)

end
