(* ===== verification/Run_Decoders.thy ===== *)
theory Run_Decoders
  imports Run_Roundtrip
begin

section \<open>Malformed rows of runs, events and receipts\<close>

text \<open>
  Nothing that a decoder calls raises a repository error, so that every exception becomes the
  data-corruption error. \<open>other\<close> (\<open>datetime.fromisoformat\<close> on foreign layouts) is a library function.
\<close>

definition plain :: "exn + 'a \<Rightarrow> bool" where
  "plain r \<longleftrightarrow> (\<forall>c. r \<noteq> Inl (RunRepositoryError c))"

named_theorems plain_rules \<open>calls that raise no repository error\<close>

lemma plain_simps [simp]: "plain (Inr v)" "plain (Inl x) \<longleftrightarrow> (\<forall>c. x \<noteq> RunRepositoryError c)"
  by (simp_all add: plain_def)

lemma plain_bind [plain_rules]:
  "plain r \<Longrightarrow> (\<And>v. plain (f v)) \<Longrightarrow> plain (result_bind r f)"
  by (cases r) simp_all

lemma plain_traverse [plain_rules]: "(\<And>v. v \<in> set xs \<Longrightarrow> plain (f v)) \<Longrightarrow> plain (traverse f xs)"
proof (induction xs)
  case (Cons x xs)
  then have "plain (f x)" "plain (traverse f xs)" by simp_all
  then show ?case by (cases "f x"; cases "traverse f xs") simp_all
qed simp

lemma plain_require [plain_rules]: "plain (Inl x) \<Longrightarrow> plain (require b x)"
  by (simp add: require_def)

lemma plain_if [plain_rules]: "plain r \<Longrightarrow> plain q \<Longrightarrow> plain (if b then r else q)"
  by simp

lemma plain_field [plain_rules]: "(\<And>v. plain (f v)) \<Longrightarrow> plain (field row name f)"
  by (simp add: field_def column_def split: option.splits)

lemma plain_pick [plain_rules]: "(\<And>v. plain (f v)) \<Longrightarrow> plain (pick d name f)"
  by (simp add: pick_def split: option.splits)

lemma plain_option [plain_rules]: "(\<And>v. plain (f v)) \<Longrightarrow> plain (pv_option f v)"
  by (cases v) (simp_all add: plain_bind)

lemma plain_dv_option [plain_rules]: "(\<And>v. plain (f v)) \<Longrightarrow> plain (dv_option f v)"
  by (cases v) (simp_all add: plain_bind)

lemma plain_enum [plain_rules]: "plain (enum_of name members s)"
  by (simp add: enum_of_def split: option.splits)

lemma plain_enums [plain_rules]:
  "plain (run_status_of s)" "plain (run_event_type_of s)" "plain (budget_dimension_of s)" "plain (error_code_of s)"
  by (simp_all add: run_status_of_def run_event_type_of_def budget_dimension_of_def error_code_of_def plain_enum)

lemma plain_identifier [plain_rules]: "plain (new_identifier cls s)"
  by (simp add: new_identifier_def)

lemma plain_integer [plain_rules]: "plain (decode_canonical_integer s)"
  by (simp add: decode_canonical_integer_def Let_def)

lemma plain_json [plain_rules]: "plain (decode_canonical_json s)"
  unfolding decode_canonical_json_def by (simp split: option.split)

lemma plain_dv [plain_rules]:
  "plain (dv_text v)" "plain (dv_identifier cls v)" "plain (dv_payload_version v)" "plain (dv_json v)"
  by (cases v; simp add: plain_json plain_identifier)+

lemma plain_pv [plain_rules]:
  "plain (pv_text v)" "plain (pv_integer v)" "plain (pv_mapping v names)"
  by (cases v; simp)+

lemma plain_strings [plain_rules]: "plain (pv_strings v)"
  by (cases v) (simp_all add: plain_traverse plain_pv)

lemma plain_utc [plain_rules]: "plain (read_utc t)"
  by (simp add: read_utc_def)

lemma plain_decimal [plain_rules]: "plain (normalize_decimal d)"
  by (simp add: normalize_decimal_def)

lemma plain_canonical [plain_rules]: "plain (canonical_decimal d)"
  unfolding canonical_decimal_def
  by (intro plain_bind plain_decimal) (simp split: decimal.split prod.split)

lemma plain_decimal_record [plain_rules]: "plain (decimal_record s)" "plain (pv_decimal v)"
  unfolding decimal_record_def pv_decimal_def
  by (intro plain_rules; simp add: plain_canonical plain_bind)+

lemma plain_counters [plain_rules]: "plain (validate_counters vs)"
  by (simp add: validate_counters_eq)

lemma plain_post_init [plain_rules]:
  "plain (agent_version_ref_post_init a)" "plain (safe_run_error_post_init e)"
  "plain (command_receipt_post_init rc)" "plain (run_result_draft_post_init d)"
  by (simp_all add: agent_version_ref_post_init_def safe_run_error_post_init_def command_receipt_post_init_def
      run_result_draft_post_init_def)

lemma plain_snapshot [plain_rules]: "plain (budget_snapshot_post_init s)"
  unfolding budget_snapshot_post_init_def by (intro plain_rules) simp_all

lemma plain_budget [plain_rules]: "plain (run_budget_post_init b)"
  unfolding run_budget_post_init_def by (intro plain_rules) simp_all

lemma plain_result [plain_rules]: "plain (run_result_post_init r)"
  by (simp add: run_result_post_init_def split: option.split)

lemma plain_run [plain_rules]: "plain (run_post_init r)"
  by (simp add: run_post_init_def split: option.split)

subsection \<open>Payloads\<close>

lemma plain_freeze [plain_rules]: "plain (freeze_json v)"
proof (induction v rule: freeze_json.induct)
  case (5 kvs)
  have "plain (freeze_entry kv)" if "kv \<in> set kvs" for kv
  proof (cases "fst kv")
    case (PStr k)
    with 5 [OF that] show ?thesis by (simp add: freeze_entry_def plain_bind)
  qed (simp_all add: freeze_entry_def)
  then show ?case unfolding freeze_json_PDict by (intro plain_bind plain_traverse) simp_all
qed (auto intro!: plain_bind plain_traverse)

lemma plain_item [plain_rules]: "plain (item p name)"
  by (simp add: item_def split: option.split)

lemma plain_member [plain_rules]: "plain (member_of v names)"
  by (simp add: member_of_def)

lemma plain_leaves [plain_rules]: "plain (validate_identifier_field v)" "plain (validate_usage v)"
  by (cases v; simp add: plain_require)+

lemma plain_present [plain_rules]: "(\<And>v. plain (check v)) \<Longrightarrow> plain (when_present p name check)"
  by (simp add: when_present_def split: option.split)

lemma plain_case [plain_rules]:
  "plain r \<Longrightarrow> (\<And>v. plain (f v)) \<Longrightarrow> plain (case x of None \<Rightarrow> r | Some v \<Rightarrow> f v)"
  by (cases x) simp_all

lemma plain_schema [plain_rules]: "plain (validate_payload_schema t p)"
  unfolding validate_payload_schema_def by (intro plain_rules) simp_all

lemma plain_new_event [plain_rules]: "plain (new_run_event eid tid rid seq t ts pv raw)"
proof -
  have tail: "plain (case frozen of FMap p \<Rightarrow> result_bind (validate_payload_schema t p) (\<lambda>_. Inr (f p)) | _ \<Rightarrow> Inl TypeError)"
    for f :: "payload \<Rightarrow> run_event" and frozen
    by (simp split: frozen.split add: plain_bind plain_schema)
  show ?thesis
    unfolding new_run_event_def
    by (cases raw) (simp_all, intro impI plain_bind plain_freeze tail)
qed

subsection \<open>The decoders\<close>

lemma plain_rows [plain_rules]: "plain (row_mapping row names)" "plain (row_version row name)"
  "plain (dv_integer_text v)" "plain (pv_integer_text w)" "plain (pv_identifier cls w)" "plain (pv_references w)"
  unfolding row_mapping_def row_version_def dv_integer_text_def pv_integer_text_def pv_identifier_def pv_references_def
  by (intro plain_rules; simp)+

lemma plain_charges [plain_rules]: "plain (decode_charges v)"
  by (cases v) (auto simp: decode_charge_def intro!: plain_traverse plain_bind plain_rows plain_pv)

lemma plain_parts [plain_rules]:
  "plain (decode_agent v)" "plain (decode_usage v)" "plain (decode_error_value v)" "plain (decode_draft v)"
  unfolding decode_agent_def decode_usage_def decode_error_value_def decode_draft_def
  by (intro plain_rules; simp)+

lemma plain_result_value [plain_rules]: "plain (decode_result_value v)"
  unfolding decode_result_value_def by (intro plain_rules)

lemma plain_timestamps:
  assumes "\<And>s. plain (other s)"
  shows "plain (read_timestamp_text other s)" "plain (dv_timestamp other v)" "plain (pv_timestamp other w)"
proof -
  have "plain (fromisoformat other s)" for s
    using assms by (simp add: fromisoformat_def split: option.split)
  then have "plain (result_bind (fromisoformat other (replace_Z s)) read_utc)" for s
    by (intro plain_bind plain_utc)
  then have reads: "plain (read_timestamp_text other s)" for s by (simp add: read_timestamp_text_def)
  then show "plain (read_timestamp_text other s)" .
  show "plain (dv_timestamp other v)" using reads by (cases v) (simp_all add: plain_utc)
  show "plain (pv_timestamp other w)" unfolding pv_timestamp_def using reads by (intro plain_rules)
qed

lemma plain_decoders:
  assumes other: "\<And>s. plain (other s)"
  shows "plain (decode_run_raw other row)" "plain (decode_event_raw other row)" "plain (decode_receipt_raw other row)"
proof -
  note rules = plain_rules plain_timestamps [OF other]
  have "plain (decode_budget other v)" for v unfolding decode_budget_def by (intro rules)
  note rules = rules this
  have "plain (decode_snapshot other v)" for v unfolding decode_snapshot_def by (intro rules)
  note rules = rules this
  have "plain (projections_agree other row r)" for r unfolding projections_agree_def by (intro rules) simp
  note rules = rules this
  show "plain (decode_run_raw other row)" unfolding decode_run_raw_def by (intro rules plain_simps(1))
  show "plain (decode_event_raw other row)" unfolding decode_event_raw_def by (intro rules) simp_all
  show "plain (decode_receipt_raw other row)" unfolding decode_receipt_raw_def by (intro rules)
qed

lemma or_corruption_plain: "plain r \<Longrightarrow> or_corruption r = Inl x \<Longrightarrow> x = RunRepositoryError RepoDataCorruption"
  by (cases r; cases "projl r") (simp_all add: or_corruption_def)

end
