(* ===== verification/Pg_Samples.thy ===== *)
theory Pg_Samples
  imports Pg_Commit_Laws Pg_Event_Pages Run_Decoders Samples Lease_Properties
begin

section \<open>A sample session\<close>

text \<open>The creation of a run and its start, as commits, with a lease of the run.\<close>

definition sample_event_created :: run_event where
  "sample_event_created =
     \<lparr>ev_event_id = EventId ''e1'', ev_tenant_id = sample_tenant, ev_run_id = sample_run_id, ev_sequence = 1,
      ev_type = RunCreated, ev_occurred_at = Utc 0, ev_payload_version = 1,
      ev_payload = [(''agent_version_id'', FStr ''v1''), (''run_version'', FInt 1), (''status'', FStr ''queued'')]\<rparr>"

definition sample_event_started :: run_event where
  "sample_event_started =
     \<lparr>ev_event_id = EventId ''e2'', ev_tenant_id = sample_tenant, ev_run_id = sample_run_id, ev_sequence = 2,
      ev_type = RunStarted, ev_occurred_at = Utc (seconds 1), ev_payload_version = 1,
      ev_payload = [(''run_version'', FInt 2), (''status'', FStr ''running''),
        (''previous_status'', FStr ''queued'')]\<rparr>"

definition sample_receipt :: "string \<Rightarrow> string \<Rightarrow> run \<Rightarrow> run_event \<Rightarrow> command_receipt" where
  "sample_receipt k type u e =
     \<lparr>rc_tenant_id = sample_tenant, rc_command_id = CommandId k, rc_run_id = sample_run_id,
      rc_command_type = type, rc_fingerprint = sample_digest, rc_status = r_status u,
      rc_version = r_version u, rc_event_ids = [ev_event_id e], rc_created_at = ev_occurred_at e\<rparr>"

definition sample_create_request :: commit_request where
  "sample_create_request =
     \<lparr>rq_version = 0, rq_run = sample_created, rq_events = [sample_event_created],
      rq_receipt = sample_receipt ''cmd-1'' ''create_run'' sample_created sample_event_created, rq_now = Utc 0\<rparr>"

definition sample_start_request :: commit_request where
  "sample_start_request =
     \<lparr>rq_version = 1, rq_run = sample_running, rq_events = [sample_event_started],
      rq_receipt = sample_receipt ''cmd-2'' ''start_run'' sample_running sample_event_started,
      rq_now = Utc (seconds 1)\<rparr>"

definition sample_tables :: run_tables where
  "sample_tables = \<lparr>tb_runs = [], tb_events = [], tb_receipts = [], tb_leases = []\<rparr>"

definition request_outcome :: "commit_request \<Rightarrow> commit_outcome" where
  "request_outcome q = \<lparr>oc_receipt = rq_receipt q, oc_events = rq_events q, oc_replayed = False\<rparr>"

definition request_published :: "memory_repository \<Rightarrow> commit_request \<Rightarrow> memory_repository" where
  "request_published m q = mem_published m (rq_run q) (rq_events q) (rq_receipt q) (request_outcome q)"

definition sample_memory :: memory_repository where
  "sample_memory = request_published mem_init sample_create_request"

lemma sample_run_keys [simp]:
  "r_tenant_id sample_created = sample_tenant" "r_run_id sample_created = sample_run_id"
  "r_version sample_created = 1" "r_next_event_sequence sample_created = 2"
  "r_tenant_id sample_running = sample_tenant" "r_run_id sample_running = sample_run_id"
  "r_version sample_running = 2" "r_next_event_sequence sample_running = 3"
  by (simp_all add: sample_created_def created_run_def sample_running_def next_run_def)

lemma sample_event_keys [simp]:
  "ev_event_id sample_event_created = EventId ''e1''" "ev_sequence sample_event_created = 1"
  "ev_event_id sample_event_started = EventId ''e2''" "ev_sequence sample_event_started = 2"
  by (simp_all add: sample_event_created_def sample_event_started_def)

lemma sample_events_ok: "run_event_ok sample_event_created" "run_event_ok sample_event_started"
  by code_simp+

lemma sample_request_simps [simp]:
  "rq_version sample_create_request = 0" "rq_run sample_create_request = sample_created"
  "rq_events sample_create_request = [sample_event_created]" "rq_version sample_start_request = 1"
  "rq_run sample_start_request = sample_running" "rq_events sample_start_request = [sample_event_started]"
  by (simp_all add: sample_create_request_def sample_start_request_def)

lemma utc_time_seconds: "0 \<le> w \<Longrightarrow> w \<le> 1000000000 \<Longrightarrow> utc_time (Utc w)"
  by (simp_all add: utc_time_def in_range_def min_wall_def max_wall_def)

lemma sample_runs_storable: "run_storable sample_created" "run_storable sample_running"
  using sample_created_ok sample_running_ok utc_time_seconds
  by (simp_all add: run_storable_def sample_created_def created_run_def sample_running_def next_run_def
      charges_ok_def empty_snapshot_def)

lemma sample_events_storable: "event_storable sample_event_created" "event_storable sample_event_started"
proof -
  have ids: "identifier_pattern ''e1''" "identifier_pattern ''e2''" by code_simp+
  show "event_storable sample_event_created"
    using sample_events_ok(1) sample_ids_ok ids utc_time_seconds
    by (simp add: event_storable_def) (simp add: sample_event_created_def)
  show "event_storable sample_event_started"
    using sample_events_ok(2) sample_ids_ok ids utc_time_seconds
    by (simp add: event_storable_def) (simp add: sample_event_started_def)
qed

lemma sample_receipts_storable:
  "receipt_storable (rq_receipt sample_create_request)" "receipt_storable (rq_receipt sample_start_request)"
  by code_simp+

lemma sample_requests_ok:
  "request_ok mem_init sample_create_request" "request_ok sample_memory sample_start_request"
proof -
  show "request_ok mem_init sample_create_request"
    using sample_runs_storable sample_events_storable sample_receipts_storable
    by (simp add: request_ok_def sample_create_request_def orderly_def mem_init_def)
  show "request_ok sample_memory sample_start_request"
    using sample_runs_storable sample_events_storable sample_receipts_storable
    by (simp add: request_ok_def sample_start_request_def orderly_def structural_create_def sample_memory_def
        request_published_def sample_create_request_def sample_receipt_def mem_init_def)
qed

lemma sample_commits:
  "mem_commit None mem_init 0 sample_created [sample_event_created] (rq_receipt sample_create_request) =
     (Inr (request_outcome sample_create_request), sample_memory)"
  "mem_commit None sample_memory 1 sample_running [sample_event_started] (rq_receipt sample_start_request) =
     (Inr (request_outcome sample_start_request), request_published sample_memory sample_start_request)"
proof -
  show "mem_commit None mem_init 0 sample_created [sample_event_created] (rq_receipt sample_create_request) =
     (Inr (request_outcome sample_create_request), sample_memory)"
    by (subst mem_commit_fresh)
       (simp_all add: Let_def mem_init_def at_version_def candidate_ok_def occupied_def sample_memory_def
        sample_create_request_def sample_receipt_def request_outcome_def request_published_def sample_event_created_def)
  show "mem_commit None sample_memory 1 sample_running [sample_event_started] (rq_receipt sample_start_request) =
     (Inr (request_outcome sample_start_request), request_published sample_memory sample_start_request)"
    by (subst mem_commit_fresh)
       (simp_all add: Let_def mem_init_def at_version_def candidate_ok_def occupied_def sample_memory_def
        sample_create_request_def sample_start_request_def sample_receipt_def request_outcome_def
        request_published_def sample_event_created_def sample_event_started_def)
qed

lemma sample_tables_match: "tables_match sample_tables mem_init"
  unfolding sample_tables_def by (rule empty_tables_match)

lemma request_match:
  assumes "tables_match db m" and "request_ok m q"
    and "mem_commit None m (rq_version q) (rq_run q) (rq_events q) (rq_receipt q) = (Inr (request_outcome q), m')"
  shows "\<exists>db'. pgr_commit other (Inr ()) (alone db now) (rq_version q) (rq_run q) (rq_events q) (rq_receipt q) =
      (db', Inr (request_outcome q)) \<and> tables_match db' m'"
  using pgr_commit_match [OF assms(1) _ _ _ _ _ _ assms(3), of other now] assms(2)
  by (auto simp: request_ok_def request_outcome_def commit_result_def)

lemma sample_stored: "\<exists>db. tables_match db sample_memory"
  using request_match [OF sample_tables_match sample_requests_ok(1), of sample_memory] sample_commits(1)
  by auto

lemma sample_replayable:
  "replayable (request_outcome sample_create_request)" "replayable (request_outcome sample_start_request)"
  by (simp_all add: replayable_def request_outcome_def sample_create_request_def sample_start_request_def
      validate_replay_event_def command_event_type_def sample_receipt_def sample_event_created_def
      sample_event_started_def require_def)

lemma request_outcome_replayed [simp]: "\<not> oc_replayed (request_outcome q)"
  by (simp add: request_outcome_def)

lemma sample_start_now [simp]: "rq_now sample_start_request = Utc (seconds 1)"
  by (simp add: sample_start_request_def)

subsection \<open>The lease of the sample run\<close>

lemma leases_irrelevant: "tables_match (db\<lparr>tb_leases := ls\<rparr>) m \<longleftrightarrow> tables_match db m"
  by (simp add: tables_match_def receipt_row_at_def)

definition sample_lease :: worker_lease_record where
  "sample_lease = smp_lease\<lparr>wl_tenant_id := sample_tenant\<rparr>"

definition sample_proof :: lease_authority_proof where
  "sample_proof = smp_proof\<lparr>pf_tenant_id := sample_tenant\<rparr>"

definition sample_leased :: "run_tables \<Rightarrow> run_tables" where
  "sample_leased db = db\<lparr>tb_leases := [encode_worker_lease sample_lease]\<rparr>"

lemma sample_proof_simps [simp]:
  "pf_tenant_id sample_proof = sample_tenant" "pf_run_id sample_proof = sample_run_id"
  by (simp_all add: sample_proof_def smp_proof_def sample_run_id_def)

lemma sample_memory_run: "mem_runs sample_memory (sample_tenant, sample_run_id) = Some sample_created"
  by (simp add: sample_memory_def request_published_def)

lemma sample_lease_ok: "worker_lease_record_ok sample_lease"
  using smp_lease_ok sample_ids_ok(1)
  by (auto simp: sample_lease_def worker_lease_record_ok_def worker_lease_record_post_init_def
      split: if_splits option.splits)

lemma sample_lease_loaded: "load_guarded_lease (sample_leased db) sample_proof = Inr (Some sample_lease)"
proof -
  have "lease_at (lease_view (sample_leased db)) sample_tenant sample_run_id = Some (encode_worker_lease sample_lease)"
    by (simp add: lease_at_def lease_view_def sample_leased_def encode_worker_lease_def sample_lease_def
        smp_lease_def sample_run_id_def column_is_def)
  with decode_encode_worker_lease [OF sample_lease_ok] show ?thesis
    by (simp add: load_guarded_lease_def load_lease_for_update_def)
qed

lemma sample_guard: "result_bind (load_guarded_lease (sample_leased db) sample_proof) (\<lambda>lease.
      validate_current_lease sample_proof lease (run_status_value (r_status sample_created)) (Utc smp_now)) = Inr ()"
proof -
  have "digest_lease_token smp_token = wl_token_digest sample_lease"
    by (simp add: sample_lease_def smp_lease_def)
  moreover have "length (wl_token_digest sample_lease) = 32"
    using sample_lease_ok by (auto simp: worker_lease_record_ok_def worker_lease_record_post_init_def split: if_splits)
  ultimately show ?thesis
    unfolding sample_lease_loaded
    by (simp add: validate_current_lease_def lease_token_matches_def active_statuses_def)
       (simp add: sample_lease_def sample_proof_def smp_lease_def smp_proof_def sample_run_id_def)
qed

lemma sample_guarded_commit:
  assumes db: "tables_match db sample_memory"
  shows "\<exists>db'. pgr_commit_with_lease other (Inr ()) (alone (sample_leased db) (Utc smp_now)) sample_proof 1
      sample_running [sample_event_started] (rq_receipt sample_start_request) =
      (db', Inr (request_outcome sample_start_request))"
proof -
  have leased: "tables_match (sample_leased db) sample_memory"
    using db by (simp add: sample_leased_def leases_irrelevant)
  have "guarded_current other (alone (sample_leased db) (Utc smp_now)) sample_proof sample_running =
      Inr (stored_run sample_created)"
    using sample_guard [of db]
    by (simp add: guarded_current_def decode_selected_match [OF leased] sample_memory_run sample_lease_loaded)
  moreover have "proof_names_run sample_proof sample_running (rq_receipt sample_start_request)"
    by (simp add: proof_names_run_def sample_start_request_def sample_receipt_def)
  moreover have "\<not> structural_create 1 sample_running [sample_event_started]" by (simp add: structural_create_def)
  ultimately show ?thesis
    using guarded_commit_eq request_match [OF leased sample_requests_ok(2), of _ other "Utc smp_now"] sample_commits(2)
    by auto
qed

subsection \<open>A lost acknowledgement\<close>

definition lost_acknowledgement :: storage_fault where
  "lost_acknowledgement =
     \<lparr>sf_phase = Commit, sf_error = DbError None None True None, sf_rollback = False, sf_applied = True\<rparr>"

lemma lost_acknowledgement_state [simp]: "sqlstate (sf_error lost_acknowledgement) = None"
  by code_simp

lemma lost_acknowledgement_simps [simp]:
  "sf_phase lost_acknowledgement = Commit" "sf_applied lost_acknowledgement" "\<not> sf_rollback lost_acknowledgement"
  "storage_exn (Some lost_acknowledgement) (sf_error lost_acknowledgement) =
     repository_error RepoCommitOutcomeUnknown"
proof -
  show "sf_phase lost_acknowledgement = Commit" "sf_applied lost_acknowledgement" "\<not> sf_rollback lost_acknowledgement"
    by (simp_all add: lost_acknowledgement_def)
  then show "storage_exn (Some lost_acknowledgement) (sf_error lost_acknowledgement) =
      repository_error RepoCommitOutcomeUnknown"
    by (intro lost_reported_unknown) (simp_all add: server_reports_def)
qed

lemma lost_acknowledgement_reported: "server_reports lost_acknowledgement"
  by (simp add: server_reports_def)

text \<open>A connection that is lost before the transaction begins.\<close>

definition lost_connection :: storage_fault where
  "lost_connection =
     \<lparr>sf_phase = Acquire, sf_error = DbError None None True None, sf_rollback = False, sf_applied = False\<rparr>"

lemma sample_faults_reported: "\<forall>f\<in>set [lost_acknowledgement, lost_connection]. server_reports f"
  using lost_acknowledgement_reported by (simp add: server_reports_def lost_connection_def)

lemma lost_connection_fails:
  assumes "pgr_commit other (Inr ()) (alone db now) v u es rc = (db, Inr oc)"
  shows "pgr_commit other (Inr ()) (losing lost_connection (alone db now)) v u es rc =
    (db, Inl (repository_error RepoStorageUnavailable))"
proof -
  from assms obtain encoded where "validate_commit_input v es rc = Inr ()" "encode_commit_candidate u rc es = Inr encoded"
    by (auto simp: pgr_commit_def result_bind_eq_Inr split: sum.splits)
  then show ?thesis
    by (simp add: pgr_commit_def commit_body_def commit_arbitration_def fault_at_Some finish_commit_def)
       (simp add: lost_connection_def fault_at_Some storage_exn_def classify_storage_failure_def Let_def)
qed

lemma sample_attempts:
  "\<exists>db db'. tables_match db sample_memory \<and>
     commit_attempts other db sample_start_request [lost_acknowledgement, lost_connection] =
       ([Inl (repository_error RepoCommitOutcomeUnknown), Inl (repository_error RepoStorageUnavailable)], db') \<and>
     db' \<noteq> db"
proof -
  obtain db where db: "tables_match db sample_memory" using sample_stored by blast
  let ?m = "request_published sample_memory sample_start_request"
  obtain db' where db': "pgr_commit other (Inr ()) (alone db (Utc (seconds 1))) 1 sample_running
      [sample_event_started] (rq_receipt sample_start_request) = (db', Inr (request_outcome sample_start_request))"
      "tables_match db' ?m"
    using request_match [OF db sample_requests_ok(2), of _ other "Utc (seconds 1)"] sample_commits(2) by auto
  have "db' \<noteq> db"
  proof
    assume "db' = db"
    with db'(2) have "tables_match db ?m" by simp
    from find_run_command_match [OF this, of other sample_tenant "CommandId ''cmd-2''" sample_digest]
      find_run_command_match [OF db, of other sample_tenant "CommandId ''cmd-2''" sample_digest] sample_replayable(2)
    show False
      by (simp add: sample_memory_def request_published_def sample_create_request_def sample_start_request_def
          sample_receipt_def mem_init_def request_outcome_def)
  qed
  moreover have "mem_commands ?m (rc_tenant_id (rq_receipt sample_start_request),
      rc_command_id (rq_receipt sample_start_request)) = Some (request_outcome sample_start_request)"
    by (simp add: request_published_def)
  then have "pgr_commit other (Inr ()) (alone db' (Utc (seconds 1))) 1 sample_running [sample_event_started]
      (rq_receipt sample_start_request) = (db', Inr (stored_outcome (request_outcome sample_start_request)))"
    using sample_runs_storable(2) sample_events_storable(2) sample_receipts_storable(2) sample_replayable(2)
    by (intro pgr_commit_known [OF db'(2)]) (simp_all add: request_outcome_def)
  moreover have "pgr_commit other (Inr ()) (losing lost_acknowledgement (alone db (Utc (seconds 1)))) 1 sample_running
      [sample_event_started] (rq_receipt sample_start_request) = (db', Inl (repository_error RepoCommitOutcomeUnknown))"
    using lost_commit [OF _ _ db'(1), of lost_acknowledgement] by simp
  ultimately show ?thesis
    using db by (intro exI conjI) (simp_all add: lost_connection_fails)
qed

subsection \<open>A charge at the deadline\<close>

definition sample_limit :: run_mutation where
  "sample_limit = limit_advance sample_running DimDeadline (Utc (seconds 1000)) (EventId ''e3'')"

definition sample_event_limited :: run_event where
  "sample_event_limited = transition_event sample_running LimitExceeded RunLimitExceeded (Utc (seconds 1000))
     (EventId ''e3'')
     [(''error_code'', FStr ''budget_limit''),
      (''limit_dimension'', FStr (budget_dimension_value DimDeadline)), (''result_version'', FInt 1)]"

definition sample_charge_request :: commit_request where
  "sample_charge_request =
     \<lparr>rq_version = 2, rq_run = mut_run sample_limit, rq_events = [sample_event_limited],
      rq_receipt = sample_receipt ''cmd-3'' ''consume_budget'' (mut_run sample_limit) sample_event_limited,
      rq_now = Utc (seconds 1000)\<rparr>"

definition sample_started :: memory_repository where
  "sample_started = request_published sample_memory sample_start_request"

lemma sample_limit_events: "mut_events sample_limit = [sample_event_limited]"
  by (simp add: sample_limit_def sample_event_limited_def)

lemma sample_charge_limited:
  "run_operate sample_running (OpConsumeBudget sample_charge) (Utc (seconds 1000)) (EventId ''e3'') = Inr sample_limit"
proof -
  obtain f where f: "budget_apply empty_snapshot sample_charge sample_budget =
      Inr \<lparr>decided_snapshot = charged_snapshot empty_snapshot sample_charge (Fin False 5 (- 1)) f,
        decided_replayed = False, decided_exceeded = None\<rparr>"
    using sample_charge_accepted by blast
  have parts: "r_usage sample_running = empty_snapshot" "r_budget sample_running = sample_budget"
      "r_last_observed_at sample_running = Utc (seconds 1)"
    by (simp_all add: sample_running_def sample_created_def created_run_def next_run_def)
  have "Utc (seconds 1000) = datetime_max (r_last_observed_at sample_running) (Utc (seconds 1000))"
    by (simp add: parts datetime_max_def)
  from run_consume_budget_eq [OF sample_running_ok _ _ sample_charge_ok this, of "EventId ''e3''"] f show ?thesis
    by (simp add: parts sample_limit_def)
qed

lemma sample_limit_simps [simp]:
  "r_tenant_id (mut_run sample_limit) = sample_tenant" "r_run_id (mut_run sample_limit) = sample_run_id"
  "r_status (mut_run sample_limit) = LimitExceeded" "r_version (mut_run sample_limit) = 3"
  "r_next_event_sequence (mut_run sample_limit) = 4"
  by (simp_all add: sample_limit_def limit_advance_def advance_def)

lemma sample_event_limited_simps [simp]:
  "ev_event_id sample_event_limited = EventId ''e3''" "ev_tenant_id sample_event_limited = sample_tenant"
  "ev_run_id sample_event_limited = sample_run_id" "ev_sequence sample_event_limited = 3"
  "ev_type sample_event_limited = RunLimitExceeded" "ev_occurred_at sample_event_limited = Utc (seconds 1000)"
  by (simp_all add: sample_event_limited_def transition_event_def)

lemma sample_limit_storable:
  "run_storable (mut_run sample_limit)" "event_storable sample_event_limited"
  "receipt_storable (rq_receipt sample_charge_request)"
proof -
  have ok: "run_ok (mut_run sample_limit) \<and> extends sample_running sample_limit"
    using operate_extends [OF sample_running_ok _ _ sample_charge_limited] sample_charge_ok by simp
  then show "run_storable (mut_run sample_limit)"
    using sample_runs_storable(2) utc_time_seconds
    by (auto simp: run_storable_def sample_limit_def limit_advance_def advance_def next_run_def)
  have "identifier_pattern ''e3''" by code_simp
  then show "event_storable sample_event_limited"
    using ok sample_ids_ok utc_time_seconds
    by (auto simp: event_storable_def extends_def sample_limit_events)
  show "receipt_storable (rq_receipt sample_charge_request)"
    unfolding sample_charge_request_def sample_receipt_def by simp code_simp
qed

lemma sample_charge_commit:
  "request_ok sample_started sample_charge_request"
  "mem_commit None sample_started 2 (mut_run sample_limit) [sample_event_limited] (rq_receipt sample_charge_request) =
     (Inr (request_outcome sample_charge_request), request_published sample_started sample_charge_request)"
proof -
  show "request_ok sample_started sample_charge_request"
    using sample_limit_storable
    by (simp add: request_ok_def sample_charge_request_def orderly_def structural_create_def sample_started_def
        sample_memory_def request_published_def sample_create_request_def sample_start_request_def
        sample_receipt_def mem_init_def)
  show "mem_commit None sample_started 2 (mut_run sample_limit) [sample_event_limited]
       (rq_receipt sample_charge_request) =
     (Inr (request_outcome sample_charge_request), request_published sample_started sample_charge_request)"
    by (subst mem_commit_fresh)
       (simp_all add: Let_def mem_init_def at_version_def candidate_ok_def occupied_def sample_memory_def
        sample_started_def sample_create_request_def sample_start_request_def sample_charge_request_def
        sample_receipt_def request_outcome_def request_published_def sample_event_created_def
        sample_event_started_def)
qed

lemma sample_charge_stored:
  "\<exists>db. tables_match db (request_published sample_started sample_charge_request)"
proof -
  obtain db where "tables_match db sample_memory" using sample_stored by blast
  from request_match [OF this sample_requests_ok(2), of sample_started "\<lambda>_. Inl ValueError" "Utc 0"] sample_commits(2)
  obtain db' where "tables_match db' sample_started" by (auto simp: sample_started_def)
  from request_match [OF this sample_charge_commit(1), of _ "\<lambda>_. Inl ValueError" "Utc 0"] sample_charge_commit(2)
  show ?thesis by (auto simp: sample_charge_request_def)
qed

end
