(* ===== verification/Pg_Run_Properties.thy ===== *)
theory Pg_Run_Properties
  imports Pg_Samples
begin

section \<open>Properties of the PostgreSQL run repository\<close>

text \<open>
  The refinement of the in-memory repository, atomicity under overlap, fencing, faults, pages and rows, each
  with a witness on the sample session.
\<close>

text \<open>C1: A session of commits, each in a transaction of its own, returns on the PostgreSQL tables exactly what the
  in-memory repository returns (a replay with its events as they are stored) and leaves tables that match
  the in-memory repository. The requests hold storable values with at most one event; a refused
  creation of an existing run must fail on its version alone, and a repeated command must be one that a
  replay accepts.\<close>
theorem session_simulates_memory:
  assumes "tables_match db m" and "requests_ok m qs"
  shows "fst (pg_session other db qs) = map (map_sum id commit_result) (fst (mem_session m qs)) \<and>
    tables_match (snd (pg_session other db qs)) (snd (mem_session m qs))"
  using assms by (rule session_match)

theorem session_simulates_memory_witness:
  "tables_match (snd (pg_session (\<lambda>_. Inl ValueError) sample_tables [sample_create_request, sample_start_request]))
      (request_published sample_memory sample_start_request) \<and>
   fst (pg_session (\<lambda>_. Inl ValueError) sample_tables [sample_create_request, sample_start_request]) =
      [Inr (request_outcome sample_create_request), Inr (request_outcome sample_start_request)]"
proof -
  let ?qs = "[sample_create_request, sample_start_request]"
  have "requests_ok mem_init ?qs" using sample_requests_ok sample_commits by simp
  from session_simulates_memory [OF sample_tables_match this, of "\<lambda>_. Inl ValueError"] sample_commits
  show ?thesis by (simp add: commit_result_def request_outcome_def)
qed

text \<open>C2: Transactions may overlap. When the locks of PostgreSQL are held as \<open>locks_held\<close> says, a commit without a
  storage fault takes effect as one step at its writes: its result and the tables it leaves are those of
  the in-memory commit on what the tables hold at that moment, whatever the earlier statements saw.\<close>
theorem overlapping_commits_are_atomic:
  assumes "locks_held other sched u rc" and "cm_fault sched = None" and "tables_match (cm_write_db sched) m"
    and "run_storable u" and "list_all event_storable es" and "length es \<le> 1" and "receipt_storable rc"
    and "orderly m v u es rc"
    and "\<And>oc. mem_commands m (rc_tenant_id rc, rc_command_id rc) = Some oc \<Longrightarrow> replayable oc"
    and "mem_commit None m v u es rc = (res, m')"
  shows "\<exists>db'. pgr_commit other (Inr ()) sched v u es rc = (db', map_sum id commit_result res) \<and>
    tables_match db' m'"
  unfolding pgr_commit_at_writes [OF assms(1)] alone_schedule [OF assms(2)]
  using assms(3-) by (rule pgr_commit_match)

text \<open>A transaction whose lock on the run and whose lease were read before another lease was stored.\<close>

definition sample_overlap :: "run_tables \<Rightarrow> commit_schedule" where
  "sample_overlap db =
     \<lparr>cm_receipt_db = db, cm_lock_db = db, cm_lease_db = db, cm_now = Utc 0,
      cm_write_db = db\<lparr>tb_leases := [encode_worker_lease smp_lease]\<rparr>, cm_fault = None\<rparr>"

theorem overlapping_commits_are_atomic_witness:
  "\<exists>db db'. pgr_commit (\<lambda>_. Inl ValueError) (Inr ()) (sample_overlap db) 1 sample_running [sample_event_started]
      (rq_receipt sample_start_request) = (db', Inr (request_outcome sample_start_request)) \<and>
    tables_match db' (request_published sample_memory sample_start_request)"
proof -
  obtain db where db: "tables_match db sample_memory" using sample_stored by blast
  have "locks_held (\<lambda>_. Inl ValueError) (sample_overlap db) sample_running (rq_receipt sample_start_request)"
    by (simp add: locks_held_def sample_overlap_def Let_def receipt_row_at_def event_row_at_def run_row_at_def)
  moreover have "tables_match (cm_write_db (sample_overlap db)) sample_memory"
    using db by (simp add: sample_overlap_def leases_irrelevant)
  moreover have "cm_fault (sample_overlap db) = None" by (simp add: sample_overlap_def)
  moreover note sample_requests_ok(2)
  ultimately obtain db' where "pgr_commit (\<lambda>_. Inl ValueError) (Inr ()) (sample_overlap db) 1 sample_running
      [sample_event_started] (rq_receipt sample_start_request) =
      (db', map_sum id commit_result (Inr (request_outcome sample_start_request)))"
      "tables_match db' (request_published sample_memory sample_start_request)"
    using overlapping_commits_are_atomic [OF _ _ _ _ _ _ _ _ _ sample_commits(2)]
    by (simp add: request_ok_def) blast
  then show ?thesis by (auto simp: commit_result_def request_outcome_def)
qed

subsection \<open>Commits under a lease\<close>

text \<open>C3: A commit under a lease that is not a replay publishes only for the worker that owns the run: the locked
  lease names the proof's run, worker, claim, attempt and token, it is not released and has not expired, the
  locked run is active and at the expected version, and the result is that of the commit without a lease.\<close>
theorem guarded_commit_fenced:
  assumes "pgr_commit_with_lease other schema sched proof v u es rc = (db', Inr oc)" and "\<not> oc_replayed oc"
  shows "\<exists>lease c. load_guarded_lease (cm_lease_db sched) proof = Inr (Some lease) \<and>
    decode_selected other (run_row_at (cm_lock_db sched) (r_tenant_id u) (r_run_id u)) = Inr (Some c) \<and>
    pf_tenant_id proof = r_tenant_id u \<and> pf_run_id proof = r_run_id u \<and>
    proof_matches proof lease = Inr True \<and> wl_released_at lease = None \<and>
    instant (cm_now sched) < instant (wl_lease_expires_at lease) \<and>
    run_status_value (r_status c) \<in> set active_statuses \<and>
    r_version c = v \<and> candidate_ok v (Some c) u es rc {} \<and>
    pgr_commit other schema sched v u es rc = (db', Inr oc)"
proof -
  from assms obtain c where c: "guarded_current other sched proof u = Inr c" "r_version c = v"
      "candidate_ok v (Some c) u es rc {}" "proof_names_run proof u rc"
    by (rule guarded_success)
  from c(1) obtain lease a where lease: "load_guarded_lease (cm_lease_db sched) proof = Inr (Some lease)"
      "evaluate_authority proof (Some lease) (Some (run_status_value (r_status c))) (cm_now sched) = Inr a"
      "au_authoritative a"
      "decode_selected other (run_row_at (cm_lock_db sched) (r_tenant_id u) (r_run_id u)) = Inr (Some c)"
    by (rule guarded_current_Inr)
  have "\<not> structural_create v u es" using c(3) by (simp add: candidate_ok_def structural_create_def)
  with assms(1) c have "pgr_commit other schema sched v u es rc = (db', Inr oc)"
    using guarded_commit_eq by metis
  with c lease show ?thesis
    by (elim evaluate_authoritative) (auto simp: proof_names_run_def active_status)
qed

theorem guarded_commit_fenced_witness:
  "\<exists>db db'. pgr_commit_with_lease (\<lambda>_. Inl ValueError) (Inr ()) (alone (sample_leased db) (Utc smp_now))
      sample_proof 1 sample_running [sample_event_started] (rq_receipt sample_start_request) =
      (db', Inr (request_outcome sample_start_request)) \<and>
    (\<exists>lease. load_guarded_lease (sample_leased db) sample_proof = Inr (Some lease) \<and> wl_released_at lease = None)"
proof -
  obtain db where db: "tables_match db sample_memory" using sample_stored by blast
  from sample_guarded_commit [OF db] obtain db' where guarded:
    "pgr_commit_with_lease (\<lambda>_. Inl ValueError) (Inr ()) (alone (sample_leased db) (Utc smp_now)) sample_proof 1
       sample_running [sample_event_started] (rq_receipt sample_start_request) =
       (db', Inr (request_outcome sample_start_request))" by blast
  from guarded_commit_fenced [OF this] guarded show ?thesis
    by (auto simp: request_outcome_def)
qed

text \<open>C30: The guard of a commit and \<open>get_authority\<close> of the lease repository decide alike: on the stored run
  the guard passes exactly when the authority is held, and otherwise raises the reason that
  \<open>get_authority\<close> reports, or the same exception.\<close>
theorem guard_decides_as_get_authority:
  assumes "tables_match db m" and "mem_runs m (pf_tenant_id proof, pf_run_id proof) = Some c"
    and "now = Aware w off"
  shows "result_bind (load_guarded_lease db proof) (\<lambda>lease.
      validate_current_lease proof lease (run_status_value (r_status c)) now) =
    result_bind (get_authority (Inr ()) (lease_view db) proof now False) (\<lambda>a.
      if au_authoritative a then Inr () else Inl (WorkerLeaseError (the (au_reason a))))"
  using assms by (rule guard_as_get_authority)

theorem guard_decides_as_get_authority_witness:
  "\<exists>db. tables_match db sample_memory \<and>
    result_bind (get_authority (Inr ()) (lease_view (sample_leased db)) sample_proof (Utc smp_now) False) (\<lambda>a.
      if au_authoritative a then Inr () else Inl (WorkerLeaseError (the (au_reason a)))) = Inr ()"
proof -
  obtain db where db: "tables_match db sample_memory" using sample_stored by blast
  then have leased: "tables_match (sample_leased db) sample_memory" by (simp add: sample_leased_def leases_irrelevant)
  have run: "mem_runs sample_memory (pf_tenant_id sample_proof, pf_run_id sample_proof) = Some sample_created"
    by (simp add: sample_memory_run)
  from trans [OF sym [OF guard_decides_as_get_authority [OF leased run HOL.refl]] sample_guard] db
  show ?thesis by blast
qed

subsection \<open>Commits that fail\<close>

text \<open>C31: A command that storage failures of any kind interrupt, in whatever phase and however often, takes effect
  exactly once when it is retried. The attempts answer with the outcome, its replay or one of the two storage
  errors, and at most one of them reports the command as new. Either they changed nothing, and the next
  attempt commits it; or it is committed, one of them said so or said that the outcome is unknown, and the next
  attempt returns the recorded outcome. So after \<open>STORAGE_UNAVAILABLE\<close> alone nothing has happened. Assumed is
  what PostgreSQL says of a commit that it applied: no rollback, and no error state but the two for an
  unknown outcome.\<close>
theorem retried_commit_takes_effect_once:
  assumes m: "tables_match db m" and q: "request_ok m q"
    and mem: "mem_commit None m (rq_version q) (rq_run q) (rq_events q) (rq_receipt q) = (Inr oc, m')"
    and new: "\<not> oc_replayed oc" "replayable oc" and reports: "\<forall>f\<in>set fs. server_reports f"
    and run: "commit_attempts other db q fs = (replies, db')"
  shows "set replies \<subseteq> {Inr oc, Inr (stored_outcome oc), Inl (repository_error RepoStorageUnavailable),
      Inl (repository_error RepoCommitOutcomeUnknown)} \<and> count_list replies (Inr oc) \<le> 1 \<and>
    (db' = db \<and> Inr oc \<notin> set replies \<and> Inr (stored_outcome oc) \<notin> set replies \<and>
      (\<exists>db''. pgr_commit other (Inr ()) (alone db' (rq_now q)) (rq_version q) (rq_run q) (rq_events q)
        (rq_receipt q) = (db'', Inr oc) \<and> tables_match db'' m') \<or>
     tables_match db' m' \<and>
      (Inr oc \<in> set replies \<or> Inl (repository_error RepoCommitOutcomeUnknown) \<in> set replies) \<and>
      pgr_commit other (Inr ()) (alone db' (rq_now q)) (rq_version q) (rq_run q) (rq_events q) (rq_receipt q) =
        (db', Inr (stored_outcome oc)))"
proof -
  note ok = q [unfolded request_ok_def]
  obtain db1 where db1: "pgr_commit other (Inr ()) (alone db (rq_now q)) (rq_version q) (rq_run q) (rq_events q)
      (rq_receipt q) = (db1, Inr oc)" "tables_match db1 m'"
    using pgr_commit_match [OF m _ _ _ _ _ _ mem, of other "rq_now q"] ok new(1) by (auto simp: commit_result_def)
  from fresh_commit_recorded [OF mem new(1)] have known:
      "mem_commands m' (rc_tenant_id (rq_receipt q), rc_command_id (rq_receipt q)) = Some oc"
      "oc_receipt oc = rq_receipt q" "0 \<le> rq_version q" by simp_all
  then have again: "pgr_commit other (Inr ()) (alone db1 (rq_now q)) (rq_version q) (rq_run q) (rq_events q)
      (rq_receipt q) = (db1, Inr (stored_outcome oc))"
    using pgr_commit_known [OF db1(2) _ _ _ _ known(3,1) new(2)] ok by simp
  have fresh: "stored_outcome oc \<noteq> oc" using new(1) by (auto simp: stored_outcome_def dest: arg_cong [of _ _ oc_replayed])
  have "count_list replies (Inr oc) = 0" if "set replies \<subseteq> storage_answers"
    using that by (intro count_notin) auto
  with attempts_new [OF db1(1) again fresh reports run] db1 again show ?thesis
    by (elim disjE) auto
qed

theorem retried_commit_takes_effect_once_witness:
  "\<exists>db db'. commit_attempts (\<lambda>_. Inl ValueError) db sample_start_request [lost_acknowledgement, lost_connection] =
      ([Inl (repository_error RepoCommitOutcomeUnknown), Inl (repository_error RepoStorageUnavailable)], db') \<and>
    pgr_commit (\<lambda>_. Inl ValueError) (Inr ()) (alone db' (Utc (seconds 1))) 1 sample_running [sample_event_started]
      (rq_receipt sample_start_request) = (db', Inr (stored_outcome (request_outcome sample_start_request)))"
proof -
  let ?other = "\<lambda>_. Inl ValueError :: exn + datetime"
  obtain db db' where db: "tables_match db sample_memory" and run: "commit_attempts ?other db sample_start_request
      [lost_acknowledgement, lost_connection] =
      ([Inl (repository_error RepoCommitOutcomeUnknown), Inl (repository_error RepoStorageUnavailable)], db')"
      "db' \<noteq> db"
    using sample_attempts by blast
  from retried_commit_takes_effect_once [OF db sample_requests_ok(2), of "request_outcome sample_start_request"
      "request_published sample_memory sample_start_request", OF _ _ _ _ run(1)]
  show ?thesis
    using run sample_commits(2) sample_replayable(2) sample_faults_reported by auto
qed



subsection \<open>Pages, rows and replays\<close>

text \<open>C33: A page of events is the segment of the run's log after the cursor, oldest first and at most \<open>limit\<close>
  long, for every collation that orders digit texts of one length as numbers: comparing the lengths and
  then the texts of the stored sequence numbers is comparing the numbers. Bad cursors and limits and an
  unknown run raise.\<close>
theorem event_page_is_log_segment:
  assumes "digit_collation le" and "tables_match db m"
  shows "pgr_list_events other le (Inr ()) False db t r after limit =
    (if after < 0 \<or> limit < 1 \<or> 1000 < limit then Inl ValueError
     else (case mem_events m (t, r) of
       None \<Rightarrow> Inl (domain_error RunNotFound)
     | Some es \<Rightarrow> Inr (map stored_event (take (nat limit) (filter (\<lambda>e. after < ev_sequence e) es)))))"
  unfolding pgr_list_events_match [OF assms]
  by (auto simp: mem_list_events_def split: option.splits)

theorem event_page_is_log_segment_witness:
  "\<exists>db. pgr_list_events (\<lambda>_. Inl ValueError) code_point_le (Inr ()) False db sample_tenant sample_run_id 1 10 =
    Inr [stored_event sample_event_started, stored_event sample_event_limited]"
proof -
  obtain db where db: "tables_match db (request_published sample_started sample_charge_request)"
    using sample_charge_stored by blast
  have "mem_events (request_published sample_started sample_charge_request) (sample_tenant, sample_run_id) =
      Some [sample_event_created, sample_event_started, sample_event_limited]"
    by (simp add: request_published_def sample_started_def sample_memory_def sample_charge_request_def
        mem_init_def)
  then show ?thesis
    by (intro exI [of _ db]) (simp add: event_page_is_log_segment [OF code_point_digits.digit_collation_axioms db])
qed

text \<open>C34: What is written to a row is read back: a run up to the scale of its decimals (it is equal as the code
  compares runs), an event with its payload in key order, a receipt unchanged.\<close>
theorem run_rows_roundtrip:
  assumes "run_storable u" and "event_storable e" and "receipt_storable rc"
  shows "(\<exists>row. encode_run u = Inr row \<and> decode_run other row = Inr (stored_run u) \<and> run_eq (stored_run u) u) \<and>
    (\<exists>row. encode_event e = Inr row \<and> decode_event other row = Inr (stored_event e)) \<and>
    (\<exists>row. encode_receipt rc = Inr row \<and> decode_receipt other row = Inr rc)"
  using decode_encode_run [OF assms(1), of other] stored_run_eq run_storableD(1) [OF assms(1)]
    decode_encode_event [OF assms(2), of other] decode_encode_receipt [OF assms(3), of other]
  by blast

theorem run_rows_roundtrip_witness:
  "\<exists>row. encode_run sample_running = Inr row \<and>
    decode_run (\<lambda>_. Inl ValueError) row = Inr (stored_run sample_running)"
  using run_rows_roundtrip [OF sample_runs_storable(2) sample_events_storable(2) sample_receipts_storable(2)]
  by blast

text \<open>Whatever a row holds, a decoder returns a value or raises the corruption error of the repository: no
  other exception of the constructors and parsers it calls gets out.\<close>
theorem run_decoders_raise_corruption_only:
  assumes other: "\<And>s c. other s \<noteq> Inl (RunRepositoryError c)"
  shows "decode_run other row = Inl x \<or> decode_event other row = Inl x \<or> decode_receipt other row = Inl x \<Longrightarrow>
    x = repository_error RepoDataCorruption"
proof -
  have plain: "plain (other s)" for s using other by (simp add: plain_def)
  note decoders = plain_decoders [of other, OF plain]
  assume "decode_run other row = Inl x \<or> decode_event other row = Inl x \<or> decode_receipt other row = Inl x"
  then show ?thesis
    unfolding decode_run_def decode_event_def decode_receipt_def
    using decoders [THEN or_corruption_plain] by blast
qed

theorem run_decoders_raise_corruption_only_witness:
  "decode_receipt (\<lambda>_. Inl ValueError) [] = Inl (repository_error RepoDataCorruption)"
proof -
  have "decode_receipt (\<lambda>_. Inl ValueError) [] \<noteq> Inr v" for v
    by (auto simp: decode_receipt_def decode_receipt_raw_def or_corruption_def column_def field_def row_version_def
        row_mapping_def require_def split: sum.splits if_splits)
  then obtain x where x: "decode_receipt (\<lambda>_. Inl ValueError) [] = Inl x"
    by (cases "decode_receipt (\<lambda>_. Inl ValueError) []") blast+
  have "x = repository_error RepoDataCorruption"
    by (rule run_decoders_raise_corruption_only [of "\<lambda>_. Inl ValueError" "[]"]) (simp_all add: x)
  with x show ?thesis by simp
qed

text \<open>C35: A recorded operation of a run is answered again by \<open>find_command\<close> with the recorded outcome, but for one:
  a charge that ended the run at a limit. Its event is the one of the limit, not the one that a charge
  announces, and the lookup reports the stored data as corrupt.\<close>
theorem replay_rejects_only_limited_charges:
  assumes "run_ok u" and "operation_ok op" and "run_operate u op ts eid = Inr mu" and "mut_events mu = [e]"
    and "receipt_for op mu rc" and "fingerprint_pattern (rc_fingerprint rc)" and m: "tables_match db m"
    and oc: "mem_commands m (rc_tenant_id rc, rc_command_id rc) = Some oc" "oc_receipt oc = rc" "oc_events oc = [e]"
  shows "pgr_find_command other (Inr ()) False db (rc_tenant_id rc) (rc_command_id rc) (rc_fingerprint rc) =
    (if is_consume op \<and> ev_type e = RunLimitExceeded then Inl (repository_error RepoDataCorruption)
     else Inr (Some (stored_outcome oc)))"
  using operate_replay [OF assms(1-5)] find_run_command_match [OF m] assms(6) oc
  by (auto simp: pgr_find_command_def storage_available_def replayable_def)

theorem replay_rejects_only_limited_charges_witness:
  "\<exists>db. pgr_find_command (\<lambda>_. Inl ValueError) (Inr ()) False db sample_tenant (CommandId ''cmd-3'') sample_digest =
    Inl (repository_error RepoDataCorruption)"
proof -
  let ?rc = "rq_receipt sample_charge_request"
  obtain db where db: "tables_match db (request_published sample_started sample_charge_request)"
    using sample_charge_stored by blast
  have rc: "rc_tenant_id ?rc = sample_tenant" "rc_command_id ?rc = CommandId ''cmd-3''"
      "rc_fingerprint ?rc = sample_digest" "receipt_for (OpConsumeBudget sample_charge) sample_limit ?rc"
    by (simp_all add: sample_charge_request_def sample_receipt_def receipt_for_def)
  have "fingerprint_pattern (rc_fingerprint ?rc)"
    unfolding rc(3) by code_simp
  moreover have "mem_commands (request_published sample_started sample_charge_request)
      (rc_tenant_id ?rc, rc_command_id ?rc) = Some (request_outcome sample_charge_request)"
    by (simp add: request_published_def)
  moreover have "oc_receipt (request_outcome sample_charge_request) = ?rc"
      "oc_events (request_outcome sample_charge_request) = [sample_event_limited]"
    by (simp_all add: request_outcome_def sample_charge_request_def)
  ultimately have "pgr_find_command (\<lambda>_. Inl ValueError) (Inr ()) False db (rc_tenant_id ?rc) (rc_command_id ?rc)
      (rc_fingerprint ?rc) = Inl (repository_error RepoDataCorruption)"
    using replay_rejects_only_limited_charges [OF sample_running_ok _ sample_charge_limited sample_limit_events
        rc(4) _ db] sample_charge_ok
    by (simp add: is_consume_def)
  then show ?thesis unfolding rc by blast
qed

end
