(* ===== verification/Schema_Compatibility.thy ===== *)
theory Schema_Compatibility
  imports Lease_Storage
begin

section \<open>Schema compatibility\<close>

text \<open>
  \<open>src/zhiyi/infrastructure/database/schema_compatibility.py\<close>: the gate that a repository passes before it
  touches its tables. The contract version of a component, and that the objects of the worker lease
  schema exist, are read once per engine, under a lock per component, and cached. A call is a task with
  the await it has reached as its phase; any number of tasks interleave. What a query returns is an
  argument of the step that ends it. The engines are the type \<open>'e\<close>.
\<close>

subsection \<open>Reading the database\<close>

datatype compat_error =
    PartialSchema
  | SchemaIncompatible
  | SchemaUnavailable
  | StorageRaised
  | RequestInvalid
  | GateCancelled

text \<open>\<open>ReadProgramming\<close> is a \<open>ProgrammingError\<close>, \<open>ReadFailed\<close> another storage exception; no row is \<open>DvNull\<close>.\<close>

datatype contract_read =
    ReadValue db_value
  | ReadProgramming db_error
  | ReadFailed

definition partial_schema_sqlstates :: "string list" where
  "partial_schema_sqlstates = [''42P01'', ''42703'']"

fun read_contract_version :: "contract_read \<Rightarrow> compat_error + db_value" where
  "read_contract_version (ReadValue v) = Inr v"
| "read_contract_version (ReadProgramming e) =
     Inl (if sqlstate e \<in> Some ` set partial_schema_sqlstates then PartialSchema else StorageRaised)"
| "read_contract_version ReadFailed = Inl StorageRaised"

definition contract_version :: "contract_read \<Rightarrow> compat_error + int" where
  "contract_version read =
     (case read_contract_version read of
        Inl PartialSchema \<Rightarrow> Inl SchemaIncompatible
      | Inl _ \<Rightarrow> Inl SchemaUnavailable
      | Inr (DvInt v) \<Rightarrow> if v < 1 then Inl SchemaIncompatible else Inr v
      | Inr _ \<Rightarrow> Inl SchemaIncompatible)"

definition component_pattern :: "string \<Rightarrow> bool" where
  "component_pattern s =
     (case s of
        [] \<Rightarrow> False
      | c # cs \<Rightarrow> is_lower c \<and> length cs \<le> 63 \<and>
          list_all (\<lambda>d. is_lower d \<or> is_digit d \<or> d = CHR ''_'') cs)"

definition run_repository_component :: string where
  "run_repository_component = ''run_repository''"

definition worker_lease_component :: string where
  "worker_lease_component = ''worker_lease_kernel''"

definition schema_contract_version :: int where
  "schema_contract_version = 1"

definition worker_lease_schema_contract_version :: int where
  "worker_lease_schema_contract_version = 1"

definition worker_lease_physical_inventory :: "string list" where
  "worker_lease_physical_inventory =
     [''worker_leases'', ''worker_lease_claim_receipts'', ''pk_worker_leases'',
      ''uq_worker_leases_tenant_claim'', ''fk_worker_leases_tenant_run_runs'',
      ''ck_worker_leases_worker_id_valid'', ''ck_worker_leases_claim_id_uuidv7'',
      ''ck_worker_leases_token_digest_length'', ''ck_worker_leases_attempt_no_positive'',
      ''ck_worker_leases_lease_version_positive'', ''ck_worker_leases_duration_seconds_supported'',
      ''ck_worker_leases_heartbeat_not_before_acquired'', ''ck_worker_leases_expiry_after_heartbeat'',
      ''ck_worker_leases_released_not_before_acquired'', ''ck_worker_leases_record_format_version_supported'',
      ''ix_worker_leases_tenant_inactive_running'', ''pk_worker_lease_claim_receipts'',
      ''fk_worker_lease_claim_receipts_tenant_run_runs'', ''ck_worker_lease_claim_receipts_claim_id_uuidv7'',
      ''ck_worker_lease_claim_receipts_replay_window_exact'',
      ''ck_worker_lease_claim_receipts_worker_id_valid'',
      ''ck_worker_lease_claim_receipts_duration_seconds_supported'',
      ''ck_worker_lease_claim_receipts_intent_format_version_supported'',
      ''ck_worker_lease_claim_receipts_intent_fingerprint_sha256'',
      ''ck_worker_lease_claim_receipts_outcome_supported'',
      ''ck_worker_lease_claim_receipts_attempt_no_positive'',
      ''ck_worker_lease_claim_receipts_initial_lease_version_positive'',
      ''ck_worker_lease_claim_receipts_replay_token_length'',
      ''ck_worker_lease_claim_receipts_complete_outcome'',
      ''ck_worker_lease_claim_receipts_record_format_version_supported'',
      ''ix_worker_lease_claim_receipts_cleanup'']"

text \<open>
  \<open>_read_worker_lease_physical_inventory\<close>: the names of the relations and constraints of the schema, of
  which the query keeps the required ones.
\<close>

definition read_physical_inventory :: "string list \<Rightarrow> string set" where
  "read_physical_inventory names = set (filter (\<lambda>n. n \<in> set worker_lease_physical_inventory) names)"

subsection \<open>The steps of a call\<close>

record 'e schema_caches =
  sc_versions :: "'e \<Rightarrow> string \<Rightarrow> int option"
  sc_physical :: "'e \<Rightarrow> string set"

datatype gate_phase =
    ContractStart
  | ContractWaiting
  | ContractReading
  | PhysicalStart
  | PhysicalWaiting
  | PhysicalReading
  | Finished "compat_error + unit"

text \<open>\<open>gt_physical\<close>: the call is \<open>ensure_worker_lease_schema_compatible\<close>, which has a second gate.\<close>

record 'e gate_task =
  gt_engine :: 'e
  gt_component :: string
  gt_accepted :: "int list"
  gt_physical :: bool
  gt_phase :: gate_phase

definition validate_contract_request :: "string \<Rightarrow> int list \<Rightarrow> compat_error + unit" where
  "validate_contract_request component accepted =
     (if \<not> component_pattern component then Inl RequestInvalid
      else if accepted = [] \<or> list_ex (\<lambda>v. v < 1) accepted then Inl RequestInvalid
      else Inr ())"

definition accept_version :: "'e gate_task \<Rightarrow> int \<Rightarrow> gate_phase" where
  "accept_version t v =
     (if v \<notin> set (gt_accepted t) then Finished (Inl SchemaIncompatible)
      else if gt_physical t then PhysicalStart
      else Finished (Inr ()))"

definition cached_contract_version :: "'e schema_caches \<Rightarrow> 'e gate_task \<Rightarrow> int option" where
  "cached_contract_version cs t = sc_versions cs (gt_engine t) (gt_component t)"

definition cache_contract_version :: "'e schema_caches \<Rightarrow> 'e gate_task \<Rightarrow> int \<Rightarrow> 'e schema_caches" where
  "cache_contract_version cs t v = cs\<lparr>sc_versions :=
     (sc_versions cs)(gt_engine t := (sc_versions cs (gt_engine t))(gt_component t \<mapsto> v))\<rparr>"

text \<open>\<open>ensure_component_schema_compatible\<close>: before the lock, under it, and after the query.\<close>

definition contract_start :: "'e schema_caches \<Rightarrow> 'e gate_task \<Rightarrow> gate_phase" where
  "contract_start cs t =
     (case validate_contract_request (gt_component t) (gt_accepted t) of
        Inl x \<Rightarrow> Finished (Inl x)
      | Inr _ \<Rightarrow>
          (case cached_contract_version cs t of None \<Rightarrow> ContractWaiting | Some v \<Rightarrow> accept_version t v))"

definition contract_locked :: "'e schema_caches \<Rightarrow> 'e gate_task \<Rightarrow> gate_phase" where
  "contract_locked cs t =
     (case cached_contract_version cs t of None \<Rightarrow> ContractReading | Some v \<Rightarrow> accept_version t v)"

definition contract_answer ::
    "'e schema_caches \<Rightarrow> 'e gate_task \<Rightarrow> contract_read \<Rightarrow> gate_phase \<times> 'e schema_caches" where
  "contract_answer cs t read =
     (case contract_version read of
        Inl x \<Rightarrow> (Finished (Inl x), cs)
      | Inr v \<Rightarrow> (accept_version t v, cache_contract_version cs t v))"

text \<open>\<open>_ensure_worker_lease_physical_inventory\<close>\<close>

definition physical_verified :: "'e schema_caches \<Rightarrow> 'e gate_task \<Rightarrow> bool" where
  "physical_verified cs t \<longleftrightarrow> worker_lease_component \<in> sc_physical cs (gt_engine t)"

definition physical_start :: "'e schema_caches \<Rightarrow> 'e gate_task \<Rightarrow> gate_phase" where
  "physical_start cs t = (if physical_verified cs t then Finished (Inr ()) else PhysicalWaiting)"

definition physical_locked :: "'e schema_caches \<Rightarrow> 'e gate_task \<Rightarrow> gate_phase" where
  "physical_locked cs t = (if physical_verified cs t then Finished (Inr ()) else PhysicalReading)"

definition physical_answer ::
    "'e schema_caches \<Rightarrow> 'e gate_task \<Rightarrow> string list option \<Rightarrow> gate_phase \<times> 'e schema_caches" where
  "physical_answer cs t names =
     (case names of
        None \<Rightarrow> (Finished (Inl StorageRaised), cs)
      | Some ns \<Rightarrow>
          if read_physical_inventory ns \<noteq> set worker_lease_physical_inventory
          then (Finished (Inl SchemaIncompatible), cs)
          else (Finished (Inr ()), cs\<lparr>sc_physical := (sc_physical cs)
            (gt_engine t := insert worker_lease_component (sc_physical cs (gt_engine t)))\<rparr>))"

subsection \<open>The public calls\<close>

definition run_gate_task :: "'e \<Rightarrow> 'e gate_task" where
  "run_gate_task e =
     \<lparr>gt_engine = e, gt_component = run_repository_component, gt_accepted = [schema_contract_version],
      gt_physical = False, gt_phase = ContractStart\<rparr>"

definition lease_gate_task :: "'e \<Rightarrow> 'e gate_task" where
  "lease_gate_task e =
     \<lparr>gt_engine = e, gt_component = worker_lease_component,
      gt_accepted = [worker_lease_schema_contract_version], gt_physical = True, gt_phase = ContractStart\<rparr>"

text \<open>What the callers see; a cancellation passes through.\<close>

datatype gate_outcome = GatePassed | GateRaised exn | GateUncaught compat_error

fun ensure_schema_compatible :: "compat_error + unit \<Rightarrow> gate_outcome" where
  "ensure_schema_compatible (Inr _) = GatePassed"
| "ensure_schema_compatible (Inl SchemaIncompatible) = GateRaised (RunRepositoryError RepoSchemaIncompatible)"
| "ensure_schema_compatible (Inl SchemaUnavailable) = GateRaised (RunRepositoryError RepoStorageUnavailable)"
| "ensure_schema_compatible (Inl RequestInvalid) = GateRaised ValueError"
| "ensure_schema_compatible (Inl x) = GateUncaught x"

fun ensure_worker_lease_schema_compatible :: "compat_error + unit \<Rightarrow> gate_outcome" where
  "ensure_worker_lease_schema_compatible (Inr _) = GatePassed"
| "ensure_worker_lease_schema_compatible (Inl SchemaIncompatible) =
     GateRaised (WorkerLeaseError LeaseSchemaIncompatible)"
| "ensure_worker_lease_schema_compatible (Inl SchemaUnavailable) =
     GateRaised (WorkerLeaseError LeaseStorageUnavailable)"
| "ensure_worker_lease_schema_compatible (Inl StorageRaised) =
     GateRaised (WorkerLeaseError LeaseStorageUnavailable)"
| "ensure_worker_lease_schema_compatible (Inl RequestInvalid) = GateRaised ValueError"
| "ensure_worker_lease_schema_compatible (Inl x) = GateUncaught x"

end
