(* ===== verification/Schema_Gates.thy ===== *)
theory Schema_Gates
  imports Schema_Compatibility
begin

section \<open>Interleaved schema gates\<close>

text \<open>
  Any number of calls on any engines, interleaved at their awaits, with cancellations. \<open>gy_reads\<close> records the
  contract versions that a query returned; the program has no such field.
\<close>

record 'e gate_system =
  gy_tasks :: "'e gate_task list"
  gy_caches :: "'e schema_caches"
  gy_reads :: "('e \<times> string \<times> int) list"

definition with_phase :: "'e gate_system \<Rightarrow> nat \<Rightarrow> gate_phase \<Rightarrow> 'e gate_system" where
  "with_phase s i p = s\<lparr>gy_tasks := (gy_tasks s)[i := (gy_tasks s ! i)\<lparr>gt_phase := p\<rparr>]\<rparr>"

text \<open>The lock of a component, and that of the physical check, are keys of one dictionary of the engine.\<close>

definition physical_lock_key :: string where
  "physical_lock_key = worker_lease_component @ ''_physical''"

definition held_lock :: "'e gate_task \<Rightarrow> string option" where
  "held_lock t =
     (case gt_phase t of
        ContractReading \<Rightarrow> Some (gt_component t)
      | PhysicalReading \<Rightarrow> Some physical_lock_key
      | _ \<Rightarrow> None)"

definition holds_lock :: "'e \<Rightarrow> string \<Rightarrow> 'e gate_task \<Rightarrow> bool" where
  "holds_lock e k t \<longleftrightarrow> gt_engine t = e \<and> held_lock t = Some k"

definition valid_read :: "'e gate_task \<Rightarrow> contract_read \<Rightarrow> ('e \<times> string \<times> int) list" where
  "valid_read t read =
     (case contract_version read of Inl _ \<Rightarrow> [] | Inr v \<Rightarrow> [(gt_engine t, gt_component t, v)])"

text \<open>\<open>asyncio.Lock\<close>: a waiting task goes on when no task holds the lock of its key.\<close>

inductive gate_step :: "'e gate_system \<Rightarrow> 'e gate_system \<Rightarrow> bool" where
  call: "gt_phase t = ContractStart \<Longrightarrow> gate_step s (s\<lparr>gy_tasks := gy_tasks s @ [t]\<rparr>)"
| start: "i < length (gy_tasks s) \<Longrightarrow> t = gy_tasks s ! i \<Longrightarrow> gt_phase t = ContractStart \<Longrightarrow>
    gate_step s (with_phase s i (contract_start (gy_caches s) t))"
| lock: "i < length (gy_tasks s) \<Longrightarrow> t = gy_tasks s ! i \<Longrightarrow> gt_phase t = ContractWaiting \<Longrightarrow>
    \<not> list_ex (holds_lock (gt_engine t) (gt_component t)) (gy_tasks s) \<Longrightarrow>
    gate_step s (with_phase s i (contract_locked (gy_caches s) t))"
| answer: "i < length (gy_tasks s) \<Longrightarrow> t = gy_tasks s ! i \<Longrightarrow> gt_phase t = ContractReading \<Longrightarrow>
    contract_answer (gy_caches s) t read = (p, cs) \<Longrightarrow>
    gate_step s ((with_phase s i p)\<lparr>gy_caches := cs, gy_reads := gy_reads s @ valid_read t read\<rparr>)"
| physical: "i < length (gy_tasks s) \<Longrightarrow> t = gy_tasks s ! i \<Longrightarrow> gt_phase t = PhysicalStart \<Longrightarrow>
    gate_step s (with_phase s i (physical_start (gy_caches s) t))"
| physical_lock: "i < length (gy_tasks s) \<Longrightarrow> t = gy_tasks s ! i \<Longrightarrow> gt_phase t = PhysicalWaiting \<Longrightarrow>
    \<not> list_ex (holds_lock (gt_engine t) physical_lock_key) (gy_tasks s) \<Longrightarrow>
    gate_step s (with_phase s i (physical_locked (gy_caches s) t))"
| physical_answer: "i < length (gy_tasks s) \<Longrightarrow> t = gy_tasks s ! i \<Longrightarrow> gt_phase t = PhysicalReading \<Longrightarrow>
    physical_answer (gy_caches s) t names = (p, cs) \<Longrightarrow>
    gate_step s ((with_phase s i p)\<lparr>gy_caches := cs\<rparr>)"
| cancel: "i < length (gy_tasks s) \<Longrightarrow>
    gate_step s (with_phase s i (Finished (Inl GateCancelled)))"

definition gates_init :: "'e gate_system" where
  "gates_init = \<lparr>gy_tasks = [], gy_caches = \<lparr>sc_versions = (\<lambda>_ _. None), sc_physical = (\<lambda>_. {})\<rparr>, gy_reads = []\<rparr>"

inductive gate_reachable :: "'e gate_system \<Rightarrow> bool" where
  init: "gate_reachable gates_init"
| step: "gate_reachable s \<Longrightarrow> gate_step s s' \<Longrightarrow> gate_reachable s'"

subsection \<open>The invariant\<close>

definition accepted_by :: "'e schema_caches \<Rightarrow> 'e gate_task \<Rightarrow> bool" where
  "accepted_by cs t \<longleftrightarrow> (\<exists>v. cached_contract_version cs t = Some v \<and> v \<in> set (gt_accepted t))"

definition task_ok :: "'e schema_caches \<Rightarrow> 'e gate_task \<Rightarrow> bool" where
  "task_ok cs t \<longleftrightarrow>
     (case gt_phase t of
        ContractReading \<Rightarrow> cached_contract_version cs t = None
      | PhysicalStart \<Rightarrow> accepted_by cs t
      | PhysicalWaiting \<Rightarrow> accepted_by cs t
      | PhysicalReading \<Rightarrow> accepted_by cs t
      | Finished (Inr _) \<Rightarrow> accepted_by cs t \<and> (gt_physical t \<longrightarrow> physical_verified cs t)
      | _ \<Rightarrow> True)"

definition one_holder :: "'e gate_task list \<Rightarrow> bool" where
  "one_holder ts \<longleftrightarrow> (\<forall>i j k. i < length ts \<longrightarrow> j < length ts \<longrightarrow> i \<noteq> j \<longrightarrow>
     held_lock (ts ! i) = Some k \<longrightarrow> \<not> holds_lock (gt_engine (ts ! i)) k (ts ! j))"

definition reads_ok :: "'e schema_caches \<Rightarrow> ('e \<times> string \<times> int) list \<Rightarrow> bool" where
  "reads_ok cs reads \<longleftrightarrow>
     (\<forall>e c v. sc_versions cs e c = Some v \<longleftrightarrow> (e, c, v) \<in> set reads) \<and>
     distinct (map (\<lambda>(e, c, v). (e, c)) reads) \<and> (\<forall>(e, c, v) \<in> set reads. 1 \<le> v)"

definition gates_ok :: "'e gate_system \<Rightarrow> bool" where
  "gates_ok s \<longleftrightarrow>
     list_all (task_ok (gy_caches s)) (gy_tasks s) \<and> one_holder (gy_tasks s) \<and>
     reads_ok (gy_caches s) (gy_reads s)"

lemma phase_update_simps [simp]:
  "cached_contract_version cs (t\<lparr>gt_phase := p\<rparr>) = cached_contract_version cs t"
  "accepted_by cs (t\<lparr>gt_phase := p\<rparr>) = accepted_by cs t"
  "physical_verified cs (t\<lparr>gt_phase := p\<rparr>) = physical_verified cs t"
  by (simp_all add: cached_contract_version_def accepted_by_def physical_verified_def)

lemma task_ok_simps [simp]:
  "task_ok cs (t\<lparr>gt_phase := ContractWaiting\<rparr>)" "task_ok cs (t\<lparr>gt_phase := Finished (Inl x)\<rparr>)"
  "task_ok cs (t\<lparr>gt_phase := ContractReading\<rparr>) \<longleftrightarrow> cached_contract_version cs t = None"
  "task_ok cs (t\<lparr>gt_phase := PhysicalWaiting\<rparr>) \<longleftrightarrow> accepted_by cs t"
  "task_ok cs (t\<lparr>gt_phase := PhysicalReading\<rparr>) \<longleftrightarrow> accepted_by cs t"
  "task_ok cs (t\<lparr>gt_phase := Finished (Inr u)\<rparr>) \<longleftrightarrow>
     accepted_by cs t \<and> (gt_physical t \<longrightarrow> physical_verified cs t)"
  by (simp_all add: task_ok_def)

lemma held_lock_simps [simp]:
  "held_lock (t\<lparr>gt_phase := ContractReading\<rparr>) = Some (gt_component t)"
  "held_lock (t\<lparr>gt_phase := PhysicalReading\<rparr>) = Some physical_lock_key"
  "held_lock (t\<lparr>gt_phase := ContractWaiting\<rparr>) = None" "held_lock (t\<lparr>gt_phase := PhysicalWaiting\<rparr>) = None"
  "held_lock (t\<lparr>gt_phase := PhysicalStart\<rparr>) = None" "held_lock (t\<lparr>gt_phase := Finished r\<rparr>) = None"
  by (simp_all add: held_lock_def)

lemma one_holder_update:
  assumes one: "one_holder ts" and i: "i < length ts"
    and free: "\<And>k. held_lock ((ts ! i)\<lparr>gt_phase := p\<rparr>) = Some k \<Longrightarrow> \<not> list_ex (holds_lock (gt_engine (ts ! i)) k) ts"
  shows "one_holder (ts[i := (ts ! i)\<lparr>gt_phase := p\<rparr>])" (is "one_holder (ts[i := ?u])")
  unfolding one_holder_def
proof (intro allI impI)
  fix a b k
  assume a: "a < length (ts[i := ?u])" and b: "b < length (ts[i := ?u])" and ab: "a \<noteq> b"
    and held: "held_lock (ts[i := ?u] ! a) = Some k"
  have old: "\<not> holds_lock (gt_engine (ts ! a)) k (ts ! b)" if "held_lock (ts ! a) = Some k"
    using one a b ab that unfolding one_holder_def by simp
  have new: "\<not> holds_lock (gt_engine (ts ! i)) k (ts ! c)" if "c < length ts" "held_lock ?u = Some k" for c
    using free [OF that(2)] that(1) by (simp add: list_ex_length)
  consider "a = i" | "b = i" "a \<noteq> i" | "a \<noteq> i" "b \<noteq> i" by blast
  then show "\<not> holds_lock (gt_engine (ts[i := ?u] ! a)) k (ts[i := ?u] ! b)"
  proof cases
    case 1
    with held i ab new [of b] b show ?thesis by simp
  next
    case 2
    with held new [of a] a i show ?thesis by (auto simp: holds_lock_def)
  next
    case 3
    with held old show ?thesis by simp
  qed
qed

lemma one_holder_append:
  assumes one: "one_holder ts" and t: "held_lock t = None"
  shows "one_holder (ts @ [t])"
  unfolding one_holder_def
proof (intro allI impI)
  fix a b k
  assume a: "a < length (ts @ [t])" and b: "b < length (ts @ [t])" and ab: "a \<noteq> b"
    and held: "held_lock ((ts @ [t]) ! a) = Some k"
  from held t a have less: "a < length ts" by (cases "a = length ts") auto
  show "\<not> holds_lock (gt_engine ((ts @ [t]) ! a)) k ((ts @ [t]) ! b)"
  proof (cases "b < length ts")
    case True
    with one less ab held show ?thesis unfolding one_holder_def by (simp add: nth_append)
  next
    case False
    with b have "b = length ts" by simp
    with t show ?thesis by (simp add: holds_lock_def)
  qed
qed

lemma phase_step:
  assumes "gates_ok s" and "i < length (gy_tasks s)"
    and "task_ok (gy_caches s) ((gy_tasks s ! i)\<lparr>gt_phase := p\<rparr>)"
    and "\<And>k. held_lock ((gy_tasks s ! i)\<lparr>gt_phase := p\<rparr>) = Some k \<Longrightarrow>
      \<not> list_ex (holds_lock (gt_engine (gy_tasks s ! i)) k) (gy_tasks s)"
  shows "gates_ok (with_phase s i p)"
  using assms one_holder_update [of "gy_tasks s" i p]
  by (auto simp: gates_ok_def with_phase_def list_all_length nth_list_update)

lemma accept_version_ok:
  assumes "cached_contract_version cs t = Some v"
  shows "task_ok cs (t\<lparr>gt_phase := accept_version t v\<rparr>)"
  using assms by (auto simp: accept_version_def task_ok_def accepted_by_def)

lemma accept_version_lock [simp]: "held_lock (u\<lparr>gt_phase := accept_version t v\<rparr>) = None"
  by (simp add: accept_version_def)

lemma contract_version_positive: "contract_version read = Inr v \<Longrightarrow> 1 \<le> v"
  by (auto simp: contract_version_def split: sum.splits compat_error.splits db_value.splits if_splits)

lemma cached_after:
  "sc_versions (cache_contract_version cs t v) e c =
     (if e = gt_engine t \<and> c = gt_component t then Some v else sc_versions cs e c)"
  "sc_physical (cache_contract_version cs t v) = sc_physical cs"
  by (auto simp: cache_contract_version_def)

lemma reads_ok_append:
  assumes "reads_ok cs reads" and "cached_contract_version cs t = None" and "1 \<le> v"
  shows "reads_ok (cache_contract_version cs t v) (reads @ [(gt_engine t, gt_component t, v)])"
proof -
  have fresh: "(gt_engine t, gt_component t, w) \<notin> set reads" for w
    using assms(1,2) unfolding reads_ok_def cached_contract_version_def by (metis option.distinct(1))
  then have "(gt_engine t, gt_component t) \<notin> (\<lambda>(e, c, v). (e, c)) ` set reads" by auto
  with assms fresh show ?thesis by (auto simp: reads_ok_def cached_after cached_contract_version_def)
qed

text \<open>Caching a version for a key that had none keeps the other tasks valid.\<close>

lemma task_ok_cached:
  assumes "task_ok cs u" and "cached_contract_version cs t = None"
    and "\<not> holds_lock (gt_engine t) (gt_component t) u"
  shows "task_ok (cache_contract_version cs t v) u"
proof -
  have "accepted_by cs u \<Longrightarrow> accepted_by (cache_contract_version cs t v) u"
    using assms(2) by (auto simp: accepted_by_def cached_contract_version_def cached_after)
  moreover have "gt_phase u = ContractReading \<Longrightarrow> \<not> (gt_engine u = gt_engine t \<and> gt_component u = gt_component t)"
    using assms(3) by (auto simp: holds_lock_def held_lock_def)
  ultimately show ?thesis
    using assms(1)
    by (auto simp: task_ok_def physical_verified_def cached_contract_version_def cached_after
        split: gate_phase.splits sum.splits)
qed

lemma answer_step:
  assumes s: "gates_ok s" and i: "i < length (gy_tasks s)" and t: "t = gy_tasks s ! i"
    and reading: "gt_phase t = ContractReading" and answer: "contract_answer (gy_caches s) t read = (p, cs)"
  shows "gates_ok ((with_phase s i p)\<lparr>gy_caches := cs, gy_reads := gy_reads s @ valid_read t read\<rparr>)"
proof (cases "contract_version read")
  case (Inl x)
  with answer have "p = Finished (Inl x)" "cs = gy_caches s" by (simp_all add: contract_answer_def)
  moreover from this have "gates_ok (with_phase s i p)" using s i by (intro phase_step) (simp_all add: task_ok_def)
  ultimately show ?thesis using Inl by (simp add: gates_ok_def valid_read_def with_phase_def)
next
  case (Inr v)
  with answer have p: "p = accept_version t v" and cs: "cs = cache_contract_version (gy_caches s) t v"
    by (simp_all add: contract_answer_def)
  have none: "cached_contract_version (gy_caches s) t = None"
    using s i t reading by (auto simp: gates_ok_def list_all_length task_ok_def)
  have cached: "cached_contract_version cs t = Some v"
    by (simp add: cs cached_contract_version_def cached_after)
  have others: "\<not> holds_lock (gt_engine t) (gt_component t) (gy_tasks s ! j)" if "j < length (gy_tasks s)" "j \<noteq> i" for j
    using s i t reading that by (auto simp: gates_ok_def one_holder_def held_lock_def)
  have "task_ok cs (gy_tasks s ! j)" if "j < length (gy_tasks s)" "j \<noteq> i" for j
    using s that others [OF that] task_ok_cached [OF _ none]
    by (auto simp: gates_ok_def list_all_length cs)
  with accept_version_ok [OF cached] t have "list_all (task_ok cs) (gy_tasks (with_phase s i p))"
    using i by (auto simp: with_phase_def p list_all_length nth_list_update)
  moreover have "one_holder (gy_tasks (with_phase s i p))"
    using s i
    by (auto simp: with_phase_def p gates_ok_def intro!: one_holder_update)
  moreover have "reads_ok cs (gy_reads s @ valid_read t read)"
    using s reads_ok_append [OF _ none contract_version_positive [OF Inr]]
    by (simp add: gates_ok_def valid_read_def Inr cs)
  ultimately show ?thesis by (simp add: gates_ok_def)
qed

lemma physical_answer_step:
  assumes s: "gates_ok s" and i: "i < length (gy_tasks s)" and t: "t = gy_tasks s ! i"
    and reading: "gt_phase t = PhysicalReading" and answer: "physical_answer (gy_caches s) t names = (p, cs)"
  shows "gates_ok ((with_phase s i p)\<lparr>gy_caches := cs\<rparr>)"
proof -
  have accepted: "accepted_by (gy_caches s) t"
    using s i t reading by (auto simp: gates_ok_def list_all_length task_ok_def)
  have versions: "sc_versions cs = sc_versions (gy_caches s)"
      and physical: "\<And>e. sc_physical (gy_caches s) e \<subseteq> sc_physical cs e"
    using answer by (auto simp: physical_answer_def split: option.splits if_splits)
  have keep: "task_ok (gy_caches s) u \<Longrightarrow> task_ok cs u" for u
    using physical [of "gt_engine u"]
    by (auto simp: task_ok_def accepted_by_def cached_contract_version_def physical_verified_def versions
        split: gate_phase.splits sum.splits)
  have "task_ok cs (t\<lparr>gt_phase := p\<rparr>)" "held_lock (t\<lparr>gt_phase := p\<rparr>) = None"
    using answer accepted
    by (auto simp: physical_answer_def task_ok_def accepted_by_def cached_contract_version_def physical_verified_def
        split: option.splits if_splits)
  with s i t keep one_holder_update [of "gy_tasks s" i p] versions show ?thesis
    by (auto simp: gates_ok_def with_phase_def list_all_length nth_list_update reads_ok_def)
qed

lemma gate_step_ok:
  assumes "gate_step s s'" and "gates_ok s"
  shows "gates_ok s'"
  using assms
proof (cases rule: gate_step.cases)
  case (call t)
  then show ?thesis using assms(2)
    by (simp add: gates_ok_def one_holder_append held_lock_def) (simp add: task_ok_def)
next
  case (start i t)
  have "task_ok (gy_caches s) (t\<lparr>gt_phase := contract_start (gy_caches s) t\<rparr>) \<and>
      held_lock (t\<lparr>gt_phase := contract_start (gy_caches s) t\<rparr>) = None"
    using accept_version_ok by (auto simp: contract_start_def split: sum.split option.split)
  with start assms(2) show ?thesis by (auto intro!: phase_step)
next
  case (lock i t)
  have "task_ok (gy_caches s) (t\<lparr>gt_phase := contract_locked (gy_caches s) t\<rparr>) \<and>
      (\<forall>k. held_lock (t\<lparr>gt_phase := contract_locked (gy_caches s) t\<rparr>) = Some k \<longrightarrow> k = gt_component t)"
    using accept_version_ok by (auto simp: contract_locked_def split: option.split)
  with lock assms(2) show ?thesis by (auto intro!: phase_step)
next
  case (answer i t read p cs)
  then show ?thesis using answer_step [OF assms(2)] by blast
next
  case (physical i t)
  then show ?thesis using assms(2)
    by (auto intro!: phase_step simp: physical_start_def) (auto simp: gates_ok_def list_all_length task_ok_def)
next
  case (physical_lock i t)
  then show ?thesis using assms(2)
    by (auto intro!: phase_step simp: physical_locked_def) (auto simp: gates_ok_def list_all_length task_ok_def)
next
  case (physical_answer i t names p cs)
  then show ?thesis using physical_answer_step [OF assms(2)] by blast
next
  case (cancel i)
  then show ?thesis using assms(2) by (auto intro!: phase_step simp: task_ok_def)
qed

lemma gate_reachable_ok: "gate_reachable s \<Longrightarrow> gates_ok s"
proof (induction rule: gate_reachable.induct)
  case init
  then show ?case by (simp add: gates_ok_def gates_init_def one_holder_def reads_ok_def)
next
  case (step s s')
  then show ?case by (blast intro: gate_step_ok)
qed

subsection \<open>Properties\<close>

text \<open>C36: However calls of the schema gate interleave, and whatever the database answers, each component of an
  engine is read successfully at most once, the cache holds exactly the versions that were read, all
  positive, and a call that passed was accepted: the version of its component is cached and in its set,
  and the objects of the worker lease schema were found if it needs them.\<close>
theorem gates_read_once_and_accept:
  assumes "gate_reachable s"
  shows "distinct (map (\<lambda>(e, c, v). (e, c)) (gy_reads s)) \<and>
    (\<forall>e c v. sc_versions (gy_caches s) e c = Some v \<longleftrightarrow> (e, c, v) \<in> set (gy_reads s)) \<and>
    (\<forall>(e, c, v) \<in> set (gy_reads s). 1 \<le> v) \<and>
    (\<forall>t \<in> set (gy_tasks s). gt_phase t = Finished (Inr ()) \<longrightarrow>
       (\<exists>v \<in> set (gt_accepted t). (gt_engine t, gt_component t, v) \<in> set (gy_reads s)) \<and>
       (gt_physical t \<longrightarrow> worker_lease_component \<in> sc_physical (gy_caches s) (gt_engine t)))"
proof -
  have ok: "gates_ok s" using assms by (rule gate_reachable_ok)
  have "accepted_by (gy_caches s) t \<and> (gt_physical t \<longrightarrow> physical_verified (gy_caches s) t)"
    if "t \<in> set (gy_tasks s)" "gt_phase t = Finished (Inr ())" for t
    using ok that by (auto simp: gates_ok_def list_all_iff task_ok_def)
  with ok show ?thesis
    by (fastforce simp: gates_ok_def reads_ok_def accepted_by_def cached_contract_version_def physical_verified_def)
qed

text \<open>Two calls of the lease gate: the first reads the database, the second waits and finds the cache filled.\<close>

definition gate_at :: "gate_phase \<Rightarrow> unit gate_task" where
  "gate_at p = (lease_gate_task ())\<lparr>gt_phase := p\<rparr>"

definition gates_at :: "gate_phase list \<Rightarrow> bool \<Rightarrow> bool \<Rightarrow> unit gate_system" where
  "gates_at ps read found = \<lparr>gy_tasks = map gate_at ps,
     gy_caches =
       \<lparr>sc_versions = (\<lambda>_. if read then [worker_lease_component \<mapsto> 1] else Map.empty),
        sc_physical = (\<lambda>_. if found then {worker_lease_component} else {})\<rparr>,
     gy_reads = (if read then [((), worker_lease_component, 1)] else [])\<rparr>"

lemma gate_at_simps [simp]:
  "gt_phase (gate_at p) = p" "gt_engine (gate_at p) = ()" "gt_component (gate_at p) = worker_lease_component"
  "gt_accepted (gate_at p) = [1]" "gt_physical (gate_at p)" "(gate_at p)\<lparr>gt_phase := q\<rparr> = gate_at q"
  by (simp_all add: gate_at_def lease_gate_task_def worker_lease_schema_contract_version_def)

lemma gates_at_simps [simp]:
  "gy_tasks (gates_at ps b c) = map gate_at ps" "gy_reads (gates_at ps False c) = []"
  "cached_contract_version (gy_caches (gates_at ps b c)) (gate_at p) = (if b then Some 1 else None)"
  "physical_verified (gy_caches (gates_at ps b c)) (gate_at p) = c"
  by (simp_all add: gates_at_def cached_contract_version_def physical_verified_def)

lemma with_phase_gates: "i < length ps \<Longrightarrow> with_phase (gates_at ps b c) i p = gates_at (ps[i := p]) b c"
  by (simp add: with_phase_def gates_at_def map_update)

lemma lease_request_valid: "validate_contract_request worker_lease_component [1] = Inr ()"
  by code_simp

lemma inventory_complete:
  "read_physical_inventory worker_lease_physical_inventory = set worker_lease_physical_inventory"
  by (simp add: read_physical_inventory_def)

lemma sample_gate_steps:
  "gate_reachable (gates_at [] False False)"
  "gate_reachable (gates_at ps b c) \<Longrightarrow> gate_reachable (gates_at (ps @ [ContractStart]) b c)"
  "gate_reachable (gates_at (ContractStart # ps) False c) \<Longrightarrow> gate_reachable (gates_at (ContractWaiting # ps) False c)"
  "gate_reachable (gates_at [p, ContractStart] False c) \<Longrightarrow> gate_reachable (gates_at [p, ContractWaiting] False c)"
  "gate_reachable (gates_at [ContractWaiting, ContractWaiting] False c) \<Longrightarrow>
     gate_reachable (gates_at [ContractReading, ContractWaiting] False c)"
  "gate_reachable (gates_at (ContractReading # ps) False c) \<Longrightarrow> gate_reachable (gates_at (PhysicalStart # ps) True c)"
  "gate_reachable (gates_at [PhysicalStart, ContractWaiting] True c) \<Longrightarrow>
     gate_reachable (gates_at [PhysicalStart, PhysicalStart] True c)"
  "gate_reachable (gates_at (PhysicalStart # ps) True False) \<Longrightarrow> gate_reachable (gates_at (PhysicalWaiting # ps) True False)"
  "gate_reachable (gates_at [PhysicalWaiting, PhysicalStart] True False) \<Longrightarrow>
     gate_reachable (gates_at [PhysicalReading, PhysicalStart] True False)"
  "gate_reachable (gates_at (PhysicalReading # ps) True False) \<Longrightarrow> gate_reachable (gates_at (Finished (Inr ()) # ps) True True)"
proof -
  note step = gate_reachable.step and updates = with_phase_gates
  have accept: "accept_version (gate_at p) 1 = PhysicalStart" for p by (simp add: accept_version_def)
  have "gates_at [] False False = gates_init" by (simp add: gates_at_def gates_init_def)
  then show "gate_reachable (gates_at [] False False)" using gate_reachable.init by simp
  show "gate_reachable (gates_at (ps @ [ContractStart]) b c)" if "gate_reachable (gates_at ps b c)"
    using step [OF that gate_step.call, of "gate_at ContractStart"] by (simp add: gates_at_def)
  show "gate_reachable (gates_at (ContractWaiting # ps) False c)" if "gate_reachable (gates_at (ContractStart # ps) False c)"
    using step [OF that gate_step.start [of 0]] by (simp add: contract_start_def lease_request_valid updates)
  show "gate_reachable (gates_at [p, ContractWaiting] False c)" if "gate_reachable (gates_at [p, ContractStart] False c)"
    using step [OF that gate_step.start [of 1]] by (simp add: contract_start_def lease_request_valid updates)
  show "gate_reachable (gates_at [ContractReading, ContractWaiting] False c)"
    if "gate_reachable (gates_at [ContractWaiting, ContractWaiting] False c)"
    using step [OF that gate_step.lock [of 0]] by (simp add: contract_locked_def holds_lock_def held_lock_def updates)
  show "gate_reachable (gates_at (PhysicalStart # ps) True c)" if "gate_reachable (gates_at (ContractReading # ps) False c)"
  proof -
    have "(with_phase (gates_at (ContractReading # ps) False c) 0 PhysicalStart)
        \<lparr>gy_caches := cache_contract_version (gy_caches (gates_at (ContractReading # ps) False c)) (gate_at ContractReading) 1,
         gy_reads := [((), worker_lease_component, 1)]\<rparr> = gates_at (PhysicalStart # ps) True c"
      by (simp add: updates) (auto simp: gates_at_def cache_contract_version_def fun_eq_iff)
    with step [OF that gate_step.answer [of 0 _ _ "ReadValue (DvInt 1)"]] accept show ?thesis
      by (simp add: contract_answer_def contract_version_def valid_read_def)
  qed
  show "gate_reachable (gates_at [PhysicalStart, PhysicalStart] True c)"
    if "gate_reachable (gates_at [PhysicalStart, ContractWaiting] True c)"
    using step [OF that gate_step.lock [of 1]] by (simp add: contract_locked_def holds_lock_def held_lock_def updates accept)
  show "gate_reachable (gates_at (PhysicalWaiting # ps) True False)" if "gate_reachable (gates_at (PhysicalStart # ps) True False)"
    using step [OF that gate_step.physical [of 0]] by (simp add: physical_start_def updates)
  show "gate_reachable (gates_at [PhysicalReading, PhysicalStart] True False)"
    if "gate_reachable (gates_at [PhysicalWaiting, PhysicalStart] True False)"
    using step [OF that gate_step.physical_lock [of 0]] by (simp add: physical_locked_def holds_lock_def held_lock_def updates)
  show "gate_reachable (gates_at (Finished (Inr ()) # ps) True True)" if "gate_reachable (gates_at (PhysicalReading # ps) True False)"
  proof -
    let ?s = "gates_at (PhysicalReading # ps) True False" and ?t = "gate_at PhysicalReading"
    let ?cs = "(gy_caches ?s)\<lparr>sc_physical := (sc_physical (gy_caches ?s))
        (gt_engine ?t := insert worker_lease_component (sc_physical (gy_caches ?s) (gt_engine ?t)))\<rparr>"
    have answer: "physical_answer (gy_caches ?s) ?t (Some worker_lease_physical_inventory) = (Finished (Inr ()), ?cs)"
      unfolding physical_answer_def option.case inventory_complete by (simp only: simp_thms if_False)
    have "gate_step ?s ((with_phase ?s 0 (Finished (Inr ())))\<lparr>gy_caches := ?cs\<rparr>)"
      by (rule gate_step.physical_answer [OF _ _ _ answer]) (simp_all only: gates_at_simps gate_at_simps, simp_all)
    moreover have "(with_phase ?s 0 (Finished (Inr ())))\<lparr>gy_caches := ?cs\<rparr> = gates_at (Finished (Inr ()) # ps) True True"
      by (simp add: updates) (auto simp: gates_at_def fun_eq_iff)
    ultimately show ?thesis using step [OF that] by metis
  qed
qed

theorem gates_read_once_and_accept_witness:
  "\<exists>s :: unit gate_system. gy_tasks s = [gate_at (Finished (Inr ())), gate_at PhysicalStart] \<and>
     gy_reads s = [((), worker_lease_component, 1)] \<and> sc_versions (gy_caches s) () worker_lease_component = Some 1"
proof -
  let ?s = "gates_at [Finished (Inr ()), PhysicalStart] True True"
  note sample_gate_steps(2) [OF sample_gate_steps(2) [OF sample_gate_steps(1)]]
  then have "gate_reachable (gates_at [ContractStart, ContractStart] False False)" by simp
  from sample_gate_steps(4) [OF sample_gate_steps(3) [OF this]]
  have "gate_reachable ?s"
    by (intro sample_gate_steps(10,9,8,7,6,5)) simp
  from gates_read_once_and_accept [OF this] show ?thesis
    by (intro exI [of _ ?s]) (simp add: gates_at_def)
qed

end
