(* ===== verification/Model_Adapters.thy ===== *)
theory Model_Adapters
  imports Model_Gateway
begin

section \<open>The provider adapters\<close>

text \<open>
  \<open>adapters/models/langchain_base.py\<close>, \<open>openai.py\<close> and \<open>anthropic.py\<close>: a request becomes messages and arguments
  of a chat model, and what the model returns or raises becomes a provider response, chunks or a
  \<open>ModelError\<close>. The chat model is the parameter \<open>chat_library\<close>: it may return any message and raise any
  exception. Of a message the adapters read the attributes of \<open>ai_message\<close>, of an exception its classes
  and three attributes.
\<close>

subsection \<open>Messages to the model\<close>

fun part_to_langchain :: "content_part \<Rightarrow> pyobj" where
  "part_to_langchain (TextPart t) = PyMap [(''type'', PyStr ''text''), (''text'', PyStr t)]"
| "part_to_langchain (ImagePart uri media) =
     PyMap [(''type'', PyStr ''image''), (''url'', PyStr uri), (''mime_type'', PyStr media)]"
| "part_to_langchain (DocumentPart uri media title) =
     PyMap ([(''type'', PyStr ''file''), (''url'', PyStr uri), (''mime_type'', PyStr media)] @
       (case title of None \<Rightarrow> [] | Some t \<Rightarrow> [(''title'', PyStr t)]))"

definition content_to_langchain :: "message \<Rightarrow> pyobj list" where
  "content_to_langchain m = map part_to_langchain (msg_content m)"

datatype lc_message =
    SystemMessage "pyobj list" "string option"
  | HumanMessage "pyobj list" "string option"
  | AIMessage "pyobj list" "string option"
  | ToolMessage "pyobj list" "string option" "string option"

definition to_langchain_message :: "message \<Rightarrow> lc_message" where
  "to_langchain_message m =
     (let content = content_to_langchain m in
      case msg_role m of
        System_Role \<Rightarrow> SystemMessage content (msg_name m)
      | User_Role \<Rightarrow> HumanMessage content (msg_name m)
      | Assistant_Role \<Rightarrow> AIMessage content (msg_name m)
      | Tool_Role \<Rightarrow> ToolMessage content (msg_tool_call_id m) (msg_name m))"

definition to_langchain_messages :: "message list \<Rightarrow> lc_message list" where
  "to_langchain_messages ms = map to_langchain_message ms"

subsection \<open>Messages from the model\<close>

record ai_message =
  ai_content :: pyobj
  ai_tool_calls :: "(string \<times> pyobj) list list"
  ai_invalid_tool_calls :: "pyobj list"
  ai_tool_call_chunks :: "(string \<times> pyobj) list list"
  ai_usage_metadata :: pyobj
  ai_response_metadata :: "(string \<times> pyobj) list"

record provider_exception =
  px_classes :: "string list"
  px_code :: pyobj
  px_body :: pyobj
  px_request_id :: pyobj

text \<open>Exceptions of the library; \<open>plain_exception\<close> is a \<open>ValueError\<close> or \<open>TypeError\<close> of the adapter's own calls.\<close>

datatype lib_raised =
    LibCancelled
  | LibExit
  | LibModel model_error
  | LibError provider_exception

definition plain_exception :: provider_exception where
  "plain_exception = \<lparr>px_classes = [], px_code = PyNone, px_body = PyNone, px_request_id = PyNone\<rparr>"

definition raising :: "exn + 'a \<Rightarrow> lib_raised + 'a" where
  "raising r = (case r of Inl _ \<Rightarrow> Inl (LibError plain_exception) | Inr v \<Rightarrow> Inr v)"

text \<open>A member of a set must be hashable: lists and mappings raise \<open>TypeError\<close>.\<close>

fun hashable_object :: "pyobj \<Rightarrow> bool" where
  "hashable_object (PyList vs) = False"
| "hashable_object (PyMap m) = False"
| "hashable_object (PyTuple vs) = list_all hashable_object vs"
| "hashable_object v = True"

definition text_block :: "pyobj \<Rightarrow> exn + string list" where
  "text_block block =
     (case block of
        PyMap b \<Rightarrow>
          if \<not> hashable_object (get_field b ''type'') then Inl TypeError
          else if get_field b ''type'' \<in> {PyStr ''text'', PyStr ''text_delta''}
          then Inr (case get_field b ''text'' of PyStr t \<Rightarrow> if t \<noteq> [] then [t] else [] | _ \<Rightarrow> [])
          else Inr []
      | _ \<Rightarrow> Inr [])"

definition text_blocks :: "pyobj list \<Rightarrow> exn + string list" where
  "text_blocks vs = result_bind (traverse text_block vs) (\<lambda>ts. Inr (concat ts))"

fun extract_text :: "pyobj \<Rightarrow> exn + string list" where
  "extract_text (PyStr s) = Inr (if s \<noteq> [] then [s] else [])"
| "extract_text (PyList vs) = text_blocks vs"
| "extract_text (PyTuple vs) = text_blocks vs"
| "extract_text v = Inr []"

text \<open>\<open>isinstance(value, int)\<close> holds of booleans too.\<close>

fun non_negative_int :: "pyobj \<Rightarrow> int option" where
  "non_negative_int (PyInt i) = (if 0 \<le> i then Some i else None)"
| "non_negative_int (PyBool b) = Some (if b then 1 else 0)"
| "non_negative_int v = None"

definition usage_from_metadata :: "pyobj \<Rightarrow> exn + model_usage option" where
  "usage_from_metadata metadata =
     (case metadata of
        PyMap m \<Rightarrow>
          let input = non_negative_int (get_field m ''input_tokens'');
              output = non_negative_int (get_field m ''output_tokens'');
              total = non_negative_int (get_field m ''total_tokens'');
              usage = empty_usage\<lparr>us_input := input, us_output := output, us_total := total,
                us_incomplete := list_ex (\<lambda>v. v = None) [input, output, total]\<rparr>
          in if input = None \<and> output = None \<and> total = None then Inr None
             else result_bind (model_usage_post_init usage) (\<lambda>_. Inr (Some usage))
      | _ \<Rightarrow> Inr None)"

definition normalize_finish_reason :: "pyobj \<Rightarrow> finish_reason" where
  "normalize_finish_reason value =
     (case value of
        PyStr s \<Rightarrow>
          let normalized = map lower_char s in
          if normalized \<in> {''stop'', ''end_turn'', ''stop_sequence''} then Finish_Stop
          else if normalized \<in> {''tool_calls'', ''tool_use''} then Finish_Tool_Calls
          else if normalized \<in> {''length'', ''max_tokens'', ''max_output_tokens''} then Finish_Length
          else if normalized \<in> {''content_filter'', ''refusal'', ''safety''} then Finish_Content_Filter
          else Finish_Unknown
      | _ \<Rightarrow> Finish_Unknown)"

text \<open>The truth of a value, for \<open>a or b\<close>.\<close>

fun truthy :: "pyobj \<Rightarrow> bool" where
  "truthy PyNone = False"
| "truthy (PyBool b) = b"
| "truthy (PyInt i) = (i \<noteq> 0)"
| "truthy (PyFloat f) = (f \<noteq> Flt 0)"
| "truthy (PyStr s) = (s \<noteq> [])"
| "truthy (PyList vs) = (vs \<noteq> [])"
| "truthy (PyTuple vs) = (vs \<noteq> [])"
| "truthy (PyMap m) = (m \<noteq> [])"
| "truthy PyOther = True"

definition metadata_finish_reason :: "(string \<times> pyobj) list \<Rightarrow> finish_reason" where
  "metadata_finish_reason m = normalize_finish_reason
     (if truthy (get_field m ''finish_reason'') then get_field m ''finish_reason''
      else get_field m ''stop_reason'')"

definition provider_request_id :: "(string \<times> pyobj) list \<Rightarrow> string option" where
  "provider_request_id m =
     (case List.find is_name (map (get_field m) [''request_id'', ''id'']) of
        Some (PyStr s) \<Rightarrow> Some s
      | _ \<Rightarrow> None)"

definition adapter_malformed :: "string \<Rightarrow> model_request \<Rightarrow> lib_raised" where
  "adapter_malformed text request = LibModel (new_model_error Malformed_Response text (req_id request))"

definition map_tool_call :: "model_request \<Rightarrow> (string \<times> pyobj) list \<Rightarrow> lib_raised + tool_call" where
  "map_tool_call request raw =
     (case (get_field raw ''id'', get_field raw ''name'', get_field raw ''args'') of
        (PyStr i, PyStr n, PyMap args) \<Rightarrow>
          raising (new_tool_call \<lparr>call_id = i, call_name = n, call_arguments = PyMap args\<rparr>)
      | _ \<Rightarrow> Inl (adapter_malformed ''Provider returned an incomplete tool call'' request))"

definition map_ai_message :: "ai_message \<Rightarrow> model_request \<Rightarrow> pyobj \<Rightarrow> lib_raised + provider_response" where
  "map_ai_message m request structured =
     (if ai_invalid_tool_calls m \<noteq> [] then Inl (adapter_malformed ''Provider returned an invalid tool call'' request)
      else
        result_bind (raising (extract_text (ai_content m))) (\<lambda>content.
        result_bind (traverse (map_tool_call request) (ai_tool_calls m)) (\<lambda>calls.
          if content = [] \<and> calls = [] \<and> structured = PyNone
          then Inl (adapter_malformed ''Provider returned no usable content'' request)
          else
            result_bind (raising (usage_from_metadata (ai_usage_metadata m))) (\<lambda>usage.
              Inr \<lparr>pr_content = content, pr_finish_reason = metadata_finish_reason (ai_response_metadata m),
                pr_usage = usage, pr_provider_request_id = provider_request_id (ai_response_metadata m),
                pr_tool_calls = calls, pr_structured = structured\<rparr>))))"

definition blank_chunk :: provider_chunk where
  "blank_chunk = \<lparr>pc_text_delta = None, pc_tool_call_delta = None, pc_usage = None,
     pc_finish_reason = None, pc_provider_request_id = None, pc_structured = PyNone\<rparr>"

fun text_or_none :: "pyobj \<Rightarrow> string option" where
  "text_or_none (PyStr s) = Some s"
| "text_or_none v = None"

fun index_of :: "pyobj \<Rightarrow> int option" where
  "index_of (PyInt i) = Some i"
| "index_of (PyBool b) = Some (if b then 1 else 0)"
| "index_of v = None"

definition map_tool_call_chunk ::
    "model_request \<Rightarrow> (string \<times> pyobj) list \<Rightarrow> lib_raised + provider_chunk" where
  "map_tool_call_chunk request raw =
     (case index_of (get_field raw ''index'') of
        None \<Rightarrow> Inl (adapter_malformed ''Provider returned an invalid tool call fragment'' request)
      | Some i \<Rightarrow>
          let delta = \<lparr>delta_index = i, delta_id = text_or_none (get_field raw ''id''),
                delta_name = text_or_none (get_field raw ''name''),
                delta_fragment = (case get_field raw ''args'' of PyStr s \<Rightarrow> s | _ \<Rightarrow> [])\<rparr>
          in result_bind (raising (tool_call_delta_post_init delta)) (\<lambda>_.
               Inr (blank_chunk\<lparr>pc_tool_call_delta := Some delta\<rparr>)))"

definition map_ai_chunk :: "ai_message \<Rightarrow> model_request \<Rightarrow> lib_raised + provider_chunk list" where
  "map_ai_chunk m request =
     result_bind (raising (extract_text (ai_content m))) (\<lambda>texts.
     result_bind (traverse (map_tool_call_chunk request) (ai_tool_call_chunks m)) (\<lambda>calls.
     result_bind (raising (usage_from_metadata (ai_usage_metadata m))) (\<lambda>usage.
       let finish = metadata_finish_reason (ai_response_metadata m) in
       Inr (map (\<lambda>t. blank_chunk\<lparr>pc_text_delta := Some t\<rparr>) texts @ calls @
         (case usage of None \<Rightarrow> [] | Some u \<Rightarrow> [blank_chunk\<lparr>pc_usage := Some u\<rparr>]) @
         (if finish = Finish_Unknown then []
          else [blank_chunk\<lparr>pc_finish_reason := Some finish,
            pc_provider_request_id := provider_request_id (ai_response_metadata m)\<rparr>])))))"

subsection \<open>The two providers\<close>

datatype adapter = OpenAI | Anthropic

definition adapter_provider_id :: "adapter \<Rightarrow> provider_id" where
  "adapter_provider_id ad = ProviderId (case ad of OpenAI \<Rightarrow> ''openai'' | Anthropic \<Rightarrow> ''anthropic'')"

definition structured_output_kwargs :: "adapter \<Rightarrow> (string \<times> pyobj) list" where
  "structured_output_kwargs ad =
     [(''include_raw'', PyBool True), (''method'', PyStr ''json_schema'')] @
     (case ad of OpenAI \<Rightarrow> [(''strict'', PyBool True)] | Anthropic \<Rightarrow> [])"

definition temperature_kwargs :: "model_request \<Rightarrow> (string \<times> pyobj) list" where
  "temperature_kwargs request =
     (case req_temperature request of None \<Rightarrow> [] | Some t \<Rightarrow> [(''temperature'', PyFloat t)])"

definition openai_kwargs ::
    "model_target \<Rightarrow> model_request \<Rightarrow> secret_value \<Rightarrow> (string \<times> pyobj) list" where
  "openai_kwargs target request secret =
     [(''model'', PyStr (target_model_id target)), (''api_key'', PyStr (reveal secret)),
      (''max_retries'', PyInt 0),
      (''timeout'', PyFloat (Flt (attempt_timeout_seconds (target_limits target)))),
      (''max_completion_tokens'', PyInt (req_max_output_tokens request)),
      (''stream_usage'', PyBool True)] @ temperature_kwargs request"

definition anthropic_kwargs ::
    "model_target \<Rightarrow> model_request \<Rightarrow> secret_value \<Rightarrow> (string \<times> pyobj) list" where
  "anthropic_kwargs target request secret =
     [(''model'', PyStr (target_model_id target)), (''api_key'', PyStr (reveal secret)),
      (''max_retries'', PyInt 0),
      (''timeout'', PyFloat (Flt (attempt_timeout_seconds (target_limits target)))),
      (''max_tokens'', PyInt (req_max_output_tokens request))] @ temperature_kwargs request"

definition model_kwargs ::
    "adapter \<Rightarrow> model_target \<Rightarrow> model_request \<Rightarrow> secret_value \<Rightarrow> (string \<times> pyobj) list" where
  "model_kwargs ad = (case ad of OpenAI \<Rightarrow> openai_kwargs | Anthropic \<Rightarrow> anthropic_kwargs)"

subsubsection \<open>Errors\<close>

definition content_policy_codes :: "string list" where
  "content_policy_codes = [''content_filter'', ''content_policy_violation'', ''safety_violation'']"

definition nested_error :: "(string \<times> pyobj) list \<Rightarrow> (string \<times> pyobj) list" where
  "nested_error body = (case get_field body ''error'' of PyMap n \<Rightarrow> n | _ \<Rightarrow> [])"

definition openai_code_candidates :: "(string \<times> pyobj) list \<Rightarrow> pyobj list" where
  "openai_code_candidates body = [get_field body ''code'', get_field (nested_error body) ''code'']"

definition anthropic_code_candidates :: "(string \<times> pyobj) list \<Rightarrow> pyobj list" where
  "anthropic_code_candidates body =
     [get_field body ''code'', get_field body ''type'', get_field (nested_error body) ''code'',
      get_field (nested_error body) ''type'']"

definition first_text :: "pyobj list \<Rightarrow> string option" where
  "first_text vs = (case List.find is_text vs of Some (PyStr s) \<Rightarrow> Some s | _ \<Rightarrow> None)"

definition safe_error_code :: "((string \<times> pyobj) list \<Rightarrow> pyobj list) \<Rightarrow> provider_exception \<Rightarrow> string option" where
  "safe_error_code candidates e =
     (case px_code e of
        PyStr s \<Rightarrow> Some s
      | _ \<Rightarrow> (case px_body e of PyMap body \<Rightarrow> first_text (candidates body) | _ \<Rightarrow> None))"

definition safe_request_id :: "provider_exception \<Rightarrow> string option" where
  "safe_request_id e = (case px_request_id e of PyStr s \<Rightarrow> if s \<noteq> [] then Some s else None | _ \<Rightarrow> None)"

definition is_instance :: "provider_exception \<Rightarrow> string list \<Rightarrow> bool" where
  "is_instance e classes \<longleftrightarrow> list_ex (\<lambda>c. c \<in> set (px_classes e)) classes"

definition openai_error :: "provider_exception \<Rightarrow> model_error_code \<times> string" where
  "openai_error e =
     (if is_instance e [''ContentFilterFinishReasonError''] \<or>
         safe_error_code openai_code_candidates e \<in> Some ` set content_policy_codes
      then (Content_Policy, ''OpenAI content policy rejected the request'')
      else if is_instance e [''AuthenticationError''] then (Authentication, ''OpenAI authentication failed'')
      else if is_instance e [''PermissionDeniedError''] then (Permission, ''OpenAI permission was denied'')
      else if is_instance e [''RateLimitError''] then (Rate_Limited, ''OpenAI rate limit was reached'')
      else if is_instance e [''APITimeoutError''] then (Timeout, ''OpenAI request timed out'')
      else if is_instance e [''APIConnectionError'', ''InternalServerError'']
      then (Unavailable, ''OpenAI is temporarily unavailable'')
      else if is_instance e [''BadRequestError''] then (Invalid_Request, ''OpenAI rejected the request'')
      else (Unknown_Error, ''OpenAI request failed''))"

definition anthropic_error :: "provider_exception \<Rightarrow> model_error_code \<times> string" where
  "anthropic_error e =
     (if safe_error_code anthropic_code_candidates e \<in> Some ` set content_policy_codes
      then (Content_Policy, ''Anthropic content policy rejected the request'')
      else if is_instance e [''AuthenticationError''] then (Authentication, ''Anthropic authentication failed'')
      else if is_instance e [''PermissionDeniedError''] then (Permission, ''Anthropic permission was denied'')
      else if is_instance e [''RateLimitError''] then (Rate_Limited, ''Anthropic rate limit was reached'')
      else if is_instance e [''APITimeoutError''] then (Timeout, ''Anthropic request timed out'')
      else if is_instance e [''APIConnectionError'', ''InternalServerError'', ''OverloadedError'']
      then (Unavailable, ''Anthropic is temporarily unavailable'')
      else if is_instance e [''BadRequestError''] then (Invalid_Request, ''Anthropic rejected the request'')
      else (Unknown_Error, ''Anthropic request failed''))"

definition map_exception :: "adapter \<Rightarrow> provider_exception \<Rightarrow> string \<Rightarrow> model_error" where
  "map_exception ad e request_id =
     (case (case ad of OpenAI \<Rightarrow> openai_error e | Anthropic \<Rightarrow> anthropic_error e) of
        (code, text) \<Rightarrow>
          (new_model_error code text request_id)\<lparr>me_provider_request_id := safe_request_id e\<rparr>)"

subsection \<open>Calls\<close>

record model_plan =
  mp_kwargs :: "(string \<times> pyobj) list"
  mp_tools :: "(pyobj list \<times> bool) option"
  mp_structured :: "(pyobj \<times> (string \<times> pyobj) list) option"

datatype lib_value =
    LibMessage ai_message
  | LibChunk ai_message
  | LibMapping "(string \<times> lib_value) list"
  | LibObject pyobj

record chat_library =
  lb_factory :: "(string \<times> pyobj) list \<Rightarrow> lib_raised option"
  lb_bind_tools :: "pyobj list \<Rightarrow> bool \<Rightarrow> lib_raised option"
  lb_structure :: "pyobj \<Rightarrow> (string \<times> pyobj) list \<Rightarrow> lib_raised option"
  lb_invoke :: "model_plan \<Rightarrow> lc_message list \<Rightarrow> (string \<times> pyobj) list \<Rightarrow> lib_raised + lib_value"
  lb_stream :: "model_plan \<Rightarrow> lc_message list \<Rightarrow> (string \<times> pyobj) list \<Rightarrow> lib_value list \<times> lib_raised option"

definition unless_raised :: "lib_raised option \<Rightarrow> lib_raised + unit" where
  "unless_raised r = (case r of None \<Rightarrow> Inr () | Some e \<Rightarrow> Inl e)"

definition tool_to_langchain :: "tool_definition \<Rightarrow> pyobj" where
  "tool_to_langchain t =
     PyMap [(''type'', PyStr ''function''),
       (''function'', PyMap [(''name'', PyStr (tool_name t)), (''description'', PyStr (tool_description t)),
         (''parameters'', thaw_object (tool_input_schema t))])]"

definition make_model ::
    "adapter \<Rightarrow> chat_library \<Rightarrow> model_target \<Rightarrow> model_request \<Rightarrow> secret_value option \<Rightarrow> bool \<Rightarrow>
     lib_raised + model_plan" where
  "make_model ad lib target request secret structured =
     (case secret of
        None \<Rightarrow> Inl (LibModel (new_model_error Authentication ''Provider credential is unavailable'' (req_id request)))
      | Some c \<Rightarrow>
          let kwargs = model_kwargs ad target request c;
              tools = map tool_to_langchain (req_tools request);
              strict = list_all tool_strict (req_tools request);
              bound = (if req_tools request = [] then None else Some (tools, strict));
              shape = (if structured then map_option (\<lambda>so. (thaw_object (so_schema so), structured_output_kwargs ad))
                  (req_structured request) else None)
          in result_bind (unless_raised (lb_factory lib kwargs)) (\<lambda>_.
             result_bind (unless_raised (case bound of None \<Rightarrow> None | Some (ts, b) \<Rightarrow> lb_bind_tools lib ts b)) (\<lambda>_.
             result_bind (unless_raised (case shape of None \<Rightarrow> None | Some (sc, kw) \<Rightarrow> lb_structure lib sc kw)) (\<lambda>_.
               Inr \<lparr>mp_kwargs = kwargs, mp_tools = bound, mp_structured = shape\<rparr>))))"

definition invoke_kwargs :: "model_request \<Rightarrow> (string \<times> pyobj) list" where
  "invoke_kwargs request =
     (if req_stop request = [] then [] else [(''stop'', PyList (map PyStr (req_stop request)))])"

text \<open>\<open>result.get(name)\<close> of a mapping, and its value as a structured output.\<close>

fun lib_get :: "lib_value \<Rightarrow> string \<Rightarrow> lib_value option" where
  "lib_get (LibMapping m) name = Some (case map_of m name of None \<Rightarrow> LibObject PyNone | Some v \<Rightarrow> v)"
| "lib_get (LibObject (PyMap m)) name = Some (LibObject (get_field m name))"
| "lib_get v name = None"

fun lib_object :: "lib_value \<Rightarrow> pyobj" where
  "lib_object (LibObject v) = v"
| "lib_object v = PyOther"

fun as_message :: "lib_value \<Rightarrow> ai_message option" where
  "as_message (LibMessage m) = Some m"
| "as_message (LibChunk m) = Some m"
| "as_message v = None"

definition map_structured :: "model_request \<Rightarrow> lib_value \<Rightarrow> lib_raised + provider_response" where
  "map_structured request result =
     (case (lib_get result ''parsing_error'', lib_get result ''raw'', lib_get result ''parsed'') of
        (Some failure, Some raw, Some parsed) \<Rightarrow>
          (case (failure = LibObject PyNone, as_message raw) of
             (True, Some m) \<Rightarrow> map_ai_message m request (lib_object parsed)
           | _ \<Rightarrow> Inl (LibModel (new_model_error Structured_Output_Invalid
               ''Provider structured output did not validate'' (req_id request))))
      | _ \<Rightarrow> Inl (adapter_malformed ''Provider returned an invalid structured response envelope'' request))"

definition map_result :: "model_request \<Rightarrow> lib_value \<Rightarrow> lib_raised + provider_response" where
  "map_result request result =
     (if req_structured request \<noteq> None then map_structured request result
      else (case as_message result of
          Some m \<Rightarrow> map_ai_message m request PyNone
        | None \<Rightarrow> Inl (adapter_malformed ''Provider returned an unexpected message type'' request)))"

text \<open>The \<open>except\<close> clauses.\<close>

fun adapter_raises :: "adapter \<Rightarrow> model_request \<Rightarrow> lib_raised \<Rightarrow> raised" where
  "adapter_raises ad request LibCancelled = Raised_Cancelled"
| "adapter_raises ad request LibExit = Raised_Exit"
| "adapter_raises ad request (LibModel e) = Raised_Model e"
| "adapter_raises ad request (LibError e) = Raised_Model (map_exception ad e (req_id request))"

definition adapter_complete ::
    "adapter \<Rightarrow> chat_library \<Rightarrow> model_target \<Rightarrow> model_request \<Rightarrow> secret_value option \<Rightarrow>
     raised + provider_response" where
  "adapter_complete ad lib target request secret =
     (case result_bind (make_model ad lib target request secret (req_structured request \<noteq> None)) (\<lambda>plan.
           result_bind (lb_invoke lib plan (to_langchain_messages (req_messages request)) (invoke_kwargs request))
             (map_result request)) of
        Inl e \<Rightarrow> Inl (adapter_raises ad request e)
      | Inr r \<Rightarrow> Inr r)"

text \<open>The chunks of a stream and what ends it, \<open>None\<close> at its end.\<close>

fun stream_chunks ::
    "model_request \<Rightarrow> lib_value list \<Rightarrow> lib_raised option \<Rightarrow> provider_chunk list \<times> lib_raised option" where
  "stream_chunks request [] ending = ([], ending)"
| "stream_chunks request (LibChunk m # vs) ending =
     (case map_ai_chunk m request of
        Inl e \<Rightarrow> ([], Some e)
      | Inr cs \<Rightarrow> (case stream_chunks request vs ending of (rest, e) \<Rightarrow> (cs @ rest, e)))"
| "stream_chunks request (v # vs) ending =
     ([], Some (adapter_malformed ''Provider returned an unexpected stream message type'' request))"

definition adapter_stream ::
    "adapter \<Rightarrow> chat_library \<Rightarrow> model_target \<Rightarrow> model_request \<Rightarrow> secret_value option \<Rightarrow>
     provider_chunk list \<times> raised option" where
  "adapter_stream ad lib target request secret =
     (if req_structured request \<noteq> None then
        (case adapter_complete ad lib target request secret of
           Inl e \<Rightarrow> ([], Some e)
         | Inr r \<Rightarrow> ([blank_chunk\<lparr>pc_structured := pr_structured r, pc_usage := pr_usage r,
             pc_finish_reason := Some (pr_finish_reason r),
             pc_provider_request_id := pr_provider_request_id r\<rparr>], None))
      else
        (case make_model ad lib target request secret False of
           Inl e \<Rightarrow> ([], Some (adapter_raises ad request e))
         | Inr plan \<Rightarrow>
             (case lb_stream lib plan (to_langchain_messages (req_messages request)) (invoke_kwargs request) of
                (vs, ending) \<Rightarrow>
                  (case stream_chunks request vs ending of
                     (cs, e) \<Rightarrow> (cs, map_option (adapter_raises ad request) e)))))"

end
