(* ===== verification/Adapter_Properties.thy ===== *)
theory Adapter_Properties
  imports Model_Adapters Gateway_Samples
begin

section \<open>Properties of the provider adapters\<close>

text \<open>
  Whatever the chat model returns or raises: which errors leave an adapter, what a response and a stream
  carry, and that the conversation reaches the model unchanged.
\<close>

subsection \<open>Errors\<close>

text \<open>The exceptions of a library are not the platform's own \<open>ModelError\<close>.\<close>

definition foreign :: "lib_raised option \<Rightarrow> bool" where
  "foreign r \<longleftrightarrow> (\<forall>e. r \<noteq> Some (LibModel e))"

definition raised_by :: "lib_raised + 'a \<Rightarrow> lib_raised option" where
  "raised_by r = (case r of Inl e \<Rightarrow> Some e | Inr _ \<Rightarrow> None)"

definition foreign_library :: "chat_library \<Rightarrow> bool" where
  "foreign_library lib \<longleftrightarrow>
     (\<forall>kw. foreign (lb_factory lib kw)) \<and> (\<forall>ts b. foreign (lb_bind_tools lib ts b)) \<and>
     (\<forall>sc kw. foreign (lb_structure lib sc kw)) \<and>
     (\<forall>plan ms kw. foreign (raised_by (lb_invoke lib plan ms kw))) \<and>
     (\<forall>plan ms kw. foreign (snd (lb_stream lib plan ms kw)))"

definition adapter_messages :: "string set" where
  "adapter_messages =
     {''Provider credential is unavailable'', ''Provider returned an invalid tool call'',
      ''Provider returned an incomplete tool call'', ''Provider returned no usable content'',
      ''Provider returned an invalid tool call fragment'',
      ''Provider returned an invalid structured response envelope'',
      ''Provider structured output did not validate'', ''Provider returned an unexpected message type'',
      ''Provider returned an unexpected stream message type'',
      ''OpenAI content policy rejected the request'', ''OpenAI authentication failed'',
      ''OpenAI permission was denied'', ''OpenAI rate limit was reached'', ''OpenAI request timed out'',
      ''OpenAI is temporarily unavailable'', ''OpenAI rejected the request'', ''OpenAI request failed'',
      ''Anthropic content policy rejected the request'', ''Anthropic authentication failed'',
      ''Anthropic permission was denied'', ''Anthropic rate limit was reached'', ''Anthropic request timed out'',
      ''Anthropic is temporarily unavailable'', ''Anthropic rejected the request'', ''Anthropic request failed''}"

definition public_error :: "model_request \<Rightarrow> model_error \<Rightarrow> bool" where
  "public_error request e \<longleftrightarrow>
     (\<exists>code text rid. text \<in> adapter_messages \<and>
        e = (new_model_error code text (req_id request))\<lparr>me_provider_request_id := rid\<rparr>)"

definition own :: "model_request \<Rightarrow> lib_raised option \<Rightarrow> bool" where
  "own request r \<longleftrightarrow> (\<forall>e. r = Some (LibModel e) \<longrightarrow> public_error request e)"

lemma public_error_new: "text \<in> adapter_messages \<Longrightarrow> public_error request (new_model_error code text (req_id request))"
  unfolding public_error_def by (intro exI [of _ code] exI [of _ "text"] exI [of _ None]) (simp add: new_model_error_def)

lemma raised_by_simps [simp]: "raised_by (Inl e) = Some e" "raised_by (Inr v) = None"
  by (simp_all add: raised_by_def)

lemma own_simps [simp]: "own request None" "own request (Some (LibError x))" "own request (Some LibCancelled)"
  "own request (Some LibExit)" "own request (Some (LibModel e)) \<longleftrightarrow> public_error request e"
  by (simp_all add: own_def)

lemma own_foreign: "foreign r \<Longrightarrow> own request r"
  by (simp add: own_def foreign_def)

lemma own_malformed: "text \<in> adapter_messages \<Longrightarrow> own request (Some (adapter_malformed text request))"
  by (simp add: adapter_malformed_def public_error_new)

lemma own_bind:
  "own request (raised_by r) \<Longrightarrow> (\<And>v. r = Inr v \<Longrightarrow> own request (raised_by (f v))) \<Longrightarrow>
     own request (raised_by (result_bind r f))"
  by (cases r) simp_all

lemma own_raising [simp]: "own request (raised_by (raising r))"
  by (cases r) (simp_all add: raising_def)

lemma own_traverse:
  "(\<And>v. own request (raised_by (f v))) \<Longrightarrow> own request (raised_by (traverse f vs))"
proof (induction vs)
  case (Cons v vs)
  then show ?case by (auto intro!: own_bind)
qed simp

lemma own_tool_call: "own request (raised_by (map_tool_call request raw))"
proof (cases "(get_field raw ''id'', get_field raw ''name'', get_field raw ''args'')")
  case (fields i n a)
  have "own request (raised_by (case (i, n, a) of
      (PyStr i, PyStr n, PyMap args) \<Rightarrow>
        raising (new_tool_call \<lparr>call_id = i, call_name = n, call_arguments = PyMap args\<rparr>)
    | _ \<Rightarrow> Inl (adapter_malformed ''Provider returned an incomplete tool call'' request)))"
    by (auto split: pyobj.split intro!: own_malformed simp: adapter_messages_def)
  with fields show ?thesis by (simp add: map_tool_call_def)
qed

lemma own_message: "own request (raised_by (map_ai_message m request structured))"
  unfolding map_ai_message_def
  by (auto intro!: own_bind own_malformed own_traverse own_tool_call simp: adapter_messages_def)

lemma own_chunk: "own request (raised_by (map_ai_chunk m request))"
proof -
  have "own request (raised_by (map_tool_call_chunk request raw))" for raw
    unfolding map_tool_call_chunk_def
    by (auto split: option.split intro!: own_bind own_malformed simp: adapter_messages_def Let_def)
  then show ?thesis
    unfolding map_ai_chunk_def by (auto intro!: own_bind own_traverse simp: Let_def)
qed

lemma own_result: "own request (raised_by (map_result request v))"
  unfolding map_result_def map_structured_def
  by (auto split: option.split bool.split intro!: own_message own_malformed public_error_new simp: adapter_messages_def)

lemma own_model:
  assumes "foreign_library lib"
  shows "own request (raised_by (make_model ad lib target request secret structured))"
proof -
  have raised: "raised_by (unless_raised r) = r" for r by (cases r) (simp_all add: unless_raised_def)
  have libs: "own request (lb_factory lib kw)" "own request (lb_bind_tools lib ts b)" "own request (lb_structure lib sc kw)"
    for kw ts b sc using assms by (auto simp: foreign_library_def intro: own_foreign)
  show ?thesis
    unfolding make_model_def Let_def
    by (auto split: option.split intro!: own_bind public_error_new libs simp: raised adapter_messages_def)
qed

lemma own_stream: "own request ending \<Longrightarrow> own request (snd (stream_chunks request vs ending))"
proof (induction request vs ending rule: stream_chunks.induct)
  case (2 request m vs ending)
  then show ?case
    using own_chunk [of request m] by (auto split: sum.split prod.split)
qed (auto intro!: own_malformed simp: adapter_messages_def)

lemma map_exception_public: "public_error request (map_exception ad e (req_id request))"
proof -
  obtain code msg where result: "(case ad of OpenAI \<Rightarrow> openai_error e | Anthropic \<Rightarrow> anthropic_error e) = (code, msg)"
    by fastforce
  then have "msg \<in> adapter_messages"
    by (cases ad) (auto simp: openai_error_def anthropic_error_def adapter_messages_def split: if_splits)
  with result show ?thesis unfolding public_error_def map_exception_def by auto
qed

definition ended_safely :: "model_request \<Rightarrow> raised \<Rightarrow> bool" where
  "ended_safely request r \<longleftrightarrow>
     r = Raised_Cancelled \<or> r = Raised_Exit \<or> (\<exists>e. r = Raised_Model e \<and> public_error request e)"

lemma own_ended: "own request (Some e) \<Longrightarrow> ended_safely request (adapter_raises ad request e)"
  by (cases e) (simp_all add: ended_safely_def map_exception_public)

lemma adapter_complete_ended:
  assumes "foreign_library lib" and "adapter_complete ad lib target request secret = Inl r"
  shows "ended_safely request r"
proof -
  let ?body = "result_bind (make_model ad lib target request secret (req_structured request \<noteq> None)) (\<lambda>plan.
      result_bind (lb_invoke lib plan (to_langchain_messages (req_messages request)) (invoke_kwargs request))
        (map_result request))"
  have "own request (raised_by (lb_invoke lib plan ms kw))" for plan ms kw
    using assms(1) by (simp add: foreign_library_def own_foreign)
  then have "own request (raised_by ?body)"
    by (intro own_bind own_model assms(1) own_result)
  moreover obtain e where "?body = Inl e" "r = adapter_raises ad request e"
    using assms(2) by (auto simp: adapter_complete_def split: sum.splits)
  ultimately show ?thesis by (auto intro: own_ended)
qed

lemma stream_ended:
  assumes lib: "foreign_library lib" and out: "adapter_stream ad lib target request secret = (cs, Some r)"
  shows "ended_safely request r"
proof (cases "req_structured request")
  case (Some so)
  with out show ?thesis using adapter_complete_ended [OF lib] by (auto simp: adapter_stream_def split: sum.splits)
next
  case None
  show ?thesis
  proof (cases "make_model ad lib target request secret False")
    case (Inl e)
    with None out have "r = adapter_raises ad request e" by (simp add: adapter_stream_def)
    with own_model [OF lib, of request ad target secret False] Inl show ?thesis by (auto intro: own_ended)
  next
    case (Inr plan)
    obtain vs ending where stream: "lb_stream lib plan (to_langchain_messages (req_messages request))
        (invoke_kwargs request) = (vs, ending)" by fastforce
    then have "own request ending" using lib by (metis foreign_library_def own_foreign snd_conv)
    from own_stream [OF this, of vs] None Inr stream out show ?thesis
      by (auto simp: adapter_stream_def intro: own_ended split: prod.splits)
  qed
qed

text \<open>C37: An adapter fails safely. Whatever a chat library returns or raises, short of raising the platform's
  own error class, a completion and a stream end with a cancellation, with a process exit, or with a
  \<open>ModelError\<close> for this request whose text is one of the fixed texts: no text of the provider's and no
  other exception gets out.\<close>
theorem adapter_fails_safely:
  assumes "foreign_library lib"
  shows "(\<forall>r. adapter_complete ad lib target request secret = Inl r \<longrightarrow> ended_safely request r) \<and>
    (\<forall>cs r. adapter_stream ad lib target request secret = (cs, Some r) \<longrightarrow> ended_safely request r)"
  using adapter_complete_ended [OF assms] stream_ended [OF assms] by blast

text \<open>A library whose model answers with one reply and one stream.\<close>

definition ad_library ::
    "lib_raised + lib_value \<Rightarrow> lib_value list \<times> lib_raised option \<Rightarrow> chat_library" where
  "ad_library reply items =
     \<lparr>lb_factory = (\<lambda>_. None), lb_bind_tools = (\<lambda>_ _. None), lb_structure = (\<lambda>_ _. None),
      lb_invoke = (\<lambda>_ _ _. reply), lb_stream = (\<lambda>_ _ _. items)\<rparr>"

definition ad_timeout :: provider_exception where
  "ad_timeout = \<lparr>px_classes = [''APITimeoutError'', ''APIConnectionError'', ''APIError''], px_code = PyNone,
     px_body = PyNone, px_request_id = PyStr ''req-9''\<rparr>"

definition ad_message :: "string \<Rightarrow> (string \<times> pyobj) list list \<Rightarrow> ai_message" where
  "ad_message t fragments =
     \<lparr>ai_content = PyList [PyMap [(''type'', PyStr ''text''), (''text'', PyStr t)], PyMap [(''type'', PyStr ''thinking'')]],
      ai_tool_calls = [], ai_invalid_tool_calls = [], ai_tool_call_chunks = fragments,
      ai_usage_metadata = PyMap [(''input_tokens'', PyInt 3), (''output_tokens'', PyInt 2), (''total_tokens'', PyInt 5)],
      ai_response_metadata = [(''finish_reason'', PyStr ''stop''), (''id'', PyStr ''resp-1'')]\<rparr>"

definition ad_secret :: "secret_value option" where
  "ad_secret = Some (SecretValue ''key'')"

theorem adapter_fails_safely_witness:
  "\<exists>e. adapter_complete OpenAI (ad_library (Inl (LibError ad_timeout)) ([], None)) (gw_target ''one'') gw_request
      ad_secret = Inl (Raised_Model e) \<and> public_error gw_request e \<and> me_code e = Timeout"
proof -
  have "foreign_library (ad_library (Inl (LibError ad_timeout)) ([], None))"
    by (simp add: foreign_library_def foreign_def ad_library_def raised_by_def)
  moreover have "adapter_complete OpenAI (ad_library (Inl (LibError ad_timeout)) ([], None)) (gw_target ''one'')
      gw_request ad_secret = Inl (Raised_Model (map_exception OpenAI ad_timeout ''r1''))"
    by (simp add: adapter_complete_def make_model_def ad_library_def ad_secret_def gw_request_def unless_raised_def
        Let_def)
  moreover have "me_code (map_exception OpenAI ad_timeout ''r1'') = Timeout" by code_simp
  ultimately show ?thesis using adapter_fails_safely by (fastforce simp: ended_safely_def)
qed

subsection \<open>Responses and streams\<close>

definition replied_with :: "model_request \<Rightarrow> lib_value \<Rightarrow> ai_message \<Rightarrow> pyobj \<Rightarrow> bool" where
  "replied_with request v m structured \<longleftrightarrow>
     (if req_structured request = None then as_message v = Some m \<and> structured = PyNone
      else (\<exists>w p. lib_get v ''parsing_error'' = Some (LibObject PyNone) \<and> lib_get v ''raw'' = Some w \<and>
        as_message w = Some m \<and> lib_get v ''parsed'' = Some p \<and> structured = lib_object p))"

definition call_matches :: "(string \<times> pyobj) list \<Rightarrow> tool_call \<Rightarrow> bool" where
  "call_matches raw c \<longleftrightarrow> get_field raw ''id'' = PyStr (call_id c) \<and> get_field raw ''name'' = PyStr (call_name c) \<and>
     freeze_object (get_field raw ''args'') = Inr (call_arguments c) \<and> call_id c \<noteq> [] \<and> tool_name_pattern (call_name c)"

lemma raising_Inr [simp]: "raising r = Inr v \<longleftrightarrow> r = Inr v"
  by (cases r) (simp_all add: raising_def)

lemma map_tool_call_Inr: "map_tool_call request raw = Inr c \<Longrightarrow> call_matches raw c"
  by (auto simp: map_tool_call_def call_matches_def new_tool_call_def result_bind_eq_Inr require_eq_Inr
      split: pyobj.splits)

lemma traverse_all2: "traverse f xs = Inr ys \<Longrightarrow> (\<And>x y. f x = Inr y \<Longrightarrow> P x y) \<Longrightarrow> list_all2 P xs ys"
  by (induction xs arbitrary: ys) (auto simp: result_bind_eq_Inr)

lemma text_block_nonempty: "text_block v = Inr ts \<Longrightarrow> [] \<notin> set ts"
  by (auto simp: text_block_def split: pyobj.splits if_splits)

lemma extract_text_nonempty: "extract_text v = Inr ts \<Longrightarrow> [] \<notin> set ts"
  by (cases v) (fastforce simp: text_blocks_def result_bind_eq_Inr dest: traverse_InrD text_block_nonempty)+

lemma usage_valid: "usage_from_metadata v = Inr (Some u) \<Longrightarrow> model_usage_post_init u = Inr ()"
  by (auto simp: usage_from_metadata_def result_bind_eq_Inr Let_def split: pyobj.splits if_splits)

text \<open>C38: A response carries the message of the model. When a completion succeeds, the model was given the
  conversation of the request and answered with a message without invalid tool calls; the response has
  its non-empty texts in order, one valid tool call for each of its calls in order, a usage that passes
  its constructor, and the parsed value exactly when a structured output was asked for. It is never empty.\<close>
theorem response_carries_message:
  assumes "adapter_complete ad lib target request secret = Inr r"
  shows "\<exists>plan v m. lb_invoke lib plan (to_langchain_messages (req_messages request)) (invoke_kwargs request) = Inr v \<and>
    replied_with request v m (pr_structured r) \<and> ai_invalid_tool_calls m = [] \<and>
    extract_text (ai_content m) = Inr (pr_content r) \<and> [] \<notin> set (pr_content r) \<and>
    list_all2 call_matches (ai_tool_calls m) (pr_tool_calls r) \<and>
    (\<forall>u. pr_usage r = Some u \<longrightarrow> model_usage_post_init u = Inr ()) \<and>
    (pr_content r \<noteq> [] \<or> pr_tool_calls r \<noteq> [] \<or> pr_structured r \<noteq> PyNone)"
proof -
  from assms obtain plan v where v: "lb_invoke lib plan (to_langchain_messages (req_messages request))
      (invoke_kwargs request) = Inr v" "map_result request v = Inr r"
    by (auto simp: adapter_complete_def result_bind_eq_Inr split: sum.splits)
  then obtain m structured where m: "replied_with request v m structured"
      "map_ai_message m request structured = Inr r"
    by (auto simp: map_result_def map_structured_def replied_with_def split: if_splits option.splits bool.splits)
  then have parts: "pr_structured r = structured" "ai_invalid_tool_calls m = []"
      "extract_text (ai_content m) = Inr (pr_content r)"
      "traverse (map_tool_call request) (ai_tool_calls m) = Inr (pr_tool_calls r)"
      "usage_from_metadata (ai_usage_metadata m) = Inr (pr_usage r)"
      "pr_content r \<noteq> [] \<or> pr_tool_calls r \<noteq> [] \<or> pr_structured r \<noteq> PyNone"
    by (auto simp: map_ai_message_def result_bind_eq_Inr split: if_splits)
  have "list_all2 call_matches (ai_tool_calls m) (pr_tool_calls r)"
    using parts(4) map_tool_call_Inr by (rule traverse_all2)
  moreover have "model_usage_post_init u = Inr ()" if "pr_usage r = Some u" for u
    using parts(5) that usage_valid by simp
  ultimately show ?thesis
    using v(1) m(1) parts extract_text_nonempty [OF parts(3)]
    by (intro exI [of _ plan] exI [of _ v] exI [of _ m] conjI) simp_all
qed

theorem response_carries_message_witness:
  "\<exists>r. adapter_complete Anthropic (ad_library (Inr (LibMessage (ad_message ''hi'' []))) ([], None)) (gw_target ''one'')
      gw_request ad_secret = Inr r \<and> pr_content r = [''hi''] \<and> pr_structured r = PyNone \<and>
      (\<forall>u. pr_usage r = Some u \<longrightarrow> model_usage_post_init u = Inr ())"
proof -
  let ?lib = "ad_library (Inr (LibMessage (ad_message ''hi'' []))) ([], None)"
  have map: "map_ai_message (ad_message ''hi'' []) gw_request PyNone = Inr
      \<lparr>pr_content = [''hi''], pr_finish_reason = Finish_Stop,
       pr_usage = Some (empty_usage\<lparr>us_input := Some 3, us_output := Some 2, us_total := Some 5\<rparr>),
       pr_provider_request_id = Some ''resp-1'', pr_tool_calls = [], pr_structured = PyNone\<rparr>"
    by code_simp
  have "adapter_complete Anthropic ?lib (gw_target ''one'') gw_request ad_secret =
      map_sum (adapter_raises Anthropic gw_request) id (map_ai_message (ad_message ''hi'' []) gw_request PyNone)"
    by (simp add: adapter_complete_def make_model_def ad_library_def ad_secret_def unless_raised_def map_result_def
        gw_request_def Let_def split: sum.split)
  then obtain r where r: "adapter_complete Anthropic ?lib (gw_target ''one'') gw_request ad_secret = Inr r"
      "pr_content r = [''hi'']" by (simp add: map)
  from response_carries_message [OF r(1)] r show ?thesis
    by (auto simp: replied_with_def gw_request_def)
qed

text \<open>A tool-call fragment and the delta made of it.\<close>

definition fragment_matches :: "(string \<times> pyobj) list \<Rightarrow> tool_call_delta \<Rightarrow> bool" where
  "fragment_matches raw d \<longleftrightarrow>
     index_of (get_field raw ''index'') = Some (delta_index d) \<and> 0 \<le> delta_index d \<and>
     delta_id d = text_or_none (get_field raw ''id'') \<and> delta_name d = text_or_none (get_field raw ''name'') \<and>
     delta_fragment d = (case get_field raw ''args'' of PyStr s \<Rightarrow> s | _ \<Rightarrow> [])"

lemma known_kind_simps [simp]:
  "known [] = []" "known (None # vs) = known vs" "known (Some v # vs) = v # known vs" "known (xs @ ys) = known xs @ known ys"
  by (simp_all add: known_def)

lemma blank_chunk_simps [simp]: "pc_text_delta blank_chunk = None" "pc_tool_call_delta blank_chunk = None"
  by (simp_all add: blank_chunk_def)

lemma fragments_Inr:
  assumes "traverse (map_tool_call_chunk request) raws = Inr calls"
  shows "known (map pc_text_delta calls) = [] \<and> list_all2 fragment_matches raws (known (map pc_tool_call_delta calls))"
  using assms
proof (induction raws arbitrary: calls)
  case (Cons raw raws)
  then obtain c cs where c: "calls = c # cs" "map_tool_call_chunk request raw = Inr c"
      "traverse (map_tool_call_chunk request) raws = Inr cs" by (auto simp: result_bind_eq_Inr)
  obtain i where i: "index_of (get_field raw ''index'') = Some i" using c(2)
    by (auto simp: map_tool_call_chunk_def split: option.splits)
  let ?d = "\<lparr>delta_index = i, delta_id = text_or_none (get_field raw ''id''),
      delta_name = text_or_none (get_field raw ''name''),
      delta_fragment = (case get_field raw ''args'' of PyStr s \<Rightarrow> s | _ \<Rightarrow> [])\<rparr>"
  have "c = blank_chunk\<lparr>pc_tool_call_delta := Some ?d\<rparr>" "fragment_matches raw ?d"
    using c(2) i by (auto simp: map_tool_call_chunk_def fragment_matches_def Let_def result_bind_eq_Inr
        tool_call_delta_post_init_def require_eq_Inr)
  with c Cons.IH [OF c(3)] show ?case by simp
qed simp

lemma map_ai_chunk_Inr:
  assumes "map_ai_chunk m request = Inr cs"
  shows "extract_text (ai_content m) = Inr (known (map pc_text_delta cs)) \<and>
    list_all2 fragment_matches (ai_tool_call_chunks m) (known (map pc_tool_call_delta cs))"
proof -
  have deltas: "known (map (\<lambda>t. Some t) ts) = ts" "known (map (\<lambda>t. None) ts) = []" for ts :: "string list"
    by (induction ts) simp_all
  have nones: "known (map (\<lambda>t. None :: tool_call_delta option) ts) = []" for ts :: "string list"
    by (induction ts) simp_all
  from assms show ?thesis
    by (auto simp: map_ai_chunk_def Let_def result_bind_eq_Inr comp_def deltas nones dest!: fragments_Inr split: option.splits if_splits)
qed

lemma stream_chunks_Inr:
  "stream_chunks request vs ending = (cs, None) \<Longrightarrow>
     ending = None \<and> (\<exists>ms tss. vs = map LibChunk ms \<and> traverse (\<lambda>m. extract_text (ai_content m)) ms = Inr tss \<and>
       known (map pc_text_delta cs) = concat tss \<and>
       list_all2 fragment_matches (concat (map ai_tool_call_chunks ms)) (known (map pc_tool_call_delta cs)))"
proof (induction request vs ending arbitrary: cs rule: stream_chunks.induct)
  case (2 request m vs ending)
  then obtain c rest where c: "map_ai_chunk m request = Inr c" "stream_chunks request vs ending = (rest, None)"
      "cs = c @ rest" by (auto split: sum.splits prod.splits)
  from "2.IH" [OF c(1,2)] obtain ms tss where IH: "ending = None" "vs = map LibChunk ms"
      "traverse (\<lambda>m. extract_text (ai_content m)) ms = Inr tss" "known (map pc_text_delta rest) = concat tss"
      "list_all2 fragment_matches (concat (map ai_tool_call_chunks ms)) (known (map pc_tool_call_delta rest))"
    by blast
  with map_ai_chunk_Inr [OF c(1)] c(3) show ?case
    by (intro conjI exI [of _ "m # ms"] exI [of _ "known (map pc_text_delta c) # tss"])
       (auto intro: list_all2_appendI)
qed auto

text \<open>C39: A stream carries the chunks of the model. When a stream ends without an error, every item of the model's
  stream was a message chunk, the text deltas are their texts in order, and there is one tool-call delta,
  with its index, for each of their fragments in order.\<close>
theorem stream_carries_chunks:
  assumes "adapter_stream ad lib target request secret = (cs, None)" and "req_structured request = None"
  shows "\<exists>plan ms tss.
    lb_stream lib plan (to_langchain_messages (req_messages request)) (invoke_kwargs request) = (map LibChunk ms, None) \<and>
    traverse (\<lambda>m. extract_text (ai_content m)) ms = Inr tss \<and> known (map pc_text_delta cs) = concat tss \<and>
    list_all2 fragment_matches (concat (map ai_tool_call_chunks ms)) (known (map pc_tool_call_delta cs))"
proof -
  from assms obtain plan vs ending where "lb_stream lib plan (to_langchain_messages (req_messages request))
      (invoke_kwargs request) = (vs, ending)" "stream_chunks request vs ending = (cs, None)"
    by (auto simp: adapter_stream_def split: sum.splits prod.splits)
  with stream_chunks_Inr show ?thesis by blast
qed

definition ad_fragment :: "(string \<times> pyobj) list" where
  "ad_fragment = [(''index'', PyInt 0), (''id'', PyStr ''c1''), (''name'', PyStr ''f''), (''args'', PyStr ''{}'')]"

theorem stream_carries_chunks_witness:
  "\<exists>cs. adapter_stream OpenAI (ad_library (Inr (LibObject PyNone))
      ([LibChunk (ad_message ''he'' []), LibChunk (ad_message ''llo'' [ad_fragment])], None)) (gw_target ''one'')
      gw_request ad_secret = (cs, None) \<and> known (map pc_text_delta cs) = [''he'', ''llo'']"
proof -
  let ?ms = "[ad_message ''he'' [], ad_message ''llo'' [ad_fragment]]"
  let ?lib = "ad_library (Inr (LibObject PyNone)) (map LibChunk ?ms, None)"
  have "snd (stream_chunks gw_request (map LibChunk ?ms) None) = None" by code_simp
  then obtain cs where "stream_chunks gw_request (map LibChunk ?ms) None = (cs, None)"
    by (cases "stream_chunks gw_request (map LibChunk ?ms) None") auto
  then have out: "adapter_stream OpenAI ?lib (gw_target ''one'') gw_request ad_secret = (cs, None)"
    by (simp add: adapter_stream_def make_model_def ad_library_def ad_secret_def unless_raised_def gw_request_def Let_def)
  obtain plan ms tss where *: "lb_stream ?lib plan (to_langchain_messages (req_messages gw_request))
      (invoke_kwargs gw_request) = (map LibChunk ms, None)"
      "traverse (\<lambda>m. extract_text (ai_content m)) ms = Inr tss" "known (map pc_text_delta cs) = concat tss"
    using stream_carries_chunks [OF out] by (auto simp: gw_request_def)
  have "ms = ?ms" using *(1) by (auto simp: ad_library_def map_eq_Cons_conv)
  moreover have "traverse (\<lambda>m. extract_text (ai_content m)) ?ms = Inr [[''he''], [''llo'']]" by code_simp
  ultimately show ?thesis using * out by (intro exI [of _ cs]) auto
qed

subsection \<open>The conversation\<close>

fun text_of :: "pyobj \<Rightarrow> string" where
  "text_of (PyStr s) = s"
| "text_of v = []"

fun part_from_langchain :: "pyobj \<Rightarrow> content_part" where
  "part_from_langchain (PyMap m) =
     (if get_field m ''type'' = PyStr ''text'' then TextPart (text_of (get_field m ''text''))
      else if get_field m ''type'' = PyStr ''image''
      then ImagePart (text_of (get_field m ''url'')) (text_of (get_field m ''mime_type''))
      else DocumentPart (text_of (get_field m ''url'')) (text_of (get_field m ''mime_type''))
        (text_or_none (get_field m ''title'')))"
| "part_from_langchain v = TextPart []"

fun from_langchain_message :: "lc_message \<Rightarrow> message" where
  "from_langchain_message (SystemMessage c n) =
     \<lparr>msg_role = System_Role, msg_content = map part_from_langchain c, msg_tool_call_id = None, msg_name = n\<rparr>"
| "from_langchain_message (HumanMessage c n) =
     \<lparr>msg_role = User_Role, msg_content = map part_from_langchain c, msg_tool_call_id = None, msg_name = n\<rparr>"
| "from_langchain_message (AIMessage c n) =
     \<lparr>msg_role = Assistant_Role, msg_content = map part_from_langchain c, msg_tool_call_id = None, msg_name = n\<rparr>"
| "from_langchain_message (ToolMessage c i n) =
     \<lparr>msg_role = Tool_Role, msg_content = map part_from_langchain c, msg_tool_call_id = i, msg_name = n\<rparr>"

lemma part_back: "part_from_langchain (part_to_langchain p) = p"
  by (cases p) (auto simp: get_field_def split: option.split)

text \<open>C40: The conversation is not changed on its way to the model: the messages given to the library determine
  role, content, name and tool-call id of every message of the request, in order.\<close>
theorem conversation_reaches_model:
  assumes "list_all (\<lambda>m. message_post_init m = Inr ()) ms"
  shows "map from_langchain_message (to_langchain_messages ms) = ms"
proof -
  have "from_langchain_message (to_langchain_message m) = m" if "message_post_init m = Inr ()" for m
    using that
    by (cases m; cases "msg_role m")
       (auto simp: to_langchain_message_def content_to_langchain_def message_post_init_def result_bind_eq_Inr
        require_eq_Inr comp_def part_back)
  with assms show ?thesis by (auto simp: to_langchain_messages_def list_all_iff intro!: map_idI)
qed

theorem conversation_reaches_model_witness:
  "map from_langchain_message (to_langchain_messages [gw_message]) = [gw_message]"
  by (rule conversation_reaches_model) code_simp

end
