(* ===== verification/Lease_Kernel.thy ===== *)
theory Lease_Kernel
  imports Lease_Authority
begin

section \<open>The worker lease kernel\<close>

text \<open>
  \<open>application/services/worker_lease_kernel.py\<close>: the service in front of the repository. Its type checks are
  the types of the model, so all calls but one are the repository's; a page is checked first.
\<close>

definition kernel_claim_intent_fingerprint :: "claim_lease_command \<Rightarrow> string" where
  "kernel_claim_intent_fingerprint c = claim_intent_fingerprint c"

definition kernel_calculate_renew_by :: "datetime \<Rightarrow> lease_duration \<Rightarrow> exn + datetime" where
  "kernel_calculate_renew_by captured_at d = renew_by_at captured_at d"

definition kernel_issue_claim_id :: "exn + unit \<Rightarrow> db_error + db_value \<Rightarrow> exn + lease_claim_id" where
  "kernel_issue_claim_id schema generated = issue_claim_id schema generated"

definition kernel_claim ::
    "(string \<Rightarrow> string \<Rightarrow> bool) \<Rightarrow> exn + unit \<Rightarrow> claim_lease_command \<Rightarrow> lease_token \<Rightarrow>
     claim_schedule \<Rightarrow> race_schedule \<Rightarrow> (lease_db \<times> (exn + claim_execution)) option" where
  "kernel_claim le schema cmd token sched race = claim le schema cmd token sched race"

definition kernel_get_authority ::
    "exn + unit \<Rightarrow> lease_db \<Rightarrow> lease_authority_proof \<Rightarrow> datetime \<Rightarrow> bool \<Rightarrow> exn + lease_authority" where
  "kernel_get_authority schema db proof clock fault = get_authority schema db proof clock fault"

definition kernel_renew ::
    "exn + unit \<Rightarrow> renew_lease_command \<Rightarrow> mutation_schedule \<Rightarrow> lease_db \<times> (exn + conditional_lease_outcome)" where
  "kernel_renew schema cmd sched = renew schema cmd sched"

definition kernel_release ::
    "exn + unit \<Rightarrow> release_lease_command \<Rightarrow> mutation_schedule \<Rightarrow> lease_db \<times> (exn + conditional_lease_outcome)" where
  "kernel_release schema cmd sched = release schema cmd sched"

definition kernel_get_inactive_running ::
    "exn + unit \<Rightarrow> lease_db \<Rightarrow> tenant_id \<Rightarrow> run_id \<Rightarrow> datetime \<Rightarrow> bool \<Rightarrow>
     exn + inactive_running_lease option" where
  "kernel_get_inactive_running schema db t r clock fault = get_inactive_running schema db t r clock fault"

definition kernel_list_inactive_running ::
    "(string \<Rightarrow> string \<Rightarrow> bool) \<Rightarrow> exn + unit \<Rightarrow> lease_db \<Rightarrow> tenant_id \<Rightarrow>
     inactive_running_cursor option \<Rightarrow> int \<Rightarrow> datetime \<Rightarrow> bool \<Rightarrow> exn + inactive_running_page" where
  "kernel_list_inactive_running le schema db t cursor limit clock fault =
     (if (case cursor of None \<Rightarrow> False | Some c \<Rightarrow> cu_tenant_id c \<noteq> t) then Inl ValueError
      else if \<not> (1 \<le> limit \<and> limit \<le> 1000) then Inl ValueError
      else list_inactive_running le schema db t cursor limit clock fault)"

text \<open>
  A cursor of another tenant, and a limit out of range, raise a bare \<open>ValueError\<close> in the service, where the
  repository alone raises the public \<open>INVALID_INPUT\<close>; for every other page the two agree.
\<close>

theorem kernel_page_errors:
  "if require_inactive_page t cursor limit = Inr ()
   then kernel_list_inactive_running le schema db t cursor limit clock fault =
     list_inactive_running le schema db t cursor limit clock fault
   else kernel_list_inactive_running le schema db t cursor limit clock fault = Inl ValueError \<and>
     list_inactive_running le schema db t cursor limit clock fault = Inl (lease_error LeaseInvalidInput)"
  by (auto simp: kernel_list_inactive_running_def list_inactive_running_def require_inactive_page_def
      split: option.splits)

end
