(* ===== verification/Spec2Isabelle.thy ===== *)
theory Spec2Isabelle
  imports Run_Properties Run_Commands Service_Properties Lease_Edge_Properties Gateway_Properties
    Limits_Properties Pg_Run_Properties
    Schema_Gates Adapter_Properties Lease_Kernel
begin

text \<open>
  \<^bold>\<open>A model of ZHIYI\<close>, the run kernel of an agent platform (Python, \<open>src/src/zhiyi\<close>).

  The program keeps \<^emph>\<open>runs\<close> (units of agent work with a hard budget), changes them by idempotent
  commands, stores them with an append-only event log, and lets workers own runs by \<^emph>\<open>leases\<close>.
  Everything the code computes is a function here; a call that may raise returns \<open>exn + 'a\<close>
  (\<open>Prelude.result_bind\<close> sequences such calls). Clocks, random tokens, database snapshots, storage
  faults and the collation of text columns are arguments.

  \<^bold>\<open>Values\<close> (\<open>Python_Values\<close>, \<open>Decimals\<close>, \<open>Json_Text\<close>, \<open>Sha256\<close>, \<open>Identifiers\<close>, \<open>Errors\<close>): the parts of Python
  and of its library that the code relies on: unbounded integers with the 4300-digit limit of
  their decimal text, aware datetimes between the years 1 and 9999 in microseconds, decimals,
  canonical JSON, SHA-256, the safe identifier patterns, and the error vocabularies with their
  public texts.

  \<^bold>\<open>Run aggregate\<close> (\<open>Budget\<close>, \<open>Events\<close>, \<open>Results\<close>, \<open>Aggregate\<close>): \<open>domain/runs\<close>. One record per dataclass, its
  \<open>__post_init__\<close> as \<open>..._post_init\<close>, one definition per operation. \<open>Run_Lifecycle_Props\<close> has a lemma for
  each operation, \<open>Run_History\<close> the inductive set of histories of a run with its invariant,
  \<open>Run_Outcomes\<close> the reference description of every operation (target, event, usage and result, or error; for a
  charge in terms of sums and limits) with the proof that the code meets it, \<open>Run_Properties\<close> the properties: usage
  is the sum of the accepted charges and stays within the budget, the log is gapless and determines
  the run, terminal runs do not change, deadlines are hard, charges are idempotent for the rest of a history,
  decimal and event round trips.

  \<^bold>\<open>Commands, repository, service\<close> (\<open>Run_Commands\<close>, \<open>Run_Repository\<close>, \<open>Memory_Repository\<close>, \<open>Run_Service\<close>,
  \<open>Run_System\<close>): \<open>application/commands/run_lifecycle.py\<close>, the repository port with its candidate
  validation, the in-memory repository and \<open>application/services/run_lifecycle.py\<close>. The locale
  \<open>run_repository\<close> states what the service relies on and is interpreted on the in-memory repository.
  The service functions take the repository state at each await, \<open>Run_System\<close> interleaves any number
  of calls, and \<open>Service_Properties\<close> shows that every stored run is a history of the aggregate, that
  commits are atomic, commands idempotent, and no update is lost.

  \<^bold>\<open>Worker leases\<close>: \<open>Lease_Values\<close> (\<open>domain/worker_leases\<close>, the lease commands, token digests),
  \<open>Lease_Records\<close> (\<open>postgresql_worker_lease_codecs.py\<close>), \<open>Lease_Storage\<close> (\<open>postgresql_transaction_support.py\<close>,
  the observations, and each SQL statement as the function on tables that its text denotes),
  \<open>Lease_Repository\<close> (claiming) and \<open>Lease_Authority\<close> (authority, renewal, release, inactive leases,
  telemetry), both from \<open>postgresql_worker_lease_repository.py\<close>. A transaction takes the snapshot that
  each of its statements sees under READ COMMITTED. \<open>Lease_Invariants\<close> and \<open>Lease_System\<close> lift the
  statements from rows to records and state the invariant, \<open>Lease_Steps\<close> and \<open>Lease_Mutations\<close> prove it
  for every operation and define the step relation; the row locks enter as the premises
  \<open>claim_locked\<close> and \<open>mutation_locked\<close> of that relation. \<open>Lease_Outcomes\<close> states when a renewal or release
  is applied, on the lease, the status of the run and the clock, and when it can raise. \<open>Lease_Queries\<close> has the locale \<open>collation\<close> for the
  order of text columns (interpreted on the order by code points) and the cursor pages.
  \<open>Lease_Replay\<close> follows a receipt from the claim that stored it to its replays.
  \<open>Lease_Properties\<close> and \<open>Lease_Edge_Properties\<close> have the properties: fencing, one holder at a time,
  takeover of free leases only, idempotent claims, conditional mutations, pagination, row round
  trips, storage faults, valid observations, and two inputs that the code answers wrongly.
  \<open>Lease_Kernel\<close> is \<open>application/services/worker_lease_kernel.py\<close>, which passes every call to the repository
  and checks the bounds of a page first.

  \<^bold>\<open>Schema gates\<close>: \<open>Schema_Compatibility\<close> (\<open>infrastructure/database/schema_compatibility.py\<close>) has the gate that
  a repository passes before it touches its tables, as a task with the await it has reached; the caches
  and locks are those of its engine, what a query returns is an argument. \<open>Schema_Gates\<close> interleaves any
  number of tasks, with cancellations, and proves that every component of an engine is read successfully
  at most once and that a call passes only with an accepted version. The lease operations take the outcome
  of the gate as an argument.

  \<^bold>\<open>Run records\<close> (\<open>postgresql_codecs.py\<close>): \<open>Json_Codec\<close> has the canonical printer and the strict reader of
  JSON texts and canonical integers, \<open>Json_Roundtrip\<close> their round trip, \<open>Iso_Timestamps\<close> the text of a
  datetime (\<open>isoformat\<close> and the text PostgreSQL puts into JSON) with its reader, \<open>Run_Records\<close> the rows of runs,
  events and receipts with their encoders and decoders, \<open>Run_Roundtrip\<close> what a stored value reads back as
  (\<open>stored_run\<close>, \<open>stored_event\<close>: decimals and key order normalised, equal as the code compares), \<open>Run_Decoders\<close>
  which exceptions a decoder can raise. A timestamp text outside the profile that is written is read by
  the parameter \<open>other\<close>.

  \<^bold>\<open>PostgreSQL run repository\<close>: \<open>Pg_Run_Repository\<close> (\<open>postgresql_run_repository.py\<close> with the keys of
  \<open>postgresql_schema.py\<close>). The tables are lists of rows; a commit takes a \<open>commit_schedule\<close>: the tables that its
  arbitration, its row lock, its lease query and its writes see, the clock, and a storage fault at one
  of its phases. \<open>Pg_Run_Simulation\<close> relates the tables to the in-memory repository (\<open>tables_match\<close>) and matches
  the queries, \<open>Pg_Commit_Simulation\<close> the commit of a transaction that runs alone, \<open>Pg_Commit_Laws\<close> reduces
  overlapping transactions to that case (\<open>locks_held\<close> says what the locks of PostgreSQL give), commits under
  a lease to plain commits, and treats storage failures in any phase: \<open>commit_attempts\<close> is a command attempted
  again and again, \<open>server_reports\<close> what PostgreSQL says of a commit that it applied; \<open>Pg_Event_Pages\<close> extends the locale
  \<open>collation\<close> by the order of digit texts (\<open>digit_collation\<close>, interpreted on code points) and matches event
  pages. \<open>Pg_Samples\<close> is a session of three commits with a lease for the witnesses, \<open>Pg_Run_Properties\<close> has the
  properties: the repository refines the in-memory one, also when transactions overlap, a commit under a
  lease is fenced and decides as \<open>get_authority\<close> does, a command that failures interrupt takes effect exactly
  once when it is retried, lost commits are answered by a retry, pages are segments of the log, rows round trip, decoders raise only the corruption error,
  and one replay that the code refuses wrongly. The hypotheses \<open>run_storable\<close>, \<open>event_storable\<close> and \<open>receipt_storable\<close> hold
  of the values that the constructors accept with times that the calendar can print; \<open>orderly\<close> excludes the
  creation of an existing run by a candidate that is broken too, for which the two repositories name
  different errors; \<open>replayable\<close> excludes that wrongly refused replay.

  \<^bold>\<open>Model gateway\<close>: \<open>Model_Values\<close> and \<open>Model_Contracts\<close> (\<open>application/models/contracts.py\<close>, the provider,
  secret and estimator ports), \<open>Model_Usage\<close> (the aggregate of usages), \<open>Token_Estimator\<close>,
  \<open>Circuit_Breaker\<close>, \<open>Rate_Limiter\<close> and \<open>Model_Gateway\<close> (\<open>application/services\<close>). A gateway call is a
  state transformer over the shared dictionaries, the local variables of the call, the chunks it
  yielded and a trace of its effects; the record \<open>world\<close> supplies each observation (clock, timestamp,
  random number, outcome of an await, and what other calls did to the shared state meanwhile).
  \<open>Gateway_Steps\<close> states as locales (\<open>call_steps\<close>, \<open>admit_law\<close>, \<open>body_law\<close>, \<open>stream_law\<close>) what a relation
  must satisfy to hold over a whole call body, \<open>Gateway_Laws\<close> interprets them on the relations that
  the properties need (deadlines, chunk numbers, visibility, traces), \<open>Gateway_Attempts\<close> shows which
  exceptions pass, \<open>Gateway_Loops\<close> has the locale \<open>attempt_contract\<close> under which retries and fallback
  are correct, \<open>Gateway_Calls\<close> interprets it for \<open>complete\<close> and \<open>stream\<close>, and \<open>Gateway_Shared\<close> treats the
  shared limiters and breakers. The contract of a breaker is the automaton \<open>mode_run\<close> over admissions and
  reports; \<open>grant_times\<close> are the moments at which a bucket grants tokens. \<open>Gateway_Properties\<close> and \<open>Limits_Properties\<close> have the properties, for
  every environment and every interleaving. Floats are rationals, infinities and NaN, without
  rounding; \<open>json.loads\<close>, the providers and the user's output contract are parameters.

  \<^bold>\<open>Provider adapters\<close>: \<open>Model_Adapters\<close> (\<open>adapters/models/langchain_base.py\<close>, \<open>openai.py\<close>, \<open>anthropic.py\<close>) translates
  a request into messages and arguments of a chat model, and what that model returns or raises into a
  response, chunks or a \<open>ModelError\<close>. The chat model is third-party code, the parameter \<open>chat_library\<close>.
  \<open>Adapter_Properties\<close> shows that only \<open>ModelError\<close>s with fixed public texts leave an adapter when the
  library raises none of its own (\<open>foreign_library\<close>), what responses and streams carry, and that
  the conversation reaches the model unchanged.

  \<^bold>\<open>Bounds.\<close> Loops of the code are structural recursions, except the claim loop, which follows the
  list of its iterations (it is unfinished, \<open>None\<close>, when they run out), and the client loop
  \<open>follow_pages\<close>, whose fuel need only exceed the number of leases by two.

  \<^bold>\<open>Not modelled.\<close> Drivers and I/O (SQLAlchemy calls, connection handling, environment secrets, settings and
  engine construction), table metadata and migrations (declarations for a third-party library),
  protocol classes without behaviour, the fake provider, the validation of structured output (pydantic) and
  the design-drift scripts, which check documents of the repository. Of an image URL only the scheme is
  parsed. Constructor checks on the dynamic types of arguments (\<open>isinstance\<close>) are the types of the model.
\<close>

end
